(* ===== verification/Gsso_Prelude.thy ===== *)
theory Gsso_Prelude
  imports Main "HOL-Library.Word" "HOL-Library.AList" "HOL-Library.Char_ord"
    "HOL-Library.List_Lexorder" "HOL-Library.Sublist" "HOL-Library.Multiset"
begin

text \<open>
  What every component of the model shares: the names of the C types, the comparison of C
  strings that the code does everywhere with \<^verbatim>\<open>g_strcmp0\<close>, the interface of a comparison
  function as \<^verbatim>\<open>GSequence\<close> and \<^verbatim>\<open>GList\<close> sort by it, and the collections of facts the
  components feed (\<open>gsso_simps\<close>: unfoldings of small operations; \<open>gsso_frame\<close>: what an
  operation leaves unchanged).

  A \<^verbatim>\<open>gchar *\<close> is a \<open>cstr\<close>: \<open>None\<close> is NULL, \<open>Some s\<close> a string. Where no NULL can
  occur the model has a plain \<open>string\<close>.
\<close>

named_theorems gsso_simps
named_theorems gsso_frame

type_synonym u32 = "32 word"
type_synonym i32 = "32 word"
type_synonym u64 = "64 word"
type_synonym cstr = "string option"

subsection \<open>C strings\<close>

text \<open>
  \<^verbatim>\<open>g_strcmp0\<close>: NULL sorts before every string, otherwise \<^verbatim>\<open>strcmp\<close>. Only the sign of the
  result is specified, so the model returns -1, 0 or 1.
\<close>

definition strcmp :: "string \<Rightarrow> string \<Rightarrow> int" where
  "strcmp a b = (if a = b then 0 else if a < b then -1 else 1)"

fun g_strcmp0 :: "cstr \<Rightarrow> cstr \<Rightarrow> int" where
  "g_strcmp0 None None = 0"
| "g_strcmp0 None (Some _) = -1"
| "g_strcmp0 (Some _) None = 1"
| "g_strcmp0 (Some a) (Some b) = strcmp a b"

lemma strcmp_eq_0 [simp]: "strcmp a b = 0 \<longleftrightarrow> a = b"
  by (simp add: strcmp_def)

lemma strcmp_swap: "strcmp b a = - strcmp a b"
  by (auto simp: strcmp_def)

lemma strcmp_le_0: "strcmp a b \<le> 0 \<longleftrightarrow> a \<le> b"
  by (auto simp: strcmp_def)

lemma g_strcmp0_eq_0 [simp]: "g_strcmp0 a b = 0 \<longleftrightarrow> a = b"
  by (cases a; cases b) simp_all

lemma g_strcmp0_swap: "g_strcmp0 b a = - g_strcmp0 a b"
  by (cases a; cases b) (auto intro: strcmp_swap)

lemma strcmp_trans: "strcmp a b \<le> 0 \<Longrightarrow> strcmp b c \<le> 0 \<Longrightarrow> strcmp a c \<le> 0"
  by (simp add: strcmp_le_0)

lemma g_strcmp0_trans: "g_strcmp0 a b \<le> 0 \<Longrightarrow> g_strcmp0 b c \<le> 0 \<Longrightarrow> g_strcmp0 a c \<le> 0"
  by (cases a; cases b; cases c) (auto intro: strcmp_trans)

text \<open>\<^verbatim>\<open>s ? s : ""\<close>\<close>

definition or_empty :: "cstr \<Rightarrow> string" where
  "or_empty s = (case s of Some x \<Rightarrow> x | None \<Rightarrow> '''')"

subsection \<open>Comparison functions\<close>

text \<open>
  The contract of a \<^verbatim>\<open>GCompareFunc\<close>: the sign decides, equality is 0, swapping the arguments
  flips the sign, and the order is transitive. \<^verbatim>\<open>g_sequence_insert_sorted\<close> puts an item after
  the items that compare equal to it; \<^verbatim>\<open>g_list_sort\<close> is a stable sort.
\<close>

locale compare_func =
  fixes cmp :: "'a \<Rightarrow> 'a \<Rightarrow> int"
  assumes cmp_eq: "cmp x y = 0 \<longleftrightarrow> x = y"
    and cmp_swap: "cmp y x = - cmp x y"
    and cmp_trans: "cmp x y \<le> 0 \<Longrightarrow> cmp y z \<le> 0 \<Longrightarrow> cmp x z \<le> 0"

fun insert_sorted :: "('a \<Rightarrow> 'a \<Rightarrow> int) \<Rightarrow> 'a \<Rightarrow> 'a list \<Rightarrow> 'a list" where
  "insert_sorted cmp x [] = [x]"
| "insert_sorted cmp x (y # ys) =
     (if cmp y x \<le> 0 then y # insert_sorted cmp x ys else x # y # ys)"

definition sort_cmp :: "('a \<Rightarrow> 'a \<Rightarrow> int) \<Rightarrow> 'a list \<Rightarrow> 'a list" where
  "sort_cmp cmp xs = fold (insert_sorted cmp) xs []"

definition sorted_cmp :: "('a \<Rightarrow> 'a \<Rightarrow> int) \<Rightarrow> 'a list \<Rightarrow> bool" where
  "sorted_cmp cmp = sorted_wrt (\<lambda>x y. cmp x y \<le> 0)"

lemma mset_insert_sorted [simp]: "mset (insert_sorted cmp x xs) = add_mset x (mset xs)"
  by (induction xs) auto

lemma set_insert_sorted [simp]: "set (insert_sorted cmp x xs) = insert x (set xs)"
  by (induction xs) auto

lemma length_insert_sorted [simp]: "length (insert_sorted cmp x xs) = Suc (length xs)"
  by (induction xs) auto

lemma mset_fold_insert_sorted:
  "mset (fold (insert_sorted cmp) xs acc) = mset xs + mset acc"
  by (induction xs arbitrary: acc) auto

lemma mset_sort_cmp [simp]: "mset (sort_cmp cmp xs) = mset xs"
  by (simp add: sort_cmp_def mset_fold_insert_sorted)

lemma set_sort_cmp [simp]: "set (sort_cmp cmp xs) = set xs"
  by (metis mset_sort_cmp set_mset_mset)

lemma length_sort_cmp [simp]: "length (sort_cmp cmp xs) = length xs"
  by (metis mset_sort_cmp size_mset)

lemma sort_cmp_Nil [simp]: "sort_cmp cmp [] = []"
  by (simp add: sort_cmp_def)

context compare_func
begin

lemma cmp_refl [simp]: "cmp x x = 0"
  by (simp add: cmp_eq)

lemma cmp_antisym: "cmp x y \<le> 0 \<Longrightarrow> cmp y x \<le> 0 \<Longrightarrow> x = y"
  using cmp_swap [of x y] cmp_eq [of x y] by linarith

lemma cmp_total: "cmp x y \<le> 0 \<or> cmp y x \<le> 0"
  using cmp_swap [of x y] by linarith

lemma sorted_insert: "sorted_cmp cmp xs \<Longrightarrow> sorted_cmp cmp (insert_sorted cmp x xs)"
proof (induction xs)
  case (Cons y ys)
  show ?case
  proof (cases "cmp y x \<le> 0")
    case True
    with Cons show ?thesis by (auto simp: sorted_cmp_def)
  next
    case False
    then have "cmp x y \<le> 0" using cmp_total by blast
    with False Cons.prems show ?thesis
      by (auto simp: sorted_cmp_def intro: cmp_trans)
  qed
qed (simp add: sorted_cmp_def)

lemma sorted_fold: "sorted_cmp cmp acc \<Longrightarrow> sorted_cmp cmp (fold (insert_sorted cmp) xs acc)"
  by (induction xs arbitrary: acc) (auto intro: sorted_insert)

lemma sorted_sort: "sorted_cmp cmp (sort_cmp cmp xs)"
  by (simp add: sort_cmp_def sorted_fold) (simp add: sorted_cmp_def sorted_fold [unfolded sorted_cmp_def])

lemma sorted_unique:
  "sorted_cmp cmp xs \<Longrightarrow> sorted_cmp cmp ys \<Longrightarrow> mset xs = mset ys \<Longrightarrow> xs = ys"
proof (induction xs arbitrary: ys)
  case (Cons x xs)
  then obtain y ys' where ys: "ys = y # ys'" by (cases ys) auto
  have "x \<in> set ys" "y \<in> set (x # xs)"
    using Cons.prems(3) ys by (metis list.set_intros(1) set_mset_mset)+
  with Cons.prems ys have "cmp x y \<le> 0" "cmp y x \<le> 0"
    by (auto simp: sorted_cmp_def)
  then have "x = y" by (rule cmp_antisym)
  with Cons ys show ?case by (auto simp: sorted_cmp_def)
qed simp

lemma insert_at_end:
  "sorted_cmp cmp (xs @ [x]) \<Longrightarrow> insert_sorted cmp x xs = xs @ [x]"
  by (induction xs) (auto simp: sorted_cmp_def)

lemma fold_sorted:
  "sorted_cmp cmp (acc @ xs) \<Longrightarrow> fold (insert_sorted cmp) xs acc = acc @ xs"
proof (induction xs arbitrary: acc)
  case (Cons x xs)
  then have "sorted_cmp cmp (acc @ [x])"
    by (auto simp: sorted_cmp_def sorted_wrt_append)
  then show ?case using Cons by (simp add: insert_at_end)
qed simp

lemma sort_sorted_id: "sorted_cmp cmp xs \<Longrightarrow> sort_cmp cmp xs = xs"
  using fold_sorted [of "[]" xs] by (simp add: sort_cmp_def)

lemma sort_perm: "mset xs = mset ys \<Longrightarrow> sort_cmp cmp xs = sort_cmp cmp ys"
  by (rule sorted_unique) (simp_all add: sorted_sort)

end

interpretation strord: compare_func strcmp
  by (unfold_locales, simp, rule strcmp_swap, rule strcmp_trans)

interpretation cstrord: compare_func g_strcmp0
  by (unfold_locales, simp, rule g_strcmp0_swap, rule g_strcmp0_trans)

subsection \<open>Association lists with distinct keys\<close>

text \<open>
  A \<^verbatim>\<open>GHashTable\<close> is an association list with distinct keys. GLib does not specify the order
  in which a table is iterated; theorems about the model speak about \<open>map_of\<close>, so they do not
  depend on it.
\<close>

abbreviation keys_distinct :: "('k \<times> 'v) list \<Rightarrow> bool" where
  "keys_distinct t \<equiv> distinct (map fst t)"

lemma keys_distinct_update [simp]: "keys_distinct t \<Longrightarrow> keys_distinct (AList.update k v t)"
  using AList.distinct_update [of t k v] by simp

lemma keys_distinct_delete [simp]: "keys_distinct t \<Longrightarrow> keys_distinct (AList.delete k t)"
  using AList.distinct_delete [of t k] by simp

lemma map_of_fold_update:
  "map_of (fold (\<lambda>(k, v). AList.update k v) xs t) = map_of t ++ map_of (rev xs)"
  by (induction xs arbitrary: t) (auto simp: update_conv' map_add_def split: option.splits)

lemma map_of_fold_update_distinct:
  "keys_distinct xs \<Longrightarrow> map_of (fold (\<lambda>(k, v). AList.update k v) xs []) = map_of xs"
  by (simp add: map_of_fold_update)
    (rule map_of_eqI, auto simp: rev_map [symmetric] map_of_eq_Some_iff)

lemma keys_distinct_fold_update:
  "keys_distinct t \<Longrightarrow> keys_distinct (fold (\<lambda>(k, v). AList.update k v) xs t)"
  by (induction xs arbitrary: t) auto

lemma map_of_eq_None_delete [simp]: "map_of (AList.delete k t) k = None"
  by (simp add: delete_conv')

lemma update_same_id: "map_of t k = Some v \<Longrightarrow> AList.update k v t = t"
  by (induction t) auto

subsection \<open>Changing an entry of a table\<close>

lemma fst_map_entry [simp]: "map fst (AList.map_entry k f xs) = map fst xs"
  by (induction xs) auto

lemma fst_set_map_entry [simp]: "fst ` set (AList.map_entry k f xs) = fst ` set xs"
  by (metis fst_map_entry list.set_map)

lemma map_of_map_entry: "map_of (AList.map_entry k f xs) n = (if n = k then map_option f (map_of xs k) else map_of xs n)"
  by (induction xs) auto

lemma map_entry_twice [simp]: "AList.map_entry k f (AList.map_entry k h xs) = AList.map_entry k (\<lambda>a. f (h a)) xs"
  by (induction xs) auto

lemma delete_map_entry [simp]: "AList.delete n (AList.map_entry n f xs) = AList.delete n xs"
  by (induction xs) auto

lemma delete_fresh: "k \<notin> fst ` set xs \<Longrightarrow> AList.delete k xs = xs"
  by (induction xs) auto

lemma delete_append: "AList.delete k (xs @ ys) = AList.delete k xs @ AList.delete k ys"
  by (simp add: AList.delete_eq)

end
