(* ===== verification/Gsso_Dictionary.thy ===== *)
theory Gsso_Dictionary
  imports Gsso_Prelude
begin

text \<open>
  \<^verbatim>\<open>GVariant\<close> values and \<^verbatim>\<open>src/src/common/gsignond-dictionary.c\<close>: a \<^verbatim>\<open>GSignondDictionary\<close> is
  a hash table from strings to variants, here an association list with distinct keys.
  The typed getters of the code return a flag and write through a pointer only when the key is
  present: the model returns \<open>None\<close> or \<open>Some\<close> of the value written. Reading a variant with the
  accessor of another type is an error in GLib: it logs and returns 0, FALSE or NULL, and so do
  the accessors below.

  The interface \<open>kv_store\<close> states what the clients of a dictionary rely on; it is interpreted on
  the operations of this file.
\<close>

subsection \<open>Variants\<close>

datatype gvariant =
    VBoolean bool
  | VInt32 i32
  | VUint32 u32
  | VInt64 "64 word"
  | VUint64 u64
  | VString string
  | VArray string "gvariant list"
  | VTuple "gvariant list"
  | VDictEntry gvariant gvariant
  | VVariant gvariant

fun g_variant_type :: "gvariant \<Rightarrow> string" where
  "g_variant_type (VBoolean _) = ''b''"
| "g_variant_type (VInt32 _) = ''i''"
| "g_variant_type (VUint32 _) = ''u''"
| "g_variant_type (VInt64 _) = ''x''"
| "g_variant_type (VUint64 _) = ''t''"
| "g_variant_type (VString _) = ''s''"
| "g_variant_type (VArray t _) = CHR ''a'' # t"
| "g_variant_type (VTuple vs) = ''('' @ concat (map g_variant_type vs) @ '')''"
| "g_variant_type (VDictEntry k v) = ''{'' @ g_variant_type k @ g_variant_type v @ ''}''"
| "g_variant_type (VVariant _) = ''v''"

fun g_variant_get_boolean :: "gvariant \<Rightarrow> bool" where
  "g_variant_get_boolean (VBoolean b) = b"
| "g_variant_get_boolean _ = False"

fun g_variant_get_int32 :: "gvariant \<Rightarrow> i32" where
  "g_variant_get_int32 (VInt32 i) = i"
| "g_variant_get_int32 _ = 0"

fun g_variant_get_uint32 :: "gvariant \<Rightarrow> u32" where
  "g_variant_get_uint32 (VUint32 u) = u"
| "g_variant_get_uint32 _ = 0"

fun g_variant_get_int64 :: "gvariant \<Rightarrow> 64 word" where
  "g_variant_get_int64 (VInt64 i) = i"
| "g_variant_get_int64 _ = 0"

fun g_variant_get_uint64 :: "gvariant \<Rightarrow> u64" where
  "g_variant_get_uint64 (VUint64 u) = u"
| "g_variant_get_uint64 _ = 0"

fun g_variant_get_string :: "gvariant \<Rightarrow> cstr" where
  "g_variant_get_string (VString s) = Some s"
| "g_variant_get_string _ = None"

text \<open>\<^verbatim>\<open>g_variant_new_string (NULL)\<close> is refused with NULL.\<close>

definition g_variant_new_string :: "cstr \<Rightarrow> gvariant option" where
  "g_variant_new_string s = map_option VString s"

fun g_variant_children :: "gvariant \<Rightarrow> gvariant list" where
  "g_variant_children (VArray _ vs) = vs"
| "g_variant_children (VTuple vs) = vs"
| "g_variant_children (VDictEntry k v) = [k, v]"
| "g_variant_children (VVariant v) = [v]"
| "g_variant_children _ = []"

subsection \<open>The dictionary\<close>

type_synonym dictionary = "(string \<times> gvariant) list"

definition gsignond_dictionary_new :: dictionary where
  "gsignond_dictionary_new = []"

definition gsignond_dictionary_get :: "dictionary \<Rightarrow> string \<Rightarrow> gvariant option" where
  "gsignond_dictionary_get dict key = map_of dict key"

text \<open>
  \<open>gsignond_dictionary_set\<close> refuses a NULL value (the guard of the code) and returns whether it
  stored; the table keeps one entry per key.
\<close>

definition gsignond_dictionary_set ::
  "dictionary \<Rightarrow> string \<Rightarrow> gvariant option \<Rightarrow> bool \<times> dictionary" where
  "gsignond_dictionary_set dict key value =
     (case value of None \<Rightarrow> (False, dict) | Some v \<Rightarrow> (True, AList.update key v dict))"

definition gsignond_dictionary_remove :: "dictionary \<Rightarrow> string \<Rightarrow> bool \<times> dictionary" where
  "gsignond_dictionary_remove dict key =
     (map_of dict key \<noteq> None, AList.delete key dict)"

definition gsignond_dictionary_contains :: "dictionary \<Rightarrow> string \<Rightarrow> bool" where
  "gsignond_dictionary_contains dict key = (map_of dict key \<noteq> None)"

definition gsignond_dictionary_copy :: "dictionary \<Rightarrow> dictionary" where
  "gsignond_dictionary_copy other =
     fold (\<lambda>(k, v) dict. snd (gsignond_dictionary_set dict k (Some v))) other gsignond_dictionary_new"

definition gsignond_dictionary_get_boolean :: "dictionary \<Rightarrow> string \<Rightarrow> bool option" where
  "gsignond_dictionary_get_boolean dict key =
     map_option g_variant_get_boolean (gsignond_dictionary_get dict key)"

definition gsignond_dictionary_set_boolean :: "dictionary \<Rightarrow> string \<Rightarrow> bool \<Rightarrow> bool \<times> dictionary" where
  "gsignond_dictionary_set_boolean dict key value = gsignond_dictionary_set dict key (Some (VBoolean value))"

definition gsignond_dictionary_get_int32 :: "dictionary \<Rightarrow> string \<Rightarrow> i32 option" where
  "gsignond_dictionary_get_int32 dict key =
     map_option g_variant_get_int32 (gsignond_dictionary_get dict key)"

definition gsignond_dictionary_set_int32 :: "dictionary \<Rightarrow> string \<Rightarrow> i32 \<Rightarrow> bool \<times> dictionary" where
  "gsignond_dictionary_set_int32 dict key value = gsignond_dictionary_set dict key (Some (VInt32 value))"

definition gsignond_dictionary_get_uint32 :: "dictionary \<Rightarrow> string \<Rightarrow> u32 option" where
  "gsignond_dictionary_get_uint32 dict key =
     map_option g_variant_get_uint32 (gsignond_dictionary_get dict key)"

definition gsignond_dictionary_set_uint32 :: "dictionary \<Rightarrow> string \<Rightarrow> u32 \<Rightarrow> bool \<times> dictionary" where
  "gsignond_dictionary_set_uint32 dict key value = gsignond_dictionary_set dict key (Some (VUint32 value))"

definition gsignond_dictionary_get_int64 :: "dictionary \<Rightarrow> string \<Rightarrow> 64 word option" where
  "gsignond_dictionary_get_int64 dict key =
     map_option g_variant_get_int64 (gsignond_dictionary_get dict key)"

definition gsignond_dictionary_set_int64 :: "dictionary \<Rightarrow> string \<Rightarrow> 64 word \<Rightarrow> bool \<times> dictionary" where
  "gsignond_dictionary_set_int64 dict key value = gsignond_dictionary_set dict key (Some (VInt64 value))"

definition gsignond_dictionary_get_uint64 :: "dictionary \<Rightarrow> string \<Rightarrow> u64 option" where
  "gsignond_dictionary_get_uint64 dict key =
     map_option g_variant_get_uint64 (gsignond_dictionary_get dict key)"

definition gsignond_dictionary_set_uint64 :: "dictionary \<Rightarrow> string \<Rightarrow> u64 \<Rightarrow> bool \<times> dictionary" where
  "gsignond_dictionary_set_uint64 dict key value = gsignond_dictionary_set dict key (Some (VUint64 value))"

definition gsignond_dictionary_get_string :: "dictionary \<Rightarrow> string \<Rightarrow> cstr" where
  "gsignond_dictionary_get_string dict key =
     (case gsignond_dictionary_get dict key of None \<Rightarrow> None | Some v \<Rightarrow> g_variant_get_string v)"

definition gsignond_dictionary_set_string :: "dictionary \<Rightarrow> string \<Rightarrow> cstr \<Rightarrow> bool \<times> dictionary" where
  "gsignond_dictionary_set_string dict key value =
     gsignond_dictionary_set dict key (g_variant_new_string value)"

subsection \<open>Conversion to and from variants\<close>

text \<open>
  The builder of \<^verbatim>\<open>gsignond_dictionary_to_variant_builder\<close> is the list of \<^verbatim>\<open>{sv}\<close> entries added
  so far. \<^verbatim>\<open>g_variant_iter_next\<close> returns FALSE, and the reading loop stops, at a child that is
  not a \<^verbatim>\<open>{sv}\<close>.
\<close>

definition gsignond_dictionary_to_variant_builder :: "dictionary \<Rightarrow> gvariant list" where
  "gsignond_dictionary_to_variant_builder dict =
     map (\<lambda>(k, v). VDictEntry (VString k) (VVariant v)) dict"

definition gsignond_dictionary_to_variant :: "dictionary \<Rightarrow> gvariant" where
  "gsignond_dictionary_to_variant dict = VArray ''{sv}'' (gsignond_dictionary_to_variant_builder dict)"

fun dictionary_read_entries :: "gvariant list \<Rightarrow> dictionary \<Rightarrow> dictionary" where
  "dictionary_read_entries (VDictEntry (VString k) (VVariant v) # vs) dict =
     dictionary_read_entries vs (AList.update k v dict)"
| "dictionary_read_entries _ dict = dict"

definition gsignond_dictionary_new_from_variant :: "gvariant option \<Rightarrow> dictionary option" where
  "gsignond_dictionary_new_from_variant variant =
     (case variant of
        None \<Rightarrow> None
      | Some v \<Rightarrow> Some (dictionary_read_entries (g_variant_children v) gsignond_dictionary_new))"

subsection \<open>The interface\<close>

locale kv_store =
  fixes empty :: 'd
    and get :: "'d \<Rightarrow> 'k \<Rightarrow> 'v option"
    and put :: "'d \<Rightarrow> 'k \<Rightarrow> 'v \<Rightarrow> 'd"
    and del :: "'d \<Rightarrow> 'k \<Rightarrow> 'd"
    and entries :: "'d \<Rightarrow> ('k \<times> 'v) list"
    and invar :: "'d \<Rightarrow> bool"
  assumes get_empty: "get empty k = None"
    and get_put: "get (put d k v) k' = (if k' = k then Some v else get d k')"
    and get_del: "get (del d k) k' = (if k' = k then None else get d k')"
    and entries_keys: "invar d \<Longrightarrow> keys_distinct (entries d)"
    and entries_get: "map_of (entries d) = get d"
    and invar_empty: "invar empty"
    and invar_put: "invar d \<Longrightarrow> invar (put d k v)"
    and invar_del: "invar d \<Longrightarrow> invar (del d k)"
begin

lemma get_put_same [simp]: "get (put d k v) k = Some v"
  by (simp add: get_put)

lemma get_put_other [simp]: "k' \<noteq> k \<Longrightarrow> get (put d k v) k' = get d k'"
  by (simp add: get_put)

lemma put_commute: "k \<noteq> k' \<Longrightarrow> get (put (put d k v) k' v') = get (put (put d k' v') k v)"
  by (rule ext) (simp add: get_put)

lemma put_put: "get (put (put d k v) k v') = get (put d k v')"
  by (rule ext) (simp add: get_put)

lemma put_same: "get d k = Some v \<Longrightarrow> get (put d k v) = get d"
  by (rule ext) (simp add: get_put)

lemma get_fold_put:
  "get (fold (\<lambda>(k, v) d. put d k v) es d) = get d ++ map_of (rev es)"
  by (induction es arbitrary: d)
     (auto simp: fun_eq_iff get_put map_add_def split: option.splits if_splits)

lemma invar_fold_put: "invar d \<Longrightarrow> invar (fold (\<lambda>(k, v) d. put d k v) es d)"
  by (induction es arbitrary: d) (auto intro: invar_put)

lemma get_empty_fun: "get empty = Map.empty"
  by (rule ext) (simp add: get_empty)

text \<open>Copying entry by entry, in whatever order the entries come, yields the same lookups.\<close>

lemma get_rebuild_entries:
  assumes "invar d" and "mset es = mset (entries d)"
  shows "get (fold (\<lambda>(k, v) d. put d k v) es empty) = get d"
proof -
  have "mset (map fst (rev es)) = mset (map fst (entries d))"
    by (simp only: mset_map mset_rev assms(2))
  then have "keys_distinct (rev es)"
    using entries_keys [OF assms(1)] by (metis mset_eq_imp_distinct_iff)
  moreover have "set (rev es) = set (entries d)"
    using assms(2) by (metis set_mset_mset set_rev)
  ultimately have "map_of (rev es) = map_of (entries d)"
    by (metis entries_keys [OF assms(1)] map_of_inject_set)
  then show ?thesis
    by (simp add: get_fold_put get_empty_fun entries_get)
qed

end

abbreviation dict_put :: "dictionary \<Rightarrow> string \<Rightarrow> gvariant \<Rightarrow> dictionary" where
  "dict_put d k v \<equiv> snd (gsignond_dictionary_set d k (Some v))"

abbreviation dict_del :: "dictionary \<Rightarrow> string \<Rightarrow> dictionary" where
  "dict_del d k \<equiv> snd (gsignond_dictionary_remove d k)"

lemma dict_get_fun: "gsignond_dictionary_get d = map_of d"
  by (rule ext) (simp add: gsignond_dictionary_get_def)

lemma dict_put_eq: "gsignond_dictionary_set d k (Some v) = (True, AList.update k v d)"
  by (simp add: gsignond_dictionary_set_def)

lemma dict_put_None: "gsignond_dictionary_set d k None = (False, d)"
  by (simp add: gsignond_dictionary_set_def)

lemma dict_del_eq: "dict_del d k = AList.delete k d"
  by (simp add: gsignond_dictionary_remove_def)

interpretation dict: kv_store gsignond_dictionary_new gsignond_dictionary_get dict_put dict_del
    "\<lambda>d. d" "\<lambda>d. keys_distinct d"
proof (unfold_locales, goal_cases)
  case 1 show ?case by (simp add: gsignond_dictionary_new_def dict_get_fun)
next
  case 2 show ?case by (simp add: dict_get_fun dict_put_eq update_conv')
next
  case 3 show ?case by (simp add: dict_get_fun dict_del_eq delete_conv')
next
  case 6 show ?case by (simp add: gsignond_dictionary_new_def)
qed (simp_all add: dict_get_fun dict_put_eq dict_del_eq)

subsection \<open>Properties\<close>

lemma dictionary_read_entries_builder:
  "dictionary_read_entries (gsignond_dictionary_to_variant_builder d) acc =
     fold (\<lambda>(k, v) d. dict_put d k v) d acc"
  by (induction d arbitrary: acc)
     (auto simp: gsignond_dictionary_to_variant_builder_def dict_put_eq)

lemma dict_rebuild:
  "keys_distinct d \<Longrightarrow>
     gsignond_dictionary_get (fold (\<lambda>(k, v) d. dict_put d k v) d gsignond_dictionary_new) =
     gsignond_dictionary_get d"
  by (rule dict.get_rebuild_entries) simp_all

lemma dict_copy_get [simp]:
  "keys_distinct d \<Longrightarrow> map_of (gsignond_dictionary_copy d) = map_of d"
  using dict_rebuild [of d] by (simp add: gsignond_dictionary_copy_def dict_get_fun)

lemma dict_copy_distinct [simp]: "keys_distinct (gsignond_dictionary_copy d)"
  unfolding gsignond_dictionary_copy_def
  by (rule dict.invar_fold_put) (rule dict.invar_empty)

lemma dict_from_to_variant:
  assumes "keys_distinct d"
  obtains m where
    "gsignond_dictionary_new_from_variant (Some (gsignond_dictionary_to_variant d)) = Some m"
    "map_of m = map_of d" "keys_distinct m"
proof -
  let ?m = "fold (\<lambda>(k, v) d. dict_put d k v) d gsignond_dictionary_new"
  have "gsignond_dictionary_new_from_variant (Some (gsignond_dictionary_to_variant d)) = Some ?m"
    by (simp add: gsignond_dictionary_new_from_variant_def gsignond_dictionary_to_variant_def
        dictionary_read_entries_builder)
  moreover have "map_of ?m = map_of d"
    using dict_rebuild [OF assms] by (simp add: dict_get_fun)
  moreover have "keys_distinct ?m"
    by (rule dict.invar_fold_put) (rule dict.invar_empty)
  ultimately show ?thesis by (rule that)
qed

lemma dict_read_distinct:
  "keys_distinct d \<Longrightarrow> keys_distinct (dictionary_read_entries vs d)"
  by (induction vs d rule: dictionary_read_entries.induct) simp_all

lemma dict_from_variant_distinct:
  "gsignond_dictionary_new_from_variant v = Some m \<Longrightarrow> keys_distinct m"
  by (auto simp: gsignond_dictionary_new_from_variant_def gsignond_dictionary_new_def
      intro!: dict_read_distinct split: option.splits)

text \<open>
  A dictionary survives the trip through a variant: reading back what
  \<^verbatim>\<open>gsignond_dictionary_to_variant\<close> wrote gives a table with the same value, or the same
  absence, under every key, and so does copying; both results have distinct keys again.
\<close>

lemma dictionary_variant_roundtrip:
  assumes "keys_distinct d"
  shows "(\<exists>m. gsignond_dictionary_new_from_variant (Some (gsignond_dictionary_to_variant d)) = Some m
            \<and> keys_distinct m \<and> gsignond_dictionary_get m = gsignond_dictionary_get d)
       \<and> keys_distinct (gsignond_dictionary_copy d)
       \<and> gsignond_dictionary_get (gsignond_dictionary_copy d) = gsignond_dictionary_get d"
  by (rule dict_from_to_variant [OF assms]) (simp add: dict_get_fun assms)

lemma dictionary_variant_roundtrip_witness:
  "gsignond_dictionary_get (gsignond_dictionary_copy
      [(''Caption'', VString ''work''), (''Id'', VUint32 7)]) =
   gsignond_dictionary_get [(''Caption'', VString ''work''), (''Id'', VUint32 7)]"
  using dictionary_variant_roundtrip [of "[(''Caption'', VString ''work''), (''Id'', VUint32 7)]"]
  by simp

end
