(* ===== verification/Gsso_Security_Context.thy ===== *)
theory Gsso_Security_Context
  imports Gsso_Dictionary
begin

text \<open>
  \<^verbatim>\<open>src/src/common/gsignond-security-context.c\<close>. Both fields of a context are strings that the
  constructors never leave NULL. A \<open>security_context option\<close> is a pointer that may be NULL. Where
  the code compares two pointers first, equal pointers have equal contents, and the comparison of
  the contents gives the same answer.

  A list read from a variant has a NULL element for each child that is not a pair of strings.
\<close>

record security_context =
  sys_ctx :: string
  app_ctx :: string

definition gsignond_security_context_new :: security_context where
  "gsignond_security_context_new = \<lparr>sys_ctx = '''', app_ctx = ''''\<rparr>"

definition gsignond_security_context_new_from_values :: "cstr \<Rightarrow> cstr \<Rightarrow> security_context option" where
  "gsignond_security_context_new_from_values system_context application_context =
     (case system_context of
        None \<Rightarrow> None
      | Some s \<Rightarrow> Some \<lparr>sys_ctx = s, app_ctx = (case application_context of None \<Rightarrow> '''' | Some a \<Rightarrow> a)\<rparr>)"

definition gsignond_security_context_copy :: "security_context option \<Rightarrow> security_context option" where
  "gsignond_security_context_copy src_ctx =
     (case src_ctx of
        None \<Rightarrow> None
      | Some c \<Rightarrow> gsignond_security_context_new_from_values (Some (sys_ctx c)) (Some (app_ctx c)))"

definition gsignond_security_context_set_system_context ::
  "security_context \<Rightarrow> cstr \<Rightarrow> security_context" where
  "gsignond_security_context_set_system_context ctx system_context =
     ctx\<lparr>sys_ctx := (case system_context of Some s \<Rightarrow> s | None \<Rightarrow> '''')\<rparr>"

definition gsignond_security_context_get_system_context :: "security_context option \<Rightarrow> cstr" where
  "gsignond_security_context_get_system_context ctx = map_option sys_ctx ctx"

definition gsignond_security_context_set_application_context ::
  "security_context \<Rightarrow> cstr \<Rightarrow> security_context" where
  "gsignond_security_context_set_application_context ctx application_context =
     ctx\<lparr>app_ctx := (case application_context of Some s \<Rightarrow> s | None \<Rightarrow> '''')\<rparr>"

definition gsignond_security_context_get_application_context :: "security_context option \<Rightarrow> cstr" where
  "gsignond_security_context_get_application_context ctx = map_option app_ctx ctx"

definition gsignond_security_context_to_variant :: "security_context \<Rightarrow> gvariant" where
  "gsignond_security_context_to_variant ctx = VTuple [VString (sys_ctx ctx), VString (app_ctx ctx)]"

text \<open>\<^verbatim>\<open>g_variant_get\<close> on a variant of another type leaves both strings NULL.\<close>

fun gsignond_security_context_from_variant :: "gvariant option \<Rightarrow> security_context option" where
  "gsignond_security_context_from_variant (Some (VTuple [VString s, VString a])) =
     gsignond_security_context_new_from_values (Some s) (Some a)"
| "gsignond_security_context_from_variant _ = None"

definition gsignond_security_context_compare ::
  "security_context option \<Rightarrow> security_context option \<Rightarrow> int" where
  "gsignond_security_context_compare ctx1 ctx2 =
     (case (ctx1, ctx2) of
        (None, None) \<Rightarrow> 0
      | (None, Some _) \<Rightarrow> -1
      | (Some _, None) \<Rightarrow> 1
      | (Some c1, Some c2) \<Rightarrow>
          (let res = g_strcmp0 (Some (sys_ctx c1)) (Some (sys_ctx c2))
           in if res = 0 then g_strcmp0 (Some (app_ctx c1)) (Some (app_ctx c2)) else res))"

definition gsignond_security_context_match ::
  "security_context option \<Rightarrow> security_context option \<Rightarrow> bool" where
  "gsignond_security_context_match ctx1 ctx2 =
     (case (ctx1, ctx2) of
        (None, None) \<Rightarrow> True
      | (Some c1, Some c2) \<Rightarrow>
          (if g_strcmp0 (Some (sys_ctx c1)) (Some ''*'') = 0 \<or>
              g_strcmp0 (Some (sys_ctx c2)) (Some ''*'') = 0 then True
           else if g_strcmp0 (Some (sys_ctx c1)) (Some (sys_ctx c2)) = 0 then
             (if g_strcmp0 (Some (app_ctx c1)) (Some ''*'') = 0 \<or>
                 g_strcmp0 (Some (app_ctx c2)) (Some ''*'') = 0 then True
              else g_strcmp0 (Some (app_ctx c1)) (Some (app_ctx c2)) = 0)
           else False)
      | _ \<Rightarrow> False)"

definition gsignond_security_context_check ::
  "security_context option \<Rightarrow> security_context option \<Rightarrow> bool" where
  "gsignond_security_context_check reference test =
     (case (reference, test) of
        (Some r, Some t) \<Rightarrow>
          (if g_strcmp0 (Some (sys_ctx r)) (Some ''*'') = 0 then True
           else if g_strcmp0 (Some (sys_ctx r)) (Some (sys_ctx t)) = 0 then
             (if g_strcmp0 (Some (app_ctx r)) (Some ''*'') = 0 then True
              else g_strcmp0 (Some (app_ctx r)) (Some (app_ctx t)) = 0)
           else False)
      | _ \<Rightarrow> False)"

subsection \<open>Lists of contexts\<close>

type_synonym security_context_list = "security_context option list"

text \<open>
  The builder starts with the indefinite array type, so \<^verbatim>\<open>g_variant_builder_end\<close> cannot infer a
  type from no children: it is refused with NULL for the empty list.
\<close>

definition gsignond_security_context_list_to_variant :: "security_context list \<Rightarrow> gvariant option" where
  "gsignond_security_context_list_to_variant list =
     (if list = [] then None
      else Some (VArray ''(ss)'' (map gsignond_security_context_to_variant list)))"

definition gsignond_security_context_list_from_variant :: "gvariant \<Rightarrow> security_context_list" where
  "gsignond_security_context_list_from_variant variant =
     map (\<lambda>value. gsignond_security_context_from_variant (Some value)) (g_variant_children variant)"

definition gsignond_security_context_list_copy :: "security_context_list \<Rightarrow> security_context_list" where
  "gsignond_security_context_list_copy src_list = map gsignond_security_context_copy src_list"

lemmas secctx_defs =
  gsignond_security_context_new_from_values_def gsignond_security_context_copy_def
  gsignond_security_context_set_system_context_def gsignond_security_context_get_system_context_def
  gsignond_security_context_set_application_context_def
  gsignond_security_context_get_application_context_def gsignond_security_context_to_variant_def

lemma copy_id [simp]: "gsignond_security_context_copy c = c"
  by (cases c) (simp_all add: secctx_defs)

lemma list_copy_id [simp]: "gsignond_security_context_list_copy l = l"
  by (simp add: gsignond_security_context_list_copy_def map_idI)

subsection \<open>The order of contexts\<close>

text \<open>
  The library's class of linear orders, on contexts by system context first: the order that
  \<open>gsignond_security_context_compare\<close> computes.
\<close>

instantiation security_context_ext :: (linorder) linorder
begin

definition less_eq_security_context_ext ::
  "'a security_context_ext \<Rightarrow> 'a security_context_ext \<Rightarrow> bool" where
  "less_eq_security_context_ext x y \<longleftrightarrow>
     sys_ctx x < sys_ctx y \<or> sys_ctx x = sys_ctx y \<and>
       (app_ctx x < app_ctx y \<or> app_ctx x = app_ctx y \<and>
          security_context.more x \<le> security_context.more y)"

definition less_security_context_ext ::
  "'a security_context_ext \<Rightarrow> 'a security_context_ext \<Rightarrow> bool" where
  "less_security_context_ext x y \<longleftrightarrow>
     sys_ctx x < sys_ctx y \<or> sys_ctx x = sys_ctx y \<and>
       (app_ctx x < app_ctx y \<or> app_ctx x = app_ctx y \<and>
          security_context.more x < security_context.more y)"

instance
proof
  fix x y z :: "'a security_context_ext"
  show "x < y \<longleftrightarrow> x \<le> y \<and> \<not> y \<le> x"
    by (auto simp: less_eq_security_context_ext_def less_security_context_ext_def)
  show "x \<le> x" by (simp add: less_eq_security_context_ext_def)
  show "x \<le> y \<Longrightarrow> y \<le> z \<Longrightarrow> x \<le> z"
    by (auto simp: less_eq_security_context_ext_def)
  show "x \<le> y \<Longrightarrow> y \<le> x \<Longrightarrow> x = y"
    by (auto simp: less_eq_security_context_ext_def)
  show "x \<le> y \<or> y \<le> x"
    by (auto simp: less_eq_security_context_ext_def not_less_iff_gr_or_eq)
qed

end

lemma compare_Some:
  "gsignond_security_context_compare (Some a) (Some b) = (if a = b then 0 else if a < b then -1 else 1)"
  by (auto simp: gsignond_security_context_compare_def Let_def strcmp_def less_security_context_ext_def)

lemma sort_cmp_eq_imp_mset: "sort_cmp cmp l = sort_cmp cmp l' \<Longrightarrow> mset l = mset l'"
  by (metis mset_sort_cmp)

lemma compare_None [simp]:
  "gsignond_security_context_compare None None = 0"
  "gsignond_security_context_compare None (Some b) = -1"
  "gsignond_security_context_compare (Some a) None = 1"
  by (simp_all add: gsignond_security_context_compare_def)

interpretation secord: compare_func gsignond_security_context_compare
proof (unfold_locales, goal_cases)
  case (1 x y) show ?case by (cases x; cases y) (auto simp: compare_Some)
next
  case (2 y x) show ?case by (cases x; cases y) (auto simp: compare_Some)
next
  case (3 x y z) then show ?case
    by (cases x; cases y; cases z) (auto simp: compare_Some split: if_splits)
qed

subsection \<open>Matching and checking\<close>

lemma check_Some:
  "gsignond_security_context_check (Some r) (Some t) \<longleftrightarrow>
     sys_ctx r = ''*'' \<or> sys_ctx r = sys_ctx t \<and> (app_ctx r = ''*'' \<or> app_ctx r = app_ctx t)"
  by (simp add: gsignond_security_context_check_def)

lemma check_None [simp]:
  "\<not> gsignond_security_context_check None t" "\<not> gsignond_security_context_check r None"
  by (simp_all add: gsignond_security_context_check_def split: option.splits)

lemma check_refl: "gsignond_security_context_check (Some c) (Some c)"
  by (simp add: check_Some)

lemma check_trans:
  "gsignond_security_context_check r t \<Longrightarrow> gsignond_security_context_check t u \<Longrightarrow>
   gsignond_security_context_check r u"
  by (cases r; cases t; cases u) (auto simp: check_Some)

text \<open>The peers a context covers, as an entry of an access control list or as an owner.\<close>

definition covers :: "security_context \<Rightarrow> security_context set" where
  "covers r = {t. gsignond_security_context_check (Some r) (Some t)}"

lemma check_iff_covers:
  "gsignond_security_context_check (Some r) (Some t) \<longleftrightarrow> covers t \<subseteq> covers r"
  unfolding covers_def using check_refl check_trans by blast

lemma match_None [simp]:
  "gsignond_security_context_match None None"
  "\<not> gsignond_security_context_match None (Some b)"
  "\<not> gsignond_security_context_match (Some a) None"
  by (simp_all add: gsignond_security_context_match_def)

lemma match_Some:
  "gsignond_security_context_match (Some a) (Some b) \<longleftrightarrow>
     gsignond_security_context_check (Some a) (Some b) \<or> gsignond_security_context_check (Some b) (Some a)"
  by (auto simp: gsignond_security_context_match_def check_Some)

lemma match_refl [simp]: "gsignond_security_context_match c c"
  by (cases c) (simp_all add: match_Some check_refl)

lemma match_sym: "gsignond_security_context_match a b = gsignond_security_context_match b a"
  by (cases a; cases b) (auto simp: match_Some)

subsection \<open>Round trips\<close>

lemma from_to_variant [simp]:
  "gsignond_security_context_from_variant (Some (gsignond_security_context_to_variant c)) = Some c"
  by (simp add: secctx_defs)

lemma list_from_to_variant [simp]:
  "gsignond_security_context_list_to_variant l = Some v \<Longrightarrow>
   gsignond_security_context_list_from_variant v = map Some l"
  by (auto simp: gsignond_security_context_list_to_variant_def
      gsignond_security_context_list_from_variant_def split: if_splits)

subsection \<open>Properties\<close>

text \<open>
  The check of a peer against a reference context is a preorder whose meaning is inclusion:
  it succeeds exactly when every peer that the tested context covers is covered by the reference.
  So an entry of an access control list grants no more than the wildcards in it say.
\<close>
lemma security_context_check_is_inclusion:
  "(gsignond_security_context_check (Some r) (Some t) \<longleftrightarrow> covers t \<subseteq> covers r) \<and>
   t \<in> covers t \<and>
   covers r = (if sys_ctx r = ''*'' then UNIV
               else if app_ctx r = ''*'' then {p. sys_ctx p = sys_ctx r}
               else {p. sys_ctx p = sys_ctx r \<and> app_ctx p = app_ctx r})"
  using check_iff_covers [of r t] by (auto simp: covers_def check_Some)

text \<open>
  Matching, which the comparison of two identities uses for owners and access control lists, is
  the symmetric closure of checking on contexts and equality on NULL; it is reflexive and
  symmetric, but with a wildcard in between it relates contexts that do not match each other, so
  it is no equality.
\<close>
lemma security_context_match_characterised:
  "gsignond_security_context_match a b =
     (if a = None \<or> b = None then a = b
      else gsignond_security_context_check a b \<or> gsignond_security_context_check b a) \<and>
   (\<exists>x y z. gsignond_security_context_match x y \<and> gsignond_security_context_match y z \<and>
      \<not> gsignond_security_context_match x z)"
proof
  show "gsignond_security_context_match a b =
     (if a = None \<or> b = None then a = b
      else gsignond_security_context_check a b \<or> gsignond_security_context_check b a)"
    by (cases a; cases b) (simp_all add: match_Some)
  show "\<exists>x y z. gsignond_security_context_match x y \<and> gsignond_security_context_match y z \<and>
      \<not> gsignond_security_context_match x z"
    by (intro exI [of _ "Some \<lparr>sys_ctx = ''a'', app_ctx = ''''\<rparr>"]
          exI [of _ "Some \<lparr>sys_ctx = ''*'', app_ctx = ''''\<rparr>"]
          exI [of _ "Some \<lparr>sys_ctx = ''b'', app_ctx = ''''\<rparr>"])
       (simp add: match_Some check_Some)
qed

text \<open>
  Comparing contexts decides a linear order in which NULL comes first: the result is 0 exactly
  on equal contexts, and sorting a list of contexts by it yields one sorted list for all orders of
  its elements.
\<close>
lemma security_context_compare_sorts:
  "(gsignond_security_context_compare (Some c) (Some d) \<le> 0 \<longleftrightarrow> c \<le> d) \<and>
   (gsignond_security_context_compare x y = 0 \<longleftrightarrow> x = y) \<and>
   sorted_cmp gsignond_security_context_compare (sort_cmp gsignond_security_context_compare l) \<and>
   (sort_cmp gsignond_security_context_compare l = sort_cmp gsignond_security_context_compare l'
      \<longleftrightarrow> mset l = mset l')"
  by (auto simp: compare_Some secord.cmp_eq secord.sorted_sort
      intro: secord.sort_perm dest: sort_cmp_eq_imp_mset)

end
