(* ===== verification/Gsso_Utils.thy ===== *)
theory Gsso_Utils
  imports Gsso_Dictionary
begin

text \<open>
  \<^verbatim>\<open>src/src/common/gsignond-utils.c\<close>: sequences of strings and their conversions, and the
  domain check of host names. A \<^verbatim>\<open>GSequence\<close> of strings is a list; the conversions that read one
  insert each string at its place in the order of \<^verbatim>\<open>g_strcmp0\<close>, so what they build is sorted.
  A NULL sequence, array or variant is \<open>None\<close>.
\<close>

type_synonym gsequence = "string list"

fun gsignond_sequence_to_variant :: "gsequence option \<Rightarrow> gvariant option" where
  "gsignond_sequence_to_variant None = None"
| "gsignond_sequence_to_variant (Some seq) = Some (VArray ''s'' (map VString seq))"

text \<open>The loop reads strings and stops, as \<^verbatim>\<open>g_variant_iter_next\<close> does, at another type.\<close>

fun read_strings :: "gvariant list \<Rightarrow> gsequence \<Rightarrow> gsequence" where
  "read_strings (VString item # vs) seq = read_strings vs (insert_sorted strcmp item seq)"
| "read_strings _ seq = seq"

fun gsignond_variant_to_sequence :: "gvariant option \<Rightarrow> gsequence option" where
  "gsignond_variant_to_sequence None = None"
| "gsignond_variant_to_sequence (Some var) = Some (read_strings (g_variant_children var) [])"

text \<open>A string array is the list of its strings, the terminating NULL left out.\<close>

fun gsignond_sequence_to_array :: "gsequence option \<Rightarrow> string list option" where
  "gsignond_sequence_to_array None = None"
| "gsignond_sequence_to_array (Some seq) = Some seq"

fun gsignond_array_to_sequence :: "string list option \<Rightarrow> gsequence option" where
  "gsignond_array_to_sequence None = None"
| "gsignond_array_to_sequence (Some items) = Some (fold (insert_sorted strcmp) items [])"

fun gsignond_copy_array_to_sequence :: "string list option \<Rightarrow> gsequence option" where
  "gsignond_copy_array_to_sequence None = None"
| "gsignond_copy_array_to_sequence (Some items) = Some (fold (insert_sorted strcmp) items [])"

lemma read_strings_fold [simp]:
  "read_strings (map VString xs) acc = fold (insert_sorted strcmp) xs acc"
  by (induction xs arbitrary: acc) auto

lemma array_to_sequence_sort: "gsignond_array_to_sequence (Some xs) = Some (sort_cmp strcmp xs)"
  by (simp add: sort_cmp_def)

lemma variant_to_sequence_sort:
  "gsignond_variant_to_sequence (Some (VArray t (map VString xs))) = Some (sort_cmp strcmp xs)"
  by (simp add: sort_cmp_def)

lemma read_strings_sorted:
  "sorted_cmp strcmp acc \<Longrightarrow> sorted_cmp strcmp (read_strings vs acc)"
  by (induction vs acc rule: read_strings.induct) (auto intro: strord.sorted_insert)

lemma variant_to_sequence_sorted:
  "gsignond_variant_to_sequence v = Some seq \<Longrightarrow> sorted_cmp strcmp seq"
  using read_strings_sorted [of "[]"] by (cases v) (auto simp: sorted_cmp_def)

subsection \<open>Splitting and joining at dots\<close>

text \<open>\<^verbatim>\<open>g_strsplit\<close> of the empty string is the empty vector; \<^verbatim>\<open>g_strjoinv\<close> undoes the split.\<close>

fun split_dot :: "string \<Rightarrow> string list" where
  "split_dot [] = [[]]"
| "split_dot (c # cs) =
     (if c = CHR ''.'' then [] # split_dot cs
      else (case split_dot cs of [] \<Rightarrow> [[c]] | p # ps \<Rightarrow> (c # p) # ps))"

definition g_strsplit_dot :: "string \<Rightarrow> string list" where
  "g_strsplit_dot s = (if s = [] then [] else split_dot s)"

fun g_strjoinv_dot :: "string list \<Rightarrow> string" where
  "g_strjoinv_dot [] = []"
| "g_strjoinv_dot [p] = p"
| "g_strjoinv_dot (p # q # ps) = p @ CHR ''.'' # g_strjoinv_dot (q # ps)"

fun skip_parts :: "int \<Rightarrow> string list \<Rightarrow> string list" where
  "skip_parts extra [] = []"
| "skip_parts extra (p # ps) = (if extra > 0 then skip_parts (extra - 1) ps else p # ps)"

text \<open>
  The numbers of parts are unsigned, their difference is read back as a signed \<^verbatim>\<open>gint\<close>.
\<close>

definition gsignond_is_host_in_domain :: "string \<Rightarrow> string \<Rightarrow> bool" where
  "gsignond_is_host_in_domain host domain =
     (let domain_parts = g_strsplit_dot domain;
          host_parts = g_strsplit_dot host;
          domain_parts_n = (of_nat (length domain_parts) :: u32);
          host_parts_n = (of_nat (length host_parts) :: u32);
          extra_host_parts_n = sint (host_parts_n - domain_parts_n);
          truncated_host = g_strjoinv_dot (skip_parts extra_host_parts_n host_parts)
      in g_strcmp0 (Some domain) (Some truncated_host) = 0)"

lemma split_dot_ne [simp]: "split_dot s \<noteq> []"
  by (cases s) (auto split: list.splits)

lemma g_strjoinv_dot_Cons:
  "g_strjoinv_dot (p # ps) = (if ps = [] then p else p @ CHR ''.'' # g_strjoinv_dot ps)"
  by (cases ps) auto

lemma g_strjoinv_dot_Cons_char:
  "g_strjoinv_dot ((c # p) # ps) = c # g_strjoinv_dot (p # ps)"
  by (cases ps) auto

lemma join_split_dot [simp]: "g_strjoinv_dot (split_dot s) = s"
proof (induction s)
  case (Cons c cs)
  obtain p ps where "split_dot cs = p # ps" by (cases "split_dot cs") auto
  with Cons show ?case by (auto simp: g_strjoinv_dot_Cons_char g_strjoinv_dot_Cons)
qed simp

lemma join_strsplit [simp]: "g_strjoinv_dot (g_strsplit_dot s) = s"
  by (simp add: g_strsplit_dot_def)

lemma split_dot_append: "split_dot (p @ CHR ''.'' # d) = split_dot p @ split_dot d"
proof (induction p)
  case (Cons c p)
  obtain q qs where "split_dot p = q # qs" by (cases "split_dot p") auto
  with Cons show ?case by auto
qed simp

lemma join_append:
  "xs \<noteq> [] \<Longrightarrow> ys \<noteq> [] \<Longrightarrow>
   g_strjoinv_dot (xs @ ys) = g_strjoinv_dot xs @ CHR ''.'' # g_strjoinv_dot ys"
  by (induction xs rule: g_strjoinv_dot.induct) (auto simp: g_strjoinv_dot_Cons)

lemma skip_parts_drop: "skip_parts extra ps = drop (nat extra) ps"
proof (induction extra ps rule: skip_parts.induct)
  case (2 extra p ps)
  show ?case
  proof (cases "extra > 0")
    case True
    then have "nat extra = Suc (nat (extra - 1))" by simp
    with 2 True show ?thesis by simp
  qed simp
qed simp

lemma length_split_dot_le: "length (split_dot s) \<le> Suc (length s)"
  by (induction s) (auto split: list.splits)

lemma sint_diff_small:
  assumes "m < 2 ^ 31" and "n < 2 ^ 31"
  shows "sint (of_nat m - of_nat n :: u32) = int m - int n"
proof -
  have "(of_nat m - of_nat n :: u32) = word_of_int (int m - int n)" by simp
  then have "sint (of_nat m - of_nat n :: u32) = signed_take_bit 31 (int m - int n)"
    by (simp only: signed_of_int) simp
  also have "\<dots> = int m - int n"
    using assms by (intro signed_take_bit_int_eq_self) auto
  finally show ?thesis .
qed

lemma host_in_domain_parts:
  assumes "length host < 2 ^ 31 - 1" and "length domain < 2 ^ 31 - 1"
  shows "gsignond_is_host_in_domain host domain \<longleftrightarrow>
    g_strjoinv_dot (drop (length (g_strsplit_dot host) - length (g_strsplit_dot domain))
       (g_strsplit_dot host)) = domain"
proof -
  have "length (g_strsplit_dot host) < 2 ^ 31" "length (g_strsplit_dot domain) < 2 ^ 31"
    using assms length_split_dot_le [of host] length_split_dot_le [of domain]
    by (auto simp: g_strsplit_dot_def)
  note diff = sint_diff_small [OF this]
  have "nat (int (length (g_strsplit_dot host)) - int (length (g_strsplit_dot domain))) =
      length (g_strsplit_dot host) - length (g_strsplit_dot domain)" by simp
  then show ?thesis
    by (simp only: gsignond_is_host_in_domain_def Let_def skip_parts_drop diff g_strcmp0_eq_0) auto
qed

lemma join_drop_suffix:
  assumes "0 < k" and "k < length ps"
  shows "suffix (CHR ''.'' # g_strjoinv_dot (drop k ps)) (g_strjoinv_dot ps)"
proof -
  have "take k ps \<noteq> []" "drop k ps \<noteq> []" using assms by auto
  then have "g_strjoinv_dot ps =
      g_strjoinv_dot (take k ps) @ CHR ''.'' # g_strjoinv_dot (drop k ps)"
    using join_append [of "take k ps" "drop k ps"] by simp
  then show ?thesis by (auto simp: suffix_def)
qed

lemma parts_suffix:
  assumes "domain \<noteq> []"
  shows "g_strjoinv_dot (drop (length (g_strsplit_dot host) - length (g_strsplit_dot domain))
       (g_strsplit_dot host)) = domain \<longleftrightarrow>
     host = domain \<or> suffix (CHR ''.'' # domain) host"
    (is "g_strjoinv_dot (drop ?k ?hs) = domain \<longleftrightarrow> _")
proof
  assume join: "g_strjoinv_dot (drop ?k ?hs) = domain"
  with assms have "drop ?k ?hs \<noteq> []" by auto
  then have "?k < length ?hs" by (simp add: not_le)
  show "host = domain \<or> suffix (CHR ''.'' # domain) host"
  proof (cases "?k = 0")
    case True with join show ?thesis by simp
  next
    case False
    then have "0 < ?k" by simp
    from join_drop_suffix [OF this \<open>?k < length ?hs\<close>] join show ?thesis by simp
  qed
next
  assume "host = domain \<or> suffix (CHR ''.'' # domain) host"
  then show "g_strjoinv_dot (drop ?k ?hs) = domain"
  proof
    assume "suffix (CHR ''.'' # domain) host"
    then obtain p where "host = p @ CHR ''.'' # domain" by (auto simp: suffix_def)
    with assms show ?thesis by (simp add: g_strsplit_dot_def split_dot_append)
  qed simp
qed

subsection \<open>Properties\<close>

text \<open>
  A host is in a domain exactly when the domain is empty, is the host itself, or is a suffix of
  the host that starts after a dot. So \<open>notexample.com\<close> is not in \<open>example.com\<close>, and every host is
  in the empty domain. The bound keeps the number of parts in a \<^verbatim>\<open>gint\<close>.
\<close>
lemma host_in_domain_iff_suffix:
  assumes "length host < 2 ^ 31 - 1" and "length domain < 2 ^ 31 - 1"
  shows "gsignond_is_host_in_domain host domain \<longleftrightarrow>
    domain = '''' \<or> host = domain \<or> suffix (CHR ''.'' # domain) host"
proof (cases "domain = ''''")
  case True
  then show ?thesis using host_in_domain_parts [OF assms] by (simp add: g_strsplit_dot_def)
next
  case False
  then show ?thesis using host_in_domain_parts [OF assms] parts_suffix [OF False, of host] by simp
qed

lemma host_in_domain_iff_suffix_witness:
  "gsignond_is_host_in_domain ''www.example.com'' ''example.com'' \<and>
   \<not> gsignond_is_host_in_domain ''notexample.com'' ''example.com''"
  by (subst host_in_domain_iff_suffix, simp, simp)
     (subst host_in_domain_iff_suffix, simp, simp, simp add: suffix_def Cons_eq_append_conv)

text \<open>
  Writing a sequence of strings to a variant and reading it back yields the same strings in the
  order of \<^verbatim>\<open>strcmp\<close>, whatever the order they were written in; a sorted sequence comes back
  unchanged, and so does one that goes through a string array.
\<close>
lemma sequence_variant_roundtrip:
  "gsignond_variant_to_sequence (gsignond_sequence_to_variant (Some seq)) = Some (sort_cmp strcmp seq) \<and>
   gsignond_array_to_sequence (gsignond_sequence_to_array (Some seq)) = Some (sort_cmp strcmp seq) \<and>
   mset (sort_cmp strcmp seq) = mset seq \<and> sorted_cmp strcmp (sort_cmp strcmp seq) \<and>
   (sort_cmp strcmp seq = seq \<longleftrightarrow> sorted_cmp strcmp seq) \<and>
   gsignond_variant_to_sequence (gsignond_sequence_to_variant None) = None"
  using strord.sort_sorted_id [of seq] strord.sorted_sort [of seq]
  by (auto simp: variant_to_sequence_sort array_to_sequence_sort simp del: gsignond_array_to_sequence.simps
      gsignond_variant_to_sequence.simps(2))

end
