(* ===== verification/Gsso_Identity_Info.thy ===== *)
theory Gsso_Identity_Info
  imports Gsso_Security_Context Gsso_Utils
begin

unbundle bit_operations_syntax

text \<open>
  \<^verbatim>\<open>src/src/common/gsignond-identity-info.c\<close>: the record of an identity. The username and the
  secret are fields of their own, every other property is an entry of a dictionary under the key
  that \<^verbatim>\<open>gsignond-identity-info-internal.h\<close> names. \<open>edit_flags\<close> is the 32-bit word of properties
  that were edited since it was last reset; the metadata database writes nothing when it is 0.

  Setters return the flag of the code and the record after the call.
\<close>

record identity_info =
  ref_count :: i32
  ii_username :: cstr
  ii_secret :: cstr
  edit_flags :: u32
  ii_map :: dictionary

subsection \<open>Keys and property flags\<close>

definition GSIGNOND_IDENTITY_INFO_NEW_IDENTITY :: u32 where
  "GSIGNOND_IDENTITY_INFO_NEW_IDENTITY = 0"

definition IDENTITY_INFO_PROP_NONE :: u32 where "IDENTITY_INFO_PROP_NONE = 0x0000"
definition IDENTITY_INFO_PROP_USERNAME :: u32 where "IDENTITY_INFO_PROP_USERNAME = 0x0001"
definition IDENTITY_INFO_PROP_SECRET :: u32 where "IDENTITY_INFO_PROP_SECRET = 0x0002"
definition IDENTITY_INFO_PROP_ID :: u32 where "IDENTITY_INFO_PROP_ID = 0x0004"
definition IDENTITY_INFO_PROP_TYPE :: u32 where "IDENTITY_INFO_PROP_TYPE = 0x0008"
definition IDENTITY_INFO_PROP_CAPTION :: u32 where "IDENTITY_INFO_PROP_CAPTION = 0x0010"
definition IDENTITY_INFO_PROP_STORE_SECRET :: u32 where "IDENTITY_INFO_PROP_STORE_SECRET = 0x0020"
definition IDENTITY_INFO_PROP_USERNAME_IS_SECRET :: u32 where "IDENTITY_INFO_PROP_USERNAME_IS_SECRET = 0x0040"
definition IDENTITY_INFO_PROP_OWNER :: u32 where "IDENTITY_INFO_PROP_OWNER = 0x0080"
definition IDENTITY_INFO_PROP_ACL :: u32 where "IDENTITY_INFO_PROP_ACL = 0x0100"
definition IDENTITY_INFO_PROP_METHODS :: u32 where "IDENTITY_INFO_PROP_METHODS = 0x0200"
definition IDENTITY_INFO_PROP_REALMS :: u32 where "IDENTITY_INFO_PROP_REALMS = 0x0400"
definition IDENTITY_INFO_PROP_REF_COUNT :: u32 where "IDENTITY_INFO_PROP_REF_COUNT = 0x0800"
definition IDENTITY_INFO_PROP_VALIDATED :: u32 where "IDENTITY_INFO_PROP_VALIDATED = 0x1000"
definition IDENTITY_INFO_PROP_MAX :: u32 where "IDENTITY_INFO_PROP_MAX = 0x2000"

lemmas prop_defs =
  IDENTITY_INFO_PROP_NONE_def IDENTITY_INFO_PROP_USERNAME_def IDENTITY_INFO_PROP_SECRET_def
  IDENTITY_INFO_PROP_ID_def IDENTITY_INFO_PROP_TYPE_def IDENTITY_INFO_PROP_CAPTION_def
  IDENTITY_INFO_PROP_STORE_SECRET_def IDENTITY_INFO_PROP_USERNAME_IS_SECRET_def
  IDENTITY_INFO_PROP_OWNER_def IDENTITY_INFO_PROP_ACL_def IDENTITY_INFO_PROP_METHODS_def
  IDENTITY_INFO_PROP_REALMS_def IDENTITY_INFO_PROP_REF_COUNT_def
  IDENTITY_INFO_PROP_VALIDATED_def IDENTITY_INFO_PROP_MAX_def

abbreviation "key_ID \<equiv> ''Id''"
abbreviation "key_USERNAME \<equiv> ''UserName''"
abbreviation "key_SECRET \<equiv> ''Secret''"
abbreviation "key_STORESECRET \<equiv> ''StoreSecret''"
abbreviation "key_CAPTION \<equiv> ''Caption''"
abbreviation "key_REALMS \<equiv> ''Realms''"
abbreviation "key_AUTHMETHODS \<equiv> ''AuthMethods''"
abbreviation "key_OWNER \<equiv> ''Owner''"
abbreviation "key_ACL \<equiv> ''ACL''"
abbreviation "key_TYPE \<equiv> ''Type''"
abbreviation "key_REFCOUNT \<equiv> ''RefCount''"
abbreviation "key_VALIDATED \<equiv> ''Validated''"
abbreviation "key_USERNAME_IS_SECRET \<equiv> ''UserNameSecret''"

subsection \<open>Edit flags\<close>

definition gsignond_identity_info_get_edit_flags :: "identity_info \<Rightarrow> u32" where
  "gsignond_identity_info_get_edit_flags info = edit_flags info"

definition gsignond_identity_info_set_edit_flags :: "identity_info \<Rightarrow> u32 \<Rightarrow> bool \<times> identity_info" where
  "gsignond_identity_info_set_edit_flags info flag =
     (True, info\<lparr>edit_flags := edit_flags info OR flag\<rparr>)"

definition gsignond_identity_info_reset_edit_flags :: "identity_info \<Rightarrow> u32 \<Rightarrow> bool \<times> identity_info" where
  "gsignond_identity_info_reset_edit_flags info flags = (True, info\<lparr>edit_flags := flags\<rparr>)"

definition gsignond_identity_info_unset_edit_flags :: "identity_info \<Rightarrow> u32 \<Rightarrow> bool \<times> identity_info" where
  "gsignond_identity_info_unset_edit_flags info unset_flags =
     (True, info\<lparr>edit_flags := edit_flags info AND NOT unset_flags\<rparr>)"

text \<open>
  The setters end with \<^verbatim>\<open>gsignond_dictionary_set (..) && gsignond_identity_info_set_edit_flags (..)\<close>:
  the flag is set only when the dictionary took the value.
\<close>

definition info_set_entry :: "identity_info \<Rightarrow> string \<Rightarrow> gvariant option \<Rightarrow> u32 \<Rightarrow> bool \<times> identity_info" where
  "info_set_entry info key value flag =
     (case gsignond_dictionary_set (ii_map info) key value of
        (False, m) \<Rightarrow> (False, info\<lparr>ii_map := m\<rparr>)
      | (True, m) \<Rightarrow> gsignond_identity_info_set_edit_flags (info\<lparr>ii_map := m\<rparr>) flag)"

subsection \<open>Simple properties\<close>

definition info_get :: "identity_info \<Rightarrow> string \<Rightarrow> gvariant option" where
  "info_get info key = gsignond_dictionary_get (ii_map info) key"

definition gsignond_identity_info_get_id :: "identity_info \<Rightarrow> u32" where
  "gsignond_identity_info_get_id info =
     (case info_get info key_ID of Some var \<Rightarrow> g_variant_get_uint32 var
      | None \<Rightarrow> GSIGNOND_IDENTITY_INFO_NEW_IDENTITY)"

definition gsignond_identity_info_set_id :: "identity_info \<Rightarrow> u32 \<Rightarrow> bool \<times> identity_info" where
  "gsignond_identity_info_set_id info new_id =
     (if gsignond_identity_info_get_id info = new_id then (True, info)
      else info_set_entry info key_ID (Some (VUint32 new_id)) IDENTITY_INFO_PROP_ID)"

definition gsignond_identity_info_get_is_identity_new :: "identity_info \<Rightarrow> bool" where
  "gsignond_identity_info_get_is_identity_new info =
     (GSIGNOND_IDENTITY_INFO_NEW_IDENTITY = gsignond_identity_info_get_id info)"

definition gsignond_identity_info_set_identity_new :: "identity_info \<Rightarrow> bool \<times> identity_info" where
  "gsignond_identity_info_set_identity_new info =
     gsignond_identity_info_set_id info GSIGNOND_IDENTITY_INFO_NEW_IDENTITY"

definition gsignond_identity_info_get_username :: "identity_info \<Rightarrow> cstr" where
  "gsignond_identity_info_get_username info = ii_username info"

definition gsignond_identity_info_set_username :: "identity_info \<Rightarrow> cstr \<Rightarrow> bool \<times> identity_info" where
  "gsignond_identity_info_set_username info username =
     (let current_name = gsignond_identity_info_get_username info
      in if g_strcmp0 username current_name = 0 then (True, info)
         else gsignond_identity_info_set_edit_flags (info\<lparr>ii_username := username\<rparr>)
                IDENTITY_INFO_PROP_USERNAME)"

definition gsignond_identity_info_get_is_username_secret :: "identity_info \<Rightarrow> bool" where
  "gsignond_identity_info_get_is_username_secret info =
     (case info_get info key_USERNAME_IS_SECRET of Some var \<Rightarrow> g_variant_get_boolean var | None \<Rightarrow> False)"

definition gsignond_identity_info_set_username_secret :: "identity_info \<Rightarrow> bool \<Rightarrow> bool \<times> identity_info" where
  "gsignond_identity_info_set_username_secret info username_secret =
     (if gsignond_identity_info_get_is_username_secret info = username_secret then (True, info)
      else info_set_entry info key_USERNAME_IS_SECRET (Some (VBoolean username_secret))
             IDENTITY_INFO_PROP_USERNAME_IS_SECRET)"

definition gsignond_identity_info_get_secret :: "identity_info \<Rightarrow> cstr" where
  "gsignond_identity_info_get_secret info = ii_secret info"

definition gsignond_identity_info_set_secret :: "identity_info \<Rightarrow> cstr \<Rightarrow> bool \<times> identity_info" where
  "gsignond_identity_info_set_secret info secret =
     (let current_secret = gsignond_identity_info_get_secret info
      in if g_strcmp0 current_secret secret = 0 then (True, info)
         else gsignond_identity_info_set_edit_flags (info\<lparr>ii_secret := secret\<rparr>)
                IDENTITY_INFO_PROP_SECRET)"

definition gsignond_identity_info_get_store_secret :: "identity_info \<Rightarrow> bool" where
  "gsignond_identity_info_get_store_secret info =
     (case info_get info key_STORESECRET of Some var \<Rightarrow> g_variant_get_boolean var | None \<Rightarrow> False)"

definition gsignond_identity_info_set_store_secret :: "identity_info \<Rightarrow> bool \<Rightarrow> bool \<times> identity_info" where
  "gsignond_identity_info_set_store_secret info store_secret =
     (if gsignond_identity_info_get_store_secret info = store_secret then (True, info)
      else info_set_entry info key_STORESECRET (Some (VBoolean store_secret))
             IDENTITY_INFO_PROP_STORE_SECRET)"

definition gsignond_identity_info_get_caption :: "identity_info \<Rightarrow> cstr" where
  "gsignond_identity_info_get_caption info =
     (case info_get info key_CAPTION of Some var \<Rightarrow> g_variant_get_string var | None \<Rightarrow> None)"

definition gsignond_identity_info_set_caption :: "identity_info \<Rightarrow> cstr \<Rightarrow> bool \<times> identity_info" where
  "gsignond_identity_info_set_caption info caption =
     (let current_caption = gsignond_identity_info_get_caption info
      in if g_strcmp0 current_caption caption = 0 then (True, info)
         else case caption of
           None \<Rightarrow>
             (case gsignond_dictionary_remove (ii_map info) key_CAPTION of
                (False, m) \<Rightarrow> (False, info\<lparr>ii_map := m\<rparr>)
              | (True, m) \<Rightarrow> gsignond_identity_info_set_edit_flags (info\<lparr>ii_map := m\<rparr>)
                               IDENTITY_INFO_PROP_CAPTION)
         | Some c \<Rightarrow> info_set_entry info key_CAPTION (g_variant_new_string (Some c))
                       IDENTITY_INFO_PROP_CAPTION)"

definition gsignond_identity_info_get_validated :: "identity_info \<Rightarrow> bool" where
  "gsignond_identity_info_get_validated info =
     (case info_get info key_VALIDATED of Some var \<Rightarrow> g_variant_get_boolean var | None \<Rightarrow> False)"

definition gsignond_identity_info_set_validated :: "identity_info \<Rightarrow> bool \<Rightarrow> bool \<times> identity_info" where
  "gsignond_identity_info_set_validated info validated =
     (if gsignond_identity_info_get_validated info = validated then (True, info)
      else info_set_entry info key_VALIDATED (Some (VBoolean validated)) IDENTITY_INFO_PROP_VALIDATED)"

definition gsignond_identity_info_get_identity_type :: "identity_info \<Rightarrow> u32" where
  "gsignond_identity_info_get_identity_type info =
     (case info_get info key_TYPE of Some var \<Rightarrow> g_variant_get_int32 var | None \<Rightarrow> 0)"

definition gsignond_identity_info_set_identity_type :: "identity_info \<Rightarrow> u32 \<Rightarrow> bool \<times> identity_info" where
  "gsignond_identity_info_set_identity_type info type =
     (if gsignond_identity_info_get_identity_type info = type then (True, info)
      else info_set_entry info key_TYPE (Some (VInt32 type)) IDENTITY_INFO_PROP_TYPE)"

subsection \<open>Realms, methods, access control list and owner\<close>

definition gsignond_identity_info_get_realms :: "identity_info \<Rightarrow> gsequence option" where
  "gsignond_identity_info_get_realms info =
     (case info_get info key_REALMS of Some var \<Rightarrow> gsignond_variant_to_sequence (Some var) | None \<Rightarrow> None)"

definition gsignond_identity_info_set_realms :: "identity_info \<Rightarrow> gsequence option \<Rightarrow> bool \<times> identity_info" where
  "gsignond_identity_info_set_realms info realms =
     (if realms = None then (False, info)
      else
        let var_realms = gsignond_sequence_to_variant realms
        in if info_get info key_REALMS \<noteq> None \<and> info_get info key_REALMS = var_realms then (True, info)
           else info_set_entry info key_REALMS var_realms IDENTITY_INFO_PROP_REALMS)"

type_synonym methods = "(string \<times> gsequence) list"

fun variant_strings :: "gvariant list \<Rightarrow> string list option" where
  "variant_strings [] = Some []"
| "variant_strings (VString s # vs) = map_option (\<lambda>r. s # r) (variant_strings vs)"
| "variant_strings _ = None"

text \<open>One child read with \<^verbatim>\<open>{s^as}\<close>: a method and its mechanisms.\<close>

fun read_method :: "gvariant \<Rightarrow> (string \<times> string list) option" where
  "read_method (VDictEntry (VString m) (VArray t vs)) =
     (if t = ''s'' then map_option (\<lambda>ms. (m, ms)) (variant_strings vs) else None)"
| "read_method _ = None"

fun read_methods :: "gvariant list \<Rightarrow> methods \<Rightarrow> methods" where
  "read_methods [] methods = methods"
| "read_methods (v # vs) methods =
     (case read_method v of
        None \<Rightarrow> methods
      | Some (vmethod, vmechanisms) \<Rightarrow>
          read_methods vs
            (AList.update vmethod (the (gsignond_array_to_sequence (Some vmechanisms))) methods))"

definition gsignond_identity_info_get_methods :: "identity_info \<Rightarrow> methods option" where
  "gsignond_identity_info_get_methods info =
     (case info_get info key_AUTHMETHODS of
        Some var \<Rightarrow> Some (read_methods (g_variant_children var) []) | None \<Rightarrow> None)"

definition methods_to_variant :: "methods \<Rightarrow> gvariant" where
  "methods_to_variant methods =
     VArray ''{sas}''
       (map (\<lambda>(method, mechanisms).
          VDictEntry (VString method)
            (VArray ''s'' (map VString (the (gsignond_sequence_to_array (Some mechanisms)))))) methods)"

definition gsignond_identity_info_set_methods :: "identity_info \<Rightarrow> methods option \<Rightarrow> bool \<times> identity_info" where
  "gsignond_identity_info_set_methods info methods =
     (case methods of
        None \<Rightarrow> (False, info)
      | Some ms \<Rightarrow>
          let var_methods = methods_to_variant ms
          in if info_get info key_AUTHMETHODS = Some var_methods then (True, info)
             else info_set_entry info key_AUTHMETHODS (Some var_methods) IDENTITY_INFO_PROP_METHODS)"

fun find_mechanisms :: "gvariant list \<Rightarrow> string \<Rightarrow> gsequence option" where
  "find_mechanisms [] method = None"
| "find_mechanisms (v # vs) method =
     (case read_method v of
        None \<Rightarrow> None
      | Some (vmethod, vmechanisms) \<Rightarrow>
          if g_strcmp0 (Some vmethod) (Some method) = 0
          then gsignond_array_to_sequence (Some vmechanisms)
          else find_mechanisms vs method)"

definition gsignond_identity_info_get_mechanisms :: "identity_info \<Rightarrow> string \<Rightarrow> gsequence option" where
  "gsignond_identity_info_get_mechanisms info method =
     (case info_get info key_AUTHMETHODS of
        Some var \<Rightarrow> find_mechanisms (g_variant_children var) method | None \<Rightarrow> None)"

definition gsignond_identity_info_remove_method :: "identity_info \<Rightarrow> string \<Rightarrow> bool \<times> identity_info" where
  "gsignond_identity_info_remove_method info method =
     (case gsignond_identity_info_get_methods info of
        None \<Rightarrow> (False, info)
      | Some methods \<Rightarrow>
          if map_of methods method \<noteq> None
          then gsignond_identity_info_set_methods info (Some (AList.delete method methods))
          else (False, info))"

definition gsignond_identity_info_get_access_control_list :: "identity_info \<Rightarrow> security_context_list" where
  "gsignond_identity_info_get_access_control_list info =
     (case info_get info key_ACL of
        Some var \<Rightarrow> gsignond_security_context_list_from_variant var | None \<Rightarrow> [])"

text \<open>The empty list is the NULL list. \<^verbatim>\<open>g_variant_equal\<close> with NULL is FALSE.\<close>

definition gsignond_identity_info_set_access_control_list ::
  "identity_info \<Rightarrow> security_context list \<Rightarrow> bool \<times> identity_info" where
  "gsignond_identity_info_set_access_control_list info acl =
     (let current_acl = info_get info key_ACL
      in if current_acl = None \<and> acl = [] then (True, info)
         else
           let var_acl = gsignond_security_context_list_to_variant acl
           in if current_acl \<noteq> None \<and> current_acl = var_acl then (True, info)
              else if acl = [] then (False, info)
              else info_set_entry info key_ACL var_acl IDENTITY_INFO_PROP_ACL)"

definition gsignond_identity_info_get_owner :: "identity_info \<Rightarrow> security_context option" where
  "gsignond_identity_info_get_owner info =
     (case info_get info key_OWNER of
        Some var \<Rightarrow> gsignond_security_context_from_variant (Some var) | None \<Rightarrow> None)"

definition gsignond_identity_info_set_owner ::
  "identity_info \<Rightarrow> security_context option \<Rightarrow> bool \<times> identity_info" where
  "gsignond_identity_info_set_owner info owner =
     (case owner of
        None \<Rightarrow> (False, info)
      | Some ow \<Rightarrow>
          let current_owner = gsignond_identity_info_get_owner info
          in if current_owner \<noteq> None \<and> gsignond_security_context_compare current_owner owner = 0
             then (True, info)
             else info_set_entry info key_OWNER (Some (gsignond_security_context_to_variant ow))
                    IDENTITY_INFO_PROP_OWNER)"

definition gsignond_identity_info_remove_owner :: "identity_info \<Rightarrow> identity_info" where
  "gsignond_identity_info_remove_owner info =
     info\<lparr>ii_map := snd (gsignond_dictionary_remove (ii_map info) key_OWNER)\<rparr>"

subsection \<open>Construction, copies and references\<close>

text \<open>
  \<open>selective_copy_loop\<close> is the \<^verbatim>\<open>for\<close> loop of \<^verbatim>\<open>gsignond_identity_info_selective_copy\<close>: the flag
  \<open>tmp_flag\<close> is shifted left and the array of keys advances with it. Reading past the array would be
  \<open>None\<close>.
\<close>

definition selective_copy_keys :: "string list" where
  "selective_copy_keys =
     [key_ID, key_TYPE, key_CAPTION, key_STORESECRET, key_USERNAME_IS_SECRET, key_OWNER, key_ACL,
      key_AUTHMETHODS, key_REALMS, key_REFCOUNT, key_VALIDATED]"

fun selective_copy_loop ::
  "u32 \<Rightarrow> string list \<Rightarrow> dictionary \<Rightarrow> dictionary \<Rightarrow> u32 \<Rightarrow> (dictionary \<times> u32) option" where
  "selective_copy_loop tmp_flag [] src dest flags =
     (if tmp_flag < IDENTITY_INFO_PROP_MAX then None else Some (dest, flags))"
| "selective_copy_loop tmp_flag (key # keys) src dest flags =
     (if tmp_flag < IDENTITY_INFO_PROP_MAX then
        (if flags AND tmp_flag \<noteq> 0 \<and> gsignond_dictionary_contains src key then
           selective_copy_loop (push_bit 1 tmp_flag) keys src
             (snd (gsignond_dictionary_set dest key (gsignond_dictionary_get src key))) flags
         else selective_copy_loop (push_bit 1 tmp_flag) keys src dest (flags AND NOT tmp_flag))
      else Some (dest, flags))"

definition gsignond_identity_info_selective_copy ::
  "identity_info \<Rightarrow> identity_info \<Rightarrow> u32 \<Rightarrow> (u32 \<times> identity_info) option" where
  "gsignond_identity_info_selective_copy dest src flags =
     (if flags = IDENTITY_INFO_PROP_NONE then Some (flags, dest)
      else case selective_copy_loop IDENTITY_INFO_PROP_ID selective_copy_keys
                  (ii_map src) (ii_map dest) flags of
        None \<Rightarrow> None
      | Some (m, flags) \<Rightarrow>
          let dest = dest\<lparr>ii_map := m\<rparr>;
              dest = (if flags AND IDENTITY_INFO_PROP_USERNAME \<noteq> 0
                      then dest\<lparr>ii_username := ii_username src\<rparr> else dest);
              dest = (if flags AND IDENTITY_INFO_PROP_SECRET \<noteq> 0
                      then dest\<lparr>ii_secret := ii_secret src\<rparr> else dest)
          in Some (flags, dest\<lparr>edit_flags := edit_flags dest OR flags\<rparr>))"

text \<open>The steps of \<^verbatim>\<open>gsignond_identity_info_new_from_variant\<close> that only set a flag.\<close>

definition flag_if_present :: "string \<Rightarrow> u32 \<Rightarrow> identity_info \<Rightarrow> identity_info" where
  "flag_if_present key flag info =
     (if gsignond_dictionary_contains (ii_map info) key
      then info\<lparr>edit_flags := edit_flags info OR flag\<rparr> else info)"

definition take_username :: "identity_info \<Rightarrow> identity_info" where
  "take_username info =
     (if gsignond_dictionary_contains (ii_map info) key_USERNAME
      then info\<lparr>edit_flags := edit_flags info OR IDENTITY_INFO_PROP_USERNAME,
                ii_username := gsignond_dictionary_get_string (ii_map info) key_USERNAME,
                ii_map := snd (gsignond_dictionary_remove (ii_map info) key_USERNAME)\<rparr>
      else info)"

definition take_secret :: "identity_info \<Rightarrow> identity_info" where
  "take_secret info =
     (if gsignond_dictionary_contains (ii_map info) key_SECRET
      then info\<lparr>edit_flags := edit_flags info OR IDENTITY_INFO_PROP_SECRET,
                ii_secret := gsignond_dictionary_get_string (ii_map info) key_SECRET,
                ii_map := snd (gsignond_dictionary_remove (ii_map info) key_SECRET)\<rparr>
      else info)"

definition flag_rest :: "identity_info \<Rightarrow> identity_info" where
  "flag_rest info =
     fold (\<lambda>(key, flag). flag_if_present key flag)
       [(key_STORESECRET, IDENTITY_INFO_PROP_STORE_SECRET),
        (key_CAPTION, IDENTITY_INFO_PROP_CAPTION),
        (key_AUTHMETHODS, IDENTITY_INFO_PROP_METHODS),
        (key_REALMS, IDENTITY_INFO_PROP_REALMS),
        (key_ACL, IDENTITY_INFO_PROP_ACL),
        (key_OWNER, IDENTITY_INFO_PROP_OWNER),
        (key_REFCOUNT, IDENTITY_INFO_PROP_REF_COUNT),
        (key_VALIDATED, IDENTITY_INFO_PROP_VALIDATED)] info"

definition gsignond_identity_info_new_from_variant :: "gvariant option \<Rightarrow> identity_info" where
  "gsignond_identity_info_new_from_variant variant_map =
     (let info = \<lparr>ref_count = 1, ii_username = None, ii_secret = None,
                  edit_flags = IDENTITY_INFO_PROP_NONE, ii_map = gsignond_dictionary_new\<rparr>
      in case gsignond_dictionary_new_from_variant variant_map of
           None \<Rightarrow> info\<lparr>ii_map := snd (gsignond_dictionary_set (ii_map info) key_ID
                                       (Some (VUint32 GSIGNOND_IDENTITY_INFO_NEW_IDENTITY)))\<rparr>
         | Some m \<Rightarrow>
             flag_rest (take_secret (take_username
              (flag_if_present key_USERNAME_IS_SECRET IDENTITY_INFO_PROP_USERNAME_IS_SECRET
              (flag_if_present key_TYPE IDENTITY_INFO_PROP_TYPE
              (flag_if_present key_ID IDENTITY_INFO_PROP_ID (info\<lparr>ii_map := m\<rparr>)))))))"

definition gsignond_identity_info_new :: identity_info where
  "gsignond_identity_info_new = gsignond_identity_info_new_from_variant None"

definition gsignond_identity_info_copy :: "identity_info \<Rightarrow> identity_info" where
  "gsignond_identity_info_copy info =
     \<lparr>ref_count = 1, ii_username = ii_username info, ii_secret = ii_secret info,
      edit_flags = edit_flags info, ii_map = gsignond_dictionary_copy (ii_map info)\<rparr>"

definition gsignond_identity_info_ref :: "identity_info \<Rightarrow> identity_info" where
  "gsignond_identity_info_ref info = info\<lparr>ref_count := ref_count info + 1\<rparr>"

text \<open>\<open>None\<close>: the count reached 0 and the record is freed.\<close>

definition gsignond_identity_info_unref :: "identity_info \<Rightarrow> identity_info option" where
  "gsignond_identity_info_unref info =
     (if ref_count info - 1 = 0 then None else Some (info\<lparr>ref_count := ref_count info - 1\<rparr>))"

definition gsignond_identity_info_to_variant :: "identity_info \<Rightarrow> gvariant" where
  "gsignond_identity_info_to_variant info =
     (if gsignond_identity_info_get_is_username_secret info
      then gsignond_dictionary_to_variant (ii_map info)
      else VArray ''{sv}''
             (gsignond_dictionary_to_variant_builder (ii_map info) @
              [VDictEntry (VString key_USERNAME)
                 (VVariant (VString (case ii_username info of Some u \<Rightarrow> u | None \<Rightarrow> '''')))]))"

subsection \<open>Comparison\<close>

fun seq_items_eq :: "gsequence \<Rightarrow> gsequence \<Rightarrow> bool" where
  "seq_items_eq [] _ = True"
| "seq_items_eq (x # xs) (y # ys) =
     (if g_strcmp0 (Some x) (Some y) \<noteq> 0 then False else seq_items_eq xs ys)"
| "seq_items_eq (x # xs) [] = False"

fun identity_info_seq_cmp :: "gsequence option \<Rightarrow> gsequence option \<Rightarrow> bool" where
  "identity_info_seq_cmp None None = True"
| "identity_info_seq_cmp None (Some two) = (length two = 0)"
| "identity_info_seq_cmp (Some one) None = (length one = 0)"
| "identity_info_seq_cmp (Some one) (Some two) =
     (if length one \<noteq> length two then False else seq_items_eq one two)"

fun acl_items_match :: "security_context_list \<Rightarrow> security_context_list \<Rightarrow> bool" where
  "acl_items_match [] _ = True"
| "acl_items_match (x # xs) (y # ys) =
     (if \<not> gsignond_security_context_match x y then False else acl_items_match xs ys)"
| "acl_items_match (x # xs) [] = False"

definition identity_info_sec_context_list_cmp ::
  "security_context_list \<Rightarrow> security_context_list \<Rightarrow> bool" where
  "identity_info_sec_context_list_cmp one two =
     (if one = [] \<and> two = [] then True
      else if one \<noteq> [] \<and> two = [] \<or> one = [] \<and> two \<noteq> [] \<or> length one \<noteq> length two then False
      else acl_items_match one two)"

fun methods_items_eq :: "methods \<Rightarrow> methods \<Rightarrow> bool" where
  "methods_items_eq [] two = True"
| "methods_items_eq ((key, mechs1) # rest) two =
     (if \<not> identity_info_seq_cmp (Some mechs1) (map_of two key) then False
      else methods_items_eq rest two)"

definition identity_info_methods_cmp :: "methods option \<Rightarrow> methods option \<Rightarrow> bool" where
  "identity_info_methods_cmp one two =
     (case (one, two) of
        (None, None) \<Rightarrow> True
      | (Some m1, Some m2) \<Rightarrow> if length m1 \<noteq> length m2 then False else methods_items_eq m1 m2
      | _ \<Rightarrow> False)"

definition gsignond_identity_info_compare :: "identity_info \<Rightarrow> identity_info \<Rightarrow> bool" where
  "gsignond_identity_info_compare info other =
     (if gsignond_identity_info_get_id info \<noteq> gsignond_identity_info_get_id other then False
      else if g_strcmp0 (gsignond_identity_info_get_username info)
                (gsignond_identity_info_get_username other) \<noteq> 0 then False
      else if g_strcmp0 (gsignond_identity_info_get_secret info)
                (gsignond_identity_info_get_secret other) \<noteq> 0 then False
      else if gsignond_identity_info_get_store_secret info \<noteq>
              gsignond_identity_info_get_store_secret other then False
      else if g_strcmp0 (gsignond_identity_info_get_caption info)
                (gsignond_identity_info_get_caption other) \<noteq> 0 then False
      else if \<not> identity_info_seq_cmp (gsignond_identity_info_get_realms info)
                 (gsignond_identity_info_get_realms other) then False
      else if \<not> identity_info_methods_cmp (gsignond_identity_info_get_methods info)
                 (gsignond_identity_info_get_methods other) then False
      else if \<not> identity_info_sec_context_list_cmp
                 (sort_cmp gsignond_security_context_compare
                    (gsignond_identity_info_get_access_control_list info))
                 (sort_cmp gsignond_security_context_compare
                    (gsignond_identity_info_get_access_control_list other)) then False
      else if \<not> gsignond_security_context_match (gsignond_identity_info_get_owner info)
                 (gsignond_identity_info_get_owner other) then False
      else if gsignond_identity_info_get_validated info \<noteq>
              gsignond_identity_info_get_validated other then False
      else gsignond_identity_info_get_identity_type info =
           gsignond_identity_info_get_identity_type other)"

subsection \<open>Edit tracking\<close>

text \<open>
  A place of the record that a setter writes, the value found there, and the flag that stands for it.
\<close>

datatype slot = Slot_username | Slot_secret | Slot_entry string

fun slot_value :: "identity_info \<Rightarrow> slot \<Rightarrow> gvariant option" where
  "slot_value info Slot_username = map_option VString (ii_username info)"
| "slot_value info Slot_secret = map_option VString (ii_secret info)"
| "slot_value info (Slot_entry key) = info_get info key"

definition entry_flags :: "(string \<times> u32) list" where
  "entry_flags =
     [(key_ID, IDENTITY_INFO_PROP_ID), (key_TYPE, IDENTITY_INFO_PROP_TYPE),
      (key_CAPTION, IDENTITY_INFO_PROP_CAPTION), (key_STORESECRET, IDENTITY_INFO_PROP_STORE_SECRET),
      (key_USERNAME_IS_SECRET, IDENTITY_INFO_PROP_USERNAME_IS_SECRET),
      (key_OWNER, IDENTITY_INFO_PROP_OWNER), (key_ACL, IDENTITY_INFO_PROP_ACL),
      (key_AUTHMETHODS, IDENTITY_INFO_PROP_METHODS), (key_REALMS, IDENTITY_INFO_PROP_REALMS),
      (key_REFCOUNT, IDENTITY_INFO_PROP_REF_COUNT), (key_VALIDATED, IDENTITY_INFO_PROP_VALIDATED)]"

fun slot_flag :: "slot \<Rightarrow> u32" where
  "slot_flag Slot_username = IDENTITY_INFO_PROP_USERNAME"
| "slot_flag Slot_secret = IDENTITY_INFO_PROP_SECRET"
| "slot_flag (Slot_entry key) = (case map_of entry_flags key of Some f \<Rightarrow> f | None \<Rightarrow> 0)"

text \<open>
  What a call leaves behind: a flag once set stays set, and a place whose value changed is flagged.
\<close>

definition tracks :: "identity_info \<Rightarrow> identity_info \<Rightarrow> bool" where
  "tracks info info' \<longleftrightarrow>
     (\<forall>n < 32. bit (edit_flags info) n \<longrightarrow> bit (edit_flags info') n) \<and>
     (\<forall>s. slot_value info' s \<noteq> slot_value info s \<longrightarrow> edit_flags info' AND slot_flag s \<noteq> 0)"

lemma and_nonzero_mono:
  fixes a b c :: u32
  assumes "\<forall>n < 32. bit a n \<longrightarrow> bit b n" and "a AND c \<noteq> 0"
  shows "b AND c \<noteq> 0"
proof
  assume *: "b AND c = 0"
  have "a AND c = 0"
  proof (rule bit_word_eqI)
    fix n assume n: "n < LENGTH(32)"
    have "\<not> bit (b AND c) n" by (simp add: *)
    with assms(1) n show "bit (a AND c) n = bit (0 :: u32) n"
      by (auto simp: bit_and_iff)
  qed
  with assms(2) show False by simp
qed

lemma tracks_refl [simp, intro]: "tracks info info"
  by (simp add: tracks_def)

lemma tracks_trans: "tracks a b \<Longrightarrow> tracks b c \<Longrightarrow> tracks a c"
  unfolding tracks_def by (metis and_nonzero_mono)

text \<open>The contract of a setter of one place.\<close>

locale tracked_setter =
  fixes set :: "identity_info \<Rightarrow> 'v \<Rightarrow> bool \<times> identity_info"
    and current :: "identity_info \<Rightarrow> 'v \<Rightarrow> bool"
    and slot :: slot
  assumes set_current: "current info v \<Longrightarrow> set info v = (True, info)"
    and set_fails: "\<not> fst (set info v) \<Longrightarrow> snd (set info v) = info"
    and set_flags: "fst (set info v) \<Longrightarrow> \<not> current info v \<Longrightarrow>
          edit_flags (snd (set info v)) = edit_flags info OR slot_flag slot"
    and set_other: "s \<noteq> slot \<Longrightarrow> slot_value (snd (set info v)) s = slot_value info s"
    and flag_set: "slot_flag slot \<noteq> 0"
    and set_distinct: "keys_distinct (ii_map info) \<Longrightarrow> keys_distinct (ii_map (snd (set info v)))"
begin

lemma set_tracks: "tracks info (snd (set info v))"
proof (cases "fst (set info v) \<and> \<not> current info v")
  case True
  then have flags: "edit_flags (snd (set info v)) = edit_flags info OR slot_flag slot"
    using set_flags by blast
  have "edit_flags (snd (set info v)) AND slot_flag slot \<noteq> 0"
    by (rule and_nonzero_mono [of "slot_flag slot"]) (simp_all add: flags bit_or_iff flag_set)
  then show ?thesis
    unfolding tracks_def using set_other flags by (metis bit_or_iff)
next
  case False
  then have "snd (set info v) = info"
    using set_current set_fails by fastforce
  then show ?thesis by simp
qed

lemma set_twice: "fst (set info v) \<Longrightarrow> current (snd (set info v)) v \<Longrightarrow>
    set (snd (set info v)) v = (True, snd (set info v))"
  by (rule set_current)

end

lemma info_get_entry [simp]: "info_get info k = map_of (ii_map info) k"
  by (simp add: info_get_def gsignond_dictionary_get_def)

lemma info_set_entry_Some:
  "info_set_entry info k (Some v) f =
     (True, info\<lparr>edit_flags := edit_flags info OR f, ii_map := AList.update k v (ii_map info)\<rparr>)"
  by (simp add: info_set_entry_def dict_put_eq gsignond_identity_info_set_edit_flags_def)

lemma info_set_entry_None: "info_set_entry info k None f = (False, info)"
  by (simp add: info_set_entry_def dict_put_None)

lemmas info_set_entry_simps = info_set_entry_Some info_set_entry_None

lemma slot_value_upd [simp]:
  "slot_value (info\<lparr>edit_flags := e\<rparr>) s = slot_value info s"
  "s \<noteq> Slot_username \<Longrightarrow> slot_value (info\<lparr>ii_username := u\<rparr>) s = slot_value info s"
  "s \<noteq> Slot_secret \<Longrightarrow> slot_value (info\<lparr>ii_secret := p\<rparr>) s = slot_value info s"
  "s \<noteq> Slot_entry k \<Longrightarrow> slot_value (info\<lparr>ii_map := AList.update k v (ii_map info)\<rparr>) s = slot_value info s"
  "s \<noteq> Slot_entry k \<Longrightarrow> slot_value (info\<lparr>ii_map := AList.delete k (ii_map info)\<rparr>) s = slot_value info s"
  by (cases s; auto simp: update_conv' delete_conv')+

lemma slot_value_upd2 [simp]:
  "s \<noteq> Slot_entry k \<Longrightarrow>
     slot_value (info\<lparr>edit_flags := e, ii_map := AList.update k v (ii_map info)\<rparr>) s = slot_value info s"
  "s \<noteq> Slot_entry k \<Longrightarrow>
     slot_value (info\<lparr>edit_flags := e, ii_map := AList.delete k (ii_map info)\<rparr>) s = slot_value info s"
  "s \<noteq> Slot_username \<Longrightarrow> slot_value (info\<lparr>edit_flags := e, ii_username := u\<rparr>) s = slot_value info s"
  "s \<noteq> Slot_secret \<Longrightarrow> slot_value (info\<lparr>edit_flags := e, ii_secret := p\<rparr>) s = slot_value info s"
  by (cases s; auto simp: update_conv' delete_conv')+

interpretation set_id: tracked_setter gsignond_identity_info_set_id
    "\<lambda>i v. gsignond_identity_info_get_id i = v" "Slot_entry key_ID"
  by unfold_locales
     (auto simp: gsignond_identity_info_set_id_def info_set_entry_simps
        gsignond_identity_info_set_edit_flags_def Let_def entry_flags_def prop_defs)

interpretation set_username_secret: tracked_setter gsignond_identity_info_set_username_secret
    "\<lambda>i v. gsignond_identity_info_get_is_username_secret i = v" "Slot_entry key_USERNAME_IS_SECRET"
  by unfold_locales
     (auto simp: gsignond_identity_info_set_username_secret_def info_set_entry_simps
        gsignond_identity_info_set_edit_flags_def Let_def entry_flags_def prop_defs)

interpretation set_store_secret: tracked_setter gsignond_identity_info_set_store_secret
    "\<lambda>i v. gsignond_identity_info_get_store_secret i = v" "Slot_entry key_STORESECRET"
  by unfold_locales
     (auto simp: gsignond_identity_info_set_store_secret_def info_set_entry_simps
        gsignond_identity_info_set_edit_flags_def Let_def entry_flags_def prop_defs)

interpretation set_validated: tracked_setter gsignond_identity_info_set_validated
    "\<lambda>i v. gsignond_identity_info_get_validated i = v" "Slot_entry key_VALIDATED"
  by unfold_locales
     (auto simp: gsignond_identity_info_set_validated_def info_set_entry_simps
        gsignond_identity_info_set_edit_flags_def Let_def entry_flags_def prop_defs)

interpretation set_identity_type: tracked_setter gsignond_identity_info_set_identity_type
    "\<lambda>i v. gsignond_identity_info_get_identity_type i = v" "Slot_entry key_TYPE"
  by unfold_locales
     (auto simp: gsignond_identity_info_set_identity_type_def info_set_entry_simps
        gsignond_identity_info_set_edit_flags_def Let_def entry_flags_def prop_defs)

interpretation set_username: tracked_setter gsignond_identity_info_set_username
    "\<lambda>i v. gsignond_identity_info_get_username i = v" "Slot_username"
  by unfold_locales
     (auto simp: gsignond_identity_info_set_username_def gsignond_identity_info_get_username_def info_set_entry_simps
        gsignond_identity_info_set_edit_flags_def Let_def entry_flags_def prop_defs)

interpretation set_secret: tracked_setter gsignond_identity_info_set_secret
    "\<lambda>i v. gsignond_identity_info_get_secret i = v" "Slot_secret"
  by unfold_locales
     (auto simp: gsignond_identity_info_set_secret_def gsignond_identity_info_get_secret_def info_set_entry_simps
        gsignond_identity_info_set_edit_flags_def Let_def entry_flags_def prop_defs)

interpretation set_caption: tracked_setter gsignond_identity_info_set_caption
    "\<lambda>i v. gsignond_identity_info_get_caption i = v" "Slot_entry key_CAPTION"
  by unfold_locales
     (auto simp: gsignond_identity_info_set_caption_def gsignond_identity_info_get_caption_def g_variant_new_string_def gsignond_dictionary_remove_def info_set_entry_simps
        gsignond_identity_info_set_edit_flags_def Let_def entry_flags_def prop_defs split: option.splits)

interpretation set_realms: tracked_setter gsignond_identity_info_set_realms
    "\<lambda>i v. v \<noteq> None \<and> info_get i key_REALMS \<noteq> None \<and> info_get i key_REALMS = gsignond_sequence_to_variant v" "Slot_entry key_REALMS"
  by unfold_locales
     (auto simp: gsignond_identity_info_set_realms_def info_set_entry_simps
        gsignond_identity_info_set_edit_flags_def Let_def entry_flags_def prop_defs split: option.splits)

interpretation set_methods: tracked_setter gsignond_identity_info_set_methods
    "\<lambda>i v. v \<noteq> None \<and> info_get i key_AUTHMETHODS = map_option methods_to_variant v" "Slot_entry key_AUTHMETHODS"
  by unfold_locales
     (auto simp: gsignond_identity_info_set_methods_def info_set_entry_simps
        gsignond_identity_info_set_edit_flags_def Let_def entry_flags_def prop_defs split: option.splits)

interpretation set_acl: tracked_setter gsignond_identity_info_set_access_control_list
    "\<lambda>i v. info_get i key_ACL = None \<and> v = [] \<or> info_get i key_ACL \<noteq> None \<and> info_get i key_ACL = gsignond_security_context_list_to_variant v" "Slot_entry key_ACL"
  by unfold_locales
     (auto simp: gsignond_identity_info_set_access_control_list_def gsignond_security_context_list_to_variant_def info_set_entry_simps
        gsignond_identity_info_set_edit_flags_def Let_def entry_flags_def prop_defs split: option.splits)

interpretation set_owner: tracked_setter gsignond_identity_info_set_owner
    "\<lambda>i v. v \<noteq> None \<and> gsignond_identity_info_get_owner i \<noteq> None \<and> gsignond_security_context_compare (gsignond_identity_info_get_owner i) v = 0" "Slot_entry key_OWNER"
  by unfold_locales
     (auto simp: gsignond_identity_info_set_owner_def info_set_entry_simps
        gsignond_identity_info_set_edit_flags_def Let_def entry_flags_def prop_defs split: option.splits)

subsection \<open>The selective copy\<close>

lemma exp_below_max: "n \<le> 13 \<Longrightarrow> (2 ^ n :: u32) < IDENTITY_INFO_PROP_MAX \<longleftrightarrow> n < 13"
proof -
  assume "n \<le> 13"
  then have "n \<in> {0, 1, 2, 3, 4, 5, 6, 7, 8, 9, 10, 11, 12, 13}"
    by auto presburger
  then show ?thesis
    by (elim insertE emptyE) (simp_all add: prop_defs)
qed

lemma flag_bit_iff: "(flags :: u32) AND 2 ^ n = 0 \<longleftrightarrow> \<not> bit flags n"
  using bit_iff_and_push_bit_not_eq_0 [of flags n] by (simp add: push_bit_eq_mult)

lemma bit_clear_flag: "n < 32 \<Longrightarrow>
    bit (flags AND NOT (2 ^ n :: u32)) i \<longleftrightarrow> bit flags i \<and> i \<noteq> n"
  using bit_imp_le_length [of flags i]
  by (auto simp: bit_and_iff bit_not_iff bit_exp_iff)

lemma selective_copy_loop_result:
  assumes "length ks + n = 13" and "distinct ks"
  shows "\<exists>m fl. selective_copy_loop (2 ^ n) ks src dest flags = Some (m, fl) \<and>
     (\<forall>i. bit fl i \<longleftrightarrow> bit flags i \<and> (n \<le> i \<and> i < 13 \<longrightarrow> map_of src (ks ! (i - n)) \<noteq> None)) \<and>
     (\<forall>j < length ks. map_of m (ks ! j) =
        (if bit fl (n + j) then map_of src (ks ! j) else map_of dest (ks ! j))) \<and>
     (\<forall>k. k \<notin> set ks \<longrightarrow> map_of m k = map_of dest k)"
  using assms
proof (induction ks arbitrary: n dest flags)
  case Nil
  then have "n = 13" by simp
  then show ?case using exp_below_max [of n] by auto
next
  case (Cons key ks)
  from Cons.prems have n: "n < 13" and len: "length ks + Suc n = 13"
    and dist: "distinct ks" "key \<notin> set ks" by auto
  let ?cp = "bit flags n \<and> map_of src key \<noteq> None"
  let ?dest = "if ?cp then AList.update key (the (map_of src key)) dest else dest"
  let ?flags = "if ?cp then flags else flags AND NOT (2 ^ n)"
  have step: "selective_copy_loop (2 ^ n) (key # ks) src dest flags =
      selective_copy_loop (2 ^ Suc n) ks src ?dest ?flags"
    using n exp_below_max [of n]
    by (auto simp: flag_bit_iff gsignond_dictionary_contains_def dict_get_fun dict_put_eq
        mult.commute [of "2 ^ n"])
  obtain m fl where
    run: "selective_copy_loop (2 ^ Suc n) ks src ?dest ?flags = Some (m, fl)" and
    bits: "\<And>i. bit fl i \<longleftrightarrow> bit ?flags i \<and>
             (Suc n \<le> i \<and> i < 13 \<longrightarrow> map_of src (ks ! (i - Suc n)) \<noteq> None)" and
    vals: "\<And>j. j < length ks \<Longrightarrow> map_of m (ks ! j) =
             (if bit fl (Suc n + j) then map_of src (ks ! j) else map_of ?dest (ks ! j))" and
    rest: "\<And>k. k \<notin> set ks \<Longrightarrow> map_of m k = map_of ?dest k"
    using Cons.IH [OF len dist(1), of ?dest ?flags] by auto
  have bitn: "bit fl n \<longleftrightarrow> ?cp"
    using bits [of n] n by (simp add: bit_clear_flag)
  have "bit fl i \<longleftrightarrow> bit flags i \<and> (n \<le> i \<and> i < 13 \<longrightarrow> map_of src ((key # ks) ! (i - n)) \<noteq> None)"
    for i
  proof (cases "i = n")
    case True
    then show ?thesis using bitn n by simp
  next
    case False
    then show ?thesis
      using bits [of i] n by (auto simp: bit_clear_flag nth_Cons' Suc_le_eq)
  qed
  moreover have "map_of m ((key # ks) ! j) =
      (if bit fl (n + j) then map_of src ((key # ks) ! j) else map_of dest ((key # ks) ! j))"
    if j: "j < length (key # ks)" for j
  proof (cases j)
    case 0
    then show ?thesis
      using rest [OF dist(2)] bitn by (auto simp: update_conv')
  next
    case (Suc j')
    then have "map_of ?dest (ks ! j') = map_of dest (ks ! j')"
      using j dist(2) by (auto simp: update_conv' dest: nth_mem)
    then show ?thesis
      using vals [of j'] Suc j by simp
  qed
  moreover have "map_of m k = map_of dest k" if "k \<notin> set (key # ks)" for k
    using that rest [of k] by (auto simp: update_conv')
  ultimately show ?case
    using step run by auto
qed

lemma entry_flags_zip: "entry_flags = zip selective_copy_keys (map (\<lambda>n. 2 ^ n) [2..<13])"
  by (simp add: entry_flags_def selective_copy_keys_def prop_defs upt_rec)

lemma entry_flags_nth:
  assumes "(key, f) \<in> set entry_flags"
  obtains j where "j < 11" "key = selective_copy_keys ! j" "f = 2 ^ (2 + j)"
proof -
  have len: "length selective_copy_keys = 11"
    by (simp add: selective_copy_keys_def)
  from assms obtain j where "j < length entry_flags" "entry_flags ! j = (key, f)"
    by (metis in_set_conv_nth)
  with len show ?thesis
    by (intro that [of j]) (auto simp: entry_flags_zip simp del: upt_conv_Cons upt_rec_numeral)
qed

lemma entry_flags_keys: "map fst entry_flags = selective_copy_keys"
  by (simp add: entry_flags_def selective_copy_keys_def)

lemma slot_flag_entry: "(key, f) \<in> set entry_flags \<Longrightarrow> slot_flag (Slot_entry key) = f"
proof -
  have "keys_distinct entry_flags"
    by (simp add: entry_flags_def)
  then show "(key, f) \<in> set entry_flags \<Longrightarrow> slot_flag (Slot_entry key) = f"
    by simp
qed

lemma selective_copy_loop_distinct:
  "selective_copy_loop n ks src dest flags = Some (m, fl) \<Longrightarrow> keys_distinct dest \<Longrightarrow> keys_distinct m"
proof (induction n ks src dest flags rule: selective_copy_loop.induct)
  case (2 tmp_flag key keys src dest flags)
  then show ?case
    by (cases "map_of src key")
       (auto simp: gsignond_dictionary_contains_def dict_get_fun dict_put_eq split: if_splits)
qed (auto split: if_splits)

lemma selective_copy_result:
  obtains flags' dest' where
    "gsignond_identity_info_selective_copy dest src flags = Some (flags', dest')"
    "\<And>key f. (key, f) \<in> set entry_flags \<Longrightarrow>
       (flags' AND f \<noteq> 0 \<longleftrightarrow> flags AND f \<noteq> 0 \<and> info_get src key \<noteq> None) \<and>
       info_get dest' key = (if flags' AND f \<noteq> 0 then info_get src key else info_get dest key)"
    "\<And>key. key \<notin> set (map fst entry_flags) \<Longrightarrow> info_get dest' key = info_get dest key"
    "ii_username dest' =
       (if flags AND IDENTITY_INFO_PROP_USERNAME \<noteq> 0 then ii_username src else ii_username dest)"
    "ii_secret dest' =
       (if flags AND IDENTITY_INFO_PROP_SECRET \<noteq> 0 then ii_secret src else ii_secret dest)"
    "flags' AND IDENTITY_INFO_PROP_USERNAME = flags AND IDENTITY_INFO_PROP_USERNAME"
    "flags' AND IDENTITY_INFO_PROP_SECRET = flags AND IDENTITY_INFO_PROP_SECRET"
    "edit_flags dest' = edit_flags dest OR flags'"
    "ref_count dest' = ref_count dest"
    "keys_distinct (ii_map dest) \<Longrightarrow> keys_distinct (ii_map dest')"
proof (cases "flags = IDENTITY_INFO_PROP_NONE")
  case True
  then show ?thesis
    by (intro that [of flags dest])
       (auto simp: gsignond_identity_info_selective_copy_def prop_defs)
next
  case False
  have len: "length selective_copy_keys + 2 = 13" and dist: "distinct selective_copy_keys"
    by (simp_all add: selective_copy_keys_def)
  have id2: "IDENTITY_INFO_PROP_ID = 2 ^ 2" "IDENTITY_INFO_PROP_USERNAME = 2 ^ 0"
    "IDENTITY_INFO_PROP_SECRET = 2 ^ 1"
    by (simp_all add: prop_defs)
  obtain m fl where
    run: "selective_copy_loop (2 ^ 2) selective_copy_keys (ii_map src) (ii_map dest) flags = Some (m, fl)" and
    bits: "\<And>i. bit fl i \<longleftrightarrow> bit flags i \<and>
             (2 \<le> i \<and> i < 13 \<longrightarrow> map_of (ii_map src) (selective_copy_keys ! (i - 2)) \<noteq> None)" and
    vals: "\<And>j. j < 11 \<Longrightarrow> map_of m (selective_copy_keys ! j) =
             (if bit fl (2 + j) then map_of (ii_map src) (selective_copy_keys ! j)
              else map_of (ii_map dest) (selective_copy_keys ! j))" and
    rest: "\<And>k. k \<notin> set selective_copy_keys \<Longrightarrow> map_of m k = map_of (ii_map dest) k"
    using selective_copy_loop_result [OF len dist, of "ii_map src" "ii_map dest" flags] len by force
  have low: "fl AND 2 ^ i = flags AND 2 ^ i" if "i < 2" for i
    by (rule bit_word_eqI) (use that bits [of i] in \<open>auto simp: bit_and_iff bit_exp_iff\<close>)
  let ?dest = "\<lparr>ref_count = ref_count dest,
     ii_username = (if flags AND IDENTITY_INFO_PROP_USERNAME \<noteq> 0 then ii_username src else ii_username dest),
     ii_secret = (if flags AND IDENTITY_INFO_PROP_SECRET \<noteq> 0 then ii_secret src else ii_secret dest),
     edit_flags = edit_flags dest OR fl, ii_map = m\<rparr>"
  have result: "gsignond_identity_info_selective_copy dest src flags = Some (fl, ?dest)"
    using False run low [of 0] low [of 1]
    by (cases dest) (simp add: gsignond_identity_info_selective_copy_def Let_def id2)
  show ?thesis
  proof (rule that [OF result], goal_cases)
    case (1 key f)
    then obtain j where j: "j < 11" "key = selective_copy_keys ! j" "f = 2 ^ (2 + j)"
      by (rule entry_flags_nth)
    then show ?case
      using vals [of j] bits [of "2 + j"] by (simp only: flag_bit_iff info_get_entry) simp
  next
    case 9
    then show ?case using selective_copy_loop_distinct [OF run] by simp
  qed (use low [of 0] low [of 1] rest entry_flags_keys in \<open>simp_all add: id2\<close>)
qed

text \<open>
  C3. The selective copy never runs past its key array, and copies exactly the requested
  properties that the source has: the flags it returns are the requested ones without those of
  missing entries, an entry of the destination takes the value of the source exactly when its flag
  is among them, username and secret are copied on request, nothing else changes, and the
  returned flags are added to the edit flags.
\<close>

theorem selective_copy_copies_requested:
  "\<exists>flags' dest'. gsignond_identity_info_selective_copy dest src flags = Some (flags', dest') \<and>
     (\<forall>(key, f) \<in> set entry_flags.
        (flags' AND f \<noteq> 0 \<longleftrightarrow> flags AND f \<noteq> 0 \<and> info_get src key \<noteq> None) \<and>
        info_get dest' key = (if flags' AND f \<noteq> 0 then info_get src key else info_get dest key)) \<and>
     (\<forall>key. key \<notin> set (map fst entry_flags) \<longrightarrow> info_get dest' key = info_get dest key) \<and>
     ii_username dest' =
       (if flags AND IDENTITY_INFO_PROP_USERNAME \<noteq> 0 then ii_username src else ii_username dest) \<and>
     ii_secret dest' =
       (if flags AND IDENTITY_INFO_PROP_SECRET \<noteq> 0 then ii_secret src else ii_secret dest) \<and>
     edit_flags dest' = edit_flags dest OR flags' \<and>
     ref_count dest' = ref_count dest"
  by (rule selective_copy_result [of dest src flags]) auto

theorem selective_copy_copies_requested_witness:
  "\<exists>flags' dest'. gsignond_identity_info_selective_copy gsignond_identity_info_new
       (snd (gsignond_identity_info_set_caption gsignond_identity_info_new (Some ''work''))) 0x11 =
     Some (flags', dest') \<and> edit_flags dest' = edit_flags gsignond_identity_info_new OR flags'"
  using selective_copy_copies_requested [of gsignond_identity_info_new
      "snd (gsignond_identity_info_set_caption gsignond_identity_info_new (Some ''work''))" "0x11"]
  by auto

lemma selective_copy_tracks:
  assumes "gsignond_identity_info_selective_copy dest src flags = Some (flags', dest')"
  shows "tracks dest dest'"
proof (rule selective_copy_result [of dest src flags], goal_cases)
  case (1 fl d)
  with assms have eq: "fl = flags'" "d = dest'" by simp_all
  have bits: "\<And>n. bit (edit_flags dest') n \<longleftrightarrow> bit (edit_flags dest) n \<or> bit flags' n"
    using 1(8) by (simp add: eq bit_or_iff)
  have flagged: "edit_flags dest' AND f \<noteq> 0" if "flags' AND f \<noteq> 0" for f
    by (rule and_nonzero_mono [of flags']) (use bits that in auto)
  have "edit_flags dest' AND slot_flag s \<noteq> 0" if ch: "slot_value dest' s \<noteq> slot_value dest s" for s
  proof (cases s)
    case Slot_username
    then show ?thesis using ch 1(4,6) flagged by (auto simp: eq split: if_splits)
  next
    case Slot_secret
    then show ?thesis using ch 1(5,7) flagged by (auto simp: eq split: if_splits)
  next
    case (Slot_entry key)
    with ch 1(3) [of key] obtain f where f: "(key, f) \<in> set entry_flags" by (force simp: eq)
    with ch 1(2) [OF f] Slot_entry have "flags' AND f \<noteq> 0" by (auto simp: eq split: if_splits)
    then show ?thesis using flagged slot_flag_entry [OF f] Slot_entry by simp
  qed
  with bits show ?case by (auto simp: tracks_def)
qed

subsection \<open>Sequences of edits\<close>

text \<open>The calls a client makes on an identity between two stores, in any order.\<close>

datatype info_edit =
    Edit_id u32
  | Edit_identity_new
  | Edit_username cstr
  | Edit_username_secret bool
  | Edit_secret cstr
  | Edit_store_secret bool
  | Edit_caption cstr
  | Edit_validated bool
  | Edit_identity_type u32
  | Edit_realms "gsequence option"
  | Edit_methods "methods option"
  | Edit_remove_method string
  | Edit_acl "security_context list"
  | Edit_owner "security_context option"
  | Edit_remove_owner
  | Edit_selective_copy identity_info u32

fun apply_edit :: "info_edit \<Rightarrow> identity_info \<Rightarrow> identity_info" where
  "apply_edit (Edit_id i) info = snd (gsignond_identity_info_set_id info i)"
| "apply_edit Edit_identity_new info = snd (gsignond_identity_info_set_identity_new info)"
| "apply_edit (Edit_username u) info = snd (gsignond_identity_info_set_username info u)"
| "apply_edit (Edit_username_secret b) info = snd (gsignond_identity_info_set_username_secret info b)"
| "apply_edit (Edit_secret p) info = snd (gsignond_identity_info_set_secret info p)"
| "apply_edit (Edit_store_secret b) info = snd (gsignond_identity_info_set_store_secret info b)"
| "apply_edit (Edit_caption c) info = snd (gsignond_identity_info_set_caption info c)"
| "apply_edit (Edit_validated b) info = snd (gsignond_identity_info_set_validated info b)"
| "apply_edit (Edit_identity_type t) info = snd (gsignond_identity_info_set_identity_type info t)"
| "apply_edit (Edit_realms r) info = snd (gsignond_identity_info_set_realms info r)"
| "apply_edit (Edit_methods m) info = snd (gsignond_identity_info_set_methods info m)"
| "apply_edit (Edit_remove_method m) info = snd (gsignond_identity_info_remove_method info m)"
| "apply_edit (Edit_acl acl) info = snd (gsignond_identity_info_set_access_control_list info acl)"
| "apply_edit (Edit_owner ow) info = snd (gsignond_identity_info_set_owner info ow)"
| "apply_edit Edit_remove_owner info = gsignond_identity_info_remove_owner info"
| "apply_edit (Edit_selective_copy src flags) info =
     (case gsignond_identity_info_selective_copy info src flags of
        Some (_, info') \<Rightarrow> info' | None \<Rightarrow> info)"

lemmas setters_track =
  set_id.set_tracks set_username_secret.set_tracks set_store_secret.set_tracks
  set_validated.set_tracks set_identity_type.set_tracks set_username.set_tracks
  set_secret.set_tracks set_caption.set_tracks set_realms.set_tracks set_methods.set_tracks
  set_acl.set_tracks set_owner.set_tracks

lemma remove_method_tracks: "tracks info (snd (gsignond_identity_info_remove_method info m))"
  by (simp add: gsignond_identity_info_remove_method_def setters_track split: option.split)

text \<open>
  Removing the owner is the one edit that leaves the flags alone. What a sequence of edits leaves
  behind, then, when the owner may have been removed by it: a flag once set stays set, and a place
  whose value changed is flagged, or is the owner, which is gone.
\<close>

definition tracks_but_owner :: "bool \<Rightarrow> identity_info \<Rightarrow> identity_info \<Rightarrow> bool" where
  "tracks_but_owner removed info info' \<longleftrightarrow>
     (\<forall>n < 32. bit (edit_flags info) n \<longrightarrow> bit (edit_flags info') n) \<and>
     (\<forall>s. slot_value info' s \<noteq> slot_value info s \<longrightarrow>
        edit_flags info' AND slot_flag s \<noteq> 0 \<or>
        removed \<and> s = Slot_entry key_OWNER \<and> slot_value info' s = None)"

lemma tracks_but_owner_refl [simp]: "tracks_but_owner r info info"
  by (simp add: tracks_but_owner_def)

lemma tracks_but_ownerI: "tracks info info' \<Longrightarrow> tracks_but_owner r info info'"
  by (auto simp: tracks_but_owner_def tracks_def)

lemma tracks_but_owner_trans:
  assumes "tracks_but_owner r a b" "tracks_but_owner r' b c"
  shows "tracks_but_owner (r \<or> r') a c"
  unfolding tracks_but_owner_def
proof (intro conjI allI impI)
  show "bit (edit_flags c) n" if "n < 32" "bit (edit_flags a) n" for n
    using assms that by (simp add: tracks_but_owner_def)
  fix s assume diff: "slot_value c s \<noteq> slot_value a s"
  have kept: "edit_flags c AND slot_flag s \<noteq> 0" if "edit_flags b AND slot_flag s \<noteq> 0"
    by (rule and_nonzero_mono [OF _ that]) (use assms(2) in \<open>simp add: tracks_but_owner_def\<close>)
  show "edit_flags c AND slot_flag s \<noteq> 0 \<or>
      (r \<or> r') \<and> s = Slot_entry key_OWNER \<and> slot_value c s = None"
  proof (cases "slot_value c s = slot_value b s")
    case True
    with diff assms(1) show ?thesis unfolding tracks_but_owner_def using kept by metis
  next
    case False
    with assms(2) show ?thesis unfolding tracks_but_owner_def by blast
  qed
qed

lemma remove_owner_effect:
  "edit_flags (gsignond_identity_info_remove_owner info) = edit_flags info"
  "slot_value (gsignond_identity_info_remove_owner info) s =
     (if s = Slot_entry key_OWNER then None else slot_value info s)"
  by (cases s; simp add: gsignond_identity_info_remove_owner_def gsignond_dictionary_remove_def
        info_get_def delete_conv')+

lemma apply_edit_tracks: "tracks_but_owner (e = Edit_remove_owner) info (apply_edit e info)"
proof (cases "e = Edit_remove_owner")
  case True
  then show ?thesis
    by (simp add: tracks_but_owner_def remove_owner_effect del: slot_value.simps)
next
  case False
  then have "tracks info (apply_edit e info)"
    by (cases e)
       (auto simp: setters_track remove_method_tracks gsignond_identity_info_set_identity_new_def
          intro: selective_copy_tracks split: option.splits)
  then show ?thesis by (rule tracks_but_ownerI)
qed

lemma edits_track: "tracks_but_owner (Edit_remove_owner \<in> set es) info (fold apply_edit es info)"
proof (induction es arbitrary: info)
  case (Cons e es)
  then show ?case
    using tracks_but_owner_trans [OF apply_edit_tracks [of e info] Cons [of "apply_edit e info"]]
    by (auto simp: eq_commute [of e])
qed simp

text \<open>
  C2. Edit tracking, for every sequence of edits, the removal of the owner included: a property
  whose value at the end differs from the one at the start has its flag set, with one exception,
  the owner, when the owner was removed by one of the edits and is absent at the end. The removal
  itself takes the owner away, changes nothing else, and leaves the flags as they were. So an
  identity whose flags are 0 at the end, for which the metadata database writes nothing, has every
  property as at the start, except that the owner may have been removed.
\<close>

theorem edit_tracking_sound:
  "(slot_value (fold apply_edit es info) s \<noteq> slot_value info s \<longrightarrow>
      edit_flags (fold apply_edit es info) AND slot_flag s \<noteq> 0 \<or>
      s = Slot_entry key_OWNER \<and> Edit_remove_owner \<in> set es \<and>
        slot_value (fold apply_edit es info) s = None) \<and>
   (edit_flags (fold apply_edit es info) = IDENTITY_INFO_PROP_NONE \<longrightarrow>
      slot_value (fold apply_edit es info) s = slot_value info s \<or>
      s = Slot_entry key_OWNER \<and> Edit_remove_owner \<in> set es \<and>
        slot_value (fold apply_edit es info) s = None) \<and>
   edit_flags (apply_edit Edit_remove_owner info) = edit_flags info \<and>
   slot_value (apply_edit Edit_remove_owner info) s =
     (if s = Slot_entry key_OWNER then None else slot_value info s)"
  using edits_track [of es info] unfolding tracks_but_owner_def
  by (auto simp: IDENTITY_INFO_PROP_NONE_def remove_owner_effect simp del: slot_value.simps)

lemma edit_example:
  "slot_value (fold apply_edit [Edit_caption (Some ''work''), Edit_username (Some ''bob'')]
      gsignond_identity_info_new) (Slot_entry key_CAPTION) \<noteq>
   slot_value gsignond_identity_info_new (Slot_entry key_CAPTION)"
  by (simp add: gsignond_identity_info_set_caption_def gsignond_identity_info_get_caption_def
      gsignond_identity_info_set_username_def gsignond_identity_info_get_username_def
      gsignond_identity_info_set_edit_flags_def info_set_entry_simps g_variant_new_string_def
      gsignond_identity_info_new_def gsignond_identity_info_new_from_variant_def
      gsignond_dictionary_new_from_variant_def gsignond_dictionary_new_def dict_put_eq Let_def
      update_conv')

theorem edit_tracking_sound_witness:
  "edit_flags (fold apply_edit [Edit_caption (Some ''work''), Edit_username (Some ''bob'')]
      gsignond_identity_info_new) AND slot_flag (Slot_entry key_CAPTION) \<noteq> 0"
proof -
  have "key_CAPTION \<noteq> key_OWNER" by simp
  with edit_tracking_sound [of "[Edit_caption (Some ''work''), Edit_username (Some ''bob'')]"
      gsignond_identity_info_new "Slot_entry key_CAPTION"] edit_example
  show ?thesis by blast
qed

subsection \<open>The invariant and the exposed variant\<close>

text \<open>The table never holds the username or the secret, and holds a key once.\<close>

definition info_wf :: "identity_info \<Rightarrow> bool" where
  "info_wf info \<longleftrightarrow> keys_distinct (ii_map info) \<and>
     info_get info key_USERNAME = None \<and> info_get info key_SECRET = None"

context tracked_setter
begin

lemma set_wf: "info_wf info \<Longrightarrow> info_wf (snd (set info v))"
proof -
  have "slot \<noteq> Slot_entry key_USERNAME" "slot \<noteq> Slot_entry key_SECRET"
    using flag_set by (auto simp: entry_flags_def)
  then show "info_wf info \<Longrightarrow> info_wf (snd (set info v))"
    using set_distinct [of info v] set_other [of "Slot_entry key_USERNAME" info v]
      set_other [of "Slot_entry key_SECRET" info v]
    by (auto simp: info_wf_def)
qed

end

lemmas setters_wf =
  set_id.set_wf set_username_secret.set_wf set_store_secret.set_wf set_validated.set_wf
  set_identity_type.set_wf set_username.set_wf set_secret.set_wf set_caption.set_wf
  set_realms.set_wf set_methods.set_wf set_acl.set_wf set_owner.set_wf

lemma selective_copy_wf:
  assumes "gsignond_identity_info_selective_copy dest src flags = Some (fl, dest')" "info_wf dest"
  shows "info_wf dest'"
proof (rule selective_copy_result [of dest src flags], goal_cases)
  case (1 fl' d)
  then show ?thesis
    using assms 1(3) [of key_USERNAME] 1(3) [of key_SECRET]
    by (auto simp: info_wf_def entry_flags_def)
qed

lemma remove_owner_wf: "info_wf info \<Longrightarrow> info_wf (gsignond_identity_info_remove_owner info)"
  by (simp add: info_wf_def gsignond_identity_info_remove_owner_def gsignond_dictionary_remove_def
      distinct_delete delete_conv')

lemma apply_edit_wf: "info_wf info \<Longrightarrow> info_wf (apply_edit e info)"
  by (cases e)
     (auto simp: setters_wf remove_owner_wf gsignond_identity_info_set_identity_new_def
        gsignond_identity_info_remove_method_def intro: selective_copy_wf split: option.splits)

lemma edits_wf: "info_wf info \<Longrightarrow> info_wf (fold apply_edit es info)"
  by (induction es arbitrary: info) (auto intro: apply_edit_wf)

lemma flag_if_present_frame [gsso_frame]:
  "ii_map (flag_if_present k f info) = ii_map info"
  "ii_username (flag_if_present k f info) = ii_username info"
  "ii_secret (flag_if_present k f info) = ii_secret info"
  by (simp_all add: flag_if_present_def)

lemma flag_rest_frame [gsso_frame]:
  "ii_map (flag_rest info) = ii_map info"
  "ii_username (flag_rest info) = ii_username info"
  "ii_secret (flag_rest info) = ii_secret info"
  by (simp_all add: flag_rest_def gsso_frame)

lemma take_username_map: "keys_distinct (ii_map info) \<Longrightarrow>
    keys_distinct (ii_map (take_username info)) \<and>
    map_of (ii_map (take_username info)) = (map_of (ii_map info))(key_USERNAME := None)"
  by (cases "map_of (ii_map info) key_USERNAME")
     (simp_all add: take_username_def gsignond_dictionary_contains_def dict_del_eq delete_conv'
        fun_upd_idem dict_get_fun)

lemma take_secret_map: "keys_distinct (ii_map info) \<Longrightarrow>
    keys_distinct (ii_map (take_secret info)) \<and>
    map_of (ii_map (take_secret info)) = (map_of (ii_map info))(key_SECRET := None)"
  by (cases "map_of (ii_map info) key_SECRET")
     (simp_all add: take_secret_def gsignond_dictionary_contains_def dict_del_eq delete_conv'
        fun_upd_idem dict_get_fun)

lemma new_from_variant_wf: "info_wf (gsignond_identity_info_new_from_variant v)"
proof (cases "gsignond_dictionary_new_from_variant v")
  case None
  then show ?thesis
    by (simp add: gsignond_identity_info_new_from_variant_def info_wf_def
        gsignond_dictionary_new_def dict_put_eq update_conv')
next
  case (Some m)
  show ?thesis
    unfolding gsignond_identity_info_new_from_variant_def Let_def Some option.case info_wf_def
      info_get_entry gsso_frame
    using dict_from_variant_distinct [OF Some]
    by (simp add: take_secret_map take_username_map gsso_frame)
qed

lemma read_entries_append:
  "dictionary_read_entries (gsignond_dictionary_to_variant_builder d @
       [VDictEntry (VString k) (VVariant v)]) acc =
     AList.update k v (dictionary_read_entries (gsignond_dictionary_to_variant_builder d) acc)"
  by (induction d arbitrary: acc)
     (auto simp: gsignond_dictionary_to_variant_builder_def)

lemma to_variant_entries:
  assumes "info_wf info"
  shows "\<exists>m. gsignond_dictionary_new_from_variant (Some (gsignond_identity_info_to_variant info)) = Some m \<and>
     keys_distinct m \<and>
     map_of m = (map_of (ii_map info))(key_USERNAME :=
       (if gsignond_identity_info_get_is_username_secret info then None
        else Some (VString (case ii_username info of Some u \<Rightarrow> u | None \<Rightarrow> '''')))) \<and>
     map_of m key_SECRET = None"
proof -
  have wf: "keys_distinct (ii_map info)" "map_of (ii_map info) key_USERNAME = None"
    "map_of (ii_map info) key_SECRET = None"
    using assms by (simp_all add: info_wf_def)
  from dict_from_to_variant [OF wf(1)] obtain m where m:
    "gsignond_dictionary_new_from_variant (Some (gsignond_dictionary_to_variant (ii_map info))) = Some m"
    "map_of m = map_of (ii_map info)" "keys_distinct m" .
  have plain: "dictionary_read_entries (gsignond_dictionary_to_variant_builder (ii_map info)) [] = m"
    using m(1) by (simp add: gsignond_dictionary_new_from_variant_def gsignond_dictionary_to_variant_def
        gsignond_dictionary_new_def)
  show ?thesis
  proof (cases "gsignond_identity_info_get_is_username_secret info")
    case True
    then show ?thesis
      using m wf by (simp add: gsignond_identity_info_to_variant_def fun_upd_idem)
  next
    case False
    then show ?thesis
      using m wf plain
      by (simp add: gsignond_identity_info_to_variant_def gsignond_dictionary_new_from_variant_def
          gsignond_dictionary_new_def read_entries_append update_conv')
  qed
qed

lemma info_from_to_variant:
  assumes "info_wf info"
  defines "info' \<equiv> gsignond_identity_info_new_from_variant (Some (gsignond_identity_info_to_variant info))"
  shows "map_of (ii_map info') = map_of (ii_map info) \<and> ii_secret info' = None \<and>
     ii_username info' = (if gsignond_identity_info_get_is_username_secret info then None
        else Some (case ii_username info of Some u \<Rightarrow> u | None \<Rightarrow> ''''))"
proof -
  obtain m where m:
    "gsignond_dictionary_new_from_variant (Some (gsignond_identity_info_to_variant info)) = Some m"
    "keys_distinct m"
    "map_of m = (map_of (ii_map info))(key_USERNAME :=
       (if gsignond_identity_info_get_is_username_secret info then None
        else Some (VString (case ii_username info of Some u \<Rightarrow> u | None \<Rightarrow> ''''))))"
    "map_of m key_SECRET = None"
    using to_variant_entries [OF assms(1)] by blast
  have wf: "map_of (ii_map info) key_USERNAME = None" "map_of (ii_map info) key_SECRET = None"
    using assms(1) by (simp_all add: info_wf_def)
  show ?thesis
    unfolding info'_def gsignond_identity_info_new_from_variant_def Let_def m(1) option.case gsso_frame
    using m(2-) wf
    by (simp add: take_secret_map take_username_map gsso_frame take_secret_def take_username_def
        gsignond_dictionary_contains_def gsignond_dictionary_get_string_def dict_get_fun
        dict_del_eq fun_upd_idem delete_conv')
qed

text \<open>
  C4. Whatever edits are made on an identity read from a variant, its table keeps one entry per
  key and never holds the secret; the variant made of it holds the entries of the table, no
  secret, and the username exactly when the username is not marked secret.
\<close>

theorem to_variant_hides_secrets:
  "info_wf (fold apply_edit es (gsignond_identity_info_new_from_variant v)) \<and>
   (\<exists>m. gsignond_dictionary_new_from_variant (Some (gsignond_identity_info_to_variant
           (fold apply_edit es (gsignond_identity_info_new_from_variant v)))) = Some m \<and>
     gsignond_dictionary_get m key_SECRET = None \<and>
     gsignond_dictionary_get m =
       (info_get (fold apply_edit es (gsignond_identity_info_new_from_variant v)))(key_USERNAME :=
         (if gsignond_identity_info_get_is_username_secret
               (fold apply_edit es (gsignond_identity_info_new_from_variant v)) then None
          else Some (VString (case ii_username
               (fold apply_edit es (gsignond_identity_info_new_from_variant v)) of
             Some u \<Rightarrow> u | None \<Rightarrow> '''')))))"
proof -
  let ?info = "fold apply_edit es (gsignond_identity_info_new_from_variant v)"
  have wf: "info_wf ?info"
    by (rule edits_wf) (rule new_from_variant_wf)
  have "info_get ?info = map_of (ii_map ?info)"
    by (rule ext) simp
  with wf to_variant_entries [OF wf] show ?thesis
    unfolding dict_get_fun by metis
qed

text \<open>
  C7. The trip of an identity through its variant: the copy made from it answers every property
  of the table as the original does, carries no secret, and has the username (the empty string
  for none) exactly when it is not marked secret.
\<close>

theorem identity_info_variant_roundtrip:
  assumes "info_wf info"
  shows "let info' = gsignond_identity_info_new_from_variant (Some (gsignond_identity_info_to_variant info))
    in info_get info' = info_get info \<and>
       gsignond_identity_info_get_methods info' = gsignond_identity_info_get_methods info \<and>
       gsignond_identity_info_get_access_control_list info' =
         gsignond_identity_info_get_access_control_list info \<and>
       gsignond_identity_info_get_owner info' = gsignond_identity_info_get_owner info \<and>
       gsignond_identity_info_get_secret info' = None \<and>
       gsignond_identity_info_get_username info' =
         (if gsignond_identity_info_get_is_username_secret info then None
          else Some (case gsignond_identity_info_get_username info of Some u \<Rightarrow> u | None \<Rightarrow> ''''))"
  using info_from_to_variant [OF assms]
  by (simp add: Let_def fun_eq_iff gsignond_identity_info_get_methods_def
      gsignond_identity_info_get_access_control_list_def gsignond_identity_info_get_owner_def
      gsignond_identity_info_get_secret_def gsignond_identity_info_get_username_def)

lemma info_new_eq:
  "gsignond_identity_info_new = \<lparr>ref_count = 1, ii_username = None, ii_secret = None,
     edit_flags = 0, ii_map = [(key_ID, VUint32 0)]\<rparr>"
  by (simp add: gsignond_identity_info_new_def gsignond_identity_info_new_from_variant_def
      gsignond_dictionary_new_from_variant_def gsignond_dictionary_new_def dict_put_eq prop_defs
      GSIGNOND_IDENTITY_INFO_NEW_IDENTITY_def)

theorem identity_info_variant_roundtrip_witness:
  "gsignond_identity_info_get_username (gsignond_identity_info_new_from_variant
      (Some (gsignond_identity_info_to_variant gsignond_identity_info_new))) = Some ''''"
  using identity_info_variant_roundtrip [of gsignond_identity_info_new]
  by (simp add: Let_def info_new_eq info_wf_def
      gsignond_identity_info_get_is_username_secret_def gsignond_identity_info_get_username_def)

lemma seq_items_eq_iff: "length a = length b \<Longrightarrow> seq_items_eq a b \<longleftrightarrow> a = b"
  by (induction a b rule: list_induct2) auto

lemma seq_cmp_iff:
  "identity_info_seq_cmp a b \<longleftrightarrow> (case a of None \<Rightarrow> [] | Some s \<Rightarrow> s) = (case b of None \<Rightarrow> [] | Some s \<Rightarrow> s)"
  by (cases a; cases b) (auto simp: seq_items_eq_iff)

lemma methods_items_eq_iff:
  "methods_items_eq m1 m2 \<longleftrightarrow>
     (\<forall>(k, s) \<in> set m1. s = (case map_of m2 k of None \<Rightarrow> [] | Some s2 \<Rightarrow> s2))"
proof (induction m1)
  case (Cons a m1)
  then show ?case by (cases a) (simp add: seq_cmp_iff split_beta)
qed simp

lemma read_methods_distinct: "keys_distinct ms \<Longrightarrow> keys_distinct (read_methods vs ms)"
  by (induction vs arbitrary: ms) (auto split: option.split)

lemma get_methods_distinct:
  "gsignond_identity_info_get_methods info = Some ms \<Longrightarrow> keys_distinct ms"
  by (auto simp: gsignond_identity_info_get_methods_def read_methods_distinct split: option.splits)

lemma acl_items_match_refl: "(\<And>x. x \<in> set xs \<Longrightarrow> gsignond_security_context_match x x) \<Longrightarrow> acl_items_match xs xs"
  by (induction xs) auto

lemma security_context_match_refl: "gsignond_security_context_match x x"
  by (cases x) (simp_all add: gsignond_security_context_match_def)

lemma methods_cmp_refl: "identity_info_methods_cmp (gsignond_identity_info_get_methods info)
    (gsignond_identity_info_get_methods info)"
  by (auto simp: identity_info_methods_cmp_def methods_items_eq_iff
      dest: get_methods_distinct split: option.split)

text \<open>
  Comparing two identities: an identity compares equal to itself, and two that compare equal
  agree on the id, the username, the secret, the secret storage flag, the caption, the validated
  flag, the type and the realms (no realms counting as an empty list), and the mechanisms of every
  method of the first are those the second has for it.
\<close>

lemma identity_info_compare_sound:
  "gsignond_identity_info_compare info info \<and>
   (gsignond_identity_info_compare info other \<longrightarrow>
     gsignond_identity_info_get_id info = gsignond_identity_info_get_id other \<and>
     gsignond_identity_info_get_username info = gsignond_identity_info_get_username other \<and>
     gsignond_identity_info_get_secret info = gsignond_identity_info_get_secret other \<and>
     gsignond_identity_info_get_store_secret info = gsignond_identity_info_get_store_secret other \<and>
     gsignond_identity_info_get_caption info = gsignond_identity_info_get_caption other \<and>
     gsignond_identity_info_get_validated info = gsignond_identity_info_get_validated other \<and>
     gsignond_identity_info_get_identity_type info = gsignond_identity_info_get_identity_type other \<and>
     (case gsignond_identity_info_get_realms info of None \<Rightarrow> [] | Some s \<Rightarrow> s) =
       (case gsignond_identity_info_get_realms other of None \<Rightarrow> [] | Some s \<Rightarrow> s) \<and>
     (\<forall>m1 m2 k s. gsignond_identity_info_get_methods info = Some m1 \<longrightarrow>
        gsignond_identity_info_get_methods other = Some m2 \<longrightarrow> map_of m1 k = Some s \<longrightarrow> s \<noteq> [] \<longrightarrow>
        map_of m2 k = Some s))"
proof -
  have self: "gsignond_identity_info_compare info info"
    by (simp add: gsignond_identity_info_compare_def seq_cmp_iff methods_cmp_refl
        identity_info_sec_context_list_cmp_def acl_items_match_refl security_context_match_refl)
  have methods: "map_of m2 k = Some s"
    if "identity_info_methods_cmp (Some m1) (Some m2)" "map_of m1 k = Some s" "s \<noteq> []" for m1 m2 k s
    using that by (auto simp: identity_info_methods_cmp_def methods_items_eq_iff
        dest!: map_of_SomeD split: if_splits option.splits)
  show ?thesis
    by (rule conjI [OF self], rule impI)
       (auto simp: gsignond_identity_info_compare_def seq_cmp_iff
         intro: methods split: if_split_asm)
qed

lemma info_ref_get: "info_get (gsignond_identity_info_ref info) = info_get info"
  by (simp add: gsignond_identity_info_ref_def fun_eq_iff)

lemma compare_ref: "gsignond_identity_info_compare gsignond_identity_info_new
    (gsignond_identity_info_ref gsignond_identity_info_new)"
  by (simp add: gsignond_identity_info_compare_def seq_cmp_iff info_new_eq
      gsignond_identity_info_get_id_def gsignond_identity_info_get_username_def
      gsignond_identity_info_get_secret_def gsignond_identity_info_get_store_secret_def
      gsignond_identity_info_get_caption_def gsignond_identity_info_get_realms_def
      gsignond_identity_info_get_methods_def gsignond_identity_info_get_access_control_list_def
      gsignond_identity_info_get_owner_def gsignond_identity_info_get_validated_def
      gsignond_identity_info_get_identity_type_def gsignond_identity_info_ref_def
      identity_info_methods_cmp_def identity_info_sec_context_list_cmp_def
      gsignond_security_context_match_def)

lemma identity_info_compare_sound_witness:
  "gsignond_identity_info_get_id gsignond_identity_info_new =
   gsignond_identity_info_get_id (gsignond_identity_info_ref gsignond_identity_info_new)"
  using identity_info_compare_sound [of gsignond_identity_info_new
      "gsignond_identity_info_ref gsignond_identity_info_new"] compare_ref by blast

end
