(* ===== verification/Gsso_Session_Data.thy ===== *)
theory Gsso_Session_Data
  imports Gsso_Utils
begin

text \<open>
  \<^verbatim>\<open>src/src/common/gsignond-session-data.c\<close>: the parameters of an authentication session, a
  dictionary with an accessor pair per key. A setter returns the dictionary after the call; a
  getter of a number or a flag returns \<open>None\<close> where the code returns FALSE. The interface
  \<open>data_field\<close> is the contract of such a pair; it is interpreted on every pair of this file, and
  of \<open>Gsso_Signonui_Data\<close>.
\<close>

subsection \<open>Accessors\<close>

definition gsignond_session_data_get_username :: "dictionary \<Rightarrow> cstr" where
  "gsignond_session_data_get_username data = gsignond_dictionary_get_string data ''UserName''"

definition gsignond_session_data_set_username :: "dictionary \<Rightarrow> cstr \<Rightarrow> dictionary" where
  "gsignond_session_data_set_username data username = snd (gsignond_dictionary_set_string data ''UserName'' username)"

definition gsignond_session_data_get_secret :: "dictionary \<Rightarrow> cstr" where
  "gsignond_session_data_get_secret data = gsignond_dictionary_get_string data ''Secret''"

definition gsignond_session_data_set_secret :: "dictionary \<Rightarrow> cstr \<Rightarrow> dictionary" where
  "gsignond_session_data_set_secret data secret = snd (gsignond_dictionary_set_string data ''Secret'' secret)"

definition gsignond_session_data_get_realm :: "dictionary \<Rightarrow> cstr" where
  "gsignond_session_data_get_realm data = gsignond_dictionary_get_string data ''Realm''"

definition gsignond_session_data_set_realm :: "dictionary \<Rightarrow> cstr \<Rightarrow> dictionary" where
  "gsignond_session_data_set_realm data realm = snd (gsignond_dictionary_set_string data ''Realm'' realm)"

definition gsignond_session_data_get_caption :: "dictionary \<Rightarrow> cstr" where
  "gsignond_session_data_get_caption data = gsignond_dictionary_get_string data ''Caption''"

definition gsignond_session_data_set_caption :: "dictionary \<Rightarrow> cstr \<Rightarrow> dictionary" where
  "gsignond_session_data_set_caption data caption = snd (gsignond_dictionary_set_string data ''Caption'' caption)"

definition gsignond_session_data_get_renew_token :: "dictionary \<Rightarrow> bool option" where
  "gsignond_session_data_get_renew_token data = gsignond_dictionary_get_boolean data ''RenewToken''"

definition gsignond_session_data_set_renew_token :: "dictionary \<Rightarrow> bool \<Rightarrow> dictionary" where
  "gsignond_session_data_set_renew_token data renew_token = snd (gsignond_dictionary_set_boolean data ''RenewToken'' renew_token)"

definition gsignond_session_data_get_ui_policy :: "dictionary \<Rightarrow> u32 option" where
  "gsignond_session_data_get_ui_policy data = gsignond_dictionary_get_uint32 data ''UiPolicy''"

definition gsignond_session_data_set_ui_policy :: "dictionary \<Rightarrow> u32 \<Rightarrow> dictionary" where
  "gsignond_session_data_set_ui_policy data ui_policy = snd (gsignond_dictionary_set_uint32 data ''UiPolicy'' ui_policy)"

definition gsignond_session_data_get_network_proxy :: "dictionary \<Rightarrow> cstr" where
  "gsignond_session_data_get_network_proxy data = gsignond_dictionary_get_string data ''NetworkProxy''"

definition gsignond_session_data_set_network_proxy :: "dictionary \<Rightarrow> cstr \<Rightarrow> dictionary" where
  "gsignond_session_data_set_network_proxy data network_proxy = snd (gsignond_dictionary_set_string data ''NetworkProxy'' network_proxy)"

definition gsignond_session_data_get_network_timeout :: "dictionary \<Rightarrow> u32 option" where
  "gsignond_session_data_get_network_timeout data = gsignond_dictionary_get_uint32 data ''NetworkTimeout''"

definition gsignond_session_data_set_network_timeout :: "dictionary \<Rightarrow> u32 \<Rightarrow> dictionary" where
  "gsignond_session_data_set_network_timeout data network_timeout = snd (gsignond_dictionary_set_uint32 data ''NetworkTimeout'' network_timeout)"

definition gsignond_session_data_get_window_id :: "dictionary \<Rightarrow> u32 option" where
  "gsignond_session_data_get_window_id data = gsignond_dictionary_get_uint32 data ''WindowId''"

definition gsignond_session_data_set_window_id :: "dictionary \<Rightarrow> u32 \<Rightarrow> dictionary" where
  "gsignond_session_data_set_window_id data window_id = snd (gsignond_dictionary_set_uint32 data ''WindowId'' window_id)"

definition gsignond_session_data_set_allowed_realms :: "dictionary \<Rightarrow> gsequence option \<Rightarrow> dictionary" where
  "gsignond_session_data_set_allowed_realms data realms =
     snd (gsignond_dictionary_set data ''AllowedRealms'' (gsignond_sequence_to_variant realms))"

definition gsignond_session_data_get_allowed_realms :: "dictionary \<Rightarrow> gsequence option" where
  "gsignond_session_data_get_allowed_realms data =
     gsignond_variant_to_sequence (gsignond_dictionary_get data ''AllowedRealms'')"

subsection \<open>The contract of an accessor pair\<close>

text \<open>\<open>enc v\<close> is what reading returns after \<open>v\<close> is written, \<open>None\<close> when the write is refused.\<close>

locale data_field =
  fixes get :: "dictionary \<Rightarrow> 'r option"
    and set :: "dictionary \<Rightarrow> 'v \<Rightarrow> dictionary"
    and key :: string
    and enc :: "'v \<Rightarrow> 'r option"
  assumes get_set: "get (set d v) = (case enc v of None \<Rightarrow> get d | Some r \<Rightarrow> Some r)"
    and set_other: "k \<noteq> key \<Longrightarrow> gsignond_dictionary_get (set d v) k = gsignond_dictionary_get d k"
    and get_local: "gsignond_dictionary_get d key = gsignond_dictionary_get d' key \<Longrightarrow> get d = get d'"
    and set_distinct: "keys_distinct d \<Longrightarrow> keys_distinct (set d v)"
begin

lemma get_set_Some: "enc v = Some r \<Longrightarrow> get (set d v) = Some r"
  by (simp add: get_set)

lemma get_last_write:
  "get (fold (\<lambda>v d. set d v) vs d) =
     (case List.map_filter enc (rev vs) of [] \<Rightarrow> get d | r # _ \<Rightarrow> Some r)"
proof (induction vs arbitrary: d rule: rev_induct)
  case Nil
  then show ?case by (simp add: List.map_filter_def)
next
  case (snoc v vs)
  then show ?case
    by (cases "enc v") (simp_all add: get_set List.map_filter_def)
qed

lemma other_field:
  assumes "data_field get' set' key' enc'" and "key' \<noteq> key"
  shows "get (set' d v') = get d"
  by (rule get_local) (simp add: data_field.set_other [OF assms(1)] assms(2) [symmetric])

end

lemmas data_access_simps =
  gsignond_dictionary_get_string_def gsignond_dictionary_get_boolean_def
  gsignond_dictionary_get_uint32_def gsignond_dictionary_set_string_def
  gsignond_dictionary_set_boolean_def gsignond_dictionary_set_uint32_def
  gsignond_dictionary_get_def gsignond_dictionary_set_def g_variant_new_string_def update_conv'

interpretation session_username: data_field gsignond_session_data_get_username gsignond_session_data_set_username "''UserName''" "\<lambda>v. v"
  by unfold_locales (auto simp: gsignond_session_data_get_username_def gsignond_session_data_set_username_def data_access_simps split: option.splits)

interpretation session_secret: data_field gsignond_session_data_get_secret gsignond_session_data_set_secret "''Secret''" "\<lambda>v. v"
  by unfold_locales (auto simp: gsignond_session_data_get_secret_def gsignond_session_data_set_secret_def data_access_simps split: option.splits)

interpretation session_realm: data_field gsignond_session_data_get_realm gsignond_session_data_set_realm "''Realm''" "\<lambda>v. v"
  by unfold_locales (auto simp: gsignond_session_data_get_realm_def gsignond_session_data_set_realm_def data_access_simps split: option.splits)

interpretation session_caption: data_field gsignond_session_data_get_caption gsignond_session_data_set_caption "''Caption''" "\<lambda>v. v"
  by unfold_locales (auto simp: gsignond_session_data_get_caption_def gsignond_session_data_set_caption_def data_access_simps split: option.splits)

interpretation session_renew_token: data_field gsignond_session_data_get_renew_token gsignond_session_data_set_renew_token "''RenewToken''" "Some"
  by unfold_locales (auto simp: gsignond_session_data_get_renew_token_def gsignond_session_data_set_renew_token_def data_access_simps split: option.splits)

interpretation session_ui_policy: data_field gsignond_session_data_get_ui_policy gsignond_session_data_set_ui_policy "''UiPolicy''" "Some"
  by unfold_locales (auto simp: gsignond_session_data_get_ui_policy_def gsignond_session_data_set_ui_policy_def data_access_simps split: option.splits)

interpretation session_network_proxy: data_field gsignond_session_data_get_network_proxy gsignond_session_data_set_network_proxy "''NetworkProxy''" "\<lambda>v. v"
  by unfold_locales (auto simp: gsignond_session_data_get_network_proxy_def gsignond_session_data_set_network_proxy_def data_access_simps split: option.splits)

interpretation session_network_timeout: data_field gsignond_session_data_get_network_timeout gsignond_session_data_set_network_timeout "''NetworkTimeout''" "Some"
  by unfold_locales (auto simp: gsignond_session_data_get_network_timeout_def gsignond_session_data_set_network_timeout_def data_access_simps split: option.splits)

interpretation session_window_id: data_field gsignond_session_data_get_window_id gsignond_session_data_set_window_id "''WindowId''" "Some"
  by unfold_locales (auto simp: gsignond_session_data_get_window_id_def gsignond_session_data_set_window_id_def data_access_simps split: option.splits)

lemma session_realms_get_set:
  "gsignond_session_data_get_allowed_realms (gsignond_session_data_set_allowed_realms d (Some r)) =
     Some (sort_cmp strcmp r)"
  by (simp add: gsignond_session_data_get_allowed_realms_def variant_to_sequence_sort
      gsignond_session_data_set_allowed_realms_def dict_put_eq dict_get_fun update_conv'
      del: gsignond_variant_to_sequence.simps)

lemma session_realms_set_other: "k \<noteq> ''AllowedRealms'' \<Longrightarrow>
    gsignond_dictionary_get (gsignond_session_data_set_allowed_realms d r) k = gsignond_dictionary_get d k"
  by (cases r) (simp_all add: gsignond_session_data_set_allowed_realms_def dict_put_eq dict_put_None
      dict_get_fun update_conv')

subsection \<open>Independence of the fields\<close>

datatype session_write =
    W_session_username cstr
  | W_session_secret cstr
  | W_session_realm cstr
  | W_session_caption cstr
  | W_session_renew_token bool
  | W_session_ui_policy u32
  | W_session_network_proxy cstr
  | W_session_network_timeout u32
  | W_session_window_id u32
  | W_session_allowed_realms "gsequence option"

fun session_apply :: "session_write \<Rightarrow> dictionary \<Rightarrow> dictionary" where
  "session_apply (W_session_username v) d = gsignond_session_data_set_username d v"
| "session_apply (W_session_secret v) d = gsignond_session_data_set_secret d v"
| "session_apply (W_session_realm v) d = gsignond_session_data_set_realm d v"
| "session_apply (W_session_caption v) d = gsignond_session_data_set_caption d v"
| "session_apply (W_session_renew_token v) d = gsignond_session_data_set_renew_token d v"
| "session_apply (W_session_ui_policy v) d = gsignond_session_data_set_ui_policy d v"
| "session_apply (W_session_network_proxy v) d = gsignond_session_data_set_network_proxy d v"
| "session_apply (W_session_network_timeout v) d = gsignond_session_data_set_network_timeout d v"
| "session_apply (W_session_window_id v) d = gsignond_session_data_set_window_id d v"
| "session_apply (W_session_allowed_realms r) d = gsignond_session_data_set_allowed_realms d r"

fun session_key :: "session_write \<Rightarrow> string" where
  "session_key (W_session_username v) = ''UserName''"
| "session_key (W_session_secret v) = ''Secret''"
| "session_key (W_session_realm v) = ''Realm''"
| "session_key (W_session_caption v) = ''Caption''"
| "session_key (W_session_renew_token v) = ''RenewToken''"
| "session_key (W_session_ui_policy v) = ''UiPolicy''"
| "session_key (W_session_network_proxy v) = ''NetworkProxy''"
| "session_key (W_session_network_timeout v) = ''NetworkTimeout''"
| "session_key (W_session_window_id v) = ''WindowId''"
| "session_key (W_session_allowed_realms r) = ''AllowedRealms''"

lemma session_apply_other:
  "k \<noteq> session_key w \<Longrightarrow> gsignond_dictionary_get (session_apply w d) k = gsignond_dictionary_get d k"
  by (cases w)
     (simp_all add: session_username.set_other
        session_secret.set_other
        session_realm.set_other
        session_caption.set_other
        session_renew_token.set_other
        session_ui_policy.set_other
        session_network_proxy.set_other
        session_network_timeout.set_other
        session_window_id.set_other
        session_realms_set_other)

text \<open>
  The parameters of a session are independent: a setter changes no key but its own, the getter
  of the key returns what was written, a NULL string is refused and leaves the old value, and the
  allowed realms come back sorted.
\<close>

lemma session_data_fields:
  "(\<forall>w k. k \<noteq> session_key w \<longrightarrow>
      gsignond_dictionary_get (session_apply w d) k = gsignond_dictionary_get d k) \<and>
   gsignond_session_data_get_username (gsignond_session_data_set_username d s) =
     (case s of None \<Rightarrow> gsignond_session_data_get_username d | Some x \<Rightarrow> Some x) \<and>
   gsignond_session_data_get_secret (gsignond_session_data_set_secret d s) =
     (case s of None \<Rightarrow> gsignond_session_data_get_secret d | Some x \<Rightarrow> Some x) \<and>
   gsignond_session_data_get_realm (gsignond_session_data_set_realm d s) =
     (case s of None \<Rightarrow> gsignond_session_data_get_realm d | Some x \<Rightarrow> Some x) \<and>
   gsignond_session_data_get_caption (gsignond_session_data_set_caption d s) =
     (case s of None \<Rightarrow> gsignond_session_data_get_caption d | Some x \<Rightarrow> Some x) \<and>
   gsignond_session_data_get_renew_token (gsignond_session_data_set_renew_token d b) = Some b \<and>
   gsignond_session_data_get_ui_policy (gsignond_session_data_set_ui_policy d n) = Some n \<and>
   gsignond_session_data_get_network_proxy (gsignond_session_data_set_network_proxy d s) =
     (case s of None \<Rightarrow> gsignond_session_data_get_network_proxy d | Some x \<Rightarrow> Some x) \<and>
   gsignond_session_data_get_network_timeout (gsignond_session_data_set_network_timeout d n) = Some n \<and>
   gsignond_session_data_get_window_id (gsignond_session_data_set_window_id d n) = Some n \<and>
   gsignond_session_data_get_allowed_realms (gsignond_session_data_set_allowed_realms d (Some r)) =
     Some (sort_cmp strcmp r)"
  by (simp add: session_apply_other session_username.get_set
      session_secret.get_set
      session_realm.get_set
      session_caption.get_set
      session_renew_token.get_set
      session_ui_policy.get_set
      session_network_proxy.get_set
      session_network_timeout.get_set
      session_window_id.get_set session_realms_get_set
      del: gsignond_variant_to_sequence.simps)

lemma session_data_fields_witness:
  "gsignond_dictionary_get (session_apply (W_session_window_id 5) [(''Secret'', VString ''pw'')]) ''Secret'' =
     Some (VString ''pw'')"
  using session_data_fields [of "[(''Secret'', VString ''pw'')]", THEN conjunct1, rule_format,
      of "''Secret''" "W_session_window_id 5"]
  by (simp add: gsignond_dictionary_get_def)

end
