(* ===== verification/Gsso_Signonui_Data.thy ===== *)
theory Gsso_Signonui_Data
  imports Gsso_Session_Data
begin

text \<open>
  \<^verbatim>\<open>src/src/common/gsignond-signonui-data.c\<close>: the dictionary exchanged with the user interface,
  again one accessor pair per key, each an instance of \<open>data_field\<close>.
\<close>

abbreviation "SIGNONUI_KEY_CAPTCHA_RESPONSE \<equiv> ''CaptchaResponse''"
abbreviation "SIGNONUI_KEY_CAPTCHA_URL \<equiv> ''CaptchaUrl''"
abbreviation "SIGNONUI_KEY_CAPTION \<equiv> ''Caption''"
abbreviation "SIGNONUI_KEY_CONFIRM \<equiv> ''Confirm''"
abbreviation "SIGNONUI_KEY_FINAL_URL \<equiv> ''FinalUrl''"
abbreviation "SIGNONUI_KEY_FORGOT_PASSWORD \<equiv> ''ForgotPassword''"
abbreviation "SIGNONUI_KEY_FORGOT_PASSWORD_URL \<equiv> ''ForgotPasswordUrl''"
abbreviation "SIGNONUI_KEY_MESSAGE \<equiv> ''Message''"
abbreviation "SIGNONUI_KEY_OPEN_URL \<equiv> ''OpenUrl''"
abbreviation "SIGNONUI_KEY_PASSWORD \<equiv> ''Secret''"
abbreviation "SIGNONUI_KEY_QUERY_ERROR_CODE \<equiv> ''QueryErrorCode''"
abbreviation "SIGNONUI_KEY_QUERY_PASSWORD \<equiv> ''QueryPassword''"
abbreviation "SIGNONUI_KEY_QUERY_USERNAME \<equiv> ''QueryUserName''"
abbreviation "SIGNONUI_KEY_REMEMBER_PASSWORD \<equiv> ''RememberPassword''"
abbreviation "SIGNONUI_KEY_REQUEST_ID \<equiv> ''RequestId''"
abbreviation "SIGNONUI_KEY_TEST_REPLY_VALUES \<equiv> ''TestReplyValues''"
abbreviation "SIGNONUI_KEY_TITLE \<equiv> ''Title''"
abbreviation "SIGNONUI_KEY_URL_RESPONSE \<equiv> ''UrlResponse''"
abbreviation "SIGNONUI_KEY_USERNAME \<equiv> ''UserName''"

text \<open>The error codes of \<^verbatim>\<open>src/include/gsignond/gsignond-signonui-data.h\<close> that the daemon and its plugins use.\<close>

definition SIGNONUI_ERROR_NONE :: u32 where "SIGNONUI_ERROR_NONE = 0"
definition SIGNONUI_ERROR_GENERAL :: u32 where "SIGNONUI_ERROR_GENERAL = 1"
definition SIGNONUI_ERROR_NO_SIGNONUI :: u32 where "SIGNONUI_ERROR_NO_SIGNONUI = 2"
definition SIGNONUI_ERROR_CANCELED :: u32 where "SIGNONUI_ERROR_CANCELED = 4"
definition SIGNONUI_ERROR_FORGOT_PASSWORD :: u32 where "SIGNONUI_ERROR_FORGOT_PASSWORD = 11"

lemmas signonui_errors = SIGNONUI_ERROR_NONE_def SIGNONUI_ERROR_GENERAL_def SIGNONUI_ERROR_NO_SIGNONUI_def
  SIGNONUI_ERROR_CANCELED_def SIGNONUI_ERROR_FORGOT_PASSWORD_def

definition gsignond_signonui_data_get_captcha_response :: "dictionary \<Rightarrow> cstr" where
  "gsignond_signonui_data_get_captcha_response data = gsignond_dictionary_get_string data SIGNONUI_KEY_CAPTCHA_RESPONSE"

definition gsignond_signonui_data_set_captcha_response :: "dictionary \<Rightarrow> cstr \<Rightarrow> dictionary" where
  "gsignond_signonui_data_set_captcha_response data captcha_response = snd (gsignond_dictionary_set_string data SIGNONUI_KEY_CAPTCHA_RESPONSE captcha_response)"

definition gsignond_signonui_data_get_captcha_url :: "dictionary \<Rightarrow> cstr" where
  "gsignond_signonui_data_get_captcha_url data = gsignond_dictionary_get_string data SIGNONUI_KEY_CAPTCHA_URL"

definition gsignond_signonui_data_set_captcha_url :: "dictionary \<Rightarrow> cstr \<Rightarrow> dictionary" where
  "gsignond_signonui_data_set_captcha_url data captcha_url = snd (gsignond_dictionary_set_string data SIGNONUI_KEY_CAPTCHA_URL captcha_url)"

definition gsignond_signonui_data_get_caption :: "dictionary \<Rightarrow> cstr" where
  "gsignond_signonui_data_get_caption data = gsignond_dictionary_get_string data SIGNONUI_KEY_CAPTION"

definition gsignond_signonui_data_set_caption :: "dictionary \<Rightarrow> cstr \<Rightarrow> dictionary" where
  "gsignond_signonui_data_set_caption data caption = snd (gsignond_dictionary_set_string data SIGNONUI_KEY_CAPTION caption)"

definition gsignond_signonui_data_get_confirm :: "dictionary \<Rightarrow> bool option" where
  "gsignond_signonui_data_get_confirm data = gsignond_dictionary_get_boolean data SIGNONUI_KEY_CONFIRM"

definition gsignond_signonui_data_set_confirm :: "dictionary \<Rightarrow> bool \<Rightarrow> dictionary" where
  "gsignond_signonui_data_set_confirm data confirm = snd (gsignond_dictionary_set_boolean data SIGNONUI_KEY_CONFIRM confirm)"

definition gsignond_signonui_data_get_final_url :: "dictionary \<Rightarrow> cstr" where
  "gsignond_signonui_data_get_final_url data = gsignond_dictionary_get_string data SIGNONUI_KEY_FINAL_URL"

definition gsignond_signonui_data_set_final_url :: "dictionary \<Rightarrow> cstr \<Rightarrow> dictionary" where
  "gsignond_signonui_data_set_final_url data final_url = snd (gsignond_dictionary_set_string data SIGNONUI_KEY_FINAL_URL final_url)"

definition gsignond_signonui_data_get_forgot_password :: "dictionary \<Rightarrow> cstr" where
  "gsignond_signonui_data_get_forgot_password data = gsignond_dictionary_get_string data SIGNONUI_KEY_FORGOT_PASSWORD"

definition gsignond_signonui_data_set_forgot_password :: "dictionary \<Rightarrow> cstr \<Rightarrow> dictionary" where
  "gsignond_signonui_data_set_forgot_password data forgot_password = snd (gsignond_dictionary_set_string data SIGNONUI_KEY_FORGOT_PASSWORD forgot_password)"

definition gsignond_signonui_data_get_forgot_password_url :: "dictionary \<Rightarrow> cstr" where
  "gsignond_signonui_data_get_forgot_password_url data = gsignond_dictionary_get_string data SIGNONUI_KEY_FORGOT_PASSWORD_URL"

definition gsignond_signonui_data_set_forgot_password_url :: "dictionary \<Rightarrow> cstr \<Rightarrow> dictionary" where
  "gsignond_signonui_data_set_forgot_password_url data forgot_password_url = snd (gsignond_dictionary_set_string data SIGNONUI_KEY_FORGOT_PASSWORD_URL forgot_password_url)"

definition gsignond_signonui_data_get_message :: "dictionary \<Rightarrow> cstr" where
  "gsignond_signonui_data_get_message data = gsignond_dictionary_get_string data SIGNONUI_KEY_MESSAGE"

definition gsignond_signonui_data_set_message :: "dictionary \<Rightarrow> cstr \<Rightarrow> dictionary" where
  "gsignond_signonui_data_set_message data message = snd (gsignond_dictionary_set_string data SIGNONUI_KEY_MESSAGE message)"

definition gsignond_signonui_data_get_open_url :: "dictionary \<Rightarrow> cstr" where
  "gsignond_signonui_data_get_open_url data = gsignond_dictionary_get_string data SIGNONUI_KEY_OPEN_URL"

definition gsignond_signonui_data_set_open_url :: "dictionary \<Rightarrow> cstr \<Rightarrow> dictionary" where
  "gsignond_signonui_data_set_open_url data open_url = snd (gsignond_dictionary_set_string data SIGNONUI_KEY_OPEN_URL open_url)"

definition gsignond_signonui_data_get_password :: "dictionary \<Rightarrow> cstr" where
  "gsignond_signonui_data_get_password data = gsignond_dictionary_get_string data SIGNONUI_KEY_PASSWORD"

definition gsignond_signonui_data_set_password :: "dictionary \<Rightarrow> cstr \<Rightarrow> dictionary" where
  "gsignond_signonui_data_set_password data password = snd (gsignond_dictionary_set_string data SIGNONUI_KEY_PASSWORD password)"

definition gsignond_signonui_data_get_query_error :: "dictionary \<Rightarrow> u32 option" where
  "gsignond_signonui_data_get_query_error data = gsignond_dictionary_get_uint32 data SIGNONUI_KEY_QUERY_ERROR_CODE"

definition gsignond_signonui_data_set_query_error :: "dictionary \<Rightarrow> u32 \<Rightarrow> dictionary" where
  "gsignond_signonui_data_set_query_error data query_error = snd (gsignond_dictionary_set_uint32 data SIGNONUI_KEY_QUERY_ERROR_CODE query_error)"

definition gsignond_signonui_data_get_query_password :: "dictionary \<Rightarrow> bool option" where
  "gsignond_signonui_data_get_query_password data = gsignond_dictionary_get_boolean data SIGNONUI_KEY_QUERY_PASSWORD"

definition gsignond_signonui_data_set_query_password :: "dictionary \<Rightarrow> bool \<Rightarrow> dictionary" where
  "gsignond_signonui_data_set_query_password data query_password = snd (gsignond_dictionary_set_boolean data SIGNONUI_KEY_QUERY_PASSWORD query_password)"

definition gsignond_signonui_data_get_query_username :: "dictionary \<Rightarrow> bool option" where
  "gsignond_signonui_data_get_query_username data = gsignond_dictionary_get_boolean data SIGNONUI_KEY_QUERY_USERNAME"

definition gsignond_signonui_data_set_query_username :: "dictionary \<Rightarrow> bool \<Rightarrow> dictionary" where
  "gsignond_signonui_data_set_query_username data query_username = snd (gsignond_dictionary_set_boolean data SIGNONUI_KEY_QUERY_USERNAME query_username)"

definition gsignond_signonui_data_get_remember_password :: "dictionary \<Rightarrow> bool option" where
  "gsignond_signonui_data_get_remember_password data = gsignond_dictionary_get_boolean data SIGNONUI_KEY_REMEMBER_PASSWORD"

definition gsignond_signonui_data_set_remember_password :: "dictionary \<Rightarrow> bool \<Rightarrow> dictionary" where
  "gsignond_signonui_data_set_remember_password data remember_password = snd (gsignond_dictionary_set_boolean data SIGNONUI_KEY_REMEMBER_PASSWORD remember_password)"

definition gsignond_signonui_data_get_request_id :: "dictionary \<Rightarrow> cstr" where
  "gsignond_signonui_data_get_request_id data = gsignond_dictionary_get_string data SIGNONUI_KEY_REQUEST_ID"

definition gsignond_signonui_data_set_request_id :: "dictionary \<Rightarrow> cstr \<Rightarrow> dictionary" where
  "gsignond_signonui_data_set_request_id data request_id = snd (gsignond_dictionary_set_string data SIGNONUI_KEY_REQUEST_ID request_id)"

definition gsignond_signonui_data_get_test_reply :: "dictionary \<Rightarrow> cstr" where
  "gsignond_signonui_data_get_test_reply data = gsignond_dictionary_get_string data SIGNONUI_KEY_TEST_REPLY_VALUES"

definition gsignond_signonui_data_set_test_reply :: "dictionary \<Rightarrow> cstr \<Rightarrow> dictionary" where
  "gsignond_signonui_data_set_test_reply data test_reply = snd (gsignond_dictionary_set_string data SIGNONUI_KEY_TEST_REPLY_VALUES test_reply)"

definition gsignond_signonui_data_get_title :: "dictionary \<Rightarrow> cstr" where
  "gsignond_signonui_data_get_title data = gsignond_dictionary_get_string data SIGNONUI_KEY_TITLE"

definition gsignond_signonui_data_set_title :: "dictionary \<Rightarrow> cstr \<Rightarrow> dictionary" where
  "gsignond_signonui_data_set_title data title = snd (gsignond_dictionary_set_string data SIGNONUI_KEY_TITLE title)"

definition gsignond_signonui_data_get_url_response :: "dictionary \<Rightarrow> cstr" where
  "gsignond_signonui_data_get_url_response data = gsignond_dictionary_get_string data SIGNONUI_KEY_URL_RESPONSE"

definition gsignond_signonui_data_set_url_response :: "dictionary \<Rightarrow> cstr \<Rightarrow> dictionary" where
  "gsignond_signonui_data_set_url_response data url_response = snd (gsignond_dictionary_set_string data SIGNONUI_KEY_URL_RESPONSE url_response)"

definition gsignond_signonui_data_get_username :: "dictionary \<Rightarrow> cstr" where
  "gsignond_signonui_data_get_username data = gsignond_dictionary_get_string data SIGNONUI_KEY_USERNAME"

definition gsignond_signonui_data_set_username :: "dictionary \<Rightarrow> cstr \<Rightarrow> dictionary" where
  "gsignond_signonui_data_set_username data username = snd (gsignond_dictionary_set_string data SIGNONUI_KEY_USERNAME username)"

interpretation signonui_captcha_response: data_field gsignond_signonui_data_get_captcha_response gsignond_signonui_data_set_captcha_response "''CaptchaResponse''" "\<lambda>v. v"
  by unfold_locales (auto simp: gsignond_signonui_data_get_captcha_response_def gsignond_signonui_data_set_captcha_response_def data_access_simps split: option.splits)

interpretation signonui_captcha_url: data_field gsignond_signonui_data_get_captcha_url gsignond_signonui_data_set_captcha_url "''CaptchaUrl''" "\<lambda>v. v"
  by unfold_locales (auto simp: gsignond_signonui_data_get_captcha_url_def gsignond_signonui_data_set_captcha_url_def data_access_simps split: option.splits)

interpretation signonui_caption: data_field gsignond_signonui_data_get_caption gsignond_signonui_data_set_caption "''Caption''" "\<lambda>v. v"
  by unfold_locales (auto simp: gsignond_signonui_data_get_caption_def gsignond_signonui_data_set_caption_def data_access_simps split: option.splits)

interpretation signonui_confirm: data_field gsignond_signonui_data_get_confirm gsignond_signonui_data_set_confirm "''Confirm''" "Some"
  by unfold_locales (auto simp: gsignond_signonui_data_get_confirm_def gsignond_signonui_data_set_confirm_def data_access_simps split: option.splits)

interpretation signonui_final_url: data_field gsignond_signonui_data_get_final_url gsignond_signonui_data_set_final_url "''FinalUrl''" "\<lambda>v. v"
  by unfold_locales (auto simp: gsignond_signonui_data_get_final_url_def gsignond_signonui_data_set_final_url_def data_access_simps split: option.splits)

interpretation signonui_forgot_password: data_field gsignond_signonui_data_get_forgot_password gsignond_signonui_data_set_forgot_password "''ForgotPassword''" "\<lambda>v. v"
  by unfold_locales (auto simp: gsignond_signonui_data_get_forgot_password_def gsignond_signonui_data_set_forgot_password_def data_access_simps split: option.splits)

interpretation signonui_forgot_password_url: data_field gsignond_signonui_data_get_forgot_password_url gsignond_signonui_data_set_forgot_password_url "''ForgotPasswordUrl''" "\<lambda>v. v"
  by unfold_locales (auto simp: gsignond_signonui_data_get_forgot_password_url_def gsignond_signonui_data_set_forgot_password_url_def data_access_simps split: option.splits)

interpretation signonui_message: data_field gsignond_signonui_data_get_message gsignond_signonui_data_set_message "''Message''" "\<lambda>v. v"
  by unfold_locales (auto simp: gsignond_signonui_data_get_message_def gsignond_signonui_data_set_message_def data_access_simps split: option.splits)

interpretation signonui_open_url: data_field gsignond_signonui_data_get_open_url gsignond_signonui_data_set_open_url "''OpenUrl''" "\<lambda>v. v"
  by unfold_locales (auto simp: gsignond_signonui_data_get_open_url_def gsignond_signonui_data_set_open_url_def data_access_simps split: option.splits)

interpretation signonui_password: data_field gsignond_signonui_data_get_password gsignond_signonui_data_set_password "''Secret''" "\<lambda>v. v"
  by unfold_locales (auto simp: gsignond_signonui_data_get_password_def gsignond_signonui_data_set_password_def data_access_simps split: option.splits)

interpretation signonui_query_error: data_field gsignond_signonui_data_get_query_error gsignond_signonui_data_set_query_error "''QueryErrorCode''" "Some"
  by unfold_locales (auto simp: gsignond_signonui_data_get_query_error_def gsignond_signonui_data_set_query_error_def data_access_simps split: option.splits)

interpretation signonui_query_password: data_field gsignond_signonui_data_get_query_password gsignond_signonui_data_set_query_password "''QueryPassword''" "Some"
  by unfold_locales (auto simp: gsignond_signonui_data_get_query_password_def gsignond_signonui_data_set_query_password_def data_access_simps split: option.splits)

interpretation signonui_query_username: data_field gsignond_signonui_data_get_query_username gsignond_signonui_data_set_query_username "''QueryUserName''" "Some"
  by unfold_locales (auto simp: gsignond_signonui_data_get_query_username_def gsignond_signonui_data_set_query_username_def data_access_simps split: option.splits)

interpretation signonui_remember_password: data_field gsignond_signonui_data_get_remember_password gsignond_signonui_data_set_remember_password "''RememberPassword''" "Some"
  by unfold_locales (auto simp: gsignond_signonui_data_get_remember_password_def gsignond_signonui_data_set_remember_password_def data_access_simps split: option.splits)

interpretation signonui_request_id: data_field gsignond_signonui_data_get_request_id gsignond_signonui_data_set_request_id "''RequestId''" "\<lambda>v. v"
  by unfold_locales (auto simp: gsignond_signonui_data_get_request_id_def gsignond_signonui_data_set_request_id_def data_access_simps split: option.splits)

interpretation signonui_test_reply: data_field gsignond_signonui_data_get_test_reply gsignond_signonui_data_set_test_reply "''TestReplyValues''" "\<lambda>v. v"
  by unfold_locales (auto simp: gsignond_signonui_data_get_test_reply_def gsignond_signonui_data_set_test_reply_def data_access_simps split: option.splits)

interpretation signonui_title: data_field gsignond_signonui_data_get_title gsignond_signonui_data_set_title "''Title''" "\<lambda>v. v"
  by unfold_locales (auto simp: gsignond_signonui_data_get_title_def gsignond_signonui_data_set_title_def data_access_simps split: option.splits)

interpretation signonui_url_response: data_field gsignond_signonui_data_get_url_response gsignond_signonui_data_set_url_response "''UrlResponse''" "\<lambda>v. v"
  by unfold_locales (auto simp: gsignond_signonui_data_get_url_response_def gsignond_signonui_data_set_url_response_def data_access_simps split: option.splits)

interpretation signonui_username: data_field gsignond_signonui_data_get_username gsignond_signonui_data_set_username "''UserName''" "\<lambda>v. v"
  by unfold_locales (auto simp: gsignond_signonui_data_get_username_def gsignond_signonui_data_set_username_def data_access_simps split: option.splits)

datatype signonui_write =
    W_signonui_captcha_response cstr
  | W_signonui_captcha_url cstr
  | W_signonui_caption cstr
  | W_signonui_confirm bool
  | W_signonui_final_url cstr
  | W_signonui_forgot_password cstr
  | W_signonui_forgot_password_url cstr
  | W_signonui_message cstr
  | W_signonui_open_url cstr
  | W_signonui_password cstr
  | W_signonui_query_error u32
  | W_signonui_query_password bool
  | W_signonui_query_username bool
  | W_signonui_remember_password bool
  | W_signonui_request_id cstr
  | W_signonui_test_reply cstr
  | W_signonui_title cstr
  | W_signonui_url_response cstr
  | W_signonui_username cstr

fun signonui_apply :: "signonui_write \<Rightarrow> dictionary \<Rightarrow> dictionary" where
  "signonui_apply (W_signonui_captcha_response v) d = gsignond_signonui_data_set_captcha_response d v"
| "signonui_apply (W_signonui_captcha_url v) d = gsignond_signonui_data_set_captcha_url d v"
| "signonui_apply (W_signonui_caption v) d = gsignond_signonui_data_set_caption d v"
| "signonui_apply (W_signonui_confirm v) d = gsignond_signonui_data_set_confirm d v"
| "signonui_apply (W_signonui_final_url v) d = gsignond_signonui_data_set_final_url d v"
| "signonui_apply (W_signonui_forgot_password v) d = gsignond_signonui_data_set_forgot_password d v"
| "signonui_apply (W_signonui_forgot_password_url v) d = gsignond_signonui_data_set_forgot_password_url d v"
| "signonui_apply (W_signonui_message v) d = gsignond_signonui_data_set_message d v"
| "signonui_apply (W_signonui_open_url v) d = gsignond_signonui_data_set_open_url d v"
| "signonui_apply (W_signonui_password v) d = gsignond_signonui_data_set_password d v"
| "signonui_apply (W_signonui_query_error v) d = gsignond_signonui_data_set_query_error d v"
| "signonui_apply (W_signonui_query_password v) d = gsignond_signonui_data_set_query_password d v"
| "signonui_apply (W_signonui_query_username v) d = gsignond_signonui_data_set_query_username d v"
| "signonui_apply (W_signonui_remember_password v) d = gsignond_signonui_data_set_remember_password d v"
| "signonui_apply (W_signonui_request_id v) d = gsignond_signonui_data_set_request_id d v"
| "signonui_apply (W_signonui_test_reply v) d = gsignond_signonui_data_set_test_reply d v"
| "signonui_apply (W_signonui_title v) d = gsignond_signonui_data_set_title d v"
| "signonui_apply (W_signonui_url_response v) d = gsignond_signonui_data_set_url_response d v"
| "signonui_apply (W_signonui_username v) d = gsignond_signonui_data_set_username d v"

fun signonui_key :: "signonui_write \<Rightarrow> string" where
  "signonui_key (W_signonui_captcha_response v) = ''CaptchaResponse''"
| "signonui_key (W_signonui_captcha_url v) = ''CaptchaUrl''"
| "signonui_key (W_signonui_caption v) = ''Caption''"
| "signonui_key (W_signonui_confirm v) = ''Confirm''"
| "signonui_key (W_signonui_final_url v) = ''FinalUrl''"
| "signonui_key (W_signonui_forgot_password v) = ''ForgotPassword''"
| "signonui_key (W_signonui_forgot_password_url v) = ''ForgotPasswordUrl''"
| "signonui_key (W_signonui_message v) = ''Message''"
| "signonui_key (W_signonui_open_url v) = ''OpenUrl''"
| "signonui_key (W_signonui_password v) = ''Secret''"
| "signonui_key (W_signonui_query_error v) = ''QueryErrorCode''"
| "signonui_key (W_signonui_query_password v) = ''QueryPassword''"
| "signonui_key (W_signonui_query_username v) = ''QueryUserName''"
| "signonui_key (W_signonui_remember_password v) = ''RememberPassword''"
| "signonui_key (W_signonui_request_id v) = ''RequestId''"
| "signonui_key (W_signonui_test_reply v) = ''TestReplyValues''"
| "signonui_key (W_signonui_title v) = ''Title''"
| "signonui_key (W_signonui_url_response v) = ''UrlResponse''"
| "signonui_key (W_signonui_username v) = ''UserName''"

lemma signonui_apply_other:
  "k \<noteq> signonui_key w \<Longrightarrow> gsignond_dictionary_get (signonui_apply w d) k = gsignond_dictionary_get d k"
  by (cases w)
     (simp_all add: signonui_captcha_response.set_other
        signonui_captcha_url.set_other
        signonui_caption.set_other
        signonui_confirm.set_other
        signonui_final_url.set_other
        signonui_forgot_password.set_other
        signonui_forgot_password_url.set_other
        signonui_message.set_other
        signonui_open_url.set_other
        signonui_password.set_other
        signonui_query_error.set_other
        signonui_query_password.set_other
        signonui_query_username.set_other
        signonui_remember_password.set_other
        signonui_request_id.set_other
        signonui_test_reply.set_other
        signonui_title.set_other
        signonui_url_response.set_other
        signonui_username.set_other)

text \<open>
  The fields of a user interface message are independent: a setter changes no key but its own
  and its getter returns what was written, a NULL string being refused.
\<close>

lemma signonui_data_fields:
  "(\<forall>w k. k \<noteq> signonui_key w \<longrightarrow>
      gsignond_dictionary_get (signonui_apply w d) k = gsignond_dictionary_get d k) \<and>
   gsignond_signonui_data_get_captcha_response (gsignond_signonui_data_set_captcha_response d s) =
     (case s of None \<Rightarrow> gsignond_signonui_data_get_captcha_response d | Some x \<Rightarrow> Some x) \<and>
   gsignond_signonui_data_get_captcha_url (gsignond_signonui_data_set_captcha_url d s) =
     (case s of None \<Rightarrow> gsignond_signonui_data_get_captcha_url d | Some x \<Rightarrow> Some x) \<and>
   gsignond_signonui_data_get_caption (gsignond_signonui_data_set_caption d s) =
     (case s of None \<Rightarrow> gsignond_signonui_data_get_caption d | Some x \<Rightarrow> Some x) \<and>
   gsignond_signonui_data_get_confirm (gsignond_signonui_data_set_confirm d b) = Some b \<and>
   gsignond_signonui_data_get_final_url (gsignond_signonui_data_set_final_url d s) =
     (case s of None \<Rightarrow> gsignond_signonui_data_get_final_url d | Some x \<Rightarrow> Some x) \<and>
   gsignond_signonui_data_get_forgot_password (gsignond_signonui_data_set_forgot_password d s) =
     (case s of None \<Rightarrow> gsignond_signonui_data_get_forgot_password d | Some x \<Rightarrow> Some x) \<and>
   gsignond_signonui_data_get_forgot_password_url (gsignond_signonui_data_set_forgot_password_url d s) =
     (case s of None \<Rightarrow> gsignond_signonui_data_get_forgot_password_url d | Some x \<Rightarrow> Some x) \<and>
   gsignond_signonui_data_get_message (gsignond_signonui_data_set_message d s) =
     (case s of None \<Rightarrow> gsignond_signonui_data_get_message d | Some x \<Rightarrow> Some x) \<and>
   gsignond_signonui_data_get_open_url (gsignond_signonui_data_set_open_url d s) =
     (case s of None \<Rightarrow> gsignond_signonui_data_get_open_url d | Some x \<Rightarrow> Some x) \<and>
   gsignond_signonui_data_get_password (gsignond_signonui_data_set_password d s) =
     (case s of None \<Rightarrow> gsignond_signonui_data_get_password d | Some x \<Rightarrow> Some x) \<and>
   gsignond_signonui_data_get_query_error (gsignond_signonui_data_set_query_error d n) = Some n \<and>
   gsignond_signonui_data_get_query_password (gsignond_signonui_data_set_query_password d b) = Some b \<and>
   gsignond_signonui_data_get_query_username (gsignond_signonui_data_set_query_username d b) = Some b \<and>
   gsignond_signonui_data_get_remember_password (gsignond_signonui_data_set_remember_password d b) = Some b \<and>
   gsignond_signonui_data_get_request_id (gsignond_signonui_data_set_request_id d s) =
     (case s of None \<Rightarrow> gsignond_signonui_data_get_request_id d | Some x \<Rightarrow> Some x) \<and>
   gsignond_signonui_data_get_test_reply (gsignond_signonui_data_set_test_reply d s) =
     (case s of None \<Rightarrow> gsignond_signonui_data_get_test_reply d | Some x \<Rightarrow> Some x) \<and>
   gsignond_signonui_data_get_title (gsignond_signonui_data_set_title d s) =
     (case s of None \<Rightarrow> gsignond_signonui_data_get_title d | Some x \<Rightarrow> Some x) \<and>
   gsignond_signonui_data_get_url_response (gsignond_signonui_data_set_url_response d s) =
     (case s of None \<Rightarrow> gsignond_signonui_data_get_url_response d | Some x \<Rightarrow> Some x) \<and>
   gsignond_signonui_data_get_username (gsignond_signonui_data_set_username d s) =
     (case s of None \<Rightarrow> gsignond_signonui_data_get_username d | Some x \<Rightarrow> Some x)"
  by (simp add: signonui_apply_other signonui_captcha_response.get_set
      signonui_captcha_url.get_set
      signonui_caption.get_set
      signonui_confirm.get_set
      signonui_final_url.get_set
      signonui_forgot_password.get_set
      signonui_forgot_password_url.get_set
      signonui_message.get_set
      signonui_open_url.get_set
      signonui_password.get_set
      signonui_query_error.get_set
      signonui_query_password.get_set
      signonui_query_username.get_set
      signonui_remember_password.get_set
      signonui_request_id.get_set
      signonui_test_reply.get_set
      signonui_title.get_set
      signonui_url_response.get_set
      signonui_username.get_set)

lemma signonui_data_fields_witness:
  "gsignond_dictionary_get (signonui_apply (W_signonui_confirm True) [(''Secret'', VString ''pw'')]) ''Secret'' =
     Some (VString ''pw'')"
  using signonui_data_fields [of "[(''Secret'', VString ''pw'')]", THEN conjunct1, rule_format,
      of "''Secret''" "W_signonui_confirm True"]
  by (simp add: gsignond_dictionary_get_def)

end
