(* ===== verification/Gsso_Error.thy ===== *)
theory Gsso_Error
  imports Gsso_Dictionary
begin

text \<open>
  \<^verbatim>\<open>include/gsignond/gsignond-error.h\<close> and \<^verbatim>\<open>src/src/common/gsignond-error.c\<close>: the error codes, the
  names they have on the bus, and errors as variants. A \<^verbatim>\<open>GQuark\<close> stands for a string and
  is a number only inside one process: the domain of an error is the string, and the conversions to
  and from variants take the numbering of the process that runs them as a parameter.
\<close>

datatype gsignond_error =
    GSIGNOND_ERROR_NONE
  | GSIGNOND_ERROR_UNKNOWN
  | GSIGNOND_ERROR_INTERNAL_SERVER
  | GSIGNOND_ERROR_INTERNAL_COMMUNICATION
  | GSIGNOND_ERROR_PERMISSION_DENIED
  | GSIGNOND_ERROR_ENCRYPTION_FAILURE
  | GSIGNOND_ERROR_AUTH_SERVICE_ERR
  | GSIGNOND_ERROR_METHOD_NOT_KNOWN
  | GSIGNOND_ERROR_SERVICE_NOT_AVAILABLE
  | GSIGNOND_ERROR_INVALID_QUERY
  | GSIGNOND_ERROR_IDENTITY_ERR
  | GSIGNOND_ERROR_METHOD_NOT_AVAILABLE
  | GSIGNOND_ERROR_IDENTITY_NOT_FOUND
  | GSIGNOND_ERROR_STORE_FAILED
  | GSIGNOND_ERROR_REMOVE_FAILED
  | GSIGNOND_ERROR_SIGN_OUT_FAILED
  | GSIGNOND_ERROR_IDENTITY_OPERATION_CANCELED
  | GSIGNOND_ERROR_CREDENTIALS_NOT_AVAILABLE
  | GSIGNOND_ERROR_REFERENCE_NOT_FOUND
  | GSIGNOND_ERROR_AUTH_SESSION_ERR
  | GSIGNOND_ERROR_MECHANISM_NOT_AVAILABLE
  | GSIGNOND_ERROR_MISSING_DATA
  | GSIGNOND_ERROR_INVALID_CREDENTIALS
  | GSIGNOND_ERROR_NOT_AUTHORIZED
  | GSIGNOND_ERROR_WRONG_STATE
  | GSIGNOND_ERROR_OPERATION_NOT_SUPPORTED
  | GSIGNOND_ERROR_NO_CONNECTION
  | GSIGNOND_ERROR_NETWORK
  | GSIGNOND_ERROR_SSL
  | GSIGNOND_ERROR_RUNTIME
  | GSIGNOND_ERROR_SESSION_CANCELED
  | GSIGNOND_ERROR_TIMED_OUT
  | GSIGNOND_ERROR_USER_INTERACTION
  | GSIGNOND_ERROR_OPERATION_FAILED
  | GSIGNOND_ERROR_ENCRYPTION_FAILED
  | GSIGNOND_ERROR_TOS_NOT_ACCEPTED
  | GSIGNOND_ERROR_FORGOT_PASSWORD
  | GSIGNOND_ERROR_METHOD_OR_MECHANISM_NOT_ALLOWED
  | GSIGNOND_ERROR_INCORRECT_DATE
  | GSIGNOND_ERROR_USER_ERR

fun error_code :: "gsignond_error \<Rightarrow> i32" where
  "error_code GSIGNOND_ERROR_NONE = 0"
| "error_code GSIGNOND_ERROR_UNKNOWN = 1"
| "error_code GSIGNOND_ERROR_INTERNAL_SERVER = 2"
| "error_code GSIGNOND_ERROR_INTERNAL_COMMUNICATION = 3"
| "error_code GSIGNOND_ERROR_PERMISSION_DENIED = 4"
| "error_code GSIGNOND_ERROR_ENCRYPTION_FAILURE = 5"
| "error_code GSIGNOND_ERROR_AUTH_SERVICE_ERR = 100"
| "error_code GSIGNOND_ERROR_METHOD_NOT_KNOWN = 101"
| "error_code GSIGNOND_ERROR_SERVICE_NOT_AVAILABLE = 102"
| "error_code GSIGNOND_ERROR_INVALID_QUERY = 103"
| "error_code GSIGNOND_ERROR_IDENTITY_ERR = 200"
| "error_code GSIGNOND_ERROR_METHOD_NOT_AVAILABLE = 201"
| "error_code GSIGNOND_ERROR_IDENTITY_NOT_FOUND = 202"
| "error_code GSIGNOND_ERROR_STORE_FAILED = 203"
| "error_code GSIGNOND_ERROR_REMOVE_FAILED = 204"
| "error_code GSIGNOND_ERROR_SIGN_OUT_FAILED = 205"
| "error_code GSIGNOND_ERROR_IDENTITY_OPERATION_CANCELED = 206"
| "error_code GSIGNOND_ERROR_CREDENTIALS_NOT_AVAILABLE = 207"
| "error_code GSIGNOND_ERROR_REFERENCE_NOT_FOUND = 208"
| "error_code GSIGNOND_ERROR_AUTH_SESSION_ERR = 300"
| "error_code GSIGNOND_ERROR_MECHANISM_NOT_AVAILABLE = 301"
| "error_code GSIGNOND_ERROR_MISSING_DATA = 302"
| "error_code GSIGNOND_ERROR_INVALID_CREDENTIALS = 303"
| "error_code GSIGNOND_ERROR_NOT_AUTHORIZED = 304"
| "error_code GSIGNOND_ERROR_WRONG_STATE = 305"
| "error_code GSIGNOND_ERROR_OPERATION_NOT_SUPPORTED = 306"
| "error_code GSIGNOND_ERROR_NO_CONNECTION = 307"
| "error_code GSIGNOND_ERROR_NETWORK = 308"
| "error_code GSIGNOND_ERROR_SSL = 309"
| "error_code GSIGNOND_ERROR_RUNTIME = 310"
| "error_code GSIGNOND_ERROR_SESSION_CANCELED = 311"
| "error_code GSIGNOND_ERROR_TIMED_OUT = 312"
| "error_code GSIGNOND_ERROR_USER_INTERACTION = 313"
| "error_code GSIGNOND_ERROR_OPERATION_FAILED = 314"
| "error_code GSIGNOND_ERROR_ENCRYPTION_FAILED = 315"
| "error_code GSIGNOND_ERROR_TOS_NOT_ACCEPTED = 316"
| "error_code GSIGNOND_ERROR_FORGOT_PASSWORD = 317"
| "error_code GSIGNOND_ERROR_METHOD_OR_MECHANISM_NOT_ALLOWED = 318"
| "error_code GSIGNOND_ERROR_INCORRECT_DATE = 319"
| "error_code GSIGNOND_ERROR_USER_ERR = 400"

definition gsignond_errors :: "(gsignond_error \<times> string) list" where
  "gsignond_errors =
     [(GSIGNOND_ERROR_UNKNOWN,
        ''com.google.code.AccountsSSO.gSingleSignOn.Error.Unknown''),
      (GSIGNOND_ERROR_INTERNAL_SERVER,
        ''com.google.code.AccountsSSO.gSingleSignOn.Error.InternalServerError''),
      (GSIGNOND_ERROR_INTERNAL_COMMUNICATION,
        ''com.google.code.AccountsSSO.gSingleSignOn.Error.InternalCommunicationError''),
      (GSIGNOND_ERROR_PERMISSION_DENIED,
        ''com.google.code.AccountsSSO.gSingleSignOn.Error.PermissionDenied''),
      (GSIGNOND_ERROR_ENCRYPTION_FAILURE,
        ''com.google.code.AccountsSSO.gSingleSignOn.Error.EncryptionFailure''),
      (GSIGNOND_ERROR_METHOD_NOT_KNOWN,
        ''com.google.code.AccountsSSO.gSingleSignOn.Error.MethodNotKnown''),
      (GSIGNOND_ERROR_SERVICE_NOT_AVAILABLE,
        ''com.google.code.AccountsSSO.gSingleSignOn.Error.ServiceNotAvailable''),
      (GSIGNOND_ERROR_INVALID_QUERY,
        ''com.google.code.AccountsSSO.gSingleSignOn.Error.InvalidQuery''),
      (GSIGNOND_ERROR_METHOD_NOT_AVAILABLE,
        ''com.google.code.AccountsSSO.gSingleSignOn.Error.MethodNotAvailable''),
      (GSIGNOND_ERROR_IDENTITY_NOT_FOUND,
        ''com.google.code.AccountsSSO.gSingleSignOn.Error.IdentityNotFound''),
      (GSIGNOND_ERROR_STORE_FAILED,
        ''com.google.code.AccountsSSO.gSingleSignOn.Error.IdentityStoreFailed''),
      (GSIGNOND_ERROR_REMOVE_FAILED,
        ''com.google.code.AccountsSSO.gSingleSignOn.Error.IdentityRemoveFailed''),
      (GSIGNOND_ERROR_SIGN_OUT_FAILED,
        ''com.google.code.AccountsSSO.gSingleSignOn.Error.SignOutFailed''),
      (GSIGNOND_ERROR_IDENTITY_OPERATION_CANCELED,
        ''com.google.code.AccountsSSO.gSingleSignOn.Error.OperationCancled''),
      (GSIGNOND_ERROR_CREDENTIALS_NOT_AVAILABLE,
        ''com.google.code.AccountsSSO.gSingleSignOn.Error.CredentialsNotAvailable''),
      (GSIGNOND_ERROR_REFERENCE_NOT_FOUND,
        ''com.google.code.AccountsSSO.gSingleSignOn.Error.ReferenceNotFound''),
      (GSIGNOND_ERROR_MECHANISM_NOT_AVAILABLE,
        ''com.google.code.AccountsSSO.gSingleSignOn.Error.MechanismNotAvailable''),
      (GSIGNOND_ERROR_MISSING_DATA,
        ''com.google.code.AccountsSSO.gSingleSignOn.Error.MissingData''),
      (GSIGNOND_ERROR_INVALID_CREDENTIALS,
        ''com.google.code.AccountsSSO.gSingleSignOn.Error.InvalidCredentials''),
      (GSIGNOND_ERROR_NOT_AUTHORIZED,
        ''com.google.code.AccountsSSO.gSingleSignOn.Error.NotAuthorized''),
      (GSIGNOND_ERROR_WRONG_STATE,
        ''com.google.code.AccountsSSO.gSingleSignOn.Error.WrongState''),
      (GSIGNOND_ERROR_OPERATION_NOT_SUPPORTED,
        ''com.google.code.AccountsSSO.gSingleSignOn.Error.OperationNotSupported''),
      (GSIGNOND_ERROR_NO_CONNECTION,
        ''com.google.code.AccountsSSO.gSingleSignOn.Error.NoConnection''),
      (GSIGNOND_ERROR_NETWORK,
        ''com.google.code.AccountsSSO.gSingleSignOn.Error.NoNetwork''),
      (GSIGNOND_ERROR_SSL,
        ''com.google.code.AccountsSSO.gSingleSignOn.Error.SSLError''),
      (GSIGNOND_ERROR_RUNTIME,
        ''com.google.code.AccountsSSO.gSingleSignOn.Error.RuntimeError''),
      (GSIGNOND_ERROR_SESSION_CANCELED,
        ''com.google.code.AccountsSSO.gSingleSignOn.Error.Cancled''),
      (GSIGNOND_ERROR_TIMED_OUT,
        ''com.google.code.AccountsSSO.gSingleSignOn.Error.TimedOut''),
      (GSIGNOND_ERROR_USER_INTERACTION,
        ''com.google.code.AccountsSSO.gSingleSignOn.Error.UserInteractionFailed''),
      (GSIGNOND_ERROR_OPERATION_FAILED,
        ''com.google.code.AccountsSSO.gSingleSignOn.Error.OperationFailed''),
      (GSIGNOND_ERROR_ENCRYPTION_FAILED,
        ''com.google.code.AccountsSSO.gSingleSignOn.Error.EncryptionFailed''),
      (GSIGNOND_ERROR_TOS_NOT_ACCEPTED,
        ''com.google.code.AccountsSSO.gSingleSignOn.Error.TOSNotAccepted''),
      (GSIGNOND_ERROR_FORGOT_PASSWORD,
        ''com.google.code.AccountsSSO.gSingleSignOn.Error.ForgotPassword''),
      (GSIGNOND_ERROR_METHOD_OR_MECHANISM_NOT_ALLOWED,
        ''com.google.code.AccountsSSO.gSingleSignOn.Error.MethodOrMechanismNotAllowed''),
      (GSIGNOND_ERROR_INCORRECT_DATE,
        ''com.google.code.AccountsSSO.gSingleSignOn.Error.IncorrectDate'')]"

definition GSIGNOND_ERROR_DOMAIN :: string where
  "GSIGNOND_ERROR_DOMAIN = ''gsignond''"

record gerror =
  err_domain :: string
  err_code :: i32
  err_message :: string

definition gsignond_get_gerror_for_id :: "gsignond_error \<Rightarrow> string \<Rightarrow> gerror" where
  "gsignond_get_gerror_for_id err message =
     \<lparr>err_domain = GSIGNOND_ERROR_DOMAIN, err_code = error_code err, err_message = message\<rparr>"

text \<open>What \<^verbatim>\<open>%d\<close> and \<^verbatim>\<open>%s\<close> print in a message.\<close>

fun decimal :: "nat \<Rightarrow> string" where
  "decimal n = (if n < 10 then [char_of (48 + n)] else decimal (n div 10) @ [char_of (48 + n mod 10)])"

declare decimal.simps [simp del]

definition print_int :: "i32 \<Rightarrow> string" where
  "print_int w = (if sint w < 0 then ''-'' @ decimal (nat (- sint w)) else decimal (nat (sint w)))"

definition print_string :: "cstr \<Rightarrow> string" where
  "print_string s = (case s of Some x \<Rightarrow> x | None \<Rightarrow> ''(null)'')"

text \<open>
  \<open>None\<close> is NULL. \<^verbatim>\<open>g_variant_get\<close> with the format \<^verbatim>\<open>(uis)\<close> needs a variant of that type: with
  another it leaves the variables of the function unset, so the result is \<open>Inl ()\<close>, undefined.
\<close>

fun gsignond_error_new_from_variant :: "(u32 \<Rightarrow> string) \<Rightarrow> gvariant option \<Rightarrow> unit + gerror option" where
  "gsignond_error_new_from_variant quark_to_string None = Inr None"
| "gsignond_error_new_from_variant quark_to_string (Some (VTuple [VUint32 domain, VInt32 code, VString message])) =
     Inr (Some \<lparr>err_domain = quark_to_string domain, err_code = code, err_message = message\<rparr>)"
| "gsignond_error_new_from_variant quark_to_string (Some _) = Inl ()"

fun gsignond_error_to_variant :: "(string \<Rightarrow> u32) \<Rightarrow> gerror option \<Rightarrow> gvariant option" where
  "gsignond_error_to_variant quark_from_string None = None"
| "gsignond_error_to_variant quark_from_string (Some error) =
     Some (VTuple [VUint32 (quark_from_string (err_domain error)), VInt32 (err_code error),
                   VString (err_message error)])"

text \<open>
  Errors cross a variant unchanged when both ends number the error domains alike, and the table
  of bus names is one to one: every entry has a code and a name of its own, so a code read back
  from a registered name is the code that was sent.
\<close>

lemma error_roundtrip:
  assumes "quark_to_string (quark_from_string (err_domain error)) = err_domain error"
  shows "gsignond_error_new_from_variant quark_to_string
           (gsignond_error_to_variant quark_from_string (Some error)) = Inr (Some error) \<and>
     distinct (map (error_code \<circ> fst) gsignond_errors) \<and> distinct (map snd gsignond_errors)"
  using assms by (simp add: gsignond_errors_def)

lemma error_roundtrip_witness:
  "gsignond_error_new_from_variant (\<lambda>_. ''gsignond'')
      (gsignond_error_to_variant (\<lambda>_. 1)
        (Some (gsignond_get_gerror_for_id GSIGNOND_ERROR_STORE_FAILED ''full''))) =
    Inr (Some (gsignond_get_gerror_for_id GSIGNOND_ERROR_STORE_FAILED ''full''))"
  using error_roundtrip [of "\<lambda>_. ''gsignond''" "\<lambda>_. 1"
      "gsignond_get_gerror_for_id GSIGNOND_ERROR_STORE_FAILED ''full''"]
  by (simp add: gsignond_get_gerror_for_id_def GSIGNOND_ERROR_DOMAIN_def)

text \<open>
  When the two processes number the domains differently, the domain changes on the way: the plugin
  process sends the number of its own table.
\<close>

lemma error_domain_lost:
  "gsignond_error_new_from_variant (\<lambda>n. if n = 7 then ''g-io-error-quark'' else ''gsignond'')
      (gsignond_error_to_variant (\<lambda>_. 7)
        (Some (gsignond_get_gerror_for_id GSIGNOND_ERROR_NOT_AUTHORIZED ''no''))) =
    Inr (Some \<lparr>err_domain = ''g-io-error-quark'', err_code = 304, err_message = ''no''\<rparr>)"
  by (simp add: gsignond_get_gerror_for_id_def)

end
