(* ===== verification/Gsso_Credentials.thy ===== *)
theory Gsso_Credentials
  imports Gsso_Prelude
begin

text \<open>
  \<^verbatim>\<open>src/src/common/gsignond-credentials.c\<close>: the id, username and password of an identity as the
  secret storage keeps them. A field that is NULL is \<open>None\<close>. \<^verbatim>\<open>g_string_equal\<close> reads both of its
  arguments, so it is \<open>None\<close> (an invalid read) when one is NULL, and so is the comparison that
  reaches it.
\<close>

record credentials =
  cred_id :: u32
  cred_username :: cstr
  cred_password :: cstr

definition gsignond_credentials_new :: credentials where
  "gsignond_credentials_new = \<lparr>cred_id = 0, cred_username = None, cred_password = None\<rparr>"

definition gsignond_credentials_set_id :: "credentials \<Rightarrow> u32 \<Rightarrow> bool \<times> credentials" where
  "gsignond_credentials_set_id self new_id = (True, self\<lparr>cred_id := new_id\<rparr>)"

definition gsignond_credentials_get_id :: "credentials \<Rightarrow> u32" where
  "gsignond_credentials_get_id self = cred_id self"

definition gsignond_credentials_set_username :: "credentials \<Rightarrow> cstr \<Rightarrow> bool \<times> credentials" where
  "gsignond_credentials_set_username self username =
     (let self = (if cred_username self \<noteq> None then self\<lparr>cred_username := None\<rparr> else self);
          self = (if username \<noteq> None then self\<lparr>cred_username := username\<rparr> else self)
      in (True, self))"

definition gsignond_credentials_get_username :: "credentials \<Rightarrow> cstr" where
  "gsignond_credentials_get_username self = cred_username self"

definition gsignond_credentials_set_password :: "credentials \<Rightarrow> cstr \<Rightarrow> bool \<times> credentials" where
  "gsignond_credentials_set_password self password =
     (let self = (if cred_password self \<noteq> None then self\<lparr>cred_password := None\<rparr> else self);
          self = (if password \<noteq> None then self\<lparr>cred_password := password\<rparr> else self)
      in (True, self))"

definition gsignond_credentials_get_password :: "credentials \<Rightarrow> cstr" where
  "gsignond_credentials_get_password self = cred_password self"

definition gsignond_credentials_set_data ::
  "credentials \<Rightarrow> u32 \<Rightarrow> cstr \<Rightarrow> cstr \<Rightarrow> bool \<times> credentials" where
  "gsignond_credentials_set_data self new_id username password =
     (let self = self\<lparr>cred_id := new_id\<rparr>
      in case gsignond_credentials_set_username self username of
           (False, self) \<Rightarrow> (False, self)
         | (True, self) \<Rightarrow> gsignond_credentials_set_password self password)"

fun g_string_equal :: "cstr \<Rightarrow> cstr \<Rightarrow> bool option" where
  "g_string_equal (Some a) (Some b) = Some (a = b)"
| "g_string_equal _ _ = None"

text \<open>\<open>same\<close>: both arguments are the same object.\<close>

definition gsignond_credentials_equal :: "bool \<Rightarrow> credentials \<Rightarrow> credentials \<Rightarrow> bool option" where
  "gsignond_credentials_equal same one two =
     (if same then Some True
      else if cred_id one = cred_id two \<and> cred_username one \<noteq> None \<and> cred_username two \<noteq> None then
        (case g_string_equal (cred_username one) (cred_username two) of
           None \<Rightarrow> None
         | Some False \<Rightarrow> Some False
         | Some True \<Rightarrow>
             (case g_string_equal (cred_password one) (cred_password two) of
                None \<Rightarrow> None
              | Some r \<Rightarrow> Some r))
      else Some False)"

lemma credentials_set_data_eq:
  "gsignond_credentials_set_data self i u p = (True, \<lparr>cred_id = i, cred_username = u, cred_password = p\<rparr>)"
  by (cases self)
     (auto simp: gsignond_credentials_set_data_def gsignond_credentials_set_username_def
        gsignond_credentials_set_password_def Let_def)

text \<open>
  Credentials read back what was set, the NULL fields included; and two distinct complete
  credentials compare equal exactly when all three fields agree. The comparison reads a NULL
  password, which C leaves undefined, exactly when ids and names agree and a password is missing.
\<close>

lemma credentials_equal_characterised:
  "(let c = snd (gsignond_credentials_set_data self i u p) in
      gsignond_credentials_get_id c = i \<and> gsignond_credentials_get_username c = u \<and>
      gsignond_credentials_get_password c = p) \<and>
   (gsignond_credentials_equal False one two = Some True \<longleftrightarrow>
      one = two \<and> cred_username one \<noteq> None \<and> cred_password one \<noteq> None) \<and>
   (gsignond_credentials_equal False one two = None \<longleftrightarrow>
      cred_id one = cred_id two \<and> cred_username one = cred_username two \<and>
      cred_username one \<noteq> None \<and> (cred_password one = None \<or> cred_password two = None))"
  by (cases one; cases two; cases "cred_password one"; cases "cred_password two")
     (auto simp: credentials_set_data_eq Let_def gsignond_credentials_get_id_def
        gsignond_credentials_get_username_def gsignond_credentials_get_password_def
        gsignond_credentials_equal_def split: bool.splits)

end
