(* ===== verification/Gsso_Disposable.thy ===== *)
theory Gsso_Disposable
  imports Gsso_Prelude
begin

text \<open>
  \<^verbatim>\<open>src/src/common/gsignond-disposable.c\<close>: the life time of the daemon's objects. An object is
  kept while its counter is not 0; otherwise a timer, or an idle source after
  \<^verbatim>\<open>gsignond_disposable_delete_later\<close>, drops the reference. The pending sources of the main loop that
  belong to the object are part of the state: \<^verbatim>\<open>g_timeout_add_seconds\<close> and \<^verbatim>\<open>g_idle_add\<close> return a
  fresh positive id, \<^verbatim>\<open>g_source_remove\<close> drops the source of an id, and a source whose callback
  returns FALSE is removed once it fired.
\<close>

datatype source = Timeout_source u32 | Idle_source

record disposable =
  timeout :: u32
  keep_obj_counter :: i32
  timer_id :: nat
  sources :: "(nat \<times> source) list"
  next_source :: nat
  disposing_signals :: nat
  unrefs :: nat

definition gsignond_disposable_init :: disposable where
  "gsignond_disposable_init =
     \<lparr>timeout = 0, keep_obj_counter = 0, timer_id = 0, sources = [], next_source = 1,
      disposing_signals = 0, unrefs = 0\<rparr>"

definition g_source_add :: "source \<Rightarrow> disposable \<Rightarrow> nat \<times> disposable" where
  "g_source_add src d =
     (next_source d, d\<lparr>sources := (next_source d, src) # sources d, next_source := next_source d + 1\<rparr>)"

definition g_source_remove :: "nat \<Rightarrow> disposable \<Rightarrow> disposable" where
  "g_source_remove i d = d\<lparr>sources := filter (\<lambda>(j, _). j \<noteq> i) (sources d)\<rparr>"

definition disposable_dispose :: "disposable \<Rightarrow> disposable" where
  "disposable_dispose self =
     (if timer_id self \<noteq> 0 then (g_source_remove (timer_id self) self)\<lparr>timer_id := 0\<rparr> else self)"

definition auto_dispose :: "disposable \<Rightarrow> bool \<times> disposable" where
  "auto_dispose self =
     (False, self\<lparr>disposing_signals := disposing_signals self + 1, unrefs := unrefs self + 1\<rparr>)"

definition timer_dispose :: "disposable \<Rightarrow> bool \<times> disposable" where
  "timer_dispose self = auto_dispose (self\<lparr>timer_id := 0\<rparr>)"

definition update_timer :: "disposable \<Rightarrow> disposable" where
  "update_timer self =
     (if keep_obj_counter self = 0 then
        (if timeout self \<noteq> 0 then
           (case g_source_add (Timeout_source (timeout self)) self of (i, d) \<Rightarrow> d\<lparr>timer_id := i\<rparr>)
         else self)
      else if timer_id self \<noteq> 0 then (g_source_remove (timer_id self) self)\<lparr>timer_id := 0\<rparr>
      else self)"

definition gsignond_disposable_set_auto_dispose :: "disposable \<Rightarrow> bool \<Rightarrow> disposable" where
  "gsignond_disposable_set_auto_dispose self dispose =
     (if keep_obj_counter self = 0 \<and> dispose then self
      else update_timer (self\<lparr>keep_obj_counter := keep_obj_counter self + (if \<not> dispose then 1 else - 1)\<rparr>))"

definition gsignond_disposable_set_timeout :: "disposable \<Rightarrow> u32 \<Rightarrow> disposable" where
  "gsignond_disposable_set_timeout self t =
     (if timeout self = t then self else update_timer (self\<lparr>timeout := t\<rparr>))"

definition gsignond_disposable_delete_later :: "disposable \<Rightarrow> disposable" where
  "gsignond_disposable_delete_later self =
     (let self = (if timer_id self \<noteq> 0 then g_source_remove (timer_id self) self else self)
      in case g_source_add Idle_source self of (i, d) \<Rightarrow> d\<lparr>timer_id := i\<rparr>)"

definition gsignond_disposable_get_auto_dispose :: "disposable \<Rightarrow> bool" where
  "gsignond_disposable_get_auto_dispose self = (keep_obj_counter self = 0)"

text \<open>The main loop dispatches a pending source: the callback runs, its FALSE removes the source.\<close>

definition dispatch_source :: "nat \<Rightarrow> disposable \<Rightarrow> disposable" where
  "dispatch_source i self =
     (case map_of (sources self) i of
        None \<Rightarrow> self
      | Some src \<Rightarrow>
          let (again, self) = (case src of Timeout_source _ \<Rightarrow> timer_dispose self | Idle_source \<Rightarrow> auto_dispose self)
          in if again then self else g_source_remove i self)"

subsection \<open>Holding and releasing\<close>

text \<open>
  What the daemon does with an object after it gave it a timeout: hold and release it
  (\<^verbatim>\<open>set_auto_dispose\<close> with FALSE and TRUE), while the main loop may fire the pending source.
\<close>

inductive disposable_step :: "disposable \<Rightarrow> disposable \<Rightarrow> bool" where
  hold: "disposable_step d (gsignond_disposable_set_auto_dispose d False)"
| release: "disposable_step d (gsignond_disposable_set_auto_dispose d True)"
| fire: "i \<in> fst ` set (sources d) \<Longrightarrow> disposable_step d (dispatch_source i d)"

inductive_cases disposable_stepE: "disposable_step d d'"

inductive disposable_run :: "u32 \<Rightarrow> disposable \<Rightarrow> bool" for t where
  start: "disposable_run t (gsignond_disposable_set_timeout gsignond_disposable_init t)"
| step: "disposable_run t d \<Longrightarrow> unrefs d = 0 \<Longrightarrow> disposable_step d d' \<Longrightarrow> disposable_run t d'"

definition disposable_inv :: "u32 \<Rightarrow> disposable \<Rightarrow> bool" where
  "disposable_inv t d \<longleftrightarrow> timeout d = t \<and> next_source d > 0 \<and> unrefs d \<le> 1 \<and>
     disposing_signals d = unrefs d \<and> (unrefs d = 0 \<longrightarrow>
     (keep_obj_counter d \<noteq> 0 \<or> t = 0 \<longrightarrow> sources d = [] \<and> timer_id d = 0) \<and>
     (keep_obj_counter d = 0 \<and> t \<noteq> 0 \<longrightarrow>
        timer_id d > 0 \<and> timer_id d < next_source d \<and> sources d = [(timer_id d, Timeout_source t)])) \<and>
     (unrefs d = 1 \<longrightarrow> sources d = [] \<and> timer_id d = 0 \<and> keep_obj_counter d = 0 \<and> t \<noteq> 0)"

lemmas disposable_defs =
  update_timer_def g_source_add_def g_source_remove_def gsignond_disposable_set_auto_dispose_def
  gsignond_disposable_set_timeout_def gsignond_disposable_init_def dispatch_source_def
  timer_dispose_def auto_dispose_def

lemma inv_update:
  assumes "timeout d = t" "next_source d > 0" "unrefs d = 0" "disposing_signals d = 0"
    and "keep_obj_counter d = 0 \<Longrightarrow> sources d = [] \<and> timer_id d = 0"
    and "keep_obj_counter d \<noteq> 0 \<Longrightarrow> timer_id d = 0 \<and> sources d = [] \<or>
           timer_id d > 0 \<and> sources d = [(timer_id d, Timeout_source t)]"
  shows "disposable_inv t (update_timer d)"
proof (cases "keep_obj_counter d = 0")
  case True
  with assms(1-5) show ?thesis
    by (cases "t = 0") (simp_all add: disposable_inv_def disposable_defs)
next
  case False
  with assms(1-4) assms(6) show ?thesis
    by (auto simp: disposable_inv_def disposable_defs)
qed

lemma inv_hold_release:
  assumes "disposable_inv t d" "unrefs d = 0"
  shows "disposable_inv t (gsignond_disposable_set_auto_dispose d dispose)"
proof (cases "keep_obj_counter d = 0 \<and> dispose")
  case True
  with assms show ?thesis by (simp add: gsignond_disposable_set_auto_dispose_def)
next
  case False
  then have "disposable_inv t (update_timer
      (d\<lparr>keep_obj_counter := keep_obj_counter d + (if \<not> dispose then 1 else - 1)\<rparr>))"
    by (intro inv_update; use assms in \<open>cases "keep_obj_counter d = 0"; cases "t = 0";
          simp add: disposable_inv_def\<close>)
  with False show ?thesis
    by (auto simp: gsignond_disposable_set_auto_dispose_def)
qed

lemma inv_fire:
  assumes "disposable_inv t d" "unrefs d = 0" "i \<in> fst ` set (sources d)"
  shows "disposable_inv t (dispatch_source i d)"
proof -
  have "keep_obj_counter d = 0" "t \<noteq> 0" "sources d = [(timer_id d, Timeout_source t)]"
    using assms by (auto simp: disposable_inv_def)
  with assms show ?thesis
    by (simp add: disposable_inv_def dispatch_source_def timer_dispose_def auto_dispose_def
        g_source_remove_def)
qed

lemma disposable_run_inv: "disposable_run t d \<Longrightarrow> disposable_inv t d"
proof (induction rule: disposable_run.induct)
  case start
  show ?case by (simp add: disposable_inv_def disposable_defs)
next
  case (step d d')
  from step(3) step(4,2) show ?case
    by (cases rule: disposable_step.cases) (auto intro: inv_hold_release inv_fire)
qed

text \<open>
  C6. Keeping an object works: however holds, releases and the main loop interleave after the
  timeout was set, a held object has no pending source and was not disposed, an object that is
  not held and has a timeout has exactly one pending timer until it was disposed, and the
  reference is dropped at most once, with one signal.
\<close>

theorem held_object_not_disposed:
  assumes "disposable_run t d"
  shows "(\<not> gsignond_disposable_get_auto_dispose d \<longrightarrow> sources d = [] \<and> unrefs d = 0) \<and>
     (gsignond_disposable_get_auto_dispose d \<and> t \<noteq> 0 \<and> unrefs d = 0 \<longrightarrow>
        sources d = [(timer_id d, Timeout_source t)]) \<and>
     unrefs d \<le> 1 \<and> disposing_signals d = unrefs d"
  using disposable_run_inv [OF assms]
  by (auto simp: disposable_inv_def gsignond_disposable_get_auto_dispose_def le_Suc_eq)

theorem held_object_not_disposed_witness:
  "sources (gsignond_disposable_set_auto_dispose
      (gsignond_disposable_set_timeout gsignond_disposable_init 5) False) = []"
proof -
  let ?d = "gsignond_disposable_set_timeout gsignond_disposable_init 5"
  have "disposable_run 5 (gsignond_disposable_set_auto_dispose ?d False)"
    by (rule disposable_run.step [OF disposable_run.start _ disposable_step.hold])
       (simp add: disposable_defs)
  from held_object_not_disposed [OF this] show ?thesis
    by (simp add: gsignond_disposable_get_auto_dispose_def disposable_defs)
qed

subsection \<open>The counter\<close>

text \<open>
  The abstract counter: a natural number that a hold increases, a release decreases down to 0.
\<close>

fun abstract_count :: "bool list \<Rightarrow> nat \<Rightarrow> nat" where
  "abstract_count [] n = n"
| "abstract_count (dispose # rest) n = abstract_count rest (if dispose then n - 1 else n + 1)"

lemma set_auto_dispose_counter:
  "keep_obj_counter (gsignond_disposable_set_auto_dispose d dispose) =
     (if keep_obj_counter d = 0 \<and> dispose then 0
      else keep_obj_counter d + (if dispose then - 1 else 1))"
  by (simp add: gsignond_disposable_set_auto_dispose_def update_timer_def g_source_add_def
      g_source_remove_def split: prod.split)

lemma of_nat_u32_eq_0: "n < 2 ^ 32 \<Longrightarrow> of_nat n = (0 :: u32) \<longleftrightarrow> n = 0"
  by (auto simp: word_of_nat_eq_0_iff dest: nat_dvd_not_less)

lemma counter_refines:
  assumes "keep_obj_counter d = of_nat n" and "n + length ops < 2 ^ 32"
  shows "keep_obj_counter (fold (\<lambda>b d. gsignond_disposable_set_auto_dispose d b) ops d) =
     of_nat (abstract_count ops n)"
  using assms
proof (induction ops arbitrary: n d)
  case (Cons b ops)
  have zero: "keep_obj_counter d = 0 \<longleftrightarrow> n = 0"
    using Cons.prems by (simp add: of_nat_u32_eq_0)
  have "keep_obj_counter (gsignond_disposable_set_auto_dispose d b) =
      of_nat (if b then n - 1 else n + 1)"
    using zero Cons.prems(1) by (cases n) (auto simp: set_auto_dispose_counter)
  from Cons.IH [OF this] Cons.prems(2) show ?case by auto
qed simp

lemma small_count: "n \<le> 2 \<Longrightarrow> of_nat n = (0 :: u32) \<longleftrightarrow> n = 0"
  by (auto simp: of_nat_u32_eq_0)

lemma set_auto_dispose_unrefs [simp]: "unrefs (gsignond_disposable_set_auto_dispose d v) = unrefs d"
  by (simp add: disposable_defs split: prod.split)

lemma run_hold_release:
  "disposable_run t d \<Longrightarrow> unrefs d = 0 \<Longrightarrow> disposable_run t (gsignond_disposable_set_auto_dispose d v)"
  by (cases v) (auto intro: disposable_run.step disposable_step.intros)

text \<open>
  The 32-bit counter counts: after any sequence of fewer than $2^{32}$ holds and releases the
  object is disposable exactly when the abstract count is 0, that is when every hold was followed by
  its release (a release with nothing held being ignored).
\<close>

lemma auto_dispose_counts:
  assumes "length ops < 2 ^ 32"
  shows "gsignond_disposable_get_auto_dispose
      (fold (\<lambda>b d. gsignond_disposable_set_auto_dispose d b) ops
        (gsignond_disposable_set_timeout gsignond_disposable_init t)) \<longleftrightarrow> abstract_count ops 0 = 0"
proof -
  have bound: "abstract_count ops n \<le> n + length ops" for n
  proof (induction ops arbitrary: n)
    case (Cons b ops)
    show ?case using Cons [of "n - 1"] Cons [of "n + 1"] by auto
  qed simp
  have "keep_obj_counter (gsignond_disposable_set_timeout gsignond_disposable_init t) = of_nat 0"
    by (simp add: disposable_defs)
  from counter_refines [OF this, of ops] assms bound [of 0] show ?thesis
    by (simp add: gsignond_disposable_get_auto_dispose_def of_nat_u32_eq_0)
qed

lemma auto_dispose_counts_witness:
  "\<not> gsignond_disposable_get_auto_dispose
      (fold (\<lambda>b d. gsignond_disposable_set_auto_dispose d b) [True, False, False, True]
        (gsignond_disposable_set_timeout gsignond_disposable_init 7))"
  using auto_dispose_counts [of "[True, False, False, True]" 7] by simp

text \<open>
  Setting two timeouts on an object that is not held leaves the first timer pending; a hold then
  cancels only the second one, and the first drops the reference of an object in use.
\<close>

lemma second_timeout_leaks_timer:
  "let d = gsignond_disposable_set_auto_dispose
      (gsignond_disposable_set_timeout (gsignond_disposable_set_timeout gsignond_disposable_init 5) 6) False
   in \<not> gsignond_disposable_get_auto_dispose d \<and> sources d = [(1, Timeout_source 5)] \<and>
      unrefs (dispatch_source 1 d) = 1"
  by (simp add: disposable_defs Let_def gsignond_disposable_get_auto_dispose_def)

end
