(* ===== verification/Gsso_Plugin_Proxy.thy ===== *)
theory Gsso_Plugin_Proxy
  imports Gsso_Session_Data Gsso_Error
begin

text \<open>
  \<^verbatim>\<open>src/src/daemon/plugins/gsignond-plugin-proxy.c\<close>: one proxy per authentication method passes
  the requests of the sessions to the plugin process one after the other. Sessions are named by
  numbers, and so are the process data of a session (the \<^verbatim>\<open>gpointer userdata\<close>; 0 is NULL).

  The calls to the plugin are messages to another process and the notifications go to the session:
  both are appended to \<open>log\<close>, in the order in which the code makes them. The signals of
  the plugin are the callbacks below, run by the main loop one at a time.

  \<^verbatim>\<open>gsignond_plugin_proxy_cancel\<close> of a queued session hands a list cell of the queue to functions
  that expect the process data: its result is \<open>None\<close>, undefined behaviour.
\<close>

datatype plugin_state =
    GSIGNOND_PLUGIN_STATE_NONE
  | GSIGNOND_PLUGIN_STATE_RESOLVING
  | GSIGNOND_PLUGIN_STATE_CONNECTING
  | GSIGNOND_PLUGIN_STATE_SENDING_DATA
  | GSIGNOND_PLUGIN_STATE_WAITING
  | GSIGNOND_PLUGIN_STATE_USER_PENDING
  | GSIGNOND_PLUGIN_STATE_REFRESHING
  | GSIGNOND_PLUGIN_STATE_PROCESS_PENDING
  | GSIGNOND_PLUGIN_STATE_STARTED
  | GSIGNOND_PLUGIN_STATE_CANCELING
  | GSIGNOND_PLUGIN_STATE_DONE
  | GSIGNOND_PLUGIN_STATE_HOLDING

type_synonym session_id = nat
type_synonym userdata = nat

record process_data =
  pd_auth_session :: session_id
  pd_session_data :: dictionary
  pd_identity_method_cache :: "dictionary option"
  pd_mechanism :: cstr
  pd_userdata :: userdata

datatype proxy_event =
    Plugin_request_initial dictionary "dictionary option" cstr
  | Plugin_request dictionary
  | Plugin_cancel
  | Plugin_user_action_finished dictionary
  | Plugin_refresh dictionary
  | Notify_state_changed session_id plugin_state string userdata
  | Notify_process_result session_id dictionary userdata
  | Notify_process_error session_id gerror userdata
  | Notify_store session_id dictionary
  | Notify_refreshed session_id dictionary
  | Notify_user_action_required session_id dictionary

record plugin_proxy =
  loader_path :: cstr
  plugin_type :: cstr
  plugin :: bool
  session_queue :: "process_data list"
  active_session :: "session_id option"
  active_process_userdata :: userdata
  expecting_request :: bool
  log :: "proxy_event list"

definition emit :: "proxy_event \<Rightarrow> plugin_proxy \<Rightarrow> plugin_proxy" where
  "emit e self = self\<lparr>log := log self @ [e]\<rparr>"

text \<open>A call to the plugin is refused when there is none any more.\<close>

definition call_plugin :: "proxy_event \<Rightarrow> plugin_proxy \<Rightarrow> plugin_proxy" where
  "call_plugin e self = (if plugin self then emit e self else self)"

definition gsignond_process_data_new ::
  "session_id \<Rightarrow> dictionary \<Rightarrow> dictionary option \<Rightarrow> cstr \<Rightarrow> userdata \<Rightarrow> process_data" where
  "gsignond_process_data_new auth_session session_data identity_method_cache mechanism userdata =
     \<lparr>pd_auth_session = auth_session,
      pd_session_data = gsignond_dictionary_copy session_data,
      pd_identity_method_cache = map_option gsignond_dictionary_copy identity_method_cache,
      pd_mechanism = mechanism,
      pd_userdata = userdata\<rparr>"

definition gsignond_plugin_proxy_process_queue :: "plugin_proxy \<Rightarrow> plugin_proxy" where
  "gsignond_plugin_proxy_process_queue self =
     (case session_queue self of
        [] \<Rightarrow> self
      | next_data # rest \<Rightarrow>
          let self = self\<lparr>session_queue := rest, expecting_request := False,
                          active_process_userdata := pd_userdata next_data,
                          active_session := Some (pd_auth_session next_data)\<rparr>;
              self = emit (Notify_state_changed (pd_auth_session next_data) GSIGNOND_PLUGIN_STATE_STARTED
                             ''The request is being processed.'' (active_process_userdata self)) self
          in call_plugin (Plugin_request_initial (pd_session_data next_data)
               (pd_identity_method_cache next_data) (pd_mechanism next_data)) self)"

subsection \<open>Signals of the plugin\<close>

definition gsignond_plugin_proxy_response_final_callback :: "dictionary \<Rightarrow> plugin_proxy \<Rightarrow> plugin_proxy" where
  "gsignond_plugin_proxy_response_final_callback result self =
     (case active_session self of
        None \<Rightarrow> self
      | Some s \<Rightarrow>
          let self = emit (Notify_process_result s result (active_process_userdata self)) self
          in gsignond_plugin_proxy_process_queue (self\<lparr>active_session := None, active_process_userdata := 0\<rparr>))"

definition gsignond_plugin_proxy_response_callback :: "dictionary \<Rightarrow> plugin_proxy \<Rightarrow> plugin_proxy" where
  "gsignond_plugin_proxy_response_callback result self =
     (case active_session self of
        None \<Rightarrow> self
      | Some s \<Rightarrow>
          let self = self\<lparr>expecting_request := True\<rparr>
          in emit (Notify_process_result s result (active_process_userdata self)) self)"

definition gsignond_plugin_proxy_store_callback :: "dictionary \<Rightarrow> plugin_proxy \<Rightarrow> plugin_proxy" where
  "gsignond_plugin_proxy_store_callback result self =
     (case active_session self of None \<Rightarrow> self | Some s \<Rightarrow> emit (Notify_store s result) self)"

definition gsignond_plugin_proxy_refreshed_callback :: "dictionary \<Rightarrow> plugin_proxy \<Rightarrow> plugin_proxy" where
  "gsignond_plugin_proxy_refreshed_callback ui_result self =
     (case active_session self of None \<Rightarrow> self | Some s \<Rightarrow> emit (Notify_refreshed s ui_result) self)"

definition gsignond_plugin_proxy_user_action_required_callback :: "dictionary \<Rightarrow> plugin_proxy \<Rightarrow> plugin_proxy" where
  "gsignond_plugin_proxy_user_action_required_callback ui_request self =
     (case active_session self of None \<Rightarrow> self | Some s \<Rightarrow> emit (Notify_user_action_required s ui_request) self)"

definition gsignond_plugin_proxy_error_callback :: "gerror \<Rightarrow> plugin_proxy \<Rightarrow> plugin_proxy" where
  "gsignond_plugin_proxy_error_callback error self =
     (case active_session self of
        None \<Rightarrow> self
      | Some s \<Rightarrow>
          let self = emit (Notify_process_error s error (active_process_userdata self)) self
          in gsignond_plugin_proxy_process_queue (self\<lparr>active_session := None, active_process_userdata := 0\<rparr>))"

definition gsignond_plugin_proxy_status_changed_callback ::
  "plugin_state \<Rightarrow> string \<Rightarrow> plugin_proxy \<Rightarrow> plugin_proxy" where
  "gsignond_plugin_proxy_status_changed_callback state message self =
     (case active_session self of
        None \<Rightarrow> self
      | Some s \<Rightarrow> emit (Notify_state_changed s state message (active_process_userdata self)) self)"

text \<open>The weak reference on the plugin: the code also drops a reference of the proxy.\<close>

definition on_remote_plugin_dead :: "plugin_proxy \<Rightarrow> plugin_proxy" where
  "on_remote_plugin_dead proxy = proxy\<lparr>plugin := False\<rparr>"

subsection \<open>Construction and disposal\<close>

definition gsignond_plugin_proxy_init :: plugin_proxy where
  "gsignond_plugin_proxy_init =
     \<lparr>loader_path = None, plugin_type = None, plugin = False, session_queue = [],
      active_session = None, active_process_userdata = 0, expecting_request = False, log = []\<rparr>"

text \<open>
  \<open>remote\<close> is what \<^verbatim>\<open>gsignond_plugin_remote_new\<close> returns for the loader and the type: \<open>None\<close> for
  NULL, or the type the started plugin reports.
\<close>

definition gsignond_plugin_proxy_constructor ::
  "(cstr \<Rightarrow> cstr \<Rightarrow> cstr option) \<Rightarrow> cstr \<Rightarrow> cstr \<Rightarrow> plugin_proxy" where
  "gsignond_plugin_proxy_constructor remote loader type =
     (let self = gsignond_plugin_proxy_init\<lparr>loader_path := loader, plugin_type := type\<rparr>
      in case remote loader type of
           None \<Rightarrow> self\<lparr>plugin := False, plugin_type := None\<rparr>
         | Some rtype \<Rightarrow>
             let self = self\<lparr>plugin := True\<rparr>
             in if g_strcmp0 rtype (plugin_type self) \<noteq> 0 then self\<lparr>plugin_type := None\<rparr> else self)"

definition gsignond_plugin_proxy_new ::
  "(cstr \<Rightarrow> cstr \<Rightarrow> cstr option) \<Rightarrow> cstr \<Rightarrow> cstr \<Rightarrow> plugin_proxy option" where
  "gsignond_plugin_proxy_new remote loader type =
     (if loader = None \<or> type = None then None
      else
        let proxy = gsignond_plugin_proxy_constructor remote loader type
        in if g_strcmp0 type (plugin_type proxy) = 0 then Some proxy else None)"

definition gsignond_plugin_proxy_dispose :: "plugin_proxy \<Rightarrow> plugin_proxy" where
  "gsignond_plugin_proxy_dispose self =
     (let self = (if active_session self \<noteq> None then self\<lparr>active_session := None\<rparr> else self)
      in if plugin self then self\<lparr>plugin := False\<rparr> else self)"

definition gsignond_plugin_proxy_finalize :: "plugin_proxy \<Rightarrow> plugin_proxy" where
  "gsignond_plugin_proxy_finalize self =
     self\<lparr>plugin_type := None, loader_path := None, session_queue := []\<rparr>"

subsection \<open>Requests of the sessions\<close>

definition gsignond_plugin_proxy_process ::
  "session_id \<Rightarrow> dictionary \<Rightarrow> dictionary option \<Rightarrow> cstr \<Rightarrow> userdata \<Rightarrow> plugin_proxy \<Rightarrow> plugin_proxy" where
  "gsignond_plugin_proxy_process session session_data identity_method_cache mechanism userdata self =
     (if Some session = active_session self \<and> expecting_request self then
        call_plugin (Plugin_request session_data) (self\<lparr>expecting_request := False\<rparr>)
      else
        let self = self\<lparr>session_queue := session_queue self @
              [gsignond_process_data_new session session_data identity_method_cache mechanism userdata]\<rparr>;
            self = emit (Notify_state_changed session GSIGNOND_PLUGIN_STATE_PROCESS_PENDING
                           ''The request has been queued.'' userdata) self
        in if active_session self = None then gsignond_plugin_proxy_process_queue self else self)"

definition gsignond_plugin_proxy_compare_process_data :: "process_data \<Rightarrow> session_id \<Rightarrow> int" where
  "gsignond_plugin_proxy_compare_process_data process_data auth_session =
     (if auth_session = pd_auth_session process_data then 0 else 1)"

definition gsignond_plugin_proxy_find_by_session_iface :: "plugin_proxy \<Rightarrow> session_id \<Rightarrow> process_data option" where
  "gsignond_plugin_proxy_find_by_session_iface self session =
     find (\<lambda>pd. gsignond_plugin_proxy_compare_process_data pd session = 0) (session_queue self)"

definition gsignond_plugin_proxy_cancel :: "session_id \<Rightarrow> plugin_proxy \<Rightarrow> plugin_proxy option" where
  "gsignond_plugin_proxy_cancel session self =
     (if Some session = active_session self then Some (call_plugin Plugin_cancel self)
      else case gsignond_plugin_proxy_find_by_session_iface self session of
        None \<Rightarrow>
          Some (emit (Notify_process_error session
            (gsignond_get_gerror_for_id GSIGNOND_ERROR_WRONG_STATE ''Canceling an unknown session'') 0) self)
      | Some _ \<Rightarrow> None)"

definition gsignond_plugin_proxy_user_action_finished :: "dictionary \<Rightarrow> plugin_proxy \<Rightarrow> plugin_proxy" where
  "gsignond_plugin_proxy_user_action_finished ui_data self =
     (if active_session self = None then self else call_plugin (Plugin_user_action_finished ui_data) self)"

definition gsignond_plugin_proxy_refresh :: "dictionary \<Rightarrow> plugin_proxy \<Rightarrow> plugin_proxy" where
  "gsignond_plugin_proxy_refresh ui_data self =
     (if active_session self = None then self else call_plugin (Plugin_refresh ui_data) self)"

subsection \<open>Runs\<close>

text \<open>Everything that can happen to a proxy, and a run of it; a run is undefined once a step is.\<close>

datatype proxy_input =
    In_process session_id dictionary "dictionary option" cstr userdata
  | In_cancel session_id
  | In_user_action_finished dictionary
  | In_refresh dictionary
  | In_response dictionary
  | In_response_final dictionary
  | In_store dictionary
  | In_refreshed dictionary
  | In_user_action_required dictionary
  | In_error gerror
  | In_status_changed plugin_state string
  | In_plugin_dead

fun proxy_step :: "proxy_input \<Rightarrow> plugin_proxy \<Rightarrow> plugin_proxy option" where
  "proxy_step (In_process s d c m u) p = Some (gsignond_plugin_proxy_process s d c m u p)"
| "proxy_step (In_cancel s) p = gsignond_plugin_proxy_cancel s p"
| "proxy_step (In_user_action_finished d) p = Some (gsignond_plugin_proxy_user_action_finished d p)"
| "proxy_step (In_refresh d) p = Some (gsignond_plugin_proxy_refresh d p)"
| "proxy_step (In_response d) p = Some (gsignond_plugin_proxy_response_callback d p)"
| "proxy_step (In_response_final d) p = Some (gsignond_plugin_proxy_response_final_callback d p)"
| "proxy_step (In_store d) p = Some (gsignond_plugin_proxy_store_callback d p)"
| "proxy_step (In_refreshed d) p = Some (gsignond_plugin_proxy_refreshed_callback d p)"
| "proxy_step (In_user_action_required d) p = Some (gsignond_plugin_proxy_user_action_required_callback d p)"
| "proxy_step (In_error e) p = Some (gsignond_plugin_proxy_error_callback e p)"
| "proxy_step (In_status_changed st m) p = Some (gsignond_plugin_proxy_status_changed_callback st m p)"
| "proxy_step In_plugin_dead p = Some (on_remote_plugin_dead p)"

fun proxy_run :: "proxy_input list \<Rightarrow> plugin_proxy \<Rightarrow> plugin_proxy option" where
  "proxy_run [] p = Some p"
| "proxy_run (i # is) p = (case proxy_step i p of None \<Rightarrow> None | Some p' \<Rightarrow> proxy_run is p')"

subsection \<open>The queue server it implements\<close>

text \<open>
  The specification: all jobs accepted so far in their order, how many are finished, whether the
  current one (the first that is not finished) waits for a further request of its session, and the
  answers given so far.
\<close>

datatype answer = Answer_result session_id dictionary userdata | Answer_error session_id gerror userdata

record fifo =
  jobs :: "process_data list"
  finished :: nat
  awaiting :: bool
  answers :: "answer list"

definition fifo_new :: fifo where
  "fifo_new = \<lparr>jobs = [], finished = 0, awaiting = False, answers = []\<rparr>"

definition current_job :: "fifo \<Rightarrow> process_data option" where
  "current_job f = (if finished f < length (jobs f) then Some (jobs f ! finished f) else None)"

fun fifo_step :: "proxy_input \<Rightarrow> fifo \<Rightarrow> fifo" where
  "fifo_step (In_process s d c m u) f =
     (if map_option pd_auth_session (current_job f) = Some s \<and> awaiting f then f\<lparr>awaiting := False\<rparr>
      else f\<lparr>jobs := jobs f @ [gsignond_process_data_new s d c m u]\<rparr>)"
| "fifo_step (In_response d) f =
     (case current_job f of None \<Rightarrow> f
      | Some j \<Rightarrow> f\<lparr>awaiting := True, answers := answers f @ [Answer_result (pd_auth_session j) d (pd_userdata j)]\<rparr>)"
| "fifo_step (In_response_final d) f =
     (case current_job f of None \<Rightarrow> f
      | Some j \<Rightarrow> f\<lparr>finished := finished f + 1, awaiting := False,
                    answers := answers f @ [Answer_result (pd_auth_session j) d (pd_userdata j)]\<rparr>)"
| "fifo_step (In_error e) f =
     (case current_job f of None \<Rightarrow> f
      | Some j \<Rightarrow> f\<lparr>finished := finished f + 1, awaiting := False,
                    answers := answers f @ [Answer_error (pd_auth_session j) e (pd_userdata j)]\<rparr>)"
| "fifo_step _ f = f"

definition job_request :: "process_data \<Rightarrow> proxy_event" where
  "job_request j = Plugin_request_initial (pd_session_data j) (pd_identity_method_cache j) (pd_mechanism j)"

fun is_initial :: "proxy_event \<Rightarrow> bool" where
  "is_initial (Plugin_request_initial _ _ _) = True"
| "is_initial _ = False"

text \<open>The answers in a log: notifications that carry process data.\<close>

fun event_answer :: "proxy_event \<Rightarrow> answer option" where
  "event_answer (Notify_process_result s d u) = (if u = 0 then None else Some (Answer_result s d u))"
| "event_answer (Notify_process_error s e u) = (if u = 0 then None else Some (Answer_error s e u))"
| "event_answer _ = None"

text \<open>The process data of a session is not NULL.\<close>

fun input_ok :: "proxy_input \<Rightarrow> bool" where
  "input_ok (In_process s d c m u) = (u \<noteq> 0)"
| "input_ok In_plugin_dead = False"
| "input_ok _ = True"

definition refines_fifo :: "fifo \<Rightarrow> plugin_proxy \<Rightarrow> bool" where
  "refines_fifo f p \<longleftrightarrow>
     plugin p \<and> (\<forall>j \<in> set (jobs f). pd_userdata j \<noteq> 0) \<and> finished f \<le> length (jobs f) \<and>
     (case drop (finished f) (jobs f) of
        [] \<Rightarrow> active_session p = None \<and> session_queue p = [] \<and> active_process_userdata p = 0 \<and> \<not> awaiting f
      | j # js \<Rightarrow> active_session p = Some (pd_auth_session j) \<and> session_queue p = js \<and>
                  active_process_userdata p = pd_userdata j \<and> expecting_request p = awaiting f) \<and>
     filter is_initial (log p) = map job_request (take (finished f + 1) (jobs f)) \<and>
     List.map_filter event_answer (log p) = answers f"

lemma map_filter_append: "List.map_filter g (xs @ ys) = List.map_filter g xs @ List.map_filter g ys"
  by (simp add: List.map_filter_def)

lemma map_filter_single: "List.map_filter g [x] = (case g x of None \<Rightarrow> [] | Some y \<Rightarrow> [y])"
  by (cases "g x") (simp_all add: List.map_filter_def)

lemma drop_Suc_Nil: "drop n xs = [] \<Longrightarrow> drop (Suc n) xs = []"
  by simp

lemma current_job_drop:
  "current_job f = (case drop (finished f) (jobs f) of [] \<Rightarrow> None | j # _ \<Rightarrow> Some j)"
proof (cases "finished f < length (jobs f)")
  case True
  then show ?thesis by (simp add: current_job_def Cons_nth_drop_Suc [symmetric])
qed (simp add: current_job_def)

lemma take_Suc_drop: "drop n xs = j # js \<Longrightarrow> take (Suc n) xs = take n xs @ [j]"
  by (metis hd_drop_conv_nth list.sel(1) drop_Nil drop_all linorder_not_less list.discI take_Suc_conv_app_nth)

lemma drop_ConsD:
  assumes "drop n xs = j # js"
  shows "n < length xs" "drop (Suc n) xs = js" "j \<in> set xs"
proof -
  show "n < length xs" using assms by (metis drop_all leI list.discI)
  show "drop (Suc n) xs = js" using assms by (metis drop_Suc list.sel(3) tl_drop)
  show "j \<in> set xs" using assms by (metis in_set_dropD list.set_intros(1))
qed

lemmas proxy_defs =
  gsignond_plugin_proxy_response_final_callback_def gsignond_plugin_proxy_response_callback_def
  gsignond_plugin_proxy_store_callback_def gsignond_plugin_proxy_refreshed_callback_def
  gsignond_plugin_proxy_user_action_required_callback_def gsignond_plugin_proxy_error_callback_def
  gsignond_plugin_proxy_status_changed_callback_def gsignond_plugin_proxy_user_action_finished_def
  gsignond_plugin_proxy_refresh_def gsignond_plugin_proxy_process_def
  gsignond_plugin_proxy_process_queue_def call_plugin_def emit_def Let_def

lemmas log_simps = map_filter_append map_filter_single

text \<open>Events that neither start a job nor answer one leave the refinement alone.\<close>

lemma refines_quiet:
  assumes "refines_fifo f p" "\<not> is_initial e" "event_answer e = None"
  shows "refines_fifo f (emit e p)" "refines_fifo f (call_plugin e p)"
  using assms
  by (cases "drop (finished f) (jobs f)"; simp add: refines_fifo_def emit_def call_plugin_def log_simps)+

text \<open>The step that every completed job takes: answer, then start the next one.\<close>

lemma refines_finish:
  assumes R: "refines_fifo f p" and d: "drop (finished f) (jobs f) = j # js"
    and a: "event_answer e = Some a" "\<not> is_initial e"
  shows "refines_fifo (f\<lparr>finished := finished f + 1, awaiting := False, answers := answers f @ [a]\<rparr>)
     (gsignond_plugin_proxy_process_queue ((emit e p)\<lparr>active_session := None, active_process_userdata := 0\<rparr>))"
proof (cases js)
  case Nil
  have len: "length (jobs f) = Suc (finished f)"
    using d Nil drop_ConsD(1) [OF d] by (metis drop_ConsD(2) drop_eq_Nil Suc_leI le_antisym)
  show ?thesis
    using R d a Nil len
    by (simp add: refines_fifo_def gsignond_plugin_proxy_process_queue_def emit_def log_simps)
next
  case (Cons k ks)
  have next1: "drop (Suc (finished f)) (jobs f) = k # ks"
    using drop_ConsD(2) [OF d] Cons by simp
  show ?thesis
    using R d a Cons next1 take_Suc_drop [OF next1] drop_ConsD [OF next1]
    by (simp add: refines_fifo_def gsignond_plugin_proxy_process_queue_def emit_def call_plugin_def
        Let_def log_simps job_request_def)
qed

lemma refines_process:
  assumes R: "refines_fifo f p" and u: "u \<noteq> 0"
  shows "refines_fifo (fifo_step (In_process s d c m u) f) (gsignond_plugin_proxy_process s d c m u p)"
proof (cases "drop (finished f) (jobs f)")
  case Nil
  with R have "finished f = length (jobs f)"
    by (simp add: refines_fifo_def)
  with R Nil u show ?thesis
    by (simp add: refines_fifo_def current_job_def proxy_defs log_simps job_request_def
        gsignond_process_data_new_def)
next
  case (Cons j js)
  with R u take_Suc_drop [OF Cons] drop_ConsD [OF Cons] show ?thesis
    by (auto simp: refines_fifo_def current_job_drop proxy_defs log_simps
        gsignond_process_data_new_def)
qed

lemma refines_response:
  assumes R: "refines_fifo f p"
  shows "refines_fifo (fifo_step (In_response d) f) (gsignond_plugin_proxy_response_callback d p)"
proof (cases "drop (finished f) (jobs f)")
  case Nil
  with R show ?thesis by (simp add: refines_fifo_def current_job_drop proxy_defs)
next
  case (Cons j js)
  with R drop_ConsD [OF Cons] show ?thesis
    by (auto simp: refines_fifo_def current_job_drop proxy_defs log_simps)
qed

lemma refines_active:
  assumes "refines_fifo f p"
  shows "active_session p = map_option pd_auth_session (current_job f)"
    and "current_job f = Some j \<Longrightarrow> active_process_userdata p = pd_userdata j \<and> pd_userdata j \<noteq> 0"
    and "current_job f = Some j \<Longrightarrow> \<exists>js. drop (finished f) (jobs f) = j # js"
  using assms by (auto simp: refines_fifo_def current_job_drop dest: drop_ConsD split: list.splits)

lemma proxy_step_refines:
  assumes R: "refines_fifo f p" and ok: "input_ok i" and run: "proxy_step i p = Some p'"
  shows "refines_fifo (fifo_step i f) p'"
proof (cases i)
  case (In_process s d c m u)
  then show ?thesis
    using refines_process [OF R, of u s d c m] ok run by (simp del: fifo_step.simps)
next
  case (In_response d)
  then show ?thesis
    using refines_response [OF R, of d] run by (simp del: fifo_step.simps)
next
  case (In_response_final d)
  show ?thesis
  proof (cases "current_job f")
    case None
    then show ?thesis
      using In_response_final R run refines_active(1) [OF R] by (simp add: proxy_defs)
  next
    case (Some j)
    with refines_active [OF R] obtain js where "drop (finished f) (jobs f) = j # js" by blast
    from refines_finish [OF R this,
        of "Notify_process_result (pd_auth_session j) d (pd_userdata j)"] Some In_response_final run
      refines_active [OF R]
    show ?thesis by (simp add: gsignond_plugin_proxy_response_final_callback_def Let_def)
  qed
next
  case (In_error e)
  show ?thesis
  proof (cases "current_job f")
    case None
    then show ?thesis
      using In_error R run refines_active(1) [OF R] by (simp add: proxy_defs)
  next
    case (Some j)
    with refines_active [OF R] obtain js where "drop (finished f) (jobs f) = j # js" by blast
    from refines_finish [OF R this,
        of "Notify_process_error (pd_auth_session j) e (pd_userdata j)"] Some In_error run
      refines_active [OF R]
    show ?thesis by (simp add: gsignond_plugin_proxy_error_callback_def Let_def)
  qed
qed (use R ok run refines_quiet [OF R] in
      \<open>auto simp: gsignond_plugin_proxy_cancel_def gsignond_plugin_proxy_user_action_finished_def
        gsignond_plugin_proxy_refresh_def gsignond_plugin_proxy_store_callback_def
        gsignond_plugin_proxy_refreshed_callback_def gsignond_plugin_proxy_user_action_required_callback_def
        gsignond_plugin_proxy_status_changed_callback_def split: option.splits if_splits\<close>)

lemma proxy_run_refines:
  "refines_fifo f p \<Longrightarrow> list_all input_ok is \<Longrightarrow> proxy_run is p = Some p' \<Longrightarrow>
     refines_fifo (fold fifo_step is f) p'"
  by (induction "is" arbitrary: f p) (auto intro: proxy_step_refines split: option.splits)

lemma new_proxy_eq:
  "gsignond_plugin_proxy_new remote loader type = Some p \<Longrightarrow>
     loader \<noteq> None \<and> type \<noteq> None \<and> remote loader type = Some type \<and>
     p = gsignond_plugin_proxy_init\<lparr>loader_path := loader, plugin_type := type, plugin := True\<rparr>"
  by (auto simp: gsignond_plugin_proxy_new_def gsignond_plugin_proxy_constructor_def
      gsignond_plugin_proxy_init_def Let_def split: option.splits if_split_asm)

lemma new_refines: "gsignond_plugin_proxy_new remote loader type = Some p \<Longrightarrow> refines_fifo fifo_new p"
  by (drule new_proxy_eq)
     (simp add: gsignond_plugin_proxy_init_def refines_fifo_def fifo_new_def List.map_filter_def)

subsection \<open>Properties\<close>

text \<open>
  C1. The proxy is a first-in first-out server: after any defined run of a live proxy, the initial
  requests handed to the plugin are those of the accepted jobs, in order, up to the current one; the
  queue holds the rest; the session of the current job is the active one; the answers the
  sessions got are those of the specification; and the plugin never idles while a job waits.
\<close>

theorem proxy_serves_in_order:
  assumes "gsignond_plugin_proxy_new remote loader type = Some p0"
    and "list_all input_ok ins" and "proxy_run ins p0 = Some p"
  shows "let f = fold fifo_step ins fifo_new in
     filter is_initial (log p) = map job_request (take (finished f + 1) (jobs f)) \<and>
     session_queue p = drop (finished f + 1) (jobs f) \<and>
     active_session p = map_option pd_auth_session (current_job f) \<and>
     List.map_filter event_answer (log p) = answers f \<and>
     (active_session p = None \<longrightarrow> session_queue p = [])"
proof -
  define f where "f = fold fifo_step ins fifo_new"
  have R: "refines_fifo f p"
    unfolding f_def by (rule proxy_run_refines [OF new_refines [OF assms(1)] assms(2,3)])
  then show ?thesis
    unfolding f_def [symmetric] Let_def
    using refines_active(1) [OF R]
    by (cases "drop (finished f) (jobs f)")
       (auto simp: refines_fifo_def current_job_drop dest: drop_ConsD)
qed

definition example_inputs :: "proxy_input list" where
  "example_inputs = [In_process 1 [] None (Some ''m'') 11, In_process 2 [] None (Some ''m'') 22,
     In_response_final [], In_process 1 [] None (Some ''m'') 33]"

lemma example_run: "\<exists>p0 p. gsignond_plugin_proxy_new (\<lambda>_ t. Some t) (Some ''l'') (Some ''t'') = Some p0 \<and>
    proxy_run example_inputs p0 = Some p \<and> list_all input_ok example_inputs \<and>
    list_all (\<lambda>i. \<forall>d. i \<noteq> In_response d) example_inputs"
  by (simp add: example_inputs_def gsignond_plugin_proxy_new_def gsignond_plugin_proxy_constructor_def
      gsignond_plugin_proxy_init_def Let_def)

lemma example_fifo: "current_job (fold fifo_step example_inputs fifo_new) =
    Some (gsignond_process_data_new 2 [] None (Some ''m'') 22)"
  by (simp add: example_inputs_def fifo_new_def current_job_def gsignond_process_data_new_def)

theorem proxy_serves_in_order_witness:
  "\<exists>p0 p. gsignond_plugin_proxy_new (\<lambda>_ t. Some t) (Some ''l'') (Some ''t'') = Some p0 \<and>
     proxy_run example_inputs p0 = Some p \<and> active_session p = Some 2"
proof -
  from example_run obtain p0 p where *:
    "gsignond_plugin_proxy_new (\<lambda>_ t. Some t) (Some ''l'') (Some ''t'') = Some p0"
    "proxy_run example_inputs p0 = Some p" "list_all input_ok example_inputs" by blast
  with proxy_serves_in_order [OF *(1,3,2)] show ?thesis
    by (simp add: Let_def example_fifo gsignond_process_data_new_def)
qed

fun answer_to :: "answer \<Rightarrow> session_id \<times> userdata" where
  "answer_to (Answer_result s _ u) = (s, u)"
| "answer_to (Answer_error s _ u) = (s, u)"

definition job_client :: "process_data \<Rightarrow> session_id \<times> userdata" where
  "job_client j = (pd_auth_session j, pd_userdata j)"

definition answered_once :: "fifo \<Rightarrow> bool" where
  "answered_once f \<longleftrightarrow> finished f \<le> length (jobs f) \<and> \<not> awaiting f \<and>
     map answer_to (answers f) = map job_client (take (finished f) (jobs f))"

lemma answered_once_step:
  assumes "answered_once f" "\<forall>d. i \<noteq> In_response d"
  shows "answered_once (fifo_step i f)"
  using assms
  by (cases i)
     (auto simp: answered_once_def current_job_def job_client_def take_Suc_conv_app_nth)

lemma answered_once_run:
  "answered_once f \<Longrightarrow> list_all (\<lambda>i. \<forall>d. i \<noteq> In_response d) ins \<Longrightarrow> answered_once (fold fifo_step ins f)"
  by (induction ins arbitrary: f) (auto intro: answered_once_step)

text \<open>
  C5. With a plugin that answers a request by its final response or an error, every accepted
  request is answered at most once, in the order of acceptance, to the session that made it and with
  its own process data: the answers in the log are those to the first finished jobs.
\<close>

theorem proxy_answers_once_in_order:
  assumes "gsignond_plugin_proxy_new remote loader type = Some p0"
    and "list_all input_ok ins" and "proxy_run ins p0 = Some p"
    and "list_all (\<lambda>i. \<forall>d. i \<noteq> In_response d) ins"
  shows "let f = fold fifo_step ins fifo_new in
     map answer_to (List.map_filter event_answer (log p)) = map job_client (take (finished f) (jobs f)) \<and>
     length (filter is_initial (log p)) = min (finished f + 1) (length (jobs f))"
proof -
  have "answered_once (fold fifo_step ins fifo_new)"
    by (rule answered_once_run [OF _ assms(4)]) (simp add: answered_once_def fifo_new_def)
  moreover have "refines_fifo (fold fifo_step ins fifo_new) p"
    by (rule proxy_run_refines [OF new_refines [OF assms(1)] assms(2,3)])
  ultimately show ?thesis
    by (simp add: Let_def answered_once_def refines_fifo_def)
qed

theorem proxy_answers_once_in_order_witness:
  "\<exists>p0 p. proxy_run example_inputs p0 = Some p \<and>
     map answer_to (List.map_filter event_answer (log p)) = [(1, 11)]"
proof -
  from example_run obtain p0 p where *:
    "gsignond_plugin_proxy_new (\<lambda>_ t. Some t) (Some ''l'') (Some ''t'') = Some p0"
    "proxy_run example_inputs p0 = Some p" "list_all input_ok example_inputs"
    "list_all (\<lambda>i. \<forall>d. i \<noteq> In_response d) example_inputs" by blast
  have "map job_client (take (finished (fold fifo_step example_inputs fifo_new))
      (jobs (fold fifo_step example_inputs fifo_new))) = [(1, 11)]"
    by (simp add: example_inputs_def fifo_new_def current_job_def gsignond_process_data_new_def
        job_client_def)
  with proxy_answers_once_in_order [OF *(1,3,2,4)]
  have "map answer_to (List.map_filter event_answer (log p)) = [(1, 11)]"
    by (simp only: Let_def)
  with *(2) show ?thesis by (intro exI [of _ p0] exI [of _ p]) simp
qed

text \<open>
  C8. Cancelling: the active session's cancel goes to the plugin, a session that is neither active
  nor queued gets a WRONG-STATE error and nothing else changes, and the cancel of a session that
  only waits in the queue is undefined; no other input of a proxy is ever undefined.
\<close>

theorem proxy_cancel_cases:
  "(proxy_step i p = None \<longleftrightarrow>
      (\<exists>s. i = In_cancel s \<and> active_session p \<noteq> Some s \<and> s \<in> pd_auth_session ` set (session_queue p))) \<and>
   (active_session p = Some s \<and> plugin p \<longrightarrow>
      gsignond_plugin_proxy_cancel s p = Some (p\<lparr>log := log p @ [Plugin_cancel]\<rparr>)) \<and>
   (active_session p \<noteq> Some s \<and> s \<notin> pd_auth_session ` set (session_queue p) \<longrightarrow>
      gsignond_plugin_proxy_cancel s p = Some (p\<lparr>log := log p @ [Notify_process_error s
        (gsignond_get_gerror_for_id GSIGNOND_ERROR_WRONG_STATE ''Canceling an unknown session'') 0]\<rparr>))"
proof -
  have found: "gsignond_plugin_proxy_find_by_session_iface p t = None \<longleftrightarrow>
      t \<notin> pd_auth_session ` set (session_queue p)" for t
    by (auto simp: gsignond_plugin_proxy_find_by_session_iface_def find_None_iff
        gsignond_plugin_proxy_compare_process_data_def)
  have cancel: "gsignond_plugin_proxy_cancel t p = None \<longleftrightarrow>
      active_session p \<noteq> Some t \<and> t \<in> pd_auth_session ` set (session_queue p)" for t
    using found [of t] by (auto simp: gsignond_plugin_proxy_cancel_def split: option.splits)
  have "proxy_step i p = None \<longleftrightarrow>
      (\<exists>s. i = In_cancel s \<and> active_session p \<noteq> Some s \<and> s \<in> pd_auth_session ` set (session_queue p))"
    by (cases i) (auto simp: cancel)
  then show ?thesis
    using found [of s]
    by (auto simp: gsignond_plugin_proxy_cancel_def call_plugin_def emit_def)
qed

theorem proxy_cancel_cases_witness:
  "gsignond_plugin_proxy_cancel 4 gsignond_plugin_proxy_init = Some (gsignond_plugin_proxy_init
     \<lparr>log := [Notify_process_error 4
        (gsignond_get_gerror_for_id GSIGNOND_ERROR_WRONG_STATE ''Canceling an unknown session'') 0]\<rparr>)"
  using proxy_cancel_cases [of "In_cancel 4" gsignond_plugin_proxy_init 4]
  by (simp add: gsignond_plugin_proxy_init_def)

end
