(* ===== verification/Gsso_Access_Control.thy ===== *)
theory Gsso_Access_Control
  imports Gsso_Security_Context
begin

text \<open>
  \<^verbatim>\<open>src/src/common/gsignond-access-control-manager.c\<close> and its override in
  \<^verbatim>\<open>src/src/extensions/tizen/tizen-access-control-manager.c\<close>. The class of a manager is a record of
  its methods, the wrappers call through it. What the methods ask the system for is a parameter:
  the credentials of a socket, the answer of the bus, the target of a \<^verbatim>\<open>/proc\<close> link, the SMACK
  decision, and the settings of the build and the configuration.

  The interface \<open>access_policy\<close> is what the daemon relies on, whatever the manager; it is
  interpreted on both.
\<close>

record acm =
  vt_security_context_of_peer :: "security_context \<Rightarrow> int \<Rightarrow> cstr \<Rightarrow> cstr \<Rightarrow> security_context"
  vt_peer_is_allowed_to_use_identity ::
    "security_context option \<Rightarrow> security_context option \<Rightarrow> security_context_list \<Rightarrow> bool"
  vt_peer_is_owner_of_identity :: "security_context option \<Rightarrow> security_context option \<Rightarrow> bool"
  vt_acl_is_valid :: "security_context option \<Rightarrow> security_context_list \<Rightarrow> bool"
  vt_security_context_of_keychain :: "security_context option"

subsection \<open>The default manager\<close>

text \<open>
  \<open>peercred fd\<close>: the process id \<^verbatim>\<open>getsockopt\<close> gives, \<open>None\<close> on failure. \<open>service_pid service\<close>: the
  process id the bus answers, \<open>None\<close> without a connection or an answer. \<open>readlink pid\<close>: the target
  of \<^verbatim>\<open>/proc/<pid>/exe\<close>, \<open>None\<close> when there is none or it is empty.
\<close>

definition security_context_of_peer ::
  "(int \<Rightarrow> u32 option) \<Rightarrow> (string \<Rightarrow> u32 option) \<Rightarrow> (u32 \<Rightarrow> string option) \<Rightarrow>
   security_context \<Rightarrow> int \<Rightarrow> cstr \<Rightarrow> cstr \<Rightarrow> security_context" where
  "security_context_of_peer peercred service_pid readlink peer_ctx peer_fd peer_service peer_app_ctx =
     (let peer_ctx = gsignond_security_context_set_system_context peer_ctx (Some '''');
          peer_ctx = gsignond_security_context_set_application_context peer_ctx peer_app_ctx;
          remote_pid =
            (if peer_fd \<ge> 0 then peercred peer_fd
             else case peer_service of None \<Rightarrow> None | Some service \<Rightarrow> service_pid service)
      in case remote_pid of
           None \<Rightarrow> peer_ctx
         | Some pid \<Rightarrow>
             if pid = 0 then peer_ctx
             else case readlink pid of
                    None \<Rightarrow> peer_ctx
                  | Some peerpath \<Rightarrow> gsignond_security_context_set_system_context peer_ctx (Some peerpath))"

fun peer_is_allowed_to_use_identity ::
  "security_context option \<Rightarrow> security_context option \<Rightarrow> security_context_list \<Rightarrow> bool" where
  "peer_is_allowed_to_use_identity peer_ctx owner_ctx [] = False"
| "peer_is_allowed_to_use_identity peer_ctx owner_ctx (acl_ctx # rest) =
     (if gsignond_security_context_check acl_ctx peer_ctx then True
      else peer_is_allowed_to_use_identity peer_ctx owner_ctx rest)"

definition peer_is_owner_of_identity :: "security_context option \<Rightarrow> security_context option \<Rightarrow> bool" where
  "peer_is_owner_of_identity peer_ctx owner_ctx = gsignond_security_context_check owner_ctx peer_ctx"

definition acl_is_valid :: "security_context option \<Rightarrow> security_context_list \<Rightarrow> bool" where
  "acl_is_valid peer_ctx identity_acl = True"

text \<open>
  The keychain context: the configuration, else the build's setting, else the empty string; a debug
  build takes the environment's value first.
\<close>

definition security_context_of_keychain :: "cstr \<Rightarrow> cstr \<Rightarrow> cstr \<Rightarrow> security_context option" where
  "security_context_of_keychain config build env =
     (let keychain_sysctx = config;
          keychain_sysctx = (if keychain_sysctx = None
                             then (case build of Some b \<Rightarrow> Some b | None \<Rightarrow> Some '''') else keychain_sysctx);
          keychain_sysctx = (if env \<noteq> None then env else keychain_sysctx)
      in gsignond_security_context_new_from_values keychain_sysctx None)"

definition default_acm ::
  "(int \<Rightarrow> u32 option) \<Rightarrow> (string \<Rightarrow> u32 option) \<Rightarrow> (u32 \<Rightarrow> string option) \<Rightarrow>
   cstr \<Rightarrow> cstr \<Rightarrow> cstr \<Rightarrow> acm" where
  "default_acm peercred service_pid readlink config build env =
     \<lparr>vt_security_context_of_peer = security_context_of_peer peercred service_pid readlink,
      vt_peer_is_allowed_to_use_identity = peer_is_allowed_to_use_identity,
      vt_peer_is_owner_of_identity = peer_is_owner_of_identity,
      vt_acl_is_valid = acl_is_valid,
      vt_security_context_of_keychain = security_context_of_keychain config build env\<rparr>"

subsection \<open>The manager of Tizen\<close>

text \<open>
  \<open>label_of_fd\<close>: the SMACK label of a socket; \<open>bus_reply\<close>: the reply of \<^verbatim>\<open>GetConnectionSmackContext\<close>,
  a tuple as every reply is, \<open>None\<close> when any step before it fails; \<open>smack_have_access\<close>: the kernel's decision.
\<close>

definition extension_tizen_access_control_manager_security_context_of_peer ::
  "(int \<Rightarrow> cstr) \<Rightarrow> (string \<Rightarrow> gvariant option) \<Rightarrow>
   security_context \<Rightarrow> int \<Rightarrow> cstr \<Rightarrow> cstr \<Rightarrow> security_context" where
  "extension_tizen_access_control_manager_security_context_of_peer label_of_fd bus_reply
     peer_ctx peer_fd peer_service peer_app_ctx =
     (let peer_ctx = gsignond_security_context_set_system_context peer_ctx (Some '''');
          peer_ctx = gsignond_security_context_set_application_context peer_ctx peer_app_ctx
      in if peer_fd \<noteq> -1 then
           (case label_of_fd peer_fd of
              None \<Rightarrow> peer_ctx
            | Some label \<Rightarrow> gsignond_security_context_set_system_context peer_ctx (Some label))
         else case peer_service of
           None \<Rightarrow> peer_ctx
         | Some service \<Rightarrow>
             (case bus_reply service of
                None \<Rightarrow> peer_ctx
              | Some response \<Rightarrow>
                  (case g_variant_get_string response of
                     None \<Rightarrow> peer_ctx
                   | Some label \<Rightarrow> gsignond_security_context_set_system_context peer_ctx (Some label))))"

fun tizen_acl_loop ::
  "(cstr \<Rightarrow> cstr \<Rightarrow> string \<Rightarrow> int) \<Rightarrow> security_context option \<Rightarrow> cstr \<Rightarrow> cstr \<Rightarrow> security_context_list \<Rightarrow> bool" where
  "tizen_acl_loop smack_have_access peer_ctx peer_system_ctx owner_system_ctx [] = False"
| "tizen_acl_loop smack_have_access peer_ctx peer_system_ctx owner_system_ctx (acl_ctx # rest) =
     (if gsignond_security_context_check acl_ctx peer_ctx
      then smack_have_access peer_system_ctx owner_system_ctx ''x'' = 1
      else tizen_acl_loop smack_have_access peer_ctx peer_system_ctx owner_system_ctx rest)"

definition extension_tizen_access_control_manager_peer_is_allowed_to_use_identity ::
  "(cstr \<Rightarrow> cstr \<Rightarrow> string \<Rightarrow> int) \<Rightarrow> security_context option \<Rightarrow> security_context option \<Rightarrow>
   security_context_list \<Rightarrow> bool" where
  "extension_tizen_access_control_manager_peer_is_allowed_to_use_identity smack_have_access
     peer_ctx identity_owner identity_acl =
     tizen_acl_loop smack_have_access peer_ctx
       (gsignond_security_context_get_system_context peer_ctx)
       (gsignond_security_context_get_system_context identity_owner) identity_acl"

definition extension_tizen_access_control_manager_peer_is_owner_of_identity ::
  "security_context option \<Rightarrow> security_context option \<Rightarrow> bool" where
  "extension_tizen_access_control_manager_peer_is_owner_of_identity peer_ctx identity_owner =
     (gsignond_security_context_compare peer_ctx identity_owner = 0)"

definition keychainAppId :: string where
  "keychainAppId = ''gSignond::keychain''"

definition extension_tizen_access_control_manager_security_context_of_keychain ::
  "cstr \<Rightarrow> cstr \<Rightarrow> security_context option" where
  "extension_tizen_access_control_manager_security_context_of_keychain config build =
     (let keychain_sysctx = config;
          keychain_sysctx = (if keychain_sysctx = None
                             then (case build of Some b \<Rightarrow> Some b | None \<Rightarrow> Some keychainAppId)
                             else keychain_sysctx)
      in gsignond_security_context_new_from_values keychain_sysctx None)"

text \<open>The class of Tizen keeps the default \<^verbatim>\<open>acl_is_valid\<close>.\<close>

definition tizen_acm ::
  "(int \<Rightarrow> cstr) \<Rightarrow> (string \<Rightarrow> gvariant option) \<Rightarrow> (cstr \<Rightarrow> cstr \<Rightarrow> string \<Rightarrow> int) \<Rightarrow>
   cstr \<Rightarrow> cstr \<Rightarrow> acm" where
  "tizen_acm label_of_fd bus_reply smack_have_access config build =
     \<lparr>vt_security_context_of_peer =
        extension_tizen_access_control_manager_security_context_of_peer label_of_fd bus_reply,
      vt_peer_is_allowed_to_use_identity =
        extension_tizen_access_control_manager_peer_is_allowed_to_use_identity smack_have_access,
      vt_peer_is_owner_of_identity = extension_tizen_access_control_manager_peer_is_owner_of_identity,
      vt_acl_is_valid = acl_is_valid,
      vt_security_context_of_keychain =
        extension_tizen_access_control_manager_security_context_of_keychain config build\<rparr>"

subsection \<open>The wrappers\<close>

definition gsignond_access_control_manager_security_context_of_peer ::
  "acm \<Rightarrow> security_context \<Rightarrow> int \<Rightarrow> cstr \<Rightarrow> cstr \<Rightarrow> security_context" where
  "gsignond_access_control_manager_security_context_of_peer self peer_ctx peer_fd peer_service peer_app_ctx =
     vt_security_context_of_peer self peer_ctx peer_fd peer_service peer_app_ctx"

definition gsignond_access_control_manager_peer_is_allowed_to_use_identity ::
  "acm \<Rightarrow> security_context option \<Rightarrow> security_context option \<Rightarrow> security_context_list \<Rightarrow> bool" where
  "gsignond_access_control_manager_peer_is_allowed_to_use_identity self peer_ctx owner_ctx identity_acl =
     vt_peer_is_allowed_to_use_identity self peer_ctx owner_ctx identity_acl"

definition gsignond_access_control_manager_peer_is_owner_of_identity ::
  "acm \<Rightarrow> security_context option \<Rightarrow> security_context option \<Rightarrow> bool" where
  "gsignond_access_control_manager_peer_is_owner_of_identity self peer_ctx owner_ctx =
     vt_peer_is_owner_of_identity self peer_ctx owner_ctx"

definition gsignond_access_control_manager_acl_is_valid ::
  "acm \<Rightarrow> security_context option \<Rightarrow> security_context_list \<Rightarrow> bool" where
  "gsignond_access_control_manager_acl_is_valid self peer_ctx identity_acl =
     vt_acl_is_valid self peer_ctx identity_acl"

definition gsignond_access_control_manager_security_context_of_keychain ::
  "acm \<Rightarrow> security_context option" where
  "gsignond_access_control_manager_security_context_of_keychain self = vt_security_context_of_keychain self"

lemmas acm_wrappers =
  gsignond_access_control_manager_security_context_of_peer_def
  gsignond_access_control_manager_peer_is_allowed_to_use_identity_def
  gsignond_access_control_manager_peer_is_owner_of_identity_def
  gsignond_access_control_manager_acl_is_valid_def
  gsignond_access_control_manager_security_context_of_keychain_def

subsection \<open>The interface\<close>

text \<open>
  Use is granted only through an entry of the list that covers the peer, and on nothing but whether
  the list has such an entry; ownership is granted only to a peer that the owner context covers, and
  the owner itself is one.
\<close>

locale access_policy =
  fixes m :: acm
  assumes allowed_covered:
      "gsignond_access_control_manager_peer_is_allowed_to_use_identity m peer owner acl \<Longrightarrow>
         \<exists>a \<in> set acl. gsignond_security_context_check a peer"
    and allowed_mono:
      "gsignond_access_control_manager_peer_is_allowed_to_use_identity m peer owner acl \<Longrightarrow>
         set acl \<subseteq> set acl' \<Longrightarrow>
         gsignond_access_control_manager_peer_is_allowed_to_use_identity m peer owner acl'"
    and owner_covers:
      "gsignond_access_control_manager_peer_is_owner_of_identity m peer owner \<Longrightarrow>
         owner = None \<or> gsignond_security_context_check owner peer"
    and owner_self: "gsignond_access_control_manager_peer_is_owner_of_identity m (Some c) (Some c)"
    and keychain_app: "gsignond_access_control_manager_security_context_of_keychain m = Some k \<Longrightarrow> app_ctx k = ''''"
begin

lemma empty_acl_denies: "\<not> gsignond_access_control_manager_peer_is_allowed_to_use_identity m peer owner []"
  using allowed_covered [of peer owner "[]"] by auto

lemma uncovered_denied:
  "(\<And>a. a \<in> set acl \<Longrightarrow> \<not> gsignond_security_context_check a peer) \<Longrightarrow>
     \<not> gsignond_access_control_manager_peer_is_allowed_to_use_identity m peer owner acl"
  using allowed_covered by blast

lemma allowed_set:
  "set acl = set acl' \<Longrightarrow>
     gsignond_access_control_manager_peer_is_allowed_to_use_identity m peer owner acl =
     gsignond_access_control_manager_peer_is_allowed_to_use_identity m peer owner acl'"
  using allowed_mono by blast

end

lemma peer_is_allowed_iff:
  "peer_is_allowed_to_use_identity peer owner acl \<longleftrightarrow> (\<exists>a \<in> set acl. gsignond_security_context_check a peer)"
  by (induction acl) auto

lemma tizen_acl_loop_iff:
  "tizen_acl_loop smack peer ps os acl \<longleftrightarrow>
     (\<exists>a \<in> set acl. gsignond_security_context_check a peer) \<and> smack ps os ''x'' = 1"
  by (induction acl) auto

lemma keychain_app_empty:
  "gsignond_security_context_new_from_values s None = Some k \<Longrightarrow> app_ctx k = ''''"
  by (auto simp: gsignond_security_context_new_from_values_def split: option.splits)

lemma check_self_or_NULL: "gsignond_security_context_check c c \<or> c = None"
  by (cases c) (simp_all add: check_refl)

interpretation default_policy: access_policy "default_acm peercred service_pid readlink config build env"
  by unfold_locales
     (auto simp: acm_wrappers default_acm_def peer_is_allowed_iff peer_is_owner_of_identity_def
        security_context_of_keychain_def Let_def check_refl dest: keychain_app_empty)

interpretation tizen_policy: access_policy "tizen_acm label_of_fd bus_reply smack config build"
  by unfold_locales
     (auto simp: acm_wrappers tizen_acm_def tizen_acl_loop_iff Let_def
        extension_tizen_access_control_manager_peer_is_allowed_to_use_identity_def
        extension_tizen_access_control_manager_peer_is_owner_of_identity_def
        extension_tizen_access_control_manager_security_context_of_keychain_def
        secord.cmp_eq check_refl dest: keychain_app_empty
        intro: check_self_or_NULL [THEN disjE])

subsection \<open>Properties\<close>

text \<open>
  C9. Who may use an identity: the default manager grants it exactly when an entry of the list
  covers the peer, Tizen's when in addition SMACK lets the peer execute the owner's label; nobody gets
  in through an empty list, more entries never take access away, and both find the owner to be its
  owner, nobody whom the owner context does not cover.
\<close>

theorem access_decisions:
  fixes peercred service_pid readlink config build env label_of_fd bus_reply smack
  defines "d \<equiv> default_acm peercred service_pid readlink config build env"
    and "t \<equiv> tizen_acm label_of_fd bus_reply smack config build"
  shows "(gsignond_access_control_manager_peer_is_allowed_to_use_identity d peer owner acl \<longleftrightarrow>
        (\<exists>a. a \<in> set acl \<and> gsignond_security_context_check a peer)) \<and>
     (gsignond_access_control_manager_peer_is_allowed_to_use_identity t peer owner acl \<longleftrightarrow>
        (\<exists>a. a \<in> set acl \<and> gsignond_security_context_check a peer) \<and>
        smack (map_option sys_ctx peer) (map_option sys_ctx owner) ''x'' = 1) \<and>
     \<not> gsignond_access_control_manager_peer_is_allowed_to_use_identity d peer owner [] \<and>
     \<not> gsignond_access_control_manager_peer_is_allowed_to_use_identity t peer owner [] \<and>
     (gsignond_access_control_manager_peer_is_owner_of_identity d peer (Some c) \<longleftrightarrow>
        gsignond_security_context_check (Some c) peer) \<and>
     (gsignond_access_control_manager_peer_is_owner_of_identity t peer (Some c) \<longleftrightarrow> peer = Some c)"
  unfolding d_def t_def
  using default_policy.empty_acl_denies tizen_policy.empty_acl_denies
  by (auto simp: acm_wrappers default_acm_def tizen_acm_def peer_is_allowed_iff tizen_acl_loop_iff
      peer_is_owner_of_identity_def secord.cmp_eq gsignond_security_context_get_system_context_def
      extension_tizen_access_control_manager_peer_is_allowed_to_use_identity_def
      extension_tizen_access_control_manager_peer_is_owner_of_identity_def)

text \<open>
  A peer without a usable identification ends with the empty system context, under either manager.
  On Tizen that includes every peer known by its bus name: the reply is a tuple, and reading a tuple
  as a string gives NULL.
\<close>

lemma unidentified_peer_context:
  "security_context_of_peer peercred service_pid readlink c (-1) None app =
     \<lparr>sys_ctx = '''', app_ctx = (case app of Some a \<Rightarrow> a | None \<Rightarrow> '''')\<rparr>"
  "extension_tizen_access_control_manager_security_context_of_peer label_of_fd
       (\<lambda>_. Some (VTuple [VString label])) c (-1) (Some service) app =
     \<lparr>sys_ctx = '''', app_ctx = (case app of Some a \<Rightarrow> a | None \<Rightarrow> '''')\<rparr>"
  by (cases c; simp add: security_context_of_peer_def
      extension_tizen_access_control_manager_security_context_of_peer_def secctx_defs Let_def)+

end
