(* ===== verification/Gsso_Auth_Session.thy ===== *)
theory Gsso_Auth_Session
  imports Gsso_Plugin_Proxy Gsso_Identity_Info Gsso_Access_Control
begin

text \<open>
  \<^verbatim>\<open>src/src/daemon/gsignond-auth-session.c\<close>: the sessions of one method, which share a plugin
  proxy. The state is the proxy, the sessions by their number, and the heap of the process
  data (\<^verbatim>\<open>_ProcessData\<close>) that the code allocates per request and frees when it notifies the answer.

  The notifications a proxy call appended to its log are delivered to the sessions right after the
  call, in order; they do not touch the proxy. Using process data that is no longer on the heap is
  the fault \<open>Use_after_free\<close>; cancelling a queued session is \<open>Queue_corrupted\<close>.

  \<open>mechs\<close> is the \<^verbatim>\<open>mechanisms\<close> property of the proxy, what the plugin process reports.
\<close>

record process_callbacks =
  ready_cb :: bool
  state_change_cb :: bool
  cb_userdata :: nat

record auth_session =
  as_method :: string
  available_mechanisms :: "gsequence option"
  as_identity_info :: identity_info
  token_data :: dictionary

datatype client_event =
    Ready_result dictionary nat
  | Ready_error gerror nat
  | State_change plugin_state string nat
  | Sig_process_store session_id dictionary
  | Sig_user_action_required session_id dictionary
  | Sig_refreshed session_id dictionary
  | Sig_process_canceled session_id

datatype fault = Queue_corrupted | Use_after_free | No_session

record auth_world =
  w_proxy :: plugin_proxy
  w_sessions :: "(session_id \<times> auth_session) list"
  w_heap :: "(userdata \<times> process_callbacks) list"
  w_next :: userdata
  w_out :: "client_event list"

definition tell :: "client_event \<Rightarrow> auth_world \<Rightarrow> auth_world" where
  "tell e w = w\<lparr>w_out := w_out w @ [e]\<rparr>"

subsection \<open>Mechanisms\<close>

text \<open>\<^verbatim>\<open>g_sequence_lookup\<close> searches a sorted sequence, as the sequences here are, for an equal item.\<close>

definition g_sequence_lookup :: "gsequence \<Rightarrow> string \<Rightarrow> bool" where
  "g_sequence_lookup seq item = (item \<in> set seq)"

fun insert_mechanisms :: "(string \<Rightarrow> bool) \<Rightarrow> string list \<Rightarrow> gsequence \<Rightarrow> gsequence" where
  "insert_mechanisms keep [] seq = seq"
| "insert_mechanisms keep (m # ms) seq =
     insert_mechanisms keep ms (if keep m then insert_sorted strcmp m seq else seq)"

definition create_mechanism_cache :: "string list option \<Rightarrow> auth_session \<Rightarrow> auth_session" where
  "create_mechanism_cache mechs self =
     (if available_mechanisms self \<noteq> None then self
      else
        let self = self\<lparr>available_mechanisms := Some []\<rparr>;
            info = as_identity_info self;
            fill = (\<lambda>allowed. case mechs of
                None \<Rightarrow> self
              | Some ms \<Rightarrow>
                  self\<lparr>available_mechanisms := Some (insert_mechanisms
                    (case allowed of None \<Rightarrow> (\<lambda>m. True)
                     | Some al \<Rightarrow> (if g_sequence_lookup al ''*'' then (\<lambda>m. True) else g_sequence_lookup al))
                    ms [])\<rparr>)
        in if \<not> gsignond_identity_info_get_is_identity_new info then
             (case gsignond_identity_info_get_mechanisms info (as_method self) of
                None \<Rightarrow> self
              | Some allowed \<Rightarrow> fill (Some allowed))
           else fill None)"

definition validate_x_access :: "acm \<Rightarrow> identity_info \<Rightarrow> security_context option \<Rightarrow> bool" where
  "validate_x_access m info ctx =
     gsignond_access_control_manager_peer_is_allowed_to_use_identity m ctx
       (gsignond_identity_info_get_owner info) (gsignond_identity_info_get_access_control_list info)"

definition permission_denied :: gerror where
  "permission_denied = gsignond_get_gerror_for_id GSIGNOND_ERROR_PERMISSION_DENIED ''Can not access identity''"

definition the_mechanisms :: "auth_session \<Rightarrow> gsequence" where
  "the_mechanisms self = (case available_mechanisms self of Some seq \<Rightarrow> seq | None \<Rightarrow> [])"

text \<open>
  The loop over the wanted mechanisms writes what it finds to an array with a slot for each
  available mechanism and one for the terminating NULL; \<open>None\<close>: it writes past the end.
\<close>

fun copy_mechanisms :: "gsequence \<Rightarrow> nat \<Rightarrow> string list \<Rightarrow> string list option" where
  "copy_mechanisms seq slots [] = (if slots = 0 then None else Some [])"
| "copy_mechanisms seq slots (m # ms) =
     (if g_sequence_lookup seq m then
        (if slots = 0 then None else map_option ((#) m) (copy_mechanisms seq (slots - 1) ms))
      else copy_mechanisms seq slots ms)"

definition gsignond_auth_session_query_available_mechanisms ::
  "acm \<Rightarrow> string list option \<Rightarrow> auth_session \<Rightarrow> string list \<Rightarrow> security_context option \<Rightarrow>
   ((gerror + string list) \<times> auth_session) option" where
  "gsignond_auth_session_query_available_mechanisms m mechs self wanted_mechanisms ctx =
     (if \<not> validate_x_access m (as_identity_info self) ctx then Some (Inl permission_denied, self)
      else
        let self = create_mechanism_cache mechs self;
            available = the_mechanisms self
        in map_option (\<lambda>mechanisms. (Inr mechanisms, self))
             (copy_mechanisms available (length available + 1) wanted_mechanisms))"

subsection \<open>Notifications\<close>

definition gsignond_auth_session_notify_process_result ::
  "dictionary \<Rightarrow> userdata \<Rightarrow> auth_world \<Rightarrow> fault + auth_world" where
  "gsignond_auth_session_notify_process_result result userdata w =
     (if userdata = 0 then Inr w
      else case map_of (w_heap w) userdata of
        None \<Rightarrow> Inl Use_after_free
      | Some data \<Rightarrow>
          let w = (if ready_cb data then tell (Ready_result result (cb_userdata data)) w else w)
          in Inr (w\<lparr>w_heap := AList.delete userdata (w_heap w)\<rparr>))"

definition gsignond_auth_session_notify_process_error ::
  "gerror \<Rightarrow> userdata \<Rightarrow> auth_world \<Rightarrow> fault + auth_world" where
  "gsignond_auth_session_notify_process_error error userdata w =
     (if userdata = 0 then Inr w
      else case map_of (w_heap w) userdata of
        None \<Rightarrow> Inl Use_after_free
      | Some data \<Rightarrow>
          let w = (if ready_cb data then tell (Ready_error error (cb_userdata data)) w else w)
          in Inr (w\<lparr>w_heap := AList.delete userdata (w_heap w)\<rparr>))"

definition gsignond_auth_session_notify_state_changed ::
  "plugin_state \<Rightarrow> string \<Rightarrow> userdata \<Rightarrow> auth_world \<Rightarrow> fault + auth_world" where
  "gsignond_auth_session_notify_state_changed state message userdata w =
     (if userdata = 0 then Inr w
      else case map_of (w_heap w) userdata of
        None \<Rightarrow> Inl Use_after_free
      | Some data \<Rightarrow>
          Inr (if state_change_cb data then tell (State_change state message (cb_userdata data)) w else w))"

definition gsignond_auth_session_notify_store ::
  "session_id \<Rightarrow> dictionary \<Rightarrow> auth_world \<Rightarrow> fault + auth_world" where
  "gsignond_auth_session_notify_store s new_data w =
     (case map_of (w_sessions w) s of
        None \<Rightarrow> Inl No_session
      | Some self \<Rightarrow>
          Inr (tell (Sig_process_store s new_data)
            (w\<lparr>w_sessions := AList.update s (self\<lparr>token_data := new_data\<rparr>) (w_sessions w)\<rparr>)))"

definition gsignond_auth_session_notify_user_action_required ::
  "session_id \<Rightarrow> dictionary \<Rightarrow> auth_world \<Rightarrow> fault + auth_world" where
  "gsignond_auth_session_notify_user_action_required s ui_data w = Inr (tell (Sig_user_action_required s ui_data) w)"

definition gsignond_auth_session_notify_refreshed ::
  "session_id \<Rightarrow> dictionary \<Rightarrow> auth_world \<Rightarrow> fault + auth_world" where
  "gsignond_auth_session_notify_refreshed s ui_data w = Inr (tell (Sig_refreshed s ui_data) w)"

fun notify :: "proxy_event \<Rightarrow> auth_world \<Rightarrow> fault + auth_world" where
  "notify (Notify_state_changed s st m u) w = gsignond_auth_session_notify_state_changed st m u w"
| "notify (Notify_process_result s d u) w = gsignond_auth_session_notify_process_result d u w"
| "notify (Notify_process_error s e u) w = gsignond_auth_session_notify_process_error e u w"
| "notify (Notify_store s d) w = gsignond_auth_session_notify_store s d w"
| "notify (Notify_refreshed s d) w = gsignond_auth_session_notify_refreshed s d w"
| "notify (Notify_user_action_required s d) w = gsignond_auth_session_notify_user_action_required s d w"
| "notify _ w = Inr w"

fun deliver :: "proxy_event list \<Rightarrow> auth_world \<Rightarrow> fault + auth_world" where
  "deliver [] w = Inr w"
| "deliver (e # es) w = (case notify e w of Inl f \<Rightarrow> Inl f | Inr w' \<Rightarrow> deliver es w')"

text \<open>A call of the proxy, with the notifications it makes.\<close>

definition with_proxy :: "(plugin_proxy \<Rightarrow> plugin_proxy option) \<Rightarrow> auth_world \<Rightarrow> fault + auth_world" where
  "with_proxy f w =
     (case f (w_proxy w) of
        None \<Rightarrow> Inl Queue_corrupted
      | Some p \<Rightarrow> deliver (drop (length (log (w_proxy w))) (log p)) (w\<lparr>w_proxy := p\<rparr>))"

subsection \<open>Requests\<close>

text \<open>What the session fills into the data of a request from its identity.\<close>

definition fill_session_data :: "identity_info \<Rightarrow> dictionary \<Rightarrow> dictionary" where
  "fill_session_data info session_data =
     (let session_data =
            (if gsignond_session_data_get_username session_data = None then
               (case gsignond_identity_info_get_username info of
                  None \<Rightarrow> session_data
                | Some username \<Rightarrow> gsignond_session_data_set_username session_data (Some username))
             else session_data);
          session_data =
            (if gsignond_session_data_get_secret session_data = None then
               (case gsignond_identity_info_get_secret info of
                  None \<Rightarrow> session_data
                | Some secret \<Rightarrow> gsignond_session_data_set_secret session_data (Some secret))
             else session_data)
      in case gsignond_identity_info_get_realms info of
           None \<Rightarrow> session_data
         | Some realms \<Rightarrow> gsignond_session_data_set_allowed_realms session_data (Some realms))"

definition gsignond_auth_session_process ::
  "acm \<Rightarrow> string list option \<Rightarrow> session_id \<Rightarrow> dictionary \<Rightarrow> string \<Rightarrow> security_context option \<Rightarrow>
   process_callbacks \<Rightarrow> auth_world \<Rightarrow> fault + (gerror + unit) \<times> auth_world" where
  "gsignond_auth_session_process m mechs s session_data mechanism ctx callbacks w =
     (case map_of (w_sessions w) s of
        None \<Rightarrow> Inr (Inl (gsignond_get_gerror_for_id GSIGNOND_ERROR_UNKNOWN ''Unknown error''), w)
      | Some self \<Rightarrow>
          if \<not> validate_x_access m (as_identity_info self) ctx then Inr (Inl permission_denied, w)
          else
            let self = create_mechanism_cache mechs self;
                w = w\<lparr>w_sessions := AList.update s self (w_sessions w)\<rparr>
            in if \<not> g_sequence_lookup (the_mechanisms self) mechanism then
                 Inr (Inl (gsignond_get_gerror_for_id GSIGNOND_ERROR_MECHANISM_NOT_AVAILABLE
                       ''Mechanism is not available''), w)
               else
                 let session_data = fill_session_data (as_identity_info self) session_data;
                     data = w_next w;
                     w = w\<lparr>w_heap := (data, callbacks) # w_heap w, w_next := w_next w + 1\<rparr>
                 in case with_proxy (Some \<circ> gsignond_plugin_proxy_process s session_data
                           (Some (token_data self)) (Some mechanism) data) w of
                      Inl f \<Rightarrow> Inl f
                    | Inr w \<Rightarrow> Inr (Inr (), w))"

definition gsignond_auth_session_cancel ::
  "acm \<Rightarrow> session_id \<Rightarrow> security_context option \<Rightarrow> auth_world \<Rightarrow> fault + (gerror + unit) \<times> auth_world" where
  "gsignond_auth_session_cancel m s ctx w =
     (case map_of (w_sessions w) s of
        None \<Rightarrow> Inr (Inl (gsignond_get_gerror_for_id GSIGNOND_ERROR_UNKNOWN ''Unknown error''), w)
      | Some self \<Rightarrow>
          if \<not> validate_x_access m (as_identity_info self) ctx then Inr (Inl permission_denied, w)
          else case with_proxy (gsignond_plugin_proxy_cancel s) w of
            Inl f \<Rightarrow> Inl f
          | Inr w \<Rightarrow> Inr (Inr (), tell (Sig_process_canceled s) w))"

definition gsignond_auth_session_abort_process :: "session_id \<Rightarrow> auth_world \<Rightarrow> fault + auth_world" where
  "gsignond_auth_session_abort_process s w =
     (case with_proxy (gsignond_plugin_proxy_cancel s) w of
        Inl f \<Rightarrow> Inl f
      | Inr w \<Rightarrow> Inr (tell (Sig_process_canceled s) w))"

definition gsignond_auth_session_user_action_finished :: "dictionary \<Rightarrow> auth_world \<Rightarrow> fault + auth_world" where
  "gsignond_auth_session_user_action_finished ui_data w =
     with_proxy (Some \<circ> gsignond_plugin_proxy_user_action_finished ui_data) w"

definition gsignond_auth_session_refresh :: "dictionary \<Rightarrow> auth_world \<Rightarrow> fault + auth_world" where
  "gsignond_auth_session_refresh ui_data w = with_proxy (Some \<circ> gsignond_plugin_proxy_refresh ui_data) w"

definition gsignond_auth_session_get_method :: "auth_session \<Rightarrow> string" where
  "gsignond_auth_session_get_method session = as_method session"

definition gsignond_auth_session_get_token_data :: "auth_session \<Rightarrow> dictionary" where
  "gsignond_auth_session_get_token_data session = token_data session"

text \<open>\<open>proxy\<close>: what the factory returns for the method; the session takes a reference of the info.\<close>

definition gsignond_auth_session_new ::
  "bool \<Rightarrow> identity_info \<Rightarrow> cstr \<Rightarrow> dictionary option \<Rightarrow> (identity_info \<times> auth_session) option" where
  "gsignond_auth_session_new proxy info method new_data =
     (case method of
        None \<Rightarrow> None
      | Some m \<Rightarrow>
          if \<not> proxy then None
          else
            let info = gsignond_identity_info_ref info
            in Some (info, \<lparr>as_method = m, available_mechanisms = None, as_identity_info = info,
                 token_data = (case new_data of Some d \<Rightarrow> d | None \<Rightarrow> gsignond_dictionary_new)\<rparr>))"

subsection \<open>Mechanisms: what a session may use\<close>

lemma insert_mechanisms_mset:
  "mset (insert_mechanisms keep ms seq) = mset (filter keep ms) + mset seq"
  by (induction ms arbitrary: seq) auto

lemma insert_mechanisms_set: "set (insert_mechanisms keep ms seq) = {m \<in> set ms. keep m} \<union> set seq"
  by (induction ms arbitrary: seq) auto

lemma insert_mechanisms_sorted: "sorted_cmp strcmp seq \<Longrightarrow> sorted_cmp strcmp (insert_mechanisms keep ms seq)"
  by (induction ms arbitrary: seq) (auto intro: strord.sorted_insert)

lemma sorted_mechanisms_Nil [simp]: "sorted_cmp strcmp []"
  by (simp add: sorted_cmp_def)

lemma sorted_mechanisms [simp]: "sorted_cmp strcmp (insert_mechanisms keep ms [])"
  by (rule insert_mechanisms_sorted) simp

lemma lookup_fun: "g_sequence_lookup seq = (\<lambda>m. m \<in> set seq)"
  by (simp add: g_sequence_lookup_def fun_eq_iff)

text \<open>The mechanisms that the identity allows for the method of the session.\<close>

definition mechanism_allowed :: "auth_session \<Rightarrow> string \<Rightarrow> bool" where
  "mechanism_allowed self m \<longleftrightarrow>
     gsignond_identity_info_get_is_identity_new (as_identity_info self) \<or>
     (case gsignond_identity_info_get_mechanisms (as_identity_info self) (as_method self) of
        None \<Rightarrow> False | Some al \<Rightarrow> ''*'' \<in> set al \<or> m \<in> set al)"

lemma mechanism_cache_fresh:
  assumes "available_mechanisms self = None"
  shows "mset (the_mechanisms (create_mechanism_cache mechs self)) =
      mset (filter (mechanism_allowed self) (case mechs of None \<Rightarrow> [] | Some ms \<Rightarrow> ms)) \<and>
    sorted_cmp strcmp (the_mechanisms (create_mechanism_cache mechs self))"
  using assms
  by (auto simp: create_mechanism_cache_def the_mechanisms_def mechanism_allowed_def Let_def
      lookup_fun insert_mechanisms_mset split: option.splits)

lemma mechanism_cache_keeps:
  "available_mechanisms self \<noteq> None \<Longrightarrow> create_mechanism_cache mechs self = self"
  "as_identity_info (create_mechanism_cache mechs self) = as_identity_info self"
  "as_method (create_mechanism_cache mechs self) = as_method self"
  "token_data (create_mechanism_cache mechs self) = token_data self"
  "available_mechanisms (create_mechanism_cache mechs self) \<noteq> None"
  by (auto simp: create_mechanism_cache_def Let_def split: option.split)

lemma copy_mechanisms_eq:
  "copy_mechanisms seq slots wanted =
     (if length (filter (g_sequence_lookup seq) wanted) < slots
      then Some (filter (g_sequence_lookup seq) wanted) else None)"
  by (induction seq slots wanted rule: copy_mechanisms.induct) auto

text \<open>
  C10. The mechanisms of a session: the first query computes exactly the plugin's mechanisms that
  the identity allows for the method (all for a new identity or a wildcard entry, none when the
  method is not listed), sorted; later calls keep them; and a query that passes the access check
  answers the wanted mechanisms that are among them, in the order they were asked for. The query
  writes past the end of its array exactly when it asks for the allowed mechanisms, counting
  repetitions, more often than there are mechanisms.
\<close>

theorem session_mechanisms_allowed:
  assumes "available_mechanisms self = None"
    and "validate_x_access m (as_identity_info self) ctx"
  shows "case gsignond_auth_session_query_available_mechanisms m (Some ms) self wanted ctx of
     None \<Rightarrow> length (filter (mechanism_allowed self) ms) <
         length (filter (\<lambda>x. x \<in> set ms \<and> mechanism_allowed self x) wanted)
   | Some (r, self') \<Rightarrow>
       length (filter (\<lambda>x. x \<in> set ms \<and> mechanism_allowed self x) wanted) \<le>
         length (filter (mechanism_allowed self) ms) \<and>
       r = Inr (filter (\<lambda>x. x \<in> set ms \<and> mechanism_allowed self x) wanted) \<and>
       mset (the_mechanisms self') = mset (filter (mechanism_allowed self) ms) \<and>
       sorted_cmp strcmp (the_mechanisms self') \<and> create_mechanism_cache mechs' self' = self'"
proof -
  let ?self' = "create_mechanism_cache (Some ms) self"
  have cache: "mset (the_mechanisms ?self') = mset (filter (mechanism_allowed self) ms)"
      "sorted_cmp strcmp (the_mechanisms ?self')"
    using mechanism_cache_fresh [OF assms(1), of "Some ms"] by simp_all
  have "set (the_mechanisms ?self') = set (filter (mechanism_allowed self) ms)"
    using cache(1) by (metis set_mset_mset)
  then have "g_sequence_lookup (the_mechanisms ?self') = (\<lambda>x. x \<in> set ms \<and> mechanism_allowed self x)"
    by (auto simp: lookup_fun)
  moreover have "length (the_mechanisms ?self') = length (filter (mechanism_allowed self) ms)"
    using cache(1) by (metis size_mset)
  ultimately show ?thesis
    using assms(2) cache mechanism_cache_keeps(1) [OF mechanism_cache_keeps(5)]
    by (simp add: gsignond_auth_session_query_available_mechanisms_def Let_def copy_mechanisms_eq)
qed

definition example_session :: auth_session where
  "example_session = \<lparr>as_method = ''oauth'', available_mechanisms = None,
     as_identity_info = snd (gsignond_identity_info_set_access_control_list gsignond_identity_info_new
       [\<lparr>sys_ctx = ''*'', app_ctx = ''''\<rparr>]), token_data = []\<rparr>"

definition example_acm :: acm where
  "example_acm = default_acm (\<lambda>_. None) (\<lambda>_. None) (\<lambda>_. None) None None None"

lemmas example_access_simps =
  validate_x_access_def example_session_def example_acm_def default_acm_def acm_wrappers
  info_new_eq gsignond_identity_info_set_access_control_list_def info_set_entry_simps
  gsignond_identity_info_get_access_control_list_def gsignond_security_context_list_to_variant_def
  gsignond_security_context_list_from_variant_def check_Some

lemma example_access: "validate_x_access example_acm (as_identity_info example_session) (Some c)"
  by (simp add: example_access_simps Let_def update_conv')

lemma example_identity_new: "gsignond_identity_info_get_is_identity_new (as_identity_info example_session)"
  by (simp add: example_session_def info_new_eq
      gsignond_identity_info_get_is_identity_new_def gsignond_identity_info_get_id_def
      gsignond_identity_info_set_access_control_list_def info_set_entry_simps Let_def
      gsignond_security_context_list_to_variant_def GSIGNOND_IDENTITY_INFO_NEW_IDENTITY_def)

lemma example_mechanism_allowed: "mechanism_allowed example_session x"
  by (simp add: mechanism_allowed_def example_identity_new)

text \<open>Of two available mechanisms one is asked for; and asked for three times.\<close>

theorem session_mechanisms_allowed_witness:
  "(case gsignond_auth_session_query_available_mechanisms example_acm (Some [''web'', ''pw'']) example_session
      [''pw'', ''none''] (Some \<lparr>sys_ctx = ''s'', app_ctx = ''a''\<rparr>) of
    None \<Rightarrow> False | Some (r, self') \<Rightarrow> r = Inr [''pw'']) \<and>
   gsignond_auth_session_query_available_mechanisms example_acm (Some [''web'', ''pw'']) example_session
      [''pw'', ''pw'', ''pw''] (Some \<lparr>sys_ctx = ''s'', app_ctx = ''a''\<rparr>) = None"
proof -
  have "available_mechanisms example_session = None"
    by (simp add: example_session_def)
  note query = session_mechanisms_allowed [OF this example_access [of "\<lparr>sys_ctx = ''s'', app_ctx = ''a''\<rparr>"],
      where ms = "[''web'', ''pw'']" and mechs' = None]
  show ?thesis
    using query [of "[''pw'', ''none'']"] query [of "[''pw'', ''pw'', ''pw'']"]
    by (intro conjI) (auto simp: example_mechanism_allowed split: option.split_asm option.split)
qed

subsection \<open>What the plugin is given\<close>

lemma session_secret_after_username:
  "gsignond_session_data_get_secret (gsignond_session_data_set_username d u) = gsignond_session_data_get_secret d"
  by (rule session_secret.get_local) (simp add: session_username.set_other)

lemma session_username_after_secret:
  "gsignond_session_data_get_username (gsignond_session_data_set_secret d u) = gsignond_session_data_get_username d"
  by (rule session_username.get_local) (simp add: session_secret.set_other)

lemma session_after_realms:
  "gsignond_session_data_get_username (gsignond_session_data_set_allowed_realms d r) = gsignond_session_data_get_username d"
  "gsignond_session_data_get_secret (gsignond_session_data_set_allowed_realms d r) = gsignond_session_data_get_secret d"
  by (rule session_username.get_local session_secret.get_local; simp add: session_realms_set_other)+

lemma fill_keys: "k \<notin> {''UserName'', ''Secret'', ''AllowedRealms''} \<Longrightarrow>
    gsignond_dictionary_get (fill_session_data info d) k = gsignond_dictionary_get d k"
  by (simp add: fill_session_data_def Let_def session_realms_set_other session_username.set_other
      session_secret.set_other split: option.split)

lemma realms_sorted: "gsignond_identity_info_get_realms info = Some r \<Longrightarrow> sort_cmp strcmp r = r"
  by (auto simp: gsignond_identity_info_get_realms_def
      simp del: gsignond_variant_to_sequence.simps
      intro!: strord.sort_sorted_id dest: variant_to_sequence_sorted split: option.splits)



subsection \<open>The life of the process data\<close>

datatype session_input =
    S_process session_id dictionary string "security_context option" process_callbacks
  | S_cancel session_id "security_context option"
  | S_abort session_id
  | S_user_action_finished dictionary
  | S_refresh dictionary
  | S_response_final dictionary
  | S_store dictionary
  | S_refreshed dictionary
  | S_user_action_required dictionary
  | S_error gerror
  | S_status_changed plugin_state string

text \<open>
  A step of the sessions of a plugin that answers every request at once, with its final response or
  an error.
\<close>

fun session_step :: "acm \<Rightarrow> string list option \<Rightarrow> session_input \<Rightarrow> auth_world \<Rightarrow> fault + auth_world" where
  "session_step m mechs (S_process s d mech ctx cb) w =
     map_sum id snd (gsignond_auth_session_process m mechs s d mech ctx cb w)"
| "session_step m mechs (S_cancel s ctx) w = map_sum id snd (gsignond_auth_session_cancel m s ctx w)"
| "session_step m mechs (S_abort s) w = gsignond_auth_session_abort_process s w"
| "session_step m mechs (S_user_action_finished d) w = gsignond_auth_session_user_action_finished d w"
| "session_step m mechs (S_refresh d) w = gsignond_auth_session_refresh d w"
| "session_step m mechs (S_response_final d) w = with_proxy (Some \<circ> gsignond_plugin_proxy_response_final_callback d) w"
| "session_step m mechs (S_store d) w = with_proxy (Some \<circ> gsignond_plugin_proxy_store_callback d) w"
| "session_step m mechs (S_refreshed d) w = with_proxy (Some \<circ> gsignond_plugin_proxy_refreshed_callback d) w"
| "session_step m mechs (S_user_action_required d) w =
     with_proxy (Some \<circ> gsignond_plugin_proxy_user_action_required_callback d) w"
| "session_step m mechs (S_error e) w = with_proxy (Some \<circ> gsignond_plugin_proxy_error_callback e) w"
| "session_step m mechs (S_status_changed st msg) w =
     with_proxy (Some \<circ> gsignond_plugin_proxy_status_changed_callback st msg) w"

fun session_run :: "acm \<Rightarrow> string list option \<Rightarrow> session_input list \<Rightarrow> auth_world \<Rightarrow> fault + auth_world" where
  "session_run m mechs [] w = Inr w"
| "session_run m mechs (i # ins) w =
     (case session_step m mechs i w of Inl f \<Rightarrow> Inl f | Inr w' \<Rightarrow> session_run m mechs ins w')"

text \<open>
  The invariant: the proxy serves a queue of jobs none of which waits for a further request, and
  the heap holds the process data of exactly the unfinished jobs.
\<close>

definition pending :: "fifo \<Rightarrow> process_data list" where
  "pending f = drop (finished f) (jobs f)"

definition session_inv :: "fifo \<Rightarrow> auth_world \<Rightarrow> bool" where
  "session_inv f w \<longleftrightarrow>
     refines_fifo f (w_proxy w) \<and> \<not> awaiting f \<and>
     distinct (map pd_userdata (pending f)) \<and>
     fst ` set (w_heap w) = pd_userdata ` set (pending f) \<and> keys_distinct (w_heap w) \<and>
     0 < w_next w \<and> (\<forall>j \<in> set (pending f). pd_userdata j < w_next w) \<and>
     (\<forall>j \<in> set (pending f). pd_auth_session j \<in> fst ` set (w_sessions w))"

definition same_core :: "auth_world \<Rightarrow> auth_world \<Rightarrow> bool" where
  "same_core w w' \<longleftrightarrow> w_proxy w' = w_proxy w \<and> fst ` set (w_sessions w') = fst ` set (w_sessions w) \<and>
     w_heap w' = w_heap w \<and> w_next w' = w_next w"

lemma same_core_refl [simp]: "same_core w w"
  by (simp add: same_core_def)

lemma same_core_tell [simp]: "same_core w (tell e w') = same_core w w'" "same_core (tell e w) w' = same_core w w'"
  by (simp_all add: same_core_def tell_def)

lemma session_inv_core: "same_core w w' \<Longrightarrow> session_inv f w \<Longrightarrow> session_inv f w'"
  by (auto simp: same_core_def session_inv_def)

text \<open>Events that free nothing, on a heap that has the process data they use.\<close>

fun quiet :: "auth_world \<Rightarrow> proxy_event \<Rightarrow> bool" where
  "quiet w (Notify_process_result s d u) = (u = 0)"
| "quiet w (Notify_process_error s e u) = (u = 0)"
| "quiet w (Notify_state_changed s st m u) = (u = 0 \<or> u \<in> fst ` set (w_heap w))"
| "quiet w (Notify_store s d) = (s \<in> fst ` set (w_sessions w))"
| "quiet w _ = True"

lemma map_of_SomeI: "k \<in> fst ` set xs \<Longrightarrow> \<exists>v. map_of xs k = Some v"
  by (metis domIff dom_map_of_conv_image_fst not_None_eq)

lemma notify_quiet:
  assumes "quiet w e"
  shows "\<exists>w'. notify e w = Inr w' \<and> same_core w w'"
proof (cases e)
  case (Notify_store s d)
  with assms have s: "s \<in> fst ` set (w_sessions w)" by simp
  then obtain self where "map_of (w_sessions w) s = Some self"
    using map_of_SomeI by metis
  with s Notify_store show ?thesis
    by (simp add: gsignond_auth_session_notify_store_def same_core_def tell_def dom_update insert_absorb)
qed (use assms in \<open>auto simp: gsignond_auth_session_notify_process_result_def same_core_def tell_def
        gsignond_auth_session_notify_process_error_def gsignond_auth_session_notify_state_changed_def
        gsignond_auth_session_notify_refreshed_def
        gsignond_auth_session_notify_user_action_required_def dest!: map_of_SomeI\<close>)

lemma quiet_core: "same_core w w' \<Longrightarrow> quiet w' e = quiet w e"
  by (cases e) (simp_all add: same_core_def)

lemma deliver_quiet: "list_all (quiet w) es \<Longrightarrow> \<exists>w'. deliver es w = Inr w' \<and> same_core w w'"
proof (induction es arbitrary: w)
  case (Cons e es)
  then obtain w1 where 1: "notify e w = Inr w1" "same_core w w1"
    using notify_quiet [of w e] by auto
  with Cons.prems have "list_all (quiet w1) es"
    by (simp add: quiet_core cong: list.pred_cong)
  from Cons.IH [OF this] 1 show ?case
    by (auto simp: same_core_def)
qed simp

lemma quiet_proxy: "quiet (w\<lparr>w_proxy := p\<rparr>) e = quiet w e"
  by (cases e) simp_all

lemma with_proxy_quiet:
  assumes "log (g (w_proxy w)) = log (w_proxy w) @ es" and "list_all (quiet w) es"
  shows "\<exists>w'. with_proxy (Some \<circ> g) w = Inr w' \<and> same_core (w\<lparr>w_proxy := g (w_proxy w)\<rparr>) w'"
proof -
  have "list_all (quiet (w\<lparr>w_proxy := g (w_proxy w)\<rparr>)) es"
    using assms(2) by (rule list.pred_mono_strong) (simp add: quiet_proxy)
  from deliver_quiet [OF this] assms(1) show ?thesis
    by (simp add: with_proxy_def)
qed

lemma inv_quiet:
  assumes inv: "session_inv f w" and log: "log (g (w_proxy w)) = log (w_proxy w) @ es"
    and q: "list_all (quiet w) es" and R: "refines_fifo f (g (w_proxy w))"
  shows "\<exists>w'. with_proxy (Some \<circ> g) w = Inr w' \<and> session_inv f w'"
proof -
  obtain w' where w': "with_proxy (Some \<circ> g) w = Inr w'" "same_core (w\<lparr>w_proxy := g (w_proxy w)\<rparr>) w'"
    using with_proxy_quiet [of g, OF log q] by blast
  moreover have "session_inv f (w\<lparr>w_proxy := g (w_proxy w)\<rparr>)"
    using inv R by (simp add: session_inv_def)
  ultimately show ?thesis
    using session_inv_core by blast
qed

lemma pending_cases:
  assumes "refines_fifo f p"
  obtains (idle) "pending f = []" "active_session p = None" "session_queue p = []"
  | (busy) j js where "pending f = j # js" "active_session p = Some (pd_auth_session j)"
      "active_process_userdata p = pd_userdata j" "session_queue p = js" "expecting_request p = awaiting f"
      "current_job f = Some j" "plugin p"
  using assms
  by (cases "pending f") (auto simp: refines_fifo_def pending_def current_job_drop)

lemma heap_of_pending: "session_inv f w \<Longrightarrow> j \<in> set (pending f) \<Longrightarrow> pd_userdata j \<in> fst ` set (w_heap w)"
  by (simp add: session_inv_def)

text \<open>Signals and calls that neither add nor finish a job.\<close>

lemma inv_emit:
  assumes inv: "session_inv f w" and q: "quiet w e" "\<not> is_initial e" "event_answer e = None"
    and g: "g = id \<or> g = emit e \<or> g = call_plugin e"
  shows "\<exists>w'. with_proxy (Some \<circ> g) w = Inr w' \<and> session_inv f w'"
proof -
  have R: "refines_fifo f (w_proxy w)" using inv by (simp add: session_inv_def)
  obtain es where "log (g (w_proxy w)) = log (w_proxy w) @ es" "list_all (quiet w) es"
    using g q(1) that [of "[]"] that [of "[e]"]
    by (cases "plugin (w_proxy w)") (auto simp: emit_def call_plugin_def)
  moreover have "refines_fifo f (g (w_proxy w))"
    using g R refines_quiet [OF R q(2,3)] by auto
  ultimately show ?thesis by (rule inv_quiet [OF inv])
qed

lemma with_proxy_cong: "g (w_proxy w) = h (w_proxy w) \<Longrightarrow> with_proxy (Some \<circ> g) w = with_proxy (Some \<circ> h) w"
  by (simp add: with_proxy_def)

lemma inv_signal:
  assumes inv: "session_inv f w"
    and g: "\<And>p. g p = (case active_session p of None \<Rightarrow> p | Some s \<Rightarrow> h (e p s) p)"
    and h: "h = emit \<or> h = call_plugin"
    and q: "\<And>j js. pending f = j # js \<Longrightarrow>
        quiet w (e (w_proxy w) (pd_auth_session j)) \<and> \<not> is_initial (e (w_proxy w) (pd_auth_session j)) \<and>
        event_answer (e (w_proxy w) (pd_auth_session j)) = None"
  shows "\<exists>w'. with_proxy (Some \<circ> g) w = Inr w' \<and> session_inv f w'"
proof -
  have R: "refines_fifo f (w_proxy w)" using inv by (simp add: session_inv_def)
  then show ?thesis
  proof (cases rule: pending_cases)
    case idle
    then have "with_proxy (Some \<circ> g) w = with_proxy (Some \<circ> id) w"
      by (intro with_proxy_cong) (simp add: g)
    then show ?thesis using inv_emit [OF inv, of Plugin_cancel id] by simp
  next
    case (busy j js)
    have "with_proxy (Some \<circ> g) w = with_proxy (Some \<circ> h (e (w_proxy w) (pd_auth_session j))) w"
      by (intro with_proxy_cong) (simp add: g busy)
    then show ?thesis
      using inv_emit [OF inv, of "e (w_proxy w) (pd_auth_session j)"] q [OF busy(1)] h by auto
  qed
qed

text \<open>The answer to the current job.\<close>

lemma fst_set_delete: "fst ` set (AList.delete k al) = fst ` set al - {k}"
  by (induction al) auto

lemma inv_finish:
  assumes inv: "session_inv f w" and p: "pending f = j # js"
    and n: "notify e w1 = Inr w2" "same_core (w\<lparr>w_proxy := p'\<rparr>) w1"
    and w2: "w_proxy w2 = w_proxy w1" "w_sessions w2 = w_sessions w1" "w_next w2 = w_next w1"
      "w_heap w2 = AList.delete (pd_userdata j) (w_heap w1)"
    and R: "refines_fifo f' p'" "\<not> awaiting f'" "pending f' = js"
  shows "session_inv f' w2"
proof -
  have "fst ` set (w_heap w2) = pd_userdata ` set js"
  proof -
    have "fst ` set (w_heap w2) = pd_userdata ` set (j # js) - {pd_userdata j}"
      using inv n(2) w2 p by (simp add: session_inv_def same_core_def fst_set_delete)
    also have "\<dots> = pd_userdata ` set js"
      using inv p by (auto simp: session_inv_def)
    finally show ?thesis .
  qed
  with inv p n(2) w2 R show ?thesis
    by (simp add: session_inv_def same_core_def)
qed
definition start_events :: "plugin_proxy \<Rightarrow> proxy_event list" where
  "start_events p =
     (case session_queue p of
        [] \<Rightarrow> []
      | k # ks \<Rightarrow> Notify_state_changed (pd_auth_session k) GSIGNOND_PLUGIN_STATE_STARTED
                   ''The request is being processed.'' (pd_userdata k) #
                 (if plugin p then [job_request k] else []))"

lemma process_queue_log: "log (gsignond_plugin_proxy_process_queue p) = log p @ start_events p"
  by (simp add: gsignond_plugin_proxy_process_queue_def start_events_def emit_def call_plugin_def
      Let_def job_request_def split: list.split)

lemma inv_answer:
  assumes inv: "session_inv f w"
    and g: "\<And>p. g p = (case active_session p of None \<Rightarrow> p | Some s \<Rightarrow>
       gsignond_plugin_proxy_process_queue
         ((emit (ev s (active_process_userdata p)) p)\<lparr>active_session := None, active_process_userdata := 0\<rparr>))"
    and ev: "(\<exists>d. ev = (\<lambda>s u. Notify_process_result s d u)) \<or> (\<exists>er. ev = (\<lambda>s u. Notify_process_error s er u))"
  shows "\<exists>w' f'. with_proxy (Some \<circ> g) w = Inr w' \<and> session_inv f' w'"
proof -
  have R: "refines_fifo f (w_proxy w)" using inv by (simp add: session_inv_def)
  then show ?thesis
  proof (cases rule: pending_cases)
    case idle
    then have "with_proxy (Some \<circ> g) w = with_proxy (Some \<circ> id) w"
      by (intro with_proxy_cong) (simp add: g)
    then show ?thesis using inv_emit [OF inv, of Plugin_cancel id] by auto
  next
    case (busy j js)
    let ?e = "ev (pd_auth_session j) (pd_userdata j)"
    let ?p = "(emit ?e (w_proxy w))\<lparr>active_session := None, active_process_userdata := 0\<rparr>"
    let ?p' = "gsignond_plugin_proxy_process_queue ?p"
    let ?w1 = "w\<lparr>w_proxy := ?p'\<rparr>"
    have u: "pd_userdata j \<noteq> 0" "pd_userdata j \<in> fst ` set (w_heap w)"
      using refines_active(2) [OF R busy(6)] heap_of_pending [OF inv, of j] busy(1) by auto
    then obtain cb where cb: "map_of (w_heap w) (pd_userdata j) = Some cb"
      using map_of_SomeI by metis
    obtain a where a: "event_answer ?e = Some a" "\<not> is_initial ?e"
      using ev u(1) by auto
    have drop_f: "drop (finished f) (jobs f) = j # js"
      using busy(1) by (simp add: pending_def)
    let ?f' = "f\<lparr>finished := finished f + 1, awaiting := False, answers := answers f @ [a]\<rparr>"
    obtain w2 where w2: "notify ?e ?w1 = Inr w2" "w_proxy w2 = ?p'" "w_sessions w2 = w_sessions w"
        "w_next w2 = w_next w" "w_heap w2 = AList.delete (pd_userdata j) (w_heap w)"
      using ev u(1) cb
      by (cases "ready_cb cb") (auto simp: gsignond_auth_session_notify_process_result_def
          gsignond_auth_session_notify_process_error_def tell_def Let_def)
    have "pending ?f' = js"
      using drop_ConsD(2) [OF drop_f] by (simp add: pending_def)
    then have inv2: "session_inv ?f' w2"
      by (intro inv_finish [OF inv busy(1) w2(1) _ _ _ _ _ refines_finish [OF R drop_f a]])
         (simp_all add: w2)
    have "list_all (quiet w2) (start_events ?p)"
      using heap_of_pending [OF inv2] \<open>pending ?f' = js\<close> busy(4)
      by (simp add: start_events_def emit_def job_request_def split: list.split)
    with deliver_quiet obtain w' where "deliver (start_events ?p) w2 = Inr w'" "same_core w2 w'"
      by blast
    moreover have "g (w_proxy w) = ?p'"
      by (simp add: g busy)
    moreover have "log ?p' = log (w_proxy w) @ ?e # start_events ?p"
      by (simp add: process_queue_log) (simp add: emit_def)
    ultimately show ?thesis
      using session_inv_core [OF _ inv2] w2(1) by (auto simp: with_proxy_def)
  qed
qed

lemma session_data_sessions [simp]:
  "s \<in> fst ` set xs \<Longrightarrow> fst ` set (AList.update s v xs) = fst ` set xs"
  by (simp add: dom_update insert_absorb)

text \<open>A new request: its process data is put on the heap and its job is queued.\<close>

lemma inv_request:
  fixes cb :: process_callbacks
  assumes inv: "session_inv f w" and s: "s \<in> fst ` set (w_sessions w)"
  defines "w1 \<equiv> w\<lparr>w_heap := (w_next w, cb) # w_heap w, w_next := w_next w + 1\<rparr>"
  shows "\<exists>w' f'. with_proxy (Some \<circ> gsignond_plugin_proxy_process s d c mech (w_next w)) w1 = Inr w' \<and>
     session_inv f' w'"
proof -
  let ?u = "w_next w" and ?pd = "gsignond_process_data_new s d c mech (w_next w)"
  let ?p = "w_proxy w" and ?f' = "f\<lparr>jobs := jobs f @ [?pd]\<rparr>"
  let ?p' = "gsignond_plugin_proxy_process s d c mech ?u ?p"
  have R: "refines_fifo f ?p" and aw: "\<not> awaiting f" and pos: "0 < ?u"
    using inv by (simp_all add: session_inv_def)
  have R': "refines_fifo ?f' ?p'"
    using refines_process [OF R, of ?u s d c mech] pos aw by simp
  have pend: "pending ?f' = pending f @ [?pd]"
    using R by (simp add: pending_def refines_fifo_def)
  have pd: "pd_userdata ?pd = ?u" "pd_auth_session ?pd = s"
    by (simp_all add: gsignond_process_data_new_def)
  have fresh: "?u \<notin> pd_userdata ` set (pending f)"
    using inv by (auto simp: session_inv_def)
  have inv1: "session_inv ?f' (w1\<lparr>w_proxy := ?p'\<rparr>)"
    using inv R' aw s fresh
    by (auto simp: session_inv_def w1_def pend pd)
  have "\<exists>es. log ?p' = log ?p @ es \<and> list_all (quiet w1) es"
  proof (rule pending_cases [OF R])
    assume "active_session ?p = None" "session_queue ?p = []"
    then show ?thesis
      by (auto simp: gsignond_plugin_proxy_process_def Let_def process_queue_log emit_def
          start_events_def gsignond_process_data_new_def w1_def job_request_def)
  next
    fix j js assume "active_session ?p = Some (pd_auth_session j)" "expecting_request ?p = awaiting f"
    then show ?thesis
      using aw by (auto simp: gsignond_plugin_proxy_process_def Let_def emit_def w1_def)
  qed
  then obtain es where es: "log ?p' = log ?p @ es" "list_all (quiet w1) es" by blast
  have p1: "w_proxy w1 = ?p" by (simp add: w1_def)
  from with_proxy_quiet [of "gsignond_plugin_proxy_process s d c mech ?u" w1, unfolded p1, OF es]
  show ?thesis
    using session_inv_core [OF _ inv1] by auto
qed

lemma inv_cancel:
  assumes inv: "session_inv f w"
  shows "with_proxy (gsignond_plugin_proxy_cancel s) w = Inl Queue_corrupted \<or>
     (\<exists>w'. with_proxy (gsignond_plugin_proxy_cancel s) w = Inr w' \<and> session_inv f w')"
proof (cases "gsignond_plugin_proxy_cancel s (w_proxy w)")
  case None
  then show ?thesis by (simp add: with_proxy_def)
next
  case (Some p')
  let ?err = "Notify_process_error s
    (gsignond_get_gerror_for_id GSIGNOND_ERROR_WRONG_STATE ''Canceling an unknown session'') 0"
  have "p' = call_plugin Plugin_cancel (w_proxy w) \<or> p' = emit ?err (w_proxy w)"
    using Some by (auto simp: gsignond_plugin_proxy_cancel_def split: if_splits option.splits)
  then obtain g where g: "p' = g (w_proxy w)" "g = call_plugin Plugin_cancel \<or> g = emit ?err" by blast
  have "with_proxy (gsignond_plugin_proxy_cancel s) w = with_proxy (Some \<circ> g) w"
    using Some g(1) by (simp add: with_proxy_def)
  then show ?thesis
    using g(2) inv_emit [OF inv, of Plugin_cancel g] inv_emit [OF inv, of ?err g] by auto
qed
definition safe_result :: "fault + auth_world \<Rightarrow> bool" where
  "safe_result r \<longleftrightarrow> (case r of Inl fl \<Rightarrow> fl = Queue_corrupted | Inr w \<Rightarrow> \<exists>f. session_inv f w)"

lemma safe_result_simps [simp]:
  "safe_result (Inl fl) \<longleftrightarrow> fl = Queue_corrupted" "safe_result (Inr w) \<longleftrightarrow> (\<exists>f. session_inv f w)"
  by (simp_all add: safe_result_def)

lemma process_safe:
  assumes inv: "session_inv f w"
  shows "safe_result (map_sum id snd (gsignond_auth_session_process m mechs s d mech ctx cb w))"
proof (cases "map_of (w_sessions w) s")
  case None
  then show ?thesis using inv by (auto simp: gsignond_auth_session_process_def)
next
  case (Some self)
  then have s: "s \<in> fst ` set (w_sessions w)" by (metis map_of_SomeD image_eqI fst_conv)
  let ?w = "w\<lparr>w_sessions := AList.update s (create_mechanism_cache mechs self) (w_sessions w)\<rparr>"
  have "same_core w ?w" using s by (simp add: same_core_def)
  then have inv1: "session_inv f ?w" using session_inv_core inv by blast
  from inv_request [OF inv1, of s "fill_session_data (as_identity_info self) d" "Some (token_data self)" "Some mech" cb] s
  show ?thesis
    using Some inv inv1 by (auto simp: gsignond_auth_session_process_def Let_def mechanism_cache_keeps)
qed

lemma session_step_safe:
  assumes inv: "session_inv f w"
  shows "safe_result (session_step m mechs i w)"
proof (cases i)
  case (S_process s d mech ctx cb)
  then show ?thesis using process_safe [OF inv] by simp
next
  case (S_cancel s ctx)
  show ?thesis
    using inv_cancel [OF inv, of s] inv session_inv_core [of _ "tell _ _"]
    by (auto simp: S_cancel gsignond_auth_session_cancel_def split: option.split)
       (meson same_core_refl same_core_tell(1) session_inv_core)
next
  case (S_abort s)
  show ?thesis
    using inv_cancel [OF inv, of s]
    by (auto simp: S_abort gsignond_auth_session_abort_process_def)
       (meson same_core_refl same_core_tell(1) session_inv_core)
next
  case (S_user_action_finished d)
  have "gsignond_plugin_proxy_user_action_finished d p = (case active_session p of None \<Rightarrow> p
      | Some s \<Rightarrow> call_plugin (Plugin_user_action_finished d) p)" for p
    by (simp add: gsignond_plugin_proxy_user_action_finished_def split: option.split)
  from inv_signal [OF inv, of "gsignond_plugin_proxy_user_action_finished d" call_plugin
      "\<lambda>_ _. Plugin_user_action_finished d", OF this] show ?thesis
    by (auto simp: S_user_action_finished gsignond_auth_session_user_action_finished_def)
next
  case (S_refresh d)
  have "gsignond_plugin_proxy_refresh d p = (case active_session p of None \<Rightarrow> p
      | Some s \<Rightarrow> call_plugin (Plugin_refresh d) p)" for p
    by (simp add: gsignond_plugin_proxy_refresh_def split: option.split)
  from inv_signal [OF inv, of "gsignond_plugin_proxy_refresh d" call_plugin
      "\<lambda>_ _. Plugin_refresh d", OF this] show ?thesis
    by (auto simp: S_refresh gsignond_auth_session_refresh_def)
next
  case (S_response_final d)
  have g: "gsignond_plugin_proxy_response_final_callback d p = (case active_session p of None \<Rightarrow> p
      | Some s \<Rightarrow> gsignond_plugin_proxy_process_queue
          ((emit (Notify_process_result s d (active_process_userdata p)) p)
             \<lparr>active_session := None, active_process_userdata := 0\<rparr>))" for p
    by (simp add: gsignond_plugin_proxy_response_final_callback_def Let_def split: option.split)
  have "\<exists>w' f'. with_proxy (Some \<circ> gsignond_plugin_proxy_response_final_callback d) w = Inr w' \<and> session_inv f' w'"
    by (rule inv_answer [OF inv, of _ "\<lambda>s u. Notify_process_result s d u", OF g]) blast
  then show ?thesis by (auto simp: S_response_final)
next
  case (S_error e)
  have g: "gsignond_plugin_proxy_error_callback e p = (case active_session p of None \<Rightarrow> p
      | Some s \<Rightarrow> gsignond_plugin_proxy_process_queue
          ((emit (Notify_process_error s e (active_process_userdata p)) p)
             \<lparr>active_session := None, active_process_userdata := 0\<rparr>))" for p
    by (simp add: gsignond_plugin_proxy_error_callback_def Let_def split: option.split)
  have "\<exists>w' f'. with_proxy (Some \<circ> gsignond_plugin_proxy_error_callback e) w = Inr w' \<and> session_inv f' w'"
    by (rule inv_answer [OF inv, of _ "\<lambda>s u. Notify_process_error s e u", OF g]) blast
  then show ?thesis by (auto simp: S_error)
next
  case (S_store d)
  show ?thesis
    using inv_signal [OF inv, of "gsignond_plugin_proxy_store_callback d" emit "\<lambda>_ s. Notify_store s d"] inv
    by (auto simp: S_store gsignond_plugin_proxy_store_callback_def session_inv_def)
next
  case (S_refreshed d)
  show ?thesis
    using inv_signal [OF inv, of "gsignond_plugin_proxy_refreshed_callback d" emit "\<lambda>_ s. Notify_refreshed s d"]
    by (auto simp: S_refreshed gsignond_plugin_proxy_refreshed_callback_def)
next
  case (S_user_action_required d)
  show ?thesis
    using inv_signal [OF inv, of "gsignond_plugin_proxy_user_action_required_callback d" emit
        "\<lambda>_ s. Notify_user_action_required s d"]
    by (auto simp: S_user_action_required gsignond_plugin_proxy_user_action_required_callback_def)
next
  case (S_status_changed st msg)
  have "active_process_userdata (w_proxy w) \<in> fst ` set (w_heap w)" if "pending f = j # js" for j js
    using inv that heap_of_pending [OF inv, of j]
    by (auto simp: session_inv_def refines_fifo_def pending_def)
  then show ?thesis
    using inv_signal [OF inv, of "gsignond_plugin_proxy_status_changed_callback st msg" emit
        "\<lambda>p s. Notify_state_changed s st msg (active_process_userdata p)"]
    by (auto simp: S_status_changed gsignond_plugin_proxy_status_changed_callback_def)
qed

lemma session_run_safe: "session_inv f w \<Longrightarrow> safe_result (session_run m mechs ins w)"
proof (induction ins arbitrary: f w)
  case (Cons i ins)
  from session_step_safe [OF Cons.prems, of m mechs i] show ?case
    by (auto split: sum.split intro: Cons.IH)
qed auto

definition auth_world_new :: "plugin_proxy \<Rightarrow> (session_id \<times> auth_session) list \<Rightarrow> auth_world" where
  "auth_world_new p sessions = \<lparr>w_proxy = p, w_sessions = sessions, w_heap = [], w_next = 1, w_out = []\<rparr>"

lemma auth_world_new_inv:
  "gsignond_plugin_proxy_new remote loader type = Some p \<Longrightarrow> session_inv fifo_new (auth_world_new p sessions)"
  using new_refines [of remote loader type p]
  by (simp add: session_inv_def auth_world_new_def pending_def fifo_new_def)

text \<open>
  C12. With a plugin that answers each request once, the memory of the requests is sound: whatever
  the sessions and the plugin do, in any order, no process data is used after it was freed, and
  afterwards the heap holds exactly the process data of the requests that are still unanswered,
  each one once. The only fault left is cancelling a request that waits in the queue.
\<close>

theorem process_data_lifetime:
  assumes "gsignond_plugin_proxy_new remote loader type = Some p"
  shows "case session_run m mechs ins (auth_world_new p sessions) of
      Inl fl \<Rightarrow> fl = Queue_corrupted
    | Inr w \<Rightarrow> \<exists>waiting. mset (map fst (w_heap w)) = mset (map pd_userdata waiting) \<and>
        session_queue (w_proxy w) = drop 1 waiting \<and>
        active_session (w_proxy w) = map_option pd_auth_session (case waiting of [] \<Rightarrow> None | j # _ \<Rightarrow> Some j)"
proof (cases "session_run m mechs ins (auth_world_new p sessions)")
  case (Inl fl)
  then show ?thesis
    using session_run_safe [OF auth_world_new_inv [OF assms], of m mechs ins sessions] by simp
next
  case (Inr w)
  then obtain f where inv: "session_inv f w"
    using session_run_safe [OF auth_world_new_inv [OF assms], of m mechs ins sessions] by auto
  have "mset (map fst (w_heap w)) = mset (map pd_userdata (pending f))"
    using inv by (intro set_eq_iff_mset_eq_distinct [THEN iffD1]) (auto simp: session_inv_def)
  moreover have "session_queue (w_proxy w) = drop 1 (pending f) \<and>
      active_session (w_proxy w) = map_option pd_auth_session (case pending f of [] \<Rightarrow> None | j # _ \<Rightarrow> Some j)"
    using inv by (cases "pending f") (auto simp: session_inv_def refines_fifo_def pending_def)
  ultimately show ?thesis
    using Inr by auto
qed

text \<open>
  A plugin that sends an intermediate response and then its final one makes the session use process
  data that the first answer freed.
\<close>

lemma intermediate_response_uses_freed_data:
  assumes "active_session (w_proxy w) = Some s" "active_process_userdata (w_proxy w) = u"
    and "u \<noteq> 0" "u \<in> fst ` set (w_heap w)"
  shows "\<exists>w'. with_proxy (Some \<circ> gsignond_plugin_proxy_response_callback d) w = Inr w' \<and>
     with_proxy (Some \<circ> gsignond_plugin_proxy_response_final_callback d') w' = Inl Use_after_free"
proof -
  obtain cb where "map_of (w_heap w) u = Some cb"
    using assms(4) map_of_SomeI by metis
  then show ?thesis
    using assms(1-3)
    by (auto simp: with_proxy_def gsignond_plugin_proxy_response_callback_def
        gsignond_plugin_proxy_response_final_callback_def process_queue_log emit_def Let_def
        gsignond_auth_session_notify_process_result_def tell_def delete_conv')
qed

theorem process_data_lifetime_witness:
  "session_run example_acm (Some []) [S_response_final []]
      (auth_world_new (the (gsignond_plugin_proxy_new (\<lambda>_ t. Some t) (Some ''l'') (Some ''t''))) []) \<noteq>
    Inl Use_after_free"
  using process_data_lifetime [of "\<lambda>_ t. Some t" "Some ''l''" "Some ''t''" _ example_acm "Some []"
      "[S_response_final []]" "[]"]
  by (auto simp: gsignond_plugin_proxy_new_def gsignond_plugin_proxy_constructor_def
      gsignond_plugin_proxy_init_def Let_def split: sum.splits)

end
