(* ===== verification/Gsso_Sql_Database.thy ===== *)
theory Gsso_Sql_Database
  imports Gsso_Prelude
begin

text \<open>
  \<^verbatim>\<open>src/src/common/db/gsignond-db-sql-database.c\<close>, the wrapper of SQLite that both databases use.

  SQLite is represented by what its documentation says of the calls that are made. The contents of
  the database have some type \<open>'db\<close>; a query is a function from it to a list of rows, a statement a
  function to what it makes of the contents: done, failed (a constraint is violated, nothing is
  changed) or rolled back (a trigger raises ROLLBACK, which ends the transaction). \<open>BEGIN\<close> remembers the contents and fails inside a transaction, \<open>COMMIT\<close> forgets them,
  \<open>ROLLBACK\<close> restores them, and closing the connection rolls an open transaction back. Every call
  of SQLite may fail: \<open>faults\<close> lists the results of the next calls, and any call after the list is
  used up succeeds. A failed statement changes nothing; a failed list of statements stops there.
\<close>

datatype 'db stmt_result = Done 'db | Failed | Rolled_back

type_synonym 'db statement = "'db \<Rightarrow> 'db stmt_result"

datatype sqlite_rc = SQLITE_OK | SQLITE_BUSY | SQLITE_ERROR

datatype db_error =
    GSIGNOND_DB_ERROR_NONE
  | GSIGNOND_DB_ERROR_NOT_OPEN
  | GSIGNOND_DB_ERROR_CONNECTION_FAILURE
  | GSIGNOND_DB_ERROR_STATEMENT_FAILURE
  | GSIGNOND_DB_ERROR_LOCKED
  | GSIGNOND_DB_ERROR_UNKNOWN

record 'db sql_database =
  opened :: bool
  content :: 'db
  snapshot :: "'db option"
  faults :: "sqlite_rc list"
  errcode :: sqlite_rc
  begin_statement :: bool
  commit_statement :: bool
  rollback_statement :: bool
  db_version :: i32
  last_error :: "db_error option"

text \<open>What is in the file: the contents without an open transaction.\<close>

definition durable :: "'db sql_database \<Rightarrow> 'db" where
  "durable d = (case snapshot d of None \<Rightarrow> content d | Some s \<Rightarrow> s)"

subsection \<open>The calls of SQLite\<close>

definition sqlite_call :: "'db sql_database \<Rightarrow> sqlite_rc \<times> 'db sql_database" where
  "sqlite_call d =
     (case faults d of
        [] \<Rightarrow> (SQLITE_OK, d\<lparr>errcode := SQLITE_OK\<rparr>)
      | rc # rest \<Rightarrow> (rc, d\<lparr>faults := rest, errcode := rc\<rparr>))"

definition sqlite_begin :: "'db sql_database \<Rightarrow> bool \<times> 'db sql_database" where
  "sqlite_begin d =
     (case sqlite_call d of (rc, d) \<Rightarrow>
        if rc = SQLITE_OK then
          (if snapshot d = None then (True, d\<lparr>snapshot := Some (content d)\<rparr>)
           else (False, d\<lparr>errcode := SQLITE_ERROR\<rparr>))
        else (False, d))"

definition sqlite_commit :: "'db sql_database \<Rightarrow> bool \<times> 'db sql_database" where
  "sqlite_commit d =
     (case sqlite_call d of (rc, d) \<Rightarrow>
        if rc = SQLITE_OK then
          (if snapshot d \<noteq> None then (True, d\<lparr>snapshot := None\<rparr>) else (False, d\<lparr>errcode := SQLITE_ERROR\<rparr>))
        else (False, d))"

definition sqlite_rollback :: "'db sql_database \<Rightarrow> bool \<times> 'db sql_database" where
  "sqlite_rollback d =
     (case sqlite_call d of (rc, d) \<Rightarrow>
        if rc = SQLITE_OK then
          (case snapshot d of
             Some s \<Rightarrow> (True, d\<lparr>content := s, snapshot := None\<rparr>)
           | None \<Rightarrow> (False, d\<lparr>errcode := SQLITE_ERROR\<rparr>))
        else (False, d))"

fun sqlite_exec :: "'db statement list \<Rightarrow> 'db sql_database \<Rightarrow> bool \<times> 'db sql_database" where
  "sqlite_exec [] d = (True, d)"
| "sqlite_exec (s # ss) d =
     (case sqlite_call d of (rc, d) \<Rightarrow>
        if rc \<noteq> SQLITE_OK then (False, d)
        else case s (content d) of
          Done c \<Rightarrow> sqlite_exec ss (d\<lparr>content := c\<rparr>)
        | Failed \<Rightarrow> (False, d\<lparr>errcode := SQLITE_ERROR\<rparr>)
        | Rolled_back \<Rightarrow> (False, d\<lparr>content := durable d, snapshot := None, errcode := SQLITE_ERROR\<rparr>))"

text \<open>A statement that no constraint stops.\<close>

definition always :: "('db \<Rightarrow> 'db) \<Rightarrow> 'db statement" where
  "always f c = Done (f c)"

lemmas always_apply [simp] = always_def

text \<open>What a list of statements does to the contents, when it is not stopped.\<close>

fun run_statements :: "'db statement list \<Rightarrow> 'db \<Rightarrow> 'db option" where
  "run_statements [] c = Some c"
| "run_statements (s # ss) c = (case s c of Done c' \<Rightarrow> run_statements ss c' | _ \<Rightarrow> None)"

definition sqlite_close :: "'db sql_database \<Rightarrow> sqlite_rc \<times> 'db sql_database" where
  "sqlite_close d =
     (case sqlite_call d of (rc, d) \<Rightarrow> (rc, d\<lparr>content := durable d, snapshot := None\<rparr>))"

subsection \<open>Errors\<close>

definition gsignond_db_sql_database_clear_last_error :: "'db sql_database \<Rightarrow> 'db sql_database" where
  "gsignond_db_sql_database_clear_last_error self = self\<lparr>last_error := None\<rparr>"

definition gsignond_db_sql_database_set_last_error ::
  "db_error option \<Rightarrow> 'db sql_database \<Rightarrow> 'db sql_database" where
  "gsignond_db_sql_database_set_last_error error self =
     (gsignond_db_sql_database_clear_last_error self)\<lparr>last_error := error\<rparr>"

definition gsignond_db_sql_database_get_last_error :: "'db sql_database \<Rightarrow> db_error option" where
  "gsignond_db_sql_database_get_last_error self = last_error self"

definition gsignond_db_sql_database_update_error_from_db :: "'db sql_database \<Rightarrow> 'db sql_database" where
  "gsignond_db_sql_database_update_error_from_db self =
     (case errcode self of
        SQLITE_OK \<Rightarrow> gsignond_db_sql_database_set_last_error None self
      | SQLITE_BUSY \<Rightarrow> gsignond_db_sql_database_set_last_error (Some GSIGNOND_DB_ERROR_LOCKED) self
      | SQLITE_ERROR \<Rightarrow> gsignond_db_sql_database_set_last_error (Some GSIGNOND_DB_ERROR_UNKNOWN) self)"

subsection \<open>Opening and closing\<close>

definition gsignond_db_sql_database_init :: "'db \<Rightarrow> sqlite_rc list \<Rightarrow> 'db sql_database" where
  "gsignond_db_sql_database_init file fs =
     \<lparr>opened = False, content = file, snapshot = None, faults = fs, errcode = SQLITE_OK,
      begin_statement = False, commit_statement = False, rollback_statement = False,
      db_version = 0, last_error = None\<rparr>"

definition gsignond_db_sql_database_is_open :: "'db sql_database \<Rightarrow> bool" where
  "gsignond_db_sql_database_is_open self = opened self"

definition gsignond_db_sql_database_finalize_db :: "'db sql_database \<Rightarrow> 'db sql_database" where
  "gsignond_db_sql_database_finalize_db self =
     self\<lparr>begin_statement := False, commit_statement := False, rollback_statement := False\<rparr>"

definition gsignond_db_sql_database_close :: "'db sql_database \<Rightarrow> bool \<times> 'db sql_database" where
  "gsignond_db_sql_database_close self =
     (if \<not> opened self then (False, self)
      else
        let self = gsignond_db_sql_database_finalize_db self
        in case sqlite_close self of (rc, self) \<Rightarrow>
          let self = (if rc \<noteq> SQLITE_OK then gsignond_db_sql_database_update_error_from_db self else self)
          in (True, self\<lparr>opened := False, db_version := 0\<rparr>))"

text \<open>
  \<open>create\<close> is the method of the class. \<^verbatim>\<open>sqlite3_open_v2\<close> sets the handle even when it fails
  (unless memory is exhausted), so the close that follows runs on it.
\<close>

definition gsignond_db_sql_database_open ::
  "('db sql_database \<Rightarrow> bool \<times> 'db sql_database) \<Rightarrow> 'db sql_database \<Rightarrow> bool \<times> 'db sql_database" where
  "gsignond_db_sql_database_open create self =
     (if gsignond_db_sql_database_is_open self then (True, self)
      else case sqlite_call self of (ret, self) \<Rightarrow>
        let self = self\<lparr>opened := True\<rparr>
        in if ret \<noteq> SQLITE_OK then
             (False, snd (gsignond_db_sql_database_close (gsignond_db_sql_database_update_error_from_db self)))
           else case create self of
             (False, self) \<Rightarrow> (False, snd (gsignond_db_sql_database_close self))
           | (True, self) \<Rightarrow> (True, self))"

subsection \<open>Queries\<close>

text \<open>
  The loop of \<^verbatim>\<open>gsignond_db_sql_database_query_exec_stmt\<close>: the callback gets each row; the number of
  rows it accepted is returned even when a later step fails.
\<close>

fun gsignond_db_sql_database_query_exec_stmt ::
  "'row list \<Rightarrow> ('row \<Rightarrow> 'u \<Rightarrow> bool \<times> 'u) \<Rightarrow> 'u \<Rightarrow> 'db sql_database \<Rightarrow> nat \<times> 'u \<times> 'db sql_database" where
  "gsignond_db_sql_database_query_exec_stmt [] callback u self =
     (case sqlite_call self of (ret, self) \<Rightarrow>
        if ret = SQLITE_OK then (0, u, self)
        else (0, u, gsignond_db_sql_database_update_error_from_db self))"
| "gsignond_db_sql_database_query_exec_stmt (row # rows) callback u self =
     (case sqlite_call self of (ret, self) \<Rightarrow>
        if ret = SQLITE_OK then
          (case callback row u of
             (False, u) \<Rightarrow> (0, u, self)
           | (True, u) \<Rightarrow>
               (case gsignond_db_sql_database_query_exec_stmt rows callback u self of
                  (n, u, self) \<Rightarrow> (n + 1, u, self)))
        else (0, u, gsignond_db_sql_database_update_error_from_db self))"

text \<open>\<^verbatim>\<open>gsignond_db_sql_database_prepare_statement\<close>: whether there is a statement.\<close>

definition gsignond_db_sql_database_prepare_statement :: "'db sql_database \<Rightarrow> bool \<times> 'db sql_database" where
  "gsignond_db_sql_database_prepare_statement self =
     (if \<not> opened self then (False, self)
      else case sqlite_call self of (ret, self) \<Rightarrow> (ret = SQLITE_OK, self))"

definition gsignond_db_sql_database_query_exec ::
  "('db \<Rightarrow> 'row list) \<Rightarrow> ('row \<Rightarrow> 'u \<Rightarrow> bool \<times> 'u) \<Rightarrow> 'u \<Rightarrow> 'db sql_database \<Rightarrow> nat \<times> 'u \<times> 'db sql_database" where
  "gsignond_db_sql_database_query_exec query callback u self =
     (if \<not> opened self then (0, u, self)
      else case gsignond_db_sql_database_prepare_statement self of
        (False, self) \<Rightarrow> (0, u, self)
      | (True, self) \<Rightarrow>
          gsignond_db_sql_database_query_exec_stmt (query (content self)) callback u self)"

text \<open>A query whose result stands only when at least one row was read.\<close>

definition if_rows :: "nat \<times> 'u \<times> 'db sql_database \<Rightarrow> 'u option \<times> 'db sql_database" where
  "if_rows r = (case r of (rows, u, self) \<Rightarrow> (if rows = 0 then None else Some u, self))"

definition gsignond_db_read_string :: "cstr \<Rightarrow> cstr \<Rightarrow> bool \<times> cstr" where
  "gsignond_db_read_string row u = (True, row)"

definition gsignond_db_sql_database_query_exec_string ::
  "('db \<Rightarrow> cstr list) \<Rightarrow> 'db sql_database \<Rightarrow> cstr \<times> 'db sql_database" where
  "gsignond_db_sql_database_query_exec_string query self =
     (case if_rows (gsignond_db_sql_database_query_exec query gsignond_db_read_string None self) of
        (r, self) \<Rightarrow> (case r of Some s \<Rightarrow> s | None \<Rightarrow> None, self))"

definition gsignond_db_read_strings :: "cstr \<Rightarrow> cstr list \<Rightarrow> bool \<times> cstr list" where
  "gsignond_db_read_strings row u = (True, u @ [row])"

text \<open>The empty list is the NULL list.\<close>

definition gsignond_db_sql_database_query_exec_string_list ::
  "('db \<Rightarrow> cstr list) \<Rightarrow> 'db sql_database \<Rightarrow> cstr list \<times> 'db sql_database" where
  "gsignond_db_sql_database_query_exec_string_list query self =
     (case if_rows (gsignond_db_sql_database_query_exec query gsignond_db_read_strings [] self) of
        (r, self) \<Rightarrow> (case r of Some l \<Rightarrow> l | None \<Rightarrow> [], self))"

definition gsignond_db_read_string_tuple ::
  "string \<times> cstr \<Rightarrow> (string \<times> cstr) list \<Rightarrow> bool \<times> (string \<times> cstr) list" where
  "gsignond_db_read_string_tuple row u = (True, AList.update (fst row) (snd row) u)"

definition gsignond_db_sql_database_query_exec_string_tuple ::
  "('db \<Rightarrow> (string \<times> cstr) list) \<Rightarrow> 'db sql_database \<Rightarrow> (string \<times> cstr) list option \<times> 'db sql_database" where
  "gsignond_db_sql_database_query_exec_string_tuple query self =
     if_rows (gsignond_db_sql_database_query_exec query gsignond_db_read_string_tuple [] self)"

definition gsignond_db_read_int_string_tuple ::
  "int \<times> cstr \<Rightarrow> (i32 \<times> cstr) list \<Rightarrow> bool \<times> (i32 \<times> cstr) list" where
  "gsignond_db_read_int_string_tuple row u = (True, AList.update (word_of_int (fst row)) (snd row) u)"

definition gsignond_db_sql_database_query_exec_int_string_tuple ::
  "('db \<Rightarrow> (int \<times> cstr) list) \<Rightarrow> 'db sql_database \<Rightarrow> (i32 \<times> cstr) list option \<times> 'db sql_database" where
  "gsignond_db_sql_database_query_exec_int_string_tuple query self =
     if_rows (gsignond_db_sql_database_query_exec query gsignond_db_read_int_string_tuple [] self)"

text \<open>\<^verbatim>\<open>sqlite3_column_int\<close> takes the low 32 bits of an integer.\<close>

definition gsignond_db_read_int :: "int \<Rightarrow> i32 \<Rightarrow> bool \<times> i32" where
  "gsignond_db_read_int row u = (True, word_of_int row)"

definition gsignond_db_sql_database_query_exec_int ::
  "('db \<Rightarrow> int list) \<Rightarrow> 'db sql_database \<Rightarrow> i32 option \<times> 'db sql_database" where
  "gsignond_db_sql_database_query_exec_int query self =
     if_rows (gsignond_db_sql_database_query_exec query gsignond_db_read_int 0 self)"

definition gsignond_db_read_array :: "int \<Rightarrow> i32 list \<Rightarrow> bool \<times> i32 list" where
  "gsignond_db_read_array row u = (True, u @ [word_of_int row])"

definition gsignond_db_sql_database_query_exec_int_array ::
  "('db \<Rightarrow> int list) \<Rightarrow> 'db sql_database \<Rightarrow> i32 list option \<times> 'db sql_database" where
  "gsignond_db_sql_database_query_exec_int_array query self =
     if_rows (gsignond_db_sql_database_query_exec query gsignond_db_read_array [] self)"

text \<open>A version that is not positive is read again; \<open>query\<close> reads \<^verbatim>\<open>PRAGMA user_version\<close>.\<close>

definition gsignond_db_sql_database_get_db_version ::
  "('db \<Rightarrow> int) \<Rightarrow> 'db sql_database \<Rightarrow> i32 \<times> 'db sql_database" where
  "gsignond_db_sql_database_get_db_version query self =
     (if \<not> opened self then (0, self)
      else if 0 <s db_version self then (db_version self, self)
      else case sqlite_call self of (ret, self) \<Rightarrow>
        if ret \<noteq> SQLITE_OK then (0, self)
        else case sqlite_call self of (ret, self) \<Rightarrow>
          if ret \<noteq> SQLITE_OK then (0, self)
          else let v = word_of_int (query (content self)) in (v, self\<lparr>db_version := v\<rparr>))"

subsection \<open>Statements and transactions\<close>

definition gsignond_db_sql_database_exec ::
  "'db statement list \<Rightarrow> 'db sql_database \<Rightarrow> bool \<times> 'db sql_database" where
  "gsignond_db_sql_database_exec statements self =
     (if \<not> opened self then (False, self)
      else case sqlite_exec statements self of
        (False, self) \<Rightarrow> (False, gsignond_db_sql_database_update_error_from_db self)
      | (True, self) \<Rightarrow> (True, self))"

definition prepare_transaction_statement ::
  "('db sql_database \<Rightarrow> bool) \<Rightarrow> ('db sql_database \<Rightarrow> 'db sql_database) \<Rightarrow>
   'db sql_database \<Rightarrow> sqlite_rc \<times> 'db sql_database" where
  "prepare_transaction_statement sql_stmt set_stmt self =
     (if \<not> sql_stmt self then
        (case sqlite_call self of (ret, self) \<Rightarrow> (ret, if ret = SQLITE_OK then set_stmt self else self))
      else (SQLITE_OK, self))"

definition gsignond_db_sql_database_prepare_transaction_statements ::
  "'db sql_database \<Rightarrow> sqlite_rc \<times> 'db sql_database" where
  "gsignond_db_sql_database_prepare_transaction_statements self =
     (case prepare_transaction_statement begin_statement (begin_statement_update (\<lambda>_. True)) self of
        (ret, self) \<Rightarrow> if ret \<noteq> SQLITE_OK then (ret, self) else
      (case prepare_transaction_statement commit_statement (commit_statement_update (\<lambda>_. True)) self of
        (ret, self) \<Rightarrow> if ret \<noteq> SQLITE_OK then (ret, self) else
        prepare_transaction_statement rollback_statement (rollback_statement_update (\<lambda>_. True)) self))"

definition gsignond_db_sql_database_start_transaction :: "'db sql_database \<Rightarrow> bool \<times> 'db sql_database" where
  "gsignond_db_sql_database_start_transaction self =
     (if \<not> opened self then (False, self)
      else case gsignond_db_sql_database_prepare_transaction_statements self of (ret, self) \<Rightarrow>
        if ret \<noteq> SQLITE_OK then (False, gsignond_db_sql_database_update_error_from_db self)
        else case sqlite_begin self of
          (False, self) \<Rightarrow> (False, gsignond_db_sql_database_update_error_from_db self)
        | (True, self) \<Rightarrow> (True, self))"

definition gsignond_db_sql_database_commit_transaction :: "'db sql_database \<Rightarrow> bool \<times> 'db sql_database" where
  "gsignond_db_sql_database_commit_transaction self =
     (if \<not> opened self then (False, self)
      else case sqlite_commit self of
        (False, self) \<Rightarrow> (False, gsignond_db_sql_database_update_error_from_db self)
      | (True, self) \<Rightarrow> (True, self))"

definition gsignond_db_sql_database_rollback_transaction :: "'db sql_database \<Rightarrow> bool \<times> 'db sql_database" where
  "gsignond_db_sql_database_rollback_transaction self =
     (if \<not> opened self then (False, self)
      else case sqlite_rollback self of
        (False, self) \<Rightarrow> (False, gsignond_db_sql_database_update_error_from_db self)
      | (True, self) \<Rightarrow> (True, self))"

definition gsignond_db_sql_database_transaction_exec ::
  "'db statement list \<Rightarrow> 'db sql_database \<Rightarrow> bool \<times> 'db sql_database" where
  "gsignond_db_sql_database_transaction_exec statements self =
     (if \<not> opened self then (False, self)
      else case gsignond_db_sql_database_start_transaction self of
        (False, self) \<Rightarrow> (False, self)
      | (True, self) \<Rightarrow>
          (case sqlite_exec statements self of
             (False, self) \<Rightarrow>
               (False, snd (gsignond_db_sql_database_rollback_transaction
                 (gsignond_db_sql_database_update_error_from_db self)))
           | (True, self) \<Rightarrow> gsignond_db_sql_database_commit_transaction self))"

text \<open>The macro \<^verbatim>\<open>RETURN_IF_NOT_OPEN\<close> that both databases define.\<close>

definition if_open :: "'a \<Rightarrow> ('db sql_database \<Rightarrow> 'a \<times> 'db sql_database) \<Rightarrow> 'db sql_database \<Rightarrow> 'a \<times> 'db sql_database" where
  "if_open retval f self =
     (if \<not> gsignond_db_sql_database_is_open self
      then (retval, gsignond_db_sql_database_set_last_error (Some GSIGNOND_DB_ERROR_NOT_OPEN) self)
      else f self)"

subsection \<open>Frames\<close>

text \<open>What only the bookkeeping of a call changes: not the contents, the transaction or the handle.\<close>

definition same_data :: "'db sql_database \<Rightarrow> 'db sql_database \<Rightarrow> bool" where
  "same_data d d' \<longleftrightarrow> content d' = content d \<and> snapshot d' = snapshot d \<and> opened d' = opened d \<and>
     (faults d = [] \<longrightarrow> faults d' = [])"

lemma same_data_refl [simp, intro]: "same_data d d"
  by (simp add: same_data_def)

lemma same_data_trans [trans]: "same_data a b \<Longrightarrow> same_data b c \<Longrightarrow> same_data a c"
  by (simp add: same_data_def)

lemma same_data_durable: "same_data d d' \<Longrightarrow> durable d' = durable d"
  by (auto simp: same_data_def durable_def split: option.split)

lemma same_data_call: "sqlite_call d = (rc, d') \<Longrightarrow> same_data d d'"
  by (auto simp: sqlite_call_def same_data_def split: list.splits)

lemma call_no_faults: "faults d = [] \<Longrightarrow> sqlite_call d = (SQLITE_OK, d\<lparr>errcode := SQLITE_OK\<rparr>)"
  by (simp add: sqlite_call_def)

lemma same_data_error [simp]: "same_data d (gsignond_db_sql_database_update_error_from_db d') = same_data d d'"
  by (simp add: gsignond_db_sql_database_update_error_from_db_def same_data_def
      gsignond_db_sql_database_set_last_error_def gsignond_db_sql_database_clear_last_error_def
      split: sqlite_rc.split)

lemma same_data_set_error [simp]: "same_data d (gsignond_db_sql_database_set_last_error e d') = same_data d d'"
  by (simp add: same_data_def gsignond_db_sql_database_set_last_error_def
      gsignond_db_sql_database_clear_last_error_def)

lemma same_data_query_stmt:
  "gsignond_db_sql_database_query_exec_stmt rows cb u d = (n, u', d') \<Longrightarrow> same_data d d'"
proof (induction rows cb u d arbitrary: n u' d' rule: gsignond_db_sql_database_query_exec_stmt.induct)
  case (1 cb u d)
  then show ?case by (auto split: prod.splits if_splits dest: same_data_call)
next
  case (2 row rows cb u d)
  obtain rc d1 where 1: "sqlite_call d = (rc, d1)" by force
  show ?case
  proof (cases "rc = SQLITE_OK \<and> fst (cb row u)")
    case True
    obtain u1 where u1: "cb row u = (True, u1)" using True by (metis prod.collapse)
    obtain n2 u2 d2 where r: "gsignond_db_sql_database_query_exec_stmt rows cb u1 d1 = (n2, u2, d2)"
      by (metis prod_cases3)
    have "same_data d1 d2"
      using 2(1) [OF 1 [symmetric]] True u1 r by auto
    then show ?thesis
      using 2(2) 1 True u1 r same_data_call [OF 1] by (auto intro: same_data_trans)
  next
    case False
    then show ?thesis
      using 2(2) 1 same_data_call [OF 1] by (auto split: if_splits prod.splits bool.splits)
  qed
qed

lemma same_data_query:
  "gsignond_db_sql_database_query_exec q cb u d = (n, u', d') \<Longrightarrow> same_data d d'"
  by (auto simp: gsignond_db_sql_database_query_exec_def gsignond_db_sql_database_prepare_statement_def
      split: if_splits prod.splits bool.splits
      dest!: same_data_query_stmt same_data_call intro: same_data_trans)

text \<open>Without faults the loop reads every row with a callback that accepts all of them.\<close>

lemma query_stmt_no_faults:
  assumes "faults d = []" and "\<And>r u. fst (cb r u)"
  shows "\<exists>d'. gsignond_db_sql_database_query_exec_stmt rows cb u d =
     (length rows, fold (\<lambda>r u. snd (cb r u)) rows u, d') \<and> same_data d d'"
  using assms(1)
proof (induction rows arbitrary: u d)
  case Nil
  then show ?case by (simp add: call_no_faults same_data_def)
next
  case (Cons row rows)
  obtain u1 where u1: "cb row u = (True, u1)"
    using assms(2) [of row u] by (cases "cb row u") auto
  from Cons.IH [of "d\<lparr>errcode := SQLITE_OK\<rparr>" u1] Cons.prems obtain d' where
    "gsignond_db_sql_database_query_exec_stmt rows cb u1 (d\<lparr>errcode := SQLITE_OK\<rparr>) =
       (length rows, fold (\<lambda>r u. snd (cb r u)) rows u1, d')" "same_data (d\<lparr>errcode := SQLITE_OK\<rparr>) d'"
    by auto
  then show ?case
    using Cons.prems u1 by (simp add: call_no_faults same_data_def)
qed

lemma query_no_faults:
  assumes "faults d = []" "opened d" and "\<And>r u. fst (cb r u)"
  shows "\<exists>d'. gsignond_db_sql_database_query_exec q cb u d =
     (length (q (content d)), fold (\<lambda>r u. snd (cb r u)) (q (content d)) u, d') \<and> same_data d d'"
proof -
  have 1: "gsignond_db_sql_database_prepare_statement d = (True, d\<lparr>errcode := SQLITE_OK\<rparr>)"
    using assms by (simp add: gsignond_db_sql_database_prepare_statement_def call_no_faults)
  obtain d' where
    "gsignond_db_sql_database_query_exec_stmt (q (content d)) cb u (d\<lparr>errcode := SQLITE_OK\<rparr>) =
      (length (q (content d)), fold (\<lambda>r u. snd (cb r u)) (q (content d)) u, d')"
    "same_data (d\<lparr>errcode := SQLITE_OK\<rparr>) d'"
    using query_stmt_no_faults [of "d\<lparr>errcode := SQLITE_OK\<rparr>" cb "q (content d)" u] assms by auto
  then show ?thesis
    using assms(2) 1 by (simp add: gsignond_db_sql_database_query_exec_def same_data_def)
qed

subsection \<open>Transactions are atomic\<close>

lemma sqlite_exec_snapshot:
  "sqlite_exec ss d = (ok, d') \<Longrightarrow> opened d' = opened d \<and>
     (faults d = [] \<longrightarrow> faults d' = [] \<and> (ok \<longleftrightarrow> run_statements ss (content d) \<noteq> None)) \<and>
     (if ok then snapshot d' = snapshot d \<and> run_statements ss (content d) = Some (content d')
      else snapshot d \<noteq> None \<longrightarrow> durable d' = durable d)"
proof (induction ss arbitrary: d)
  case (Cons s ss)
  obtain rc d1 where call: "sqlite_call d = (rc, d1)" by force
  note same = same_data_call [OF call]
  show ?case
  proof (cases "rc = SQLITE_OK")
    case True
    show ?thesis
    proof (cases "s (content d)")
      case (Done c)
      then have "sqlite_exec ss (d1\<lparr>content := c\<rparr>) = (ok, d')"
        using Cons.prems call True same by (simp add: same_data_def)
      from Cons.IH [OF this] same Done show ?thesis
        by (auto simp: same_data_def durable_def split: option.splits)
    qed (use Cons.prems call True same in \<open>auto simp: same_data_def durable_def split: option.splits\<close>)
  next
    case False
    then show ?thesis
      using Cons.prems call same by (auto simp: same_data_def call_no_faults durable_def)
  qed
qed simp

lemma run_always [simp]:
  "run_statements [always f] = (\<lambda>c. Some (f c))"
  "run_statements [always f, always g] = (\<lambda>c. Some (g (f c)))"
  by (simp_all add: fun_eq_iff)

lemma exec_always:
  "sqlite_exec [always f] d = (ok, d') \<Longrightarrow> snapshot d' = snapshot d \<and> opened d' = opened d \<and>
     (faults d = [] \<longrightarrow> faults d' = [] \<and> ok) \<and> (ok \<longrightarrow> content d' = f (content d))"
  using same_data_call [of d] call_no_faults [of d]
  by (cases "sqlite_call d") (auto simp: same_data_def split: if_splits)

lemma error_fields [simp]:
  "content (gsignond_db_sql_database_update_error_from_db d) = content d"
  "snapshot (gsignond_db_sql_database_update_error_from_db d) = snapshot d"
  "opened (gsignond_db_sql_database_update_error_from_db d) = opened d"
  "faults (gsignond_db_sql_database_update_error_from_db d) = faults d"
  by (simp_all add: gsignond_db_sql_database_update_error_from_db_def
      gsignond_db_sql_database_set_last_error_def gsignond_db_sql_database_clear_last_error_def
      split: sqlite_rc.split)

lemma call_cases:
  obtains rc d1 where "sqlite_call d = (rc, d1)" "content d1 = content d" "snapshot d1 = snapshot d"
    "opened d1 = opened d" "faults d = [] \<Longrightarrow> rc = SQLITE_OK \<and> faults d1 = []"
proof -
  obtain rc d1 where call: "sqlite_call d = (rc, d1)" by force
  from same_data_call [OF call] call_no_faults [of d] call show ?thesis
    by (intro that [OF call]) (auto simp: same_data_def)
qed

lemma begin_result:
  assumes "sqlite_begin d = (ok, d')"
  shows "content d' = content d \<and> opened d' = opened d \<and>
     (faults d = [] \<longrightarrow> faults d' = [] \<and> (ok \<longleftrightarrow> snapshot d = None)) \<and>
     (if ok then snapshot d = None \<and> snapshot d' = Some (content d) else snapshot d' = snapshot d)"
proof (rule call_cases [of d])
  fix rc d1
  assume "sqlite_call d = (rc, d1)" "content d1 = content d" "snapshot d1 = snapshot d"
    "opened d1 = opened d" "faults d = [] \<Longrightarrow> rc = SQLITE_OK \<and> faults d1 = []"
  with assms show ?thesis
    by (cases "rc = SQLITE_OK"; cases "snapshot d") (auto simp: sqlite_begin_def)
qed

lemma commit_result:
  assumes "gsignond_db_sql_database_commit_transaction d = (ok, d')"
  shows "content d' = content d \<and> opened d' = opened d \<and>
     (faults d = [] \<longrightarrow> faults d' = [] \<and> (ok \<longleftrightarrow> opened d \<and> snapshot d \<noteq> None)) \<and>
     (if ok then snapshot d' = None else snapshot d' = snapshot d)"
proof (rule call_cases [of d])
  fix rc d1
  assume "sqlite_call d = (rc, d1)" "content d1 = content d" "snapshot d1 = snapshot d"
    "opened d1 = opened d" "faults d = [] \<Longrightarrow> rc = SQLITE_OK \<and> faults d1 = []"
  with assms show ?thesis
    by (cases "opened d"; cases "rc = SQLITE_OK"; cases "snapshot d")
       (auto simp: gsignond_db_sql_database_commit_transaction_def sqlite_commit_def)
qed

lemma rollback_result:
  assumes "gsignond_db_sql_database_rollback_transaction d = (ok, d')"
  shows "durable d' = durable d \<and> opened d' = opened d \<and>
     (if ok then snapshot d' = None else content d' = content d \<and> snapshot d' = snapshot d) \<and>
     (faults d = [] \<and> opened d \<longrightarrow> faults d' = [] \<and> snapshot d' = None)"
proof (rule call_cases [of d])
  fix rc d1
  assume "sqlite_call d = (rc, d1)" "content d1 = content d" "snapshot d1 = snapshot d"
    "opened d1 = opened d" "faults d = [] \<Longrightarrow> rc = SQLITE_OK \<and> faults d1 = []"
  with assms show ?thesis
    by (cases "opened d"; cases "rc = SQLITE_OK"; cases "snapshot d")
       (auto simp: gsignond_db_sql_database_rollback_transaction_def sqlite_rollback_def durable_def)
qed

lemma prepare_one_same_data:
  assumes "prepare_transaction_statement f g d = (ret, d')" and "\<And>d. same_data d (g d)"
  shows "same_data d d' \<and> (faults d = [] \<longrightarrow> ret = SQLITE_OK)"
proof (cases "f d")
  case True
  with assms show ?thesis by (auto simp: prepare_transaction_statement_def)
next
  case False
  obtain rc d1 where call: "sqlite_call d = (rc, d1)" by force
  with assms False same_data_call [OF call] call_no_faults [of d]
  show ?thesis
    by (auto simp: prepare_transaction_statement_def intro: same_data_trans)
qed

lemma prepare_same_data:
  assumes "gsignond_db_sql_database_prepare_transaction_statements d = (ret, d')"
  shows "same_data d d' \<and> (faults d = [] \<longrightarrow> ret = SQLITE_OK)"
proof -
  obtain r1 d1 where 1: "prepare_transaction_statement begin_statement (begin_statement_update (\<lambda>_. True)) d = (r1, d1)"
    by force
  obtain r2 d2 where 2: "prepare_transaction_statement commit_statement (commit_statement_update (\<lambda>_. True)) d1 = (r2, d2)"
    by force
  obtain r3 d3 where 3: "prepare_transaction_statement rollback_statement (rollback_statement_update (\<lambda>_. True)) d2 = (r3, d3)"
    by force
  note P = prepare_one_same_data [OF 1] prepare_one_same_data [OF 2] prepare_one_same_data [OF 3]
  have "same_data d d1 \<and> (faults d = [] \<longrightarrow> r1 = SQLITE_OK)"
    "same_data d1 d2 \<and> (faults d1 = [] \<longrightarrow> r2 = SQLITE_OK)"
    "same_data d2 d3 \<and> (faults d2 = [] \<longrightarrow> r3 = SQLITE_OK)"
    by (rule P; simp add: same_data_def)+
  then show ?thesis
    using assms 1 2 3
    by (cases "r1 = SQLITE_OK"; cases "r2 = SQLITE_OK")
       (auto simp: gsignond_db_sql_database_prepare_transaction_statements_def same_data_def)
qed

lemma start_result:
  assumes "gsignond_db_sql_database_start_transaction d = (ok, d')"
  shows "content d' = content d \<and> opened d' = opened d \<and>
     (faults d = [] \<longrightarrow> faults d' = [] \<and> (ok \<longleftrightarrow> opened d \<and> snapshot d = None)) \<and>
     (if ok then opened d \<and> snapshot d = None \<and> snapshot d' = Some (content d) else snapshot d' = snapshot d)"
proof (cases "opened d")
  case False
  then show ?thesis using assms by (auto simp: gsignond_db_sql_database_start_transaction_def)
next
  case True
  obtain ret d1 where p: "gsignond_db_sql_database_prepare_transaction_statements d = (ret, d1)" by force
  obtain b d2 where b: "sqlite_begin d1 = (b, d2)" by force
  show ?thesis
    using True assms p prepare_same_data [OF p] b begin_result [OF b]
    by (cases "ret = SQLITE_OK"; cases b)
       (auto simp: gsignond_db_sql_database_start_transaction_def same_data_def)
qed

text \<open>
  The contract of a write: when it reports success its effect is in the file and no transaction is
  open, when it reports failure the file is as it was; without faults it fails only where
  the effect is undefined.
\<close>

locale atomic_write =
  fixes "write" :: "'db sql_database \<Rightarrow> bool \<times> 'db sql_database"
    and effect :: "'db \<Rightarrow> 'db option"
  assumes write_ok: "write d = (True, d') \<Longrightarrow>
        opened d \<and> snapshot d = None \<and> snapshot d' = None \<and> effect (content d) = Some (content d')"
    and write_fails: "write d = (False, d') \<Longrightarrow> durable d' = durable d"
    and write_opened: "opened (snd (write d)) = opened d"
    and write_no_faults: "faults d = [] \<Longrightarrow> opened d \<Longrightarrow> snapshot d = None \<Longrightarrow>
        faults (snd (write d)) = [] \<and> (fst (write d) \<longleftrightarrow> effect (content d) \<noteq> None) \<and> snapshot (snd (write d)) = None"
begin

lemma write_durable: "if fst (write d) then effect (durable d) = Some (durable (snd (write d)))
      else durable (snd (write d)) = durable d"
  using write_ok [of d "snd (write d)"] write_fails [of d "snd (write d)"]
  by (cases "write d") (auto simp: durable_def)

lemma blocked_by_transaction: "snapshot d \<noteq> None \<Longrightarrow> \<not> fst (write d) \<and> durable (snd (write d)) = durable d"
  using write_ok [of d "snd (write d)"] write_fails [of d "snd (write d)"]
  by (metis (full_types) option.distinct(1) prod.collapse)

end

lemma transaction_exec_result:
  assumes "gsignond_db_sql_database_transaction_exec ss d = (ok, d')"
  shows "opened d' = opened d \<and>
     (if ok then opened d \<and> snapshot d = None \<and> snapshot d' = None \<and>
        run_statements ss (content d) = Some (content d')
      else durable d' = durable d) \<and>
     (faults d = [] \<and> opened d \<and> snapshot d = None \<longrightarrow>
        faults d' = [] \<and> (ok \<longleftrightarrow> run_statements ss (content d) \<noteq> None) \<and> snapshot d' = None)"
proof (cases "opened d")
  case False
  then show ?thesis using assms by (auto simp: gsignond_db_sql_database_transaction_exec_def)
next
  case True
  obtain b d1 where b: "gsignond_db_sql_database_start_transaction d = (b, d1)" by force
  note B = start_result [OF b]
  show ?thesis
  proof (cases b)
    case False
    then show ?thesis
      using True assms b B
      by (cases "snapshot d") (auto simp: gsignond_db_sql_database_transaction_exec_def durable_def)
  next
    case b_True: True
    obtain e d2 where e: "sqlite_exec ss d1 = (e, d2)" by force
    note E = sqlite_exec_snapshot [OF e]
    show ?thesis
    proof (cases e)
      case True
      then have "gsignond_db_sql_database_commit_transaction d2 = (ok, d')"
        using assms \<open>opened d\<close> b b_True e by (simp add: gsignond_db_sql_database_transaction_exec_def)
      from commit_result [OF this] True E B b_True show ?thesis
        by (auto simp: durable_def split: if_splits)
    next
      case False
      obtain r d3 where r: "gsignond_db_sql_database_rollback_transaction
          (gsignond_db_sql_database_update_error_from_db d2) = (r, d3)" by force
      have "same_data d2 (gsignond_db_sql_database_update_error_from_db d2)" by simp
      then have "durable (gsignond_db_sql_database_update_error_from_db d2) = durable d2"
        "opened (gsignond_db_sql_database_update_error_from_db d2) = opened d2"
        by (simp_all add: same_data_durable)
      with rollback_result [OF r] have "durable d3 = durable d2" "opened d3 = opened d2" by auto
      moreover have "ok = False" "d' = d3"
        using assms \<open>opened d\<close> b b_True e False r
        by (simp_all add: gsignond_db_sql_database_transaction_exec_def)
      ultimately show ?thesis
        using False E B b_True rollback_result [OF r] by (auto simp: durable_def)
    qed
  qed
qed

interpretation transaction: atomic_write "gsignond_db_sql_database_transaction_exec ss"
    "run_statements ss" for ss
proof (unfold_locales, goal_cases)
  case (1 d d') then show ?case using transaction_exec_result [of ss d True d'] by simp
next
  case (2 d d') then show ?case using transaction_exec_result [of ss d False d'] by simp
next
  case (3 d)
  obtain ok d' where "gsignond_db_sql_database_transaction_exec ss d = (ok, d')" by force
  from conjunct1 [OF transaction_exec_result [OF this]] this show ?case by simp
next
  case (4 d)
  obtain ok d' where "gsignond_db_sql_database_transaction_exec ss d = (ok, d')" by force
  with 4 transaction_exec_result [OF this] show ?case by (cases ok) auto
qed

text \<open>
  C13. A transaction is all or nothing for every pattern of failing calls: TRUE means that the
  statements all ran and their effect is in the file, FALSE that the file is as before; while a
  transaction is left open every further one fails, and without faults it succeeds exactly when
  every statement does.
\<close>

theorem transaction_exec_atomic:
  "(fst (gsignond_db_sql_database_transaction_exec ss d) \<longrightarrow>
      run_statements ss (durable d) = Some (durable (snd (gsignond_db_sql_database_transaction_exec ss d))) \<and>
      snapshot (snd (gsignond_db_sql_database_transaction_exec ss d)) = None) \<and>
   (\<not> fst (gsignond_db_sql_database_transaction_exec ss d) \<longrightarrow>
      durable (snd (gsignond_db_sql_database_transaction_exec ss d)) = durable d) \<and>
   (snapshot d \<noteq> None \<longrightarrow> \<not> fst (gsignond_db_sql_database_transaction_exec ss d)) \<and>
   (faults d = [] \<and> opened d \<and> snapshot d = None \<longrightarrow>
      (fst (gsignond_db_sql_database_transaction_exec ss d) \<longleftrightarrow> run_statements ss (content d) \<noteq> None))"
proof -
  obtain ok d' where r: "gsignond_db_sql_database_transaction_exec ss d = (ok, d')" by force
  from transaction_exec_result [OF r] r show ?thesis
    by (cases ok) (auto simp: durable_def)
qed

theorem transaction_exec_atomic_witness:
  "durable (snd (gsignond_db_sql_database_transaction_exec [always (\<lambda>n. n + 1), always (\<lambda>n. n * 2)]
      ((gsignond_db_sql_database_init (3::nat) [])\<lparr>opened := True\<rparr>))) = 8"
proof -
  let ?d = "(gsignond_db_sql_database_init (3::nat) [])\<lparr>opened := True\<rparr>"
  have "faults ?d = []" "opened ?d" "snapshot ?d = None" "durable ?d = 3"
    by (simp_all add: gsignond_db_sql_database_init_def durable_def)
  with transaction_exec_atomic [of "[always (\<lambda>n. n + 1), always (\<lambda>n. n * 2)]" ?d] show ?thesis
    by (simp del: error_fields)
qed

text \<open>
  A commit that SQLite refuses, because another process reads, leaves the transaction open: there is
  no rollback on that path, and all later transactions of the connection fail.
\<close>

lemma failed_commit_blocks_writes:
  "let d = (gsignond_db_sql_database_init (0::nat)
         [SQLITE_OK, SQLITE_OK, SQLITE_OK, SQLITE_OK, SQLITE_OK, SQLITE_BUSY])\<lparr>opened := True\<rparr>;
       d1 = snd (gsignond_db_sql_database_transaction_exec [always (\<lambda>n. n + 1)] d)
   in snapshot d1 = Some 0 \<and> faults d1 = [] \<and>
      \<not> fst (gsignond_db_sql_database_transaction_exec [always (\<lambda>n. n + 1)] d1)"
  by code_simp

subsection \<open>Guarded writes and healthy databases\<close>

lemma set_error_fields [simp]:
  "content (gsignond_db_sql_database_set_last_error e d) = content d"
  "snapshot (gsignond_db_sql_database_set_last_error e d) = snapshot d"
  "opened (gsignond_db_sql_database_set_last_error e d) = opened d"
  "faults (gsignond_db_sql_database_set_last_error e d) = faults d"
  by (simp_all add: gsignond_db_sql_database_set_last_error_def gsignond_db_sql_database_clear_last_error_def)

lemma if_open_simps [simp]:
  "opened d \<Longrightarrow> if_open r f d = f d"
  "\<not> opened d \<Longrightarrow> if_open r f d = (r, gsignond_db_sql_database_set_last_error (Some GSIGNOND_DB_ERROR_NOT_OPEN) d)"
  by (simp_all add: if_open_def gsignond_db_sql_database_is_open_def)

lemma if_open_atomic:
  assumes "atomic_write f e"
  shows "atomic_write (if_open False f) e"
proof -
  have closed: "durable (gsignond_db_sql_database_set_last_error x d) = durable d" for x d
    by (cases "snapshot d") (simp_all add: durable_def)
  show ?thesis
  proof (unfold_locales, goal_cases)
    case (1 d d')
    then show ?case using atomic_write.write_ok [OF assms, of d d'] by (cases "opened d") auto
  next
    case (2 d d')
    then show ?case using atomic_write.write_fails [OF assms, of d d'] closed by (cases "opened d") auto
  next
    case (3 d)
    show ?case using atomic_write.write_opened [OF assms, of d] by (cases "opened d") auto
  next
    case (4 d)
    then show ?case using atomic_write.write_no_faults [OF assms, of d] by simp
  qed
qed

lemmas transaction_atomic = if_open_atomic [OF transaction.atomic_write_axioms]

text \<open>A healthy database: open, no transaction, no failing call ahead, one row per primary key.\<close>

definition healthy :: "'db sql_database \<Rightarrow> bool" where
  "healthy d \<longleftrightarrow> opened d \<and> snapshot d = None \<and> faults d = []"

lemma if_rows_eq: "if_rows (n, u, d) = (if n = 0 then None else Some u, d)"
  by (simp add: if_rows_def)

text \<open>A write of a healthy database that is not refused succeeds and leaves it healthy.\<close>

context atomic_write
begin

lemma write_healthy:
  assumes "healthy d"
  shows "healthy (snd (write d)) \<and>
     (case effect (content d) of None \<Rightarrow> \<not> fst (write d) \<and> content (snd (write d)) = content d
      | Some c \<Rightarrow> fst (write d) \<and> content (snd (write d)) = c)"
  using assms write_no_faults [of d] write_opened [of d] write_durable [of d]
  by (auto simp: healthy_def durable_def split: option.splits if_splits)

end

subsection \<open>Queries of a database without faults\<close>

definition ready :: "'db sql_database \<Rightarrow> bool" where
  "ready d \<longleftrightarrow> opened d \<and> faults d = []"

text \<open>A reading call returns \<open>v\<close> and leaves the database as it is.\<close>

definition yields :: "'v \<times> 'db sql_database \<Rightarrow> 'db sql_database \<Rightarrow> 'v \<Rightarrow> bool" where
  "yields r d v \<longleftrightarrow> fst r = v \<and> ready (snd r) \<and> content (snd r) = content d \<and> snapshot (snd r) = snapshot d"

lemma yields_return: "ready d \<Longrightarrow> yields (v, d) d v"
  by (simp add: yields_def)

lemma yields_bind:
  assumes "yields r d v"
    and "\<And>d'. ready d' \<Longrightarrow> content d' = content d \<Longrightarrow> yields (k v d') d' w"
  shows "yields (case r of (x, d') \<Rightarrow> k x d') d w"
proof -
  obtain d' where r: "r = (v, d')" using assms(1) by (cases r) (auto simp: yields_def)
  with assms(1) have "ready d'" "content d' = content d" "snapshot d' = snapshot d"
    by (auto simp: yields_def)
  with assms(2) [of d'] r show ?thesis by (simp add: yields_def)
qed

lemma yields_if_open: "opened d \<Longrightarrow> yields (f d) d v \<Longrightarrow> yields (if_open r f d) d v"
  by simp

lemma query_ready:
  assumes "ready d" "\<And>r u. cb r u = (True, g r u)"
  shows "yields (case gsignond_db_sql_database_query_exec q cb u d of (n, v, d') \<Rightarrow> ((n, v), d')) d
     (length (q (content d)), fold g (q (content d)) u)"
  using query_no_faults [of d cb q u] assms
  by (auto simp: ready_def yields_def same_data_def)

lemma rows_ready:
  assumes "ready d" "\<And>r u. cb r u = (True, g r u)"
  shows "yields (if_rows (gsignond_db_sql_database_query_exec q cb u d)) d
     (if q (content d) = [] then None else Some (fold g (q (content d)) u))"
  using query_no_faults [of d cb q u] assms
  by (auto simp: ready_def yields_def same_data_def if_rows_eq)

lemma fold_append: "fold (\<lambda>r u. u @ [f r]) rows acc = acc @ map f rows"
  by (induction rows arbitrary: acc) simp_all

lemma string_list_ready:
  "ready d \<Longrightarrow> yields (gsignond_db_sql_database_query_exec_string_list q d) d (q (content d))"
  using rows_ready [of d gsignond_db_read_strings "\<lambda>r u. u @ [r]" q "[]"]
  by (auto simp: gsignond_db_sql_database_query_exec_string_list_def gsignond_db_read_strings_def
      fold_append [of "\<lambda>r. r"] yields_def split: prod.split)

lemma string_tuple_ready:
  "ready d \<Longrightarrow> yields (gsignond_db_sql_database_query_exec_string_tuple q d) d
     (if q (content d) = [] then None else Some (fold (\<lambda>(k, v). AList.update k v) (q (content d)) []))"
  unfolding gsignond_db_sql_database_query_exec_string_tuple_def
  by (rule rows_ready) (simp_all add: gsignond_db_read_string_tuple_def split_beta)

lemma int_string_tuple_ready:
  assumes "ready d"
  shows "yields (gsignond_db_sql_database_query_exec_int_string_tuple q d) d
     (if q (content d) = [] then None
      else Some (fold (\<lambda>(k, v). AList.update k v) (map (\<lambda>(i, m). (word_of_int i, m)) (q (content d))) []))"
proof -
  have f: "fold (\<lambda>(i, m). AList.update (word_of_int i) m) rows acc =
      fold (\<lambda>(k, v). AList.update k v) (map (\<lambda>(i, m). (word_of_int i :: u32, m)) rows) acc"
    for rows :: "(int \<times> cstr) list" and acc
    by (induction rows arbitrary: acc) auto
  show ?thesis
    unfolding gsignond_db_sql_database_query_exec_int_string_tuple_def f [symmetric]
    by (rule rows_ready [OF assms]) (simp add: gsignond_db_read_int_string_tuple_def split_beta)
qed

lemma int_ready:
  assumes "ready d"
  shows "yields (gsignond_db_sql_database_query_exec_int q d) d
     (if q (content d) = [] then None else Some (word_of_int (last (q (content d)))))"
proof -
  have f: "fold (\<lambda>r u. word_of_int r) rows acc = (if rows = [] then acc else word_of_int (last rows))"
    for rows :: "int list" and acc :: u32
    by (induction rows arbitrary: acc) simp_all
  show ?thesis
    using rows_ready [OF assms, of gsignond_db_read_int "\<lambda>r u. word_of_int r" q 0]
    by (simp add: gsignond_db_sql_database_query_exec_int_def gsignond_db_read_int_def f split: if_splits)
qed

lemma int_array_ready:
  "ready d \<Longrightarrow> yields (gsignond_db_sql_database_query_exec_int_array q d) d
     (if q (content d) = [] then None else Some (map word_of_int (q (content d))))"
  using rows_ready [of d gsignond_db_read_array "\<lambda>r u. u @ [word_of_int r]" q "[]"]
  by (simp add: gsignond_db_sql_database_query_exec_int_array_def gsignond_db_read_array_def
      fold_append split: if_splits)

lemma fold_update_new:
  "keys_distinct (acc @ rows) \<Longrightarrow> fold (\<lambda>(k, v). AList.update k v) rows acc = acc @ rows"
proof (induction rows arbitrary: acc)
  case (Cons r rows)
  obtain k v where r: "r = (k, v)" by force
  have "k \<notin> fst ` set acc" using Cons.prems by (auto simp: r)
  then have "AList.update k v acc = acc @ [(k, v)]" by (induction acc) auto
  then show ?case using Cons by (simp add: r)
qed simp

end
