(* ===== verification/Gsso_Secret_Database.thy ===== *)
theory Gsso_Secret_Database
  imports Gsso_Sql_Database Gsso_Credentials Gsso_Dictionary
begin

text \<open>
  \<^verbatim>\<open>src/src/common/db/gsignond-db-secret-database.c\<close>: the tables of credentials and of meth
  entries. A row of CREDENTIALS is found by its id, a row of STORE by identity, meth and key. The
  queries print an id as an unsigned number, while \<^verbatim>\<open>sqlite3_bind_int\<close> stores it as a signed one.

  A value is stored as the characters of its type, a NUL and its serialised entries. Serialising is
  GLib's: the record \<open>codec\<close> holds what the code calls, and \<open>codec_ok\<close> states what GLib documents of it.

  Two calls of \<^verbatim>\<open>sqlite3_mprintf\<close> have a comma between the halves of the statement, so the format
  ends after \<^verbatim>\<open>identity_id = %u\<close> and the first argument is the address of the other half:
  \<open>literal\<close> is that address (its low 32 bits).
\<close>

record secret_content =
  credentials_tbl :: "(int \<times> (string \<times> string)) list"
  store_tbl :: "((int \<times> int \<times> string) \<times> string) list"
  secret_user_version :: int

type_synonym secret_db = "secret_content sql_database"

record codec =
  g_variant_get_data :: "gvariant \<Rightarrow> string"
  g_variant_new_from_data :: "string \<Rightarrow> string \<Rightarrow> gvariant"
  g_variant_type_get_string_length :: "string \<Rightarrow> nat"

definition codec_ok :: "codec \<Rightarrow> gvariant \<Rightarrow> bool" where
  "codec_ok cd v \<longleftrightarrow>
     g_variant_new_from_data cd (g_variant_type v) (g_variant_get_data cd v) = v \<and>
     (\<forall>s. g_variant_type_get_string_length cd (g_variant_type v @ s) = length (g_variant_type v))"

definition GSIGNOND_DB_MAX_DATA_STORAGE :: u32 where
  "GSIGNOND_DB_MAX_DATA_STORAGE = 4 * 1024"

subsection \<open>The statements\<close>

definition delete_store :: "int \<Rightarrow> secret_content \<Rightarrow> secret_content" where
  "delete_store i c = c\<lparr>store_tbl := filter (\<lambda>((j, _, _), _). j \<noteq> i) (store_tbl c)\<rparr>"

text \<open>With the trigger that deletes the data of a row before the row.\<close>

definition delete_credentials :: "int \<Rightarrow> secret_content \<Rightarrow> secret_content" where
  "delete_credentials i c =
     (if map_of (credentials_tbl c) i = None then c
      else (delete_store i c)\<lparr>credentials_tbl := AList.delete i (credentials_tbl c)\<rparr>)"

definition replace_credentials :: "int \<Rightarrow> string \<Rightarrow> string \<Rightarrow> secret_content \<Rightarrow> secret_content" where
  "replace_credentials i u p c = c\<lparr>credentials_tbl := AList.update i (u, p) (credentials_tbl c)\<rparr>"

definition replace_store :: "int \<Rightarrow> int \<Rightarrow> string \<Rightarrow> string \<Rightarrow> secret_content \<Rightarrow> secret_content" where
  "replace_store i m k v c = c\<lparr>store_tbl := AList.update (i, m, k) v (store_tbl c)\<rparr>"

text \<open>\<^verbatim>\<open>CREATE .. IF NOT EXISTS\<close> leaves existing tables; a new file has them empty.\<close>

definition gsignond_db_secret_database_create :: "secret_db \<Rightarrow> bool \<times> secret_db" where
  "gsignond_db_secret_database_create = if_open False (\<lambda>self.
     case gsignond_db_sql_database_get_db_version secret_user_version self of (v, self) \<Rightarrow>
       if 0 <s v then (True, self)
       else gsignond_db_sql_database_transaction_exec
              [always id, always id, always id, always (\<lambda>c. c\<lparr>secret_user_version := 1\<rparr>)] self)"

text \<open>The second statement finds no data of a deleted identity any more.\<close>

definition gsignond_db_secret_database_clear :: "secret_db \<Rightarrow> bool \<times> secret_db" where
  "gsignond_db_secret_database_clear = if_open False
     (gsignond_db_sql_database_transaction_exec
        [always (\<lambda>c. fold (\<lambda>(i, _) c. delete_credentials i c) (credentials_tbl c) c),
         always (\<lambda>c. c\<lparr>store_tbl := []\<rparr>)])"

subsection \<open>Credentials\<close>

definition gsignond_db_read_username_password :: "string \<times> string \<Rightarrow> credentials \<Rightarrow> bool \<times> credentials" where
  "gsignond_db_read_username_password row creds =
     (True, snd (gsignond_credentials_set_password
        (snd (gsignond_credentials_set_username creds (Some (fst row)))) (Some (snd row))))"

definition gsignond_db_secret_database_load_credentials :: "u32 \<Rightarrow> secret_db \<Rightarrow> credentials option \<times> secret_db" where
  "gsignond_db_secret_database_load_credentials ident = if_open None (\<lambda>self.
     case gsignond_db_sql_database_query_exec
        (\<lambda>c. case map_of (credentials_tbl c) (uint ident) of None \<Rightarrow> [] | Some r \<Rightarrow> [r])
        gsignond_db_read_username_password gsignond_credentials_new self of (rows, creds, self) \<Rightarrow>
     if rows = 0 then (None, self) else (Some (snd (gsignond_credentials_set_id creds ident)), self))"

definition gsignond_db_secret_database_update_credentials :: "credentials \<Rightarrow> secret_db \<Rightarrow> bool \<times> secret_db" where
  "gsignond_db_secret_database_update_credentials creds = if_open False
     (gsignond_db_sql_database_transaction_exec
        [always (replace_credentials (uint (gsignond_credentials_get_id creds))
           (or_empty (gsignond_credentials_get_username creds))
           (or_empty (gsignond_credentials_get_password creds)))])"

definition gsignond_db_secret_database_remove_credentials :: "u32 \<Rightarrow> secret_db \<Rightarrow> bool \<times> secret_db" where
  "gsignond_db_secret_database_remove_credentials ident = if_open False
     (gsignond_db_sql_database_transaction_exec [always (delete_credentials (uint ident)), always (delete_store (uint ident))])"

subsection \<open>Data\<close>

definition gsignond_db_read_key_value :: "codec \<Rightarrow> string \<times> string \<Rightarrow> dictionary \<Rightarrow> bool \<times> dictionary" where
  "gsignond_db_read_key_value cd row entries =
     (let type = snd row;
          type_len = g_variant_type_get_string_length cd type + 1;
          v_data = drop type_len (snd row);
          value = g_variant_new_from_data cd (take (type_len - 1) type) v_data
      in (True, snd (gsignond_dictionary_set entries (fst row) (Some value))))"

definition gsignond_db_secret_database_load_data ::
  "codec \<Rightarrow> u32 \<Rightarrow> u32 \<Rightarrow> secret_db \<Rightarrow> dictionary option \<times> secret_db" where
  "gsignond_db_secret_database_load_data cd ident meth = if_open None (\<lambda>self.
     if_rows (gsignond_db_sql_database_query_exec
       (\<lambda>c. map (\<lambda>((i, m, k), v). (k, v))
              (filter (\<lambda>((i, m, k), v). i = uint ident \<and> m = uint meth) (store_tbl c)))
       (gsignond_db_read_key_value cd) gsignond_dictionary_new self))"

text \<open>The length of an entry: key, type, NUL and data; the counter is 32 bits wide.\<close>

definition entry_size :: "codec \<Rightarrow> string \<Rightarrow> gvariant \<Rightarrow> nat" where
  "entry_size cd key value = length key +
     g_variant_type_get_string_length cd (g_variant_type value) + 1 + length (g_variant_get_data cd value)"

fun data_fits :: "codec \<Rightarrow> dictionary \<Rightarrow> u32 \<Rightarrow> bool" where
  "data_fits cd [] data_counter = True"
| "data_fits cd ((key, value) # rest) data_counter =
     (let data_counter = data_counter + of_nat (entry_size cd key value)
      in if data_counter \<ge> GSIGNOND_DB_MAX_DATA_STORAGE then False else data_fits cd rest data_counter)"

definition value_blob :: "codec \<Rightarrow> gvariant \<Rightarrow> string" where
  "value_blob cd value = g_variant_type value @ CHR 0x00 # g_variant_get_data cd value"

text \<open>Each entry is prepared, stepped and finalised.\<close>

fun insert_data :: "codec \<Rightarrow> u32 \<Rightarrow> u32 \<Rightarrow> dictionary \<Rightarrow> secret_db \<Rightarrow> bool \<times> secret_db" where
  "insert_data cd ident meth [] self = (True, self)"
| "insert_data cd ident meth ((key, value) # rest) self =
     (case sqlite_call self of (ret, self) \<Rightarrow>
        if ret \<noteq> SQLITE_OK then (False, self)
        else case sqlite_exec [always (replace_store (sint ident) (sint meth) key (value_blob cd value))] self of
          (False, self) \<Rightarrow> (False, self)
        | (True, self) \<Rightarrow>
            (case sqlite_call self of (ret, self) \<Rightarrow>
               if ret \<noteq> SQLITE_OK then (False, self) else insert_data cd ident meth rest self))"

definition gsignond_db_secret_database_update_data ::
  "u32 \<Rightarrow> codec \<Rightarrow> u32 \<Rightarrow> u32 \<Rightarrow> dictionary \<Rightarrow> secret_db \<Rightarrow> bool \<times> secret_db" where
  "gsignond_db_secret_database_update_data literal cd ident meth entries = if_open False (\<lambda>self.
     case gsignond_db_sql_database_start_transaction self of
       (False, self) \<Rightarrow> (False, self)
     | (True, self) \<Rightarrow>
        (case sqlite_exec [always (delete_store (uint literal))] self of
           (False, self) \<Rightarrow>
             (False, snd (gsignond_db_sql_database_rollback_transaction
               (gsignond_db_sql_database_update_error_from_db self)))
         | (True, self) \<Rightarrow>
             if \<not> data_fits cd entries 0 then
               (False, snd (gsignond_db_sql_database_rollback_transaction self))
             else case insert_data cd ident meth entries self of
               (False, self) \<Rightarrow>
                 (False, snd (gsignond_db_sql_database_rollback_transaction
                   (gsignond_db_sql_database_update_error_from_db self)))
             | (True, self) \<Rightarrow> gsignond_db_sql_database_commit_transaction self))"

definition gsignond_db_secret_database_remove_data ::
  "u32 \<Rightarrow> u32 \<Rightarrow> u32 \<Rightarrow> secret_db \<Rightarrow> bool \<times> secret_db" where
  "gsignond_db_secret_database_remove_data literal ident meth = if_open False
     (gsignond_db_sql_database_transaction_exec
        [always (if meth = 0 then delete_store (uint ident) else delete_store (uint literal))])"

subsection \<open>Every write is atomic\<close>

interpretation update_credentials: atomic_write "gsignond_db_secret_database_update_credentials creds"
    "\<lambda>c. Some (replace_credentials (uint (cred_id creds)) (or_empty (cred_username creds))
       (or_empty (cred_password creds)) c)"
  for creds
  using transaction_atomic [of "[always (replace_credentials (uint (cred_id creds))
      (or_empty (cred_username creds)) (or_empty (cred_password creds)))]"]
  by (simp add: gsignond_db_secret_database_update_credentials_def gsignond_credentials_get_id_def
      gsignond_credentials_get_username_def gsignond_credentials_get_password_def)

interpretation remove_credentials: atomic_write "gsignond_db_secret_database_remove_credentials ident"
    "\<lambda>c. Some (delete_store (uint ident) (delete_credentials (uint ident) c))" for ident
  using transaction_atomic [of "[always (delete_credentials (uint ident)), always (delete_store (uint ident))]"]
  by (simp add: gsignond_db_secret_database_remove_credentials_def comp_def)

interpretation remove_data: atomic_write "gsignond_db_secret_database_remove_data literal ident meth"
    "\<lambda>c. Some (delete_store (if meth = 0 then uint ident else uint literal) c)" for literal ident meth
  using transaction_atomic [of "[always (if meth = 0 then delete_store (uint ident) else delete_store (uint literal))]"]
  by (cases "meth = 0") (simp_all add: gsignond_db_secret_database_remove_data_def)

interpretation clear_secrets: atomic_write gsignond_db_secret_database_clear
    "\<lambda>c. Some ((fold (\<lambda>(i, _) c. delete_credentials i c) (credentials_tbl c) c)\<lparr>store_tbl := []\<rparr>)"
  using transaction_atomic [of "[always (\<lambda>c. fold (\<lambda>(i, _) c. delete_credentials i c) (credentials_tbl c) c),
      always (\<lambda>c. c\<lparr>store_tbl := []\<rparr>)]"]
  by (simp add: gsignond_db_secret_database_clear_def comp_def)

definition put_data :: "codec \<Rightarrow> u32 \<Rightarrow> u32 \<Rightarrow> dictionary \<Rightarrow> secret_content \<Rightarrow> secret_content" where
  "put_data cd ident meth entries =
     fold (\<lambda>(k, v). replace_store (sint ident) (sint meth) k (value_blob cd v)) entries"

lemma insert_data_result:
  "insert_data cd ident meth entries d = (ok, d') \<Longrightarrow>
     snapshot d' = snapshot d \<and> opened d' = opened d \<and>
     (faults d = [] \<longrightarrow> faults d' = [] \<and> ok) \<and>
     (ok \<longrightarrow> content d' = put_data cd ident meth entries (content d))"
proof (induction entries arbitrary: d)
  case Nil
  then show ?case by (simp add: put_data_def)
next
  case (Cons kv rest)
  obtain k v where kv: "kv = (k, v)" by force
  let ?s = "replace_store (sint ident) (sint meth) k (value_blob cd v)"
  obtain r1 d1 where 1: "sqlite_call d = (r1, d1)" by force
  obtain b d2 where 2: "sqlite_exec [always ?s] d1 = (b, d2)" by force
  obtain r3 d3 where 3: "sqlite_call d2 = (r3, d3)" by force
  note facts = same_data_call [OF 1, unfolded same_data_def] exec_always [OF 2]
    same_data_call [OF 3, unfolded same_data_def] call_no_faults [of d] call_no_faults [of d2]
  show ?case
  proof (cases "r1 = SQLITE_OK \<and> b \<and> r3 = SQLITE_OK")
    case True
    then have run: "insert_data cd ident meth rest d3 = (ok, d')"
      using Cons.prems 1 2 3 kv by (simp del: sqlite_exec.simps)
    from Cons.IH [OF this] True facts show ?thesis
      by (auto simp: put_data_def kv)
  next
    case False
    then have eq: "(ok, d') = (if r1 \<noteq> SQLITE_OK then (False, d1) else if \<not> b then (False, d2) else (False, d3))"
      using Cons.prems 1 2 3 kv by (cases b) (auto simp del: sqlite_exec.simps)
    then have "\<not> ok" by (simp split: if_splits)
    moreover have "snapshot d' = snapshot d \<and> opened d' = opened d"
      using eq facts by (simp split: if_splits)
    moreover have "faults d \<noteq> []"
    proof
      assume f: "faults d = []"
      with facts 1 have "r1 = SQLITE_OK" "faults d1 = []" by auto
      with facts 2 have "b" "faults d2 = []" by auto
      with facts 3 have "r3 = SQLITE_OK" by auto
      with False \<open>r1 = SQLITE_OK\<close> \<open>b\<close> show False by blast
    qed
    ultimately show ?thesis by blast
  qed
qed

lemma update_data_result:
  assumes "gsignond_db_secret_database_update_data literal cd ident meth entries d = (ok, d')"
    and o: "opened d"
  shows "opened d' \<and>
     (if ok then snapshot d = None \<and> snapshot d' = None \<and> data_fits cd entries 0 \<and>
        content d' = put_data cd ident meth entries (delete_store (uint literal) (content d))
      else durable d' = durable d) \<and>
     (faults d = [] \<and> snapshot d = None \<longrightarrow> faults d' = [] \<and> snapshot d' = None \<and> (ok \<longleftrightarrow> data_fits cd entries 0))"
proof -
  obtain b d1 where b: "gsignond_db_sql_database_start_transaction d = (b, d1)" by force
  obtain e d2 where e: "sqlite_exec [always (delete_store (uint literal))] d1 = (e, d2)" by force
  obtain n d3 where n: "insert_data cd ident meth entries d2 = (n, d3)" by force
  note B = start_result [OF b] and E = exec_always [OF e] and N = insert_data_result [OF n]
  have start: "gsignond_db_secret_database_update_data literal cd ident meth entries d =
      (if \<not> b then (False, d1)
       else if \<not> e then (False, snd (gsignond_db_sql_database_rollback_transaction
            (gsignond_db_sql_database_update_error_from_db d2)))
       else if \<not> data_fits cd entries 0 then (False, snd (gsignond_db_sql_database_rollback_transaction d2))
       else if \<not> n then (False, snd (gsignond_db_sql_database_rollback_transaction
            (gsignond_db_sql_database_update_error_from_db d3)))
       else gsignond_db_sql_database_commit_transaction d3)"
    using o b e n by (simp add: gsignond_db_secret_database_update_data_def del: sqlite_exec.simps)
  have roll: "durable (snd (gsignond_db_sql_database_rollback_transaction x)) = durable d \<and>
      opened (snd (gsignond_db_sql_database_rollback_transaction x)) \<and>
      (faults x = [] \<longrightarrow> faults (snd (gsignond_db_sql_database_rollback_transaction x)) = [] \<and>
         snapshot (snd (gsignond_db_sql_database_rollback_transaction x)) = None)"
    if "snapshot x = Some (content d)" "opened x" "snapshot d = None" for x
  proof -
    obtain r y where r: "gsignond_db_sql_database_rollback_transaction x = (r, y)" by force
    from rollback_result [OF r] that r show ?thesis by (auto simp: durable_def)
  qed
  show ?thesis
  proof (cases b)
    case False
    then show ?thesis
      using assms(1) start B o by (cases "snapshot d") (auto simp: durable_def)
  next
    case b_True: True
    with B o have d1: "snapshot d1 = Some (content d)" "opened d1" "snapshot d = None" "content d1 = content d"
      by auto
    with E have d2: "snapshot d2 = Some (content d)" "opened d2" by auto
    with N have d3: "snapshot d3 = Some (content d)" "opened d3" by auto
    show ?thesis
    proof (cases "e \<and> data_fits cd entries 0 \<and> n")
      case True
      then have c: "gsignond_db_sql_database_commit_transaction d3 = (ok, d')"
        using assms(1) start b_True by simp
      from commit_result [OF c] True B E N d1 d3 b_True show ?thesis
        by (auto simp: durable_def)
    next
      case False
      then have "ok = False" using assms(1) start b_True by (auto split: if_splits)
      moreover have "durable d' = durable d \<and> opened d' \<and>
          (faults d = [] \<longrightarrow> faults d' = [] \<and> snapshot d' = None \<and> \<not> data_fits cd entries 0)"
        using assms(1) start b_True False roll [of d2] roll [of d3] d1 d2 d3 B E N
          roll [of "gsignond_db_sql_database_update_error_from_db d2"]
          roll [of "gsignond_db_sql_database_update_error_from_db d3"]
        by (auto split: if_splits)
      ultimately show ?thesis using B o b_True by auto
    qed
  qed
qed

interpretation update_data: atomic_write
    "gsignond_db_secret_database_update_data literal cd ident meth entries"
    "\<lambda>c. if data_fits cd entries 0 then Some (put_data cd ident meth entries (delete_store (uint literal) c))
         else None"
  for literal cd ident meth entries
proof (unfold_locales, goal_cases)
  case (1 d d')
  then show ?case
    using update_data_result [of literal cd ident meth entries d True d']
    by (cases "opened d") (auto simp: gsignond_db_secret_database_update_data_def)
next
  case (2 d d')
  then show ?case
    using update_data_result [of literal cd ident meth entries d False d']
    by (cases "opened d"; cases "snapshot d")
       (auto simp: gsignond_db_secret_database_update_data_def durable_def)
next
  case (3 d)
  obtain ok d' where r: "gsignond_db_secret_database_update_data literal cd ident meth entries d = (ok, d')" by force
  then show ?case
    using update_data_result [OF r]
    by (cases "opened d") (auto simp: gsignond_db_secret_database_update_data_def)
next
  case (4 d)
  obtain ok d' where r: "gsignond_db_secret_database_update_data literal cd ident meth entries d = (ok, d')" by force
  with 4 update_data_result [OF r] show ?case by simp
qed

subsection \<open>What is stored is what is loaded\<close>

lemma load_credentials_healthy:
  assumes "healthy d"
  shows "\<exists>d'. gsignond_db_secret_database_load_credentials ident d =
     (map_option (\<lambda>(u, p). \<lparr>cred_id = ident, cred_username = Some u, cred_password = Some p\<rparr>)
        (map_of (credentials_tbl (content d)) (uint ident)), d') \<and> same_data d d'"
proof -
  let ?q = "\<lambda>c. case map_of (credentials_tbl c) (uint ident) of None \<Rightarrow> [] | Some r \<Rightarrow> [r]"
  have "fst (gsignond_db_read_username_password r u)" for r u
    by (simp add: gsignond_db_read_username_password_def)
  from query_no_faults [of d gsignond_db_read_username_password ?q gsignond_credentials_new, OF _ _ this]
  obtain d' where "gsignond_db_sql_database_query_exec ?q gsignond_db_read_username_password
      gsignond_credentials_new d = (length (?q (content d)),
        fold (\<lambda>r u. snd (gsignond_db_read_username_password r u)) (?q (content d)) gsignond_credentials_new, d')"
    "same_data d d'"
    using assms by (auto simp: healthy_def)
  then show ?thesis
    using assms
    by (auto simp: gsignond_db_secret_database_load_credentials_def healthy_def
        gsignond_db_read_username_password_def gsignond_credentials_new_def
        gsignond_credentials_set_username_def gsignond_credentials_set_password_def
        gsignond_credentials_set_id_def split: option.split)
qed

text \<open>The value a stored blob stands for.\<close>

definition decode :: "codec \<Rightarrow> string \<Rightarrow> gvariant" where
  "decode cd b = g_variant_new_from_data cd (take (g_variant_type_get_string_length cd b) b)
     (drop (g_variant_type_get_string_length cd b + 1) b)"

lemma decode_blob: "codec_ok cd v \<Longrightarrow> decode cd (value_blob cd v) = v"
  by (simp add: decode_def value_blob_def codec_ok_def)

definition stored_data :: "codec \<Rightarrow> int \<Rightarrow> int \<Rightarrow> secret_content \<Rightarrow> string \<Rightarrow> gvariant option" where
  "stored_data cd i m c k = map_option (decode cd) (map_of (store_tbl c) (i, m, k))"

definition as_map :: "dictionary option \<Rightarrow> string \<Rightarrow> gvariant option" where
  "as_map d = (case d of None \<Rightarrow> (\<lambda>_. None) | Some t \<Rightarrow> gsignond_dictionary_get t)"

lemma fold_read_key_value:
  "fold (\<lambda>r u. snd (gsignond_db_read_key_value cd r u)) rows t =
     fold (\<lambda>(k, v). AList.update k v) (map (\<lambda>(k, b). (k, decode cd b)) rows) t"
  by (induction rows arbitrary: t)
     (auto simp: gsignond_db_read_key_value_def decode_def dict_put_eq Let_def)

lemma selected_rows:
  fixes a b :: int
  assumes "keys_distinct tbl"
  defines "rows \<equiv> map (\<lambda>((i, m, k), v). (k, v)) (filter (\<lambda>((i, m, k), v). i = a \<and> m = b) tbl)"
  shows "keys_distinct rows" and "map_of rows k = map_of tbl (a, b, k)"
proof -
  have *: "(k, v) \<in> set rows \<longleftrightarrow> ((a, b, k), v) \<in> set tbl" for k v
    by (force simp: rows_def)
  show dist: "keys_distinct rows"
    using assms(1) unfolding rows_def
    by (induction tbl) (force simp: image_iff)+
  show "map_of rows k = map_of tbl (a, b, k)"
    using * map_of_eq_Some_iff [OF dist] map_of_eq_Some_iff [OF assms(1)]
    by (metis not_Some_eq)
qed

lemma load_data_healthy:
  assumes "healthy d" "keys_distinct (store_tbl (content d))"
  shows "as_map (fst (gsignond_db_secret_database_load_data cd ident meth d)) =
     stored_data cd (uint ident) (uint meth) (content d)"
proof -
  let ?q = "\<lambda>c. map (\<lambda>((i, m, k), v). (k, v))
    (filter (\<lambda>((i, m, k), v). i = uint ident \<and> m = uint meth) (store_tbl c))"
  let ?rows = "?q (content d)"
  have "fst (gsignond_db_read_key_value cd r u)" for r u
    by (simp add: gsignond_db_read_key_value_def Let_def)
  from query_no_faults [of d "gsignond_db_read_key_value cd" ?q gsignond_dictionary_new, OF _ _ this]
  obtain d' where q: "gsignond_db_sql_database_query_exec ?q (gsignond_db_read_key_value cd)
      gsignond_dictionary_new d = (length ?rows,
        fold (\<lambda>(k, v). AList.update k v) (map (\<lambda>(k, b). (k, decode cd b)) ?rows) [], d')"
    using assms(1) by (auto simp: healthy_def fold_read_key_value gsignond_dictionary_new_def)
  note rows = selected_rows [OF assms(2), of "uint ident" "uint meth"]
  have "map_of (fold (\<lambda>(k, v). AList.update k v) (map (\<lambda>(k, b). (k, decode cd b)) ?rows) []) =
      map_of (map (\<lambda>(k, b). (k, decode cd b)) ?rows)"
    using rows(1) by (intro map_of_fold_update_distinct) (simp add: comp_def split_beta)
  also have "\<dots> = stored_data cd (uint ident) (uint meth) (content d)"
    by (rule ext) (simp only: map_of_map comp_def rows(2) stored_data_def)
  finally show ?thesis
    using q assms(1) rows(2)
    by (auto simp: gsignond_db_secret_database_load_data_def healthy_def if_rows_eq as_map_def
        dict_get_fun)
qed
lemma map_of_filter_first: "map_of (filter (\<lambda>((j, _, _), _). j \<noteq> i) xs) (a, b, k) = (if a = i then None else map_of xs (a, b, k))"
  by (induction xs) auto

lemma delete_store_map:
  "map_of (store_tbl (delete_store i c)) (a, b, k) = (if a = i then None else map_of (store_tbl c) (a, b, k))"
  by (simp add: delete_store_def map_of_filter_first)

lemma delete_store_distinct:
  "keys_distinct (store_tbl c) \<Longrightarrow> keys_distinct (store_tbl (delete_store i c))"
  by (simp add: delete_store_def distinct_map_filter)

lemma put_data_fields:
  "credentials_tbl (put_data cd i m entries c) = credentials_tbl c"
  "keys_distinct (store_tbl c) \<Longrightarrow> keys_distinct (store_tbl (put_data cd i m entries c))"
  by (induction entries arbitrary: c) (auto simp: put_data_def replace_store_def)

lemma put_data_map:
  "map_of (store_tbl (put_data cd i m entries c)) (a, b, k) =
     (if a = sint i \<and> b = sint m then
        (case map_of (rev entries) k of Some v \<Rightarrow> Some (value_blob cd v) | None \<Rightarrow> map_of (store_tbl c) (a, b, k))
      else map_of (store_tbl c) (a, b, k))"
proof (induction entries arbitrary: c)
  case Nil
  then show ?case by (simp add: put_data_def)
next
  case (Cons kv entries)
  obtain k' v where kv: "kv = (k', v)" by force
  have "put_data cd i m (kv # entries) c =
      put_data cd i m entries (replace_store (sint i) (sint m) k' (value_blob cd v) c)"
    by (simp add: put_data_def kv)
  then show ?case
    using Cons.IH [of "replace_store (sint i) (sint m) k' (value_blob cd v) c"]
    by (auto simp: kv replace_store_def update_conv' map_add_def split: option.split)
qed

lemma sint_small: "uint (w :: u32) < 2 ^ 31 \<Longrightarrow> sint w = uint w"
  using uint_ge_0 [of w]
  by (simp only: sint_uint) (rule signed_take_bit_int_eq_self; simp add: order_trans [of _ 0])

lemma uint_eq: "uint (v :: u32) = uint w \<longleftrightarrow> v = w"
  by (simp add: word_uint_eq_iff)

text \<open>
  C14. Credentials: an update of a healthy database stores the id with the username and the
  password (the empty string for NULL) so that loading the id returns them, a removal
  makes the id unknown, neither touches other ids, and an update of any database that fails leaves
  the file as it was.
\<close>

theorem credentials_stored_and_removed:
  assumes "healthy d"
  shows "(let d' = snd (gsignond_db_secret_database_update_credentials c d) in
       fst (gsignond_db_secret_database_update_credentials c d) \<and> healthy d' \<and>
       fst (gsignond_db_secret_database_load_credentials j d') =
         (if j = cred_id c
          then Some \<lparr>cred_id = j, cred_username = Some (or_empty (cred_username c)),
                      cred_password = Some (or_empty (cred_password c))\<rparr>
          else fst (gsignond_db_secret_database_load_credentials j d))) \<and>
     (let d' = snd (gsignond_db_secret_database_remove_credentials i d) in
       fst (gsignond_db_secret_database_remove_credentials i d) \<and> healthy d' \<and>
       fst (gsignond_db_secret_database_load_credentials j d') =
         (if j = i then None else fst (gsignond_db_secret_database_load_credentials j d))) \<and>
     (\<not> fst (gsignond_db_secret_database_update_credentials c e) \<longrightarrow>
        durable (snd (gsignond_db_secret_database_update_credentials c e)) = durable e)"
proof -
  have load: "fst (gsignond_db_secret_database_load_credentials j x) =
      map_option (\<lambda>(u, p). \<lparr>cred_id = j, cred_username = Some u, cred_password = Some p\<rparr>)
        (map_of (credentials_tbl (content x)) (uint j))" if "healthy x" for x
    using load_credentials_healthy [OF that, of j] by auto
  have u: "fst (gsignond_db_secret_database_update_credentials c d)"
    "healthy (snd (gsignond_db_secret_database_update_credentials c d))"
    "credentials_tbl (content (snd (gsignond_db_secret_database_update_credentials c d))) =
       AList.update (uint (cred_id c)) (or_empty (cred_username c), or_empty (cred_password c))
         (credentials_tbl (content d))"
    using update_credentials.write_healthy [OF assms, of c] by (simp_all add: replace_credentials_def)
  have r: "fst (gsignond_db_secret_database_remove_credentials i d)"
    "healthy (snd (gsignond_db_secret_database_remove_credentials i d))"
    "content (snd (gsignond_db_secret_database_remove_credentials i d)) =
       delete_store (uint i) (delete_credentials (uint i) (content d))"
    using remove_credentials.write_healthy [OF assms, of i] by simp_all
  have "map_of (credentials_tbl (delete_store (uint i) (delete_credentials (uint i) (content d)))) (uint j) =
      (if j = i then None else map_of (credentials_tbl (content d)) (uint j))"
    by (auto simp: delete_store_def delete_credentials_def delete_conv' uint_eq)
  then show ?thesis
    using u r load [OF u(2)] load [OF r(2)] load [OF assms] update_credentials.write_durable [of c e]
    by (auto simp: Let_def update_conv' uint_eq)
qed

definition example_secret_db :: secret_db where
  "example_secret_db = (gsignond_db_sql_database_init
     \<lparr>credentials_tbl = [], store_tbl = [], secret_user_version = 1\<rparr> [])\<lparr>opened := True\<rparr>"

lemma example_secret_db_healthy: "healthy example_secret_db"
  by (simp add: example_secret_db_def healthy_def gsignond_db_sql_database_init_def)

theorem credentials_stored_and_removed_witness:
  "fst (gsignond_db_secret_database_load_credentials 3 (snd (gsignond_db_secret_database_update_credentials
      \<lparr>cred_id = 3, cred_username = Some ''bob'', cred_password = None\<rparr> example_secret_db))) =
    Some \<lparr>cred_id = 3, cred_username = Some ''bob'', cred_password = Some ''''\<rparr>"
  using credentials_stored_and_removed [OF example_secret_db_healthy,
      where c = "\<lparr>cred_id = 3, cred_username = Some ''bob'', cred_password = None\<rparr>" and j = 3]
  by (simp add: Let_def or_empty_def)

text \<open>
  C15. Data: an update of a healthy database accepts exactly the data that fits the limit; what it
  accepts is what loading returns for its keys, every other key of the identity and method keeps the
  value it had, and nothing else changes (for ids and methods below $2^{31}$, and unless an
  identity's number is the address of the literal); refused data changes nothing.
\<close>

theorem method_data_stored:
  assumes "healthy d" "keys_distinct (store_tbl (content d))" "keys_distinct entries"
    and "\<forall>v \<in> ran (map_of entries). codec_ok cd v"
    and "uint ident < 2 ^ 31" "uint meth < 2 ^ 31" "uint i < 2 ^ 31" "literal \<noteq> i"
  shows "let (ok, d') = gsignond_db_secret_database_update_data literal cd ident meth entries d in
     (ok \<longleftrightarrow> data_fits cd entries 0) \<and> healthy d' \<and>
     as_map (fst (gsignond_db_secret_database_load_data cd i m d')) =
       (if ok \<and> i = ident \<and> m = meth
        then as_map (fst (gsignond_db_secret_database_load_data cd i m d)) ++ map_of entries
        else as_map (fst (gsignond_db_secret_database_load_data cd i m d)))"
proof -
  let ?d' = "snd (gsignond_db_secret_database_update_data literal cd ident meth entries d)"
  note w = update_data.write_healthy [OF assms(1), of literal cd ident meth entries]
  have dist: "keys_distinct (store_tbl (content ?d'))"
    using w assms(2)
    by (cases "data_fits cd entries 0") (simp_all add: put_data_fields delete_store_distinct)
  note load = load_data_healthy [OF assms(1,2)] load_data_healthy [of ?d', OF _ dist]
  have rev: "map_of (rev entries) = map_of entries"
    using assms(3) by (intro map_of_eqI) (auto simp: rev_map [symmetric] map_of_eq_Some_iff)
  have dec: "decode cd (value_blob cd v) = v" if "map_of entries k = Some v" for k v
    using that assms(4) by (intro decode_blob) (auto simp: ran_def)
  have "stored_data cd (uint i) (uint m) (put_data cd ident meth entries (delete_store (uint literal) (content d))) =
     (if i = ident \<and> m = meth then stored_data cd (uint i) (uint m) (content d) ++ map_of entries
      else stored_data cd (uint i) (uint m) (content d))"
    using assms(5,6,8) dec
    by (auto simp: stored_data_def put_data_map delete_store_map sint_small uint_eq rev map_add_def fun_eq_iff
        split: option.split)
  with w load show ?thesis
    by (cases "data_fits cd entries 0") (auto simp: split_beta)
qed

definition string_codec :: codec where
  "string_codec = \<lparr>g_variant_get_data = (\<lambda>v. case v of VString s \<Rightarrow> s | _ \<Rightarrow> ''''),
     g_variant_new_from_data = (\<lambda>_ s. VString s), g_variant_type_get_string_length = (\<lambda>_. 1)\<rparr>"

theorem method_data_stored_witness:
  "as_map (fst (gsignond_db_secret_database_load_data string_codec 4 1
      (snd (gsignond_db_secret_database_update_data 77 string_codec 4 1 [(''token'', VString ''t'')] example_secret_db))))
    ''token'' = Some (VString ''t'')"
proof -
  have "healthy example_secret_db" "keys_distinct (store_tbl (content example_secret_db))"
    "keys_distinct [(''token'', VString ''t'')]"
    "\<forall>v \<in> ran (map_of [(''token'', VString ''t'')]). codec_ok string_codec v"
    "uint (4 :: u32) < 2 ^ 31" "uint (1 :: u32) < 2 ^ 31" "(77 :: u32) \<noteq> 4"
    "data_fits string_codec [(''token'', VString ''t'')] 0"
    by (simp_all add: example_secret_db_healthy) (simp_all add: example_secret_db_def string_codec_def codec_ok_def
      gsignond_db_sql_database_init_def entry_size_def GSIGNOND_DB_MAX_DATA_STORAGE_def Let_def)
  from method_data_stored [OF this(1-4), of 4 1 4 77 1] this show ?thesis
    by (simp add: split_beta Let_def del: data_fits.simps)
qed

text \<open>
  Removing: with method 0 all data of the identity goes, and removing the credentials of an
  identity also removes its data; the data of other identities stays. With another method the
  statement names the address of a literal instead of the identity, so that the call returns TRUE
  and the data stays.
\<close>

lemma method_data_removed:
  assumes "healthy d" "keys_distinct (store_tbl (content d))" "uint i < 2 ^ 31"
  shows "let (ok0, d0) = gsignond_db_secret_database_remove_data literal ident 0 d;
       (okc, dc) = gsignond_db_secret_database_remove_credentials ident d;
       (okm, dm) = gsignond_db_secret_database_remove_data literal ident 5 d;
       before = as_map (fst (gsignond_db_secret_database_load_data cd i m d))
     in ok0 \<and> okc \<and> okm \<and>
        as_map (fst (gsignond_db_secret_database_load_data cd i m d0)) = (if i = ident then Map.empty else before) \<and>
        as_map (fst (gsignond_db_secret_database_load_data cd i m dc)) = (if i = ident then Map.empty else before) \<and>
        (i \<noteq> literal \<longrightarrow> as_map (fst (gsignond_db_secret_database_load_data cd i m dm)) = before)"
proof -
  let ?d0 = "snd (gsignond_db_secret_database_remove_data literal ident 0 d)"
  let ?dm = "snd (gsignond_db_secret_database_remove_data literal ident 5 d)"
  let ?dc = "snd (gsignond_db_secret_database_remove_credentials ident d)"
  note w0 = remove_data.write_healthy [OF assms(1), of literal ident 0]
  note wm = remove_data.write_healthy [OF assms(1), of literal ident 5]
  note wc = remove_credentials.write_healthy [OF assms(1), of ident]
  have s: "stored_data cd (uint i) (uint m) (delete_store a c) =
      (if uint i = a then Map.empty else stored_data cd (uint i) (uint m) c)" for a c
    by (auto simp: stored_data_def delete_store_map)
  have c: "stored_data cd (uint i) (uint m) (delete_credentials a c) = stored_data cd (uint i) (uint m) c"
    if "uint i \<noteq> a" for a c
    using that s [of a c] by (simp add: delete_credentials_def stored_data_def fun_eq_iff)
  have k: "keys_distinct (store_tbl (delete_credentials a c))" if "keys_distinct (store_tbl c)" for a c
    using that delete_store_distinct [OF that, of a] by (simp add: delete_credentials_def)
  have "keys_distinct (store_tbl (content ?d0))" "keys_distinct (store_tbl (content ?dm))"
    "keys_distinct (store_tbl (content ?dc))"
    using w0 wm wc assms(2) by (simp_all add: delete_store_distinct k)
  then show ?thesis
    using w0 wm wc load_data_healthy [OF assms(1,2)] load_data_healthy [of ?d0] load_data_healthy [of ?dm]
      load_data_healthy [of ?dc]
    by (simp add: split_beta Let_def s c uint_eq)
qed

lemma method_data_removed_witness:
  "fst (gsignond_db_secret_database_remove_data 77 4 0 example_secret_db)"
proof -
  have "keys_distinct (store_tbl (content example_secret_db))"
    by (simp add: example_secret_db_def gsignond_db_sql_database_init_def)
  from method_data_removed [OF example_secret_db_healthy this, of 4 77 4 string_codec 0] show ?thesis
    by (simp add: split_beta Let_def)
qed


subsection \<open>The size limit\<close>

definition data_size :: "codec \<Rightarrow> dictionary \<Rightarrow> nat" where
  "data_size cd entries = (\<Sum>(key, value) \<leftarrow> entries. entry_size cd key value)"

lemma data_fits_sum:
  assumes "\<forall>(key, value) \<in> set entries. entry_size cd key value \<le> 2 ^ 32 - 2 ^ 12" "unat counter < 2 ^ 12"
  shows "data_fits cd entries counter \<longleftrightarrow> unat counter + data_size cd entries < 2 ^ 12"
  using assms
proof (induction entries arbitrary: counter)
  case Nil
  then show ?case by (simp add: data_size_def)
next
  case (Cons e entries)
  obtain key val where e: "e = (key, val)" by (cases e)
  let ?s = "entry_size cd key val"
  have s: "?s \<le> 2 ^ 32 - 2 ^ 12" using Cons.prems by (simp add: e)
  then have "unat counter + ?s < 2 ^ 32" using Cons.prems(2) by simp
  then have u: "unat (counter + of_nat ?s) = unat counter + ?s"
    by (simp add: unat_word_ariths unat_of_nat take_bit_eq_mod)
  have limit: "counter + of_nat ?s \<ge> GSIGNOND_DB_MAX_DATA_STORAGE \<longleftrightarrow> 2 ^ 12 \<le> unat counter + ?s"
    by (simp add: word_le_nat_alt u GSIGNOND_DB_MAX_DATA_STORAGE_def)
  show ?case
  proof (cases "2 ^ 12 \<le> unat counter + ?s")
    case True
    with limit show ?thesis by (simp add: e data_size_def Let_def)
  next
    case False
    with limit u Cons.prems Cons.IH [of "counter + of_nat ?s"] show ?thesis
      by (simp add: e data_size_def Let_def add.assoc)
  qed
qed

text \<open>
  C16. The limit on the data of an identity and a method, in a healthy database: keys, types, separators and values together
  have to be below 4096 bytes, and any data below is stored, for entries below $2^{32} - 2^{12}$ bytes; the
  bound matters, since the counter has 32 bits: an entry of $2^{32}$ bytes counts as nothing.
\<close>

theorem size_limit_exact:
  assumes "healthy d" "\<forall>(key, value) \<in> set entries. entry_size cd key value \<le> 2 ^ 32 - 2 ^ 12"
  shows "(fst (gsignond_db_secret_database_update_data literal cd ident meth entries d) \<longleftrightarrow> data_size cd entries < 4096) \<and>
    (\<forall>key val. entry_size cd key val = 2 ^ 32 \<longrightarrow> data_fits cd [(key, val)] 0)"
  using update_data.write_healthy [OF assms(1), of literal cd ident meth entries] data_fits_sum [OF assms(2), of 0]
  by (auto simp: GSIGNOND_DB_MAX_DATA_STORAGE_def split: option.splits if_splits)

theorem size_limit_exact_witness:
  "fst (gsignond_db_secret_database_update_data 77 string_codec 4 1 [(''token'', VString ''t'')] example_secret_db) \<and>
   data_size string_codec [(''token'', VString ''t'')] = 8"
proof -
  have s: "entry_size string_codec ''token'' (VString ''t'') = 8" by (simp add: entry_size_def string_codec_def)
  then have "\<forall>(key, value) \<in> set [(''token'', VString ''t'')]. entry_size string_codec key value \<le> 2 ^ 32 - 2 ^ 12" by simp
  from size_limit_exact [OF example_secret_db_healthy this, of 77 4 1] s show ?thesis by (simp add: data_size_def)
qed

end
