(* ===== verification/Gsso_Secret_Storage.thy ===== *)
theory Gsso_Secret_Storage
  imports Gsso_Secret_Database
begin

text \<open>
  \<^verbatim>\<open>src/src/common/db/gsignond-secret-storage.c\<close>: the class of storages, its default implementation
  over the secret database, and the contract that the credentials database relies on.

  The methods of the class are the fields of \<open>secret_storage_class\<close>; an extension may provide
  others, and the one of Tizen changes none. While there is no database object the file keeps the
  contents \<open>ss_file\<close>, and \<open>ss_faults\<close> are the results of the next calls of SQLite. The methods on
  data take the codec of GLib, and the address of the literal that the secret database passes.
\<close>

record 's secret_storage_class =
  class_open_db :: "'s \<Rightarrow> bool \<times> 's"
  class_close_db :: "'s \<Rightarrow> bool \<times> 's"
  class_clear_db :: "'s \<Rightarrow> bool \<times> 's"
  class_is_open_db :: "'s \<Rightarrow> bool"
  class_load_credentials :: "u32 \<Rightarrow> 's \<Rightarrow> credentials option \<times> 's"
  class_update_credentials :: "credentials \<Rightarrow> 's \<Rightarrow> bool \<times> 's"
  class_remove_credentials :: "u32 \<Rightarrow> 's \<Rightarrow> bool \<times> 's"
  class_check_credentials :: "credentials \<Rightarrow> 's \<Rightarrow> bool option \<times> 's"
  class_load_data :: "u32 \<Rightarrow> u32 \<Rightarrow> 's \<Rightarrow> dictionary option \<times> 's"
  class_update_data :: "u32 \<Rightarrow> u32 \<Rightarrow> dictionary \<Rightarrow> 's \<Rightarrow> bool \<times> 's"
  class_remove_data :: "u32 \<Rightarrow> u32 \<Rightarrow> 's \<Rightarrow> bool \<times> 's"
  class_get_last_error :: "'s \<Rightarrow> db_error option"

subsection \<open>The default implementation\<close>

record secret_storage =
  ss_dir :: cstr
  ss_database :: "secret_db option"
  ss_file :: secret_content
  ss_faults :: "sqlite_rc list"

text \<open>A call on the database; each of them returns \<open>r\<close> for a NULL pointer.\<close>

definition on_database :: "'r \<Rightarrow> (secret_db \<Rightarrow> 'r \<times> secret_db) \<Rightarrow> secret_storage \<Rightarrow> 'r \<times> secret_storage" where
  "on_database r f self =
     (case ss_database self of
        None \<Rightarrow> (r, self)
      | Some d \<Rightarrow> (case f d of (v, d) \<Rightarrow> (v, self\<lparr>ss_database := Some d\<rparr>)))"

definition is_open_db :: "secret_storage \<Rightarrow> bool" where
  "is_open_db self =
     (case ss_database self of None \<Rightarrow> False | Some d \<Rightarrow> gsignond_db_sql_database_is_open d)"

definition close_db :: "secret_storage \<Rightarrow> bool \<times> secret_storage" where
  "close_db self = (True, snd (on_database False gsignond_db_sql_database_close self))"

text \<open>
  The last reference to the database goes when opening fails. \<^verbatim>\<open>gsignond_secret_storage_is_open_db\<close>
  and \<^verbatim>\<open>close_db\<close> are called through the class, here with the default methods.
\<close>

definition open_db :: "secret_storage \<Rightarrow> bool \<times> secret_storage" where
  "open_db self =
     (if ss_dir self = None then (False, self)
      else
        let self = (if is_open_db self then snd (close_db self) else self);
            d = (case ss_database self of Some d \<Rightarrow> d
                 | None \<Rightarrow> gsignond_db_sql_database_init (ss_file self) (ss_faults self))
        in case gsignond_db_sql_database_open gsignond_db_secret_database_create d of
             (False, d) \<Rightarrow> (False, self\<lparr>ss_database := None, ss_file := durable d, ss_faults := faults d\<rparr>)
           | (True, d) \<Rightarrow> (True, self\<lparr>ss_database := Some d\<rparr>))"

definition clear_db :: "secret_storage \<Rightarrow> bool \<times> secret_storage" where
  "clear_db = on_database False gsignond_db_secret_database_clear"

definition load_credentials :: "u32 \<Rightarrow> secret_storage \<Rightarrow> credentials option \<times> secret_storage" where
  "load_credentials ident = on_database None (gsignond_db_secret_database_load_credentials ident)"

definition update_credentials :: "credentials \<Rightarrow> secret_storage \<Rightarrow> bool \<times> secret_storage" where
  "update_credentials creds = on_database False (gsignond_db_secret_database_update_credentials creds)"

definition remove_credentials :: "u32 \<Rightarrow> secret_storage \<Rightarrow> bool \<times> secret_storage" where
  "remove_credentials ident = on_database False (gsignond_db_secret_database_remove_credentials ident)"

text \<open>
  \<open>load\<close>: the class's method to load credentials. The result is \<open>None\<close> when the comparison reads a
  NULL string.
\<close>

definition check_credentials ::
  "(u32 \<Rightarrow> 's \<Rightarrow> credentials option \<times> 's) \<Rightarrow> credentials \<Rightarrow> 's \<Rightarrow> bool option \<times> 's" where
  "check_credentials load creds self =
     (case load (gsignond_credentials_get_id creds) self of
        (None, self) \<Rightarrow> (Some False, self)
      | (Some stored_creds, self) \<Rightarrow> (gsignond_credentials_equal False creds stored_creds, self))"

definition load_data :: "codec \<Rightarrow> u32 \<Rightarrow> u32 \<Rightarrow> secret_storage \<Rightarrow> dictionary option \<times> secret_storage" where
  "load_data cd ident meth = on_database None (gsignond_db_secret_database_load_data cd ident meth)"

definition update_data ::
  "u32 \<Rightarrow> codec \<Rightarrow> u32 \<Rightarrow> u32 \<Rightarrow> dictionary \<Rightarrow> secret_storage \<Rightarrow> bool \<times> secret_storage" where
  "update_data literal cd ident meth entries =
     on_database False (gsignond_db_secret_database_update_data literal cd ident meth entries)"

definition remove_data :: "u32 \<Rightarrow> u32 \<Rightarrow> u32 \<Rightarrow> secret_storage \<Rightarrow> bool \<times> secret_storage" where
  "remove_data literal ident meth = on_database False (gsignond_db_secret_database_remove_data literal ident meth)"

definition get_last_error :: "secret_storage \<Rightarrow> db_error option" where
  "get_last_error self =
     (case ss_database self of None \<Rightarrow> None | Some d \<Rightarrow> gsignond_db_sql_database_get_last_error d)"

definition gsignond_secret_storage_class_init :: "u32 \<Rightarrow> codec \<Rightarrow> secret_storage secret_storage_class" where
  "gsignond_secret_storage_class_init literal cd =
     \<lparr>class_open_db = open_db, class_close_db = close_db, class_clear_db = clear_db,
      class_is_open_db = is_open_db, class_load_credentials = load_credentials,
      class_update_credentials = update_credentials, class_remove_credentials = remove_credentials,
      class_check_credentials = check_credentials load_credentials,
      class_load_data = load_data cd, class_update_data = update_data literal cd,
      class_remove_data = remove_data literal, class_get_last_error = get_last_error\<rparr>"

definition gsignond_secret_storage_init :: "cstr \<Rightarrow> secret_content \<Rightarrow> sqlite_rc list \<Rightarrow> secret_storage" where
  "gsignond_secret_storage_init dir file fs =
     \<lparr>ss_dir = dir, ss_database = Some (gsignond_db_sql_database_init file fs), ss_file = file, ss_faults = fs\<rparr>"

subsection \<open>The methods of a storage\<close>

definition gsignond_secret_storage_open_db :: "'s secret_storage_class \<Rightarrow> 's \<Rightarrow> bool \<times> 's" where
  "gsignond_secret_storage_open_db klass self = class_open_db klass self"

definition gsignond_secret_storage_close_db :: "'s secret_storage_class \<Rightarrow> 's \<Rightarrow> bool \<times> 's" where
  "gsignond_secret_storage_close_db klass self = class_close_db klass self"

definition gsignond_secret_storage_clear_db :: "'s secret_storage_class \<Rightarrow> 's \<Rightarrow> bool \<times> 's" where
  "gsignond_secret_storage_clear_db klass self = class_clear_db klass self"

definition gsignond_secret_storage_is_open_db :: "'s secret_storage_class \<Rightarrow> 's \<Rightarrow> bool" where
  "gsignond_secret_storage_is_open_db klass self = class_is_open_db klass self"

definition gsignond_secret_storage_load_credentials ::
  "'s secret_storage_class \<Rightarrow> u32 \<Rightarrow> 's \<Rightarrow> credentials option \<times> 's" where
  "gsignond_secret_storage_load_credentials klass ident self = class_load_credentials klass ident self"

definition gsignond_secret_storage_update_credentials ::
  "'s secret_storage_class \<Rightarrow> credentials \<Rightarrow> 's \<Rightarrow> bool \<times> 's" where
  "gsignond_secret_storage_update_credentials klass creds self = class_update_credentials klass creds self"

definition gsignond_secret_storage_remove_credentials ::
  "'s secret_storage_class \<Rightarrow> u32 \<Rightarrow> 's \<Rightarrow> bool \<times> 's" where
  "gsignond_secret_storage_remove_credentials klass ident self = class_remove_credentials klass ident self"

definition gsignond_secret_storage_check_credentials ::
  "'s secret_storage_class \<Rightarrow> credentials \<Rightarrow> 's \<Rightarrow> bool option \<times> 's" where
  "gsignond_secret_storage_check_credentials klass creds self = class_check_credentials klass creds self"

definition gsignond_secret_storage_load_data ::
  "'s secret_storage_class \<Rightarrow> u32 \<Rightarrow> u32 \<Rightarrow> 's \<Rightarrow> dictionary option \<times> 's" where
  "gsignond_secret_storage_load_data klass ident meth self = class_load_data klass ident meth self"

definition gsignond_secret_storage_update_data ::
  "'s secret_storage_class \<Rightarrow> u32 \<Rightarrow> u32 \<Rightarrow> dictionary \<Rightarrow> 's \<Rightarrow> bool \<times> 's" where
  "gsignond_secret_storage_update_data klass ident meth entries self = class_update_data klass ident meth entries self"

definition gsignond_secret_storage_remove_data ::
  "'s secret_storage_class \<Rightarrow> u32 \<Rightarrow> u32 \<Rightarrow> 's \<Rightarrow> bool \<times> 's" where
  "gsignond_secret_storage_remove_data klass ident meth self = class_remove_data klass ident meth self"

definition gsignond_secret_storage_get_last_error :: "'s secret_storage_class \<Rightarrow> 's \<Rightarrow> db_error option" where
  "gsignond_secret_storage_get_last_error klass self = class_get_last_error klass self"

lemmas storage_methods =
  gsignond_secret_storage_open_db_def gsignond_secret_storage_close_db_def
  gsignond_secret_storage_clear_db_def gsignond_secret_storage_is_open_db_def
  gsignond_secret_storage_load_credentials_def gsignond_secret_storage_update_credentials_def
  gsignond_secret_storage_remove_credentials_def gsignond_secret_storage_check_credentials_def
  gsignond_secret_storage_load_data_def gsignond_secret_storage_update_data_def
  gsignond_secret_storage_remove_data_def gsignond_secret_storage_get_last_error_def

subsection \<open>The contract of a storage\<close>

text \<open>
  What the credentials database relies on: on a usable storage (open, with no failing call ahead)
  the methods on credentials are those of a map from ids to pairs of a user name and a password.
\<close>

locale credential_store =
  fixes klass :: "'s secret_storage_class"
    and usable :: "'s \<Rightarrow> bool"
    and stored :: "'s \<Rightarrow> u32 \<Rightarrow> (string \<times> string) option"
  assumes usable_open: "usable s \<Longrightarrow> gsignond_secret_storage_is_open_db klass s"
    and load_law: "usable s \<Longrightarrow> gsignond_secret_storage_load_credentials klass i s = (r, s') \<Longrightarrow>
      usable s' \<and> stored s' = stored s \<and>
      r = map_option (\<lambda>(u, p). \<lparr>cred_id = i, cred_username = Some u, cred_password = Some p\<rparr>) (stored s i)"
    and update_law: "usable s \<Longrightarrow> gsignond_secret_storage_update_credentials klass c s = (ok, s') \<Longrightarrow>
      ok \<and> usable s' \<and> stored s' = (stored s)(cred_id c \<mapsto> (or_empty (cred_username c), or_empty (cred_password c)))"
    and remove_law: "usable s \<Longrightarrow> gsignond_secret_storage_remove_credentials klass i s = (ok, s') \<Longrightarrow>
      ok \<and> usable s' \<and> stored s' = (stored s)(i := None)"
    and check_law: "usable s \<Longrightarrow> gsignond_secret_storage_check_credentials klass c s = (b, s') \<Longrightarrow>
      usable s' \<and> stored s' = stored s \<and> b = (case stored s (cred_id c) of None \<Rightarrow> Some False
        | Some (u, p) \<Rightarrow> gsignond_credentials_equal False c
            \<lparr>cred_id = cred_id c, cred_username = Some u, cred_password = Some p\<rparr>)"

definition storage_usable :: "secret_storage \<Rightarrow> bool" where
  "storage_usable s \<longleftrightarrow> (\<exists>d. ss_database s = Some d \<and> healthy d)"

definition storage_credentials :: "secret_storage \<Rightarrow> u32 \<Rightarrow> (string \<times> string) option" where
  "storage_credentials s i = (case ss_database s of None \<Rightarrow> None | Some d \<Rightarrow> map_of (credentials_tbl (content d)) (uint i))"

text \<open>The default implementation keeps the contract.\<close>

interpretation default_storage: credential_store "gsignond_secret_storage_class_init literal cd"
    storage_usable storage_credentials for literal cd
proof -
  have load: "storage_usable s' \<and> storage_credentials s' = storage_credentials s \<and>
      r = map_option (\<lambda>(u, p). \<lparr>cred_id = i, cred_username = Some u, cred_password = Some p\<rparr>) (storage_credentials s i)"
    if us: "storage_usable s" and eq: "load_credentials i s = (r, s')" for s i r s'
  proof -
    obtain d where d: "ss_database s = Some d" "healthy d" using us by (auto simp: storage_usable_def)
    from load_credentials_healthy [OF d(2), of i] d eq show ?thesis
      by (auto simp: load_credentials_def on_database_def storage_usable_def storage_credentials_def
          same_data_def healthy_def fun_eq_iff)
  qed
  have update: "ok \<and> storage_usable s' \<and> storage_credentials s' =
      (storage_credentials s)(cred_id c \<mapsto> (or_empty (cred_username c), or_empty (cred_password c)))"
    if us: "storage_usable s" and eq: "update_credentials c s = (ok, s')" for s c ok s'
  proof -
    obtain d where d: "ss_database s = Some d" "healthy d" using us by (auto simp: storage_usable_def)
    from update_credentials.write_healthy [OF d(2), of c] d eq show ?thesis
      by (auto simp: update_credentials_def on_database_def storage_usable_def storage_credentials_def
          replace_credentials_def update_conv' uint_eq fun_eq_iff split: prod.splits)
  qed
  have remove: "ok \<and> storage_usable s' \<and> storage_credentials s' = (storage_credentials s)(i := None)"
    if us: "storage_usable s" and eq: "remove_credentials i s = (ok, s')" for s i ok s'
  proof -
    obtain d where d: "ss_database s = Some d" "healthy d" using us by (auto simp: storage_usable_def)
    have "map_of (credentials_tbl (delete_store k (delete_credentials (uint i) c))) (uint j) =
        (if j = i then None else map_of (credentials_tbl c) (uint j))" for k c j
      by (auto simp: delete_store_def delete_credentials_def delete_conv' uint_eq)
    with remove_credentials.write_healthy [OF d(2), of i] d eq show ?thesis
      by (auto simp: remove_credentials_def on_database_def storage_usable_def storage_credentials_def
          fun_eq_iff split: prod.splits)
  qed
  have check: "storage_usable s' \<and> storage_credentials s' = storage_credentials s \<and>
      b = (case storage_credentials s (cred_id c) of None \<Rightarrow> Some False
        | Some (u, p) \<Rightarrow> gsignond_credentials_equal False c
            \<lparr>cred_id = cred_id c, cred_username = Some u, cred_password = Some p\<rparr>)"
    if us: "storage_usable s" and eq: "check_credentials load_credentials c s = (b, s')" for s c b s'
  proof -
    obtain r s1 where l: "load_credentials (cred_id c) s = (r, s1)" by force
    from load [OF us this] eq l show ?thesis
      by (auto simp: check_credentials_def gsignond_credentials_get_id_def split: option.splits)
  qed
  show "credential_store (gsignond_secret_storage_class_init literal cd) storage_usable storage_credentials"
  proof (unfold_locales, unfold storage_methods gsignond_secret_storage_class_init_def secret_storage_class.simps)
    show "is_open_db s" if "storage_usable s" for s
      using that by (auto simp: is_open_db_def storage_usable_def healthy_def gsignond_db_sql_database_is_open_def)
  qed (fact load update remove check)+
qed

end
