(* ===== verification/Gsso_Identity_Fields.thy ===== *)
theory Gsso_Identity_Fields
  imports Gsso_Identity_Info
begin

text \<open>
  Laws of the accessors of an identity description, for the components that build or change one: a
  getter reads one place of the record (the slot of its setter) and returns what the setter was
  given, so that it is not changed by the setters of the other places.
\<close>

locale identity_field = tracked_setter set current slot
  for set :: "identity_info \<Rightarrow> 'v \<Rightarrow> bool \<times> identity_info"
    and current :: "identity_info \<Rightarrow> 'v \<Rightarrow> bool"
    and slot :: slot +
  fixes get :: "identity_info \<Rightarrow> 'g"
    and result :: "'v \<Rightarrow> 'g"
    and valid :: "'v \<Rightarrow> bool"
  assumes get_local: "slot_value a slot = slot_value b slot \<Longrightarrow> get a = get b"
    and get_set: "valid v \<Longrightarrow> get (snd (set info v)) = result v"
begin

text \<open>After the setter and changes of other places the getter returns the value.\<close>

lemma get_after: "valid v \<Longrightarrow> slot_value info' slot = slot_value (snd (set info v)) slot \<Longrightarrow> get info' = result v"
  using get_local [of info' "snd (set info v)"] get_set by simp

end

lemma methods_from_variant:
  assumes "keys_distinct ms"
  shows "map_of (read_methods (g_variant_children (methods_to_variant ms)) acc) m =
    (case map_of ms m of Some s \<Rightarrow> Some (sort_cmp strcmp s) | None \<Rightarrow> map_of acc m)"
  using assms
proof (induction ms arbitrary: acc)
  case Nil
  then show ?case by (simp add: methods_to_variant_def)
next
  case (Cons e ms)
  obtain k s where e: "e = (k, s)" by force
  have vs: "variant_strings (map VString xs) = Some xs" for xs by (induction xs) auto
  have "read_methods (g_variant_children (methods_to_variant (e # ms))) acc =
      read_methods (g_variant_children (methods_to_variant ms)) (AList.update k (sort_cmp strcmp s) acc)"
    by (simp add: methods_to_variant_def e vs sort_cmp_def)
  moreover have "map_of ms k = None" using Cons.prems by (simp add: e map_of_eq_None_iff)
  ultimately show ?case
    using Cons by (auto simp: e update_conv' split: option.split)
qed

lemma contexts_from_variant:
  "acl \<noteq> [] \<Longrightarrow> gsignond_security_context_list_to_variant acl = Some v \<Longrightarrow>
     gsignond_security_context_list_from_variant v = map Some acl"
  by (auto simp: gsignond_security_context_list_to_variant_def gsignond_security_context_list_from_variant_def
      gsignond_security_context_to_variant_def gsignond_security_context_new_from_values_def)

interpretation id_field: identity_field gsignond_identity_info_set_id
    "\<lambda>i v. gsignond_identity_info_get_id i = v" "Slot_entry key_ID"
    gsignond_identity_info_get_id "\<lambda>v. v" "\<lambda>_. True"
  by unfold_locales (auto simp: gsignond_identity_info_get_id_def gsignond_identity_info_set_id_def
      info_set_entry_simps update_conv')

interpretation username_secret_field: identity_field gsignond_identity_info_set_username_secret
    "\<lambda>i v. gsignond_identity_info_get_is_username_secret i = v" "Slot_entry key_USERNAME_IS_SECRET"
    gsignond_identity_info_get_is_username_secret "\<lambda>v. v" "\<lambda>_. True"
  by unfold_locales (auto simp: gsignond_identity_info_get_is_username_secret_def
      gsignond_identity_info_set_username_secret_def info_set_entry_simps update_conv')

interpretation store_secret_field: identity_field gsignond_identity_info_set_store_secret
    "\<lambda>i v. gsignond_identity_info_get_store_secret i = v" "Slot_entry key_STORESECRET"
    gsignond_identity_info_get_store_secret "\<lambda>v. v" "\<lambda>_. True"
  by unfold_locales (auto simp: gsignond_identity_info_get_store_secret_def
      gsignond_identity_info_set_store_secret_def info_set_entry_simps update_conv')

interpretation validated_field: identity_field gsignond_identity_info_set_validated
    "\<lambda>i v. gsignond_identity_info_get_validated i = v" "Slot_entry key_VALIDATED"
    gsignond_identity_info_get_validated "\<lambda>v. v" "\<lambda>_. True"
  by unfold_locales (auto simp: gsignond_identity_info_get_validated_def
      gsignond_identity_info_set_validated_def info_set_entry_simps update_conv')

interpretation type_field: identity_field gsignond_identity_info_set_identity_type
    "\<lambda>i v. gsignond_identity_info_get_identity_type i = v" "Slot_entry key_TYPE"
    gsignond_identity_info_get_identity_type "\<lambda>v. v" "\<lambda>_. True"
  by unfold_locales (auto simp: gsignond_identity_info_get_identity_type_def
      gsignond_identity_info_set_identity_type_def info_set_entry_simps update_conv')

interpretation username_field: identity_field gsignond_identity_info_set_username
    "\<lambda>i v. gsignond_identity_info_get_username i = v" "Slot_username"
    gsignond_identity_info_get_username "\<lambda>v. v" "\<lambda>_. True"
  by unfold_locales (auto simp: gsignond_identity_info_get_username_def
      gsignond_identity_info_set_username_def Let_def gsignond_identity_info_set_edit_flags_def
      elim: option.inj_map_strong [rotated])

interpretation secret_field: identity_field gsignond_identity_info_set_secret
    "\<lambda>i v. gsignond_identity_info_get_secret i = v" "Slot_secret"
    gsignond_identity_info_get_secret "\<lambda>v. v" "\<lambda>_. True"
  by unfold_locales (auto simp: gsignond_identity_info_get_secret_def
      gsignond_identity_info_set_secret_def Let_def gsignond_identity_info_set_edit_flags_def
      elim: option.inj_map_strong [rotated])

interpretation caption_field: identity_field gsignond_identity_info_set_caption
    "\<lambda>i v. gsignond_identity_info_get_caption i = v" "Slot_entry key_CAPTION"
    gsignond_identity_info_get_caption "\<lambda>v. v" "\<lambda>v. v \<noteq> None"
  by unfold_locales (auto simp: gsignond_identity_info_get_caption_def
      gsignond_identity_info_set_caption_def Let_def info_set_entry_simps update_conv' g_variant_new_string_def)

interpretation realms_field: identity_field gsignond_identity_info_set_realms
    "\<lambda>i v. v \<noteq> None \<and> info_get i key_REALMS \<noteq> None \<and> info_get i key_REALMS = gsignond_sequence_to_variant v"
    "Slot_entry key_REALMS"
    gsignond_identity_info_get_realms "map_option (sort_cmp strcmp)" "\<lambda>v. v \<noteq> None"
  by unfold_locales (auto simp: gsignond_identity_info_get_realms_def
      gsignond_identity_info_set_realms_def Let_def info_set_entry_simps update_conv'
      sort_cmp_def)

interpretation methods_field: identity_field gsignond_identity_info_set_methods
    "\<lambda>i v. v \<noteq> None \<and> info_get i key_AUTHMETHODS = map_option methods_to_variant v"
    "Slot_entry key_AUTHMETHODS"
    "\<lambda>i. map_option map_of (gsignond_identity_info_get_methods i)"
    "map_option (\<lambda>ms. map_option (sort_cmp strcmp) \<circ> map_of ms)"
    "\<lambda>v. \<exists>ms. v = Some ms \<and> keys_distinct ms"
  by unfold_locales (auto simp: gsignond_identity_info_get_methods_def
      gsignond_identity_info_set_methods_def Let_def info_set_entry_simps update_conv' fun_eq_iff
      methods_from_variant split: option.split)

interpretation acl_field: identity_field gsignond_identity_info_set_access_control_list
    "\<lambda>i v. info_get i key_ACL = None \<and> v = [] \<or>
       info_get i key_ACL \<noteq> None \<and> info_get i key_ACL = gsignond_security_context_list_to_variant v"
    "Slot_entry key_ACL"
    gsignond_identity_info_get_access_control_list "map Some" "\<lambda>v. v \<noteq> []"
  by unfold_locales (auto simp: gsignond_identity_info_get_access_control_list_def
      gsignond_identity_info_set_access_control_list_def Let_def info_set_entry_simps update_conv'
      contexts_from_variant gsignond_security_context_list_to_variant_def split: option.split)

interpretation owner_field: identity_field gsignond_identity_info_set_owner
    "\<lambda>i v. v \<noteq> None \<and> gsignond_identity_info_get_owner i \<noteq> None \<and>
       gsignond_security_context_compare (gsignond_identity_info_get_owner i) v = 0"
    "Slot_entry key_OWNER"
    gsignond_identity_info_get_owner "\<lambda>v. v" "\<lambda>v. v \<noteq> None"
  by unfold_locales (auto simp: gsignond_identity_info_get_owner_def
      gsignond_identity_info_set_owner_def Let_def info_set_entry_simps update_conv'
      gsignond_security_context_to_variant_def gsignond_security_context_new_from_values_def secord.cmp_eq
      split: option.split)

lemmas setters_other =
  set_id.set_other set_username_secret.set_other set_store_secret.set_other set_validated.set_other
  set_identity_type.set_other set_username.set_other set_secret.set_other set_caption.set_other
  set_realms.set_other set_methods.set_other set_acl.set_other set_owner.set_other

end
