(* ===== verification/Gsso_Metadata_Database.thy ===== *)
theory Gsso_Metadata_Database
  imports Gsso_Sql_Database Gsso_Identity_Fields
begin

text \<open>
  \<^verbatim>\<open>src/src/daemon/db/gsignond-db-metadata-database.c\<close>: the tables of identities, their realms,
  methods and mechanisms, security contexts, access control lists, owners and references.

  A table is a list of rows; a statement is a function on the tables that follows its SQL text and
  the schema: the unique columns, the foreign keys, and the triggers. Foreign keys are checked at
  the end of a statement, which fails when one dangles. The triggers on insertion roll the
  transaction back when the identity is unknown; those for the other keys never fire, because the
  values are looked up and NULL when missing. Each trigger on the deletion of a row of ACL, REFS or
  OWNER deletes the context of the row when the other two tables do not use it. The order in which
  a deleted identity's rows in the other tables are deleted is not specified by SQLite and is the
  parameter \<open>order\<close>. The build option for triggers that delete methods is taken to be off, as it is
  by default; queries whose order SQLite does not specify list the rows in the order of insertion.
\<close>

record identity_row =
  row_caption :: string
  row_username :: string
  row_flags :: u32
  row_type :: u32

record acl_row =
  acl_identity :: int
  acl_method :: "int option"
  acl_mechanism :: "int option"
  acl_secctx :: "int option"

record meta_content =
  has_tables :: bool
  meta_user_version :: int
  identity_tbl :: "(int \<times> identity_row) list"
  identity_seq :: int
  identity_rowid :: int
  methods_tbl :: "(int \<times> string) list"
  methods_seq :: int
  mechanisms_tbl :: "(int \<times> string) list"
  mechanisms_seq :: int
  secctx_tbl :: "(int \<times> string \<times> string) list"
  secctx_seq :: int
  realms_tbl :: "(int \<times> string) list"
  acl_tbl :: "acl_row list"
  refs_tbl :: "(int \<times> int option \<times> string) list"
  owner_tbl :: "(int \<times> int option) list"

type_synonym meta_db = "meta_content sql_database"

definition new_metadata_file :: meta_content where
  "new_metadata_file =
     \<lparr>has_tables = False, meta_user_version = 0, identity_tbl = [], identity_seq = 0,
      identity_rowid = 0, methods_tbl = [], methods_seq = 0, mechanisms_tbl = [], mechanisms_seq = 0,
      secctx_tbl = [], secctx_seq = 0, realms_tbl = [], acl_tbl = [], refs_tbl = [], owner_tbl = []\<rparr>"

datatype cascade = On_realms | On_acl | On_refs | On_owner

subsection \<open>Keys\<close>

definition identity_ids :: "meta_content \<Rightarrow> int set" where
  "identity_ids c = fst ` set (identity_tbl c)"

text \<open>A key that is NULL refers to nothing.\<close>

definition refers :: "int option \<Rightarrow> (int \<times> 'a) list \<Rightarrow> bool" where
  "refers k tbl = (case k of None \<Rightarrow> True | Some i \<Rightarrow> i \<in> fst ` set tbl)"

definition foreign_keys_ok :: "meta_content \<Rightarrow> bool" where
  "foreign_keys_ok c \<longleftrightarrow>
     (\<forall>r \<in> set (realms_tbl c). fst r \<in> identity_ids c) \<and>
     (\<forall>r \<in> set (acl_tbl c). acl_identity r \<in> identity_ids c \<and> refers (acl_method r) (methods_tbl c) \<and>
        refers (acl_mechanism r) (mechanisms_tbl c) \<and> refers (acl_secctx r) (secctx_tbl c)) \<and>
     (\<forall>r \<in> set (refs_tbl c). fst r \<in> identity_ids c \<and> refers (fst (snd r)) (secctx_tbl c)) \<and>
     (\<forall>r \<in> set (owner_tbl c). fst r \<in> identity_ids c \<and> refers (snd r) (secctx_tbl c))"

definition checked :: "meta_content \<Rightarrow> meta_content stmt_result" where
  "checked c = (if foreign_keys_ok c then Done c else Failed)"

text \<open>Without the tables every statement fails.\<close>

definition on_tables :: "meta_content statement \<Rightarrow> meta_content statement" where
  "on_tables f c = (if has_tables c then f c else Failed)"

text \<open>\<^verbatim>\<open>SELECT id FROM .. WHERE ..\<close> as a value.\<close>

definition id_of :: "(int \<times> 'a) list \<Rightarrow> 'a \<Rightarrow> int option" where
  "id_of tbl v = map_of (map (\<lambda>(i, x). (x, i)) tbl) v"

subsection \<open>Insertions\<close>

definition insert_identity_row :: "identity_row \<Rightarrow> meta_content statement" where
  "insert_identity_row row = on_tables (\<lambda>c.
     let i = identity_seq c + 1
     in Done (c\<lparr>identity_tbl := identity_tbl c @ [(i, row)], identity_seq := i, identity_rowid := i\<rparr>))"

definition update_identity_row :: "int \<Rightarrow> identity_row \<Rightarrow> meta_content statement" where
  "update_identity_row i row = on_tables (\<lambda>c.
     Done (c\<lparr>identity_tbl := map (\<lambda>(j, r). (j, if j = i then row else r)) (identity_tbl c)\<rparr>))"

text \<open>A unique value: an insertion that is ignored when the value is there, and one that fails.\<close>

definition insert_or_ignore_method :: "string \<Rightarrow> meta_content statement" where
  "insert_or_ignore_method m = on_tables (\<lambda>c.
     if id_of (methods_tbl c) m \<noteq> None then Done c
     else let i = methods_seq c + 1
          in Done (c\<lparr>methods_tbl := methods_tbl c @ [(i, m)], methods_seq := i\<rparr>))"

definition insert_method_row :: "string \<Rightarrow> meta_content statement" where
  "insert_method_row m = on_tables (\<lambda>c.
     if id_of (methods_tbl c) m \<noteq> None then Failed else insert_or_ignore_method m c)"

definition insert_or_ignore_mechanism :: "string \<Rightarrow> meta_content statement" where
  "insert_or_ignore_mechanism m = on_tables (\<lambda>c.
     if id_of (mechanisms_tbl c) m \<noteq> None then Done c
     else let i = mechanisms_seq c + 1
          in Done (c\<lparr>mechanisms_tbl := mechanisms_tbl c @ [(i, m)], mechanisms_seq := i\<rparr>))"

definition insert_or_ignore_secctx :: "security_context \<Rightarrow> meta_content statement" where
  "insert_or_ignore_secctx ctx = on_tables (\<lambda>c.
     if id_of (secctx_tbl c) (sys_ctx ctx, app_ctx ctx) \<noteq> None then Done c
     else let i = secctx_seq c + 1
          in Done (c\<lparr>secctx_tbl := secctx_tbl c @ [(i, sys_ctx ctx, app_ctx ctx)], secctx_seq := i\<rparr>))"

definition secctx_id :: "security_context \<Rightarrow> meta_content \<Rightarrow> int option" where
  "secctx_id ctx c = id_of (secctx_tbl c) (sys_ctx ctx, app_ctx ctx)"

text \<open>A row of another table for identity \<open>i\<close>, with the trigger.\<close>

definition insert_child :: "int \<Rightarrow> (meta_content \<Rightarrow> meta_content) \<Rightarrow> meta_content statement" where
  "insert_child i f = on_tables (\<lambda>c. if i \<notin> identity_ids c then Rolled_back else checked (f c))"

text \<open>The host name is NULL, so that two equal realms are no conflict.\<close>

definition insert_realm :: "int \<Rightarrow> string \<Rightarrow> meta_content statement" where
  "insert_realm i realm = insert_child i (\<lambda>c. c\<lparr>realms_tbl := realms_tbl c @ [(i, realm)]\<rparr>)"

definition insert_owner :: "int \<Rightarrow> security_context \<Rightarrow> meta_content statement" where
  "insert_owner i ctx = insert_child i (\<lambda>c. c\<lparr>owner_tbl := owner_tbl c @ [(i, secctx_id ctx c)]\<rparr>)"

definition insert_acl :: "int \<Rightarrow> cstr \<Rightarrow> cstr \<Rightarrow> security_context option \<Rightarrow> meta_content statement" where
  "insert_acl i meth mech ctx = insert_child i (\<lambda>c. c\<lparr>acl_tbl := acl_tbl c @
     [\<lparr>acl_identity = i, acl_method = Option.bind meth (id_of (methods_tbl c)),
       acl_mechanism = Option.bind mech (id_of (mechanisms_tbl c)),
       acl_secctx = Option.bind ctx (\<lambda>x. secctx_id x c)\<rparr>]\<rparr>)"

text \<open>An equal row of REFS is replaced, unless its context is NULL.\<close>

definition insert_ref :: "int \<Rightarrow> security_context \<Rightarrow> string \<Rightarrow> meta_content statement" where
  "insert_ref i ctx ref = insert_child i (\<lambda>c.
     let row = (i, secctx_id ctx c, ref)
     in c\<lparr>refs_tbl := filter (\<lambda>r. secctx_id ctx c = None \<or> r \<noteq> row) (refs_tbl c) @ [row]\<rparr>)"

subsection \<open>Deletions\<close>

text \<open>The contexts of deleted rows, unless they are used elsewhere.\<close>

definition drop_stale :: "int option list \<Rightarrow> int option list \<Rightarrow> meta_content \<Rightarrow> meta_content" where
  "drop_stale olds used c = c\<lparr>secctx_tbl :=
     filter (\<lambda>r. \<not> (Some (fst r) \<in> set olds \<and> Some (fst r) \<notin> set used)) (secctx_tbl c)\<rparr>"

definition acl_contexts :: "meta_content \<Rightarrow> int option list" where
  "acl_contexts c = map acl_secctx (acl_tbl c)"

definition refs_contexts :: "meta_content \<Rightarrow> int option list" where
  "refs_contexts c = map (fst \<circ> snd) (refs_tbl c)"

definition owner_contexts :: "meta_content \<Rightarrow> int option list" where
  "owner_contexts c = map snd (owner_tbl c)"

text \<open>The triggers of one table do not look at that table, so that all rows can go at once.\<close>

definition remove_acl :: "int \<Rightarrow> meta_content \<Rightarrow> meta_content" where
  "remove_acl i c =
     (let olds = filter (\<lambda>r. acl_identity r = i) (acl_tbl c)
      in drop_stale (map acl_secctx olds) (refs_contexts c @ owner_contexts c)
           (c\<lparr>acl_tbl := filter (\<lambda>r. acl_identity r \<noteq> i) (acl_tbl c)\<rparr>))"

definition remove_refs :: "(int \<times> int option \<times> string \<Rightarrow> bool) \<Rightarrow> meta_content \<Rightarrow> meta_content" where
  "remove_refs P c =
     (let olds = filter P (refs_tbl c)
      in drop_stale (map (fst \<circ> snd) olds) (acl_contexts c @ owner_contexts c)
           (c\<lparr>refs_tbl := filter (\<lambda>r. \<not> P r) (refs_tbl c)\<rparr>))"

definition remove_owner :: "int \<Rightarrow> meta_content \<Rightarrow> meta_content" where
  "remove_owner i c =
     (let olds = filter (\<lambda>r. fst r = i) (owner_tbl c)
      in drop_stale (map snd olds) (acl_contexts c @ refs_contexts c)
           (c\<lparr>owner_tbl := filter (\<lambda>r. fst r \<noteq> i) (owner_tbl c)\<rparr>))"

definition remove_realms :: "int \<Rightarrow> meta_content \<Rightarrow> meta_content" where
  "remove_realms i c = c\<lparr>realms_tbl := filter (\<lambda>r. fst r \<noteq> i) (realms_tbl c)\<rparr>"

fun cascade_delete :: "int \<Rightarrow> cascade \<Rightarrow> meta_content \<Rightarrow> meta_content" where
  "cascade_delete i On_realms c = remove_realms i c"
| "cascade_delete i On_acl c = remove_acl i c"
| "cascade_delete i On_refs c = remove_refs (\<lambda>r. fst r = i) c"
| "cascade_delete i On_owner c = remove_owner i c"

definition remove_identity_row :: "cascade list \<Rightarrow> int \<Rightarrow> meta_content \<Rightarrow> meta_content" where
  "remove_identity_row order i c =
     (if i \<notin> identity_ids c then c
      else fold (cascade_delete i) order
             (c\<lparr>identity_tbl := filter (\<lambda>r. fst r \<noteq> i) (identity_tbl c)\<rparr>))"

definition delete_identity :: "cascade list \<Rightarrow> int \<Rightarrow> meta_content statement" where
  "delete_identity order i = on_tables (\<lambda>c. checked (remove_identity_row order i c))"

definition delete_acl :: "int \<Rightarrow> meta_content statement" where
  "delete_acl i = on_tables (\<lambda>c. checked (remove_acl i c))"

definition delete_owner :: "int \<Rightarrow> meta_content statement" where
  "delete_owner i = on_tables (\<lambda>c. checked (remove_owner i c))"

definition delete_realms :: "int \<Rightarrow> meta_content statement" where
  "delete_realms i = on_tables (\<lambda>c. Done (remove_realms i c))"

text \<open>\<open>ref\<close>: the value of \<^verbatim>\<open>ref = ..\<close>, if any; a comparison with NULL holds for no row.\<close>

definition delete_refs :: "int \<Rightarrow> security_context \<Rightarrow> cstr option \<Rightarrow> meta_content statement" where
  "delete_refs i ctx ref = on_tables (\<lambda>c. checked (remove_refs
     (\<lambda>(j, x, r). j = i \<and> x \<noteq> None \<and> x = secctx_id ctx c \<and>
        (case ref of None \<Rightarrow> True | Some v \<Rightarrow> v = Some r)) c))"

subsection \<open>Helpers of the code\<close>

definition GSignondIdentityFlag_Validated :: u32 where "GSignondIdentityFlag_Validated = 0x0001"
definition GSignondIdentityFlag_RememberSecret :: u32 where "GSignondIdentityFlag_RememberSecret = 0x0002"
definition GSignondIdentityFlag_UserNameIsSecret :: u32 where "GSignondIdentityFlag_UserNameIsSecret = 0x0004"

definition gsignond_db_metadata_database_exec :: "meta_content statement \<Rightarrow> meta_db \<Rightarrow> bool \<times> meta_db" where
  "gsignond_db_metadata_database_exec query self = gsignond_db_sql_database_exec [query] self"

text \<open>A call whose result the code does not look at.\<close>

definition exec_ignored :: "meta_content statement \<Rightarrow> meta_db \<Rightarrow> meta_db" where
  "exec_ignored query self = snd (gsignond_db_metadata_database_exec query self)"

definition gsignond_db_metadata_database_list_to_sequence :: "string list \<Rightarrow> gsequence" where
  "gsignond_db_metadata_database_list_to_sequence list = fold (insert_sorted strcmp) list []"

text \<open>The columns that are read this way are never NULL.\<close>

definition gsignond_db_metadata_database_get_sequence ::
  "(meta_content \<Rightarrow> string list) \<Rightarrow> meta_db \<Rightarrow> gsequence \<times> meta_db" where
  "gsignond_db_metadata_database_get_sequence query self =
     (case gsignond_db_sql_database_query_exec_string_list (map Some \<circ> query) self of (list, self) \<Rightarrow>
        (gsignond_db_metadata_database_list_to_sequence (map or_empty list), self))"

definition gsignond_db_metadata_database_read_identity ::
  "identity_row \<Rightarrow> identity_info \<Rightarrow> bool \<times> identity_info" where
  "gsignond_db_metadata_database_read_identity row identity =
     (let identity = snd (gsignond_identity_info_set_caption identity (Some (row_caption row)));
          flags = row_flags row;
          identity = snd (gsignond_identity_info_set_username_secret identity
                       (flags AND GSignondIdentityFlag_UserNameIsSecret \<noteq> 0));
          identity = (if flags AND GSignondIdentityFlag_UserNameIsSecret \<noteq> 0
                      then snd (gsignond_identity_info_set_caption identity (Some ''''))
                      else snd (gsignond_identity_info_set_username identity (Some (row_username row))));
          identity = snd (gsignond_identity_info_set_store_secret identity
                       (flags AND GSignondIdentityFlag_RememberSecret \<noteq> 0));
          identity = snd (gsignond_identity_info_set_validated identity
                       (flags AND GSignondIdentityFlag_Validated \<noteq> 0));
          identity = snd (gsignond_identity_info_set_identity_type identity (row_type row))
      in (True, identity))"

definition identity_flags :: "identity_info \<Rightarrow> u32" where
  "identity_flags identity =
     (if gsignond_identity_info_get_validated identity then GSignondIdentityFlag_Validated else 0) OR
     (if gsignond_identity_info_get_store_secret identity then GSignondIdentityFlag_RememberSecret else 0) OR
     (if gsignond_identity_info_get_is_username_secret identity then GSignondIdentityFlag_UserNameIsSecret else 0)"

definition identity_row_of :: "identity_info \<Rightarrow> identity_row" where
  "identity_row_of identity =
     \<lparr>row_caption = or_empty (gsignond_identity_info_get_caption identity),
      row_username = or_empty (if gsignond_identity_info_get_is_username_secret identity then None
                               else gsignond_identity_info_get_username identity),
      row_flags = identity_flags identity,
      row_type = gsignond_identity_info_get_identity_type identity\<rparr>"

text \<open>The id, 0 for a failure; a new identity gets the id of the inserted row.\<close>

definition gsignond_db_metadata_database_update_credentials :: "identity_info \<Rightarrow> meta_db \<Rightarrow> u32 \<times> meta_db" where
  "gsignond_db_metadata_database_update_credentials identity self =
     (let ident = gsignond_identity_info_get_id identity;
          row = identity_row_of identity;
          query = (if \<not> gsignond_identity_info_get_is_identity_new identity
                   then update_identity_row (uint ident) row else insert_identity_row row)
      in case gsignond_db_sql_database_exec [query] self of
           (False, self) \<Rightarrow> (0, self)
         | (True, self) \<Rightarrow>
             (if gsignond_identity_info_get_is_identity_new identity
              then word_of_int (identity_rowid (content self)) else ident, self))"

fun insert_realms :: "int \<Rightarrow> gsequence \<Rightarrow> meta_db \<Rightarrow> bool \<times> meta_db" where
  "insert_realms i [] self = (True, self)"
| "insert_realms i (realm # realms) self =
     (case gsignond_db_metadata_database_exec (insert_realm i realm) self of
        (False, self) \<Rightarrow> (False, self)
      | (True, self) \<Rightarrow> insert_realms i realms self)"

definition gsignond_db_metadata_database_update_realms ::
  "identity_info \<Rightarrow> u32 \<Rightarrow> gsequence option \<Rightarrow> meta_db \<Rightarrow> bool \<times> meta_db" where
  "gsignond_db_metadata_database_update_realms identity ident realms self =
     (case realms of
        None \<Rightarrow> (True, self)
      | Some seq \<Rightarrow>
          if seq = [] then (True, self)
          else
            let self = (if \<not> gsignond_identity_info_get_is_identity_new identity
                        then exec_ignored (delete_realms (uint ident)) self else self)
            in insert_realms (uint ident) seq self)"

fun insert_mechanism_rows :: "gsequence \<Rightarrow> meta_db \<Rightarrow> bool \<times> meta_db" where
  "insert_mechanism_rows [] self = (True, self)"
| "insert_mechanism_rows (m # ms) self =
     (case gsignond_db_metadata_database_exec (insert_or_ignore_mechanism m) self of
        (False, self) \<Rightarrow> (False, self)
      | (True, self) \<Rightarrow> insert_mechanism_rows ms self)"

fun insert_method_rows :: "methods \<Rightarrow> meta_db \<Rightarrow> bool \<times> meta_db" where
  "insert_method_rows [] self = (True, self)"
| "insert_method_rows ((meth, mechanisms) # rest) self =
     (case gsignond_db_metadata_database_exec (insert_or_ignore_method meth) self of
        (False, self) \<Rightarrow> (False, self)
      | (True, self) \<Rightarrow>
          (case insert_mechanism_rows mechanisms self of
             (False, self) \<Rightarrow> (False, self)
           | (True, self) \<Rightarrow> insert_method_rows rest self))"

definition gsignond_db_metadata_database_insert_methods ::
  "methods option \<Rightarrow> meta_db \<Rightarrow> bool \<times> meta_db" where
  "gsignond_db_metadata_database_insert_methods methods self =
     (case methods of
        None \<Rightarrow> (False, self)
      | Some ms \<Rightarrow> if ms = [] then (False, self) else insert_method_rows ms self)"

definition gsignond_db_metadata_database_update_acl ::
  "security_context list \<Rightarrow> meta_db \<Rightarrow> bool \<times> meta_db" where
  "gsignond_db_metadata_database_update_acl acl self =
     (if acl = [] then (False, self)
      else (True, fold (\<lambda>ctx. exec_ignored (insert_or_ignore_secctx ctx)) acl self))"

definition gsignond_db_metadata_database_update_owner ::
  "security_context option \<Rightarrow> meta_db \<Rightarrow> bool \<times> meta_db" where
  "gsignond_db_metadata_database_update_owner owner self =
     (case owner of
        None \<Rightarrow> (False, self)
      | Some ow \<Rightarrow>
          (True, if sys_ctx ow \<noteq> '''' then exec_ignored (insert_or_ignore_secctx ow) self else self))"

subsection \<open>Creating and clearing\<close>

definition gsignond_db_metadata_database_create :: "meta_db \<Rightarrow> bool \<times> meta_db" where
  "gsignond_db_metadata_database_create = if_open False (\<lambda>self.
     case gsignond_db_sql_database_exec [always id] self of
       (False, self) \<Rightarrow> (False, self)
     | (True, self) \<Rightarrow>
        (case gsignond_db_sql_database_query_exec_int (\<lambda>_. [1]) self of (fk_enabled, self) \<Rightarrow>
           if fk_enabled = None \<or> fk_enabled = Some 0 then (False, self)
           else case gsignond_db_sql_database_get_db_version meta_user_version self of (version, self) \<Rightarrow>
             if 0 <s version then (True, self)
             else case gsignond_db_sql_database_exec [always (\<lambda>c. c\<lparr>meta_user_version := 1\<rparr>)] self of
               (False, self) \<Rightarrow> (False, self)
             | (True, self) \<Rightarrow>
                 let self = snd (gsignond_db_sql_database_get_db_version meta_user_version self)
                 in gsignond_db_sql_database_transaction_exec
                      [\<lambda>c. if has_tables c then Failed else Done (c\<lparr>has_tables := True\<rparr>)] self))"

definition gsignond_db_metadata_database_clear :: "cascade list \<Rightarrow> meta_db \<Rightarrow> bool \<times> meta_db" where
  "gsignond_db_metadata_database_clear order = if_open False
     (gsignond_db_sql_database_transaction_exec
        [on_tables (\<lambda>c. checked (fold (remove_identity_row order) (map fst (identity_tbl c)) c)),
         on_tables (\<lambda>c. checked (c\<lparr>methods_tbl := []\<rparr>)),
         on_tables (\<lambda>c. checked (c\<lparr>mechanisms_tbl := []\<rparr>)),
         on_tables (\<lambda>c. checked (fold remove_acl (remdups (map acl_identity (acl_tbl c))) c)),
         on_tables (\<lambda>c. checked (c\<lparr>realms_tbl := []\<rparr>)),
         on_tables (\<lambda>c. checked (c\<lparr>secctx_tbl := []\<rparr>)),
         on_tables (\<lambda>c. checked (fold remove_owner (remdups (map fst (owner_tbl c))) c))])"

subsection \<open>Methods\<close>

definition gsignond_db_metadata_database_get_method_id :: "string \<Rightarrow> meta_db \<Rightarrow> u32 \<times> meta_db" where
  "gsignond_db_metadata_database_get_method_id meth = if_open 0 (\<lambda>self.
     case gsignond_db_sql_database_query_exec_int
        (\<lambda>c. case id_of (methods_tbl c) meth of None \<Rightarrow> [] | Some i \<Rightarrow> [i]) self of
       (r, self) \<Rightarrow> (case r of None \<Rightarrow> 0 | Some i \<Rightarrow> i, self))"

definition gsignond_db_metadata_database_insert_method :: "string \<Rightarrow> meta_db \<Rightarrow> (bool \<times> u32) \<times> meta_db" where
  "gsignond_db_metadata_database_insert_method meth = if_open (False, 0) (\<lambda>self.
     case gsignond_db_sql_database_transaction_exec [insert_method_row meth] self of
       (False, self) \<Rightarrow> ((False, 0), self)
     | (True, self) \<Rightarrow>
         (case gsignond_db_metadata_database_get_method_id meth self of (i, self) \<Rightarrow> ((True, i), self)))"

definition gsignond_db_metadata_database_get_methods ::
  "u32 \<Rightarrow> security_context \<Rightarrow> meta_db \<Rightarrow> cstr list \<times> meta_db" where
  "gsignond_db_metadata_database_get_methods ident sec_ctx = if_open [] (\<lambda>self.
     gsignond_db_sql_database_query_exec_string_list
       (\<lambda>c. map Some (remdups (List.map_filter (\<lambda>r.
          if acl_identity r = uint ident \<and>
             (sys_ctx sec_ctx = '''' \<or> (acl_secctx r \<noteq> None \<and> acl_secctx r = secctx_id sec_ctx c))
          then Option.bind (acl_method r) (map_of (methods_tbl c)) else None) (acl_tbl c)))) self)"
subsection \<open>Storing an identity\<close>

text \<open>The rows of one method for one context (or none), one per mechanism or one without.\<close>

definition insert_acl_rows ::
  "int \<Rightarrow> string \<Rightarrow> gsequence \<Rightarrow> security_context option \<Rightarrow> meta_db \<Rightarrow> meta_db" where
  "insert_acl_rows i meth mechanisms ctx self =
     (let self = fold (\<lambda>mech. exec_ignored (insert_acl i (Some meth) (Some mech) ctx)) mechanisms self
      in if mechanisms = [] then exec_ignored (insert_acl i (Some meth) None ctx) self else self)"

definition insert_identity_acl ::
  "int \<Rightarrow> methods \<Rightarrow> security_context list \<Rightarrow> meta_db \<Rightarrow> meta_db" where
  "insert_identity_acl i methods acl self =
     (let self = fold (\<lambda>(meth, mechanisms) self.
             if acl \<noteq> [] then fold (\<lambda>ctx. insert_acl_rows i meth mechanisms (Some ctx)) acl self
             else insert_acl_rows i meth mechanisms None self) methods self
      in if methods = [] then fold (\<lambda>ctx. exec_ignored (insert_acl i None None (Some ctx))) acl self
         else self)"

definition roll_back :: "meta_db \<Rightarrow> u32 \<times> meta_db" where
  "roll_back self = (0, snd (gsignond_db_sql_database_rollback_transaction self))"

text \<open>
  Three parts of \<^verbatim>\<open>gsignond_db_metadata_database_update_identity\<close>: the owner, the contexts of the
  access control list, and the methods with the rows of the list.
\<close>

definition store_owner :: "identity_info \<Rightarrow> u32 \<Rightarrow> security_context \<Rightarrow> meta_db \<Rightarrow> meta_db" where
  "store_owner identity ident owner self =
     (if gsignond_identity_info_get_edit_flags identity AND IDENTITY_INFO_PROP_OWNER \<noteq> 0 then
        let self = (if \<not> gsignond_identity_info_get_is_identity_new identity
                    then exec_ignored (delete_owner (uint ident)) self else self);
            self = snd (gsignond_db_metadata_database_update_owner (Some owner) self)
        in exec_ignored (insert_owner (uint ident) owner) self
      else self)"

definition store_acl_contexts ::
  "identity_info \<Rightarrow> u32 \<Rightarrow> security_context list \<Rightarrow> meta_db \<Rightarrow> meta_db" where
  "store_acl_contexts identity ident acl self =
     (if gsignond_identity_info_get_edit_flags identity AND IDENTITY_INFO_PROP_ACL \<noteq> 0 then
        let self = (if \<not> gsignond_identity_info_get_is_identity_new identity
                    then exec_ignored (delete_acl (uint ident)) self else self)
        in snd (gsignond_db_metadata_database_update_acl acl self)
      else self)"

definition update_methods_and_acl ::
  "identity_info \<Rightarrow> u32 \<Rightarrow> security_context list \<Rightarrow> meta_db \<Rightarrow> meta_db" where
  "update_methods_and_acl identity ident acl self =
     (let flags = gsignond_identity_info_get_edit_flags identity;
          methods = gsignond_identity_info_get_methods identity;
          self = (if flags AND IDENTITY_INFO_PROP_METHODS \<noteq> 0
                  then snd (gsignond_db_metadata_database_insert_methods methods self) else self)
      in case methods of
           None \<Rightarrow> self
         | Some ms \<Rightarrow>
             if flags AND IDENTITY_INFO_PROP_ACL \<noteq> 0 \<or> flags AND IDENTITY_INFO_PROP_METHODS \<noteq> 0
             then insert_identity_acl (uint ident) ms acl self else self)"

text \<open>
  An entry of the list is NULL where the variant has something else than a pair of strings. Reading
  through it ends the process inside the transaction, and SQLite rolls back when the file is next
  opened: \<open>acl_is_read\<close> is when the code reads the entries.
\<close>

fun contexts :: "security_context_list \<Rightarrow> security_context list option" where
  "contexts [] = Some []"
| "contexts (None # cs) = None"
| "contexts (Some c # cs) = map_option (\<lambda>r. c # r) (contexts cs)"

definition acl_is_read :: "identity_info \<Rightarrow> bool" where
  "acl_is_read identity =
     (gsignond_identity_info_get_edit_flags identity AND IDENTITY_INFO_PROP_ACL \<noteq> 0 \<or>
      gsignond_identity_info_get_edit_flags identity AND IDENTITY_INFO_PROP_METHODS \<noteq> 0 \<and>
      gsignond_identity_info_get_methods identity \<noteq> None)"

definition gsignond_db_metadata_database_update_identity ::
  "identity_info \<Rightarrow> meta_db \<Rightarrow> u32 \<times> meta_db" where
  "gsignond_db_metadata_database_update_identity identity = if_open 0 (\<lambda>self.
     let flags = gsignond_identity_info_get_edit_flags identity in
     if flags = IDENTITY_INFO_PROP_NONE then (gsignond_identity_info_get_id identity, self)
     else
       case gsignond_db_sql_database_start_transaction self of
         (False, self) \<Rightarrow> (0, self)
       | (True, self) \<Rightarrow>
       case gsignond_db_metadata_database_update_credentials identity self of (ident, self) \<Rightarrow>
       if ident = 0 then roll_back self else
       case (if flags AND IDENTITY_INFO_PROP_REALMS \<noteq> 0
             then gsignond_db_metadata_database_update_realms identity ident
                    (gsignond_identity_info_get_realms identity) self
             else (True, self)) of
         (False, self) \<Rightarrow> roll_back self
       | (True, self) \<Rightarrow>
       case gsignond_identity_info_get_owner identity of
         None \<Rightarrow> roll_back self
       | Some owner \<Rightarrow>
           let self = store_owner identity ident owner self;
               list = gsignond_identity_info_get_access_control_list identity
           in if list = [] then roll_back self
              else if contexts list = None \<and> acl_is_read identity then roll_back self
              else
                    let acl = (case contexts list of Some acl \<Rightarrow> acl | None \<Rightarrow> []);
                        self = store_acl_contexts identity ident acl self;
                        self = update_methods_and_acl identity ident acl self
                    in case gsignond_db_sql_database_commit_transaction self of
                         (False, self) \<Rightarrow> (0, self)
                       | (True, self) \<Rightarrow> (ident, self))"

subsection \<open>Loading identities\<close>

text \<open>The table from system to application contexts keeps one context per system context.\<close>

definition gsignond_db_metadata_database_get_accesscontrol_list ::
  "u32 \<Rightarrow> meta_db \<Rightarrow> security_context list \<times> meta_db" where
  "gsignond_db_metadata_database_get_accesscontrol_list ident = if_open [] (\<lambda>self.
     case gsignond_db_sql_database_query_exec_string_tuple (\<lambda>c.
        map (\<lambda>(i, s, a). (s, Some a)) (filter (\<lambda>(i, s, a).
          Some i \<in> acl_secctx ` {r \<in> set (acl_tbl c). acl_identity r = uint ident}) (secctx_tbl c))) self of
       (None, self) \<Rightarrow> ([], self)
     | (Some tuples, self) \<Rightarrow> (map (\<lambda>(s, a). \<lparr>sys_ctx = s, app_ctx = or_empty a\<rparr>) tuples, self))"

definition gsignond_db_metadata_database_get_owner :: "u32 \<Rightarrow> meta_db \<Rightarrow> security_context option \<times> meta_db" where
  "gsignond_db_metadata_database_get_owner ident = if_open None (\<lambda>self.
     case gsignond_db_sql_database_query_exec_string_tuple (\<lambda>c.
        map (\<lambda>(i, s, a). (s, Some a)) (filter (\<lambda>(i, s, a).
          (uint ident, Some i) \<in> set (owner_tbl c)) (secctx_tbl c))) self of
       (None, self) \<Rightarrow> (None, self)
     | (Some tuples, self) \<Rightarrow>
         (case tuples of [] \<Rightarrow> None | (s, a) # _ \<Rightarrow> gsignond_security_context_new_from_values (Some s) a, self))"

definition mechanisms_query :: "u32 \<Rightarrow> u32 \<Rightarrow> meta_content \<Rightarrow> string list" where
  "mechanisms_query method_id ident c =
     remdups (List.map_filter (\<lambda>r.
       if acl_method r = Some (uint method_id) \<and> acl_identity r = uint ident
       then Option.bind (acl_mechanism r) (map_of (mechanisms_tbl c)) else None) (acl_tbl c))"

fun read_method_tuples :: "u32 \<Rightarrow> (u32 \<times> cstr) list \<Rightarrow> methods \<Rightarrow> meta_db \<Rightarrow> methods \<times> meta_db" where
  "read_method_tuples ident [] methods self = (methods, self)"
| "read_method_tuples ident ((method_id, meth) # rest) methods self =
     (case gsignond_db_metadata_database_get_sequence (mechanisms_query method_id ident) self of
        (mechanisms, self) \<Rightarrow>
          read_method_tuples ident rest (AList.update (or_empty meth) mechanisms methods) self)"

definition methods_query :: "u32 \<Rightarrow> meta_content \<Rightarrow> (int \<times> string) list" where
  "methods_query ident c =
     remdups (List.map_filter (\<lambda>r.
       if acl_identity r = uint ident
       then Option.bind (acl_method r) (\<lambda>i. map_option (Pair i) (map_of (methods_tbl c) i)) else None) (acl_tbl c))"

text \<open>The block of \<^verbatim>\<open>gsignond_db_metadata_database_get_identity\<close> on methods.\<close>

definition load_methods :: "u32 \<Rightarrow> identity_info \<Rightarrow> meta_db \<Rightarrow> identity_info \<times> meta_db" where
  "load_methods ident identity self =
     (case gsignond_db_sql_database_query_exec_int_string_tuple
        (\<lambda>c. map (\<lambda>(i, m). (i, Some m)) (methods_query ident c)) self of
        (None, self) \<Rightarrow> (identity, self)
      | (Some tuples, self) \<Rightarrow>
          (case read_method_tuples ident tuples [] self of (methods, self) \<Rightarrow>
             (snd (gsignond_identity_info_set_methods identity (Some methods)), self)))"

definition gsignond_db_metadata_database_get_identity :: "u32 \<Rightarrow> meta_db \<Rightarrow> identity_info option \<times> meta_db" where
  "gsignond_db_metadata_database_get_identity ident = if_open None (\<lambda>self.
     case gsignond_db_sql_database_query_exec
        (\<lambda>c. map snd (filter (\<lambda>r. fst r = uint ident) (identity_tbl c)))
        gsignond_db_metadata_database_read_identity gsignond_identity_info_new self of
       (rows, identity, self) \<Rightarrow>
     if rows = 0 then (None, self)
     else
       let identity = snd (gsignond_identity_info_set_id identity ident) in
       case gsignond_db_metadata_database_get_sequence
          (\<lambda>c. map snd (filter (\<lambda>r. fst r = uint ident) (realms_tbl c))) self of (realms, self) \<Rightarrow>
       let identity = snd (gsignond_identity_info_set_realms identity (Some realms)) in
       case gsignond_db_metadata_database_get_accesscontrol_list ident self of (acl, self) \<Rightarrow>
       let identity = (if acl \<noteq> [] then snd (gsignond_identity_info_set_access_control_list identity acl)
                       else identity) in
       case gsignond_db_metadata_database_get_owner ident self of (owner, self) \<Rightarrow>
       let identity = (if owner \<noteq> None then snd (gsignond_identity_info_set_owner identity owner)
                       else identity) in
       case load_methods ident identity self of (identity, self) \<Rightarrow> (Some identity, self))"

text \<open>
  \<^verbatim>\<open>LIKE\<close>: \<open>%\<close> stands for any string, \<open>_\<close> for one character, ASCII letters match in both cases.
\<close>

definition fold_case :: "char \<Rightarrow> nat" where
  "fold_case ch = (let n = of_char ch in if 65 \<le> n \<and> n \<le> 90 then n + 32 else n)"

fun sql_like :: "string \<Rightarrow> string \<Rightarrow> bool" where
  "sql_like [] s = (s = [])"
| "sql_like (p # ps) [] = (p = CHR ''%'' \<and> sql_like ps [])"
| "sql_like (p # ps) (x # s) =
     (if p = CHR ''%'' then sql_like ps (x # s) \<or> sql_like (p # ps) s
      else (p = CHR ''_'' \<or> fold_case p = fold_case x) \<and> sql_like ps s)"

text \<open>
  The caption is pasted into the query, so that a quote in it ends the literal: \<open>injected\<close> is
  SQLite's answer to the text that results. The query ends in \<^verbatim>\<open>ORDER BY id\<close>.
\<close>

definition order_by_id :: "(int \<times> identity_row) list \<Rightarrow> int list" where
  "order_by_id rows = sort (map fst rows)"

definition identities_query ::
  "(string \<Rightarrow> meta_content \<Rightarrow> int list) \<Rightarrow> dictionary option \<Rightarrow> meta_content \<Rightarrow> int list" where
  "identities_query injected filter_dict c =
     (case filter_dict of
        None \<Rightarrow> order_by_id (identity_tbl c)
      | Some d \<Rightarrow>
          let owner = gsignond_dictionary_get d key_OWNER;
              caption = gsignond_dictionary_get_string d key_CAPTION;
              type = gsignond_dictionary_get_int32 d key_TYPE;
              owner_ok = (\<lambda>i. case owner of None \<Rightarrow> True
                | Some v \<Rightarrow> (case gsignond_security_context_from_variant (Some v) of
                    None \<Rightarrow> False
                  | Some ctx \<Rightarrow> secctx_id ctx c \<noteq> None \<and> (i, secctx_id ctx c) \<in> set (owner_tbl c)));
              type_ok = (\<lambda>r. case type of None \<Rightarrow> True | Some t \<Rightarrow> uint (row_type r) = sint t)
          in case caption of
               None \<Rightarrow> order_by_id (filter (\<lambda>(i, r). owner_ok i \<and> type_ok r) (identity_tbl c))
             | Some cap \<Rightarrow>
                 if CHR 39 \<in> set cap then injected cap c
                 else order_by_id (filter (\<lambda>(i, r). owner_ok i \<and> type_ok r \<and>
                        sql_like (cap @ ''%'') (row_caption r)) (identity_tbl c)))"

fun load_identities :: "u32 list \<Rightarrow> meta_db \<Rightarrow> identity_info list \<times> meta_db" where
  "load_identities [] self = ([], self)"
| "load_identities (i # ids) self =
     (case gsignond_db_metadata_database_get_identity i self of (identity, self) \<Rightarrow>
        case load_identities ids self of (rest, self) \<Rightarrow>
          (case identity of None \<Rightarrow> rest | Some x \<Rightarrow> x # rest, self))"

definition gsignond_db_metadata_database_get_identities ::
  "(string \<Rightarrow> meta_content \<Rightarrow> int list) \<Rightarrow> dictionary option \<Rightarrow> meta_db \<Rightarrow> identity_info list \<times> meta_db" where
  "gsignond_db_metadata_database_get_identities injected filter_dict = if_open [] (\<lambda>self.
     case gsignond_db_sql_database_query_exec_int_array (identities_query injected filter_dict) self of
       (None, self) \<Rightarrow> ([], self)
     | (Some ids, self) \<Rightarrow> load_identities ids self)"

definition gsignond_db_metadata_database_remove_identity ::
  "cascade list \<Rightarrow> u32 \<Rightarrow> meta_db \<Rightarrow> bool \<times> meta_db" where
  "gsignond_db_metadata_database_remove_identity order ident = if_open False
     (gsignond_db_sql_database_transaction_exec [delete_identity order (uint ident)])"

subsection \<open>References\<close>

definition gsignond_db_metadata_database_get_references ::
  "u32 \<Rightarrow> security_context \<Rightarrow> meta_db \<Rightarrow> cstr list \<times> meta_db" where
  "gsignond_db_metadata_database_get_references ident ref_owner = if_open [] (\<lambda>self.
     gsignond_db_sql_database_query_exec_string_list (\<lambda>c.
       map (\<lambda>(i, x, r). Some r) (filter (\<lambda>(i, x, r). i = uint ident \<and>
         (sys_ctx ref_owner = '''' \<or> (x \<noteq> None \<and> x = secctx_id ref_owner c))) (refs_tbl c))) self)"

definition roll_back_FALSE :: "meta_db \<Rightarrow> bool \<times> meta_db" where
  "roll_back_FALSE self = (False, snd (gsignond_db_sql_database_rollback_transaction self))"

definition gsignond_db_metadata_database_insert_reference ::
  "u32 \<Rightarrow> security_context \<Rightarrow> string \<Rightarrow> meta_db \<Rightarrow> bool \<times> meta_db" where
  "gsignond_db_metadata_database_insert_reference ident ref_owner reference = if_open False (\<lambda>self.
     case gsignond_db_sql_database_start_transaction self of
       (False, self) \<Rightarrow> (False, self)
     | (True, self) \<Rightarrow>
     case gsignond_db_metadata_database_exec (insert_or_ignore_secctx ref_owner) self of
       (False, self) \<Rightarrow> roll_back_FALSE self
     | (True, self) \<Rightarrow>
     case gsignond_db_metadata_database_exec (insert_ref (uint ident) ref_owner reference) self of
       (False, self) \<Rightarrow> roll_back_FALSE self
     | (True, self) \<Rightarrow> gsignond_db_sql_database_commit_transaction self)"

text \<open>The parameter \<^verbatim>\<open>:ref\<close> of the last statement is never bound: its value is NULL.\<close>

definition gsignond_db_metadata_database_remove_reference ::
  "u32 \<Rightarrow> security_context \<Rightarrow> cstr \<Rightarrow> meta_db \<Rightarrow> bool \<times> meta_db" where
  "gsignond_db_metadata_database_remove_reference ident ref_owner reference = if_open False (\<lambda>self.
     case gsignond_db_sql_database_start_transaction self of
       (False, self) \<Rightarrow> (False, self)
     | (True, self) \<Rightarrow>
     case gsignond_db_metadata_database_get_references ident ref_owner self of (refs, self) \<Rightarrow>
     if refs = [] \<or> (reference \<noteq> None \<and> reference \<notin> set refs) then roll_back_FALSE self
     else case gsignond_db_metadata_database_exec
         (delete_refs (uint ident) ref_owner
            (if reference = None \<or> reference = Some '''' then None else Some None)) self of
       (False, self) \<Rightarrow> roll_back_FALSE self
     | (True, self) \<Rightarrow> gsignond_db_sql_database_commit_transaction self)"

subsection \<open>The invariant of the tables\<close>

definition table_ok :: "int \<Rightarrow> (int \<times> 'a) list \<Rightarrow> bool" where
  "table_ok seq tbl \<longleftrightarrow> 0 \<le> seq \<and> keys_distinct tbl \<and> (\<forall>j \<in> fst ` set tbl. 0 < j \<and> j \<le> seq)"

definition unique_values :: "(int \<times> 'a) list \<Rightarrow> bool" where
  "unique_values tbl \<longleftrightarrow> distinct (map snd tbl)"

definition meta_ok :: "meta_content \<Rightarrow> bool" where
  "meta_ok c \<longleftrightarrow> has_tables c \<and> foreign_keys_ok c \<and>
     table_ok (identity_seq c) (identity_tbl c) \<and>
     table_ok (methods_seq c) (methods_tbl c) \<and> unique_values (methods_tbl c) \<and>
     table_ok (mechanisms_seq c) (mechanisms_tbl c) \<and> unique_values (mechanisms_tbl c) \<and>
     table_ok (secctx_seq c) (secctx_tbl c) \<and> unique_values (secctx_tbl c)"

definition keeps_meta :: "meta_content statement \<Rightarrow> bool" where
  "keeps_meta s \<longleftrightarrow> (\<forall>c c'. meta_ok c \<longrightarrow> s c = Done c' \<longrightarrow> meta_ok c')"

named_theorems keeps

lemma id_of_None: "id_of tbl v = None \<longleftrightarrow> v \<notin> snd ` set tbl"
  by (force simp: id_of_def map_of_eq_None_iff)

lemma id_of_Some_in: "id_of tbl v = Some i \<Longrightarrow> (i, v) \<in> set tbl"
  by (auto simp: id_of_def dest: map_of_SomeD)

lemma id_of_refers [simp]: "refers (id_of tbl v) tbl"
  by (force simp: refers_def dest: id_of_Some_in split: option.split)

lemma refers_append: "refers k tbl \<Longrightarrow> refers k (tbl @ rows)"
  by (auto simp: refers_def split: option.splits)

lemma table_ok_append: "table_ok seq tbl \<Longrightarrow> table_ok (seq + 1) (tbl @ [(seq + 1, v)])"
  by (force simp: table_ok_def)

lemma unique_append: "unique_values tbl \<Longrightarrow> id_of tbl v = None \<Longrightarrow> unique_values (tbl @ [(i, v)])"
  by (simp add: unique_values_def id_of_None)

lemma table_ok_filter: "table_ok seq tbl \<Longrightarrow> table_ok seq (filter P tbl)"
  by (auto simp: table_ok_def distinct_map_filter)

lemma unique_filter: "unique_values tbl \<Longrightarrow> unique_values (filter P tbl)"
  by (simp add: unique_values_def distinct_map_filter)

lemma keeps_on_tables: "keeps_meta s \<Longrightarrow> keeps_meta (on_tables s)"
  by (simp add: keeps_meta_def on_tables_def)

lemma done_on_tables: "on_tables s c = Done c' \<Longrightarrow> has_tables c \<and> s c = Done c'"
  by (simp add: on_tables_def split: if_splits)

lemma done_checked: "checked c = Done c' \<Longrightarrow> c' = c \<and> foreign_keys_ok c"
  by (simp add: checked_def split: if_splits)

lemma map_rows_fst: "map fst (map (\<lambda>(j, r). (j, f j r)) tbl) = map fst tbl"
  by (simp add: comp_def split_beta)

lemma map_rows_keys: "fst ` (set (map (\<lambda>(j, r). (j, f j r)) tbl)) = fst ` set tbl"
  by (metis list.set_map map_rows_fst)

lemma fk_appends:
  "foreign_keys_ok c \<Longrightarrow> foreign_keys_ok (c\<lparr>methods_tbl := methods_tbl c @ ms, methods_seq := n\<rparr>)"
  "foreign_keys_ok c \<Longrightarrow> foreign_keys_ok (c\<lparr>mechanisms_tbl := mechanisms_tbl c @ ms, mechanisms_seq := n\<rparr>)"
  "foreign_keys_ok c \<Longrightarrow> foreign_keys_ok (c\<lparr>secctx_tbl := secctx_tbl c @ xs, secctx_seq := n\<rparr>)"
  "foreign_keys_ok c \<Longrightarrow> foreign_keys_ok
     (c\<lparr>identity_tbl := identity_tbl c @ is, identity_seq := n, identity_rowid := r\<rparr>)"
  by (simp_all add: foreign_keys_ok_def identity_ids_def refers_append image_Un)

lemma keeps_insert_identity [keeps]: "keeps_meta (insert_identity_row row)"
  unfolding keeps_meta_def insert_identity_row_def
  by (auto dest!: done_on_tables simp: Let_def meta_ok_def table_ok_append fk_appends)

lemma table_ok_map: "table_ok seq (map (\<lambda>(j, r). (j, f j r)) tbl) = table_ok seq tbl"
  by (simp only: table_ok_def map_rows_fst map_rows_keys)

lemma ids_map:
  "identity_ids (c\<lparr>identity_tbl := map (\<lambda>(j, r). (j, f j r)) (identity_tbl c)\<rparr>) = identity_ids c"
  using map_rows_keys [of f "identity_tbl c"] by (simp add: identity_ids_def)

lemma keeps_update_identity [keeps]: "keeps_meta (update_identity_row i row)"
proof -
  let ?f = "\<lambda>c. c\<lparr>identity_tbl := map (\<lambda>(j, r). (j, if j = i then row else r)) (identity_tbl c)\<rparr>"
  have "foreign_keys_ok (?f c) = foreign_keys_ok c" for c
    using ids_map [where f = "\<lambda>j r. if j = i then row else r" and c = c] by (simp add: foreign_keys_ok_def)
  then have "meta_ok (?f c)" if "meta_ok c" for c
    using that table_ok_map [where f = "\<lambda>j r. if j = i then row else r"] by (simp add: meta_ok_def)
  then show ?thesis
    unfolding keeps_meta_def update_identity_row_def by (auto dest!: done_on_tables)
qed

lemma keeps_method [keeps]: "keeps_meta (insert_or_ignore_method m)"
  unfolding keeps_meta_def insert_or_ignore_method_def
  by (auto dest!: done_on_tables simp: Let_def meta_ok_def table_ok_append unique_append fk_appends
      split: if_splits)

lemma keeps_mechanism [keeps]: "keeps_meta (insert_or_ignore_mechanism m)"
  unfolding keeps_meta_def insert_or_ignore_mechanism_def
  by (auto dest!: done_on_tables simp: Let_def meta_ok_def table_ok_append unique_append fk_appends
      split: if_splits)

lemma keeps_secctx [keeps]: "keeps_meta (insert_or_ignore_secctx ctx)"
  unfolding keeps_meta_def insert_or_ignore_secctx_def
  by (auto dest!: done_on_tables simp: Let_def meta_ok_def table_ok_append unique_append fk_appends
      split: if_splits)

lemma keeps_insert_method [keeps]: "keeps_meta (insert_method_row m)"
  using keeps_method [of m]
  unfolding keeps_meta_def insert_method_row_def by (auto dest!: done_on_tables split: if_splits)

text \<open>A statement that changes only tables without ids, and checks the keys.\<close>

definition same_ids :: "meta_content \<Rightarrow> meta_content \<Rightarrow> bool" where
  "same_ids c c' \<longleftrightarrow> has_tables c' = has_tables c \<and>
     identity_seq c' = identity_seq c \<and> identity_tbl c' = identity_tbl c \<and>
     methods_seq c' = methods_seq c \<and> methods_tbl c' = methods_tbl c \<and>
     mechanisms_seq c' = mechanisms_seq c \<and> mechanisms_tbl c' = mechanisms_tbl c \<and>
     secctx_seq c' = secctx_seq c \<and> (\<exists>P. secctx_tbl c' = filter P (secctx_tbl c))"

lemma same_ids_trans: "same_ids a b \<Longrightarrow> same_ids b c \<Longrightarrow> same_ids a c"
  by (auto simp: same_ids_def)

lemma same_ids_ok: "meta_ok c \<Longrightarrow> same_ids c c' \<Longrightarrow> foreign_keys_ok c' \<Longrightarrow> meta_ok c'"
  by (auto simp: same_ids_def meta_ok_def table_ok_filter unique_filter)

lemma same_ids_identity: "same_ids c c' \<Longrightarrow> identity_ids c' = identity_ids c"
  by (simp add: same_ids_def identity_ids_def)

lemma filter_True_ex: "\<exists>P. xs = filter P xs"
  by (rule exI [of _ "\<lambda>_. True"]) simp

lemma same_ids_updates [simp]:
  "same_ids c c"
  "same_ids c (c\<lparr>realms_tbl := r\<rparr>)" "same_ids c (c\<lparr>owner_tbl := ow\<rparr>)"
  "same_ids c (c\<lparr>acl_tbl := a\<rparr>)" "same_ids c (c\<lparr>refs_tbl := fs\<rparr>)"
  by (simp_all add: same_ids_def filter_True_ex)

lemma same_ids_removes [simp]:
  "same_ids c (remove_acl i c)" "same_ids c (remove_refs P c)" "same_ids c (remove_owner i c)"
  "same_ids c (remove_realms i c)"
  by (auto simp: same_ids_def remove_acl_def remove_refs_def remove_owner_def remove_realms_def
      drop_stale_def Let_def filter_True_ex)

lemma keeps_checked: "(\<And>c. same_ids c (f c)) \<Longrightarrow> keeps_meta (\<lambda>c. checked (f c))"
  unfolding keeps_meta_def by (auto dest!: done_checked intro: same_ids_ok)

lemma keeps_child: "(\<And>c. same_ids c (f c)) \<Longrightarrow> keeps_meta (insert_child i f)"
  using keeps_checked [of f] unfolding keeps_meta_def insert_child_def
  by (auto dest!: done_on_tables split: if_splits)

lemma keeps_children [keeps]:
  "keeps_meta (insert_realm i r)" "keeps_meta (insert_owner i ctx)"
  "keeps_meta (insert_acl i m n x)" "keeps_meta (insert_ref i ctx ref)"
  by (simp_all add: insert_realm_def insert_owner_def insert_acl_def insert_ref_def Let_def keeps_child)

lemma keeps_deletes [keeps]:
  "keeps_meta (delete_owner j)" "keeps_meta (delete_acl j)" "keeps_meta (delete_refs j ctx ref)"
  by (simp_all add: delete_owner_def delete_acl_def delete_refs_def keeps_on_tables keeps_checked)

lemma fk_remove_realms: "foreign_keys_ok c \<Longrightarrow> foreign_keys_ok (remove_realms i c)"
  by (simp add: foreign_keys_ok_def remove_realms_def identity_ids_def)

lemma keeps_delete_realms [keeps]: "keeps_meta (delete_realms j)"
proof -
  have "meta_ok (remove_realms j c)" if "meta_ok c" for c
    using that same_ids_ok [of c "remove_realms j c"] fk_remove_realms [of c j]
    by (simp add: meta_ok_def)
  then show ?thesis
    unfolding keeps_meta_def delete_realms_def by (auto dest!: done_on_tables)
qed

lemma same_ids_cascade: "same_ids c (fold (cascade_delete i) order c)"
proof (induction order arbitrary: c)
  case (Cons o1 order)
  have "same_ids c (cascade_delete i o1 c)" by (cases o1) simp_all
  then show ?case using Cons.IH [of "cascade_delete i o1 c"] by (auto intro: same_ids_trans)
qed simp

lemma keeps_delete_identity [keeps]: "keeps_meta (delete_identity order i)"
proof -
  have "meta_ok (remove_identity_row order i c)" if "meta_ok c" "foreign_keys_ok (remove_identity_row order i c)" for c
  proof (cases "i \<in> identity_ids c")
    case True
    let ?c = "c\<lparr>identity_tbl := filter (\<lambda>r. fst r \<noteq> i) (identity_tbl c)\<rparr>"
    have "same_ids ?c (remove_identity_row order i c)"
      using True same_ids_cascade by (simp add: remove_identity_row_def)
    then show ?thesis
      using that by (auto simp: same_ids_def meta_ok_def table_ok_filter unique_filter)
  qed (use that in \<open>simp add: remove_identity_row_def\<close>)
  then show ?thesis
    unfolding keeps_meta_def delete_identity_def by (auto dest!: done_on_tables done_checked)
qed
subsection \<open>Programs inside a transaction\<close>

text \<open>
  What a program of statements does inside the transaction of an identity that exists, for every
  pattern of failing calls: the transaction stays open on the same file, the invariant holds, and
  without failing calls the contents change as the function \<open>g\<close> says.
\<close>

definition within :: "int \<Rightarrow> meta_content \<Rightarrow> meta_db \<Rightarrow> bool" where
  "within i s d \<longleftrightarrow> opened d \<and> snapshot d = Some s \<and> meta_ok (content d) \<and> i \<in> identity_ids (content d)"

definition follows :: "int \<Rightarrow> (meta_db \<Rightarrow> meta_db) \<Rightarrow> (meta_content \<Rightarrow> meta_content) \<Rightarrow> bool" where
  "follows i f g \<longleftrightarrow> (\<forall>d s. within i s d \<longrightarrow> within i s (f d) \<and>
     (faults d = [] \<longrightarrow> faults (f d) = [] \<and> content (f d) = g (content d)))"

text \<open>The contents after a statement whose failure is ignored.\<close>

definition attempt :: "meta_content statement \<Rightarrow> meta_content \<Rightarrow> meta_content" where
  "attempt s c = (case s c of Done c' \<Rightarrow> c' | _ \<Rightarrow> c)"

definition keeps_identity :: "int \<Rightarrow> meta_content statement \<Rightarrow> bool" where
  "keeps_identity i s \<longleftrightarrow> keeps_meta s \<and> (\<forall>c. i \<in> identity_ids c \<longrightarrow>
     s c \<noteq> Rolled_back \<and> (\<forall>c'. s c = Done c' \<longrightarrow> i \<in> identity_ids c'))"

named_theorems keeps_id

lemma exec_within:
  assumes "keeps_identity i s" "within i x d"
    and "gsignond_db_metadata_database_exec s d = (ok, d')"
  shows "within i x d' \<and> (faults d = [] \<longrightarrow> faults d' = [] \<and> content d' = attempt s (content d) \<and>
       (ok \<longleftrightarrow> (\<exists>c. s (content d) = Done c)))"
proof -
  obtain rc d1 where call: "sqlite_call d = (rc, d1)" by force
  from same_data_call [OF call] call_no_faults [of d] call
  have d1: "content d1 = content d" "snapshot d1 = Some x" "opened d1"
    "faults d = [] \<Longrightarrow> rc = SQLITE_OK \<and> faults d1 = []"
    using assms(2) by (auto simp: same_data_def within_def)
  show ?thesis
    using assms call d1
    by (cases "rc = SQLITE_OK"; cases "s (content d)")
       (auto simp: gsignond_db_metadata_database_exec_def gsignond_db_sql_database_exec_def within_def
          keeps_identity_def keeps_meta_def attempt_def split: bool.splits)
qed

lemma follows_exec: "keeps_identity i s \<Longrightarrow> follows i (exec_ignored s) (attempt s)"
  unfolding follows_def exec_ignored_def
  by (metis exec_within prod.collapse)

lemma follows_comp:
  "follows i f g \<Longrightarrow> follows i f' g' \<Longrightarrow> follows i (\<lambda>d. f' (f d)) (\<lambda>c. g' (g c))"
  unfolding follows_def by metis

lemma follows_id: "follows i (\<lambda>d. d) (\<lambda>c. c)"
  by (simp add: follows_def)

lemma follows_fold:
  "(\<And>x. x \<in> set xs \<Longrightarrow> follows i (f x) (g x)) \<Longrightarrow> follows i (fold f xs) (fold g xs)"
proof (induction xs)
  case (Cons x xs)
  then have "follows i (f x) (g x)" "follows i (fold f xs) (fold g xs)" by simp_all
  from follows_comp [OF this] show ?case by (simp add: comp_def)
qed (simp add: follows_def)

lemma follows_if: "(b \<Longrightarrow> follows i f g) \<Longrightarrow> (\<not> b \<Longrightarrow> follows i f' g') \<Longrightarrow>
    follows i (\<lambda>d. if b then f d else f' d) (\<lambda>c. if b then g c else g' c)"
  by (cases b) simp_all

lemma keeps_id_child:
  assumes "keeps_meta (insert_child i f)" "\<And>c. identity_ids (f c) = identity_ids c"
  shows "keeps_identity i (insert_child i f)"
  using assms by (auto simp: keeps_identity_def checked_def insert_child_def on_tables_def split: if_splits)

lemma ids_fields [simp]:
  "identity_ids (c\<lparr>realms_tbl := r\<rparr>) = identity_ids c"
  "identity_ids (c\<lparr>owner_tbl := ow\<rparr>) = identity_ids c"
  "identity_ids (c\<lparr>acl_tbl := a\<rparr>) = identity_ids c"
  "identity_ids (c\<lparr>refs_tbl := fs\<rparr>) = identity_ids c"
  "identity_ids (c\<lparr>secctx_tbl := x\<rparr>) = identity_ids c"
  by (simp_all add: identity_ids_def)

lemma keeps_id_children [keeps_id]:
  "keeps_identity i (insert_realm i r)" "keeps_identity i (insert_owner i ctx)"
  "keeps_identity i (insert_acl i m n x)" "keeps_identity i (insert_ref i ctx ref)"
  using keeps_children
  by (simp_all add: insert_realm_def insert_owner_def insert_acl_def insert_ref_def Let_def keeps_id_child)

lemma keeps_id_values [keeps_id]:
  "keeps_identity i (insert_or_ignore_method m)" "keeps_identity i (insert_or_ignore_mechanism m)"
  "keeps_identity i (insert_or_ignore_secctx ctx)"
  by (simp_all add: keeps_identity_def keeps)
     (auto simp: identity_ids_def insert_or_ignore_method_def insert_or_ignore_mechanism_def
      insert_or_ignore_secctx_def on_tables_def Let_def split: if_splits)

lemma ids_removes [simp]:
  "identity_ids (remove_acl j c) = identity_ids c" "identity_ids (remove_refs P c) = identity_ids c"
  "identity_ids (remove_owner j c) = identity_ids c" "identity_ids (remove_realms j c) = identity_ids c"
  by (rule same_ids_identity, simp)+

lemma keeps_identityI:
  "keeps_meta s \<Longrightarrow> (\<And>c c'. s c = Done c' \<Longrightarrow> identity_ids c' = identity_ids c) \<Longrightarrow>
     (\<And>c. s c \<noteq> Rolled_back) \<Longrightarrow> keeps_identity i s"
  by (auto simp: keeps_identity_def)

lemma keeps_id_deletes [keeps_id]:
  "keeps_identity i (delete_owner j)" "keeps_identity i (delete_acl j)"
  "keeps_identity i (delete_realms j)" "keeps_identity i (delete_refs j ctx ref)"
  by (rule keeps_identityI, rule keeps,
      (auto simp: delete_owner_def delete_acl_def delete_realms_def delete_refs_def on_tables_def
        checked_def split: if_splits)[2])+

lemma values_done:
  "has_tables c \<Longrightarrow> \<exists>c'. insert_or_ignore_method m c = Done c'"
  "has_tables c \<Longrightarrow> \<exists>c'. insert_or_ignore_mechanism m c = Done c'"
  "has_tables c \<Longrightarrow> \<exists>c'. insert_or_ignore_secctx ctx c = Done c'"
  by (simp_all add: insert_or_ignore_method_def insert_or_ignore_mechanism_def
      insert_or_ignore_secctx_def on_tables_def Let_def)

text \<open>A loop over a list that stops at the first failure, when no statement of it can fail.\<close>

lemma follows_insert_mechanisms:
  "follows i (\<lambda>d. snd (insert_mechanism_rows ms d)) (fold (\<lambda>m. attempt (insert_or_ignore_mechanism m)) ms) \<and>
   (\<forall>d s. within i s d \<longrightarrow> faults d = [] \<longrightarrow> fst (insert_mechanism_rows ms d))"
proof (induction ms)
  case (Cons m ms)
  have "within i s (snd (insert_mechanism_rows (m # ms) d)) \<and>
      (faults d = [] \<longrightarrow> faults (snd (insert_mechanism_rows (m # ms) d)) = [] \<and>
        content (snd (insert_mechanism_rows (m # ms) d)) =
          fold (\<lambda>m. attempt (insert_or_ignore_mechanism m)) (m # ms) (content d) \<and>
        fst (insert_mechanism_rows (m # ms) d))" if w: "within i s d" for d s
  proof -
    obtain ok d' where e: "gsignond_db_metadata_database_exec (insert_or_ignore_mechanism m) d = (ok, d')" by force
    note W = exec_within [OF keeps_id_values(2) w e]
    have "faults d = [] \<longrightarrow> ok" using W w values_done(2) by (auto simp: within_def meta_ok_def)
    with W e Cons.IH show ?thesis by (cases ok) (auto simp: follows_def)
  qed
  then show ?case by (auto simp: follows_def)
qed (simp add: follows_def)

lemma follows_insert_methods:
  "follows i (\<lambda>d. snd (insert_method_rows ms d))
     (fold (\<lambda>(m, mechs) c. fold (\<lambda>x. attempt (insert_or_ignore_mechanism x)) mechs
        (attempt (insert_or_ignore_method m) c)) ms)"
proof (induction ms)
  case (Cons mm ms)
  obtain m mechs where mm: "mm = (m, mechs)" by force
  have "within i s (snd (insert_method_rows (mm # ms) d)) \<and>
      (faults d = [] \<longrightarrow> faults (snd (insert_method_rows (mm # ms) d)) = [] \<and>
        content (snd (insert_method_rows (mm # ms) d)) =
          fold (\<lambda>(m, mechs) c. fold (\<lambda>x. attempt (insert_or_ignore_mechanism x)) mechs
            (attempt (insert_or_ignore_method m) c)) (mm # ms) (content d))" if w: "within i s d" for d s
  proof -
    obtain ok d' where e: "gsignond_db_metadata_database_exec (insert_or_ignore_method m) d = (ok, d')" by force
    obtain ok2 d2 where e2: "insert_mechanism_rows mechs d' = (ok2, d2)" by force
    note W = exec_within [OF keeps_id_values(1) w e]
    have ok: "faults d = [] \<longrightarrow> ok" using W w values_done(1) by (auto simp: within_def meta_ok_def)
    have M: "within i s d2 \<and> (faults d' = [] \<longrightarrow> ok2 \<and> faults d2 = [] \<and>
        content d2 = fold (\<lambda>x. attempt (insert_or_ignore_mechanism x)) mechs (content d'))"
      using follows_insert_mechanisms [of i mechs] W e2 unfolding follows_def by (metis fst_conv snd_conv)
    have R: "within i s (snd (insert_method_rows ms d2)) \<and> (faults d2 = [] \<longrightarrow>
        faults (snd (insert_method_rows ms d2)) = [] \<and> content (snd (insert_method_rows ms d2)) =
          fold (\<lambda>(m, mechs) c. fold (\<lambda>x. attempt (insert_or_ignore_mechanism x)) mechs
            (attempt (insert_or_ignore_method m) c)) ms (content d2))"
      using Cons.IH M unfolding follows_def by blast
    show ?thesis
      using W ok M R e e2 mm by (cases ok; cases ok2) simp_all
  qed
  then show ?case by (auto simp: follows_def)
qed (simp add: follows_def)

subsection \<open>Storing follows a function on the tables\<close>

definition owner_effect :: "identity_info \<Rightarrow> int \<Rightarrow> security_context \<Rightarrow> meta_content \<Rightarrow> meta_content" where
  "owner_effect info i owner c =
     (if gsignond_identity_info_get_edit_flags info AND IDENTITY_INFO_PROP_OWNER \<noteq> 0 then
        attempt (insert_owner i owner)
          ((if sys_ctx owner \<noteq> '''' then attempt (insert_or_ignore_secctx owner) else id)
            ((if \<not> gsignond_identity_info_get_is_identity_new info then attempt (delete_owner i) else id) c))
      else c)"

definition acl_effect :: "identity_info \<Rightarrow> int \<Rightarrow> security_context list \<Rightarrow> meta_content \<Rightarrow> meta_content" where
  "acl_effect info i acl c =
     (if gsignond_identity_info_get_edit_flags info AND IDENTITY_INFO_PROP_ACL \<noteq> 0 then
        fold (\<lambda>ctx. attempt (insert_or_ignore_secctx ctx)) acl
          ((if \<not> gsignond_identity_info_get_is_identity_new info then attempt (delete_acl i) else id) c)
      else c)"

definition rows_effect :: "int \<Rightarrow> string \<Rightarrow> gsequence \<Rightarrow> security_context option \<Rightarrow> meta_content \<Rightarrow> meta_content" where
  "rows_effect i meth mechs ctx c =
     (if mechs = [] then attempt (insert_acl i (Some meth) None ctx) c
      else fold (\<lambda>mech. attempt (insert_acl i (Some meth) (Some mech) ctx)) mechs c)"

definition methods_effect :: "identity_info \<Rightarrow> int \<Rightarrow> security_context list \<Rightarrow> meta_content \<Rightarrow> meta_content" where
  "methods_effect info i acl c =
     (let flags = gsignond_identity_info_get_edit_flags info in
      case gsignond_identity_info_get_methods info of
        None \<Rightarrow> c
      | Some ms \<Rightarrow>
          let c = (if flags AND IDENTITY_INFO_PROP_METHODS \<noteq> 0
                   then fold (\<lambda>(m, mechs) c. fold (\<lambda>x. attempt (insert_or_ignore_mechanism x)) mechs
                          (attempt (insert_or_ignore_method m) c)) ms c else c)
          in if flags AND IDENTITY_INFO_PROP_ACL \<noteq> 0 \<or> flags AND IDENTITY_INFO_PROP_METHODS \<noteq> 0 then
               (if ms = [] then fold (\<lambda>ctx. attempt (insert_acl i None None (Some ctx))) acl c
                else if acl = [] then fold (\<lambda>(m, mechs). rows_effect i m mechs None) ms c
                else fold (\<lambda>(m, mechs). fold (\<lambda>ctx. rows_effect i m mechs (Some ctx)) acl) ms c)
             else c)"

lemma follows_owner: "follows (uint ident) (store_owner info ident owner) (owner_effect info (uint ident) owner)"
proof -
  let ?i = "uint ident"
  have a: "follows ?i (\<lambda>d. if \<not> gsignond_identity_info_get_is_identity_new info
      then exec_ignored (delete_owner ?i) d else d)
    (\<lambda>c. if \<not> gsignond_identity_info_get_is_identity_new info then attempt (delete_owner ?i) c else c)"
    by (intro follows_if follows_exec follows_id keeps_id)
  have b: "follows ?i (\<lambda>d. if sys_ctx owner \<noteq> '''' then exec_ignored (insert_or_ignore_secctx owner) d else d)
    (\<lambda>c. if sys_ctx owner \<noteq> '''' then attempt (insert_or_ignore_secctx owner) c else c)"
    by (intro follows_if follows_exec follows_id keeps_id)
  have c: "follows ?i (exec_ignored (insert_owner ?i owner)) (attempt (insert_owner ?i owner))"
    by (intro follows_exec keeps_id)
  from follows_comp [OF follows_comp [OF a b] c] show ?thesis
    by (cases "gsignond_identity_info_get_edit_flags info AND IDENTITY_INFO_PROP_OWNER = 0";
        cases "gsignond_identity_info_get_is_identity_new info"; cases "sys_ctx owner = ''''")
       (simp_all add: Let_def store_owner_def [abs_def] owner_effect_def [abs_def]
        gsignond_db_metadata_database_update_owner_def follows_id)
qed

lemma follows_acl: "follows (uint ident) (store_acl_contexts info ident acl) (acl_effect info (uint ident) acl)"
proof -
  let ?i = "uint ident"
  have a: "follows ?i (\<lambda>d. if \<not> gsignond_identity_info_get_is_identity_new info
      then exec_ignored (delete_acl ?i) d else d)
    (\<lambda>c. if \<not> gsignond_identity_info_get_is_identity_new info then attempt (delete_acl ?i) c else c)"
    by (intro follows_if follows_exec follows_id keeps_id)
  have b: "follows ?i (fold (\<lambda>ctx. exec_ignored (insert_or_ignore_secctx ctx)) acl)
      (fold (\<lambda>ctx. attempt (insert_or_ignore_secctx ctx)) acl)"
    by (intro follows_fold follows_exec keeps_id)
  from follows_comp [OF a b] show ?thesis
    by (cases "gsignond_identity_info_get_edit_flags info AND IDENTITY_INFO_PROP_ACL = 0";
        cases "gsignond_identity_info_get_is_identity_new info"; cases "acl = []")
       (simp_all add: Let_def store_acl_contexts_def [abs_def] acl_effect_def [abs_def]
        gsignond_db_metadata_database_update_acl_def follows_id id_def)
qed

lemma follows_rows: "follows i (insert_acl_rows i m mechs ctx) (rows_effect i m mechs ctx)"
proof (cases "mechs = []")
  case True
  have "follows i (exec_ignored (insert_acl i (Some m) None ctx)) (attempt (insert_acl i (Some m) None ctx))"
    by (intro follows_exec keeps_id)
  with True show ?thesis by (simp add: insert_acl_rows_def [abs_def] rows_effect_def [abs_def])
next
  case False
  have "follows i (fold (\<lambda>mech. exec_ignored (insert_acl i (Some m) (Some mech) ctx)) mechs)
      (fold (\<lambda>mech. attempt (insert_acl i (Some m) (Some mech) ctx)) mechs)"
    by (intro follows_fold follows_exec keeps_id)
  with False show ?thesis by (simp add: insert_acl_rows_def [abs_def] rows_effect_def [abs_def])
qed

lemma follows_identity_acl:
  "follows i (insert_identity_acl i ms acl)
     (\<lambda>c. if ms = [] then fold (\<lambda>ctx. attempt (insert_acl i None None (Some ctx))) acl c
          else if acl = [] then fold (\<lambda>(m, mechs). rows_effect i m mechs None) ms c
          else fold (\<lambda>(m, mechs). fold (\<lambda>ctx. rows_effect i m mechs (Some ctx)) acl) ms c)"
proof (cases "ms = []")
  case True
  have "follows i (fold (\<lambda>ctx. exec_ignored (insert_acl i None None (Some ctx))) acl)
      (fold (\<lambda>ctx. attempt (insert_acl i None None (Some ctx))) acl)"
    by (intro follows_fold follows_exec keeps_id)
  with True show ?thesis by (simp add: insert_identity_acl_def [abs_def])
next
  case ms: False
  show ?thesis
  proof (cases "acl = []")
    case True
    have "follows i (fold (\<lambda>(m, mechs). insert_acl_rows i m mechs None) ms)
        (fold (\<lambda>(m, mechs). rows_effect i m mechs None) ms)"
      by (rule follows_fold) (auto intro: follows_rows)
    with True ms show ?thesis by (simp add: insert_identity_acl_def [abs_def])
  next
    case False
    have "follows i (fold (\<lambda>(m, mechs). fold (\<lambda>ctx. insert_acl_rows i m mechs (Some ctx)) acl) ms)
        (fold (\<lambda>(m, mechs). fold (\<lambda>ctx. rows_effect i m mechs (Some ctx)) acl) ms)"
      by (rule follows_fold) (auto intro!: follows_fold follows_rows)
    with False ms show ?thesis by (simp add: insert_identity_acl_def [abs_def])
  qed
qed

lemma follows_methods:
  "follows (uint ident) (update_methods_and_acl info ident acl) (methods_effect info (uint ident) acl)"
proof (cases "gsignond_identity_info_get_methods info")
  case None
  then show ?thesis
    by (simp add: update_methods_and_acl_def [abs_def] methods_effect_def [abs_def] Let_def
        gsignond_db_metadata_database_insert_methods_def follows_id cong: if_cong)
next
  case (Some ms)
  let ?f = "gsignond_identity_info_get_edit_flags info"
  have eq: "snd (gsignond_db_metadata_database_insert_methods (Some ms) d) = snd (insert_method_rows ms d)" for d
    by (simp add: gsignond_db_metadata_database_insert_methods_def)
  consider "?f AND IDENTITY_INFO_PROP_METHODS \<noteq> 0"
    | "?f AND IDENTITY_INFO_PROP_METHODS = 0" "?f AND IDENTITY_INFO_PROP_ACL \<noteq> 0"
    | "?f AND IDENTITY_INFO_PROP_METHODS = 0" "?f AND IDENTITY_INFO_PROP_ACL = 0" by blast
  then show ?thesis
  proof cases
    case 1
    then show ?thesis
      unfolding update_methods_and_acl_def [abs_def] methods_effect_def [abs_def] Let_def
      using follows_comp [OF follows_insert_methods [of "uint ident" ms] follows_identity_acl [of "uint ident" ms acl]]
      by (simp only: Some eq option.case if_True simp_thms)
  next
    case 2
    then show ?thesis
      unfolding update_methods_and_acl_def [abs_def] methods_effect_def [abs_def] Let_def
      using follows_identity_acl [of "uint ident" ms acl]
      by (simp only: Some option.case if_True if_False simp_thms)
  next
    case 3
    then show ?thesis
      by (simp add: update_methods_and_acl_def [abs_def] methods_effect_def [abs_def] Let_def Some follows_id)
  qed
qed
lemma exec_one_within:
  assumes "opened d" "snapshot d = Some s" "st c \<noteq> Rolled_back" "content d = c"
    and "gsignond_db_sql_database_exec [st] d = (ok, d')"
  shows "opened d' \<and> snapshot d' = Some s \<and> (ok \<longrightarrow> st c = Done (content d')) \<and>
    (faults d = [] \<longrightarrow> faults d' = [] \<and> (ok \<longleftrightarrow> (\<exists>c'. st c = Done c')))"
proof -
  obtain rc d1 where call: "sqlite_call d = (rc, d1)" by force
  from same_data_call [OF call] call_no_faults [of d] call
  have d1: "content d1 = c" "snapshot d1 = Some s" "opened d1"
    "faults d = [] \<Longrightarrow> rc = SQLITE_OK \<and> faults d1 = []"
    using assms(1,2,4) by (auto simp: same_data_def)
  show ?thesis
    using assms call d1
    by (cases "rc = SQLITE_OK"; cases "st c")
       (auto simp: gsignond_db_sql_database_exec_def split: bool.splits)
qed

lemma realm_done:
  "meta_ok c \<Longrightarrow> i \<in> identity_ids c \<Longrightarrow>
     insert_realm i r c = Done (c\<lparr>realms_tbl := realms_tbl c @ [(i, r)]\<rparr>)"
  by (auto simp: insert_realm_def insert_child_def on_tables_def checked_def meta_ok_def foreign_keys_ok_def)

lemma insert_realms_result:
  "within i s d \<Longrightarrow> insert_realms i seq d = (ok, d') \<Longrightarrow> within i s d' \<and>
     (faults d = [] \<longrightarrow> ok \<and> faults d' = [] \<and>
        content d' = (content d)\<lparr>realms_tbl := realms_tbl (content d) @ map (Pair i) seq\<rparr>)"
proof (induction seq arbitrary: d)
  case (Cons r seq)
  obtain ok1 d1 where e: "gsignond_db_metadata_database_exec (insert_realm i r) d = (ok1, d1)" by force
  note W = exec_within [OF keeps_id_children(1) Cons.prems(1) e]
  have inserted: "insert_realm i r (content d) = Done ((content d)\<lparr>realms_tbl := realms_tbl (content d) @ [(i, r)]\<rparr>)"
    using Cons.prems(1) by (intro realm_done) (auto simp: within_def)
  show ?case
  proof (cases ok1)
    case True
    then have "insert_realms i seq d1 = (ok, d')" using Cons.prems(2) e by simp
    from Cons.IH [OF _ this] W show ?thesis by (auto simp: inserted attempt_def)
  next
    case False
    then show ?thesis using Cons.prems(2) e W by (auto simp: inserted)
  qed
qed simp

definition realms_effect :: "identity_info \<Rightarrow> int \<Rightarrow> meta_content \<Rightarrow> meta_content" where
  "realms_effect info i c =
     (let seq = (if gsignond_identity_info_get_edit_flags info AND IDENTITY_INFO_PROP_REALMS \<noteq> 0
                 then (case gsignond_identity_info_get_realms info of Some s \<Rightarrow> s | None \<Rightarrow> []) else [])
      in if seq = [] then c
         else
           let c = (if \<not> gsignond_identity_info_get_is_identity_new info then remove_realms i c else c)
           in c\<lparr>realms_tbl := realms_tbl c @ map (Pair i) seq\<rparr>)"

definition store_realms :: "identity_info \<Rightarrow> u32 \<Rightarrow> meta_db \<Rightarrow> bool \<times> meta_db" where
  "store_realms info ident d =
     (if gsignond_identity_info_get_edit_flags info AND IDENTITY_INFO_PROP_REALMS \<noteq> 0
      then gsignond_db_metadata_database_update_realms info ident (gsignond_identity_info_get_realms info) d
      else (True, d))"

lemma store_realms_result:
  assumes "within (uint ident) s d" "store_realms info ident d = (ok, d')"
  shows "within (uint ident) s d' \<and> (faults d = [] \<longrightarrow> ok \<and> faults d' = [] \<and>
     content d' = realms_effect info (uint ident) (content d))"
proof (cases "gsignond_identity_info_get_edit_flags info AND IDENTITY_INFO_PROP_REALMS \<noteq> 0 \<and>
    gsignond_identity_info_get_realms info \<noteq> None \<and> gsignond_identity_info_get_realms info \<noteq> Some []")
  case False
  then show ?thesis
    using assms
    by (auto simp: store_realms_def gsignond_db_metadata_database_update_realms_def realms_effect_def
        split: if_splits option.splits)
next
  case True
  then obtain seq where seq: "gsignond_identity_info_get_realms info = Some seq" "seq \<noteq> []" by auto
  define d1 where "d1 = (if \<not> gsignond_identity_info_get_is_identity_new info
                        then exec_ignored (delete_realms (uint ident)) d else d)"
  have "attempt (delete_realms (uint ident)) (content d) = remove_realms (uint ident) (content d)"
    using assms(1) by (simp add: attempt_def delete_realms_def on_tables_def within_def meta_ok_def)
  then have d1: "within (uint ident) s d1 \<and> (faults d = [] \<longrightarrow> faults d1 = [] \<and> content d1 =
      (if \<not> gsignond_identity_info_get_is_identity_new info then remove_realms (uint ident) (content d)
       else content d))"
    using assms(1) follows_exec [OF keeps_id_deletes(3), of "uint ident" "uint ident"]
    by (auto simp: d1_def follows_def)
  have "insert_realms (uint ident) seq d1 = (ok, d')"
    using assms(2) True seq
    by (simp add: store_realms_def gsignond_db_metadata_database_update_realms_def d1_def)
  from insert_realms_result [OF _ this] d1 True seq show ?thesis
    by (auto simp: realms_effect_def Let_def)
qed

definition row_effect :: "identity_info \<Rightarrow> meta_content \<Rightarrow> meta_content" where
  "row_effect info c =
     (if gsignond_identity_info_get_is_identity_new info then
        c\<lparr>identity_tbl := identity_tbl c @ [(identity_seq c + 1, identity_row_of info)],
          identity_seq := identity_seq c + 1, identity_rowid := identity_seq c + 1\<rparr>
      else c\<lparr>identity_tbl := map (\<lambda>(j, r). (j, if j = uint (gsignond_identity_info_get_id info)
               then identity_row_of info else r)) (identity_tbl c)\<rparr>)"

definition stored_id :: "identity_info \<Rightarrow> meta_content \<Rightarrow> u32" where
  "stored_id info c =
     (if gsignond_identity_info_get_is_identity_new info then word_of_int (identity_seq c + 1)
      else gsignond_identity_info_get_id info)"

text \<open>An identity that can be stored: new, or one of the table; and there are ids left.\<close>

definition known :: "identity_info \<Rightarrow> meta_content \<Rightarrow> bool" where
  "known info c \<longleftrightarrow> identity_seq c + 1 < 2 ^ 32 \<and>
     (gsignond_identity_info_get_is_identity_new info \<or>
      uint (gsignond_identity_info_get_id info) \<in> identity_ids c)"

lemma update_credentials_result:
  assumes "opened d" "snapshot d = Some s" "meta_ok (content d)" "known info (content d)"
    and "gsignond_db_metadata_database_update_credentials info d = (ident, d')"
  shows "opened d' \<and> snapshot d' = Some s \<and>
    (ident \<noteq> 0 \<longrightarrow> ident = stored_id info (content d) \<and> within (uint ident) s d') \<and>
    (faults d = [] \<longrightarrow> faults d' = [] \<and> ident \<noteq> 0 \<and> content d' = row_effect info (content d))"
proof -
  let ?c = "content d" and ?new = "gsignond_identity_info_get_is_identity_new info"
  define st where "st = (if \<not> ?new then update_identity_row (uint (gsignond_identity_info_get_id info))
      (identity_row_of info) else insert_identity_row (identity_row_of info))"
  obtain ok d1 where e: "gsignond_db_sql_database_exec [st] d = (ok, d1)" by force
  have tables: "has_tables ?c" "0 \<le> identity_seq ?c" using assms(3) by (auto simp: meta_ok_def table_ok_def)
  then have st: "st ?c = Done (row_effect info ?c)"
    by (simp add: st_def row_effect_def insert_identity_row_def update_identity_row_def on_tables_def Let_def)
  have keeps: "keeps_meta st" by (simp add: st_def keeps)
  have ok: "meta_ok (row_effect info ?c)" using keeps st assms(3) by (auto simp: keeps_meta_def)
  have uint: "uint (stored_id info ?c) = (if ?new then identity_seq ?c + 1 else uint (gsignond_identity_info_get_id info))"
  proof -
    have "uint (word_of_int k :: u32) = k" if "0 \<le> k" "k < 2 ^ 32" for k
      using that by (simp add: uint_word_of_int_eq take_bit_int_eq_self_iff)
    from this [of "identity_seq ?c + 1"] show ?thesis
      using assms(4) tables(2) by (auto simp: stored_id_def known_def simp del: of_int_add)
  qed
  have nz: "stored_id info ?c \<noteq> 0"
  proof
    assume "stored_id info ?c = 0"
    with uint tables(2) show False
      by (auto simp: gsignond_identity_info_get_is_identity_new_def GSIGNOND_IDENTITY_INFO_NEW_IDENTITY_def
          stored_id_def split: if_splits)
  qed
  have member: "uint (stored_id info ?c) \<in> identity_ids (row_effect info ?c)"
    using assms(4) uint ids_map [where c = ?c and f = "\<lambda>j r. if j = uint (gsignond_identity_info_get_id info)
               then identity_row_of info else r"]
    by (auto simp: row_effect_def known_def) (simp_all add: identity_ids_def)
  note E = exec_one_within [OF assms(1,2) _ refl e]
  have res: "(ident, d') = (if ok then (stored_id info ?c, d1) else (0, d1))"
  proof (cases ok)
    case True
    with E st have "content d1 = row_effect info ?c" by auto
    with True e assms(5) show ?thesis
      by (auto simp: gsignond_db_metadata_database_update_credentials_def st_def [symmetric] Let_def
          stored_id_def row_effect_def split: if_splits)
  next
    case False
    with e assms(5) show ?thesis
      by (auto simp: gsignond_db_metadata_database_update_credentials_def st_def [symmetric] Let_def)
  qed
  show ?thesis
    using E st res nz ok member by (cases ok) (auto simp: within_def)
qed
definition storable :: "identity_info \<Rightarrow> bool" where
  "storable info \<longleftrightarrow> gsignond_identity_info_get_owner info \<noteq> None \<and>
     gsignond_identity_info_get_access_control_list info \<noteq> [] \<and>
     (acl_is_read info \<longrightarrow> contexts (gsignond_identity_info_get_access_control_list info) \<noteq> None)"

definition acl_of :: "identity_info \<Rightarrow> security_context list" where
  "acl_of info = (case contexts (gsignond_identity_info_get_access_control_list info) of
     Some acl \<Rightarrow> acl | None \<Rightarrow> [])"

text \<open>The tables after an identity was stored.\<close>

definition identity_effect :: "identity_info \<Rightarrow> meta_content \<Rightarrow> meta_content" where
  "identity_effect info c =
     (let i = uint (stored_id info c) in
      methods_effect info i (acl_of info) (acl_effect info i (acl_of info)
        (owner_effect info i (the (gsignond_identity_info_get_owner info))
          (realms_effect info i (row_effect info c)))))"

lemma roll_back_result:
  assumes "within i s d \<or> opened d \<and> snapshot d = Some s" "roll_back d = (ident, d')"
  shows "ident = 0 \<and> durable d' = s \<and> opened d'"
proof -
  obtain ok d1 where r: "gsignond_db_sql_database_rollback_transaction d = (ok, d1)" by force
  from rollback_result [OF r] r assms show ?thesis
    by (auto simp: roll_back_def within_def durable_def)
qed

lemma update_identity_cases:
  assumes "opened d" "gsignond_identity_info_get_edit_flags info \<noteq> IDENTITY_INFO_PROP_NONE"
    and start: "gsignond_db_sql_database_start_transaction d = (True, d1)"
    and creds: "gsignond_db_metadata_database_update_credentials info d1 = (ident, d2)"
    and realms: "store_realms info ident d2 = (ok, d3)"
  shows "gsignond_db_metadata_database_update_identity info d =
     (if ident = 0 then roll_back d2
      else if \<not> ok then roll_back d3
      else if gsignond_identity_info_get_owner info = None then roll_back d3
      else
        let d4 = store_owner info ident (the (gsignond_identity_info_get_owner info)) d3
        in if \<not> storable info then roll_back d4
           else case gsignond_db_sql_database_commit_transaction
                  (update_methods_and_acl info ident (acl_of info) (store_acl_contexts info ident (acl_of info) d4)) of
             (False, d5) \<Rightarrow> (0, d5) | (True, d5) \<Rightarrow> (ident, d5))"
  using assms
  by (auto simp: gsignond_db_metadata_database_update_identity_def store_realms_def storable_def acl_of_def
      Let_def split: bool.split option.split)

lemma update_identity_result:
  assumes "opened d" "meta_ok (content d)" "known info (content d)"
    and flags: "gsignond_identity_info_get_edit_flags info \<noteq> IDENTITY_INFO_PROP_NONE"
    and r: "gsignond_db_metadata_database_update_identity info d = (ident, d')"
  shows "opened d' \<and> (ident = 0 \<longrightarrow> durable d' = durable d) \<and>
    (ident \<noteq> 0 \<longrightarrow> snapshot d' = None \<and> meta_ok (content d') \<and> ident = stored_id info (content d) \<and>
       uint ident \<in> identity_ids (content d')) \<and>
    (faults d = [] \<and> snapshot d = None \<and> storable info \<longrightarrow>
       ident \<noteq> 0 \<and> faults d' = [] \<and> content d' = identity_effect info (content d))"
proof -
  obtain b d1 where b: "gsignond_db_sql_database_start_transaction d = (b, d1)" by force
  obtain i d2 where c: "gsignond_db_metadata_database_update_credentials info d1 = (i, d2)" by force
  obtain ok d3 where re: "store_realms info i d2 = (ok, d3)" by force
  note B = start_result [OF b]
  show ?thesis
  proof (cases b)
    case False
    then have "(ident, d') = (0, d1)"
      using assms(1) flags r b by (simp add: gsignond_db_metadata_database_update_identity_def)
    with B False assms(1) show ?thesis by (cases "snapshot d") (auto simp: durable_def)
  next
    case True
    with B assms(1) have d1: "opened d1" "snapshot d1 = Some (content d)" "content d1 = content d"
      "snapshot d = None" "durable d = content d" "faults d = [] \<Longrightarrow> faults d1 = []"
      by (auto simp: durable_def)
    let ?s = "content d" and ?ow = "the (gsignond_identity_info_get_owner info)"
    let ?d4 = "store_owner info i ?ow d3"
    let ?d5 = "update_methods_and_acl info i (acl_of info) (store_acl_contexts info i (acl_of info) ?d4)"
    have b': "gsignond_db_sql_database_start_transaction d = (True, d1)" using b True by simp
    note cases = update_identity_cases [OF assms(1) flags b' c re, unfolded Let_def r]
    have C: "opened d2 \<and> snapshot d2 = Some ?s \<and>
      (i \<noteq> 0 \<longrightarrow> i = stored_id info ?s \<and> within (uint i) ?s d2) \<and>
      (faults d1 = [] \<longrightarrow> faults d2 = [] \<and> i \<noteq> 0 \<and> content d2 = row_effect info ?s)"
      using update_credentials_result [OF d1(1,2) _ _ c] assms(2,3) d1(3) by simp
    show ?thesis
    proof (cases "i = 0")
      case True
      then have "roll_back d2 = (ident, d')" using cases by simp
      from roll_back_result [OF _ this, of _ ?s] C True d1 show ?thesis by auto
    next
      case i: False
      with C have w2: "within (uint i) ?s d2" and i_eq: "i = stored_id info ?s" by auto
      note R = store_realms_result [OF w2 re]
      then have w3: "within (uint i) ?s d3" by simp
      then have w4: "within (uint i) ?s ?d4 \<and> (faults d3 = [] \<longrightarrow> faults ?d4 = [] \<and>
          content ?d4 = owner_effect info (uint i) ?ow (content d3))"
        using follows_owner [of i info ?ow] by (auto simp: follows_def)
      have w5: "within (uint i) ?s ?d5 \<and> (faults ?d4 = [] \<longrightarrow> faults ?d5 = [] \<and>
          content ?d5 = methods_effect info (uint i) (acl_of info) (acl_effect info (uint i) (acl_of info) (content ?d4)))"
        using w4 follows_comp [OF follows_acl follows_methods, of i info "acl_of info" info "acl_of info"]
        by (auto simp: follows_def)
      show ?thesis
      proof (cases "ok \<and> storable info")
        case True
        obtain k d6 where k: "gsignond_db_sql_database_commit_transaction ?d5 = (k, d6)" by force
        have eq: "(ident, d') = (if k then i else 0, d6)"
          using cases i True k conjunct1 [OF True [THEN conjunct2, unfolded storable_def]]
          by (cases k) simp_all
        note K = commit_result [OF k]
        have "content ?d5 = identity_effect info ?s" "faults ?d5 = []" if "faults d = []"
          using that d1 C R w4 w5 i_eq by (auto simp: identity_effect_def Let_def)
        then show ?thesis
          using eq K w5 i i_eq d1 by (cases k) (auto simp: within_def durable_def)
      next
        case False
        then have "roll_back d3 = (ident, d') \<or> roll_back ?d4 = (ident, d')"
          using cases i by (auto split: if_splits)
        then have "ident = 0 \<and> durable d' = ?s \<and> opened d'"
          using roll_back_result [OF disjI1 [OF w3]] roll_back_result [OF disjI1 [OF conjunct1 [OF w4]]]
          by (elim disjE)
        moreover have "faults d = [] \<longrightarrow> ok" using d1(6) C R by blast
        ultimately show ?thesis using False d1(5) by simp
      qed
    qed
  qed
qed

lemma identity_update_outcome:
  assumes "meta_ok (content d)" "known info (content d)"
  shows "let (ident, d') = gsignond_db_metadata_database_update_identity info d in
     (ident = 0 \<longrightarrow> durable d' = durable d) \<and>
     (gsignond_identity_info_get_edit_flags info = 0 \<longrightarrow> durable d' = durable d) \<and>
     (ident \<noteq> 0 \<and> gsignond_identity_info_get_edit_flags info \<noteq> 0 \<longrightarrow>
        ident = stored_id info (content d) \<and> snapshot d' = None \<and> meta_ok (durable d') \<and>
        uint ident \<in> identity_ids (durable d')) \<and>
     (healthy d \<and> storable info \<and> gsignond_identity_info_get_edit_flags info \<noteq> 0 \<longrightarrow>
        ident \<noteq> 0 \<and> healthy d')"
proof -
  obtain ident d' where r: "gsignond_db_metadata_database_update_identity info d = (ident, d')" by force
  consider "\<not> opened d" | "opened d" "gsignond_identity_info_get_edit_flags info = 0"
    | "opened d" "gsignond_identity_info_get_edit_flags info \<noteq> 0" by blast
  then show ?thesis
  proof cases
    case 1
    with r show ?thesis
      by (cases "snapshot d") (auto simp: gsignond_db_metadata_database_update_identity_def durable_def healthy_def)
  next
    case 2
    with r show ?thesis
      by (auto simp: gsignond_db_metadata_database_update_identity_def IDENTITY_INFO_PROP_NONE_def)
  next
    case 3
    with update_identity_result [OF 3(1) assms _ r] r show ?thesis
      by (auto simp: durable_def IDENTITY_INFO_PROP_NONE_def healthy_def)
  qed
qed

subsection \<open>Storing an identity that is not in the table\<close>

text \<open>
  Nothing checks that the identity of an update exists. What then remains true, whatever fails: the
  tables that belong to identities stay as they are, while values of the three tables that are
  shared by identities (methods, mechanisms, contexts) may be added.
\<close>

definition values_added :: "meta_content \<Rightarrow> meta_content \<Rightarrow> bool" where
  "values_added c c' \<longleftrightarrow> identity_tbl c' = identity_tbl c \<and> realms_tbl c' = realms_tbl c \<and>
     acl_tbl c' = acl_tbl c \<and> refs_tbl c' = refs_tbl c \<and> owner_tbl c' = owner_tbl c \<and>
     prefix (methods_tbl c) (methods_tbl c') \<and> prefix (mechanisms_tbl c) (mechanisms_tbl c') \<and>
     prefix (secctx_tbl c) (secctx_tbl c')"

lemma values_added_refl [simp]: "values_added c c"
  by (simp add: values_added_def)

lemma values_added_trans: "values_added a b \<Longrightarrow> values_added b c \<Longrightarrow> values_added a c"
  by (auto simp: values_added_def intro: prefix_order.trans)

text \<open>The database while an update of a missing identity runs on the contents \<open>c\<close>.\<close>

definition adrift :: "int \<Rightarrow> meta_content \<Rightarrow> meta_db \<Rightarrow> bool" where
  "adrift i c d \<longleftrightarrow> opened d \<and> meta_ok c \<and> i \<notin> identity_ids c \<and> meta_ok (content d) \<and>
     values_added c (content d) \<and> (snapshot d = None \<or> snapshot d = Some c)"

definition only_values :: "int \<Rightarrow> meta_content statement \<Rightarrow> bool" where
  "only_values i s \<longleftrightarrow> keeps_meta s \<and>
     (\<forall>c c'. meta_ok c \<longrightarrow> i \<notin> identity_ids c \<longrightarrow> s c = Done c' \<longrightarrow> values_added c c')"

lemma adrift_exec:
  assumes "only_values i s" "adrift i c d" "gsignond_db_sql_database_exec [s] d = (ok, d')"
  shows "adrift i c d'"
proof -
  obtain rc d1 where call: "sqlite_call d = (rc, d1)" by force
  from same_data_call [OF call]
  have d1: "content d1 = content d" "snapshot d1 = snapshot d" "opened d1"
    using assms(2) by (auto simp: same_data_def adrift_def)
  have "i \<notin> identity_ids (content d)"
    using assms(2) by (auto simp: adrift_def values_added_def identity_ids_def)
  then have D: "meta_ok c' \<and> values_added c c'" if "s (content d) = Done c'" for c'
    using assms(1,2) that values_added_trans [of c "content d"]
    by (auto simp: only_values_def keeps_meta_def adrift_def)
  show ?thesis
    using assms(2,3) call d1 D
    by (cases "rc = SQLITE_OK"; cases "s (content d)"; cases "snapshot d")
       (auto simp: gsignond_db_sql_database_exec_def adrift_def durable_def split: bool.splits)
qed

lemma adrift_ignored: "only_values i s \<Longrightarrow> adrift i c d \<Longrightarrow> adrift i c (exec_ignored s d)"
  using adrift_exec [of i s c d] unfolding exec_ignored_def gsignond_db_metadata_database_exec_def
  by (metis prod.collapse)

lemma adrift_fold: "(\<And>x d. adrift i c d \<Longrightarrow> adrift i c (f x d)) \<Longrightarrow> adrift i c d \<Longrightarrow> adrift i c (fold f xs d)"
  by (induction xs arbitrary: d) simp_all

lemma no_rows_of_missing:
  assumes "meta_ok c" "i \<notin> identity_ids c"
  shows "filter (\<lambda>r. acl_identity r = i) (acl_tbl c) = []" "filter (\<lambda>r. acl_identity r \<noteq> i) (acl_tbl c) = acl_tbl c"
    "filter (\<lambda>r. fst r = i) (owner_tbl c) = []" "filter (\<lambda>r. fst r \<noteq> i) (owner_tbl c) = owner_tbl c"
    "filter (\<lambda>r. fst r \<noteq> i) (realms_tbl c) = realms_tbl c"
    "map (\<lambda>(j, r). (j, if j = i then row else r)) (identity_tbl c) = identity_tbl c"
proof -
  show "map (\<lambda>(j, r). (j, if j = i then row else r)) (identity_tbl c) = identity_tbl c"
    by (rule map_idI) (use assms(2) in \<open>force simp: identity_ids_def\<close>)
qed (use assms in \<open>auto simp: meta_ok_def foreign_keys_ok_def filter_empty_conv filter_id_conv\<close>)

lemma remove_missing:
  assumes "meta_ok c" "i \<notin> identity_ids c"
  shows "remove_realms i c = c" "remove_owner i c = c" "remove_acl i c = c"
  by (simp_all add: remove_realms_def remove_owner_def remove_acl_def drop_stale_def Let_def
      no_rows_of_missing [OF assms])

lemma only_valuesI:
  "keeps_meta s \<Longrightarrow> (\<And>c c'. meta_ok c \<Longrightarrow> i \<notin> identity_ids c \<Longrightarrow> s c = Done c' \<Longrightarrow> values_added c c') \<Longrightarrow>
     only_values i s"
  by (simp add: only_values_def)

lemma only_values_statements:
  "only_values i (update_identity_row i row)"
  "only_values i (insert_realm i r)" "only_values i (insert_owner i ctx)" "only_values i (insert_acl i m n x)"
  "only_values i (delete_realms i)" "only_values i (delete_owner i)" "only_values i (delete_acl i)"
  "only_values j (insert_or_ignore_method meth)" "only_values j (insert_or_ignore_mechanism mech)"
  "only_values j (insert_or_ignore_secctx ctx)"
  by (rule only_valuesI, rule keeps,
      (auto simp: update_identity_row_def insert_realm_def insert_owner_def insert_acl_def
        insert_child_def delete_realms_def delete_owner_def delete_acl_def checked_def on_tables_def
        insert_or_ignore_method_def insert_or_ignore_mechanism_def insert_or_ignore_secctx_def
        remove_missing no_rows_of_missing(6) values_added_def Let_def split: if_splits) [1])+

lemmas adrift_statements = only_values_statements [THEN adrift_ignored]

lemma adrift_exec':
  "only_values i s \<Longrightarrow> adrift i c d \<Longrightarrow> adrift i c (snd (gsignond_db_metadata_database_exec s d))"
  using adrift_ignored [of i s c d] by (simp add: exec_ignored_def)

lemma adrift_realms: "adrift i c d \<Longrightarrow> adrift i c (snd (insert_realms i seq d))"
proof (induction seq arbitrary: d)
  case (Cons r seq)
  then show ?case
    using adrift_exec' [OF only_values_statements(2) Cons.prems, of r]
    by (auto split: prod.split bool.split)
qed simp

lemma adrift_mechanisms: "adrift i c d \<Longrightarrow> adrift i c (snd (insert_mechanism_rows ms d))"
proof (induction ms arbitrary: d)
  case (Cons m ms)
  then show ?case
    using adrift_exec' [OF only_values_statements(9) Cons.prems, of m]
    by (auto split: prod.split bool.split)
qed simp

lemma adrift_methods: "adrift i c d \<Longrightarrow> adrift i c (snd (insert_method_rows ms d))"
proof (induction ms arbitrary: d)
  case (Cons mm ms)
  obtain m mechs where mm: "mm = (m, mechs)" by force
  obtain ok d1 where e: "gsignond_db_metadata_database_exec (insert_or_ignore_method m) d = (ok, d1)" by force
  obtain ok2 d2 where e2: "insert_mechanism_rows mechs d1 = (ok2, d2)" by force
  have "adrift i c d1" using adrift_exec' [OF only_values_statements(8) Cons.prems, of m] e by simp
  then have "adrift i c d2" using adrift_mechanisms [of i c d1 mechs] e2 by simp
  with \<open>adrift i c d1\<close> Cons.IH [of d2] mm e e2 show ?case by (cases ok; cases ok2) simp_all
qed simp

lemma adrift_acl_rows: "adrift i c d \<Longrightarrow> adrift i c (insert_identity_acl i ms acl d)"
proof -
  have rows: "adrift i c d' \<Longrightarrow> adrift i c (insert_acl_rows i m mechs x d')" for m mechs x d'
    by (auto simp: insert_acl_rows_def Let_def intro!: adrift_fold adrift_statements)
  show "adrift i c d \<Longrightarrow> adrift i c (insert_identity_acl i ms acl d)"
    by (auto simp: insert_identity_acl_def Let_def split: prod.split
        intro!: adrift_fold adrift_statements rows)
qed

lemma adrift_parts:
  "adrift (uint i) c d \<Longrightarrow> adrift (uint i) c (snd (store_realms info i d))"
  "adrift (uint i) c d \<Longrightarrow> adrift (uint i) c (store_owner info i ow d)"
  "adrift (uint i) c d \<Longrightarrow> adrift (uint i) c (store_acl_contexts info i acl d)"
  "adrift (uint i) c d \<Longrightarrow> adrift (uint i) c (update_methods_and_acl info i acl d)"
  by (auto simp: store_realms_def gsignond_db_metadata_database_update_realms_def Let_def store_owner_def
      gsignond_db_metadata_database_update_owner_def store_acl_contexts_def
      gsignond_db_metadata_database_update_acl_def update_methods_and_acl_def
      gsignond_db_metadata_database_insert_methods_def split: option.split
      intro!: adrift_fold adrift_statements adrift_realms adrift_methods adrift_acl_rows)

lemma adrift_ends:
  "adrift i c d \<Longrightarrow> gsignond_db_sql_database_commit_transaction d = (ok, d') \<Longrightarrow> adrift i c d'"
  "adrift i c d \<Longrightarrow> roll_back d = (ident, d') \<Longrightarrow> ident = 0 \<and> values_added c (durable d')"
proof -
  show "adrift i c d'" if "adrift i c d" "gsignond_db_sql_database_commit_transaction d = (ok, d')"
    using commit_result [OF that(2)] that(1) by (cases ok) (auto simp: adrift_def)
  assume a: "adrift i c d" and r: "roll_back d = (ident, d')"
  obtain ok d1 where b: "gsignond_db_sql_database_rollback_transaction d = (ok, d1)" by force
  from rollback_result [OF b] r b a show "ident = 0 \<and> values_added c (durable d')"
    by (auto simp: roll_back_def adrift_def durable_def)
qed

lemma adrift_durable: "adrift i c d \<Longrightarrow> values_added c (durable d)"
  by (auto simp: adrift_def durable_def)

lemma missing_identity_outcome:
  assumes "meta_ok (content d)" "\<not> gsignond_identity_info_get_is_identity_new info"
    and "uint (gsignond_identity_info_get_id info) \<notin> identity_ids (content d)"
    and r: "gsignond_db_metadata_database_update_identity info d = (ident, d')"
  shows "(ident = 0 \<or> ident = gsignond_identity_info_get_id info) \<and> values_added (durable d) (durable d')"
proof (cases "opened d \<and> gsignond_identity_info_get_edit_flags info \<noteq> IDENTITY_INFO_PROP_NONE")
  case False
  with r show ?thesis
    by (cases "opened d"; cases "snapshot d")
       (auto simp: gsignond_db_metadata_database_update_identity_def IDENTITY_INFO_PROP_NONE_def durable_def)
next
  case True
  let ?i = "gsignond_identity_info_get_id info"
  obtain b d1 where b: "gsignond_db_sql_database_start_transaction d = (b, d1)" by force
  obtain i d2 where c: "gsignond_db_metadata_database_update_credentials info d1 = (i, d2)" by force
  obtain ok d3 where re: "store_realms info i d2 = (ok, d3)" by force
  note B = start_result [OF b]
  show ?thesis
  proof (cases b)
    case False
    with True b r B show ?thesis
      by (cases "snapshot d") (auto simp: gsignond_db_metadata_database_update_identity_def durable_def)
  next
    case started: True
    with B True assms(1,3) have d1: "adrift (uint ?i) (content d) d1" "durable d = content d"
      by (auto simp: adrift_def durable_def)
    have d2: "(i = 0 \<or> i = ?i) \<and> adrift (uint ?i) (content d) d2"
      using c assms(2) adrift_exec [OF only_values_statements(1) d1(1)]
      by (auto simp: gsignond_db_metadata_database_update_credentials_def Let_def split: prod.splits bool.splits)
    have b': "gsignond_db_sql_database_start_transaction d = (True, d1)" using b started by simp
    note cases = update_identity_cases [OF conjunct1 [OF True] conjunct2 [OF True] b' c re, unfolded Let_def r]
    show ?thesis
    proof (cases "i = 0")
      case True
      with cases adrift_ends(2) [of "uint ?i" "content d" d2 ident d'] d2 d1(2) show ?thesis by simp
    next
      case False
      with d2 have i: "i = ?i" by simp
      let ?d4 = "store_owner info i (the (gsignond_identity_info_get_owner info)) d3"
      let ?d5 = "update_methods_and_acl info i (acl_of info) (store_acl_contexts info i (acl_of info) ?d4)"
      have d3: "adrift (uint ?i) (content d) d3" using adrift_parts(1) [of ?i _ d2 info] d2 re i by simp
      then have d4: "adrift (uint ?i) (content d) ?d4" using adrift_parts(2) i by simp
      then have d5: "adrift (uint ?i) (content d) ?d5" using adrift_parts(3,4) i by simp
      obtain k d6 where k: "gsignond_db_sql_database_commit_transaction ?d5 = (k, d6)" by force
      have "roll_back d3 = (ident, d') \<or> roll_back ?d4 = (ident, d') \<or> (ident, d') = (if k then i else 0, d6)"
        using cases False k by (cases k) (auto split: if_splits)
      then show ?thesis
        using adrift_ends(2) [OF d3, of ident d'] adrift_ends(2) [OF d4, of ident d']
          adrift_durable [OF adrift_ends(1) [OF d5 k]] d1(2) i by (auto split: if_splits)
    qed
  qed
qed


lemma sequence_ready:
  "ready d \<Longrightarrow> yields (gsignond_db_metadata_database_get_sequence q d) d
     (gsignond_db_metadata_database_list_to_sequence (q (content d)))"
  using string_list_ready [of d "map Some \<circ> q"]
  by (auto simp: gsignond_db_metadata_database_get_sequence_def or_empty_def comp_def yields_def
      split: prod.split)


text \<open>A new identity of one application, and a database with empty tables.\<close>

definition example_owner :: security_context where
  "example_owner = \<lparr>sys_ctx = ''browser'', app_ctx = ''tab''\<rparr>"

definition example_identity :: identity_info where
  "example_identity =
     (let a = snd (gsignond_identity_info_set_caption gsignond_identity_info_new (Some ''work''));
          a = snd (gsignond_identity_info_set_owner a (Some example_owner));
          a = snd (gsignond_identity_info_set_access_control_list a [example_owner])
      in snd (gsignond_identity_info_set_methods a (Some [(''password'', [''password''])])))"

definition example_database :: meta_db where
  "example_database =
     (gsignond_db_sql_database_init (new_metadata_file\<lparr>has_tables := True\<rparr>) [])\<lparr>opened := True\<rparr>"

lemma example_database_ok: "healthy example_database" "meta_ok (content example_database)"
  "identity_seq (content example_database) = 0" "methods_seq (content example_database) = 0"
  by (simp_all add: example_database_def gsignond_db_sql_database_init_def healthy_def meta_ok_def
      new_metadata_file_def foreign_keys_ok_def table_ok_def unique_values_def)

lemma example_identity_fields:
  "gsignond_identity_info_get_id example_identity = 0"
  "gsignond_identity_info_get_caption example_identity = Some ''work''"
  "gsignond_identity_info_get_is_username_secret example_identity = False"
  "gsignond_identity_info_get_owner example_identity = Some example_owner"
  "gsignond_identity_info_get_access_control_list example_identity = [Some example_owner]"
  "gsignond_identity_info_get_methods example_identity = Some [(''password'', [''password''])]"
  "edit_flags example_identity =
     IDENTITY_INFO_PROP_CAPTION OR IDENTITY_INFO_PROP_OWNER OR IDENTITY_INFO_PROP_ACL OR IDENTITY_INFO_PROP_METHODS"
  by code_simp+

lemma example_identity_storable:
  "gsignond_identity_info_get_is_identity_new example_identity"
  "storable example_identity" "known example_identity (content example_database)"
  "gsignond_identity_info_get_edit_flags example_identity \<noteq> 0"
proof -
  show new: "gsignond_identity_info_get_is_identity_new example_identity"
    by (simp add: gsignond_identity_info_get_is_identity_new_def example_identity_fields
        GSIGNOND_IDENTITY_INFO_NEW_IDENTITY_def)
  then show "known example_identity (content example_database)"
    by (simp add: known_def example_database_ok)
  show storable: "storable example_identity"
    by (simp add: storable_def example_identity_fields)
  show "gsignond_identity_info_get_edit_flags example_identity \<noteq> 0"
    by (simp add: gsignond_identity_info_get_edit_flags_def example_identity_fields prop_defs)
qed


text \<open>The same identity under an id that the file does not have.\<close>

definition stale_identity :: identity_info where
  "stale_identity = snd (gsignond_identity_info_set_id example_identity 7)"

lemma stale_identity_adds_context:
  "fst (gsignond_db_metadata_database_update_identity stale_identity example_database) = 0"
  "identity_tbl (durable (snd (gsignond_db_metadata_database_update_identity stale_identity example_database))) = []"
  "secctx_tbl (durable (snd (gsignond_db_metadata_database_update_identity stale_identity example_database))) =
     [(1, ''browser'', ''tab'')]"
  by code_simp+

end
