(* ===== verification/Gsso_Metadata_Roundtrip.thy ===== *)
theory Gsso_Metadata_Roundtrip
  imports Gsso_Metadata_Database
begin

text \<open>
  What \<^verbatim>\<open>gsignond_db_metadata_database_get_identity\<close> reads from the tables
  (\<open>get_identity_yields\<close>), what the tables hold after a new identity was stored
  (\<open>new_identity_stored\<close>), and the round trip of the two.
\<close>

subsection \<open>Reading as a function of the tables\<close>

definition assemble_identity ::
  "u32 \<Rightarrow> identity_row \<Rightarrow> gsequence \<Rightarrow> security_context list \<Rightarrow> security_context option \<Rightarrow> methods option \<Rightarrow>
   identity_info" where
  "assemble_identity ident row realms acl owner methods =
     (let a = snd (gsignond_db_metadata_database_read_identity row gsignond_identity_info_new);
          a = snd (gsignond_identity_info_set_realms (snd (gsignond_identity_info_set_id a ident)) (Some realms));
          a = (if acl \<noteq> [] then snd (gsignond_identity_info_set_access_control_list a acl) else a);
          a = (if owner \<noteq> None then snd (gsignond_identity_info_set_owner a owner) else a)
      in case methods of None \<Rightarrow> a | Some ms \<Rightarrow> snd (gsignond_identity_info_set_methods a (Some ms)))"

definition loaded_realms :: "u32 \<Rightarrow> meta_content \<Rightarrow> gsequence" where
  "loaded_realms ident c = gsignond_db_metadata_database_list_to_sequence
     (map snd (filter (\<lambda>r. fst r = uint ident) (realms_tbl c)))"

definition acl_pairs :: "u32 \<Rightarrow> meta_content \<Rightarrow> (string \<times> cstr) list" where
  "acl_pairs ident c = map (\<lambda>(i, s, a). (s, Some a)) (filter (\<lambda>(i, s, a).
     Some i \<in> acl_secctx ` {r \<in> set (acl_tbl c). acl_identity r = uint ident}) (secctx_tbl c))"

definition loaded_acl :: "u32 \<Rightarrow> meta_content \<Rightarrow> security_context list" where
  "loaded_acl ident c = map (\<lambda>(s, a). \<lparr>sys_ctx = s, app_ctx = or_empty a\<rparr>)
     (fold (\<lambda>(k, v). AList.update k v) (acl_pairs ident c) [])"

definition owner_pairs :: "u32 \<Rightarrow> meta_content \<Rightarrow> (string \<times> cstr) list" where
  "owner_pairs ident c = map (\<lambda>(i, s, a). (s, Some a)) (filter (\<lambda>(i, s, a).
     (uint ident, Some i) \<in> set (owner_tbl c)) (secctx_tbl c))"

definition loaded_owner :: "u32 \<Rightarrow> meta_content \<Rightarrow> security_context option" where
  "loaded_owner ident c = (case fold (\<lambda>(k, v). AList.update k v) (owner_pairs ident c) [] of
     [] \<Rightarrow> None | (s, a) # _ \<Rightarrow> gsignond_security_context_new_from_values (Some s) a)"

definition loaded_methods :: "u32 \<Rightarrow> meta_content \<Rightarrow> methods option" where
  "loaded_methods ident c =
     (if methods_query ident c = [] then None
      else Some (fold (\<lambda>(i, m). AList.update m (gsignond_db_metadata_database_list_to_sequence
             (mechanisms_query (word_of_int i) ident c))) (methods_query ident c) []))"

lemma yields_returnI: "ready d \<Longrightarrow> v = w \<Longrightarrow> yields (v, d) d w"
  by (simp add: yields_return)

lemma acl_yields:
  assumes "ready d"
  shows "yields (gsignond_db_metadata_database_get_accesscontrol_list ident d) d (loaded_acl ident (content d))"
  unfolding gsignond_db_metadata_database_get_accesscontrol_list_def
  using assms
  by (intro yields_if_open yields_bind [OF string_tuple_ready])
     (auto simp: ready_def [of d] loaded_acl_def acl_pairs_def yields_return)

lemma owner_yields:
  assumes "ready d"
  shows "yields (gsignond_db_metadata_database_get_owner ident d) d (loaded_owner ident (content d))"
  unfolding gsignond_db_metadata_database_get_owner_def
  using assms
  by (intro yields_if_open yields_bind [OF string_tuple_ready])
     (auto simp: ready_def [of d] loaded_owner_def owner_pairs_def yields_return)

lemma method_tuples_yields:
  "ready d \<Longrightarrow> yields (read_method_tuples ident (map (\<lambda>(i, m). (word_of_int i, Some m)) rows) acc d) d
     (fold (\<lambda>(i, m). AList.update m (gsignond_db_metadata_database_list_to_sequence
        (mechanisms_query (word_of_int i) ident (content d)))) rows acc)"
proof (induction rows arbitrary: acc d)
  case Nil
  then show ?case by (simp add: yields_return)
next
  case (Cons r rows)
  obtain i m where r: "r = (i, m)" by force
  have "yields (case gsignond_db_metadata_database_get_sequence (mechanisms_query (word_of_int i) ident) d of
      (mechanisms, d') \<Rightarrow> read_method_tuples ident (map (\<lambda>(i, m). (word_of_int i, Some m)) rows)
         (AList.update m mechanisms acc) d') d
     (fold (\<lambda>(i, m). AList.update m (gsignond_db_metadata_database_list_to_sequence
        (mechanisms_query (word_of_int i) ident (content d)))) rows
        (AList.update m (gsignond_db_metadata_database_list_to_sequence
          (mechanisms_query (word_of_int i) ident (content d))) acc))"
    by (rule yields_bind [OF sequence_ready [OF Cons.prems]]) (use Cons.IH in metis)
  then show ?case by (simp add: r or_empty_def)
qed

lemma methods_query_ids:
  assumes "meta_ok c"
  shows "distinct (map fst (methods_query ident c))" and "distinct (map snd (methods_query ident c))"
    and "(i, m) \<in> set (methods_query ident c) \<Longrightarrow> map_of (methods_tbl c) i = Some m \<and> 0 < i \<and> i \<le> methods_seq c"
proof -
  have mem: "(i, m) \<in> set (methods_query ident c) \<Longrightarrow> map_of (methods_tbl c) i = Some m" for i m
    by (auto simp: methods_query_def map_filter_def bind_eq_Some_conv split: if_splits)
  then show "(i, m) \<in> set (methods_query ident c) \<Longrightarrow> map_of (methods_tbl c) i = Some m \<and> 0 < i \<and> i \<le> methods_seq c"
    using assms by (force simp: meta_ok_def table_ok_def dest: map_of_SomeD)
  have dist: "distinct (methods_query ident c)" by (simp add: methods_query_def)
  have "inj_on fst (set (methods_query ident c))"
    by (rule inj_onI) (metis mem option.inject prod.collapse)
  then show "distinct (map fst (methods_query ident c))"
    using dist by (simp add: distinct_map)
  have "inj_on snd (set (methods_tbl c))"
    using assms by (simp add: meta_ok_def unique_values_def distinct_map)
  then have "inj_on snd (set (methods_query ident c))"
    by (rule inj_on_subset) (use mem in \<open>auto dest!: map_of_SomeD\<close>)
  then show "distinct (map snd (methods_query ident c))"
    using dist by (simp add: distinct_map)
qed

lemma single_row:
  "keys_distinct tbl \<Longrightarrow> map snd (filter (\<lambda>r. fst r = i) tbl) =
     (case map_of tbl i of None \<Rightarrow> [] | Some row \<Rightarrow> [row])"
proof (induction tbl)
  case (Cons r tbl)
  have "filter (\<lambda>r. fst r = i) tbl = []" if "i \<notin> fst ` set tbl"
    using that by (auto simp: filter_empty_conv)
  with Cons show ?case by (cases r) (auto split: option.splits simp: map_of_eq_None_iff)
qed simp

lemma load_methods_yields:
  assumes "ready d" "meta_ok (content d)" "methods_seq (content d) < 2 ^ 32"
  shows "yields (load_methods ident a d) d (case loaded_methods ident (content d) of
     None \<Rightarrow> a | Some ms \<Rightarrow> snd (gsignond_identity_info_set_methods a (Some ms)))"
proof -
  let ?rows = "methods_query ident (content d)"
  have inj: "inj_on (\<lambda>i. word_of_int i :: u32) (fst ` set ?rows)"
  proof (rule inj_onI)
    fix a b assume a: "a \<in> fst ` set ?rows" "b \<in> fst ` set ?rows" and eq: "(word_of_int a :: u32) = word_of_int b"
    then have "0 \<le> a" "a < 2 ^ 32" "0 \<le> b" "b < 2 ^ 32"
      using methods_query_ids(3) [OF assms(2)] assms(3) by fastforce+
    then have "uint (word_of_int a :: u32) = a" "uint (word_of_int b :: u32) = b"
      by (simp_all add: uint_word_of_int_eq take_bit_int_eq_self_iff)
    with eq show "a = b" by metis
  qed
  have tuples: "fold (\<lambda>(k, v). AList.update k v) (map (\<lambda>(i, m). (word_of_int i :: u32, m))
      (map (\<lambda>(i, m). (i, Some m)) ?rows)) [] = map (\<lambda>(i, m). (word_of_int i, Some m)) ?rows"
  proof -
    have "keys_distinct (map (\<lambda>(i, m). (word_of_int i :: u32, Some m)) ?rows)"
      using inj methods_query_ids(1) [OF assms(2)]
      by (simp add: comp_def split_beta distinct_map image_image inj_on_def)
    from fold_update_new [of "[]", simplified, OF this]
    have "fold (\<lambda>(k, v). AList.update k v) (map (\<lambda>(i, m). (word_of_int i :: u32, Some m)) ?rows) [] =
        map (\<lambda>(i, m). (word_of_int i, Some m)) ?rows" .
    moreover have "map (\<lambda>(i, m). (word_of_int i :: u32, m)) (map (\<lambda>(i, m). (i, Some m)) ?rows) =
        map (\<lambda>(i, m). (word_of_int i, Some m)) ?rows" by auto
    ultimately show ?thesis by (simp only:)
  qed
  show ?thesis
    unfolding load_methods_def
  proof (rule yields_bind [OF int_string_tuple_ready [OF assms(1)]], goal_cases)
    case (1 d')
    show ?case
    proof (cases "?rows = []")
      case True
      with 1 show ?thesis by (simp add: loaded_methods_def yields_return)
    next
      case False
      have "yields (case read_method_tuples ident (map (\<lambda>(i, m). (word_of_int i, Some m)) ?rows) [] d' of
          (methods, self) \<Rightarrow> (snd (gsignond_identity_info_set_methods a (Some methods)), self)) d'
         (case loaded_methods ident (content d) of
            None \<Rightarrow> a | Some ms \<Rightarrow> snd (gsignond_identity_info_set_methods a (Some ms)))"
        by (rule yields_bind [OF method_tuples_yields [OF 1(1)]])
           (use False 1 in \<open>simp add: loaded_methods_def yields_return\<close>)
      then show ?thesis using False tuples by (simp only: map_is_Nil_conv if_False option.case)
    qed
  qed
qed

lemma get_identity_yields:
  assumes "ready d" "meta_ok (content d)" "methods_seq (content d) < 2 ^ 32"
  shows "yields (gsignond_db_metadata_database_get_identity ident d) d
     (case map_of (identity_tbl (content d)) (uint ident) of None \<Rightarrow> None
      | Some row \<Rightarrow> Some (assemble_identity ident row (loaded_realms ident (content d))
          (loaded_acl ident (content d)) (loaded_owner ident (content d)) (loaded_methods ident (content d))))"
proof -
  let ?q = "\<lambda>c. map snd (filter (\<lambda>r. fst r = uint ident) (identity_tbl c))"
  have "gsignond_db_metadata_database_read_identity r u =
      (True, snd (gsignond_db_metadata_database_read_identity r u))" for r u
    by (simp add: gsignond_db_metadata_database_read_identity_def Let_def)
  note query = query_ready [where cb = gsignond_db_metadata_database_read_identity and q = ?q and
      u = gsignond_identity_info_new and g = "\<lambda>r u. snd (gsignond_db_metadata_database_read_identity r u)",
      OF assms(1) this]
  have q: "?q (content d) = (case map_of (identity_tbl (content d)) (uint ident) of None \<Rightarrow> [] | Some row \<Rightarrow> [row])"
    using assms(2) by (intro single_row) (simp add: meta_ok_def table_ok_def)
  show ?thesis
  proof (cases "map_of (identity_tbl (content d)) (uint ident)")
    case None
    then obtain d1 where 0: "gsignond_db_sql_database_query_exec ?q gsignond_db_metadata_database_read_identity
        gsignond_identity_info_new d = (0, gsignond_identity_info_new, d1)" "ready d1" "content d1 = content d"
        "snapshot d1 = snapshot d"
      using query q by (auto simp: yields_def split: prod.splits)
    with None assms(1) show ?thesis
      by (simp add: gsignond_db_metadata_database_get_identity_def yields_def ready_def [of d])
  next
    case (Some row)
    then obtain d1 where 1: "gsignond_db_sql_database_query_exec ?q gsignond_db_metadata_database_read_identity
        gsignond_identity_info_new d = (1, snd (gsignond_db_metadata_database_read_identity row
          gsignond_identity_info_new), d1)" "ready d1" "content d1 = content d" "snapshot d1 = snapshot d"
      using query q by (auto simp: yields_def split: prod.splits)
    have "yields (gsignond_db_metadata_database_get_identity ident d) d1
       (Some (assemble_identity ident row (loaded_realms ident (content d)) (loaded_acl ident (content d))
          (loaded_owner ident (content d)) (loaded_methods ident (content d))))"
    proof -
      have "opened d" using assms(1) by (simp add: ready_def)
      then show ?thesis
        unfolding gsignond_db_metadata_database_get_identity_def Let_def if_open_simps(1) [OF \<open>opened d\<close>] 1(1)
          prod.case
        by (simp only: one_neq_zero if_False)
           (intro yields_bind [OF sequence_ready] yields_bind [OF acl_yields] yields_bind [OF owner_yields]
              yields_bind [OF load_methods_yields] 1(2),
            use assms in \<open>auto simp: 1(3) assemble_identity_def Let_def loaded_realms_def
              split: option.splits intro: yields_returnI\<close>)
    qed
    with 1 Some show ?thesis by (simp add: yields_def)
  qed
qed

subsection \<open>The tables after a new identity\<close>

text \<open>Interning of values: the tables of values grow at their end, everything else stays.\<close>

definition interns :: "meta_content \<Rightarrow> meta_content \<Rightarrow> bool" where
  "interns c c' \<longleftrightarrow> has_tables c' = has_tables c \<and> identity_tbl c' = identity_tbl c \<and>
     identity_seq c' = identity_seq c \<and> realms_tbl c' = realms_tbl c \<and> acl_tbl c' = acl_tbl c \<and>
     owner_tbl c' = owner_tbl c \<and> refs_tbl c' = refs_tbl c \<and>
     (\<exists>ms. methods_tbl c' = methods_tbl c @ ms) \<and> (\<exists>ms. mechanisms_tbl c' = mechanisms_tbl c @ ms) \<and>
     (\<exists>xs. secctx_tbl c' = secctx_tbl c @ xs) \<and> (meta_ok c \<longrightarrow> meta_ok c')"

lemma interns_refl [simp]: "interns c c"
  by (simp add: interns_def)

lemma interns_trans: "interns a b \<Longrightarrow> interns b c \<Longrightarrow> interns a c"
  unfolding interns_def by (intro conjI) (elim conjE exE, simp)+

lemma interns_fold: "(\<And>x c. x \<in> set xs \<Longrightarrow> interns c (f x c)) \<Longrightarrow> interns c (fold f xs c)"
proof (induction xs arbitrary: c)
  case (Cons x xs)
  from Cons.prems [of x c] Cons.IH [of "f x c"] Cons.prems show ?case by (auto intro: interns_trans)
qed simp

lemma attempt_keeps: "keeps_meta s \<Longrightarrow> meta_ok c \<Longrightarrow> meta_ok (attempt s c)"
  by (auto simp: attempt_def keeps_meta_def split: stmt_result.split)

lemma interns_values [simp]:
  "interns c (attempt (insert_or_ignore_method m) c)"
  "interns c (attempt (insert_or_ignore_mechanism m) c)"
  "interns c (attempt (insert_or_ignore_secctx x) c)"
proof -
  have "meta_ok c \<longrightarrow> meta_ok (attempt s c)"
    if "s \<in> {insert_or_ignore_method m, insert_or_ignore_mechanism m, insert_or_ignore_secctx x}" for s
    using that by (auto intro: attempt_keeps keeps)
  note ok = this [of "insert_or_ignore_method m"] this [of "insert_or_ignore_mechanism m"]
    this [of "insert_or_ignore_secctx x"]
  show "interns c (attempt (insert_or_ignore_method m) c)"
    "interns c (attempt (insert_or_ignore_mechanism m) c)"
    "interns c (attempt (insert_or_ignore_secctx x) c)"
    unfolding interns_def using ok
    by (auto simp: attempt_def insert_or_ignore_method_def insert_or_ignore_mechanism_def
        insert_or_ignore_secctx_def on_tables_def Let_def)
qed

lemma id_of_append: "id_of tbl v \<noteq> None \<Longrightarrow> id_of (tbl @ rows) v = id_of tbl v"
  by (auto simp: id_of_def)

lemma interned_ids:
  "has_tables c \<Longrightarrow> id_of (methods_tbl (attempt (insert_or_ignore_method m) c)) m \<noteq> None"
  "has_tables c \<Longrightarrow> id_of (mechanisms_tbl (attempt (insert_or_ignore_mechanism m) c)) m \<noteq> None"
  "has_tables c \<Longrightarrow> secctx_id x (attempt (insert_or_ignore_secctx x) c) \<noteq> None"
  by (auto simp: attempt_def insert_or_ignore_method_def insert_or_ignore_mechanism_def secctx_id_def
      insert_or_ignore_secctx_def on_tables_def Let_def id_of_def map_add_def split: option.split)

lemma interns_ids:
  assumes "interns c c'"
  shows "id_of (methods_tbl c) m \<noteq> None \<Longrightarrow> id_of (methods_tbl c') m = id_of (methods_tbl c) m"
    and "id_of (mechanisms_tbl c) m \<noteq> None \<Longrightarrow> id_of (mechanisms_tbl c') m = id_of (mechanisms_tbl c) m"
    and "secctx_id x c \<noteq> None \<Longrightarrow> secctx_id x c' = secctx_id x c"
    and "has_tables c' = has_tables c"
  using assms id_of_append unfolding interns_def secctx_id_def by metis+

text \<open>Every value that a loop interns has an id at the end.\<close>

lemma fold_interned:
  assumes "\<And>x c. x \<in> set xs \<Longrightarrow> interns c (f x c)"
    and "\<And>x c. x \<in> set xs \<Longrightarrow> has_tables c \<Longrightarrow> P x (f x c)"
    and "\<And>x c c'. P x c \<Longrightarrow> interns c c' \<Longrightarrow> P x c'"
    and "has_tables c" "x \<in> set xs"
  shows "P x (fold f xs c)"
  using assms(1,2,4,5)
proof (induction xs arbitrary: c)
  case (Cons y xs)
  have t: "has_tables (f y c)" using Cons.prems(1) [of y c] Cons.prems(3) interns_ids(4) by simp
  show ?case
  proof (cases "x = y")
    case True
    have "interns (f y c) (fold f xs (f y c))" by (intro interns_fold) (simp add: Cons.prems)
    with Cons.prems(2) [of y c] Cons.prems(3) True assms(3) show ?thesis by simp
  next
    case False
    with Cons.IH [OF _ _ t] Cons.prems show ?thesis by simp
  qed
qed simp

definition intern_methods :: "methods \<Rightarrow> meta_content \<Rightarrow> meta_content" where
  "intern_methods ms = fold (\<lambda>(m, mechs) c. fold (\<lambda>x. attempt (insert_or_ignore_mechanism x)) mechs
     (attempt (insert_or_ignore_method m) c)) ms"

definition intern_contexts :: "security_context list \<Rightarrow> meta_content \<Rightarrow> meta_content" where
  "intern_contexts = fold (\<lambda>ctx. attempt (insert_or_ignore_secctx ctx))"

lemma interns_contexts: "interns c (intern_contexts acl c)"
  unfolding intern_contexts_def by (rule interns_fold) simp

lemma contexts_interned:
  assumes "has_tables c" "x \<in> set acl" shows "secctx_id x (intern_contexts acl c) \<noteq> None"
  unfolding intern_contexts_def
  by (rule fold_interned [where P = "\<lambda>x c. secctx_id x c \<noteq> None"])
     (use assms interned_ids interns_ids in auto)

lemma interns_method_row:
  "interns c (fold (\<lambda>x. attempt (insert_or_ignore_mechanism x)) mechs (attempt (insert_or_ignore_method m) c))"
  by (rule interns_trans [OF _ interns_fold]) simp_all

lemma interns_methods: "interns c (intern_methods ms c)"
  unfolding intern_methods_def by (rule interns_fold) (auto intro: interns_method_row)

lemma methods_interned:
  assumes "has_tables c" "(m, mechs) \<in> set ms"
  shows "id_of (methods_tbl (intern_methods ms c)) m \<noteq> None"
    and "x \<in> set mechs \<Longrightarrow> id_of (mechanisms_tbl (intern_methods ms c)) x \<noteq> None"
proof -
  have row: "id_of (methods_tbl (fold (\<lambda>x. attempt (insert_or_ignore_mechanism x)) mechs
        (attempt (insert_or_ignore_method m) c))) m \<noteq> None \<and>
     (\<forall>x \<in> set mechs. id_of (mechanisms_tbl (fold (\<lambda>x. attempt (insert_or_ignore_mechanism x)) mechs
        (attempt (insert_or_ignore_method m) c))) x \<noteq> None)" if t: "has_tables c" for m mechs c
  proof (intro conjI ballI)
    let ?c = "attempt (insert_or_ignore_method m) c"
    have t': "has_tables ?c" using t interns_values(1) [of c m] by (simp add: interns_def)
    have "interns ?c (fold (\<lambda>x. attempt (insert_or_ignore_mechanism x)) mechs ?c)"
      by (rule interns_fold) simp
    then show "id_of (methods_tbl (fold (\<lambda>x. attempt (insert_or_ignore_mechanism x)) mechs ?c)) m \<noteq> None"
      using interned_ids(1) [OF t, of m] interns_ids(1) by metis
    show "id_of (mechanisms_tbl (fold (\<lambda>x. attempt (insert_or_ignore_mechanism x)) mechs ?c)) x \<noteq> None"
      if "x \<in> set mechs" for x
      by (rule fold_interned [where P = "\<lambda>x c. id_of (mechanisms_tbl c) x \<noteq> None"])
         (use t' that interned_ids interns_ids in auto)
  qed
  have "id_of (methods_tbl (intern_methods ms c)) (fst (m, mechs)) \<noteq> None \<and>
     (\<forall>x \<in> set (snd (m, mechs)). id_of (mechanisms_tbl (intern_methods ms c)) x \<noteq> None)"
    unfolding intern_methods_def
    by (rule fold_interned [where P = "\<lambda>e c. id_of (methods_tbl c) (fst e) \<noteq> None \<and>
          (\<forall>x \<in> set (snd e). id_of (mechanisms_tbl c) x \<noteq> None)"])
       (use assms row interns_method_row interns_ids in \<open>auto split: prod.split\<close>)
  then show "id_of (methods_tbl (intern_methods ms c)) m \<noteq> None"
    and "x \<in> set mechs \<Longrightarrow> id_of (mechanisms_tbl (intern_methods ms c)) x \<noteq> None" by auto
qed

lemma methods_seq_intern: "methods_seq (intern_methods ms c) \<le> methods_seq c + int (length ms)"
proof (induction ms arbitrary: c)
  case (Cons e ms)
  obtain m mechs where e: "e = (m, mechs)" by force
  have mech: "methods_seq (fold (\<lambda>x. attempt (insert_or_ignore_mechanism x)) mechs c) = methods_seq c" for c
    by (induction mechs arbitrary: c)
       (auto simp: attempt_def insert_or_ignore_mechanism_def on_tables_def Let_def)
  have "methods_seq (attempt (insert_or_ignore_method m) c) \<le> methods_seq c + 1"
    by (auto simp: attempt_def insert_or_ignore_method_def on_tables_def Let_def)
  with Cons.IH [of "fold (\<lambda>x. attempt (insert_or_ignore_mechanism x)) mechs
      (attempt (insert_or_ignore_method m) c)"] mech show ?case
    by (simp add: intern_methods_def e)
qed (simp add: intern_methods_def)

text \<open>Steps that only append rows to the access control table.\<close>

definition appends :: "int \<Rightarrow> (meta_content \<Rightarrow> meta_content) \<Rightarrow> (meta_content \<Rightarrow> acl_row list) \<Rightarrow> bool" where
  "appends i f g \<longleftrightarrow> (\<forall>c t. g (c\<lparr>acl_tbl := t\<rparr>) = g c) \<and>
     (\<forall>c. meta_ok c \<and> i \<in> identity_ids c \<longrightarrow>
        f c = c\<lparr>acl_tbl := acl_tbl c @ g c\<rparr> \<and> meta_ok (f c))"

lemma appends_fold:
  assumes "\<And>x. x \<in> set xs \<Longrightarrow> appends i (f x) (g x)"
  shows "appends i (fold f xs) (\<lambda>c. concat (map (\<lambda>x. g x c) xs))"
proof -
  have g: "map (\<lambda>x. g x (c\<lparr>acl_tbl := t\<rparr>)) xs = map (\<lambda>x. g x c) xs" for c t
    using assms by (auto simp: appends_def)
  have "fold f xs c = c\<lparr>acl_tbl := acl_tbl c @ concat (map (\<lambda>x. g x c) xs)\<rparr> \<and> meta_ok (fold f xs c)"
    if "meta_ok c" "i \<in> identity_ids c" for c
    using assms that
  proof (induction xs arbitrary: c)
    case (Cons x xs)
    have "appends i (f x) (g x)" by (simp add: Cons.prems(1))
    then have x: "f x c = c\<lparr>acl_tbl := acl_tbl c @ g x c\<rparr>" "meta_ok (f x c)"
      using Cons.prems(2,3) unfolding appends_def by blast+
    then have mem: "i \<in> identity_ids (f x c)" using Cons.prems(3) by simp
    have fold: "fold f xs (f x c) = (f x c)\<lparr>acl_tbl := acl_tbl (f x c) @ concat (map (\<lambda>y. g y (f x c)) xs)\<rparr> \<and>
        meta_ok (fold f xs (f x c))"
      by (rule Cons.IH [OF _ x(2) mem]) (simp add: Cons.prems(1))
    have "map (\<lambda>y. g y (f x c)) xs = map (\<lambda>y. g y c) xs"
      using Cons.prems(1) by (auto simp: x(1) appends_def)
    then have "(f x c)\<lparr>acl_tbl := acl_tbl (f x c) @ concat (map (\<lambda>y. g y (f x c)) xs)\<rparr> =
        c\<lparr>acl_tbl := acl_tbl c @ concat (map (\<lambda>y. g y c) (x # xs))\<rparr>"
      by (simp only: x(1)) simp
    with fold show ?case unfolding fold_simps by (metis (no_types, lifting))
  qed simp
  then show ?thesis unfolding appends_def g by blast
qed

definition acl_row_of ::
  "int \<Rightarrow> cstr \<Rightarrow> cstr \<Rightarrow> security_context option \<Rightarrow> meta_content \<Rightarrow> acl_row" where
  "acl_row_of i meth mech ctx c =
     \<lparr>acl_identity = i, acl_method = Option.bind meth (id_of (methods_tbl c)),
      acl_mechanism = Option.bind mech (id_of (mechanisms_tbl c)),
      acl_secctx = Option.bind ctx (\<lambda>x. secctx_id x c)\<rparr>"

lemma secctx_id_fields [simp]: "secctx_id x (c\<lparr>acl_tbl := t\<rparr>) = secctx_id x c"
  by (simp add: secctx_id_def)

lemma refers_bind [simp]: "refers (Option.bind x (id_of tbl)) tbl"
  by (cases x) (simp_all add: refers_def [of None])

lemma acl_done:
  assumes "meta_ok c" "i \<in> identity_ids c"
  shows "insert_acl i meth mech ctx c = Done (c\<lparr>acl_tbl := acl_tbl c @ [acl_row_of i meth mech ctx c]\<rparr>)"
proof -
  have "refers (Option.bind ctx (\<lambda>x. secctx_id x c)) (secctx_tbl c)"
    by (cases ctx) (simp_all add: secctx_id_def refers_def [of None])
  then show ?thesis
    using assms by (simp add: insert_acl_def insert_child_def on_tables_def checked_def meta_ok_def
        foreign_keys_ok_def acl_row_of_def)
qed

lemma appends_acl: "appends i (attempt (insert_acl i meth mech ctx)) (\<lambda>c. [acl_row_of i meth mech ctx c])"
  using keeps_children(3) [of i meth mech ctx]
  by (auto simp: appends_def acl_done attempt_def keeps_meta_def acl_row_of_def split: stmt_result.split)

definition method_rows :: "int \<Rightarrow> string \<times> gsequence \<Rightarrow> security_context option \<Rightarrow> meta_content \<Rightarrow> acl_row list" where
  "method_rows i e ctx c = (if snd e = [] then [acl_row_of i (Some (fst e)) None ctx c]
     else map (\<lambda>x. acl_row_of i (Some (fst e)) (Some x) ctx c) (snd e))"

definition acl_rows :: "int \<Rightarrow> methods \<Rightarrow> security_context list \<Rightarrow> meta_content \<Rightarrow> acl_row list" where
  "acl_rows i ms acl c =
     (if ms = [] then map (\<lambda>ctx. acl_row_of i None None (Some ctx) c) acl
      else if acl = [] then concat (map (\<lambda>e. method_rows i e None c) ms)
      else concat (map (\<lambda>e. concat (map (\<lambda>ctx. method_rows i e (Some ctx) c) acl)) ms))"

lemma appends_method: "appends i (rows_effect i (fst e) (snd e) ctx) (method_rows i e ctx)"
proof (cases "snd e = []")
  case True
  with appends_acl [of i "Some (fst e)" None ctx] show ?thesis
    by (simp add: rows_effect_def [abs_def] method_rows_def [abs_def])
next
  case False
  with appends_fold [of "snd e" i "\<lambda>x. attempt (insert_acl i (Some (fst e)) (Some x) ctx)", OF appends_acl]
  show ?thesis by (simp add: rows_effect_def [abs_def] method_rows_def [abs_def])
qed

lemma appends_rows:
  "appends i (\<lambda>c. if ms = [] then fold (\<lambda>ctx. attempt (insert_acl i None None (Some ctx))) acl c
      else if acl = [] then fold (\<lambda>(m, mechs). rows_effect i m mechs None) ms c
      else fold (\<lambda>(m, mechs). fold (\<lambda>ctx. rows_effect i m mechs (Some ctx)) acl) ms c)
    (acl_rows i ms acl)"
proof -
  have a: "appends i (fold (\<lambda>ctx. attempt (insert_acl i None None (Some ctx))) acl)
      (\<lambda>c. concat (map (\<lambda>ctx. [acl_row_of i None None (Some ctx) c]) acl))"
    by (intro appends_fold appends_acl)
  have b: "appends i (fold (\<lambda>e. rows_effect i (fst e) (snd e) None) ms)
      (\<lambda>c. concat (map (\<lambda>e. method_rows i e None c) ms))"
    by (intro appends_fold appends_method)
  have c: "appends i (fold (\<lambda>e. fold (\<lambda>ctx. rows_effect i (fst e) (snd e) (Some ctx)) acl) ms)
      (\<lambda>c. concat (map (\<lambda>e. concat (map (\<lambda>ctx. method_rows i e (Some ctx) c) acl)) ms))"
    by (intro appends_fold appends_method)
  from a b c show ?thesis
    by (cases "ms = []"; cases "acl = []") (simp_all add: acl_rows_def [abs_def] case_prod_unfold id_def)
qed

definition stored_realms :: "identity_info \<Rightarrow> gsequence" where
  "stored_realms info =
     (if gsignond_identity_info_get_edit_flags info AND IDENTITY_INFO_PROP_REALMS \<noteq> 0
      then (case gsignond_identity_info_get_realms info of Some s \<Rightarrow> s | None \<Rightarrow> []) else [])"

text \<open>The edit flags and the place of the identity that the theorem on the round trip needs.\<close>

definition complete :: "identity_info \<Rightarrow> bool" where
  "complete info \<longleftrightarrow> gsignond_identity_info_get_is_identity_new info \<and> storable info \<and>
     (\<forall>f \<in> {IDENTITY_INFO_PROP_OWNER, IDENTITY_INFO_PROP_ACL, IDENTITY_INFO_PROP_METHODS}.
        gsignond_identity_info_get_edit_flags info AND f \<noteq> 0) \<and>
     sys_ctx (the (gsignond_identity_info_get_owner info)) \<noteq> '''' \<and>
     gsignond_identity_info_get_methods info \<noteq> None"

lemma fresh_id:
  assumes "meta_ok c" "i = identity_seq c + 1"
  shows "i \<notin> identity_ids c" and "map_of (identity_tbl c) i = None"
    and "filter (\<lambda>r. fst r = i) (realms_tbl c) = []" and "filter (\<lambda>r. fst r = i) (owner_tbl c) = []"
    and "filter (\<lambda>r. acl_identity r = i) (acl_tbl c) = []"
proof -
  have "\<forall>j \<in> identity_ids c. j \<le> identity_seq c"
    using assms(1) by (auto simp: meta_ok_def table_ok_def identity_ids_def)
  then show i: "i \<notin> identity_ids c" using assms(2) by auto
  then show "map_of (identity_tbl c) i = None" unfolding identity_ids_def map_of_eq_None_iff .
  have "foreign_keys_ok c" using assms(1) by (simp add: meta_ok_def)
  then show "filter (\<lambda>r. fst r = i) (realms_tbl c) = []" "filter (\<lambda>r. fst r = i) (owner_tbl c) = []"
    "filter (\<lambda>r. acl_identity r = i) (acl_tbl c) = []"
    using i unfolding foreign_keys_ok_def filter_empty_conv by blast+
qed

lemma owner_done:
  "meta_ok c \<Longrightarrow> i \<in> identity_ids c \<Longrightarrow>
     insert_owner i ow c = Done (c\<lparr>owner_tbl := owner_tbl c @ [(i, secctx_id ow c)]\<rparr>)"
  by (simp add: insert_owner_def insert_child_def on_tables_def checked_def meta_ok_def foreign_keys_ok_def
      secctx_id_def)

lemma appendsD: "appends i f g \<Longrightarrow> meta_ok c \<Longrightarrow> i \<in> identity_ids c \<Longrightarrow>
    f c = c\<lparr>acl_tbl := acl_tbl c @ g c\<rparr> \<and> meta_ok (f c)"
  unfolding appends_def by blast

lemma methods_of_effect:
  assumes "complete info" "gsignond_identity_info_get_methods info = Some ms"
    and "meta_ok c" "i \<in> identity_ids c"
  shows "let c' = intern_methods ms c in
     methods_effect info i acl c = c'\<lparr>acl_tbl := acl_tbl c @ acl_rows i ms acl c'\<rparr> \<and>
     meta_ok (methods_effect info i acl c)"
proof -
  let ?c = "intern_methods ms c"
  have c': "meta_ok ?c" "acl_tbl ?c = acl_tbl c" "i \<in> identity_ids ?c"
    using interns_methods [of c ms] assms(3,4) by (auto simp: interns_def identity_ids_def)
  have flags: "gsignond_identity_info_get_edit_flags info AND IDENTITY_INFO_PROP_METHODS \<noteq> 0"
    using assms(1) by (simp add: complete_def)
  have eq: "methods_effect info i acl c = (\<lambda>c. if ms = [] then fold (\<lambda>ctx. attempt (insert_acl i None None (Some ctx))) acl c
      else if acl = [] then fold (\<lambda>(m, mechs). rows_effect i m mechs None) ms c
      else fold (\<lambda>(m, mechs). fold (\<lambda>ctx. rows_effect i m mechs (Some ctx)) acl) ms c) ?c"
    using flags assms(2) by (simp add: methods_effect_def intern_methods_def)
  show ?thesis
    using appendsD [OF appends_rows c'(1,3), of ms acl] unfolding Let_def eq c'(2) .
qed

definition new_identity_rows :: "identity_info \<Rightarrow> methods \<Rightarrow> meta_content \<Rightarrow> bool" where
  "new_identity_rows info ms c \<longleftrightarrow>
     (let i = identity_seq c; ow = the (gsignond_identity_info_get_owner info) in
      meta_ok c \<and> map_of (identity_tbl c) i = Some (identity_row_of info) \<and>
      filter (\<lambda>r. fst r = i) (realms_tbl c) = map (Pair i) (stored_realms info) \<and>
      filter (\<lambda>r. fst r = i) (owner_tbl c) = [(i, secctx_id ow c)] \<and> secctx_id ow c \<noteq> None \<and>
      filter (\<lambda>r. acl_identity r = i) (acl_tbl c) = acl_rows i ms (acl_of info) c \<and>
      (\<forall>x \<in> set (acl_of info). secctx_id x c \<noteq> None) \<and>
      (\<forall>(m, mechs) \<in> set ms. id_of (methods_tbl c) m \<noteq> None \<and>
         (\<forall>x \<in> set mechs. id_of (mechanisms_tbl c) x \<noteq> None)))"

lemma new_identity_stored:
  assumes "complete info" "meta_ok c" "known info c"
    and ms: "gsignond_identity_info_get_methods info = Some ms"
  shows "new_identity_rows info ms (identity_effect info c) \<and>
     identity_seq (identity_effect info c) = identity_seq c + 1 \<and>
     methods_seq (identity_effect info c) \<le> methods_seq c + int (length ms)"
proof -
  define i where "i = identity_seq c + 1"
  let ?ow = "the (gsignond_identity_info_get_owner info)" and ?acl = "acl_of info"
  have new: "gsignond_identity_info_get_is_identity_new info"
    and owner: "gsignond_identity_info_get_edit_flags info AND IDENTITY_INFO_PROP_OWNER \<noteq> 0" "sys_ctx ?ow \<noteq> ''''"
    and acl: "gsignond_identity_info_get_edit_flags info AND IDENTITY_INFO_PROP_ACL \<noteq> 0"
    using assms(1) by (auto simp: complete_def)
  have "0 \<le> identity_seq c" using assms(2) by (simp add: meta_ok_def table_ok_def)
  then have i: "uint (stored_id info c) = i"
    using new assms(3) by (simp add: stored_id_def known_def i_def uint_word_of_int_eq take_bit_int_eq_self_iff
        del: of_int_add)
  note fresh = fresh_id [OF assms(2) i_def]
  define c1 where "c1 = row_effect info c"
  have c1: "c1 = c\<lparr>identity_tbl := identity_tbl c @ [(i, identity_row_of info)], identity_seq := i, identity_rowid := i\<rparr>"
    using new by (simp add: c1_def row_effect_def i_def)
  have "meta_ok c1"
    using keeps_insert_identity [of "identity_row_of info"] assms(2)
    by (auto simp: keeps_meta_def insert_identity_row_def on_tables_def meta_ok_def c1 i_def Let_def)
  define c2 where "c2 = realms_effect info i c1"
  have c2: "c2 = c1\<lparr>realms_tbl := realms_tbl c1 @ map (Pair i) (stored_realms info)\<rparr>"
    using new by (auto simp: c2_def realms_effect_def stored_realms_def Let_def)
  have "meta_ok c2" and ids2: "i \<in> identity_ids c2"
    using \<open>meta_ok c1\<close> by (auto simp: c2 c1 meta_ok_def foreign_keys_ok_def identity_ids_def)
  define x where "x = attempt (insert_or_ignore_secctx ?ow) c2"
  have x: "interns c2 x" "secctx_id ?ow x \<noteq> None"
    using \<open>meta_ok c2\<close> interned_ids(3) [of c2 ?ow] by (auto simp: x_def meta_ok_def)
  then have "meta_ok x" "i \<in> identity_ids x"
    using \<open>meta_ok c2\<close> ids2 by (auto simp: interns_def identity_ids_def)
  define c3 where "c3 = owner_effect info i ?ow c2"
  have c3: "c3 = x\<lparr>owner_tbl := owner_tbl x @ [(i, secctx_id ?ow x)]\<rparr>"
    using owner new owner_done [OF \<open>meta_ok x\<close> \<open>i \<in> identity_ids x\<close>]
    by (simp add: c3_def owner_effect_def x_def [symmetric] attempt_def [of "insert_owner i ?ow"])
  have "meta_ok c3"
    using keeps_children(2) [of i ?ow] \<open>meta_ok x\<close> owner_done [OF \<open>meta_ok x\<close> \<open>i \<in> identity_ids x\<close>]
    by (auto simp: keeps_meta_def c3)
  define c4 where "c4 = acl_effect info i ?acl c3"
  have c4: "c4 = intern_contexts ?acl c3"
    using acl new by (simp add: c4_def acl_effect_def intern_contexts_def)
  have I4: "interns c3 c4" by (simp add: c4 interns_contexts)
  then have "meta_ok c4" "i \<in> identity_ids c4"
    using \<open>meta_ok c3\<close> \<open>i \<in> identity_ids x\<close> by (auto simp: interns_def identity_ids_def c3)
  define c5 where "c5 = intern_methods ms c4"
  have I5: "interns c4 c5" by (simp add: c5_def interns_methods)
  have eff0: "identity_effect info c = methods_effect info i ?acl c4"
    by (simp add: identity_effect_def Let_def i c1_def c2_def c3_def c4_def)
  have eff: "identity_effect info c = c5\<lparr>acl_tbl := acl_tbl c4 @ acl_rows i ms ?acl c5\<rparr>"
    and ok: "meta_ok (identity_effect info c)"
    using methods_of_effect [OF assms(1) ms \<open>meta_ok c4\<close> \<open>i \<in> identity_ids c4\<close>, of ?acl]
    unfolding Let_def eff0 c5_def by blast+
  have tables: "identity_tbl c5 = identity_tbl c1" "identity_seq c5 = i" "realms_tbl c5 = realms_tbl c2"
    "owner_tbl c5 = owner_tbl c3" "acl_tbl c4 = acl_tbl c" "owner_tbl x = owner_tbl c"
    using I4 I5 x(1) by (auto simp: interns_def c3 c2 c1)
  have rows: "acl_rows i ms ?acl (c5\<lparr>acl_tbl := t\<rparr>) = acl_rows i ms ?acl c5" for t
    using appends_rows [of i ms ?acl] by (simp add: appends_def)
  have "has_tables c3" "has_tables c4" using \<open>meta_ok c3\<close> \<open>meta_ok c4\<close> by (auto simp: meta_ok_def)
  have secctx: "secctx_id y c5 = secctx_id y c4" if "secctx_id y c4 \<noteq> None" for y
    using interns_ids(3) [OF I5 that] .
  have "secctx_id ?ow c3 = secctx_id ?ow x" by (simp add: c3 secctx_id_def)
  then have ow: "secctx_id ?ow c5 = secctx_id ?ow x"
    using x(2) interns_ids(3) [OF I4] secctx by metis
  have ctxs: "secctx_id y c5 \<noteq> None" if "y \<in> set ?acl" for y
    using contexts_interned [OF \<open>has_tables c3\<close> that] secctx by (simp add: c4)
  have all_i: "filter (\<lambda>r. acl_identity r = i) (acl_rows i ms ?acl c5) = acl_rows i ms ?acl c5"
    by (auto simp: acl_rows_def method_rows_def acl_row_of_def intro!: filter_True)
  have methods: "\<forall>(m, mechs) \<in> set ms. id_of (methods_tbl c5) m \<noteq> None \<and>
      (\<forall>x \<in> set mechs. id_of (mechanisms_tbl c5) x \<noteq> None)"
    using methods_interned [OF \<open>has_tables c4\<close>, of _ _ ms] unfolding c5_def by blast
  have "methods_seq c4 = methods_seq c"
  proof -
    have "methods_seq (attempt (insert_or_ignore_secctx y) c) = methods_seq c" for y c
      by (auto simp: attempt_def insert_or_ignore_secctx_def on_tables_def Let_def)
    moreover from this have "methods_seq (intern_contexts ys c) = methods_seq c" for ys c
      unfolding intern_contexts_def by (induction ys arbitrary: c) auto
    ultimately show ?thesis by (simp add: c4 c3 x_def c2 c1)
  qed
  then have "methods_seq c5 \<le> methods_seq c + int (length ms)"
    using methods_seq_intern [of ms c4] by (simp add: c5_def)
  moreover have "new_identity_rows info ms (identity_effect info c)"
    unfolding new_identity_rows_def Let_def eff
    using ok ow ctxs methods fresh x(2) all_i
    by (simp add: eff tables rows)
       (simp add: c3 c2 c1 tables map_add_Some_iff filter_True comp_def map_of_append)
  ultimately show ?thesis by (simp add: eff tables i_def)
qed

subsection \<open>What is read back\<close>

lemma context_eta: "\<lparr>sys_ctx = sys_ctx x, app_ctx = app_ctx x\<rparr> = x"
  by (cases x) simp

lemma update_set:
  "x \<in> set (AList.update k v acc) \<Longrightarrow> x = (k, v) \<or> x \<in> set acc"
  "fst ` set (AList.update k v acc) = insert k (fst ` set acc)"
  by (induction acc) (auto split: if_splits)

lemma fold_update_props:
  fixes ps acc :: "('k \<times> 'v) list"
  shows "keys_distinct acc \<Longrightarrow> keys_distinct (fold (\<lambda>(k, v). AList.update k v) ps acc)"
    and "x \<in> set (fold (\<lambda>(k, v). AList.update k v) ps acc) \<Longrightarrow> x \<in> set acc \<or> x \<in> set ps"
    and "fst ` set (fold (\<lambda>(k, v). AList.update k v) ps acc) = fst ` set acc \<union> fst ` set ps"
proof -
  show "keys_distinct acc \<Longrightarrow> keys_distinct (fold (\<lambda>(k, v). AList.update k v) ps acc)"
    by (induction ps arbitrary: acc) (auto simp: distinct_update)
  show "x \<in> set (fold (\<lambda>(k, v). AList.update k v) ps acc) \<Longrightarrow> x \<in> set acc \<or> x \<in> set ps"
    by (induction ps arbitrary: acc) (auto dest: update_set(1))
  show "fst ` set (fold (\<lambda>(k, v). AList.update k v) ps acc) = fst ` set acc \<union> fst ` set ps"
    by (induction ps arbitrary: acc) (simp_all add: update_set(2) split_beta)
qed

lemma id_of_iff:
  assumes "keys_distinct tbl" "unique_values tbl"
  shows "id_of tbl v = Some i \<longleftrightarrow> map_of tbl i = Some v"
proof
  assume "id_of tbl v = Some i"
  then have "(i, v) \<in> set tbl" by (rule id_of_Some_in)
  with assms(1) show "map_of tbl i = Some v" by simp
next
  assume "map_of tbl i = Some v"
  then have "(v, i) \<in> set (map (\<lambda>(i, x). (x, i)) tbl)" by (force dest: map_of_SomeD)
  moreover have "distinct (map fst (map (\<lambda>(i, x). (x, i)) tbl))"
    using assms(2) by (simp add: unique_values_def comp_def case_prod_unfold)
  ultimately show "id_of tbl v = Some i" by (simp add: id_of_def)
qed

lemma tables_unique:
  assumes "meta_ok c"
  shows "id_of (methods_tbl c) m = Some i \<longleftrightarrow> map_of (methods_tbl c) i = Some m"
    and "id_of (mechanisms_tbl c) m = Some i \<longleftrightarrow> map_of (mechanisms_tbl c) i = Some m"
    and "secctx_id x c = Some i \<longleftrightarrow> map_of (secctx_tbl c) i = Some (sys_ctx x, app_ctx x)"
    and "keys_distinct (secctx_tbl c)"
  using assms by (auto simp: meta_ok_def table_ok_def id_of_iff secctx_id_def)

lemma owner_read_back:
  assumes "new_identity_rows info ms c" "uint ident = identity_seq c"
  shows "loaded_owner ident c = Some (the (gsignond_identity_info_get_owner info))"
proof -
  let ?ow = "the (gsignond_identity_info_get_owner info)"
  note N = assms(1) [unfolded new_identity_rows_def Let_def]
  from N obtain k where k: "secctx_id ?ow c = Some k" by blast
  then have row: "map_of (secctx_tbl c) k = Some (sys_ctx ?ow, app_ctx ?ow)"
    using N tables_unique(3) by blast
  have "(identity_seq c, Some i) \<in> set (owner_tbl c) \<longleftrightarrow>
      (identity_seq c, Some i) \<in> set (filter (\<lambda>r. fst r = identity_seq c) (owner_tbl c))" for i by simp
  then have "(identity_seq c, Some i) \<in> set (owner_tbl c) \<longleftrightarrow> i = k" for i
    using N k by simp
  then have "owner_pairs ident c = map (\<lambda>(s, a). (s, Some a)) (map snd (filter (\<lambda>r. fst r = k) (secctx_tbl c)))"
    by (simp add: owner_pairs_def assms(2) case_prod_unfold comp_def)
  also have "map snd (filter (\<lambda>r. fst r = k) (secctx_tbl c)) = [(sys_ctx ?ow, app_ctx ?ow)]"
    using N tables_unique(4) by (simp add: single_row row)
  finally show ?thesis
    by (simp add: loaded_owner_def gsignond_security_context_new_from_values_def)
qed

lemma contexts_of_rows:
  assumes "acl \<noteq> []"
  shows "acl_secctx ` set (acl_rows i ms acl c) = (\<lambda>x. secctx_id x c) ` set acl"
proof -
  have rows: "acl_secctx ` set (method_rows i e (Some x) c) = {secctx_id x c}" for e x
    by (cases "snd e") (auto simp: method_rows_def acl_row_of_def)
  show ?thesis
  proof (cases "ms = []")
    case True
    then show ?thesis by (simp add: acl_rows_def acl_row_of_def image_image)
  next
    case False
    then have "set (acl_rows i ms acl c) = (\<Union>e\<in>set ms. \<Union>x\<in>set acl. set (method_rows i e (Some x) c))"
      using assms by (simp add: acl_rows_def)
    then show ?thesis using False by (auto simp: image_UN rows)
  qed
qed

lemma acl_read_back:
  assumes "new_identity_rows info ms c" "uint ident = identity_seq c" "acl_of info \<noteq> []"
  shows "set (loaded_acl ident c) \<subseteq> set (acl_of info)"
    and "sys_ctx ` set (loaded_acl ident c) = sys_ctx ` set (acl_of info)"
    and "distinct (map sys_ctx (loaded_acl ident c))"
proof -
  let ?acl = "acl_of info"
  note N = assms(1) [unfolded new_identity_rows_def Let_def]
  have "{r \<in> set (acl_tbl c). acl_identity r = uint ident} = set (acl_rows (identity_seq c) ms ?acl c)"
    using N assms(2) by (metis set_filter)
  then have ids: "acl_secctx ` {r \<in> set (acl_tbl c). acl_identity r = uint ident} =
      (\<lambda>x. secctx_id x c) ` set ?acl"
    using contexts_of_rows [OF assms(3)] by simp
  have pairs: "set (acl_pairs ident c) = (\<lambda>x. (sys_ctx x, Some (app_ctx x))) ` set ?acl"
  proof (rule equalityI; rule subsetI)
    fix p assume "p \<in> set (acl_pairs ident c)"
    then obtain i s a where p: "p = (s, Some a)" "(i, s, a) \<in> set (secctx_tbl c)"
      "Some i \<in> (\<lambda>x. secctx_id x c) ` set ?acl"
      by (auto simp: acl_pairs_def ids)
    from p(3) obtain x where x: "x \<in> set ?acl" "secctx_id x c = Some i" by (metis imageE)
    then have "map_of (secctx_tbl c) i = Some (sys_ctx x, app_ctx x)" using N tables_unique(3) by blast
    moreover have "map_of (secctx_tbl c) i = Some (s, a)" using p(2) N tables_unique(4) by simp
    ultimately show "p \<in> (\<lambda>x. (sys_ctx x, Some (app_ctx x))) ` set ?acl" using p x by auto
  next
    fix p assume "p \<in> (\<lambda>x. (sys_ctx x, Some (app_ctx x))) ` set ?acl"
    then obtain x where x: "x \<in> set ?acl" "p = (sys_ctx x, Some (app_ctx x))" by auto
    then obtain i where i: "secctx_id x c = Some i" using N by blast
    then have "map_of (secctx_tbl c) i = Some (sys_ctx x, app_ctx x)" using N tables_unique(3) by blast
    then have "(i, sys_ctx x, app_ctx x) \<in> set (secctx_tbl c)" by (rule map_of_SomeD)
    then show "p \<in> set (acl_pairs ident c)"
      using x i by (force simp: acl_pairs_def ids intro!: image_eqI [where x = "(i, sys_ctx x, app_ctx x)"])
  qed
  let ?r = "fold (\<lambda>(k, v). AList.update k v) (acl_pairs ident c) []"
  have r: "keys_distinct ?r" "set ?r \<subseteq> set (acl_pairs ident c)" "fst ` set ?r = fst ` set (acl_pairs ident c)"
    using fold_update_props(2,3) [where ps = "acl_pairs ident c" and acc = "[]"]
    by (auto simp: fold_update_props(1))
  show "distinct (map sys_ctx (loaded_acl ident c))"
    using r(1) by (simp add: loaded_acl_def case_prod_unfold comp_def)
  have "set (loaded_acl ident c) \<subseteq> (\<lambda>(s, a). \<lparr>sys_ctx = s, app_ctx = or_empty a\<rparr>) ` set (acl_pairs ident c)"
    unfolding loaded_acl_def set_map using r(2) by (rule image_mono)
  also have "\<dots> \<subseteq> set ?acl"
  proof (rule subsetI)
    fix y assume "y \<in> (\<lambda>(s, a). \<lparr>sys_ctx = s, app_ctx = or_empty a\<rparr>) ` set (acl_pairs ident c)"
    then show "y \<in> set ?acl" by (auto simp: pairs or_empty_def context_eta)
  qed
  finally show "set (loaded_acl ident c) \<subseteq> set ?acl" .
  have "sys_ctx ` set (loaded_acl ident c) = fst ` set ?r"
    by (force simp: loaded_acl_def image_image case_prod_unfold)
  then show "sys_ctx ` set (loaded_acl ident c) = sys_ctx ` set ?acl"
    using r(3) by (simp add: pairs image_image)
qed

lemma rows_members:
  assumes "acl \<noteq> []" "ms \<noteq> []"
  shows "(\<exists>r \<in> set (acl_rows i ms acl c). acl_method r = Some k \<and> P r) \<longleftrightarrow>
     (\<exists>e \<in> set ms. id_of (methods_tbl c) (fst e) = Some k \<and>
        (\<exists>x \<in> set acl. \<exists>r \<in> set (method_rows i e (Some x) c). P r))"
proof -
  have rows: "set (acl_rows i ms acl c) = (\<Union>e\<in>set ms. \<Union>x\<in>set acl. set (method_rows i e (Some x) c))"
    using assms by (simp add: acl_rows_def)
  have meth: "acl_method r = id_of (methods_tbl c) (fst e)" if "r \<in> set (method_rows i e ctx c)" for r e ctx
    using that by (auto simp: method_rows_def acl_row_of_def split: if_splits)
  show ?thesis unfolding rows
    by (rule iffI; elim bexE conjE UN_E) (use meth in \<open>force+\<close>)
qed

lemma map_filter_set: "set (List.map_filter f xs) = {y. \<exists>x \<in> set xs. f x = Some y}"
  by (force simp: map_filter_def)

lemma rows_of_identity:
  assumes "new_identity_rows info ms c" "uint ident = identity_seq c"
  shows "r \<in> set (acl_tbl c) \<and> acl_identity r = uint ident \<longleftrightarrow> r \<in> set (acl_rows (identity_seq c) ms (acl_of info) c)"
proof -
  have "set (filter (\<lambda>r. acl_identity r = identity_seq c) (acl_tbl c)) =
      set (acl_rows (identity_seq c) ms (acl_of info) c)"
    using assms(1) unfolding new_identity_rows_def Let_def by (elim conjE) (rule arg_cong [of _ _ set])
  then show ?thesis using assms(2) by auto
qed

lemma methods_query_read:
  assumes "new_identity_rows info ms c" "uint ident = identity_seq c" "acl_of info \<noteq> []"
  shows "(i, m) \<in> set (methods_query ident c) \<longleftrightarrow> m \<in> fst ` set ms \<and> id_of (methods_tbl c) m = Some i"
proof -
  note N = assms(1) [unfolded new_identity_rows_def Let_def]
  have "(i, m) \<in> set (methods_query ident c) \<longleftrightarrow>
      (\<exists>r. r \<in> set (acl_tbl c) \<and> acl_identity r = uint ident \<and> acl_method r = Some i \<and> map_of (methods_tbl c) i = Some m)"
    by (auto simp: methods_query_def map_filter_set bind_eq_Some_conv split: if_splits)
  also have "\<dots> \<longleftrightarrow> (\<exists>r \<in> set (acl_rows (identity_seq c) ms (acl_of info) c). acl_method r = Some i \<and> True) \<and>
      map_of (methods_tbl c) i = Some m"
    using rows_of_identity [OF assms(1,2)] by blast
  also have "map_of (methods_tbl c) i = Some m \<longleftrightarrow> id_of (methods_tbl c) m = Some i"
    using N tables_unique(1) by blast
  also have "(\<exists>r \<in> set (acl_rows (identity_seq c) ms (acl_of info) c). acl_method r = Some i \<and> True) \<and>
      id_of (methods_tbl c) m = Some i \<longleftrightarrow> m \<in> fst ` set ms \<and> id_of (methods_tbl c) m = Some i"
  proof (cases "ms = []")
    case True
    then show ?thesis by (simp add: acl_rows_def acl_row_of_def)
  next
    case False
    have "\<exists>r. r \<in> set (method_rows j e x c)" for j e x
      by (cases "snd e") (auto simp: method_rows_def)
    then have "(\<exists>r \<in> set (acl_rows (identity_seq c) ms (acl_of info) c). acl_method r = Some i \<and> True) \<longleftrightarrow>
        (\<exists>e \<in> set ms. id_of (methods_tbl c) (fst e) = Some i)"
      unfolding rows_members [OF assms(3) False] using assms(3) by (auto simp: neq_Nil_conv)
    moreover have "m' = m" if "id_of (methods_tbl c) m' = Some i" "id_of (methods_tbl c) m = Some i" for m'
      using that N tables_unique(1) by (metis option.inject)
    ultimately show ?thesis by (metis (no_types, lifting) imageE image_eqI)
  qed
  finally show ?thesis .
qed

lemma mechanisms_query_read:
  assumes "new_identity_rows info ms c" "uint ident = identity_seq c" "acl_of info \<noteq> []" "keys_distinct ms"
    and "(m, mechs) \<in> set ms" "id_of (methods_tbl c) m = Some i" "methods_seq c < 2 ^ 32"
  shows "set (mechanisms_query (word_of_int i) ident c) = set mechs"
proof -
  note N = assms(1) [unfolded new_identity_rows_def Let_def]
  have "map_of (methods_tbl c) i = Some m" using assms(6) N tables_unique(1) by blast
  then have "0 < i" "i \<le> methods_seq c"
    using N by (auto simp: meta_ok_def table_ok_def dest!: map_of_SomeD)
  then have i: "uint (word_of_int i :: u32) = i"
    using assms(7) by (simp add: uint_word_of_int_eq take_bit_int_eq_self_iff)
  have same: "e = (m, mechs)" if "e \<in> set ms" "id_of (methods_tbl c) (fst e) = Some i" for e
  proof -
    have "fst e = m" using that(2) assms(6) N tables_unique(1) by (metis option.inject)
    with that(1) assms(4,5) show ?thesis by (metis eq_key_imp_eq_value prod.collapse)
  qed
  from N have "\<forall>(m, mechs) \<in> set ms. id_of (methods_tbl c) m \<noteq> None \<and>
      (\<forall>x \<in> set mechs. id_of (mechanisms_tbl c) x \<noteq> None)" by (elim conjE)
  from bspec [OF this assms(5)] have interned: "\<forall>x \<in> set mechs. id_of (mechanisms_tbl c) x \<noteq> None" by simp
  have ne: "ms \<noteq> []" using assms(5) by auto
  have only: "(\<exists>e \<in> set ms. id_of (methods_tbl c) (fst e) = Some i \<and> R e) \<longleftrightarrow> R (m, mechs)" for R
    using same assms(5,6) by (metis fst_conv)
  have "x \<in> set (mechanisms_query (word_of_int i) ident c) \<longleftrightarrow> x \<in> set mechs" for x
  proof -
    have "x \<in> set (mechanisms_query (word_of_int i) ident c) \<longleftrightarrow>
        (\<exists>r. r \<in> set (acl_tbl c) \<and> acl_identity r = uint ident \<and> acl_method r = Some i \<and>
           Option.bind (acl_mechanism r) (map_of (mechanisms_tbl c)) = Some x)"
      by (auto simp: mechanisms_query_def map_filter_set i split: if_splits)
    also have "\<dots> \<longleftrightarrow> (\<exists>r \<in> set (acl_rows (identity_seq c) ms (acl_of info) c). acl_method r = Some i \<and>
           Option.bind (acl_mechanism r) (map_of (mechanisms_tbl c)) = Some x)"
      using rows_of_identity [OF assms(1,2)] by blast
    also have "\<dots> \<longleftrightarrow> (\<exists>y \<in> set (acl_of info). \<exists>r \<in> set (method_rows (identity_seq c) (m, mechs) (Some y) c).
           Option.bind (acl_mechanism r) (map_of (mechanisms_tbl c)) = Some x)"
      unfolding rows_members [OF assms(3) ne] only ..
    also have "\<dots> \<longleftrightarrow> (\<exists>z \<in> set mechs. Option.bind (id_of (mechanisms_tbl c) z) (map_of (mechanisms_tbl c)) = Some x)"
      using assms(3) by (cases mechs) (auto simp: method_rows_def acl_row_of_def neq_Nil_conv)
    also have "\<dots> \<longleftrightarrow> x \<in> set mechs"
    proof -
      have each: "Option.bind (id_of (mechanisms_tbl c) z) (map_of (mechanisms_tbl c)) = Some z" if z: "z \<in> set mechs" for z
      proof -
        obtain k where "id_of (mechanisms_tbl c) z = Some k" using bspec [OF interned z] by blast
        moreover from this have "map_of (mechanisms_tbl c) k = Some z" using N tables_unique(2) by blast
        ultimately show ?thesis by simp
      qed
      then show ?thesis by (auto simp: each)
    qed
    finally show ?thesis .
  qed
  then show ?thesis by blast
qed

lemma map_of_fold_keyed:
  "distinct (map g xs) \<Longrightarrow> map_of (fold (\<lambda>x. AList.update (g x) (h x)) xs acc) k =
     (case find (\<lambda>x. g x = k) xs of Some x \<Rightarrow> Some (h x) | None \<Rightarrow> map_of acc k)"
proof (induction xs arbitrary: acc)
  case (Cons x xs)
  have "find (\<lambda>y. g y = k) xs = None" if "g x = k"
    using Cons.prems that by (auto simp: find_None_iff image_iff)
  with Cons show ?case by (auto simp: update_conv' split: option.split)
qed simp

lemma methods_read_back:
  assumes "new_identity_rows info ms c" "uint ident = identity_seq c" "acl_of info \<noteq> []" "keys_distinct ms"
    and "methods_seq c < 2 ^ 32"
  shows "loaded_methods ident c = None \<longleftrightarrow> ms = []"
    and "loaded_methods ident c = Some ms' \<Longrightarrow> keys_distinct ms' \<and>
       (\<forall>m. map_of ms' m = map_option (sort_cmp strcmp \<circ> remdups) (map_of ms m))"
proof -
  note N = assms(1) [unfolded new_identity_rows_def Let_def]
  note Q = methods_query_read [OF assms(1-3)]
  have ids: "\<exists>i. id_of (methods_tbl c) m = Some i" if "m \<in> fst ` set ms" for m
    using N that by fastforce
  have empty: "methods_query ident c = [] \<longleftrightarrow> ms = []"
  proof
    assume "methods_query ident c = []"
    then have "m \<notin> fst ` set ms" for m using Q [of _ m] ids [of m] by auto
    then show "ms = []" by (cases ms) auto
  next
    assume "ms = []"
    then have "x \<notin> set (methods_query ident c)" for x using Q by (cases x) auto
    then show "methods_query ident c = []" by (cases "methods_query ident c") auto
  qed
  then show "loaded_methods ident c = None \<longleftrightarrow> ms = []" by (simp add: loaded_methods_def)
  assume ms': "loaded_methods ident c = Some ms'"
  let ?h = "\<lambda>p. gsignond_db_metadata_database_list_to_sequence (mechanisms_query (word_of_int (fst p)) ident c)"
  have ms'_eq: "ms' = fold (\<lambda>p. AList.update (snd p) (?h p)) (methods_query ident c) []"
    using ms' by (simp add: loaded_methods_def case_prod_unfold split: if_splits)
  have "keys_distinct (fold (\<lambda>p. AList.update (snd p) (?h p)) ps acc)" if "keys_distinct acc" for ps :: "(int \<times> string) list" and acc
    using that by (induction ps arbitrary: acc) (auto simp: distinct_update)
  then have "keys_distinct ms'" by (simp add: ms'_eq)
  moreover have "map_of ms' m = map_option (sort_cmp strcmp \<circ> remdups) (map_of ms m)" for m
  proof -
    have eq: "map_of ms' m = (case find (\<lambda>p. snd p = m) (methods_query ident c) of Some p \<Rightarrow> Some (?h p) | None \<Rightarrow> None)"
      unfolding ms'_eq using map_of_fold_keyed [of snd "methods_query ident c" ?h "[]" m]
        methods_query_ids(2) [of c ident] N by (auto split: option.split)
    show ?thesis
    proof (cases "map_of ms m")
      case None
      then have "m \<notin> fst ` set ms" by (simp add: map_of_eq_None_iff)
      then have "find (\<lambda>p. snd p = m) (methods_query ident c) = None"
        using Q by (auto simp: find_None_iff)
      with None show ?thesis by (simp add: eq)
    next
      case (Some mechs)
      then have e: "(m, mechs) \<in> set ms" by (rule map_of_SomeD)
      then obtain i where i: "id_of (methods_tbl c) m = Some i" using ids by force
      with e have "(i, m) \<in> set (methods_query ident c)" using Q by force
      then obtain p where p: "find (\<lambda>p. snd p = m) (methods_query ident c) = Some p"
        by (cases "find (\<lambda>p. snd p = m) (methods_query ident c)") (auto simp: find_None_iff)
      then have "p \<in> set (methods_query ident c)" "snd p = m" by (auto simp: find_Some_iff)
      then have "fst p = i" using Q [of "fst p" m] i by (cases p) auto
      have "set (mechanisms_query (word_of_int i) ident c) = set mechs"
        by (rule mechanisms_query_read [OF assms(1-4) e i assms(5)])
      moreover have "distinct (mechanisms_query (word_of_int i) ident c)" by (simp add: mechanisms_query_def)
      ultimately have "mset (mechanisms_query (word_of_int i) ident c) = mset (remdups mechs)"
        using set_eq_iff_mset_eq_distinct [of _ "remdups mechs"] by simp
      then have "?h p = sort_cmp strcmp (remdups mechs)"
        unfolding gsignond_db_metadata_database_list_to_sequence_def sort_cmp_def [symmetric] \<open>fst p = i\<close>
        by (rule strord.sort_perm)
      with Some p show ?thesis by (simp add: eq)
    qed
  qed
  ultimately show "keys_distinct ms' \<and> (\<forall>m. map_of ms' m = map_option (sort_cmp strcmp \<circ> remdups) (map_of ms m))"
    by blast
qed

subsection \<open>The fields of the identity that is read\<close>

lemmas assemble_defs = assemble_identity_def gsignond_db_metadata_database_read_identity_def Let_def

lemmas fields_kept =
  setters_other [THEN id_field.get_local] setters_other [THEN caption_field.get_local]
  setters_other [THEN username_field.get_local] setters_other [THEN username_secret_field.get_local]
  setters_other [THEN store_secret_field.get_local] setters_other [THEN validated_field.get_local]
  setters_other [THEN type_field.get_local] setters_other [THEN realms_field.get_local]
  setters_other [THEN owner_field.get_local] setters_other [THEN acl_field.get_local]
  setters_other [THEN methods_field.get_local]

lemmas fields_set =
  id_field.get_set caption_field.get_set username_field.get_set username_secret_field.get_set
  store_secret_field.get_set validated_field.get_set type_field.get_set realms_field.get_set
  owner_field.get_set acl_field.get_set

lemma new_fields:
  "gsignond_identity_info_get_username gsignond_identity_info_new = None"
  "gsignond_identity_info_get_methods gsignond_identity_info_new = None"
  by (simp_all add: info_new_eq gsignond_identity_info_get_username_def gsignond_identity_info_get_methods_def)

lemma assembled_secret:
  "gsignond_identity_info_get_secret (assemble_identity ident row realms acl owner ms) = None"
proof -
  have "gsignond_identity_info_get_secret gsignond_identity_info_new = None"
    by (simp add: info_new_eq gsignond_identity_info_get_secret_def)
  then show ?thesis
    unfolding assemble_defs by (simp add: setters_other [THEN secret_field.get_local] split: option.split)
qed

lemma methods_kept:
  "slot_value a (Slot_entry key_AUTHMETHODS) = slot_value b (Slot_entry key_AUTHMETHODS) \<Longrightarrow>
     gsignond_identity_info_get_methods a = gsignond_identity_info_get_methods b"
  by (simp add: gsignond_identity_info_get_methods_def)

lemmas fields_methods_kept = setters_other [THEN methods_kept]

lemma assembled_fields:
  fixes row :: identity_row
  defines "secret \<equiv> row_flags row AND GSignondIdentityFlag_UserNameIsSecret \<noteq> 0"
  shows "gsignond_identity_info_get_id (assemble_identity ident row realms acl owner ms) = ident"
    and "gsignond_identity_info_get_is_username_secret (assemble_identity ident row realms acl owner ms) = secret"
    and "gsignond_identity_info_get_caption (assemble_identity ident row realms acl owner ms) =
      Some (if secret then '''' else row_caption row)"
    and "gsignond_identity_info_get_username (assemble_identity ident row realms acl owner ms) =
      (if secret then None else Some (row_username row))"
    and "gsignond_identity_info_get_store_secret (assemble_identity ident row realms acl owner ms) =
      (row_flags row AND GSignondIdentityFlag_RememberSecret \<noteq> 0)"
    and "gsignond_identity_info_get_validated (assemble_identity ident row realms acl owner ms) =
      (row_flags row AND GSignondIdentityFlag_Validated \<noteq> 0)"
    and "gsignond_identity_info_get_identity_type (assemble_identity ident row realms acl owner ms) = row_type row"
    and "gsignond_identity_info_get_realms (assemble_identity ident row realms acl owner ms) =
      Some (sort_cmp strcmp realms)"
    and "owner \<noteq> None \<Longrightarrow> gsignond_identity_info_get_owner (assemble_identity ident row realms acl owner ms) = owner"
    and "acl \<noteq> [] \<Longrightarrow> gsignond_identity_info_get_access_control_list (assemble_identity ident row realms acl owner ms) =
      map Some acl"
  unfolding assemble_defs secret_def
  by (simp_all add: fields_kept fields_set new_fields split: option.split)

lemma assembled_methods:
  "ms = None \<Longrightarrow> gsignond_identity_info_get_methods (assemble_identity ident row realms acl owner ms) = None"
  "ms = Some entries \<Longrightarrow> keys_distinct entries \<Longrightarrow>
     map_option map_of (gsignond_identity_info_get_methods (assemble_identity ident row realms acl owner ms)) =
     Some (map_option (sort_cmp strcmp) \<circ> map_of entries)"
  unfolding assemble_defs
  by (simp_all add: methods_field.get_set fields_methods_kept new_fields)


lemma identity_flags_bits:
  "identity_flags info AND GSignondIdentityFlag_UserNameIsSecret \<noteq> 0 \<longleftrightarrow> gsignond_identity_info_get_is_username_secret info"
  "identity_flags info AND GSignondIdentityFlag_RememberSecret \<noteq> 0 \<longleftrightarrow> gsignond_identity_info_get_store_secret info"
  "identity_flags info AND GSignondIdentityFlag_Validated \<noteq> 0 \<longleftrightarrow> gsignond_identity_info_get_validated info"
  unfolding identity_flags_def GSignondIdentityFlag_UserNameIsSecret_def
    GSignondIdentityFlag_RememberSecret_def GSignondIdentityFlag_Validated_def
  by (cases "gsignond_identity_info_get_validated info"; cases "gsignond_identity_info_get_store_secret info";
      cases "gsignond_identity_info_get_is_username_secret info"; simp)+

text \<open>What reading returns for a stored identity.\<close>

definition read_back :: "identity_info \<Rightarrow> u32 \<Rightarrow> identity_info \<Rightarrow> bool" where
  "read_back info ident i \<longleftrightarrow>
     (let secret = gsignond_identity_info_get_is_username_secret info in
         gsignond_identity_info_get_id i = ident \<and>
         gsignond_identity_info_get_is_username_secret i = secret \<and>
         gsignond_identity_info_get_caption i =
           Some (if secret then '''' else or_empty (gsignond_identity_info_get_caption info)) \<and>
         gsignond_identity_info_get_username i =
           (if secret then None else Some (or_empty (gsignond_identity_info_get_username info))) \<and>
         gsignond_identity_info_get_secret i = None \<and>
         gsignond_identity_info_get_store_secret i = gsignond_identity_info_get_store_secret info \<and>
         gsignond_identity_info_get_validated i = gsignond_identity_info_get_validated info \<and>
         gsignond_identity_info_get_identity_type i = gsignond_identity_info_get_identity_type info \<and>
         gsignond_identity_info_get_owner i = gsignond_identity_info_get_owner info \<and>
         gsignond_identity_info_get_realms i = Some (sort_cmp strcmp (stored_realms info)) \<and>
         (\<forall>m. Option.bind (gsignond_identity_info_get_methods i) (\<lambda>ms. map_of ms m) =
            map_option (sort_cmp strcmp \<circ> remdups)
              (map_of (the (gsignond_identity_info_get_methods info)) m)) \<and>
         (\<exists>acl. gsignond_identity_info_get_access_control_list i = map Some acl \<and>
            set acl \<subseteq> set (acl_of info) \<and> sys_ctx ` set acl = sys_ctx ` set (acl_of info) \<and>
            distinct (map sys_ctx acl)))"

lemma new_identity_read_back:
  assumes "healthy d" "meta_ok (content d)" "known info (content d)" "complete info"
    and "methods_seq (content d) + int (length (the (gsignond_identity_info_get_methods info))) < 2 ^ 32"
  shows "\<exists>d1 i d2. gsignond_db_metadata_database_update_identity info d =
      (word_of_int (identity_seq (content d) + 1), d1) \<and> healthy d1 \<and> meta_ok (content d1) \<and>
    gsignond_db_metadata_database_get_identity (word_of_int (identity_seq (content d) + 1)) d1 = (Some i, d2) \<and>
    healthy d2 \<and> content d2 = content d1 \<and> (word_of_int (identity_seq (content d) + 1) :: u32) \<noteq> 0 \<and>
    read_back info (word_of_int (identity_seq (content d) + 1)) i"
proof -
  let ?c = "content d" and ?ms = "the (gsignond_identity_info_get_methods info)"
  let ?c' = "identity_effect info ?c"
  obtain ident d1 where store: "gsignond_db_metadata_database_update_identity info d = (ident, d1)" by force
  obtain loaded d2 where load: "gsignond_db_metadata_database_get_identity ident d1 = (loaded, d2)" by force
  have comp: "gsignond_identity_info_get_is_identity_new info" "storable info"
    "gsignond_identity_info_get_edit_flags info \<noteq> IDENTITY_INFO_PROP_NONE"
    "gsignond_identity_info_get_methods info = Some ?ms"
    using assms(4) by (auto simp: complete_def IDENTITY_INFO_PROP_NONE_def)
  have d1: "opened d1" "faults d1 = []" "content d1 = ?c'" "ident = word_of_int (identity_seq ?c + 1)"
    "snapshot d1 = None" "ident \<noteq> 0" "meta_ok (content d1)"
    using update_identity_result [OF _ assms(2,3) comp(3) store] assms(1) comp(1,2)
    by (auto simp: healthy_def stored_id_def)
  have N: "new_identity_rows info ?ms ?c'" "identity_seq ?c' = identity_seq ?c + 1"
    "methods_seq ?c' < 2 ^ 32"
    using new_identity_stored [OF assms(4,2,3) comp(4)] assms(5) by auto
  have "0 \<le> identity_seq ?c" using assms(2) by (simp add: meta_ok_def table_ok_def)
  then have ident: "uint ident = identity_seq ?c'"
    using assms(3) by (simp add: d1(4) N(2) known_def uint_word_of_int_eq take_bit_int_eq_self_iff del: of_int_add)
  have acl: "acl_of info \<noteq> []"
  proof -
    have "gsignond_identity_info_get_access_control_list info \<noteq> []"
      "acl_is_read info \<longrightarrow> contexts (gsignond_identity_info_get_access_control_list info) \<noteq> None"
      using comp(2) by (auto simp: storable_def)
    moreover have "acl_is_read info" using assms(4) by (auto simp: acl_is_read_def complete_def)
    ultimately show ?thesis
      by (cases "gsignond_identity_info_get_access_control_list info" rule: contexts.cases)
         (auto simp: acl_of_def split: option.splits)
  qed
  note M = methods_read_back [OF N(1) ident acl get_methods_distinct [OF comp(4)] N(3)]
  note A = acl_read_back [OF N(1) ident acl]
  let ?a = "assemble_identity ident (identity_row_of info) (loaded_realms ident ?c') (loaded_acl ident ?c')
      (loaded_owner ident ?c') (loaded_methods ident ?c')"
  have row: "map_of (identity_tbl ?c') (uint ident) = Some (identity_row_of info)"
    and realms: "loaded_realms ident ?c' = sort_cmp strcmp (stored_realms info)" and "meta_ok ?c'"
    using N(1) by (simp_all add: new_identity_rows_def Let_def ident loaded_realms_def comp_def
        gsignond_db_metadata_database_list_to_sequence_def sort_cmp_def)
  have "ready d1" using d1 by (simp add: ready_def)
  from get_identity_yields [OF this, of ident] row \<open>meta_ok ?c'\<close> N(3) load d1(3)
  have loaded: "loaded = Some ?a" "content d2 = content d1" "ready d2" "snapshot d2 = snapshot d1"
    by (simp_all add: yields_def)
  have owner: "loaded_owner ident ?c' = gsignond_identity_info_get_owner info"
    "gsignond_identity_info_get_owner info \<noteq> None"
    using owner_read_back [OF N(1) ident] comp(2) by (auto simp: storable_def)
  have "loaded_acl ident ?c' \<noteq> []" using A(2) acl by auto
  note acl_read = assembled_fields(10) [OF this]
  have methods: "Option.bind (gsignond_identity_info_get_methods ?a) (\<lambda>ms. map_of ms m) =
      map_option (sort_cmp strcmp \<circ> remdups) (map_of ?ms m)" for m
  proof (cases "loaded_methods ident ?c'")
    case None
    with M(1) show ?thesis by (simp add: assembled_methods(1))
  next
    case (Some ms')
    note m = M(2) [OF this]
    from assembled_methods(2) [OF Some conjunct1 [OF m], where ident = ident and row = "identity_row_of info"
        and realms = "loaded_realms ident ?c'" and acl = "loaded_acl ident ?c'" and owner = "loaded_owner ident ?c'"]
    obtain ms'' where
      "gsignond_identity_info_get_methods ?a = Some ms''" "map_of ms'' = map_option (sort_cmp strcmp) \<circ> map_of ms'"
      unfolding map_option_eq_Some by blast
    with conjunct2 [OF m]
    show ?thesis
      by (simp add: option.map_comp comp_def strord.sort_sorted_id [OF strord.sorted_sort])
  qed
  have "\<exists>acl. gsignond_identity_info_get_access_control_list ?a = map Some acl \<and>
      set acl \<subseteq> set (acl_of info) \<and> sys_ctx ` set acl = sys_ctx ` set (acl_of info) \<and> distinct (map sys_ctx acl)"
    using acl_read A by blast
  moreover have "sort_cmp strcmp (loaded_realms ident ?c') = sort_cmp strcmp (stored_realms info)"
    by (simp add: realms strord.sort_sorted_id [OF strord.sorted_sort])
  ultimately have "read_back info ident ?a"
    unfolding read_back_def Let_def
    by (intro conjI allI methods)
       (simp_all add: assembled_fields assembled_secret identity_row_of_def identity_flags_bits owner)
  with store load loaded d1 show ?thesis by (auto simp: healthy_def ready_def)
qed

text \<open>
  C18. On a healthy database that has ids left, what a new identity with an owner, a list of contexts and a table of methods is stored as is
  what is read back under the id that storing returned: the flags and the type; the user name and the
  caption, but neither when the user name is secret; never a password; the owner; the realms; the methods, each with its
  mechanisms sorted and without repetitions; of the list of contexts one for each system context.
\<close>

theorem identity_stored_is_loaded:
  assumes "healthy d" "meta_ok (content d)" "known info (content d)" "complete info"
    and "methods_seq (content d) + int (length (the (gsignond_identity_info_get_methods info))) < 2 ^ 32"
  shows "let (ident, d1) = gsignond_db_metadata_database_update_identity info d;
             (loaded, d2) = gsignond_db_metadata_database_get_identity ident d1;
             secret = gsignond_identity_info_get_is_username_secret info
         in ident = word_of_int (identity_seq (content d) + 1) \<and> content d2 = content d1 \<and>
      (\<exists>i. loaded = Some i \<and> gsignond_identity_info_get_id i = ident \<and>
         gsignond_identity_info_get_is_username_secret i = secret \<and>
         gsignond_identity_info_get_caption i =
           Some (if secret then '''' else or_empty (gsignond_identity_info_get_caption info)) \<and>
         gsignond_identity_info_get_username i =
           (if secret then None else Some (or_empty (gsignond_identity_info_get_username info))) \<and>
         gsignond_identity_info_get_secret i = None \<and>
         gsignond_identity_info_get_store_secret i = gsignond_identity_info_get_store_secret info \<and>
         gsignond_identity_info_get_validated i = gsignond_identity_info_get_validated info \<and>
         gsignond_identity_info_get_identity_type i = gsignond_identity_info_get_identity_type info \<and>
         gsignond_identity_info_get_owner i = gsignond_identity_info_get_owner info \<and>
         gsignond_identity_info_get_realms i = Some (sort_cmp strcmp (stored_realms info)) \<and>
         (\<forall>m. Option.bind (gsignond_identity_info_get_methods i) (\<lambda>ms. map_of ms m) =
            map_option (sort_cmp strcmp \<circ> remdups)
              (map_of (the (gsignond_identity_info_get_methods info)) m)) \<and>
         (\<exists>acl. gsignond_identity_info_get_access_control_list i = map Some acl \<and>
            set acl \<subseteq> set (acl_of info) \<and> sys_ctx ` set acl = sys_ctx ` set (acl_of info) \<and>
            distinct (map sys_ctx acl)))"
  using new_identity_read_back [OF assms] by (fastforce simp: read_back_def Let_def)

lemma example_identity_complete: "complete example_identity"
  using example_identity_storable
  by (simp add: complete_def example_identity_fields example_owner_def
      gsignond_identity_info_get_edit_flags_def prop_defs)

theorem identity_stored_is_loaded_witness:
  "map_option gsignond_identity_info_get_caption (fst (gsignond_db_metadata_database_get_identity
      (fst (gsignond_db_metadata_database_update_identity example_identity example_database))
      (snd (gsignond_db_metadata_database_update_identity example_identity example_database)))) = Some (Some ''work'')"
proof -
  have "methods_seq (content example_database) +
      int (length (the (gsignond_identity_info_get_methods example_identity))) < 2 ^ 32"
    by (simp add: example_database_ok example_identity_fields)
  from identity_stored_is_loaded [OF example_database_ok(1,2) example_identity_storable(3) example_identity_complete this]
  show ?thesis
    by (auto simp: Let_def example_identity_fields or_empty_def split: prod.splits)
qed

end
