(* ===== verification/Gsso_Metadata_References.thy ===== *)
theory Gsso_Metadata_References
  imports Gsso_Metadata_Roundtrip
begin

text \<open>
  The references of an identity and the removal of identities: the operations as atomic writes with
  an effect on the tables, and what the effects do to the rows of this and of other identities.
\<close>

subsection \<open>Programs between a begin and a commit\<close>

text \<open>
  The shape of the operations on references: a transaction around a program that is rolled back
  when the program fails.
\<close>

definition in_transaction :: "(meta_db \<Rightarrow> bool \<times> meta_db) \<Rightarrow> meta_db \<Rightarrow> bool \<times> meta_db" where
  "in_transaction body self =
     (case gsignond_db_sql_database_start_transaction self of
        (False, self) \<Rightarrow> (False, self)
      | (True, self) \<Rightarrow>
          (case body self of
             (False, self) \<Rightarrow> roll_back_FALSE self
           | (True, self) \<Rightarrow> gsignond_db_sql_database_commit_transaction self))"

definition runs :: "(meta_db \<Rightarrow> bool \<times> meta_db) \<Rightarrow> (meta_content \<Rightarrow> meta_content option) \<Rightarrow> bool" where
  "runs body effect \<longleftrightarrow> (\<forall>d s ok d'. opened d \<longrightarrow> snapshot d = Some s \<longrightarrow> body d = (ok, d') \<longrightarrow>
     opened d' \<and> (ok \<longrightarrow> snapshot d' = Some s \<and> effect (content d) = Some (content d')) \<and>
     (\<not> ok \<longrightarrow> durable d' = s) \<and>
     (faults d = [] \<longrightarrow> faults d' = [] \<and> (ok \<longleftrightarrow> effect (content d) \<noteq> None)))"

lemma runsD:
  assumes "runs body effect" "opened d" "snapshot d = Some s" "body d = (ok, d')"
  shows "opened d'" and "ok \<Longrightarrow> snapshot d' = Some s \<and> effect (content d) = Some (content d')"
    and "\<not> ok \<Longrightarrow> durable d' = s"
    and "faults d = [] \<Longrightarrow> faults d' = [] \<and> (ok \<longleftrightarrow> effect (content d) \<noteq> None)"
  using assms unfolding runs_def by blast+

lemma runs_exec: "runs (gsignond_db_metadata_database_exec s) (run_statements [s])"
proof -
  have "opened d' \<and> (ok \<longrightarrow> snapshot d' = Some x \<and> run_statements [s] (content d) = Some (content d')) \<and>
     (\<not> ok \<longrightarrow> durable d' = x) \<and>
     (faults d = [] \<longrightarrow> faults d' = [] \<and> (ok \<longleftrightarrow> run_statements [s] (content d) \<noteq> None))"
    if "opened d" "snapshot d = Some x" "gsignond_db_metadata_database_exec s d = (ok, d')" for d x ok d'
  proof -
    obtain k d1 where "sqlite_exec [s] d = (k, d1)" by force
    with sqlite_exec_snapshot [OF this] that show ?thesis
      by (cases k) (auto simp: gsignond_db_metadata_database_exec_def gsignond_db_sql_database_exec_def
          durable_def split: option.splits)
  qed
  then show ?thesis unfolding runs_def by blast
qed

lemma runs_seq:
  assumes "runs f e" "runs g e'"
  shows "runs (\<lambda>d. case f d of (False, d) \<Rightarrow> (False, d) | (True, d) \<Rightarrow> g d) (\<lambda>c. Option.bind (e c) e')"
  unfolding runs_def
proof (intro allI impI, goal_cases)
  case (1 d s ok d')
  obtain ok1 d1 where f: "f d = (ok1, d1)" by force
  note F = runsD [OF assms(1) 1(1,2) f]
  show ?case
  proof (cases ok1)
    case True
    with 1(3) f have "g d1 = (ok, d')" by simp
    with True F runsD [OF assms(2) F(1) _ this] show ?thesis by auto
  next
    case False
    with 1 f F show ?thesis by auto
  qed
qed

lemma transaction_of_runs:
  assumes "runs body effect"
  shows "atomic_write (in_transaction body) effect"
proof -
  have main: "opened d' = opened d \<and>
      (if ok then opened d \<and> snapshot d = None \<and> snapshot d' = None \<and> effect (content d) = Some (content d')
       else durable d' = durable d) \<and>
      (faults d = [] \<and> opened d \<and> snapshot d = None \<longrightarrow>
         faults d' = [] \<and> (ok \<longleftrightarrow> effect (content d) \<noteq> None) \<and> snapshot d' = None)"
    if r: "in_transaction body d = (ok, d')" for d ok d'
  proof -
    obtain b d1 where b: "gsignond_db_sql_database_start_transaction d = (b, d1)" by force
    note S = start_result [OF b]
    show ?thesis
    proof (cases b)
      case False
      with r b S show ?thesis by (cases "snapshot d") (auto simp: in_transaction_def durable_def)
    next
      case True
      with S have d1: "opened d1" "snapshot d1 = Some (content d)" "content d1 = content d"
        "durable d = content d" "opened d" "snapshot d = None" "faults d = [] \<Longrightarrow> faults d1 = []"
        by (auto simp: durable_def)
      obtain k d2 where k: "body d1 = (k, d2)" by force
      note B = runsD [OF assms d1(1,2) k]
      show ?thesis
      proof (cases k)
        case k: True
        with r b \<open>b\<close> \<open>body d1 = (k, d2)\<close> have "gsignond_db_sql_database_commit_transaction d2 = (ok, d')"
          by (simp add: in_transaction_def)
        from commit_result [OF this] B k d1 show ?thesis by (auto simp: durable_def split: if_splits)
      next
        case k: False
        obtain x d3 where x: "gsignond_db_sql_database_rollback_transaction d2 = (x, d3)" by force
        with r b \<open>b\<close> \<open>body d1 = (k, d2)\<close> k have "ok = False" "d' = d3"
          by (simp_all add: in_transaction_def roll_back_FALSE_def)
        with rollback_result [OF x] B k d1 show ?thesis by auto
      qed
    qed
  qed
  show ?thesis
  proof (unfold_locales, goal_cases)
    case (1 d d') with main [OF 1] show ?case by simp
  next
    case (2 d d') with main [OF 2] show ?case by simp
  next
    case (3 d) show ?case using main [OF prod.collapse [symmetric], of d] by (rule conjunct1)
  next
    case (4 d) with main [OF prod.collapse [symmetric], of d] show ?case by blast
  qed
qed

definition insert_reference_effect :: "int \<Rightarrow> security_context \<Rightarrow> string \<Rightarrow> meta_content \<Rightarrow> meta_content option" where
  "insert_reference_effect i ctx ref = run_statements [insert_or_ignore_secctx ctx, insert_ref i ctx ref]"

interpretation reference_insertion: atomic_write
    "gsignond_db_metadata_database_insert_reference ident ctx ref"
    "insert_reference_effect (uint ident) ctx ref" for ident ctx ref
proof -
  have eff: "insert_reference_effect (uint ident) ctx ref =
      (\<lambda>c. Option.bind (run_statements [insert_or_ignore_secctx ctx] c) (run_statements [insert_ref (uint ident) ctx ref]))"
    by (auto simp: insert_reference_effect_def fun_eq_iff split: stmt_result.split)
  have "gsignond_db_metadata_database_insert_reference ident ctx ref = if_open False (in_transaction (\<lambda>d.
      case gsignond_db_metadata_database_exec (insert_or_ignore_secctx ctx) d of
        (False, d) \<Rightarrow> (False, d) | (True, d) \<Rightarrow> gsignond_db_metadata_database_exec (insert_ref (uint ident) ctx ref) d))"
  proof (rule ext)
    fix d :: meta_db
    obtain b d1 where b: "gsignond_db_sql_database_start_transaction d = (b, d1)" by force
    obtain e d2 where e: "gsignond_db_metadata_database_exec (insert_or_ignore_secctx ctx) d1 = (e, d2)" by force
    show "gsignond_db_metadata_database_insert_reference ident ctx ref d = if_open False (in_transaction (\<lambda>d.
      case gsignond_db_metadata_database_exec (insert_or_ignore_secctx ctx) d of
        (False, d) \<Rightarrow> (False, d) | (True, d) \<Rightarrow> gsignond_db_metadata_database_exec (insert_ref (uint ident) ctx ref) d)) d"
      by (cases "opened d"; cases b; cases e)
         (simp_all add: gsignond_db_metadata_database_insert_reference_def in_transaction_def b e)
  qed
  then show "atomic_write (gsignond_db_metadata_database_insert_reference ident ctx ref)
      (insert_reference_effect (uint ident) ctx ref)"
    unfolding eff by (simp only:) (intro if_open_atomic transaction_of_runs runs_seq runs_exec)
qed

text \<open>A list of strings that is read is a prefix of the answer, whatever calls fail.\<close>

lemma strings_stmt:
  "gsignond_db_sql_database_query_exec_stmt rows gsignond_db_read_strings u d = (n, u', d') \<Longrightarrow>
     \<exists>k. u' = u @ take k rows"
proof (induction rows gsignond_db_read_strings u d arbitrary: n u' d'
    rule: gsignond_db_sql_database_query_exec_stmt.induct)
  case (1 u d)
  then have "u' = u @ take 0 []" by (auto split: prod.splits if_splits)
  then show ?case by blast
next
  case (2 row rows u d)
  obtain ret d1 where c: "sqlite_call d = (ret, d1)" by force
  show ?case
  proof (cases "ret = SQLITE_OK")
    case True
    obtain n2 u2 d2 where r: "gsignond_db_sql_database_query_exec_stmt rows gsignond_db_read_strings (u @ [row]) d1 = (n2, u2, d2)"
      by (metis prod_cases3)
    from 2(1) [OF c [symmetric] True, of True "u @ [row]"] r obtain k where "u2 = (u @ [row]) @ take k rows"
      by (auto simp: gsignond_db_read_strings_def)
    moreover have "u' = u2" using 2(2) c True r by (simp add: gsignond_db_read_strings_def)
    ultimately have "u' = u @ take (Suc k) (row # rows)" by simp
    then show ?thesis by blast
  next
    case False
    with 2(2) c have "u' = u @ take 0 (row # rows)" by simp
    then show ?thesis by blast
  qed
qed

lemma string_list_prefix:
  assumes "gsignond_db_sql_database_query_exec_string_list q d = (xs, d')"
  shows "set xs \<subseteq> set (q (content d))" and "same_data d d'"
proof -
  obtain n u d1 where e: "gsignond_db_sql_database_query_exec q gsignond_db_read_strings [] d = (n, u, d1)"
    by (metis prod_cases3)
  have xs: "xs = (if n = 0 then [] else u)" "d' = d1"
    using assms e by (auto simp: gsignond_db_sql_database_query_exec_string_list_def if_rows_eq split: if_splits)
  have "set u \<subseteq> set (q (content d))"
  proof -
    obtain ok d2 where p: "gsignond_db_sql_database_prepare_statement d = (ok, d2)" by force
    have "content d2 = content d"
      using p same_data_call by (auto simp: gsignond_db_sql_database_prepare_statement_def same_data_def
          split: if_splits prod.splits)
    with e p show ?thesis
      using strings_stmt [of "q (content d)" "[]" d2 n u d1] set_take_subset
      by (cases "opened d"; cases ok) (auto simp: gsignond_db_sql_database_query_exec_def dest!: in_set_takeD)
  qed
  with xs show "set xs \<subseteq> set (q (content d))" by auto
  show "same_data d d'" using same_data_query [OF e] xs by simp
qed

definition stored_refs :: "u32 \<Rightarrow> security_context \<Rightarrow> meta_content \<Rightarrow> cstr list" where
  "stored_refs ident ctx c = map (\<lambda>(i, x, r). Some r) (filter (\<lambda>(i, x, r). i = uint ident \<and>
     (sys_ctx ctx = '''' \<or> (x \<noteq> None \<and> x = secctx_id ctx c))) (refs_tbl c))"

definition remove_reference_effect :: "u32 \<Rightarrow> security_context \<Rightarrow> cstr \<Rightarrow> meta_content \<Rightarrow> meta_content option" where
  "remove_reference_effect ident ctx reference c =
     (if stored_refs ident ctx c = [] \<or> (reference \<noteq> None \<and> reference \<notin> set (stored_refs ident ctx c)) then None
      else run_statements [delete_refs (uint ident) ctx
             (if reference = None \<or> reference = Some '''' then None else Some None)] c)"

lemma get_references_result:
  assumes "opened d" "gsignond_db_metadata_database_get_references ident ctx d = (refs, d')"
  shows "set refs \<subseteq> set (stored_refs ident ctx (content d))" "same_data d d'"
    and "faults d = [] \<Longrightarrow> refs = stored_refs ident ctx (content d) \<and> faults d' = []"
proof -
  have r: "gsignond_db_sql_database_query_exec_string_list (stored_refs ident ctx) d = (refs, d')"
    using assms by (simp add: gsignond_db_metadata_database_get_references_def stored_refs_def [abs_def])
  from string_list_prefix [OF r]
  show "set refs \<subseteq> set (stored_refs ident ctx (content d))" "same_data d d'" .
  show "refs = stored_refs ident ctx (content d) \<and> faults d' = []" if "faults d = []"
    using string_list_ready [of d "stored_refs ident ctx"] that assms(1) r by (simp add: ready_def yields_def)
qed

interpretation reference_removal: atomic_write
    "gsignond_db_metadata_database_remove_reference ident ctx reference"
    "remove_reference_effect ident ctx reference" for ident ctx reference
proof -
  define body where "body = (\<lambda>d. case gsignond_db_metadata_database_get_references ident ctx d of (refs, d) \<Rightarrow>
      if refs = [] \<or> (reference \<noteq> None \<and> reference \<notin> set refs) then (False, d)
      else gsignond_db_metadata_database_exec (delete_refs (uint ident) ctx
            (if reference = None \<or> reference = Some '''' then None else Some None)) d)"
  have "gsignond_db_metadata_database_remove_reference ident ctx reference = if_open False (in_transaction body)"
  proof (rule ext)
    fix d :: meta_db
    obtain b d1 where b: "gsignond_db_sql_database_start_transaction d = (b, d1)" by force
    obtain refs d2 where r: "gsignond_db_metadata_database_get_references ident ctx d1 = (refs, d2)" by force
    show "gsignond_db_metadata_database_remove_reference ident ctx reference d = if_open False (in_transaction body) d"
      by (cases "opened d"; cases b)
         (auto simp: gsignond_db_metadata_database_remove_reference_def in_transaction_def body_def b r)
  qed
  moreover have "runs body (remove_reference_effect ident ctx reference)"
    unfolding runs_def
  proof (intro allI impI, goal_cases)
    case (1 d s ok d')
    obtain refs d1 where g: "gsignond_db_metadata_database_get_references ident ctx d = (refs, d1)" by force
    note G = get_references_result [OF 1(1) g]
    then have d1: "opened d1" "snapshot d1 = Some s" "content d1 = content d"
      using 1(1,2) by (auto simp: same_data_def)
    show ?case
    proof (cases "refs = [] \<or> (reference \<noteq> None \<and> reference \<notin> set refs)")
      case True
      with 1(3) g have "ok = False" "d' = d1" by (auto simp: body_def)
      with True G d1 show ?thesis by (auto simp: remove_reference_effect_def durable_def)
    next
      case False
      with 1(3) g have e: "gsignond_db_metadata_database_exec (delete_refs (uint ident) ctx
            (if reference = None \<or> reference = Some '''' then None else Some None)) d1 = (ok, d')"
        by (auto simp: body_def split: if_splits)
      have "stored_refs ident ctx (content d) \<noteq> []" "reference = None \<or> reference \<in> set (stored_refs ident ctx (content d))"
        using False G(1) by (metis empty_iff empty_set last_in_set subsetD, blast)
      then have "remove_reference_effect ident ctx reference (content d) =
          run_statements [delete_refs (uint ident) ctx
            (if reference = None \<or> reference = Some '''' then None else Some None)] (content d1)"
        by (auto simp: remove_reference_effect_def d1(3))
      with runsD [OF runs_exec d1(1,2) e] G(3) show ?thesis by simp
    qed
  qed
  ultimately show "atomic_write (gsignond_db_metadata_database_remove_reference ident ctx reference)
      (remove_reference_effect ident ctx reference)"
    by (simp only:) (intro if_open_atomic transaction_of_runs)
qed

subsection \<open>What the operations on references do\<close>

lemma secctx_after_interning:
  assumes "meta_ok c" "refers x (secctx_tbl c)"
  shows "(x \<noteq> None \<and> x = secctx_id y (attempt (insert_or_ignore_secctx ctx) c)) \<longleftrightarrow> (x \<noteq> None \<and> x = secctx_id y c)"
proof (cases "secctx_id y c")
  case (Some k)
  then have "secctx_id y (attempt (insert_or_ignore_secctx ctx) c) = secctx_id y c"
    by (intro interns_ids(3) interns_values(3)) simp
  then show ?thesis by simp
next
  case None
  have new: "x \<noteq> Some (secctx_seq c + 1)"
    using assms by (force simp: meta_ok_def table_ok_def refers_def)
  have "secctx_id y (attempt (insert_or_ignore_secctx ctx) c) \<in> {None, Some (secctx_seq c + 1)}"
    using None by (auto simp: attempt_def insert_or_ignore_secctx_def on_tables_def Let_def secctx_id_def
        id_of_def map_add_def split: option.splits)
  with None new show ?thesis by auto
qed

lemma insert_reference_tables:
  assumes "meta_ok c" "i \<in> identity_ids c"
  shows "\<exists>k. insert_reference_effect i ctx ref c = Some ((attempt (insert_or_ignore_secctx ctx) c)
      \<lparr>refs_tbl := filter (\<lambda>r. r \<noteq> (i, Some k, ref)) (refs_tbl c) @ [(i, Some k, ref)]\<rparr>) \<and>
    secctx_id ctx (attempt (insert_or_ignore_secctx ctx) c) = Some k"
proof -
  let ?c = "attempt (insert_or_ignore_secctx ctx) c"
  have t: "has_tables c" using assms(1) by (simp add: meta_ok_def)
  from values_done(3) [OF t, of ctx] have s: "insert_or_ignore_secctx ctx c = Done ?c"
    by (auto simp: attempt_def)
  have I: "interns c ?c" by simp
  then have c: "meta_ok ?c" "i \<in> identity_ids ?c" "refs_tbl ?c = refs_tbl c"
    using assms by (auto simp: interns_def identity_ids_def)
  from interned_ids(3) [OF t, of ctx] obtain k where k: "secctx_id ctx ?c = Some k" by blast
  let ?c' = "?c\<lparr>refs_tbl := filter (\<lambda>r. r \<noteq> (i, Some k, ref)) (refs_tbl ?c) @ [(i, Some k, ref)]\<rparr>"
  have "refers (Some k) (secctx_tbl ?c)" using k by (metis id_of_refers secctx_id_def)
  then have "insert_ref i ctx ref ?c = Done ?c'"
    using c(1,2) k by (auto simp: insert_ref_def insert_child_def on_tables_def checked_def meta_ok_def
        foreign_keys_ok_def Let_def)
  with s c(3) k show ?thesis by (simp add: insert_reference_effect_def)
qed

lemma secctx_id_refs [simp]: "secctx_id x (c\<lparr>refs_tbl := t\<rparr>) = secctx_id x c"
  by (simp add: secctx_id_def)

lemma run_keeps: "(\<And>s. s \<in> set ss \<Longrightarrow> keeps_meta s) \<Longrightarrow> meta_ok c \<Longrightarrow> run_statements ss c = Some c' \<Longrightarrow> meta_ok c'"
  by (induction ss arbitrary: c) (auto simp: keeps_meta_def split: stmt_result.splits)

lemma filter_map_eq:
  "(\<And>x. x \<in> set xs \<Longrightarrow> P x = Q x) \<Longrightarrow> (\<And>x. x \<in> set xs \<Longrightarrow> Q x \<Longrightarrow> f x = g x) \<Longrightarrow>
     map f (filter P xs) = map g (filter Q xs)"
  by (induction xs) auto

lemma references_grow:
  assumes "meta_ok c" "sys_ctx ctx \<noteq> ''''" "secctx_id ctx c1 = Some k"
    and c1: "c1 = attempt (insert_or_ignore_secctx ctx) c"
    and c': "c' = c1\<lparr>refs_tbl := filter (\<lambda>r. r \<noteq> (uint ident, Some k, ref)) (refs_tbl c) @ [(uint ident, Some k, ref)]\<rparr>"
  shows "stored_refs ident ctx c' = filter (\<lambda>r. r \<noteq> Some ref) (stored_refs ident ctx c) @ [Some ref]"
    and "j \<noteq> ident \<Longrightarrow> stored_refs j x c' = stored_refs j x c"
proof -
  let ?i = "uint ident"
  have fk: "refers x (secctx_tbl c)" if "(i, x, s) \<in> set (refs_tbl c)" for i x s
    using assms(1) that by (auto simp: meta_ok_def foreign_keys_ok_def)
  note known = secctx_after_interning [OF assms(1) fk, of _ _ _ _ ctx, folded c1]
  have "stored_refs ident ctx c' =
      map (\<lambda>(i, x, r). Some r) (filter (\<lambda>(i, x, r). i = ?i \<and> x = Some k)
        (filter (\<lambda>r. r \<noteq> (?i, Some k, ref)) (refs_tbl c))) @ [Some ref]"
    using assms(2,3) by (auto simp: stored_refs_def c' intro!: filter_map_eq)
  also have "map (\<lambda>(i, x, r). Some r) (filter (\<lambda>(i, x, r). i = ?i \<and> x = Some k)
        (filter (\<lambda>r. r \<noteq> (?i, Some k, ref)) (refs_tbl c))) =
      map (\<lambda>(i, x, r). Some r) (filter (\<lambda>(i, x, r). Some r \<noteq> Some ref \<and> i = ?i \<and>
        x \<noteq> None \<and> x = secctx_id ctx c) (refs_tbl c))"
    unfolding filter_filter
  proof (rule filter_map_eq, goal_cases)
    case (1 p)
    obtain j x s where p: "p = (j, x, s)" by (metis prod_cases3)
    with 1 have "x = Some k \<longleftrightarrow> x \<noteq> None \<and> x = secctx_id ctx c"
      using known [of j x s ctx] assms(3) by auto
    then show ?case by (auto simp: p)
  qed simp
  also have "\<dots> = filter (\<lambda>r. r \<noteq> Some ref) (stored_refs ident ctx c)"
    using assms(2) by (simp add: stored_refs_def filter_map filter_filter comp_def case_prod_unfold conj_ac)
  finally show "stored_refs ident ctx c' = filter (\<lambda>r. r \<noteq> Some ref) (stored_refs ident ctx c) @ [Some ref]" .
  show "stored_refs j x c' = stored_refs j x c" if "j \<noteq> ident"
  proof -
    have "uint j \<noteq> ?i" using that by (metis word_uint_eqI)
    then have "stored_refs j x c' = map (\<lambda>(i, x, r). Some r) (filter (\<lambda>(i, y, r). i = uint j \<and>
        (sys_ctx x = '''' \<or> (y \<noteq> None \<and> y = secctx_id x c1))) (refs_tbl c))"
      by (auto simp: stored_refs_def c' filter_filter intro!: filter_map_eq)
    also have "\<dots> = stored_refs j x c"
      unfolding stored_refs_def by (rule filter_map_eq) (use known [of _ _ _ x] in \<open>auto split: prod.split\<close>)
    finally show ?thesis .
  qed
qed

lemma references_read:
  "healthy e \<Longrightarrow> fst (gsignond_db_metadata_database_get_references j x e) = stored_refs j x (content e)"
  using get_references_result(3) [of e j x "fst (gsignond_db_metadata_database_get_references j x e)"
      "snd (gsignond_db_metadata_database_get_references j x e)"] by (simp add: healthy_def)

lemma reference_insertion_outcome:
  assumes "healthy d" "meta_ok (content d)" "uint ident \<in> identity_ids (content d)" "sys_ctx ctx \<noteq> ''''"
  shows "let (ok, d') = gsignond_db_metadata_database_insert_reference ident ctx ref d
     in ok \<and> healthy d' \<and> meta_ok (content d') \<and>
        fst (gsignond_db_metadata_database_get_references ident ctx d') =
          filter (\<lambda>r. r \<noteq> Some ref) (fst (gsignond_db_metadata_database_get_references ident ctx d)) @ [Some ref] \<and>
        (\<forall>j x. j \<noteq> ident \<longrightarrow> fst (gsignond_db_metadata_database_get_references j x d') =
           fst (gsignond_db_metadata_database_get_references j x d))"
proof -
  let ?c = "content d" and ?i = "uint ident"
  let ?c1 = "attempt (insert_or_ignore_secctx ctx) ?c"
  obtain ok d' where r: "gsignond_db_metadata_database_insert_reference ident ctx ref d = (ok, d')" by force
  from insert_reference_tables [OF assms(2,3)] obtain k where
    k: "insert_reference_effect ?i ctx ref ?c = Some (?c1\<lparr>refs_tbl := filter (\<lambda>r. r \<noteq> (?i, Some k, ref)) (refs_tbl ?c)
      @ [(?i, Some k, ref)]\<rparr>)" "secctx_id ctx ?c1 = Some k" by blast
  from reference_insertion.write_healthy [OF assms(1), of ident ctx ref] r k(1)
  have d': "ok" "healthy d'" "content d' = ?c1\<lparr>refs_tbl := filter (\<lambda>r. r \<noteq> (?i, Some k, ref)) (refs_tbl ?c)
      @ [(?i, Some k, ref)]\<rparr>" by auto
  have ok: "meta_ok (content d')"
    using k(1) [unfolded insert_reference_effect_def]
    by (intro run_keeps [OF _ assms(2), of "[insert_or_ignore_secctx ctx, insert_ref ?i ctx ref]"])
       (auto simp: keeps d'(3) simp del: run_statements.simps)
  show ?thesis
    using d'(1,2) ok references_grow [OF assms(2,4) k(2) refl d'(3)] by (simp add: r references_read assms(1))
qed

text \<open>
  A reference of a known identity is stored: the call succeeds, the context's references of
  the identity are those from before and the new one, once and last, and those of the other identities
  are as before.
\<close>

lemma reference_inserted:
  assumes "healthy d" "meta_ok (content d)" "uint ident \<in> identity_ids (content d)" "sys_ctx ctx \<noteq> ''''"
  shows "let (ok, d') = gsignond_db_metadata_database_insert_reference ident ctx ref d
     in ok \<and> healthy d' \<and> meta_ok (content d') \<and>
        fst (gsignond_db_metadata_database_get_references ident ctx d') =
          filter (\<lambda>r. r \<noteq> Some ref) (fst (gsignond_db_metadata_database_get_references ident ctx d)) @ [Some ref] \<and>
        (\<forall>j x. j \<noteq> ident \<longrightarrow> fst (gsignond_db_metadata_database_get_references j x d') =
           fst (gsignond_db_metadata_database_get_references j x d))"
  by (rule reference_insertion_outcome [OF assms])

text \<open>
  Whether the deletion of the references of \<open>ctx\<close> in identity \<open>i\<close> leaves the context to the other
  rows of REFS: the trigger does not look at them.
\<close>

definition refs_blocked :: "int \<Rightarrow> security_context \<Rightarrow> meta_content \<Rightarrow> bool" where
  "refs_blocked i ctx c \<longleftrightarrow> (\<exists>(j, x, r) \<in> set (refs_tbl c). j \<noteq> i \<and> x \<noteq> None \<and> x = secctx_id ctx c) \<and>
     secctx_id ctx c \<notin> set (acl_contexts c @ owner_contexts c)"

lemma remove_refs_none: "(\<And>r. r \<in> set (refs_tbl c) \<Longrightarrow> \<not> P r) \<Longrightarrow> remove_refs P c = c"
  by (simp add: remove_refs_def drop_stale_def)

lemma refers_filter: "refers x (filter P tbl) \<longleftrightarrow> (case x of None \<Rightarrow> True | Some k \<Rightarrow> \<exists>v. (k, v) \<in> set tbl \<and> P (k, v))"
  by (force simp: refers_def split: option.split)

lemma delete_refs_keys:
  assumes "meta_ok c" "stored_refs ident ctx c \<noteq> []" "sys_ctx ctx \<noteq> ''''"
  defines "P \<equiv> (\<lambda>(j, x, r). j = uint ident \<and> x \<noteq> None \<and> x = secctx_id ctx c)"
  shows "foreign_keys_ok (remove_refs P c) \<longleftrightarrow> \<not> refs_blocked (uint ident) ctx c"
proof -
  from assms(2,3) obtain k ref where k: "secctx_id ctx c = Some k" "(uint ident, Some k, ref) \<in> set (refs_tbl c)"
    by (auto simp: stored_refs_def filter_empty_conv)
  have olds: "Some j \<in> set (map (fst \<circ> snd) (filter P (refs_tbl c))) \<longleftrightarrow> j = k" for j
    using k by (auto simp: P_def image_iff intro: bexI [of _ "(uint ident, Some k, ref)"])
  have secctx: "secctx_tbl (remove_refs P c) =
      filter (\<lambda>r. \<not> (fst r = k \<and> Some k \<notin> set (acl_contexts c @ owner_contexts c))) (secctx_tbl c)"
    unfolding remove_refs_def Let_def drop_stale_def
    by (simp only: olds) (auto intro: filter_cong)
  have other: "identity_ids (remove_refs P c) = identity_ids c" "methods_tbl (remove_refs P c) = methods_tbl c"
    "mechanisms_tbl (remove_refs P c) = mechanisms_tbl c" "realms_tbl (remove_refs P c) = realms_tbl c"
    "acl_tbl (remove_refs P c) = acl_tbl c" "owner_tbl (remove_refs P c) = owner_tbl c"
    "refs_tbl (remove_refs P c) = filter (\<lambda>r. \<not> P r) (refs_tbl c)"
    by (simp_all add: remove_refs_def drop_stale_def Let_def)
  have fk: "foreign_keys_ok c" using assms(1) by (simp add: meta_ok_def)
  have keeps: "refers x (secctx_tbl (remove_refs P c)) \<longleftrightarrow>
      \<not> (x = Some k \<and> Some k \<notin> set (acl_contexts c @ owner_contexts c))" if "refers x (secctx_tbl c)" for x
  proof (cases x)
    case None
    then show ?thesis by (simp add: refers_def)
  next
    case (Some j)
    with that obtain s a where "(j, s, a) \<in> set (secctx_tbl c)" by (auto simp: refers_def)
    then show ?thesis unfolding secctx refers_filter Some option.case by (auto simp del: set_append)
  qed
  define used where "used = (Some k \<in> set (acl_contexts c @ owner_contexts c))"
  have keep: "refers x (secctx_tbl (remove_refs P c)) \<longleftrightarrow> \<not> (x = Some k \<and> \<not> used)" if "refers x (secctx_tbl c)" for x
    using keeps [OF that] by (simp add: used_def)
  have "refers (acl_secctx r) (secctx_tbl (remove_refs P c))" if "r \<in> set (acl_tbl c)" for r
  proof -
    have "acl_secctx r \<in> set (acl_contexts c)" "refers (acl_secctx r) (secctx_tbl c)"
      using that fk by (simp_all add: acl_contexts_def foreign_keys_ok_def)
    then show ?thesis by (auto simp: keep used_def)
  qed
  moreover have "refers (snd r) (secctx_tbl (remove_refs P c))" if "r \<in> set (owner_tbl c)" for r
  proof -
    have "snd r \<in> set (owner_contexts c)" "refers (snd r) (secctx_tbl c)"
      using that fk by (simp_all add: owner_contexts_def foreign_keys_ok_def)
    then show ?thesis by (auto simp: keep used_def)
  qed
  ultimately have "foreign_keys_ok (remove_refs P c) \<longleftrightarrow>
      (\<forall>r \<in> set (refs_tbl c). \<not> P r \<longrightarrow> refers (fst (snd r)) (secctx_tbl (remove_refs P c)))"
    using fk unfolding foreign_keys_ok_def other set_filter by (simp del: split_paired_All split_paired_Ex) blast
  also have "\<dots> \<longleftrightarrow> (\<forall>r \<in> set (refs_tbl c). fst (snd r) = Some k \<longrightarrow> used \<or> fst r = uint ident)"
    using fk keep by (intro ball_cong refl) (auto simp: P_def k(1) foreign_keys_ok_def)
  also have "\<dots> \<longleftrightarrow> \<not> refs_blocked (uint ident) ctx c"
    by (auto simp: refs_blocked_def k(1) used_def)
  finally show ?thesis .
qed

lemma no_refs_left:
  assumes "meta_ok c" "sys_ctx ctx \<noteq> ''''"
  shows "stored_refs ident ctx (remove_refs (\<lambda>(j, x, r). j = uint ident \<and> x \<noteq> None \<and> x = secctx_id ctx c) c) = []"
    (is "stored_refs ident ctx (remove_refs ?P c) = []")
proof -
  have "x \<noteq> secctx_id ctx (remove_refs ?P c)" if "(uint ident, x, s) \<in> set (refs_tbl (remove_refs ?P c))" "x \<noteq> None" for x s
  proof
    assume x: "x = secctx_id ctx (remove_refs ?P c)"
    with that(2) obtain k where k: "x = Some k" "secctx_id ctx (remove_refs ?P c) = Some k" by auto
    from k(2) have "(k, sys_ctx ctx, app_ctx ctx) \<in> set (secctx_tbl (remove_refs ?P c))"
      unfolding secctx_id_def by (rule id_of_Some_in)
    then have "(k, sys_ctx ctx, app_ctx ctx) \<in> set (secctx_tbl c)"
      by (simp add: remove_refs_def drop_stale_def Let_def)
    then have "secctx_id ctx c = Some k"
      using tables_unique(3,4) [OF assms(1)] by simp
    with that k(1) show False by (simp add: remove_refs_def drop_stale_def Let_def)
  qed
  then show ?thesis using assms(2) by (auto simp: stored_refs_def filter_empty_conv)
qed

lemma remove_reference_cases:
  assumes "meta_ok c" "sys_ctx ctx \<noteq> ''''"
  shows "remove_reference_effect ident ctx reference c =
    (let refs = stored_refs ident ctx c
     in if refs = [] \<or> (reference \<noteq> None \<and> reference \<notin> set refs) then None
        else if reference \<noteq> None \<and> reference \<noteq> Some '''' then Some c
        else if refs_blocked (uint ident) ctx c then None
        else Some (remove_refs (\<lambda>(j, x, r). j = uint ident \<and> x \<noteq> None \<and> x = secctx_id ctx c) c))"
proof -
  have t: "has_tables c" "foreign_keys_ok c" using assms(1) by (auto simp: meta_ok_def)
  have none: "delete_refs (uint ident) ctx (Some None) c = Done c"
    using t remove_refs_none [of c "\<lambda>(j, x, r). j = uint ident \<and> x \<noteq> None \<and> x = secctx_id ctx c \<and> False"]
    by (simp add: delete_refs_def on_tables_def checked_def case_prod_unfold)
  have all: "delete_refs (uint ident) ctx None c =
      checked (remove_refs (\<lambda>(j, x, r). j = uint ident \<and> x \<noteq> None \<and> x = secctx_id ctx c) c)"
    using t by (simp add: delete_refs_def on_tables_def)
  show ?thesis
  proof (cases "reference = None \<or> reference = Some ''''")
    case True
    then show ?thesis using all delete_refs_keys [OF assms(1) _ assms(2), of ident]
      by (auto simp: remove_reference_effect_def checked_def Let_def)
  next
    case False
    then show ?thesis using none by (auto simp: remove_reference_effect_def Let_def)
  qed
qed

lemma remove_reference_meta:
  "meta_ok c \<Longrightarrow> remove_reference_effect ident ctx reference c = Some c' \<Longrightarrow> meta_ok c'"
  using run_keeps [of "[delete_refs (uint ident) ctx (if reference = None \<or> reference = Some '''' then None else Some None)]" c c']
    keeps_deletes(3) by (simp add: remove_reference_effect_def split: if_splits)

text \<open>
  Removing references: without a reference, or with the empty one if it is stored, all the
  references of the context go, unless another identity has references of the same context that is in
  no access control list and owns no identity: then the trigger would leave a dangling key, nothing
  is removed and the call fails. With any other reference that is stored the call succeeds and
  nothing is removed, since the statement never gets the value; with one that is not stored it fails.
\<close>

lemma references_removed:
  assumes "healthy d" "meta_ok (content d)" "sys_ctx ctx \<noteq> ''''"
  shows "let refs = fst (gsignond_db_metadata_database_get_references ident ctx d);
             (ok, d') = gsignond_db_metadata_database_remove_reference ident ctx reference d;
             present = (refs \<noteq> [] \<and> (reference = None \<or> reference \<in> set refs));
             all_refs = (reference = None \<or> reference = Some '''')
     in healthy d' \<and> meta_ok (content d') \<and>
        (ok \<longleftrightarrow> present \<and> (all_refs \<longrightarrow> \<not> refs_blocked (uint ident) ctx (content d))) \<and>
        (ok \<and> all_refs \<longrightarrow> fst (gsignond_db_metadata_database_get_references ident ctx d') = []) \<and>
        (\<not> (ok \<and> all_refs) \<longrightarrow> content d' = content d)"
proof -
  let ?c = "content d"
  obtain ok d' where r: "gsignond_db_metadata_database_remove_reference ident ctx reference d = (ok, d')" by force
  from reference_removal.write_healthy [OF assms(1), of ident ctx reference, unfolded r fst_conv snd_conv]
  have d': "healthy d'" "case remove_reference_effect ident ctx reference ?c of
      None \<Rightarrow> \<not> ok \<and> content d' = ?c | Some c \<Rightarrow> ok \<and> content d' = c" by blast+
  have "meta_ok (content d')"
    using d'(2) assms(2) remove_reference_meta [of ?c]
    by (cases "remove_reference_effect ident ctx reference ?c") auto
  then show ?thesis
    using d' no_refs_left [OF assms(2,3)]
    by (auto simp: r references_read assms(1) remove_reference_cases [OF assms(2,3)] Let_def split: if_splits)
qed

text \<open>The identity of the example, stored, as a database to run on.\<close>

definition stored_example :: meta_db where
  "stored_example = snd (gsignond_db_metadata_database_update_identity example_identity example_database)"

lemma stored_example_ok: "healthy stored_example" "meta_ok (content stored_example)"
  "uint (1 :: u32) \<in> identity_ids (content stored_example)"
proof -
  let ?r = "gsignond_db_metadata_database_update_identity example_identity example_database"
  have "stored_id example_identity (content example_database) = 1"
    using example_identity_storable(1) by (simp add: stored_id_def example_database_ok)
  moreover from identity_update_outcome [OF example_database_ok(2) example_identity_storable(3)]
  have "healthy (snd ?r)" "meta_ok (durable (snd ?r))" "snapshot (snd ?r) = None"
    "uint (stored_id example_identity (content example_database)) \<in> identity_ids (durable (snd ?r))"
    using example_database_ok(1) example_identity_storable(2,4) by (auto simp: Let_def split: prod.splits)
  ultimately show "healthy stored_example" "meta_ok (content stored_example)"
    "uint (1 :: u32) \<in> identity_ids (content stored_example)"
    by (simp_all add: stored_example_def durable_def)
qed

lemma reference_inserted_witness:
  "fst (gsignond_db_metadata_database_insert_reference 1 example_owner ''mail'' stored_example)"
  using reference_inserted [OF stored_example_ok, of example_owner "''mail''"]
  by (simp add: Let_def example_owner_def split: prod.splits)

lemma references_removed_witness:
  "fst (gsignond_db_metadata_database_remove_reference 1 example_owner (Some ''mail'')
     (snd (gsignond_db_metadata_database_insert_reference 1 example_owner ''mail'' stored_example)))"
proof -
  let ?d = "snd (gsignond_db_metadata_database_insert_reference 1 example_owner ''mail'' stored_example)"
  have sys: "sys_ctx example_owner \<noteq> ''''" by (simp add: example_owner_def)
  have d: "healthy ?d" "meta_ok (content ?d)"
    "Some ''mail'' \<in> set (fst (gsignond_db_metadata_database_get_references 1 example_owner ?d))"
    using reference_insertion_outcome [OF stored_example_ok sys, of "''mail''"] by (simp_all add: Let_def split: prod.splits)
  from references_removed [OF d(1,2) sys, of 1 "Some ''mail''"] d(3) show ?thesis
    by (auto simp: Let_def split: prod.splits)
qed

subsection \<open>Removing an identity\<close>

definition contexts_of :: "int \<Rightarrow> meta_content \<Rightarrow> int option set" where
  "contexts_of i c = acl_secctx ` {r \<in> set (acl_tbl c). acl_identity r = i} \<union>
     {x. \<exists>s. (i, x, s) \<in> set (refs_tbl c)} \<union> {x. (i, x) \<in> set (owner_tbl c)}"

lemma cascade_step:
  "realms_tbl (cascade_delete i o1 c) = (if o1 = On_realms then filter (\<lambda>r. fst r \<noteq> i) (realms_tbl c) else realms_tbl c)"
  "acl_tbl (cascade_delete i o1 c) = (if o1 = On_acl then filter (\<lambda>r. acl_identity r \<noteq> i) (acl_tbl c) else acl_tbl c)"
  "refs_tbl (cascade_delete i o1 c) = (if o1 = On_refs then filter (\<lambda>r. fst r \<noteq> i) (refs_tbl c) else refs_tbl c)"
  "owner_tbl (cascade_delete i o1 c) = (if o1 = On_owner then filter (\<lambda>r. fst r \<noteq> i) (owner_tbl c) else owner_tbl c)"
  "contexts_of i (cascade_delete i o1 c) \<subseteq> contexts_of i c"
  "r \<in> set (secctx_tbl c) \<Longrightarrow> Some (fst r) \<notin> contexts_of i c \<Longrightarrow> r \<in> set (secctx_tbl (cascade_delete i o1 c))"
proof -
  show "realms_tbl (cascade_delete i o1 c) = (if o1 = On_realms then filter (\<lambda>r. fst r \<noteq> i) (realms_tbl c) else realms_tbl c)"
    and acl: "acl_tbl (cascade_delete i o1 c) = (if o1 = On_acl then filter (\<lambda>r. acl_identity r \<noteq> i) (acl_tbl c) else acl_tbl c)"
    and refs: "refs_tbl (cascade_delete i o1 c) = (if o1 = On_refs then filter (\<lambda>r. fst r \<noteq> i) (refs_tbl c) else refs_tbl c)"
    and owner: "owner_tbl (cascade_delete i o1 c) = (if o1 = On_owner then filter (\<lambda>r. fst r \<noteq> i) (owner_tbl c) else owner_tbl c)"
    by (cases o1; simp add: remove_realms_def remove_acl_def remove_refs_def remove_owner_def drop_stale_def Let_def)+
  show "contexts_of i (cascade_delete i o1 c) \<subseteq> contexts_of i c"
    unfolding contexts_of_def acl refs owner by auto
  show "r \<in> set (secctx_tbl (cascade_delete i o1 c))" if "r \<in> set (secctx_tbl c)" "Some (fst r) \<notin> contexts_of i c"
    using that
    by (cases o1) (auto simp: contexts_of_def remove_realms_def remove_acl_def remove_refs_def remove_owner_def
        drop_stale_def Let_def image_iff)
qed

lemma cascade_all:
  "realms_tbl (fold (cascade_delete i) order c) =
     (if On_realms \<in> set order then filter (\<lambda>r. fst r \<noteq> i) (realms_tbl c) else realms_tbl c)"
  "acl_tbl (fold (cascade_delete i) order c) =
     (if On_acl \<in> set order then filter (\<lambda>r. acl_identity r \<noteq> i) (acl_tbl c) else acl_tbl c)"
  "refs_tbl (fold (cascade_delete i) order c) =
     (if On_refs \<in> set order then filter (\<lambda>r. fst r \<noteq> i) (refs_tbl c) else refs_tbl c)"
  "owner_tbl (fold (cascade_delete i) order c) =
     (if On_owner \<in> set order then filter (\<lambda>r. fst r \<noteq> i) (owner_tbl c) else owner_tbl c)"
  "r \<in> set (secctx_tbl c) \<Longrightarrow> Some (fst r) \<notin> contexts_of i c \<Longrightarrow>
     r \<in> set (secctx_tbl (fold (cascade_delete i) order c))"
proof (induction order arbitrary: c)
  case (Cons o1 order)
  {
    case 1 show ?case using cascade_step(1) [of i o1 c] by (cases "o1 = On_realms") (simp_all add: Cons.IH(1) del: cascade_delete.simps)
  next
    case 2 show ?case using cascade_step(2) [of i o1 c] by (cases "o1 = On_acl") (simp_all add: Cons.IH(2) del: cascade_delete.simps)
  next
    case 3 show ?case using cascade_step(3) [of i o1 c] by (cases "o1 = On_refs") (simp_all add: Cons.IH(3) del: cascade_delete.simps)
  next
    case 4 show ?case using cascade_step(4) [of i o1 c] by (cases "o1 = On_owner") (simp_all add: Cons.IH(4) del: cascade_delete.simps)
  next
    case 5
    have "Some (fst r) \<notin> contexts_of i (cascade_delete i o1 c)" using 5(2) cascade_step(5) by blast
    with Cons.IH(5) cascade_step(6) [OF 5] show ?case by simp
  }
qed simp_all

text \<open>The rows of other identities.\<close>

definition without_identity :: "int \<Rightarrow> meta_content \<Rightarrow> meta_content \<Rightarrow> bool" where
  "without_identity i c c' \<longleftrightarrow>
     identity_tbl c' = filter (\<lambda>r. fst r \<noteq> i) (identity_tbl c) \<and>
     realms_tbl c' = filter (\<lambda>r. fst r \<noteq> i) (realms_tbl c) \<and>
     acl_tbl c' = filter (\<lambda>r. acl_identity r \<noteq> i) (acl_tbl c) \<and>
     refs_tbl c' = filter (\<lambda>r. fst r \<noteq> i) (refs_tbl c) \<and>
     owner_tbl c' = filter (\<lambda>r. fst r \<noteq> i) (owner_tbl c)"

lemma remove_row_tables:
  assumes "meta_ok c" "set order = UNIV"
  shows "without_identity i c (remove_identity_row order i c)"
proof (cases "i \<in> identity_ids c")
  case True
  let ?c = "c\<lparr>identity_tbl := filter (\<lambda>r. fst r \<noteq> i) (identity_tbl c)\<rparr>"
  have "same_ids ?c (remove_identity_row order i c)"
    using True same_ids_cascade by (simp add: remove_identity_row_def)
  with True assms(2) show ?thesis
    by (simp add: without_identity_def same_ids_def remove_identity_row_def cascade_all)
next
  case False
  then have "remove_identity_row order i c = c" by (simp add: remove_identity_row_def)
  moreover have "filter (\<lambda>r. fst r \<noteq> i) (identity_tbl c) = identity_tbl c"
    using False by (auto simp: identity_ids_def intro!: filter_True)
  moreover have "filter (\<lambda>r. fst r \<noteq> i) (realms_tbl c) = realms_tbl c" "filter (\<lambda>r. acl_identity r \<noteq> i) (acl_tbl c) = acl_tbl c"
    "filter (\<lambda>r. fst r \<noteq> i) (refs_tbl c) = refs_tbl c" "filter (\<lambda>r. fst r \<noteq> i) (owner_tbl c) = owner_tbl c"
    using False assms(1) by (auto simp: meta_ok_def foreign_keys_ok_def intro!: filter_True)
  ultimately show ?thesis by (simp add: without_identity_def)
qed

lemma remove_row_keys:
  assumes "meta_ok c" "set order = UNIV"
    and "\<And>j. j \<noteq> i \<Longrightarrow> contexts_of i c \<inter> contexts_of j c \<subseteq> {None}"
  shows "foreign_keys_ok (remove_identity_row order i c)"
proof (cases "i \<in> identity_ids c")
  case True
  let ?c = "c\<lparr>identity_tbl := filter (\<lambda>r. fst r \<noteq> i) (identity_tbl c)\<rparr>"
    and ?r = "remove_identity_row order i c"
  have fk: "foreign_keys_ok c" using assms(1) by (simp add: meta_ok_def)
  have same: "same_ids ?c ?r"
    using True same_ids_cascade by (simp add: remove_identity_row_def)
  then have tables: "methods_tbl ?r = methods_tbl c" "mechanisms_tbl ?r = mechanisms_tbl c"
    "identity_ids ?r = identity_ids c - {i}"
    by (auto simp: same_ids_def identity_ids_def)
  have W: "without_identity i c ?r" by (rule remove_row_tables [OF assms(1,2)])
  have keep: "refers x (secctx_tbl ?r)" if x: "refers x (secctx_tbl c)" "x \<in> contexts_of j c" "j \<noteq> i" for x j
  proof (cases x)
    case (Some k)
    with x(1) obtain v where v: "(k, v) \<in> set (secctx_tbl c)" by (auto simp: refers_def)
    have "Some k \<notin> contexts_of i c" using assms(3) [OF x(3)] x(2) Some by auto
    moreover have "contexts_of i ?c = contexts_of i c" by (simp add: contexts_of_def)
    ultimately have "(k, v) \<in> set (secctx_tbl (fold (cascade_delete i) order ?c))"
      using v by (intro cascade_all(5)) simp_all
    then show ?thesis using Some True by (force simp: refers_def remove_identity_row_def)
  qed (simp add: refers_def)
  have "refers (acl_secctx r) (secctx_tbl ?r)" if "r \<in> set (acl_tbl c)" "acl_identity r \<noteq> i" for r
    by (rule keep [of _ "acl_identity r"]) (use fk that in \<open>auto simp: foreign_keys_ok_def contexts_of_def\<close>)
  moreover have "refers x (secctx_tbl ?r)" if "(j, x, s) \<in> set (refs_tbl c)" "j \<noteq> i" for j x s
    by (rule keep [of _ j]) (use fk that in \<open>auto simp: foreign_keys_ok_def contexts_of_def\<close>)
  moreover have "refers x (secctx_tbl ?r)" if "(j, x) \<in> set (owner_tbl c)" "j \<noteq> i" for j x
    by (rule keep [of _ j]) (use fk that in \<open>auto simp: foreign_keys_ok_def contexts_of_def\<close>)
  ultimately show ?thesis
    using fk W unfolding foreign_keys_ok_def without_identity_def tables by auto
next
  case False
  then show ?thesis using assms(1) by (simp add: remove_identity_row_def meta_ok_def)
qed

interpretation identity_removal: atomic_write "gsignond_db_metadata_database_remove_identity order ident"
    "run_statements [delete_identity order (uint ident)]" for order ident
  unfolding gsignond_db_metadata_database_remove_identity_def by (rule transaction_atomic)

lemma remove_identity_result:
  assumes "healthy d" "meta_ok (content d)" "set order = UNIV"
  shows "let (ok, d') = gsignond_db_metadata_database_remove_identity order ident d
     in healthy d' \<and> meta_ok (content d') \<and>
        (ok \<longrightarrow> without_identity (uint ident) (content d) (content d') \<and>
           uint ident \<notin> identity_ids (content d') \<and>
           fst (gsignond_db_metadata_database_get_identity ident d') = None) \<and>
        (\<not> ok \<longrightarrow> content d' = content d) \<and>
        ((\<forall>j. j \<noteq> uint ident \<longrightarrow> contexts_of (uint ident) (content d) \<inter> contexts_of j (content d) \<subseteq> {None}) \<longrightarrow> ok)"
proof -
  let ?c = "content d" and ?i = "uint ident"
  obtain ok d' where r: "gsignond_db_metadata_database_remove_identity order ident d = (ok, d')" by force
  have t: "has_tables ?c" using assms(2) by (simp add: meta_ok_def)
  have stmt: "run_statements [delete_identity order ?i] ?c =
      (if foreign_keys_ok (remove_identity_row order ?i ?c) then Some (remove_identity_row order ?i ?c) else None)"
    using t by (simp add: delete_identity_def on_tables_def checked_def)
  from identity_removal.write_healthy [OF assms(1), of order ident, unfolded r fst_conv snd_conv stmt]
  have d': "healthy d'" and cases: "if foreign_keys_ok (remove_identity_row order ?i ?c)
      then ok \<and> content d' = remove_identity_row order ?i ?c else \<not> ok \<and> content d' = ?c"
    by (auto split: if_splits)
  note W = remove_row_tables [OF assms(2,3), of ?i]
  have ok: "meta_ok (content d')"
    using cases assms(2) run_keeps [of "[delete_identity order ?i]" ?c] stmt keeps_delete_identity by (auto split: if_splits)
  have gone: "fst (gsignond_db_metadata_database_get_identity ident d') = None" if "?i \<notin> identity_ids (content d')"
  proof -
    have row: "filter (\<lambda>r. fst r = ?i) (identity_tbl (content d')) = []"
      using that by (force simp: identity_ids_def filter_empty_conv)
    have "ready d'" using d' by (simp add: healthy_def ready_def)
    from query_ready [OF this, of gsignond_db_metadata_database_read_identity
        "\<lambda>r u. snd (gsignond_db_metadata_database_read_identity r u)"
        "\<lambda>c. map snd (filter (\<lambda>r. fst r = ?i) (identity_tbl c))" gsignond_identity_info_new] row d'
    show ?thesis
      by (simp add: gsignond_db_metadata_database_get_identity_def healthy_def yields_def
          gsignond_db_metadata_database_read_identity_def Let_def split: prod.splits)
  qed
  have "?i \<notin> identity_ids (content d')" if ok
    using W that cases by (auto simp: without_identity_def identity_ids_def split: if_splits)
  then show ?thesis
    using d' ok cases W gone remove_row_keys [OF assms(2,3), of ?i] by (simp add: r split: if_splits)
qed

text \<open>
  C19. Removing an identity from a healthy database whose tables obey the keys, in whatever order SQLite cascades: when the call succeeds the identity
  and all its rows are gone and the rows of the others are as before, when it fails nothing has
  changed, and it succeeds when the identity shares no context with another identity (the trigger of
  a table does not see the other rows of that table, and then a key would dangle).
\<close>

theorem identity_removed:
  assumes "healthy d" "meta_ok (content d)" "set order = UNIV"
  shows "let (ok, d') = gsignond_db_metadata_database_remove_identity order ident d
     in healthy d' \<and> meta_ok (content d') \<and>
        (ok \<longrightarrow> without_identity (uint ident) (content d) (content d') \<and>
           uint ident \<notin> identity_ids (content d') \<and>
           fst (gsignond_db_metadata_database_get_identity ident d') = None) \<and>
        (\<not> ok \<longrightarrow> content d' = content d) \<and>
        ((\<forall>j. j \<noteq> uint ident \<longrightarrow> contexts_of (uint ident) (content d) \<inter> contexts_of j (content d) \<subseteq> {None}) \<longrightarrow> ok)"
  by (rule remove_identity_result [OF assms])

lemma no_contexts_of_unknown: "meta_ok c \<Longrightarrow> j \<notin> identity_ids c \<Longrightarrow> contexts_of j c = {}"
  by (auto simp: contexts_of_def meta_ok_def foreign_keys_ok_def)

lemma stored_example_single: "j \<noteq> 1 \<Longrightarrow> j \<notin> identity_ids (content stored_example)"
proof -
  obtain ident d' where r: "gsignond_db_metadata_database_update_identity example_identity example_database = (ident, d')" by force
  have "opened example_database" "faults example_database = []" "snapshot example_database = None"
    using example_database_ok(1) by (auto simp: healthy_def)
  with update_identity_result [OF _ example_database_ok(2) example_identity_storable(3) _ r]
    example_identity_storable(2,4)
  have "content d' = identity_effect example_identity (content example_database)"
    by (simp add: IDENTITY_INFO_PROP_NONE_def)
  moreover have "identity_seq (identity_effect example_identity (content example_database)) = 1"
    using new_identity_stored [OF example_identity_complete example_database_ok(2) example_identity_storable(3)
        example_identity_fields(6)] by (simp add: example_database_ok)
  ultimately have "identity_seq (content stored_example) = 1" by (simp add: stored_example_def r)
  moreover assume "j \<noteq> 1"
  ultimately show ?thesis
    using stored_example_ok(2) by (force simp: meta_ok_def table_ok_def identity_ids_def)
qed

theorem identity_removed_witness:
  "fst (gsignond_db_metadata_database_remove_identity [On_acl, On_owner, On_refs, On_realms] 1 stored_example) \<and>
   identity_ids (content (snd
     (gsignond_db_metadata_database_remove_identity [On_acl, On_owner, On_refs, On_realms] 1 stored_example))) = {}"
proof -
  let ?order = "[On_acl, On_owner, On_refs, On_realms]"
  have "set ?order = UNIV" by (auto intro: cascade.exhaust)
  note R = identity_removed [OF stored_example_ok(1,2) this, of 1]
  have "contexts_of j (content stored_example) = {}" if "j \<noteq> 1" for j
    using no_contexts_of_unknown [OF stored_example_ok(2) stored_example_single [OF that]] .
  then have ok: "fst (gsignond_db_metadata_database_remove_identity ?order 1 stored_example)"
    using R by (auto simp: Let_def split: prod.splits)
  moreover have "filter (\<lambda>r. fst r \<noteq> 1) (identity_tbl (content stored_example)) = []"
    using stored_example_single by (force simp: identity_ids_def filter_empty_conv)
  ultimately show ?thesis
    using R by (auto simp: Let_def without_identity_def identity_ids_def split: prod.splits)
qed

end
