(* ===== verification/Gsso_Credentials_Database.thy ===== *)
theory Gsso_Credentials_Database
  imports Gsso_Secret_Storage Gsso_Metadata_References
begin

text \<open>
  \<^verbatim>\<open>src/src/daemon/db/gsignond-db-credentials-database.c\<close>: an identity is kept in two places, its
  description in the metadata database and its user name and password, as far as they are secret, in
  the secret storage. The storage is any object of the class, so that the state and its class are
  parameters; the theorems hold for every storage that keeps the contract \<open>credential_store\<close>.
\<close>

subsection \<open>Opening the metadata database\<close>

text \<open>
  \<open>dir\<close>: the configured directory; \<open>made\<close>: whether \<^verbatim>\<open>g_mkdir_with_parents\<close> succeeds.
\<close>

definition gsignond_db_metadata_database_open :: "cstr \<Rightarrow> bool \<Rightarrow> meta_db \<Rightarrow> bool \<times> meta_db" where
  "gsignond_db_metadata_database_open dir made self =
     (if gsignond_db_sql_database_is_open self then (True, self)
      else if dir = None then (False, self)
      else if \<not> made then (False, self)
      else gsignond_db_sql_database_open gsignond_db_metadata_database_create self)"

record 's credentials_db =
  cdb_metadata :: meta_db
  cdb_storage :: 's

definition gsignond_db_credentials_database_new ::
  "cstr \<Rightarrow> bool \<Rightarrow> meta_content \<Rightarrow> sqlite_rc list \<Rightarrow> 's \<Rightarrow> 's credentials_db" where
  "gsignond_db_credentials_database_new dir made file fs storage =
     \<lparr>cdb_metadata = snd (gsignond_db_metadata_database_open dir made (gsignond_db_sql_database_init file fs)),
      cdb_storage = storage\<rparr>"

text \<open>Calls on one of the two parts.\<close>

definition on_metadata :: "(meta_db \<Rightarrow> 'r \<times> meta_db) \<Rightarrow> 's credentials_db \<Rightarrow> 'r \<times> 's credentials_db" where
  "on_metadata f self = (case f (cdb_metadata self) of (r, m) \<Rightarrow> (r, self\<lparr>cdb_metadata := m\<rparr>))"

definition on_storage :: "('s \<Rightarrow> 'r \<times> 's) \<Rightarrow> 's credentials_db \<Rightarrow> 'r \<times> 's credentials_db" where
  "on_storage f self = (case f (cdb_storage self) of (r, s) \<Rightarrow> (r, self\<lparr>cdb_storage := s\<rparr>))"

subsection \<open>The secret storage\<close>

definition gsignond_db_credentials_database_open_secret_storage ::
  "'s secret_storage_class \<Rightarrow> 's credentials_db \<Rightarrow> bool \<times> 's credentials_db" where
  "gsignond_db_credentials_database_open_secret_storage klass =
     on_storage (gsignond_secret_storage_open_db klass)"

definition gsignond_db_credentials_database_close_secret_storage ::
  "'s secret_storage_class \<Rightarrow> 's credentials_db \<Rightarrow> bool \<times> 's credentials_db" where
  "gsignond_db_credentials_database_close_secret_storage klass =
     on_storage (gsignond_secret_storage_close_db klass)"

definition gsignond_db_credentials_database_is_open_secret_storage ::
  "'s secret_storage_class \<Rightarrow> 's credentials_db \<Rightarrow> bool" where
  "gsignond_db_credentials_database_is_open_secret_storage klass self =
     gsignond_secret_storage_is_open_db klass (cdb_storage self)"

definition gsignond_db_credentials_database_clear ::
  "'s secret_storage_class \<Rightarrow> cascade list \<Rightarrow> 's credentials_db \<Rightarrow> bool \<times> 's credentials_db" where
  "gsignond_db_credentials_database_clear klass order self =
     (case on_storage (gsignond_secret_storage_clear_db klass) self of
        (False, self) \<Rightarrow> (False, self)
      | (True, self) \<Rightarrow> on_metadata (gsignond_db_metadata_database_clear order) self)"

subsection \<open>Identities\<close>

text \<open>The block of \<^verbatim>\<open>gsignond_db_credentials_database_load_identity\<close> on secrets.\<close>

definition load_secrets ::
  "'s secret_storage_class \<Rightarrow> u32 \<Rightarrow> identity_info \<Rightarrow> 's credentials_db \<Rightarrow> identity_info \<times> 's credentials_db" where
  "load_secrets klass identity_id identity self =
     (let is_un_sec = gsignond_identity_info_get_is_username_secret identity;
          is_pwd_sec = gsignond_identity_info_get_store_secret identity
      in if is_un_sec \<or> is_pwd_sec then
           (case on_storage (gsignond_secret_storage_load_credentials klass identity_id) self of
              (None, self) \<Rightarrow> (identity, self)
            | (Some creds, self) \<Rightarrow>
                let identity = (if is_un_sec then snd (gsignond_identity_info_set_username identity
                                  (gsignond_credentials_get_username creds)) else identity);
                    identity = (if is_pwd_sec then snd (gsignond_identity_info_set_secret identity
                                  (gsignond_credentials_get_password creds)) else identity)
                in (identity, self))
         else (identity, self))"

definition gsignond_db_credentials_database_load_identity ::
  "'s secret_storage_class \<Rightarrow> u32 \<Rightarrow> bool \<Rightarrow> 's credentials_db \<Rightarrow> identity_info option \<times> 's credentials_db" where
  "gsignond_db_credentials_database_load_identity klass identity_id query_secret self =
     (case on_metadata (gsignond_db_metadata_database_get_identity identity_id) self of
        (None, self) \<Rightarrow> (None, self)
      | (Some identity, self) \<Rightarrow>
          (case (if query_secret \<and> \<not> gsignond_identity_info_get_is_identity_new identity \<and>
                    gsignond_db_credentials_database_is_open_secret_storage klass self
                 then load_secrets klass identity_id identity self else (identity, self)) of
             (identity, self) \<Rightarrow>
               (Some (snd (gsignond_identity_info_reset_edit_flags identity IDENTITY_INFO_PROP_NONE)), self)))"

definition gsignond_db_credentials_database_load_identities ::
  "(string \<Rightarrow> meta_content \<Rightarrow> int list) \<Rightarrow> dictionary option \<Rightarrow> 's credentials_db \<Rightarrow>
   identity_info list \<times> 's credentials_db" where
  "gsignond_db_credentials_database_load_identities injected filter_dict =
     on_metadata (gsignond_db_metadata_database_get_identities injected filter_dict)"

text \<open>The block of \<^verbatim>\<open>gsignond_db_credentials_database_update_identity\<close> on secrets.\<close>

definition store_secrets ::
  "'s secret_storage_class \<Rightarrow> u32 \<Rightarrow> identity_info \<Rightarrow> 's credentials_db \<Rightarrow> 's credentials_db" where
  "store_secrets klass ident identity self =
     (let creds = snd (gsignond_credentials_set_id gsignond_credentials_new ident);
          pwd_sec = gsignond_identity_info_get_store_secret identity \<and>
                    gsignond_identity_info_get_secret identity \<noteq> None;
          creds = (if pwd_sec then snd (gsignond_credentials_set_password creds
                     (gsignond_identity_info_get_secret identity)) else creds);
          un_sec = gsignond_identity_info_get_is_username_secret identity \<and>
                   gsignond_identity_info_get_username identity \<noteq> None;
          creds = (if un_sec then snd (gsignond_credentials_set_username creds
                     (gsignond_identity_info_get_username identity)) else creds)
      in if un_sec \<or> pwd_sec
         then snd (on_storage (gsignond_secret_storage_update_credentials klass creds) self) else self)"

definition gsignond_db_credentials_database_update_identity ::
  "'s secret_storage_class \<Rightarrow> identity_info \<Rightarrow> 's credentials_db \<Rightarrow>
   (u32 \<times> identity_info) \<times> 's credentials_db" where
  "gsignond_db_credentials_database_update_identity klass identity self =
     (case on_metadata (gsignond_db_metadata_database_update_identity identity) self of (ident, self) \<Rightarrow>
        if ident = 0 then ((0, identity), self)
        else
          let identity = snd (gsignond_identity_info_reset_edit_flags identity IDENTITY_INFO_PROP_NONE)
          in ((ident, identity),
              if gsignond_db_credentials_database_is_open_secret_storage klass self
              then store_secrets klass ident identity self else self))"

definition gsignond_db_credentials_database_remove_identity ::
  "'s secret_storage_class \<Rightarrow> cascade list \<Rightarrow> u32 \<Rightarrow> 's credentials_db \<Rightarrow> bool \<times> 's credentials_db" where
  "gsignond_db_credentials_database_remove_identity klass order identity_id self =
     (if \<not> gsignond_db_credentials_database_is_open_secret_storage klass self then (False, self)
      else case on_storage (gsignond_secret_storage_remove_credentials klass identity_id) self of
        (False, self) \<Rightarrow> (False, self)
      | (True, self) \<Rightarrow> on_metadata (gsignond_db_metadata_database_remove_identity order identity_id) self)"

text \<open>The result is \<open>None\<close> when the comparison of the credentials reads a NULL string.\<close>

definition gsignond_db_credentials_database_check_secret ::
  "'s secret_storage_class \<Rightarrow> u32 \<Rightarrow> cstr \<Rightarrow> cstr \<Rightarrow> 's credentials_db \<Rightarrow> bool option \<times> 's credentials_db" where
  "gsignond_db_credentials_database_check_secret klass identity_id username secret self =
     (if \<not> gsignond_db_credentials_database_is_open_secret_storage klass self then (Some False, self)
      else case on_metadata (gsignond_db_metadata_database_get_identity identity_id) self of
        (None, self) \<Rightarrow> (Some False, self)
      | (Some identity, self) \<Rightarrow>
          let creds = snd (gsignond_credentials_set_id gsignond_credentials_new identity_id);
              creds = snd (gsignond_credentials_set_password creds secret)
          in if gsignond_identity_info_get_is_username_secret identity then
               on_storage (gsignond_secret_storage_check_credentials klass
                 (snd (gsignond_credentials_set_username creds username))) self
             else if username \<noteq> gsignond_identity_info_get_username identity then (Some False, self)
             else on_storage (gsignond_secret_storage_check_credentials klass
                    (snd (gsignond_credentials_set_username creds (Some '''')))) self)"

subsection \<open>Data of methods\<close>

definition gsignond_db_credentials_database_load_data ::
  "'s secret_storage_class \<Rightarrow> u32 \<Rightarrow> string \<Rightarrow> 's credentials_db \<Rightarrow> dictionary option \<times> 's credentials_db" where
  "gsignond_db_credentials_database_load_data klass identity_id meth self =
     (if identity_id = 0 \<or> \<not> gsignond_db_credentials_database_is_open_secret_storage klass self then (None, self)
      else case on_metadata (gsignond_db_metadata_database_get_method_id meth) self of (method_id, self) \<Rightarrow>
        if method_id = 0 then (None, self)
        else on_storage (gsignond_secret_storage_load_data klass identity_id method_id) self)"

definition gsignond_db_credentials_database_update_data ::
  "'s secret_storage_class \<Rightarrow> u32 \<Rightarrow> string \<Rightarrow> dictionary \<Rightarrow> 's credentials_db \<Rightarrow> bool \<times> 's credentials_db" where
  "gsignond_db_credentials_database_update_data klass identity_id meth entries self =
     (if identity_id = 0 \<or> \<not> gsignond_db_credentials_database_is_open_secret_storage klass self then (False, self)
      else case on_metadata (gsignond_db_metadata_database_get_method_id meth) self of (method_id, self) \<Rightarrow>
        case (if method_id = 0 then on_metadata (gsignond_db_metadata_database_insert_method meth) self
              else ((True, method_id), self)) of
          ((False, _), self) \<Rightarrow> (False, self)
        | ((True, method_id), self) \<Rightarrow>
            on_storage (gsignond_secret_storage_update_data klass identity_id method_id entries) self)"

definition gsignond_db_credentials_database_remove_data ::
  "'s secret_storage_class \<Rightarrow> u32 \<Rightarrow> cstr \<Rightarrow> 's credentials_db \<Rightarrow> bool \<times> 's credentials_db" where
  "gsignond_db_credentials_database_remove_data klass identity_id meth self =
     (if identity_id = 0 \<or> \<not> gsignond_db_credentials_database_is_open_secret_storage klass self then (False, self)
      else case (case meth of
            None \<Rightarrow> (Some 0, self)
          | Some m \<Rightarrow> if m = '''' then (Some 0, self)
              else case on_metadata (gsignond_db_metadata_database_get_method_id m) self of
                (i, self) \<Rightarrow> (if i = 0 then None else Some i, self)) of
        (None, self) \<Rightarrow> (False, self)
      | (Some method_id, self) \<Rightarrow> on_storage (gsignond_secret_storage_remove_data klass identity_id method_id) self)"

subsection \<open>What the metadata database answers\<close>

definition gsignond_db_credentials_database_get_methods ::
  "u32 \<Rightarrow> security_context \<Rightarrow> 's credentials_db \<Rightarrow> cstr list \<times> 's credentials_db" where
  "gsignond_db_credentials_database_get_methods identity_id sec_ctx =
     on_metadata (gsignond_db_metadata_database_get_methods identity_id sec_ctx)"

definition gsignond_db_credentials_database_insert_reference ::
  "u32 \<Rightarrow> security_context \<Rightarrow> string \<Rightarrow> 's credentials_db \<Rightarrow> bool \<times> 's credentials_db" where
  "gsignond_db_credentials_database_insert_reference identity_id ref_owner reference =
     on_metadata (gsignond_db_metadata_database_insert_reference identity_id ref_owner reference)"

definition gsignond_db_credentials_database_remove_reference ::
  "u32 \<Rightarrow> security_context \<Rightarrow> cstr \<Rightarrow> 's credentials_db \<Rightarrow> bool \<times> 's credentials_db" where
  "gsignond_db_credentials_database_remove_reference identity_id ref_owner reference =
     on_metadata (gsignond_db_metadata_database_remove_reference identity_id ref_owner reference)"

definition gsignond_db_credentials_database_get_references ::
  "u32 \<Rightarrow> security_context \<Rightarrow> 's credentials_db \<Rightarrow> cstr list \<times> 's credentials_db" where
  "gsignond_db_credentials_database_get_references identity_id ref_owner =
     on_metadata (gsignond_db_metadata_database_get_references identity_id ref_owner)"

definition gsignond_db_credentials_database_get_accesscontrol_list ::
  "u32 \<Rightarrow> 's credentials_db \<Rightarrow> security_context list \<times> 's credentials_db" where
  "gsignond_db_credentials_database_get_accesscontrol_list identity_id =
     on_metadata (gsignond_db_metadata_database_get_accesscontrol_list identity_id)"

definition gsignond_db_credentials_database_get_owner ::
  "u32 \<Rightarrow> 's credentials_db \<Rightarrow> security_context option \<times> 's credentials_db" where
  "gsignond_db_credentials_database_get_owner identity_id =
     on_metadata (gsignond_db_metadata_database_get_owner identity_id)"

definition gsignond_db_credentials_database_get_identity_owner ::
  "u32 \<Rightarrow> 's credentials_db \<Rightarrow> security_context option \<times> 's credentials_db" where
  "gsignond_db_credentials_database_get_identity_owner identity_id =
     on_metadata (gsignond_db_metadata_database_get_owner identity_id)"

definition gsignond_db_credentials_database_get_last_error :: "'s credentials_db \<Rightarrow> db_error option" where
  "gsignond_db_credentials_database_get_last_error self =
     gsignond_db_sql_database_get_last_error (cdb_metadata self)"

subsection \<open>Over any storage\<close>

definition db_usable :: "('s \<Rightarrow> bool) \<Rightarrow> 's credentials_db \<Rightarrow> bool" where
  "db_usable usable self \<longleftrightarrow>
     usable (cdb_storage self) \<and> healthy (cdb_metadata self) \<and> meta_ok (content (cdb_metadata self))"

lemmas creds_simps =
  gsignond_credentials_new_def gsignond_credentials_set_id_def gsignond_credentials_set_username_def
  gsignond_credentials_set_password_def gsignond_credentials_get_username_def
  gsignond_credentials_get_password_def gsignond_credentials_get_id_def

lemma update_identity_split:
  "gsignond_db_credentials_database_update_identity klass info D = (r, D1) \<Longrightarrow>
   gsignond_db_metadata_database_update_identity info (cdb_metadata D) = (ident, m) \<Longrightarrow> ident \<noteq> 0 \<Longrightarrow>
     r = (ident, snd (gsignond_identity_info_reset_edit_flags info IDENTITY_INFO_PROP_NONE)) \<and>
     D1 = (if gsignond_db_credentials_database_is_open_secret_storage klass (D\<lparr>cdb_metadata := m\<rparr>)
           then store_secrets klass ident
             (snd (gsignond_identity_info_reset_edit_flags info IDENTITY_INFO_PROP_NONE)) (D\<lparr>cdb_metadata := m\<rparr>)
           else D\<lparr>cdb_metadata := m\<rparr>)"
  by (auto simp: gsignond_db_credentials_database_update_identity_def on_metadata_def Let_def)

lemma reset_fields [simp]:
  "gsignond_identity_info_get_username (snd (gsignond_identity_info_reset_edit_flags i f)) = gsignond_identity_info_get_username i"
  "gsignond_identity_info_get_secret (snd (gsignond_identity_info_reset_edit_flags i f)) = gsignond_identity_info_get_secret i"
  "gsignond_identity_info_get_store_secret (snd (gsignond_identity_info_reset_edit_flags i f)) = gsignond_identity_info_get_store_secret i"
  "gsignond_identity_info_get_is_username_secret (snd (gsignond_identity_info_reset_edit_flags i f)) =
     gsignond_identity_info_get_is_username_secret i"
  "gsignond_identity_info_get_id (snd (gsignond_identity_info_reset_edit_flags i f)) = gsignond_identity_info_get_id i"
  "gsignond_identity_info_get_edit_flags (snd (gsignond_identity_info_reset_edit_flags i f)) = f"
  by (simp_all add: gsignond_identity_info_reset_edit_flags_def gsignond_identity_info_get_username_def
      gsignond_identity_info_get_secret_def gsignond_identity_info_get_store_secret_def
      gsignond_identity_info_get_is_username_secret_def gsignond_identity_info_get_id_def
      gsignond_identity_info_get_edit_flags_def)

lemma secret_fields [simp]:
  "gsignond_identity_info_get_username (snd (gsignond_identity_info_set_secret i v)) = gsignond_identity_info_get_username i"
  "gsignond_identity_info_get_secret (snd (gsignond_identity_info_set_username i v)) = gsignond_identity_info_get_secret i"
  "gsignond_identity_info_get_username (snd (gsignond_identity_info_set_username i v)) = v"
  "gsignond_identity_info_get_secret (snd (gsignond_identity_info_set_secret i v)) = v"
  "gsignond_identity_info_get_id (snd (gsignond_identity_info_set_username i v)) = gsignond_identity_info_get_id i"
  "gsignond_identity_info_get_id (snd (gsignond_identity_info_set_secret i v)) = gsignond_identity_info_get_id i"
  by (simp_all add: setters_other [THEN username_field.get_local] setters_other [THEN secret_field.get_local]
      setters_other [THEN id_field.get_local] username_field.get_set secret_field.get_set)

text \<open>What the storage gets for an identity: both parts, the empty string for one that is not secret.\<close>

definition secrets_of :: "identity_info \<Rightarrow> (string \<times> string) option" where
  "secrets_of info =
     (let pwd = (if gsignond_identity_info_get_store_secret info then gsignond_identity_info_get_secret info else None);
          un = (if gsignond_identity_info_get_is_username_secret info then gsignond_identity_info_get_username info else None)
      in if un = None \<and> pwd = None then None else Some (or_empty un, or_empty pwd))"

context credential_store
begin

lemma store_secrets_law:
  assumes "usable (cdb_storage D)" and D': "D' = store_secrets klass ident info D"
  shows "cdb_metadata D' = cdb_metadata D \<and> usable (cdb_storage D') \<and>
    stored (cdb_storage D') = (case secrets_of info of None \<Rightarrow> stored (cdb_storage D)
      | Some x \<Rightarrow> (stored (cdb_storage D))(ident \<mapsto> x))"
proof (cases "secrets_of info")
  case None
  then have "D' = D" by (auto simp: D' store_secrets_def secrets_of_def Let_def split: if_splits)
  with None assms(1) show ?thesis by simp
next
  case (Some x)
  let ?c = "\<lparr>cred_id = ident,
      cred_username = (if gsignond_identity_info_get_is_username_secret info then gsignond_identity_info_get_username info else None),
      cred_password = (if gsignond_identity_info_get_store_secret info then gsignond_identity_info_get_secret info else None)\<rparr>"
  have "D' = snd (on_storage (gsignond_secret_storage_update_credentials klass ?c) D)"
    using Some by (auto simp: D' store_secrets_def secrets_of_def creds_simps Let_def split: if_splits)
  moreover obtain ok s where u: "gsignond_secret_storage_update_credentials klass ?c (cdb_storage D) = (ok, s)" by force
  ultimately have "D' = D\<lparr>cdb_storage := s\<rparr>" by (simp add: on_storage_def)
  with update_law [OF assms(1) u] Some show ?thesis
    by (auto simp: secrets_of_def Let_def split: if_splits)
qed

lemma load_secrets_law:
  assumes "usable (cdb_storage D)" "load_secrets klass ident i D = (i', D')"
  shows "cdb_metadata D' = cdb_metadata D \<and> usable (cdb_storage D') \<and> stored (cdb_storage D') = stored (cdb_storage D) \<and>
    gsignond_identity_info_get_id i' = gsignond_identity_info_get_id i \<and>
    gsignond_identity_info_get_username i' =
      (case stored (cdb_storage D) ident of None \<Rightarrow> gsignond_identity_info_get_username i
       | Some (u, p) \<Rightarrow> if gsignond_identity_info_get_is_username_secret i then Some u
           else gsignond_identity_info_get_username i) \<and>
    gsignond_identity_info_get_secret i' =
      (case stored (cdb_storage D) ident of None \<Rightarrow> gsignond_identity_info_get_secret i
       | Some (u, p) \<Rightarrow> if gsignond_identity_info_get_store_secret i then Some p
           else gsignond_identity_info_get_secret i)"
proof (cases "gsignond_identity_info_get_is_username_secret i \<or> gsignond_identity_info_get_store_secret i")
  case False
  with assms show ?thesis by (auto simp: load_secrets_def split: option.split)
next
  case True
  obtain r s where l: "gsignond_secret_storage_load_credentials klass ident (cdb_storage D) = (r, s)" by force
  from load_law [OF assms(1) l] assms(2) True l show ?thesis
    by (cases "stored (cdb_storage D) ident")
       (auto simp: load_secrets_def on_storage_def creds_simps Let_def split: if_splits prod.splits)
qed

lemma check_secret_law:
  assumes "db_usable usable D"
    and "gsignond_db_metadata_database_get_identity ident (cdb_metadata D) = (Some i, m)"
    and "\<not> gsignond_identity_info_get_is_username_secret i \<longrightarrow> fst x = '''' \<and> gsignond_identity_info_get_username i = Some name"
    and "gsignond_identity_info_get_is_username_secret i \<longrightarrow> fst x = name"
    and "stored (cdb_storage D) ident = Some x"
  shows "fst (gsignond_db_credentials_database_check_secret klass ident username secret D) =
    (if username = Some name then (case secret of None \<Rightarrow> None | Some s \<Rightarrow> Some (s = snd x)) else Some False)"
proof -
  have u: "usable (cdb_storage D)" using assms(1) by (simp add: db_usable_def)
  have is_open: "gsignond_db_credentials_database_is_open_secret_storage klass D"
    using usable_open [OF u] by (simp add: gsignond_db_credentials_database_is_open_secret_storage_def)
  let ?u = "if gsignond_identity_info_get_is_username_secret i then username else Some ''''"
  let ?c = "\<lparr>cred_id = ident, cred_username = ?u, cred_password = secret\<rparr>"
  obtain b s where b: "gsignond_secret_storage_check_credentials klass ?c (cdb_storage D) = (b, s)" by force
  then have check: "fst (gsignond_db_credentials_database_check_secret klass ident username secret D) =
      (if \<not> gsignond_identity_info_get_is_username_secret i \<and> username \<noteq> gsignond_identity_info_get_username i
       then Some False else b)"
    using is_open assms(2)
    by (auto simp: gsignond_db_credentials_database_check_secret_def on_metadata_def on_storage_def creds_simps Let_def)
  obtain a p where x: "x = (a, p)" by force
  have "b = gsignond_credentials_equal False ?c \<lparr>cred_id = ident, cred_username = Some a, cred_password = Some p\<rparr>"
    using check_law [OF u b] assms(5) x by simp
  note b_eq = this
  show ?thesis
  proof (cases "gsignond_identity_info_get_is_username_secret i")
    case True
    with assms(4) x b_eq show ?thesis unfolding check
      by (cases username; cases secret) (simp_all add: gsignond_credentials_equal_def split: bool.split)
  next
    case False
    with assms(3) x b_eq show ?thesis unfolding check
      by (cases secret) (simp_all add: gsignond_credentials_equal_def)
  qed
qed

end

context credential_store
begin

lemma new_identity_secrets:
  assumes "db_usable usable D" "known info (content (cdb_metadata D))" "complete info"
    and "methods_seq (content (cdb_metadata D)) + int (length (the (gsignond_identity_info_get_methods info))) < 2 ^ 32"
    and upd: "gsignond_db_credentials_database_update_identity klass info D = ((ident, info'), D1)"
  shows "db_usable usable D1 \<and> gsignond_identity_info_get_edit_flags info' = 0 \<and>
     ident = word_of_int (identity_seq (content (cdb_metadata D)) + 1) \<and> ident \<noteq> 0 \<and>
     (\<exists>i. fst (gsignond_db_credentials_database_load_identity klass ident True D1) = Some i \<and>
        gsignond_identity_info_get_id i = ident \<and> gsignond_identity_info_get_edit_flags i = 0 \<and>
        (\<not> gsignond_identity_info_get_is_username_secret info \<longrightarrow> gsignond_identity_info_get_username i =
           Some (or_empty (gsignond_identity_info_get_username info))) \<and>
        (\<not> gsignond_identity_info_get_store_secret info \<longrightarrow> gsignond_identity_info_get_secret i = None) \<and>
        (\<forall>u p. secrets_of info = Some (u, p) \<longrightarrow>
           (gsignond_identity_info_get_is_username_secret info \<longrightarrow> gsignond_identity_info_get_username i = Some u) \<and>
           (gsignond_identity_info_get_store_secret info \<longrightarrow> gsignond_identity_info_get_secret i = Some p))) \<and>
     (\<exists>i. fst (gsignond_db_credentials_database_load_identity klass ident False D1) = Some i \<and>
        gsignond_identity_info_get_secret i = None \<and>
        (gsignond_identity_info_get_is_username_secret info \<longrightarrow> gsignond_identity_info_get_username i = None)) \<and>
     (\<forall>u p. secrets_of info = Some (u, p) \<longrightarrow> (\<forall>username secret.
        fst (gsignond_db_credentials_database_check_secret klass ident username secret D1) =
          (if username = Some (or_empty (gsignond_identity_info_get_username info))
           then (case secret of None \<Rightarrow> None | Some s \<Rightarrow> Some (s = p)) else Some False)))"
proof -
  let ?m = "cdb_metadata D" and ?ident = "word_of_int (identity_seq (content (cdb_metadata D)) + 1) :: u32"
  from assms(1) have D: "usable (cdb_storage D)" "healthy ?m" "meta_ok (content ?m)" by (auto simp: db_usable_def)
  obtain m1 i m2 where store: "gsignond_db_metadata_database_update_identity info ?m = (?ident, m1)"
    and m1: "healthy m1" "meta_ok (content m1)"
    and load: "gsignond_db_metadata_database_get_identity ?ident m1 = (Some i, m2)"
    and m2: "healthy m2" "content m2 = content m1" "?ident \<noteq> 0" and i: "read_back info ?ident i"
    using new_identity_read_back [OF D(2,3) assms(2-4)] by blast
  let ?info = "snd (gsignond_identity_info_reset_edit_flags info IDENTITY_INFO_PROP_NONE)"
  have "gsignond_db_credentials_database_is_open_secret_storage klass (D\<lparr>cdb_metadata := m1\<rparr>)"
    using usable_open [OF D(1)] by (simp add: gsignond_db_credentials_database_is_open_secret_storage_def)
  with update_identity_split [OF upd store m2(3)] have split: "ident = ?ident" "info' = ?info"
    "D1 = store_secrets klass ?ident ?info (D\<lparr>cdb_metadata := m1\<rparr>)" by auto
  have "secrets_of ?info = secrets_of info" by (simp add: secrets_of_def)
  with store_secrets_law [OF _ split(3)] D(1)
  have S: "cdb_metadata D1 = m1" "usable (cdb_storage D1)"
    "secrets_of info = Some x \<Longrightarrow> stored (cdb_storage D1) ?ident = Some x" for x by auto
  have usable1: "db_usable usable D1" using S m1 by (simp add: db_usable_def)
  have is_open: "gsignond_db_credentials_database_is_open_secret_storage klass (D1\<lparr>cdb_metadata := m2\<rparr>)"
    using usable_open [OF S(2)] by (simp add: gsignond_db_credentials_database_is_open_secret_storage_def)
  obtain i' D2 where l: "load_secrets klass ?ident i (D1\<lparr>cdb_metadata := m2\<rparr>) = (i', D2)" by force
  note L = load_secrets_law [OF _ l, simplified, OF S(2)]
  have fields: "gsignond_identity_info_get_id i = ?ident" "gsignond_identity_info_get_secret i = None"
    "gsignond_identity_info_get_is_username_secret i = gsignond_identity_info_get_is_username_secret info"
    "gsignond_identity_info_get_store_secret i = gsignond_identity_info_get_store_secret info"
    "gsignond_identity_info_get_username i = (if gsignond_identity_info_get_is_username_secret info then None
       else Some (or_empty (gsignond_identity_info_get_username info)))"
    using i by (simp_all add: read_back_def Let_def)
  have "\<not> gsignond_identity_info_get_is_identity_new i"
    using m2(3) fields(1) by (simp add: gsignond_identity_info_get_is_identity_new_def GSIGNOND_IDENTITY_INFO_NEW_IDENTITY_def)
  with is_open l load S(1) have loads:
    "fst (gsignond_db_credentials_database_load_identity klass ident True D1) =
       Some (snd (gsignond_identity_info_reset_edit_flags i' IDENTITY_INFO_PROP_NONE))"
    "fst (gsignond_db_credentials_database_load_identity klass ident False D1) =
       Some (snd (gsignond_identity_info_reset_edit_flags i IDENTITY_INFO_PROP_NONE))"
    by (simp_all add: gsignond_db_credentials_database_load_identity_def on_metadata_def split(1))
  have check: "fst (gsignond_db_credentials_database_check_secret klass ident username secret D1) =
      (if username = Some (or_empty (gsignond_identity_info_get_username info))
       then (case secret of None \<Rightarrow> None | Some s \<Rightarrow> Some (s = p)) else Some False)"
    if s: "secrets_of info = Some (u, p)" for u p username secret
  proof -
    have u: "u = (if gsignond_identity_info_get_is_username_secret info
        then or_empty (gsignond_identity_info_get_username info) else [])"
      using s by (auto simp: secrets_of_def Let_def or_empty_def split: if_splits)
    have "fst (gsignond_db_credentials_database_check_secret klass ident username secret D1) =
      (if username = Some (or_empty (gsignond_identity_info_get_username info))
       then (case secret of None \<Rightarrow> None | Some s \<Rightarrow> Some (s = snd (u, p))) else Some False)"
      unfolding split(1)
      by (rule check_secret_law [OF usable1 _ _ _ S(3) [OF s], of i m2]) (use load S(1) fields u in auto)
    then show ?thesis unfolding snd_conv .
  qed
  show ?thesis
    using usable1 m2(3) loads L fields S(3) check
    by (auto simp: split(1,2) IDENTITY_INFO_PROP_NONE_def split: option.splits)
qed

end

context credential_store
begin

lemma remove_identity_law:
  assumes "db_usable usable D" "set order = UNIV"
    and rem: "gsignond_db_credentials_database_remove_identity klass order ident D = (ok, D')"
  shows "db_usable usable D' \<and> stored (cdb_storage D') = (stored (cdb_storage D))(ident := None) \<and>
     (ok \<longrightarrow> without_identity (uint ident) (content (cdb_metadata D)) (content (cdb_metadata D')) \<and>
        fst (gsignond_db_credentials_database_load_identity klass ident q D') = None \<and>
        fst (gsignond_db_credentials_database_check_secret klass ident username secret D') = Some False) \<and>
     (\<not> ok \<longrightarrow> content (cdb_metadata D') = content (cdb_metadata D)) \<and>
     ((\<forall>j. j \<noteq> uint ident \<longrightarrow> contexts_of (uint ident) (content (cdb_metadata D)) \<inter>
        contexts_of j (content (cdb_metadata D)) \<subseteq> {None}) \<longrightarrow> ok)"
proof -
  let ?m = "cdb_metadata D"
  from assms(1) have D: "usable (cdb_storage D)" "healthy ?m" "meta_ok (content ?m)" by (auto simp: db_usable_def)
  have is_open: "gsignond_db_credentials_database_is_open_secret_storage klass D"
    using usable_open [OF D(1)] by (simp add: gsignond_db_credentials_database_is_open_secret_storage_def)
  obtain ok1 s where r: "gsignond_secret_storage_remove_credentials klass ident (cdb_storage D) = (ok1, s)" by force
  note R = remove_law [OF D(1) r]
  obtain ok2 m where m: "gsignond_db_metadata_database_remove_identity order ident ?m = (ok2, m)" by force
  have eq: "ok = ok2" "D' = D\<lparr>cdb_storage := s, cdb_metadata := m\<rparr>"
    using rem is_open r R m
    by (auto simp: gsignond_db_credentials_database_remove_identity_def on_storage_def on_metadata_def)
  note M = remove_identity_result [OF D(2,3) assms(2), of ident, unfolded m Let_def prod.case]
  obtain i m2 where g: "gsignond_db_metadata_database_get_identity ident m = (i, m2)" by force
  have "fst (gsignond_db_credentials_database_load_identity klass ident q D') = None \<and>
        fst (gsignond_db_credentials_database_check_secret klass ident username secret D') = Some False" if ok
  proof -
    have "i = None" using M that eq(1) g by simp
    then show ?thesis
      using g by (simp add: eq(2) gsignond_db_credentials_database_load_identity_def
          gsignond_db_credentials_database_check_secret_def on_metadata_def)
  qed
  with M R eq show ?thesis by (auto simp: db_usable_def)
qed

end

text \<open>
  C20. A new identity, stored in healthy databases that have ids left, the secret storage open: the description given back has no edits; the
  identity is loaded with its secrets when they are asked for (the user name when it is secret, the
  password when it is to be stored) and without them when they are not; and a user name with a
  password passes the check exactly when it is the user name of the identity with the password that was stored
  (where the user name is right and no password is given, the comparison reads a NULL string).
\<close>

theorem secrets_stored_and_checked:
  assumes "db_usable storage_usable D" "known info (content (cdb_metadata D))" "complete info"
    and "methods_seq (content (cdb_metadata D)) + int (length (the (gsignond_identity_info_get_methods info))) < 2 ^ 32"
  shows "let klass = gsignond_secret_storage_class_init literal cd;
             ((ident, info'), D1) = gsignond_db_credentials_database_update_identity klass info D;
             loaded = fst (gsignond_db_credentials_database_load_identity klass ident True D1);
             public = fst (gsignond_db_credentials_database_load_identity klass ident False D1);
             name_secret = gsignond_identity_info_get_is_username_secret info;
             stored_secret = gsignond_identity_info_get_store_secret info
     in db_usable storage_usable D1 \<and> gsignond_identity_info_get_edit_flags info' = 0 \<and> ident \<noteq> 0 \<and>
        (\<exists>i. loaded = Some i \<and> gsignond_identity_info_get_id i = ident \<and> gsignond_identity_info_get_edit_flags i = 0 \<and>
           (\<not> name_secret \<longrightarrow> gsignond_identity_info_get_username i =
              Some (or_empty (gsignond_identity_info_get_username info))) \<and>
           (\<not> stored_secret \<longrightarrow> gsignond_identity_info_get_secret i = None) \<and>
           (\<forall>u p. secrets_of info = Some (u, p) \<longrightarrow>
              (name_secret \<longrightarrow> gsignond_identity_info_get_username i = Some u) \<and>
              (stored_secret \<longrightarrow> gsignond_identity_info_get_secret i = Some p))) \<and>
        (\<exists>i. public = Some i \<and> gsignond_identity_info_get_secret i = None \<and>
           (name_secret \<longrightarrow> gsignond_identity_info_get_username i = None)) \<and>
        (\<forall>u p. secrets_of info = Some (u, p) \<longrightarrow> (\<forall>username secret.
           fst (gsignond_db_credentials_database_check_secret klass ident username secret D1) =
             (if username = Some (or_empty (gsignond_identity_info_get_username info))
              then (case secret of None \<Rightarrow> None | Some s \<Rightarrow> Some (s = p)) else Some False)))"
proof -
  obtain ident info' D1 where u: "gsignond_db_credentials_database_update_identity
      (gsignond_secret_storage_class_init literal cd) info D = ((ident, info'), D1)"
    by (metis prod.collapse)
  from default_storage.new_identity_secrets [OF assms u] show ?thesis
    unfolding u Let_def prod.case by blast
qed

text \<open>
  C21. Removing an identity from healthy databases, the secret storage open, takes away its secrets first: they are gone in
  any case. When the call succeeds the identity is gone from the metadata database too, the others
  stay as they were, and it can neither be loaded nor checked; when it fails (which needs a context
  shared with another identity) the identity is still described, without its secrets.
\<close>

theorem identity_and_secrets_removed:
  assumes "db_usable storage_usable D" "set order = UNIV"
  shows "let klass = gsignond_secret_storage_class_init literal cd;
             (ok, D') = gsignond_db_credentials_database_remove_identity klass order ident D
     in db_usable storage_usable D' \<and>
        storage_credentials (cdb_storage D') = (storage_credentials (cdb_storage D))(ident := None) \<and>
        (ok \<longrightarrow> without_identity (uint ident) (content (cdb_metadata D)) (content (cdb_metadata D')) \<and>
           fst (gsignond_db_credentials_database_load_identity klass ident q D') = None \<and>
           fst (gsignond_db_credentials_database_check_secret klass ident username secret D') = Some False) \<and>
        (\<not> ok \<longrightarrow> content (cdb_metadata D') = content (cdb_metadata D)) \<and>
        ((\<forall>j. j \<noteq> uint ident \<longrightarrow> contexts_of (uint ident) (content (cdb_metadata D)) \<inter>
           contexts_of j (content (cdb_metadata D)) \<subseteq> {None}) \<longrightarrow> ok)"
  using default_storage.remove_identity_law [OF assms prod.collapse [symmetric], of literal cd ident q username secret]
  by (simp add: Let_def case_prod_unfold)

subsection \<open>Examples\<close>

definition example_secret_identity :: identity_info where
  "example_secret_identity = snd (gsignond_identity_info_set_secret
     (snd (gsignond_identity_info_set_store_secret example_identity True)) (Some ''letmein''))"

definition example_storage :: secret_storage where
  "example_storage = (gsignond_secret_storage_init (Some ''/var/db'') (content example_secret_db) [])
     \<lparr>ss_database := Some example_secret_db\<rparr>"

definition example_credentials_db :: "secret_storage credentials_db" where
  "example_credentials_db = \<lparr>cdb_metadata = example_database, cdb_storage = example_storage\<rparr>"

lemma example_credentials_db_ok: "db_usable storage_usable example_credentials_db"
  by (simp add: db_usable_def example_credentials_db_def example_database_ok storage_usable_def
      example_storage_def example_secret_db_healthy)

lemma example_secret_identity_ok:
  "complete example_secret_identity" "known example_secret_identity (content example_database)"
  "secrets_of example_secret_identity = Some ('''', ''letmein'')"
  "gsignond_identity_info_get_store_secret example_secret_identity"
  "length (the (gsignond_identity_info_get_methods example_secret_identity)) = 1"
  by code_simp+

theorem secrets_stored_and_checked_witness:
  "map_option gsignond_identity_info_get_secret (fst (gsignond_db_credentials_database_load_identity
      (gsignond_secret_storage_class_init 0 string_codec)
      (fst (fst (gsignond_db_credentials_database_update_identity
        (gsignond_secret_storage_class_init 0 string_codec) example_secret_identity example_credentials_db)))
      True
      (snd (gsignond_db_credentials_database_update_identity
        (gsignond_secret_storage_class_init 0 string_codec) example_secret_identity example_credentials_db)))) =
   Some (Some ''letmein'')"
proof -
  have "known example_secret_identity (content (cdb_metadata example_credentials_db))"
    "methods_seq (content (cdb_metadata example_credentials_db)) +
      int (length (the (gsignond_identity_info_get_methods example_secret_identity))) < 2 ^ 32"
    using example_secret_identity_ok(2,5) by (simp_all add: example_credentials_db_def example_database_ok)
  from secrets_stored_and_checked [OF example_credentials_db_ok this(1) example_secret_identity_ok(1) this(2),
      of 0 string_codec]
  show ?thesis
    using example_secret_identity_ok(3,4) by (auto simp: Let_def split: prod.splits)
qed

theorem identity_and_secrets_removed_witness:
  "storage_credentials (cdb_storage (snd (gsignond_db_credentials_database_remove_identity
      (gsignond_secret_storage_class_init 0 string_codec) [On_acl, On_owner, On_refs, On_realms] 1
      example_credentials_db))) 1 = None"
proof -
  have "set [On_acl, On_owner, On_refs, On_realms] = UNIV" by (auto intro: cascade.exhaust)
  from identity_and_secrets_removed [OF example_credentials_db_ok this, of 0 string_codec 1 False None None]
  show ?thesis by (simp add: Let_def case_prod_unfold)
qed

end
