(* ===== verification/Gsso_Signonui_Proxy.thy ===== *)
theory Gsso_Signonui_Proxy
  imports Gsso_Signonui_Data Gsso_Error "HOL-Library.Multiset"
begin

text \<open>
  \<^verbatim>\<open>src/src/daemon/gsignond-signonui-proxy.c\<close> and the connection of
  \<^verbatim>\<open>src/src/daemon/dbus/gsignond-dbus-signonui-adapter.c\<close>: the dialogs of all sessions and identities
  go one at a time to the user interface, a service on the bus. The state is the proxy with its queue,
  the adapter's connection, and how many \<^verbatim>\<open>queryDialog\<close> calls the bus still owes a reply
  (\<open>sp_pending\<close>). What the proxy calls, callbacks and the bus, is written to a log.

  Callbacks are values of a type \<open>'c\<close>, callers and user data are pointers. The callbacks make no
  request of the proxy while it calls them, as those of \<^verbatim>\<open>gsignond-identity.c\<close> do not.
\<close>

subsection \<open>The adapter\<close>

record signonui_adapter =
  ad_connection :: bool
  ad_proxy :: bool

text \<open>
  How one attempt to reach the service ends: without a connection (the bus, the address or the
  connection fails), with a connection but no object proxy, or well. An exhausted list means well.
\<close>

datatype ui_setup = Setup_done | Setup_no_connection | Setup_no_proxy

definition setup_ui_connection ::
  "signonui_adapter \<Rightarrow> ui_setup list \<Rightarrow> bool \<times> signonui_adapter \<times> ui_setup list" where
  "setup_ui_connection adapter attempts =
     (if ad_connection adapter then (True, adapter, attempts)
      else case attempts of
        [] \<Rightarrow> (True, \<lparr>ad_connection = True, ad_proxy = True\<rparr>, [])
      | Setup_done # rest \<Rightarrow> (True, \<lparr>ad_connection = True, ad_proxy = True\<rparr>, rest)
      | Setup_no_connection # rest \<Rightarrow> (False, adapter, rest)
      | Setup_no_proxy # rest \<Rightarrow> (False, adapter\<lparr>ad_connection := True\<rparr>, rest))"

definition gsignond_dbus_signonui_adapter_new ::
  "ui_setup list \<Rightarrow> signonui_adapter option \<times> ui_setup list" where
  "gsignond_dbus_signonui_adapter_new attempts =
     (case setup_ui_connection \<lparr>ad_connection = False, ad_proxy = False\<rparr> attempts of
        (ok, adapter, attempts) \<Rightarrow> (if ok then Some adapter else None, attempts))"

text \<open>The check that each of the three calls of the adapter makes before it goes to the bus.\<close>

definition adapter_ready ::
  "signonui_adapter \<Rightarrow> ui_setup list \<Rightarrow> bool \<times> signonui_adapter \<times> ui_setup list" where
  "adapter_ready adapter attempts =
     (if ad_proxy adapter then (True, adapter, attempts) else setup_ui_connection adapter attempts)"

definition on_connection_closed :: "signonui_adapter \<Rightarrow> signonui_adapter" where
  "on_connection_closed adapter = adapter\<lparr>ad_connection := False, ad_proxy := False\<rparr>"

subsection \<open>The proxy\<close>

record 'c ui_request =
  rq_caller :: nat
  rq_type :: string
  rq_data :: dictionary
  rq_cb :: "'c option"
  rq_refresh_cb :: "'c option"
  rq_userdata :: nat

text \<open>\<open>Cancel_call\<close> carries the request it withdraws beside what goes over the bus.\<close>

datatype 'c ui_event =
    Query_call dictionary
  | Refresh_call dictionary
  | Cancel_call string "'c ui_request"
  | Query_cb 'c "dictionary option" "gerror option" nat
  | Refresh_cb 'c dictionary nat
  | Refresh_dialog_cb 'c "gerror option" nat
  | Cancel_cb 'c "gerror option" nat

record 'c signonui_proxy =
  sp_signonui :: "signonui_adapter option"
  sp_handlers :: nat
  sp_timer :: bool
  sp_active :: "'c ui_request option"
  sp_queue :: "'c ui_request list"
  sp_is_idle :: bool
  sp_attempts :: "ui_setup list"
  sp_pending :: nat
  sp_log :: "'c ui_event list"

definition gsignond_signonui_proxy_init :: "ui_setup list \<Rightarrow> 'c signonui_proxy" where
  "gsignond_signonui_proxy_init attempts =
     \<lparr>sp_signonui = None, sp_handlers = 0, sp_timer = False, sp_active = None, sp_queue = [],
      sp_is_idle = True, sp_attempts = attempts, sp_pending = 0, sp_log = []\<rparr>"

definition ui_emit :: "'c ui_event \<Rightarrow> 'c signonui_proxy \<Rightarrow> 'c signonui_proxy" where
  "ui_emit e p = p\<lparr>sp_log := sp_log p @ [e]\<rparr>"

definition ui_error_reply :: "u32 \<Rightarrow> dictionary" where
  "ui_error_reply e = gsignond_signonui_data_set_query_error gsignond_dictionary_new e"

text \<open>A call through the adapter: whether it was made, and the adapter after it.\<close>

definition through_adapter :: "'c signonui_proxy \<Rightarrow> bool \<times> 'c signonui_proxy" where
  "through_adapter p =
     (case sp_signonui p of
        None \<Rightarrow> (False, p)
      | Some adapter \<Rightarrow>
          (case adapter_ready adapter (sp_attempts p) of
             (ok, adapter, attempts) \<Rightarrow> (ok, p\<lparr>sp_signonui := Some adapter, sp_attempts := attempts\<rparr>)))"

definition adapter_has_proxy :: "'c signonui_proxy \<Rightarrow> bool" where
  "adapter_has_proxy p = (case sp_signonui p of None \<Rightarrow> False | Some adapter \<Rightarrow> ad_proxy adapter)"

text \<open>\<^verbatim>\<open>g_dbus_proxy_call\<close> on a NULL proxy does nothing.\<close>

definition gsignond_dbus_signonui_adapter_query_dialog ::
  "dictionary \<Rightarrow> 'c signonui_proxy \<Rightarrow> bool \<times> 'c signonui_proxy" where
  "gsignond_dbus_signonui_adapter_query_dialog params p =
     (case through_adapter p of
        (False, p) \<Rightarrow> (False, p)
      | (True, p) \<Rightarrow>
          (True, if adapter_has_proxy p
                 then ui_emit (Query_call params) (p\<lparr>sp_pending := sp_pending p + 1\<rparr>) else p))"

text \<open>
  The parameters go with a format that asks for a builder of a variant (\<^verbatim>\<open>a{sv}\<close>, not \<^verbatim>\<open>@a{sv}\<close> as for
  \<^verbatim>\<open>queryDialog\<close>), which GLib leaves undefined for a variant; the log has the parameters that were meant.
\<close>

definition gsignond_dbus_signonui_adapter_refresh_dialog ::
  "dictionary \<Rightarrow> 'c signonui_proxy \<Rightarrow> bool \<times> 'c signonui_proxy" where
  "gsignond_dbus_signonui_adapter_refresh_dialog params p =
     (case through_adapter p of
        (False, p) \<Rightarrow> (False, p)
      | (True, p) \<Rightarrow> (True, if adapter_has_proxy p then ui_emit (Refresh_call params) p else p))"

definition gsignond_dbus_signonui_adapter_cancel_request ::
  "string \<Rightarrow> 'c ui_request \<Rightarrow> 'c signonui_proxy \<Rightarrow> bool \<times> 'c signonui_proxy" where
  "gsignond_dbus_signonui_adapter_cancel_request request_id req p =
     (case through_adapter p of
        (False, p) \<Rightarrow> (False, p)
      | (True, p) \<Rightarrow> (True, if adapter_has_proxy p then ui_emit (Cancel_call request_id req) p else p))"

text \<open>\<^verbatim>\<open>_query_dialog_cb_internal\<close> up to its last call.\<close>

definition dialog_answered ::
  "dictionary option \<Rightarrow> gerror option \<Rightarrow> 'c signonui_proxy \<Rightarrow> 'c signonui_proxy" where
  "dialog_answered reply error p =
     (let req = sp_active p;
          p = p\<lparr>sp_active := None\<rparr>
      in case req of
           None \<Rightarrow> p
         | Some r \<Rightarrow> (case rq_cb r of None \<Rightarrow> p | Some cb \<Rightarrow> ui_emit (Query_cb cb reply error (rq_userdata r)) p))"

definition ensure_signonui :: "'c signonui_proxy \<Rightarrow> 'c signonui_proxy" where
  "ensure_signonui p =
     (case sp_signonui p of
        Some _ \<Rightarrow> p
      | None \<Rightarrow>
          (case gsignond_dbus_signonui_adapter_new (sp_attempts p) of
             (adapter, attempts) \<Rightarrow> p\<lparr>sp_signonui := adapter, sp_handlers := 0, sp_attempts := attempts\<rparr>))"

lemma queue_frames [simp]:
  "sp_queue (ui_emit e p) = sp_queue p"
  "sp_queue (dialog_answered reply error p) = sp_queue p"
  "sp_queue (ensure_signonui p) = sp_queue p"
  "sp_queue (snd (through_adapter p)) = sp_queue p"
  "sp_queue (snd (gsignond_dbus_signonui_adapter_query_dialog params p)) = sp_queue p"
  by (auto simp: ui_emit_def dialog_answered_def ensure_signonui_def through_adapter_def
      gsignond_dbus_signonui_adapter_query_dialog_def Let_def split: option.splits prod.splits bool.splits)

text \<open>
  \<^verbatim>\<open>_process_next_request\<close> with the call of itself through \<^verbatim>\<open>_query_dialog_cb_internal\<close>: every call
  takes one request from the queue, so that it ends.
\<close>

function process_next_request :: "'c signonui_proxy \<Rightarrow> 'c signonui_proxy" where
  "process_next_request p =
     (case sp_queue p of
        [] \<Rightarrow> p\<lparr>sp_is_idle := True, sp_active := None, sp_timer := True\<rparr>
      | req # rest \<Rightarrow>
          let p = ensure_signonui (p\<lparr>sp_queue := rest, sp_active := Some req, sp_timer := False\<rparr>)
          in if sp_signonui p = None then
               process_next_request
                 (dialog_answered (Some (ui_error_reply SIGNONUI_ERROR_NO_SIGNONUI)) None p)
             else
               let ui_data = gsignond_signonui_data_set_request_id (rq_data req) (Some (rq_type req));
                   p = p\<lparr>sp_handlers := sp_handlers p + 1, sp_active := Some (req\<lparr>rq_data := ui_data\<rparr>)\<rparr>;
                   called = gsignond_dbus_signonui_adapter_query_dialog ui_data p
               in if \<not> fst called then
                    process_next_request
                      (dialog_answered (Some (ui_error_reply SIGNONUI_ERROR_GENERAL)) None (snd called))
                  else (snd called)\<lparr>sp_is_idle := False\<rparr>)"
  by pat_completeness auto

termination by (relation "measure (\<lambda>p. length (sp_queue p))") (auto simp: Let_def)

declare process_next_request.simps [simp del]

subsection \<open>The operations\<close>

definition query_dialog_cb ::
  "gvariant option \<Rightarrow> gerror option \<Rightarrow> 'c signonui_proxy \<Rightarrow> 'c signonui_proxy" where
  "query_dialog_cb reply error p =
     process_next_request (dialog_answered (gsignond_dictionary_new_from_variant reply) error p)"

definition gsignond_signonui_proxy_query_dialog ::
  "nat \<Rightarrow> string \<Rightarrow> dictionary \<Rightarrow> 'c option \<Rightarrow> 'c option \<Rightarrow> nat \<Rightarrow> 'c signonui_proxy \<Rightarrow> 'c signonui_proxy" where
  "gsignond_signonui_proxy_query_dialog caller type ui_data cb refresh_cb userdata p =
     (let req = \<lparr>rq_caller = caller, rq_type = type, rq_data = ui_data, rq_cb = cb,
                 rq_refresh_cb = refresh_cb, rq_userdata = userdata\<rparr>;
          p = p\<lparr>sp_queue := sp_queue p @ [req]\<rparr>
      in if sp_is_idle p then process_next_request p else p)"

text \<open>
  The handler of the adapter's signal, connected once more by every dialog: one signal runs it
  \<open>sp_handlers\<close> times.
\<close>

definition on_refresh_request :: "string \<Rightarrow> 'c signonui_proxy \<Rightarrow> 'c signonui_proxy" where
  "on_refresh_request request_id p =
     (case sp_active p of
        None \<Rightarrow> p
      | Some req \<Rightarrow>
          if g_strcmp0 (Some (rq_type req)) (Some request_id) = 0 then
            (case rq_refresh_cb req of None \<Rightarrow> p | Some cb \<Rightarrow> ui_emit (Refresh_cb cb (rq_data req) (rq_userdata req)) p)
          else p)"

definition refresh_signal :: "string \<Rightarrow> 'c signonui_proxy \<Rightarrow> 'c signonui_proxy" where
  "refresh_signal request_id p = (on_refresh_request request_id ^^ sp_handlers p) p"

text \<open>The variant is made before the request id is set.\<close>

definition gsignond_signonui_proxy_refresh_dialog ::
  "nat \<Rightarrow> string \<Rightarrow> dictionary \<Rightarrow> 'c signonui_proxy \<Rightarrow> bool \<times> 'c signonui_proxy" where
  "gsignond_signonui_proxy_refresh_dialog caller type ui_data p =
     (case sp_active p of
        None \<Rightarrow> (False, p)
      | Some req \<Rightarrow>
          if rq_caller req = caller then gsignond_dbus_signonui_adapter_refresh_dialog ui_data p
          else (False, p))"

text \<open>The reply to a refresh or a cancellation goes to the callback that came with the call.\<close>

definition refresh_dialog_cb :: "'c option \<Rightarrow> nat \<Rightarrow> gerror option \<Rightarrow> 'c signonui_proxy \<Rightarrow> 'c signonui_proxy" where
  "refresh_dialog_cb cb userdata error p =
     (case cb of None \<Rightarrow> p | Some c \<Rightarrow> ui_emit (Refresh_dialog_cb c error userdata) p)"

definition cancel_request_cb :: "'c option \<Rightarrow> nat \<Rightarrow> gerror option \<Rightarrow> 'c signonui_proxy \<Rightarrow> 'c signonui_proxy" where
  "cancel_request_cb cb userdata error p =
     (case cb of None \<Rightarrow> p | Some c \<Rightarrow> ui_emit (Cancel_cb c error userdata) p)"

definition find_request_by_caller :: "nat \<Rightarrow> 'c ui_request \<Rightarrow> bool" where
  "find_request_by_caller caller req = (rq_caller req = caller)"

definition gsignond_signonui_proxy_cancel_request ::
  "nat \<Rightarrow> string \<Rightarrow> 'c option \<Rightarrow> nat \<Rightarrow> 'c signonui_proxy \<Rightarrow> bool \<times> 'c signonui_proxy" where
  "gsignond_signonui_proxy_cancel_request caller type cb userdata p =
     (case sp_active p of
        None \<Rightarrow> (False, p)
      | Some active \<Rightarrow>
          if rq_caller active = caller then
            (case gsignond_dbus_signonui_adapter_cancel_request type active p of
               (False, p) \<Rightarrow> (False, p)
             | (True, p) \<Rightarrow> (True, p\<lparr>sp_active := None\<rparr>))
          else case List.extract (find_request_by_caller caller) (sp_queue p) of
            None \<Rightarrow> (False, p)
          | Some (before, req, after) \<Rightarrow>
              let p = p\<lparr>sp_queue := before @ after\<rparr>;
                  p = (case rq_cb req of
                         None \<Rightarrow> p
                       | Some c \<Rightarrow> ui_emit (Query_cb c (Some (ui_error_reply SIGNONUI_ERROR_CANCELED)) None
                                     (rq_userdata req)) p);
                  p = cancel_request_cb cb userdata None p
              in (True, p))"

definition close_ui_connection :: "'c signonui_proxy \<Rightarrow> 'c signonui_proxy" where
  "close_ui_connection p = p\<lparr>sp_timer := False, sp_signonui := None, sp_handlers := 0\<rparr>"

subsection \<open>Steps\<close>

text \<open>
  What happens to a proxy: the daemon's calls, a reply of the bus (only while one is owed), the
  timer, signals and the loss of the connection. A run lists the dialogs asked for.
\<close>

inductive ui_step :: "'c signonui_proxy \<Rightarrow> 'c ui_request list \<Rightarrow> 'c signonui_proxy \<Rightarrow> bool" where
  Ask: "ui_step p [\<lparr>rq_caller = caller, rq_type = type, rq_data = ui_data, rq_cb = cb,
                    rq_refresh_cb = refresh_cb, rq_userdata = userdata\<rparr>]
          (gsignond_signonui_proxy_query_dialog caller type ui_data cb refresh_cb userdata p)"
| Reply: "sp_pending p > 0 \<Longrightarrow>
    ui_step p [] (query_dialog_cb reply error (p\<lparr>sp_pending := sp_pending p - 1\<rparr>))"
| Refresh_signal: "ui_step p [] (refresh_signal request_id p)"
| Refresh: "ui_step p [] (snd (gsignond_signonui_proxy_refresh_dialog caller type ui_data p))"
| Refresh_reply: "ui_step p [] (refresh_dialog_cb cb userdata error p)"
| Cancel: "ui_step p [] (snd (gsignond_signonui_proxy_cancel_request caller type cb userdata p))"
| Cancel_reply: "ui_step p [] (cancel_request_cb cb userdata error p)"
| Timer: "sp_timer p \<Longrightarrow> ui_step p [] (close_ui_connection p)"
| Closed: "sp_signonui p = Some adapter \<Longrightarrow> ad_connection adapter \<Longrightarrow>
    ui_step p [] (p\<lparr>sp_signonui := Some (on_connection_closed adapter)\<rparr>)"

inductive ui_run :: "ui_setup list \<Rightarrow> 'c ui_request list \<Rightarrow> 'c signonui_proxy \<Rightarrow> bool" for attempts where
  Start: "ui_run attempts [] (gsignond_signonui_proxy_init attempts)"
| Step: "ui_run attempts asked p \<Longrightarrow> ui_step p reqs p' \<Longrightarrow> ui_run attempts (asked @ reqs) p'"

inductive_cases ui_stepE: "ui_step p reqs p'"
subsection \<open>Invariant and balance\<close>

definition adapter_ok :: "'c signonui_proxy \<Rightarrow> bool" where
  "adapter_ok p \<longleftrightarrow> Setup_no_proxy \<notin> set (sp_attempts p) \<and>
     (\<forall>a. sp_signonui p = Some a \<longrightarrow> ad_connection a = ad_proxy a)"

text \<open>Idle means nothing to do; otherwise the bus owes exactly one reply, after which the queue moves on.\<close>

definition ui_inv :: "'c signonui_proxy \<Rightarrow> bool" where
  "ui_inv p \<longleftrightarrow> adapter_ok p \<and> (sp_timer p \<longrightarrow> sp_is_idle p) \<and>
     (if sp_is_idle p then sp_active p = None \<and> sp_queue p = [] \<and> sp_pending p = 0 else sp_pending p = 1)"

text \<open>The callbacks a list of requests waits for; those called, and those withdrawn by a cancellation.\<close>

definition owed :: "'c ui_request list \<Rightarrow> ('c \<times> nat) list" where
  "owed reqs = List.map_filter (\<lambda>r. map_option (\<lambda>cb. (cb, rq_userdata r)) (rq_cb r)) reqs"

fun event_answered :: "'c ui_event \<Rightarrow> ('c \<times> nat) option" where
  "event_answered (Query_cb cb reply error userdata) = Some (cb, userdata)"
| "event_answered _ = None"

fun event_withdrawn :: "'c ui_event \<Rightarrow> 'c ui_request option" where
  "event_withdrawn (Cancel_call request_id req) = Some req"
| "event_withdrawn _ = None"

definition answered :: "'c ui_event list \<Rightarrow> ('c \<times> nat) list" where
  "answered events = List.map_filter event_answered events"

definition withdrawn :: "'c ui_event list \<Rightarrow> 'c ui_request list" where
  "withdrawn events = List.map_filter event_withdrawn events"

definition unanswered :: "'c signonui_proxy \<Rightarrow> 'c ui_request list" where
  "unanswered p = (case sp_active p of None \<Rightarrow> [] | Some r \<Rightarrow> [r]) @ sp_queue p"

definition balance :: "'c signonui_proxy \<Rightarrow> ('c \<times> nat) multiset" where
  "balance p = mset (answered (sp_log p)) + mset (owed (withdrawn (sp_log p))) + mset (owed (unanswered p))"

lemma owed_simps [simp]:
  "owed [] = []"
  "owed (r # rs) = (case rq_cb r of None \<Rightarrow> [] | Some cb \<Rightarrow> [(cb, rq_userdata r)]) @ owed rs"
  "owed (rs @ ss) = owed rs @ owed ss"
  by (auto simp: owed_def List.map_filter_def split: option.splits)

lemma answered_simps [simp]:
  "answered [] = []"
  "answered (e # es) = (case event_answered e of None \<Rightarrow> [] | Some x \<Rightarrow> [x]) @ answered es"
  "answered (es @ fs) = answered es @ answered fs"
  by (auto simp: answered_def List.map_filter_def split: option.splits)

lemma withdrawn_simps [simp]:
  "withdrawn [] = []"
  "withdrawn (e # es) = (case event_withdrawn e of None \<Rightarrow> [] | Some x \<Rightarrow> [x]) @ withdrawn es"
  "withdrawn (es @ fs) = withdrawn es @ withdrawn fs"
  by (auto simp: withdrawn_def List.map_filter_def split: option.splits)

lemmas ui_call_defs = gsignond_dbus_signonui_adapter_query_dialog_def gsignond_dbus_signonui_adapter_refresh_dialog_def
  gsignond_dbus_signonui_adapter_cancel_request_def through_adapter_def adapter_ready_def setup_ui_connection_def
  adapter_has_proxy_def ui_emit_def

lemmas ui_splits = option.splits prod.splits if_splits list.splits ui_setup.splits

lemma through_adapter_frames:
  assumes "through_adapter p = (ok, q)"
  shows "sp_active q = sp_active p" "sp_queue q = sp_queue p" "sp_timer q = sp_timer p" "sp_is_idle q = sp_is_idle p"
    "sp_pending q = sp_pending p" "sp_log q = sp_log p"
  using assms by (auto simp: through_adapter_def split: option.splits prod.splits)

lemma through_adapter_ok:
  assumes "through_adapter p = (ok, q)" "adapter_ok p"
  shows "adapter_ok q \<and> (ok \<longrightarrow> adapter_has_proxy q)"
  using assms by (auto simp: through_adapter_def adapter_ready_def setup_ui_connection_def adapter_has_proxy_def
      adapter_ok_def split: ui_splits)

lemma balance_cong:
  "sp_active q = sp_active p \<Longrightarrow> sp_queue q = sp_queue p \<Longrightarrow>
     answered (sp_log q) = answered (sp_log p) \<Longrightarrow> withdrawn (sp_log q) = withdrawn (sp_log p) \<Longrightarrow> balance q = balance p"
  by (simp add: balance_def unanswered_def)

lemma adapter_ok_emit [simp]: "adapter_ok (ui_emit e p) = adapter_ok p"
  by (simp add: adapter_ok_def ui_emit_def)

lemma adapter_ok_frames [simp]:
  "adapter_ok (p\<lparr>sp_pending := n\<rparr>) = adapter_ok p" "adapter_ok (p\<lparr>sp_active := r\<rparr>) = adapter_ok p"
  "adapter_ok (p\<lparr>sp_queue := q\<rparr>) = adapter_ok p" "adapter_ok (p\<lparr>sp_is_idle := b\<rparr>) = adapter_ok p"
  by (auto simp: adapter_ok_def)

lemma call_query_dialog:
  assumes "gsignond_dbus_signonui_adapter_query_dialog params p = (ok, p')"
  shows "balance p' = balance p" "sp_active p' = sp_active p" "sp_queue p' = sp_queue p" "sp_timer p' = sp_timer p"
    "adapter_ok p \<Longrightarrow> adapter_ok p'" "\<not> ok \<Longrightarrow> sp_pending p' = sp_pending p"
    "adapter_ok p \<Longrightarrow> ok \<Longrightarrow> sp_pending p' = sp_pending p + 1"
    "sp_log p' = sp_log p @ (if ok \<and> adapter_has_proxy p' then [Query_call params] else [])"
    "sp_pending p' = sp_pending p + (if ok \<and> adapter_has_proxy p' then 1 else 0)"
    "adapter_has_proxy p \<Longrightarrow> ok \<and> adapter_has_proxy p'"
    "ok \<Longrightarrow> sp_signonui p' \<noteq> None"
proof -
  obtain made q where q: "through_adapter p = (made, q)" by fastforce
  note f = through_adapter_frames [OF q] and k = through_adapter_ok [OF q]
  have p': "ok = made" "p' = (if made \<and> adapter_has_proxy q
      then ui_emit (Query_call params) (q\<lparr>sp_pending := sp_pending q + 1\<rparr>) else q)"
    using assms q by (auto simp: gsignond_dbus_signonui_adapter_query_dialog_def split: bool.splits)
  show "balance p' = balance p" using f by (intro balance_cong) (auto simp: p' ui_emit_def)
  show "sp_active p' = sp_active p" "sp_queue p' = sp_queue p" "sp_timer p' = sp_timer p"
    "\<not> ok \<Longrightarrow> sp_pending p' = sp_pending p"
    "sp_log p' = sp_log p @ (if ok \<and> adapter_has_proxy p' then [Query_call params] else [])"
    "sp_pending p' = sp_pending p + (if ok \<and> adapter_has_proxy p' then 1 else 0)"
    using f by (simp_all add: p' ui_emit_def adapter_has_proxy_def)
  show "adapter_has_proxy p \<Longrightarrow> ok \<and> adapter_has_proxy p'" "ok \<Longrightarrow> sp_signonui p' \<noteq> None"
    using q by (auto simp: p' ui_emit_def adapter_has_proxy_def through_adapter_def adapter_ready_def
        split: option.splits prod.splits)
  show "adapter_ok p \<Longrightarrow> adapter_ok p'" "adapter_ok p \<Longrightarrow> ok \<Longrightarrow> sp_pending p' = sp_pending p + 1"
    using f k by (simp_all add: p' ui_emit_def [of _ "q\<lparr>sp_pending := n\<rparr>" for n])
      (simp_all add: adapter_ok_def)
qed

lemma adapter_ok_ensure: "adapter_ok p \<Longrightarrow> adapter_ok (ensure_signonui p)"
  by (auto simp: adapter_ok_def ensure_signonui_def gsignond_dbus_signonui_adapter_new_def
      setup_ui_connection_def split: ui_splits)

lemma ensure_frames [simp]:
  "sp_active (ensure_signonui p) = sp_active p" "sp_log (ensure_signonui p) = sp_log p"
  "sp_pending (ensure_signonui p) = sp_pending p" "sp_timer (ensure_signonui p) = sp_timer p"
  by (auto simp: ensure_signonui_def split: ui_splits)

lemma dialog_answered_frames [simp]:
  "sp_active (dialog_answered reply error p) = None"
  "sp_pending (dialog_answered reply error p) = sp_pending p"
  "sp_timer (dialog_answered reply error p) = sp_timer p"
  "adapter_ok (dialog_answered reply error p) = adapter_ok p"
  "balance (dialog_answered reply error p) = balance p"
  by (auto simp: dialog_answered_def ui_emit_def adapter_ok_def balance_def unanswered_def Let_def split: option.splits)

lemma balance_frames [simp]:
  "balance (ensure_signonui p) = balance p"
  "balance (p\<lparr>sp_handlers := n\<rparr>) = balance p"
  "balance (p\<lparr>sp_is_idle := b\<rparr>) = balance p"
  "balance (p\<lparr>sp_pending := n\<rparr>) = balance p"
  by (auto simp: balance_def unanswered_def)

subsection \<open>The loop over the queue\<close>

text \<open>One turn: the queue is empty, the request is refused and the loop goes on, or its dialog is shown.\<close>

definition refuses :: "'c ui_request \<Rightarrow> u32 \<Rightarrow> 'c signonui_proxy \<Rightarrow> 'c signonui_proxy \<Rightarrow> bool" where
  "refuses req e p p' \<longleftrightarrow>
     sp_queue p' = tl (sp_queue p) \<and> sp_active p' = None \<and> sp_pending p' = sp_pending p \<and>
     \<not> adapter_has_proxy p \<and>
     sp_log p' = sp_log p @ (case rq_cb req of None \<Rightarrow> []
       | Some cb \<Rightarrow> [Query_cb cb (Some (ui_error_reply e)) None (rq_userdata req)]) \<and>
     (adapter_ok p \<longrightarrow> adapter_ok p') \<and> (sp_active p = None \<longrightarrow> balance p' = balance p)"

definition shows_dialog :: "'c ui_request \<Rightarrow> 'c signonui_proxy \<Rightarrow> 'c signonui_proxy \<Rightarrow> bool" where
  "shows_dialog req p p' \<longleftrightarrow>
     (let data = gsignond_signonui_data_set_request_id (rq_data req) (Some (rq_type req))
      in sp_queue p' = tl (sp_queue p) \<and> sp_active p' = Some (req\<lparr>rq_data := data\<rparr>) \<and>
         \<not> sp_is_idle p' \<and> \<not> sp_timer p' \<and>
         sp_log p' = sp_log p @ (if adapter_has_proxy p' then [Query_call data] else []) \<and>
         sp_pending p' = sp_pending p + (if adapter_has_proxy p' then 1 else 0) \<and>
         sp_signonui p' \<noteq> None \<and> (adapter_has_proxy p \<longrightarrow> adapter_has_proxy p') \<and>
         (adapter_ok p \<longrightarrow> adapter_ok p' \<and> sp_pending p' = sp_pending p + 1) \<and>
         (sp_active p = None \<longrightarrow> balance p' = balance p))"

lemma refuses_answered:
  assumes "sp_queue q = rest" "sp_active q = Some r" "rq_cb r = rq_cb req" "rq_userdata r = rq_userdata req"
    and "sp_queue p = req # rest" "sp_pending q = sp_pending p" "sp_log q = sp_log p"
    and "adapter_ok p \<longrightarrow> adapter_ok q" "sp_active p = None \<longrightarrow> balance q = balance p" "\<not> adapter_has_proxy p"
  shows "refuses req e p (dialog_answered (Some (ui_error_reply e)) None q)"
  using assms by (auto simp: refuses_def) (auto simp: dialog_answered_def ui_emit_def Let_def split: option.splits)

lemma process_next_cases:
  obtains (empty) "sp_queue p = []"
      "process_next_request p = p\<lparr>sp_is_idle := True, sp_active := None, sp_timer := True\<rparr>"
  | (refused) req rest e p' where "sp_queue p = req # rest"
      "e \<in> {SIGNONUI_ERROR_NO_SIGNONUI, SIGNONUI_ERROR_GENERAL}" "refuses req e p p'"
      "process_next_request p = process_next_request p'"
  | (shown) req rest where "sp_queue p = req # rest" "shows_dialog req p (process_next_request p)"
proof (cases "sp_queue p")
  case Nil
  with empty show thesis by (simp add: process_next_request.simps)
next
  case (Cons req rest)
  define q where "q = ensure_signonui (p\<lparr>sp_queue := rest, sp_active := Some req, sp_timer := False\<rparr>)"
  define data where "data = gsignond_signonui_data_set_request_id (rq_data req) (Some (rq_type req))"
  define q2 where "q2 = q\<lparr>sp_handlers := sp_handlers q + 1, sp_active := Some (req\<lparr>rq_data := data\<rparr>)\<rparr>"
  have q: "sp_queue q = rest" "sp_active q = Some req" "sp_pending q = sp_pending p" "sp_log q = sp_log p"
    "\<not> sp_timer q" by (simp_all add: q_def)
  have ok_q: "adapter_ok q" if "adapter_ok p"
    unfolding q_def using that by (intro adapter_ok_ensure) (simp add: adapter_ok_def)
  have kept: "adapter_has_proxy q" "sp_signonui q \<noteq> None" if "adapter_has_proxy p"
    using that by (auto simp: q_def ensure_signonui_def adapter_has_proxy_def split: option.splits)
  have bal_q: "balance q = balance p" if "sp_active p = None"
    using that q Cons by (simp add: balance_def unanswered_def)
  have q2: "sp_queue q2 = rest" "sp_pending q2 = sp_pending p" "sp_log q2 = sp_log p" "\<not> sp_timer q2"
    "sp_active q2 = Some (req\<lparr>rq_data := data\<rparr>)"
    by (simp_all add: q2_def q)
  have ok_q2: "adapter_ok q2" if "adapter_ok p"
    using ok_q [OF that] by (simp add: q2_def adapter_ok_def)
  have kept2: "adapter_has_proxy q2" if "adapter_has_proxy p"
    using kept(1) [OF that] by (simp add: q2_def adapter_has_proxy_def)
  have bal_q2: "balance q2 = balance p" if "sp_active p = None"
    using that q2 Cons by (simp add: balance_def unanswered_def split: option.split)
  obtain ok q3 where call: "gsignond_dbus_signonui_adapter_query_dialog data q2 = (ok, q3)" by fastforce
  note c = call_query_dialog [OF call]
  have step: "process_next_request p =
      (if sp_signonui q = None
       then process_next_request (dialog_answered (Some (ui_error_reply SIGNONUI_ERROR_NO_SIGNONUI)) None q)
       else if \<not> ok
       then process_next_request (dialog_answered (Some (ui_error_reply SIGNONUI_ERROR_GENERAL)) None q3)
       else q3\<lparr>sp_is_idle := False\<rparr>)"
    using Cons call
    by (simp add: process_next_request.simps [of p] q_def [symmetric] data_def [symmetric] Let_def q2_def)
  consider "sp_signonui q = None" | "sp_signonui q \<noteq> None" "\<not> ok" | "sp_signonui q \<noteq> None" "ok" by blast
  then show thesis
  proof cases
    case 1
    then have "refuses req SIGNONUI_ERROR_NO_SIGNONUI p
        (dialog_answered (Some (ui_error_reply SIGNONUI_ERROR_NO_SIGNONUI)) None q)"
      using q ok_q bal_q Cons kept 1 by (intro refuses_answered [where r = req]) auto
    then show thesis using step 1 by (intro refused [OF Cons]) simp_all
  next
    case 2
    have "sp_log q3 = sp_log p" "sp_active q3 = Some (req\<lparr>rq_data := data\<rparr>)" "sp_queue q3 = rest"
        "sp_pending q3 = sp_pending p"
      using c(2,3,6,8) 2 q2 by simp_all
    moreover have "\<not> adapter_has_proxy p" using c(10) kept2 2 by blast
    ultimately have "refuses req SIGNONUI_ERROR_GENERAL p
        (dialog_answered (Some (ui_error_reply SIGNONUI_ERROR_GENERAL)) None q3)"
      using c(1,5) ok_q2 bal_q2 Cons by (intro refuses_answered [where r = "req\<lparr>rq_data := data\<rparr>"]) simp_all
    then show thesis using step 2 by (intro refused [OF Cons]) simp_all
  next
    case 3
    then have next_p: "process_next_request p = q3\<lparr>sp_is_idle := False\<rparr>" using step by auto
    have "adapter_ok (q3\<lparr>sp_is_idle := False\<rparr>) = adapter_ok q3" by (simp add: adapter_ok_def)
    moreover have "adapter_has_proxy (q3\<lparr>sp_is_idle := False\<rparr>) = adapter_has_proxy q3" by (simp add: adapter_has_proxy_def)
    ultimately have "shows_dialog req p (q3\<lparr>sp_is_idle := False\<rparr>)"
      using q2 c ok_q2 bal_q2 kept2 Cons 3(2) by (simp add: shows_dialog_def data_def [symmetric] Let_def)
    with next_p show thesis by (intro shown [OF Cons]) simp
  qed
qed

lemma process_next_inv:
  assumes "adapter_ok p" "sp_active p = None" "sp_pending p = 0"
  shows "ui_inv (process_next_request p) \<and>
    (sp_is_idle (process_next_request p) \<or> length (sp_queue (process_next_request p)) < length (sp_queue p))"
  using assms
proof (induction "length (sp_queue p)" arbitrary: p rule: less_induct)
  case less
  show ?case
  proof (cases rule: process_next_cases [of p])
    case empty
    then show ?thesis using less.prems by (simp add: ui_inv_def adapter_ok_def)
  next
    case (refused req rest e p')
    then have "length (sp_queue p') < length (sp_queue p)" by (simp add: refuses_def)
    then show ?thesis using less.hyps [of p'] refused less.prems by (auto simp: refuses_def)
  next
    case (shown req rest)
    then show ?thesis using less.prems by (simp add: ui_inv_def shows_dialog_def Let_def)
  qed
qed

lemma process_next_balance: "sp_active p = None \<Longrightarrow> balance (process_next_request p) = balance p"
proof (induction "length (sp_queue p)" arbitrary: p rule: less_induct)
  case less
  show ?case
  proof (cases rule: process_next_cases [of p])
    case empty
    then show ?thesis using less.prems by (simp add: balance_def unanswered_def)
  next
    case (refused req rest e p')
    then have "length (sp_queue p') < length (sp_queue p)" by (simp add: refuses_def)
    then show ?thesis using less.hyps [of p'] refused less.prems by (auto simp: refuses_def)
  next
    case (shown req rest)
    then show ?thesis using less.prems by (simp add: shows_dialog_def Let_def)
  qed
qed

text \<open>
  The whole loop: some requests from the head are refused in their order, each by one callback with
  an error; then the queue is empty and the proxy idle, or the next request has its dialog.
\<close>

definition refusal :: "'c ui_request \<Rightarrow> u32 \<Rightarrow> 'c ui_event list" where
  "refusal req e = (case rq_cb req of None \<Rightarrow> []
     | Some cb \<Rightarrow> [Query_cb cb (Some (ui_error_reply e)) None (rq_userdata req)])"

definition drained :: "'c signonui_proxy \<Rightarrow> 'c signonui_proxy \<Rightarrow> u32 list \<Rightarrow> 'c ui_event list \<Rightarrow> bool" where
  "drained p p' es shown \<longleftrightarrow> set es \<subseteq> {SIGNONUI_ERROR_NO_SIGNONUI, SIGNONUI_ERROR_GENERAL} \<and>
     sp_log p' = sp_log p @ concat (map2 refusal (sp_queue p) es) @ shown \<and>
     sp_pending p' = sp_pending p + length shown \<and>
     (adapter_has_proxy p \<longrightarrow> es = []) \<and>
     (length es = length (sp_queue p) \<and> shown = [] \<and> sp_queue p' = [] \<and> sp_active p' = None \<and> sp_is_idle p' \<or>
      length es < length (sp_queue p) \<and> sp_queue p' = drop (Suc (length es)) (sp_queue p) \<and>
        (let req = sp_queue p ! length es;
             data = gsignond_signonui_data_set_request_id (rq_data req) (Some (rq_type req))
         in sp_active p' = Some (req\<lparr>rq_data := data\<rparr>) \<and>
            shown = (if adapter_has_proxy p' then [Query_call data] else [])) \<and>
        (adapter_has_proxy p \<longrightarrow> adapter_has_proxy p') \<and> sp_signonui p' \<noteq> None \<and> \<not> sp_is_idle p')"

lemma drained_refused:
  assumes "drained p' p'' es shown" "refuses req e p p'" "sp_queue p = req # rest"
    "e \<in> {SIGNONUI_ERROR_NO_SIGNONUI, SIGNONUI_ERROR_GENERAL}"
  shows "drained p p'' (e # es) shown"
proof -
  have "sp_queue p' = rest" "sp_log p' = sp_log p @ refusal req e" "sp_pending p' = sp_pending p" "\<not> adapter_has_proxy p"
    using assms(2,3) by (auto simp: refuses_def refusal_def split: option.splits)
  then show ?thesis using assms(1,3,4) by (auto simp: drained_def Let_def)
qed

lemma process_next_drains: "\<exists>es shown. drained p (process_next_request p) es shown"
proof (induction "length (sp_queue p)" arbitrary: p rule: less_induct)
  case less
  show ?case
  proof (cases rule: process_next_cases [of p])
    case empty
    then show ?thesis by (intro exI [of _ "[]"]) (simp add: drained_def)
  next
    case (refused req rest e p')
    then have "length (sp_queue p') < length (sp_queue p)" by (simp add: refuses_def)
    from less.hyps [OF this] obtain es shown where "drained p' (process_next_request p') es shown" by blast
    from drained_refused [OF this refused(3,1,2)] show ?thesis using refused(4) by auto
  next
    case (shown req rest)
    then have "drained p (process_next_request p) []
        (if adapter_has_proxy (process_next_request p)
         then [Query_call (gsignond_signonui_data_set_request_id (rq_data req) (Some (rq_type req)))] else [])"
      by (simp add: drained_def shows_dialog_def Let_def)
    then show ?thesis by blast
  qed
qed

subsection \<open>Every dialog is answered\<close>

lemma inv_query_dialog:
  assumes "ui_inv p"
  shows "ui_inv (gsignond_signonui_proxy_query_dialog caller type ui_data cb refresh_cb userdata p)"
proof (cases "sp_is_idle p")
  case True
  then show ?thesis using assms
    by (auto simp: gsignond_signonui_proxy_query_dialog_def Let_def ui_inv_def [of p] adapter_ok_def
        intro!: process_next_inv [THEN conjunct1])
next
  case False
  then show ?thesis using assms by (simp add: gsignond_signonui_proxy_query_dialog_def Let_def ui_inv_def adapter_ok_def)
qed

lemma balance_query_dialog:
  assumes "ui_inv p"
  shows "balance (gsignond_signonui_proxy_query_dialog caller type ui_data cb refresh_cb userdata p) =
    balance p + mset (owed [\<lparr>rq_caller = caller, rq_type = type, rq_data = ui_data, rq_cb = cb,
                    rq_refresh_cb = refresh_cb, rq_userdata = userdata\<rparr>])"
proof -
  have "balance (p\<lparr>sp_queue := sp_queue p @ [r]\<rparr>) = balance p + mset (owed [r])" for r
    by (simp add: balance_def unanswered_def)
  then show ?thesis
    using assms process_next_balance [of "p\<lparr>sp_queue := sp_queue p @ [r]\<rparr>" for r]
    by (auto simp: gsignond_signonui_proxy_query_dialog_def Let_def ui_inv_def simp del: owed_simps)
qed

definition dialog_reply :: "gvariant option \<times> gerror option \<Rightarrow> 'c signonui_proxy \<Rightarrow> 'c signonui_proxy" where
  "dialog_reply r p = query_dialog_cb (fst r) (snd r) (p\<lparr>sp_pending := sp_pending p - 1\<rparr>)"

lemma dialog_reply_progress:
  assumes "ui_inv p" "\<not> sp_is_idle p"
  shows "ui_inv (dialog_reply r p)" "balance (dialog_reply r p) = balance p"
    "sp_is_idle (dialog_reply r p) \<or> length (sp_queue (dialog_reply r p)) < length (sp_queue p)"
proof -
  define q where "q = dialog_answered (gsignond_dictionary_new_from_variant (fst r)) (snd r) (p\<lparr>sp_pending := 0\<rparr>)"
  have q: "adapter_ok q" "sp_active q = None" "sp_pending q = 0" "sp_queue q = sp_queue p" "balance q = balance p"
    using assms by (simp_all add: q_def ui_inv_def)
  have "dialog_reply r p = process_next_request q"
    using assms by (simp add: dialog_reply_def query_dialog_cb_def q_def ui_inv_def)
  then show "ui_inv (dialog_reply r p)" "balance (dialog_reply r p) = balance p"
    "sp_is_idle (dialog_reply r p) \<or> length (sp_queue (dialog_reply r p)) < length (sp_queue p)"
    using process_next_inv [OF q(1-3)] process_next_balance [OF q(2)] q(4,5) by simp_all
qed

lemma refresh_signal_frames:
  "sp_queue (refresh_signal request_id p) = sp_queue p \<and> sp_active (refresh_signal request_id p) = sp_active p \<and>
   answered (sp_log (refresh_signal request_id p)) = answered (sp_log p) \<and>
   withdrawn (sp_log (refresh_signal request_id p)) = withdrawn (sp_log p) \<and> ui_inv (refresh_signal request_id p) = ui_inv p"
proof -
  have "let p' = (on_refresh_request request_id ^^ n) p
    in sp_queue p' = sp_queue p \<and> sp_active p' = sp_active p \<and> answered (sp_log p') = answered (sp_log p) \<and>
       withdrawn (sp_log p') = withdrawn (sp_log p) \<and> ui_inv p' = ui_inv p" for n
  proof (induction n)
    case (Suc n)
    define q where "q = (on_refresh_request request_id ^^ n) p"
    have "sp_queue (on_refresh_request request_id q) = sp_queue q \<and> sp_active (on_refresh_request request_id q) = sp_active q \<and>
        answered (sp_log (on_refresh_request request_id q)) = answered (sp_log q) \<and>
        withdrawn (sp_log (on_refresh_request request_id q)) = withdrawn (sp_log q) \<and>
        ui_inv (on_refresh_request request_id q) = ui_inv q"
      by (auto simp: on_refresh_request_def ui_emit_def ui_inv_def adapter_ok_def split: option.splits)
    then show ?case using Suc by (simp add: q_def [symmetric] Let_def)
  qed simp
  then show ?thesis by (simp add: refresh_signal_def Let_def)
qed

lemma refresh_call_frames:
  "balance (snd (gsignond_signonui_proxy_refresh_dialog caller type ui_data p)) = balance p \<and>
   (ui_inv p \<longrightarrow> ui_inv (snd (gsignond_signonui_proxy_refresh_dialog caller type ui_data p)))"
proof -
  obtain made q where q: "through_adapter p = (made, q)" by fastforce
  note f = through_adapter_frames [OF q] and k = through_adapter_ok [OF q]
  have "balance q = balance p" using f by (intro balance_cong) simp_all
  moreover have "ui_inv q" if "ui_inv p" using that f k by (simp add: ui_inv_def)
  moreover have "balance (ui_emit (Refresh_call ui_data) q) = balance q" "ui_inv (ui_emit (Refresh_call ui_data) q) = ui_inv q"
    by (simp_all add: balance_def unanswered_def ui_inv_def) (simp_all add: ui_emit_def)
  moreover have "snd (gsignond_signonui_proxy_refresh_dialog caller type ui_data p) \<in> {p, q, ui_emit (Refresh_call ui_data) q}"
    using q by (simp add: gsignond_signonui_proxy_refresh_dialog_def gsignond_dbus_signonui_adapter_refresh_dialog_def
        split: option.split bool.split)
  ultimately show ?thesis by auto
qed

lemma extract_split: "List.extract P xs = Some (ys, y, zs) \<Longrightarrow> xs = ys @ y # zs"
  by (simp add: extract_Some_iff)

lemma cancel_call_frames:
  assumes "gsignond_dbus_signonui_adapter_cancel_request type req p = (ok, p')" "adapter_ok p"
  shows "adapter_ok p'" "sp_queue p' = sp_queue p" "sp_active p' = sp_active p" "sp_is_idle p' = sp_is_idle p"
    "sp_pending p' = sp_pending p" "sp_timer p' = sp_timer p"
    "sp_log p' = sp_log p @ (if ok then [Cancel_call type req] else [])"
proof -
  obtain made q where q: "through_adapter p = (made, q)" by fastforce
  note f = through_adapter_frames [OF q] and k = through_adapter_ok [OF q assms(2)]
  have p': "ok = made" "p' = (if made then ui_emit (Cancel_call type req) q else q)"
    using assms(1) q k by (auto simp: gsignond_dbus_signonui_adapter_cancel_request_def split: bool.splits)
  show "adapter_ok p'" "sp_queue p' = sp_queue p" "sp_active p' = sp_active p" "sp_is_idle p' = sp_is_idle p"
    "sp_pending p' = sp_pending p" "sp_timer p' = sp_timer p"
    "sp_log p' = sp_log p @ (if ok then [Cancel_call type req] else [])"
    using f k unfolding p' by (simp_all add: ui_emit_def adapter_ok_def)
qed

lemma cancel_frames:
  assumes "ui_inv p"
  shows "ui_inv (snd (gsignond_signonui_proxy_cancel_request caller type cb userdata p)) \<and>
    balance (snd (gsignond_signonui_proxy_cancel_request caller type cb userdata p)) = balance p"
proof (cases "sp_active p")
  case None
  then show ?thesis using assms by (simp add: gsignond_signonui_proxy_cancel_request_def)
next
  case (Some active)
  show ?thesis
  proof (cases "rq_caller active = caller")
    case True
    obtain ok q where q: "gsignond_dbus_signonui_adapter_cancel_request type active p = (ok, q)" by fastforce
    have "adapter_ok p" using assms by (simp add: ui_inv_def)
    note c = cancel_call_frames [OF q this]
    from Some True q show ?thesis
      using assms c by (cases ok) (auto simp: gsignond_signonui_proxy_cancel_request_def ui_inv_def
          balance_def unanswered_def)
  next
    case False
    then show ?thesis using Some assms
      by (auto simp: gsignond_signonui_proxy_cancel_request_def Let_def ui_inv_def adapter_ok_def balance_def
          unanswered_def ui_emit_def cancel_request_cb_def split: option.splits dest!: extract_split)
  qed
qed

lemma ui_step_inv:
  assumes "ui_step p reqs p'" "ui_inv p"
  shows "ui_inv p' \<and> balance p' = balance p + mset (owed reqs)"
  using assms
proof cases
  case (Reply reply error)
  then have "p' = dialog_reply (reply, error) p" "\<not> sp_is_idle p"
    using assms by (auto simp: dialog_reply_def ui_inv_def split: if_splits)
  then show ?thesis using dialog_reply_progress [OF assms(2)] Reply by simp
next
  case (Refresh_signal request_id)
  then show ?thesis using refresh_signal_frames [of request_id p] assms by (simp add: balance_def unanswered_def)
next
  case (Closed adapter)
  then show ?thesis using assms
    by (simp add: ui_inv_def adapter_ok_def balance_def unanswered_def on_connection_closed_def)
qed (use assms in \<open>simp_all add: inv_query_dialog balance_query_dialog refresh_call_frames cancel_frames del: owed_simps(2)\<close>,
     auto simp: refresh_dialog_cb_def cancel_request_cb_def close_ui_connection_def ui_emit_def ui_inv_def adapter_ok_def
       balance_def unanswered_def split: option.splits)

lemma ui_run_inv:
  "ui_run attempts asked p \<Longrightarrow> Setup_no_proxy \<notin> set attempts \<Longrightarrow> ui_inv p \<and> balance p = mset (owed asked)"
proof (induction rule: ui_run.induct)
  case Start
  then show ?case
    by (simp add: ui_inv_def adapter_ok_def gsignond_signonui_proxy_init_def balance_def unanswered_def)
next
  case (Step asked p reqs p')
  then show ?case using ui_step_inv [OF Step.hyps(2)] by simp
qed

lemma replies_drain:
  assumes "ui_inv p" "sp_is_idle p \<or> length (sp_queue p) < length rs"
  shows "\<exists>k \<le> length rs. (\<forall>j < k. sp_pending (fold dialog_reply (take j rs) p) = 1) \<and>
    (let p' = fold dialog_reply (take k rs) p
     in ui_inv p' \<and> balance p' = balance p \<and> sp_is_idle p')"
  using assms
proof (induction rs arbitrary: p)
  case Nil
  then show ?case by simp
next
  case (Cons r rs)
  show ?case
  proof (cases "sp_is_idle p")
    case True
    then show ?thesis using Cons.prems by (intro exI [of _ 0]) simp
  next
    case False
    note r = dialog_reply_progress [OF Cons.prems(1) False, of r]
    have "sp_is_idle (dialog_reply r p) \<or> length (sp_queue (dialog_reply r p)) < length rs"
      using r(3) Cons.prems(2) False by auto
    from Cons.IH [OF r(1) this] obtain k where k: "k \<le> length rs"
      "\<And>j. j < k \<Longrightarrow> sp_pending (fold dialog_reply (take j rs) (dialog_reply r p)) = 1"
      "let p' = fold dialog_reply (take k rs) (dialog_reply r p)
       in ui_inv p' \<and> balance p' = balance (dialog_reply r p) \<and> sp_is_idle p'" by blast
    have "sp_pending (fold dialog_reply (take j (r # rs)) p) = 1" if "j < Suc k" for j
      using that k(2) Cons.prems(1) False by (cases j) (simp_all add: ui_inv_def)
    then show ?thesis using k(1,3) r(2) by (intro exI [of _ "Suc k"]) simp
  qed
qed

lemma idle_balance: "ui_inv p \<Longrightarrow> sp_is_idle p \<Longrightarrow>
    balance p = mset (answered (sp_log p)) + mset (owed (withdrawn (sp_log p)))"
  by (simp add: ui_inv_def balance_def unanswered_def)

subsection \<open>Properties\<close>

text \<open>
  C32. Dialogs are accounted for, as long as no attempt to reach the user interface ends with a connection
  and without the object proxy. Whatever else the daemon, the user interface and the bus do, in whatever order:
  every callback a dialog was asked with has been called exactly once, or its dialog was withdrawn by a cancellation,
  or it is still waiting; the proxy is idle exactly when nothing is waiting on the bus, and then
  nothing waits in the queue. (After such an attempt the proxy can be stuck, with nothing waiting on the bus.)
\<close>

theorem dialogs_accounted:
  assumes "ui_run attempts asked p" "Setup_no_proxy \<notin> set attempts"
  shows "mset (owed asked) = mset (answered (sp_log p)) + mset (owed (withdrawn (sp_log p))) +
           mset (owed ((case sp_active p of None \<Rightarrow> [] | Some r \<Rightarrow> [r]) @ sp_queue p)) \<and>
         (sp_is_idle p \<longleftrightarrow> sp_pending p = 0) \<and> sp_pending p \<le> 1 \<and>
         (sp_is_idle p \<longrightarrow> sp_active p = None \<and> sp_queue p = [])"
  using ui_run_inv [OF assms] by (auto simp: ui_inv_def balance_def unanswered_def split: if_splits)

text \<open>
  C33. No dialog waits for ever once the bus answers, as long as no attempt to reach the user interface
  ends with a connection and without the object proxy: at any time of such a run, as many replies as there are
  requests in the queue and one more, whatever they say, leave the proxy idle at some point, with every callback
  called or withdrawn; until then the bus owes it a reply after each reply. (After an attempt of that kind a dialog can
  wait for ever.)
\<close>

theorem dialogs_all_answered:
  assumes "ui_run attempts asked p" "Setup_no_proxy \<notin> set attempts" "length rs = Suc (length (sp_queue p))"
  shows "\<exists>k \<le> length rs. (\<forall>j < k. sp_pending (fold dialog_reply (take j rs) p) = 1) \<and>
    (let p' = fold dialog_reply (take k rs) p
     in sp_is_idle p' \<and> sp_active p' = None \<and> sp_queue p' = [] \<and>
        mset (answered (sp_log p')) + mset (owed (withdrawn (sp_log p'))) = mset (owed asked))"
proof -
  note inv = ui_run_inv [OF assms(1,2)]
  obtain k where k: "k \<le> length rs" "\<forall>j < k. sp_pending (fold dialog_reply (take j rs) p) = 1"
      "let p' = fold dialog_reply (take k rs) p in ui_inv p' \<and> balance p' = balance p \<and> sp_is_idle p'"
    using replies_drain [of p rs] inv assms(3) by auto
  then have "let p' = fold dialog_reply (take k rs) p
     in sp_is_idle p' \<and> sp_active p' = None \<and> sp_queue p' = [] \<and>
        mset (answered (sp_log p')) + mset (owed (withdrawn (sp_log p'))) = mset (owed asked)"
    using inv idle_balance [of "fold dialog_reply (take k rs) p"] by (simp add: Let_def ui_inv_def)
  with k show ?thesis by blast
qed

text \<open>
  C34. One call of the queue's loop ends, for every state and every outcome of the attempts to reach the user
  interface: it refuses requests from the head in their order, each by one callback with an error of the user
  interface, and none when the adapter has its object proxy at the start; then it stops with an empty queue and the proxy
  idle, or with the next request active and the rest still queued. The call that shows this request goes out
  on the bus exactly when the adapter has its object proxy then, which it keeps if it had it at the start, and
  the bus owes a reply more for this call and for nothing else.
\<close>

theorem process_next_request_ends:
  "\<exists>es shown. set es \<subseteq> {SIGNONUI_ERROR_NO_SIGNONUI, SIGNONUI_ERROR_GENERAL} \<and>
     sp_log (process_next_request p) = sp_log p @ concat (map2 refusal (sp_queue p) es) @ shown \<and>
     sp_pending (process_next_request p) = sp_pending p + length shown \<and>
     (adapter_has_proxy p \<longrightarrow> es = []) \<and>
     (length es = length (sp_queue p) \<and> shown = [] \<and> sp_queue (process_next_request p) = [] \<and>
        sp_active (process_next_request p) = None \<and> sp_is_idle (process_next_request p) \<or>
      length es < length (sp_queue p) \<and> sp_queue (process_next_request p) = drop (Suc (length es)) (sp_queue p) \<and>
        (let req = sp_queue p ! length es;
             data = gsignond_signonui_data_set_request_id (rq_data req) (Some (rq_type req))
         in sp_active (process_next_request p) = Some (req\<lparr>rq_data := data\<rparr>) \<and>
            shown = (if adapter_has_proxy (process_next_request p) then [Query_call data] else [])) \<and>
        (adapter_has_proxy p \<longrightarrow> adapter_has_proxy (process_next_request p)) \<and>
        sp_signonui (process_next_request p) \<noteq> None \<and> \<not> sp_is_idle (process_next_request p))"
  using process_next_drains [of p] unfolding drained_def .

text \<open>A run: the first dialog finds no user interface, the second is shown, the third waits.\<close>

definition example_dialogs :: "nat signonui_proxy" where
  "example_dialogs =
     gsignond_signonui_proxy_query_dialog 3 ''GSignondAuthSession'' [] (Some 3) None 30
       (gsignond_signonui_proxy_query_dialog 2 ''GSignondIdentity'' [] (Some 2) None 20
         (gsignond_signonui_proxy_query_dialog 1 ''GSignondIdentity'' [] (Some 1) None 10
           (gsignond_signonui_proxy_init [Setup_no_connection])))"

definition example_requests :: "nat ui_request list" where
  "example_requests =
     [\<lparr>rq_caller = 1, rq_type = ''GSignondIdentity'', rq_data = [], rq_cb = Some 1, rq_refresh_cb = None, rq_userdata = 10\<rparr>,
      \<lparr>rq_caller = 2, rq_type = ''GSignondIdentity'', rq_data = [], rq_cb = Some 2, rq_refresh_cb = None, rq_userdata = 20\<rparr>,
      \<lparr>rq_caller = 3, rq_type = ''GSignondAuthSession'', rq_data = [], rq_cb = Some 3, rq_refresh_cb = None, rq_userdata = 30\<rparr>]"

lemma example_dialogs_run: "ui_run [Setup_no_connection] example_requests example_dialogs"
  using ui_run.Step [OF ui_run.Step [OF ui_run.Step [OF ui_run.Start Ask] Ask] Ask]
  unfolding example_dialogs_def example_requests_def by simp

lemma example_dialogs_state:
  "answered (sp_log example_dialogs) = [(1, 10)] \<and> length (sp_queue example_dialogs) = 1 \<and>
   map_option rq_userdata (sp_active example_dialogs) = Some 20 \<and> \<not> sp_is_idle example_dialogs"
  by (simp add: example_dialogs_def gsignond_signonui_proxy_query_dialog_def gsignond_signonui_proxy_init_def
      process_next_request.simps ensure_signonui_def gsignond_dbus_signonui_adapter_new_def ui_call_defs
      dialog_answered_def Let_def)

lemma dialogs_accounted_witness:
  "\<exists>p. ui_run [Setup_no_connection] example_requests p \<and> answered (sp_log p) = [(1 :: nat, 10)] \<and>
     mset (owed example_requests) = mset (answered (sp_log p)) + mset (owed (withdrawn (sp_log p))) +
       mset (owed ((case sp_active p of None \<Rightarrow> [] | Some r \<Rightarrow> [r]) @ sp_queue p))"
  using dialogs_accounted [OF example_dialogs_run] example_dialogs_run example_dialogs_state by auto

lemma dialogs_all_answered_witness:
  "\<exists>k \<le> 2. let p' = fold dialog_reply (take k [(None, None), (None, None)]) example_dialogs
     in sp_is_idle p' \<and> mset (answered (sp_log p')) + mset (owed (withdrawn (sp_log p'))) = mset (owed example_requests)"
  using dialogs_all_answered [OF example_dialogs_run, of "[(None, None), (None, None)]"] example_dialogs_state
  by (auto simp: Let_def numeral_2_eq_2)

text \<open>With a connected adapter the first request is shown, and its call is on the bus.\<close>

lemma process_next_request_ends_witness:
  "let p = (gsignond_signonui_proxy_init [])
       \<lparr>sp_signonui := Some \<lparr>ad_connection = True, ad_proxy = True\<rparr>, sp_queue := example_requests\<rparr>
   in sp_log (process_next_request p) =
        [Query_call (gsignond_signonui_data_set_request_id [] (Some ''GSignondIdentity''))] \<and>
      sp_pending (process_next_request p) = 1 \<and> length (sp_queue (process_next_request p)) = 2"
proof -
  define p :: "nat signonui_proxy" where "p = (gsignond_signonui_proxy_init [])
       \<lparr>sp_signonui := Some \<lparr>ad_connection = True, ad_proxy = True\<rparr>, sp_queue := example_requests\<rparr>"
  have p: "adapter_has_proxy p" "sp_queue p = example_requests" "sp_log p = []" "sp_pending p = 0"
    by (simp_all add: p_def adapter_has_proxy_def gsignond_signonui_proxy_init_def)
  have "sp_log (process_next_request p) =
        [Query_call (gsignond_signonui_data_set_request_id [] (Some ''GSignondIdentity''))] \<and>
      sp_pending (process_next_request p) = 1 \<and> length (sp_queue (process_next_request p)) = 2"
    using process_next_request_ends [of p] p by (auto simp: example_requests_def Let_def)
  then show ?thesis by (simp only: p_def Let_def)
qed

subsection \<open>Where the code falls short\<close>

text \<open>
  An adapter with a connection and no object proxy, what an attempt that fails at the last step leaves,
  passes for connected: the dialog's call goes nowhere, and the proxy waits for a reply that no call
  will bring.
\<close>

lemma half_connected_adapter_stalls:
  assumes "sp_signonui p = Some \<lparr>ad_connection = True, ad_proxy = False\<rparr>" "sp_is_idle p" "sp_queue p = []"
  shows "let p' = gsignond_signonui_proxy_query_dialog caller type ui_data cb refresh_cb userdata p
    in \<not> sp_is_idle p' \<and> sp_pending p' = sp_pending p \<and> sp_log p' = sp_log p"
  using assms by (simp add: gsignond_signonui_proxy_query_dialog_def process_next_request.simps ensure_signonui_def
      ui_call_defs Let_def)

text \<open>One signal runs the handler once per dialog shown through the adapter so far.\<close>

lemma refresh_handled_repeatedly:
  assumes "sp_active p = Some req" "rq_type req = request_id" "rq_refresh_cb req = Some cb"
  shows "sp_log (refresh_signal request_id p) =
    sp_log p @ replicate (sp_handlers p) (Refresh_cb cb (rq_data req) (rq_userdata req))"
proof -
  have eq: "on_refresh_request request_id q = ui_emit (Refresh_cb cb (rq_data req) (rq_userdata req)) q"
    if "sp_active q = Some req" for q using that assms by (simp add: on_refresh_request_def g_strcmp0_eq_0)
  have "sp_active ((on_refresh_request request_id ^^ n) p) = Some req \<and>
      sp_log ((on_refresh_request request_id ^^ n) p) =
      sp_log p @ replicate n (Refresh_cb cb (rq_data req) (rq_userdata req))" for n
    by (induction n) (simp_all add: assms eq ui_emit_def replicate_append_same)
  then show ?thesis by (simp add: refresh_signal_def)
qed

text \<open>While the reply to a withdrawn dialog is outstanding, no queued request can be cancelled.\<close>

lemma no_cancel_after_cancel:
  "sp_active p = None \<Longrightarrow> gsignond_signonui_proxy_cancel_request caller type cb userdata p = (False, p)"
  by (simp add: gsignond_signonui_proxy_cancel_request_def)

end
