(* ===== verification/Gsso_Plugins.thy ===== *)
theory Gsso_Plugins
  imports Gsso_Signonui_Data Gsso_Error Gsso_Plugin_Proxy
begin

text \<open>
  The plugins of \<^verbatim>\<open>src/src/plugins/password/gsignond-password-plugin.c\<close> and
  \<^verbatim>\<open>src/src/plugins/digest/gsignond-digest-plugin.c\<close>. A method of a plugin maps the state of
  the plugin to the signals it emits and the state after it. What a session may rely on is the
  interface \<open>answering_plugin\<close>: an initial request is answered by one signal, which ends the request or
  asks for the user, and what the user did ends it with one signal.

  MD5 and the nonce generator are parameters.
\<close>

datatype plugin_signal =
    Response dictionary
  | Response_final dictionary
  | Store dictionary
  | Plugin_error gerror
  | User_action_required dictionary
  | Refreshed dictionary
  | Status_changed plugin_state string

definition session_canceled :: "string \<Rightarrow> plugin_signal" where
  "session_canceled message = Plugin_error (gsignond_get_gerror_for_id GSIGNOND_ERROR_SESSION_CANCELED message)"

definition user_action_error :: "u32 \<Rightarrow> plugin_signal" where
  "user_action_error e = Plugin_error (gsignond_get_gerror_for_id GSIGNOND_ERROR_USER_INTERACTION
     (''userActionFinished error: '' @ print_int e))"

definition no_error_value :: plugin_signal where
  "no_error_value = Plugin_error (gsignond_get_gerror_for_id GSIGNOND_ERROR_USER_INTERACTION
     ''userActionFinished did not return an error value'')"

text \<open>A string that is neither NULL nor empty.\<close>

definition present :: "cstr \<Rightarrow> bool" where
  "present s = (case s of None \<Rightarrow> False | Some s \<Rightarrow> s \<noteq> '''')"

subsection \<open>The password plugin\<close>

text \<open>It has no state.\<close>

definition gsignond_password_plugin_cancel :: "unit \<Rightarrow> plugin_signal list \<times> unit" where
  "gsignond_password_plugin_cancel self = ([session_canceled ''Session canceled''], self)"

definition gsignond_password_plugin_request :: "dictionary \<Rightarrow> unit \<Rightarrow> plugin_signal list \<times> unit" where
  "gsignond_password_plugin_request session_data self = ([], self)"

definition gsignond_password_plugin_request_initial ::
  "dictionary \<Rightarrow> dictionary option \<Rightarrow> cstr \<Rightarrow> unit \<Rightarrow> plugin_signal list \<times> unit" where
  "gsignond_password_plugin_request_initial session_data identity_method_cache mechanism self =
     (let username = gsignond_session_data_get_username session_data;
          secret = gsignond_session_data_get_secret session_data
      in if present secret then
           let response = gsignond_dictionary_new;
               response = (if present username then gsignond_session_data_set_username response username else response);
               response = gsignond_session_data_set_secret response secret
           in ([Response_final response], self)
         else
           let user_action_data = gsignond_dictionary_new;
               user_action_data =
                 (if \<not> present username then gsignond_signonui_data_set_query_username user_action_data True
                  else gsignond_signonui_data_set_username
                         (gsignond_signonui_data_set_query_username user_action_data False) username);
               user_action_data = gsignond_signonui_data_set_query_password user_action_data True
           in ([User_action_required user_action_data], self))"

definition gsignond_password_plugin_user_action_finished ::
  "dictionary \<Rightarrow> unit \<Rightarrow> plugin_signal list \<times> unit" where
  "gsignond_password_plugin_user_action_finished session_data self =
     (case gsignond_signonui_data_get_query_error session_data of
        None \<Rightarrow> ([no_error_value], self)
      | Some query_error \<Rightarrow>
          let username = gsignond_signonui_data_get_username session_data;
              secret = gsignond_signonui_data_get_password session_data
          in if query_error = SIGNONUI_ERROR_NONE \<and> username \<noteq> None \<and> secret \<noteq> None then
               let response = gsignond_session_data_set_username gsignond_dictionary_new username;
                   response = gsignond_session_data_set_secret response secret
               in ([Response_final response], self)
             else if query_error = SIGNONUI_ERROR_CANCELED then ([session_canceled ''Session canceled''], self)
             else ([user_action_error query_error], self))"

definition gsignond_password_plugin_refresh :: "dictionary \<Rightarrow> unit \<Rightarrow> plugin_signal list \<times> unit" where
  "gsignond_password_plugin_refresh session_data self = ([Refreshed session_data], self)"

subsection \<open>The digest plugin\<close>

text \<open>
  The updates of a checksum append to what is digested; reading it gives \<open>md5\<close> of the whole in
  hexadecimal. The state of the plugin is the session data it keeps for the user's answer.
\<close>

definition digest_plugin_compute_md5_digest ::
  "(string \<Rightarrow> string) \<Rightarrow> string \<Rightarrow> string \<Rightarrow> string \<Rightarrow> string \<Rightarrow> string \<Rightarrow> cstr \<Rightarrow> string \<Rightarrow> cstr \<Rightarrow>
   string \<Rightarrow> string \<Rightarrow> cstr \<Rightarrow> string" where
  "digest_plugin_compute_md5_digest md5 algo username realm secret nonce nonce_count cnonce qop meth digest_uri hentity =
     (let a1 = username;
          a1 = a1 @ '':'';
          a1 = a1 @ realm;
          a1 = a1 @ '':'';
          a1 = a1 @ secret;
          a1 = (if g_strcmp0 (Some algo) (Some ''md5-sess'') = 0
                then md5 a1 @ '':'' @ nonce @ '':'' @ cnonce else a1);
          a2 = meth @ '':'' @ digest_uri;
          a2 = (if qop \<noteq> None \<and> g_strcmp0 qop (Some ''auth-int'') = 0 \<and> hentity \<noteq> None
                then a2 @ '':'' @ the hentity else a2);
          ha1 = md5 a1;
          ha2 = md5 a2;
          response = ha1 @ '':'' @ nonce @ '':'';
          response = (case qop of None \<Rightarrow> response
            | Some q \<Rightarrow> response @ the nonce_count @ '':'' @ cnonce @ '':'' @ q @ '':'');
          response = response @ ha2
      in md5 response)"

definition plugin_error :: "gsignond_error \<Rightarrow> string \<Rightarrow> plugin_signal" where
  "plugin_error e message = Plugin_error (gsignond_get_gerror_for_id e message)"

text \<open>
  The lookup in the sorted sequence of allowed realms finds an equal string; a NULL realm is equal to
  none. \<open>cnonce\<close>: what \<^verbatim>\<open>gsignond_generate_nonce\<close> returns.
\<close>

definition digest_plugin_return_digest ::
  "(string \<Rightarrow> string) \<Rightarrow> cstr \<Rightarrow> string \<Rightarrow> string \<Rightarrow> dictionary \<Rightarrow> plugin_signal" where
  "digest_plugin_return_digest md5 cnonce username secret session_data =
     (let realm = gsignond_session_data_get_realm session_data;
          algo = gsignond_dictionary_get_string session_data ''Algo'';
          nonce = gsignond_dictionary_get_string session_data ''Nonce'';
          nonce_count = gsignond_dictionary_get_string session_data ''NonceCount'';
          qop = gsignond_dictionary_get_string session_data ''Qop'';
          meth = gsignond_dictionary_get_string session_data ''Method'';
          digest_uri = gsignond_dictionary_get_string session_data ''DigestUri'';
          hentity = gsignond_dictionary_get_string session_data ''HEntity''
      in case gsignond_session_data_get_allowed_realms session_data of
           None \<Rightarrow> plugin_error GSIGNOND_ERROR_MISSING_DATA ''Missing realm list''
         | Some allowed_realms \<Rightarrow>
             if \<not> (case realm of None \<Rightarrow> False | Some r \<Rightarrow> r \<in> set allowed_realms)
             then plugin_error GSIGNOND_ERROR_NOT_AUTHORIZED ''Unauthorized realm''
             else case cnonce of
               None \<Rightarrow> plugin_error GSIGNOND_ERROR_MISSING_DATA ''Error in generating nonce''
             | Some cnonce \<Rightarrow>
                 if (realm = None \<or> algo = None \<or> nonce = None \<or> meth = None \<or> digest_uri = None) \<or>
                    (qop \<noteq> None \<and> g_strcmp0 qop (Some ''auth-int'') = 0 \<and> hentity = None) \<or>
                    (qop \<noteq> None \<and> nonce_count = None)
                 then plugin_error GSIGNOND_ERROR_MISSING_DATA ''Missing Session Data''
                 else
                   let digest = digest_plugin_compute_md5_digest md5 (the algo) username (the realm) secret
                         (the nonce) nonce_count cnonce qop (the meth) (the digest_uri) hentity;
                       response = gsignond_session_data_set_username gsignond_dictionary_new (Some username);
                       response = snd (gsignond_dictionary_set_string response ''CNonce'' (Some cnonce));
                       response = snd (gsignond_dictionary_set_string response ''Response'' (Some digest))
                   in Response_final response)"

definition gsignond_digest_plugin_cancel :: "dictionary option \<Rightarrow> plugin_signal list \<times> dictionary option" where
  "gsignond_digest_plugin_cancel self = ([session_canceled ''Session cancelled''], self)"

definition gsignond_digest_plugin_request ::
  "dictionary \<Rightarrow> dictionary option \<Rightarrow> plugin_signal list \<times> dictionary option" where
  "gsignond_digest_plugin_request session_data self = ([], self)"

definition data_set_value :: "dictionary \<Rightarrow> string \<Rightarrow> cstr \<Rightarrow> dictionary" where
  "data_set_value data key value =
     (if value \<noteq> None then snd (gsignond_dictionary_set_string data key value) else data)"

definition gsignond_digest_plugin_request_initial ::
  "(string \<Rightarrow> string) \<Rightarrow> cstr \<Rightarrow> dictionary \<Rightarrow> dictionary option \<Rightarrow> cstr \<Rightarrow> dictionary option \<Rightarrow>
   plugin_signal list \<times> dictionary option" where
  "gsignond_digest_plugin_request_initial md5 cnonce session_data identity_method_cache mechanism self =
     (case (gsignond_session_data_get_username session_data, gsignond_session_data_get_secret session_data) of
        (Some username, Some secret) \<Rightarrow> ([digest_plugin_return_digest md5 cnonce username secret session_data], self)
      | _ \<Rightarrow>
          let user_action_data = gsignond_dictionary_new;
              user_action_data = data_set_value user_action_data ''Realm'' (gsignond_session_data_get_realm session_data);
              user_action_data = data_set_value user_action_data ''DigestUri''
                (gsignond_dictionary_get_string session_data ''DigestUri'');
              user_action_data = gsignond_signonui_data_set_query_username user_action_data True;
              user_action_data = gsignond_signonui_data_set_query_password user_action_data True
          in ([User_action_required user_action_data], Some session_data))"

text \<open>
  Without an error value the function reports that and goes on; \<open>uninit\<close> is what its variable
  \<^verbatim>\<open>query_error\<close> then holds.
\<close>

definition gsignond_digest_plugin_user_action_finished ::
  "(string \<Rightarrow> string) \<Rightarrow> cstr \<Rightarrow> u32 \<Rightarrow> dictionary \<Rightarrow> dictionary option \<Rightarrow>
   plugin_signal list \<times> dictionary option" where
  "gsignond_digest_plugin_user_action_finished md5 cnonce uninit signonui_data self =
     (let res = gsignond_signonui_data_get_query_error signonui_data;
          query_error = (case res of None \<Rightarrow> uninit | Some e \<Rightarrow> e);
          reported = (if res = None then [no_error_value] else []);
          username = gsignond_signonui_data_get_username signonui_data;
          secret = gsignond_signonui_data_get_password signonui_data
      in if query_error = SIGNONUI_ERROR_NONE \<and> username \<noteq> None \<and> secret \<noteq> None \<and> self \<noteq> None then
           (reported @ [digest_plugin_return_digest md5 cnonce (the username) (the secret) (the self)], self)
         else if query_error = SIGNONUI_ERROR_CANCELED then
           (reported @ fst (gsignond_digest_plugin_cancel self), self)
         else (reported @ [user_action_error query_error], self))"

definition gsignond_digest_plugin_refresh ::
  "dictionary \<Rightarrow> dictionary option \<Rightarrow> plugin_signal list \<times> dictionary option" where
  "gsignond_digest_plugin_refresh session_data self = ([Refreshed session_data], self)"

subsection \<open>The interface\<close>

fun ends_request :: "plugin_signal \<Rightarrow> bool" where
  "ends_request (Response_final response) = True"
| "ends_request (Plugin_error error) = True"
| "ends_request _ = False"

fun asks_user :: "plugin_signal \<Rightarrow> bool" where
  "asks_user (User_action_required ui_data) = True"
| "asks_user _ = False"

text \<open>A request and, when the plugin asks for the user, what the user interface replies.\<close>

definition conversation ::
  "(dictionary \<Rightarrow> dictionary option \<Rightarrow> cstr \<Rightarrow> 's \<Rightarrow> plugin_signal list \<times> 's) \<Rightarrow>
   (dictionary \<Rightarrow> 's \<Rightarrow> plugin_signal list \<times> 's) \<Rightarrow>
   dictionary \<Rightarrow> dictionary option \<Rightarrow> cstr \<Rightarrow> dictionary \<Rightarrow> 's \<Rightarrow> plugin_signal list \<times> 's" where
  "conversation request_initial user_action_finished session_data cache mechanism ui_reply self =
     (case request_initial session_data cache mechanism self of (signals, self) \<Rightarrow>
        if list_ex asks_user signals
        then (case user_action_finished ui_reply self of (later, self) \<Rightarrow> (signals @ later, self))
        else (signals, self))"

locale answering_plugin =
  fixes request_initial :: "dictionary \<Rightarrow> dictionary option \<Rightarrow> cstr \<Rightarrow> 's \<Rightarrow> plugin_signal list \<times> 's"
    and user_action_finished :: "dictionary \<Rightarrow> 's \<Rightarrow> plugin_signal list \<times> 's"
    and cancel :: "'s \<Rightarrow> plugin_signal list \<times> 's"
    and reply_ok :: "dictionary \<Rightarrow> bool"
  assumes initial_answers: "\<exists>x. fst (request_initial session_data cache mechanism self) = [x] \<and>
      ends_request x \<noteq> asks_user x"
    and user_answers: "reply_ok reply \<Longrightarrow> \<exists>x. fst (user_action_finished reply self) = [x] \<and> ends_request x"
    and cancel_answers: "\<exists>x. fst (cancel self) = [x] \<and> ends_request x"
begin

lemma one_answer:
  assumes "reply_ok reply"
  shows "\<exists>before x. fst (conversation request_initial user_action_finished session_data cache mechanism reply self) =
      before @ [x] \<and> ends_request x \<and> list_all (\<lambda>b. asks_user b \<and> \<not> ends_request b) before"
proof -
  obtain signals self' where 1: "request_initial session_data cache mechanism self = (signals, self')" by fastforce
  obtain later self'' where 2: "user_action_finished reply self' = (later, self'')" by fastforce
  from 1 initial_answers [of session_data cache mechanism self] obtain x
    where x: "signals = [x]" "ends_request x \<noteq> asks_user x" by auto
  from 2 user_answers [OF assms, of self'] obtain y where y: "later = [y]" "ends_request y" by auto
  show ?thesis
  proof (cases "asks_user x")
    case True
    then show ?thesis using 1 2 x y by (intro exI [of _ "[x]"]) (simp add: conversation_def)
  next
    case False
    then show ?thesis using 1 x by (intro exI [of _ "[]"]) (simp add: conversation_def)
  qed
qed

end

lemmas plugin_outcome_defs = session_canceled_def user_action_error_def no_error_value_def plugin_error_def

interpretation password: answering_plugin gsignond_password_plugin_request_initial
    gsignond_password_plugin_user_action_finished gsignond_password_plugin_cancel "\<lambda>reply. True"
  by unfold_locales
    (auto simp: gsignond_password_plugin_request_initial_def gsignond_password_plugin_user_action_finished_def
      gsignond_password_plugin_cancel_def plugin_outcome_defs Let_def split: option.splits)

lemma return_digest_ends: "ends_request (digest_plugin_return_digest md5 cnonce username secret session_data)"
  by (simp add: digest_plugin_return_digest_def plugin_error_def Let_def split: option.split)

lemma not_asks_when_ends: "ends_request x \<Longrightarrow> \<not> asks_user x"
  by (cases x) simp_all

interpretation digest: answering_plugin "gsignond_digest_plugin_request_initial md5 cnonce"
    "gsignond_digest_plugin_user_action_finished md5 cnonce uninit" gsignond_digest_plugin_cancel
    "\<lambda>reply. gsignond_signonui_data_get_query_error reply \<noteq> None" for md5 cnonce uninit
  by unfold_locales
    (auto simp: gsignond_digest_plugin_request_initial_def gsignond_digest_plugin_user_action_finished_def
      gsignond_digest_plugin_cancel_def session_canceled_def user_action_error_def return_digest_ends not_asks_when_ends
      Let_def split: option.splits)

text \<open>Without an error value the digest plugin answers twice.\<close>

lemma digest_answers_twice:
  assumes "gsignond_signonui_data_get_query_error reply = None"
  shows "\<exists>x. fst (gsignond_digest_plugin_user_action_finished md5 cnonce uninit reply self) = [no_error_value, x] \<and>
    ends_request no_error_value \<and> ends_request x"
  using assms return_digest_ends
  by (auto simp: gsignond_digest_plugin_user_action_finished_def gsignond_digest_plugin_cancel_def
      plugin_outcome_defs Let_def)

subsection \<open>What the digest is\<close>

text \<open>The response of RFC 2617, section 3.2.2, over a hash in hexadecimal.\<close>

fun colons :: "string list \<Rightarrow> string" where
  "colons [] = ''''"
| "colons [x] = x"
| "colons (x # xs) = x @ CHR '':'' # colons xs"

definition rfc2617_response ::
  "(string \<Rightarrow> string) \<Rightarrow> bool \<Rightarrow> string \<Rightarrow> string \<Rightarrow> string \<Rightarrow> string \<Rightarrow> string \<Rightarrow> string \<Rightarrow> cstr \<Rightarrow>
   string \<Rightarrow> string \<Rightarrow> string \<Rightarrow> string" where
  "rfc2617_response H sess username realm passwd nonce nc cnonce qop meth uri entity =
     (let KD = (\<lambda>secret rest. H (colons [secret, rest]));
          A1 = (if sess then colons [H (colons [username, realm, passwd]), nonce, cnonce]
                else colons [username, realm, passwd]);
          A2 = (if qop = Some ''auth-int'' then colons [meth, uri, entity] else colons [meth, uri])
      in case qop of
           None \<Rightarrow> KD (H A1) (colons [nonce, H A2])
         | Some q \<Rightarrow> KD (H A1) (colons [nonce, nc, cnonce, q, H A2]))"

lemma digest_is_rfc2617:
  assumes "qop = Some ''auth-int'' \<Longrightarrow> hentity \<noteq> None" "qop \<noteq> None \<Longrightarrow> nonce_count \<noteq> None"
  shows "digest_plugin_compute_md5_digest md5 algo username realm secret nonce nonce_count cnonce qop meth uri hentity =
    rfc2617_response md5 (algo = ''md5-sess'') username realm secret nonce (or_empty nonce_count) cnonce qop
      meth uri (or_empty hentity)"
  using assms
  by (auto simp: digest_plugin_compute_md5_digest_def rfc2617_response_def g_strcmp0_eq_0 or_empty_def Let_def
      split: option.split)

lemma digest_response_fields:
  "snd (gsignond_dictionary_set_string (snd (gsignond_dictionary_set_string
      (gsignond_session_data_set_username gsignond_dictionary_new (Some username)) ''CNonce'' (Some cn)))
      ''Response'' (Some v)) = [(''UserName'', VString username), (''CNonce'', VString cn), (''Response'', VString v)]"
  by (simp add: gsignond_session_data_set_username_def gsignond_dictionary_set_string_def gsignond_dictionary_set_def
      gsignond_dictionary_new_def g_variant_new_string_def)

subsection \<open>Properties\<close>

lemma session_pair [simp]:
  "gsignond_session_data_get_username (gsignond_session_data_set_secret d s) = gsignond_session_data_get_username d"
  "gsignond_session_data_get_secret (gsignond_session_data_set_secret d (Some v)) = Some v"
  "gsignond_session_data_get_username (gsignond_session_data_set_username d (Some v)) = Some v"
  by (auto intro: session_username.get_local session_secret.set_other simp: session_secret.get_set session_username.get_set)

lemma password_stored:
  assumes "present (gsignond_session_data_get_secret session_data)"
  shows "\<exists>r. fst (conversation gsignond_password_plugin_request_initial gsignond_password_plugin_user_action_finished
      session_data cache mechanism reply self) = [Response_final r] \<and>
    gsignond_session_data_get_secret r = gsignond_session_data_get_secret session_data \<and>
    (present (gsignond_session_data_get_username session_data) \<longrightarrow>
       gsignond_session_data_get_username r = gsignond_session_data_get_username session_data)"
  using assms
  by (auto simp: conversation_def gsignond_password_plugin_request_initial_def present_def Let_def split: option.splits)

lemma password_asked:
  assumes "\<not> present (gsignond_session_data_get_secret session_data)"
  shows "\<exists>ask x. fst (conversation gsignond_password_plugin_request_initial gsignond_password_plugin_user_action_finished
      session_data cache mechanism reply self) = [User_action_required ask, x] \<and> ends_request x \<and>
    (\<forall>r. x = Response_final r \<longrightarrow>
       gsignond_signonui_data_get_query_error reply = Some SIGNONUI_ERROR_NONE \<and>
       gsignond_session_data_get_secret r = gsignond_signonui_data_get_password reply \<and>
       gsignond_session_data_get_username r = gsignond_signonui_data_get_username reply)"
  using assms
  by (auto simp: conversation_def gsignond_password_plugin_request_initial_def Let_def
      gsignond_password_plugin_user_action_finished_def plugin_outcome_defs split: option.splits)

text \<open>
  Asking the password plugin ends with exactly one answer, its last signal, and whatever precedes
  asks the user. A stored secret is answered without asking; otherwise an answer has just the name and
  the password the user gave, and the user interface reported no error.
\<close>

lemma password_plugin_answers_once:
  assumes "fst (conversation gsignond_password_plugin_request_initial gsignond_password_plugin_user_action_finished
      session_data cache mechanism reply self) = signals"
  shows "\<exists>before x. signals = before @ [x] \<and> ends_request x \<and> list_all (\<lambda>b. asks_user b \<and> \<not> ends_request b) before \<and>
    (before = [] \<longleftrightarrow> present (gsignond_session_data_get_secret session_data)) \<and>
    (\<forall>r. x = Response_final r \<longrightarrow>
       (if before = []
        then gsignond_session_data_get_secret r = gsignond_session_data_get_secret session_data \<and>
             (present (gsignond_session_data_get_username session_data) \<longrightarrow>
                gsignond_session_data_get_username r = gsignond_session_data_get_username session_data)
        else gsignond_signonui_data_get_query_error reply = Some SIGNONUI_ERROR_NONE \<and>
             gsignond_session_data_get_secret r = gsignond_signonui_data_get_password reply \<and>
             gsignond_session_data_get_username r = gsignond_signonui_data_get_username reply))"
proof (cases "present (gsignond_session_data_get_secret session_data)")
  case True
  from password_stored [OF this, of cache mechanism reply self] assms show ?thesis
    using True by (intro exI [of _ "[]"]) auto
next
  case False
  from password_asked [OF this, of cache mechanism reply self] obtain ask x where
    "signals = [User_action_required ask, x]" "ends_request x"
    "\<And>r. x = Response_final r \<Longrightarrow> gsignond_signonui_data_get_query_error reply = Some SIGNONUI_ERROR_NONE \<and>
       gsignond_session_data_get_secret r = gsignond_signonui_data_get_password reply \<and>
       gsignond_session_data_get_username r = gsignond_signonui_data_get_username reply" using assms by auto
  with False show ?thesis by (intro exI [of _ "[User_action_required ask]"] exI [of _ x]) simp
qed

definition example_ui_reply :: dictionary where
  "example_ui_reply = gsignond_signonui_data_set_password (gsignond_signonui_data_set_username
     (gsignond_signonui_data_set_query_error [] SIGNONUI_ERROR_NONE) (Some ''bob'')) (Some ''sesame'')"

lemma password_plugin_answers_once_witness:
  "\<exists>before x. fst (conversation gsignond_password_plugin_request_initial gsignond_password_plugin_user_action_finished
      [] None None example_ui_reply ()) = before @ [x] \<and> ends_request x \<and> before \<noteq> []"
  using password_plugin_answers_once [of "[]" None None example_ui_reply "()", OF refl]
  by (auto simp: present_def gsignond_session_data_get_secret_def gsignond_dictionary_get_string_def gsignond_dictionary_get_def)

text \<open>
  C40. The digest plugin answers a request that has a name and a secret with a response exactly when
  the realm is one of the allowed realms, a nonce was generated and the data of the algorithm is there;
  the response then has the name, the nonce and the value of RFC 2617, and nothing else: not the secret.
\<close>

theorem digest_plugin_response:
  assumes "gsignond_session_data_get_username session_data = Some username"
    and "gsignond_session_data_get_secret session_data = Some secret"
  defines "get \<equiv> gsignond_dictionary_get_string session_data"
  shows "fst (gsignond_digest_plugin_request_initial md5 cnonce session_data cache mechanism self) = [Response_final r] \<longleftrightarrow>
    (\<exists>realms realm algo nonce cn meth uri.
       gsignond_session_data_get_allowed_realms session_data = Some realms \<and>
       gsignond_session_data_get_realm session_data = Some realm \<and> realm \<in> set realms \<and>
       cnonce = Some cn \<and> get ''Algo'' = Some algo \<and> get ''Nonce'' = Some nonce \<and>
       get ''Method'' = Some meth \<and> get ''DigestUri'' = Some uri \<and>
       (get ''Qop'' \<noteq> None \<longrightarrow> get ''NonceCount'' \<noteq> None) \<and>
       (get ''Qop'' = Some ''auth-int'' \<longrightarrow> get ''HEntity'' \<noteq> None) \<and>
       r = [(''UserName'', VString username), (''CNonce'', VString cn),
            (''Response'', VString (rfc2617_response md5 (algo = ''md5-sess'') username realm secret nonce
               (or_empty (get ''NonceCount'')) cn (get ''Qop'') meth uri (or_empty (get ''HEntity''))))])"
proof -
  have "fst (gsignond_digest_plugin_request_initial md5 cnonce session_data cache mechanism self) =
      [digest_plugin_return_digest md5 cnonce username secret session_data]"
    using assms(1,2) by (simp add: gsignond_digest_plugin_request_initial_def)
  moreover have "digest_plugin_compute_md5_digest md5 algo username realm secret nonce (get ''NonceCount'') cn
      (get ''Qop'') meth uri (get ''HEntity'') = rfc2617_response md5 (algo = ''md5-sess'') username realm secret nonce
        (or_empty (get ''NonceCount'')) cn (get ''Qop'') meth uri (or_empty (get ''HEntity''))"
    if "\<not> (get ''Qop'' \<noteq> None \<and> get ''Qop'' = Some ''auth-int'' \<and> get ''HEntity'' = None)"
      "\<not> (get ''Qop'' \<noteq> None \<and> get ''NonceCount'' = None)" for algo realm nonce cn meth uri
    using that by (intro digest_is_rfc2617) auto
  ultimately show ?thesis
    by (cases "get ''Qop'' = Some ''auth-int''"; cases "get ''Qop'' = None")
      (auto simp: digest_plugin_return_digest_def plugin_error_def digest_response_fields
        get_def g_strcmp0_eq_0 Let_def split: option.splits)
qed

definition example_digest_request :: dictionary where
  "example_digest_request =
     [(''UserName'', VString ''bob''), (''Secret'', VString ''sesame''), (''Realm'', VString ''home''),
      (''AllowedRealms'', VArray ''s'' [VString ''home'']), (''Algo'', VString ''md5''), (''Nonce'', VString ''n1''),
      (''Method'', VString ''GET''), (''DigestUri'', VString ''/'')]"

lemma digest_plugin_response_witness:
  "\<exists>r. fst (gsignond_digest_plugin_request_initial (\<lambda>s. s) (Some ''c'') example_digest_request None None None) =
       [Response_final r] \<and> map fst r = [''UserName'', ''CNonce'', ''Response'']"
proof -
  have fields: "gsignond_session_data_get_username example_digest_request = Some ''bob''"
      "gsignond_session_data_get_secret example_digest_request = Some ''sesame''"
      "gsignond_session_data_get_realm example_digest_request = Some ''home''"
      "gsignond_session_data_get_allowed_realms example_digest_request = Some [''home'']"
      "map (gsignond_dictionary_get_string example_digest_request)
         [''Algo'', ''Nonce'', ''Method'', ''DigestUri'', ''Qop''] =
       [Some ''md5'', Some ''n1'', Some ''GET'', Some ''/'', None]"
    by (code_simp; simp)+
  show ?thesis
    using digest_plugin_response [OF fields(1,2), of "\<lambda>s. s" "Some ''c''" None None None] fields(3-5) by auto
qed

end
