(* ===== verification/Gsso_Plugin_Factory.thy ===== *)
theory Gsso_Plugin_Factory
  imports Gsso_Prelude "HOL-Library.AList"
begin

text \<open>
  \<^verbatim>\<open>src/src/daemon/plugins/gsignond-plugin-proxy-factory.c\<close>: which methods there are, the mechanisms
  of each, the loader that provides it, and one plugin proxy per method, shared by its sessions. The
  tables are filled at the first call that needs them.

  Parameters, in a record: the directory of loaders, what a loader prints for \<^verbatim>\<open>--list-plugins\<close>, and
  what the remote plugin of a loader and a type reports as its type and mechanisms (\<open>None\<close> when it
  cannot be started).
\<close>

record plugin_loaders =
  pl_path :: string
  pl_names :: "string list option"
  pl_list :: "string \<Rightarrow> cstr"
  pl_probe :: "string \<Rightarrow> string \<Rightarrow> (string \<times> string list) option"

record plugin_factory =
  pf_mechanisms :: "(string \<times> string list) list"
  pf_loader_paths :: "(string \<times> string) list"
  pf_plugins :: "(string \<times> nat) list"
  pf_methods :: "string list option"
  pf_holders :: "(nat \<times> nat) list"
  pf_next :: nat

definition gsignond_plugin_proxy_factory_init :: plugin_factory where
  "gsignond_plugin_proxy_factory_init =
     \<lparr>pf_mechanisms = [], pf_loader_paths = [], pf_plugins = [], pf_methods = None, pf_holders = [], pf_next = 0\<rparr>"

subsection \<open>Enumeration\<close>

fun split_lines :: "string \<Rightarrow> string list" where
  "split_lines [] = [[]]"
| "split_lines (c # cs) =
     (if c = CHR 10 then [] # split_lines cs
      else case split_lines cs of [] \<Rightarrow> [[c]] | l # ls \<Rightarrow> (c # l) # ls)"

text \<open>\<^verbatim>\<open>g_strsplit\<close> of the empty string is an empty vector.\<close>

definition get_plugin_names_from_loader :: "plugin_loaders \<Rightarrow> string \<Rightarrow> string list option" where
  "get_plugin_names_from_loader ls loader_path =
     map_option (\<lambda>out. if out = '''' then [] else split_lines out) (pl_list ls loader_path)"

definition g_str_has_suffix :: "string \<Rightarrow> string \<Rightarrow> bool" where
  "g_str_has_suffix s e = (length e \<le> length s \<and> drop (length s - length e) s = e)"

fun add_plugins :: "plugin_loaders \<Rightarrow> string \<Rightarrow> string list \<Rightarrow> plugin_factory \<Rightarrow> plugin_factory" where
  "add_plugins ls loader_path [] self = self"
| "add_plugins ls loader_path (p # plugins) self =
     add_plugins ls loader_path plugins
       (case pl_probe ls loader_path p of
          None \<Rightarrow> self
        | Some (plugin_type, mechanisms) \<Rightarrow>
            if g_strcmp0 (Some plugin_type) (Some p) = 0 then
              (if (case map_of (pf_loader_paths self) plugin_type of
                     None \<Rightarrow> False | Some loader \<Rightarrow> g_str_has_suffix loader ''/gsignond-plugind'')
               then self
               else self\<lparr>pf_mechanisms := AList.update plugin_type mechanisms (pf_mechanisms self),
                         pf_loader_paths := AList.update plugin_type loader_path (pf_loader_paths self)\<rparr>)
            else self)"

definition g_build_filename :: "string \<Rightarrow> string \<Rightarrow> string" where
  "g_build_filename dir name = dir @ ''/'' @ name"

definition add_loader :: "plugin_loaders \<Rightarrow> string \<Rightarrow> plugin_factory \<Rightarrow> plugin_factory" where
  "add_loader ls loader_name self =
     (let loader_path = g_build_filename (pl_path ls) loader_name
      in case get_plugin_names_from_loader ls loader_path of
           None \<Rightarrow> self
         | Some plugins \<Rightarrow> add_plugins ls loader_path plugins self)"

definition enumerate_plugins :: "plugin_loaders \<Rightarrow> plugin_factory \<Rightarrow> plugin_factory" where
  "enumerate_plugins ls self =
     (case pl_names ls of
        None \<Rightarrow> self
      | Some names \<Rightarrow>
          let self = fold (add_loader ls) names self
          in self\<lparr>pf_methods := Some (map fst (pf_mechanisms self))\<rparr>)"

definition ensure_enumerated :: "plugin_loaders \<Rightarrow> plugin_factory \<Rightarrow> plugin_factory" where
  "ensure_enumerated ls self = (if pf_methods self = None then enumerate_plugins ls self else self)"

subsection \<open>Queries\<close>

definition gsignond_plugin_proxy_factory_get_plugin_types ::
  "plugin_loaders \<Rightarrow> plugin_factory \<Rightarrow> string list option \<times> plugin_factory" where
  "gsignond_plugin_proxy_factory_get_plugin_types ls self =
     (let self = ensure_enumerated ls self in (pf_methods self, self))"

definition gsignond_plugin_proxy_factory_get_plugin_mechanisms ::
  "plugin_loaders \<Rightarrow> string \<Rightarrow> plugin_factory \<Rightarrow> string list option \<times> plugin_factory" where
  "gsignond_plugin_proxy_factory_get_plugin_mechanisms ls plugin_type self =
     (let self = ensure_enumerated ls self in (map_of (pf_mechanisms self) plugin_type, self))"

subsection \<open>Proxies\<close>

text \<open>
  \<open>pf_holders\<close> counts the references of the sessions to a proxy, beside the toggle reference of the
  factory. When the last goes the proxy disposes of itself after its timeout (\<open>proxy_timeout\<close>), and the
  factory forgets it. \<open>made\<close>: whether \<^verbatim>\<open>gsignond_plugin_proxy_new\<close> gives a proxy.
\<close>

definition gsignond_plugin_proxy_factory_get_plugin ::
  "plugin_loaders \<Rightarrow> bool \<Rightarrow> string \<Rightarrow> plugin_factory \<Rightarrow> nat option \<times> plugin_factory" where
  "gsignond_plugin_proxy_factory_get_plugin ls made plugin_type self =
     (let self = ensure_enumerated ls self
      in case map_of (pf_mechanisms self) plugin_type of
           None \<Rightarrow> (None, self)
         | Some _ \<Rightarrow>
             (case map_of (pf_plugins self) plugin_type of
                Some proxy \<Rightarrow>
                  (Some proxy, self\<lparr>pf_holders := AList.map_entry proxy Suc (pf_holders self)\<rparr>)
              | None \<Rightarrow>
                  if \<not> made then (None, self)
                  else
                    let proxy = pf_next self
                    in (Some proxy, self\<lparr>pf_plugins := AList.update plugin_type proxy (pf_plugins self),
                                        pf_holders := AList.update proxy 1 (pf_holders self),
                                        pf_next := proxy + 1\<rparr>)))"

text \<open>What \<^verbatim>\<open>_proxy_toggle_ref_cb\<close> passes on: whether the reference of the factory is the last one.\<close>

definition proxy_is_last_ref :: "nat \<Rightarrow> plugin_factory \<Rightarrow> bool" where
  "proxy_is_last_ref proxy self = (map_of (pf_holders self) proxy = Some 0)"

definition release_proxy :: "nat \<Rightarrow> plugin_factory \<Rightarrow> plugin_factory" where
  "release_proxy proxy self = self\<lparr>pf_holders := AList.map_entry proxy (\<lambda>n. n - 1) (pf_holders self)\<rparr>"

definition remove_dead_proxy :: "nat \<Rightarrow> plugin_factory \<Rightarrow> plugin_factory" where
  "remove_dead_proxy dead self = self\<lparr>pf_plugins := filter (\<lambda>(key, proxy). proxy \<noteq> dead) (pf_plugins self)\<rparr>"

definition proxy_timeout :: "nat \<Rightarrow> plugin_factory \<Rightarrow> plugin_factory" where
  "proxy_timeout proxy self =
     (if proxy_is_last_ref proxy self
      then remove_dead_proxy proxy (self\<lparr>pf_holders := AList.delete proxy (pf_holders self)\<rparr>) else self)"

subsection \<open>Who provides a method\<close>

definition provides :: "plugin_loaders \<Rightarrow> string \<Rightarrow> string \<Rightarrow> bool" where
  "provides ls loader_name meth \<longleftrightarrow>
     (let path = g_build_filename (pl_path ls) loader_name
      in \<exists>plugins mechs. get_plugin_names_from_loader ls path = Some plugins \<and> meth \<in> set plugins \<and>
           pl_probe ls path meth = Some (meth, mechs))"

text \<open>The tables agree: each method comes with the mechanisms its loader's plugin reports.\<close>

definition consistent :: "plugin_loaders \<Rightarrow> plugin_factory \<Rightarrow> bool" where
  "consistent ls self \<longleftrightarrow> keys_distinct (pf_mechanisms self) \<and>
     (\<forall>m. map_of (pf_mechanisms self) m =
        (case map_of (pf_loader_paths self) m of None \<Rightarrow> None
         | Some path \<Rightarrow> map_option snd (pl_probe ls path m))) \<and>
     (\<forall>m path. map_of (pf_loader_paths self) m = Some path \<longrightarrow> (\<exists>mechs. pl_probe ls path m = Some (m, mechs)))"

definition own_loader :: "string \<Rightarrow> bool" where
  "own_loader path = g_str_has_suffix path ''/gsignond-plugind''"

definition owned :: "plugin_factory \<Rightarrow> string \<Rightarrow> bool" where
  "owned self m \<longleftrightarrow> (\<exists>path. map_of (pf_loader_paths self) m = Some path \<and> own_loader path)"

lemma consistent_step:
  assumes "consistent ls self" "pl_probe ls path p = Some (p, mechs)"
  shows "consistent ls (self\<lparr>pf_mechanisms := AList.update p mechs (pf_mechanisms self),
    pf_loader_paths := AList.update p path (pf_loader_paths self)\<rparr>)"
  using assms by (auto simp: consistent_def update_conv' split: option.splits)

lemma add_plugins_result:
  assumes "consistent ls self"
  shows "consistent ls (add_plugins ls path plugins self) \<and>
    (\<forall>m. map_of (pf_loader_paths (add_plugins ls path plugins self)) m \<noteq> None \<longleftrightarrow>
       map_of (pf_loader_paths self) m \<noteq> None \<or> m \<in> set plugins \<and> (\<exists>mechs. pl_probe ls path m = Some (m, mechs))) \<and>
    (\<forall>m. owned self m \<longrightarrow> owned (add_plugins ls path plugins self) m) \<and>
    (\<forall>m. own_loader path \<and> m \<in> set plugins \<and> (\<exists>mechs. pl_probe ls path m = Some (m, mechs)) \<longrightarrow>
       owned (add_plugins ls path plugins self) m)"
  using assms
proof (induction plugins arbitrary: self)
  case Nil
  then show ?case by simp
next
  case (Cons p plugins)
  define self1 where "self1 = (case pl_probe ls path p of
          None \<Rightarrow> self
        | Some (plugin_type, mechanisms) \<Rightarrow>
            if plugin_type = p then
              (if (case map_of (pf_loader_paths self) plugin_type of
                     None \<Rightarrow> False | Some loader \<Rightarrow> own_loader loader)
               then self
               else self\<lparr>pf_mechanisms := AList.update plugin_type mechanisms (pf_mechanisms self),
                         pf_loader_paths := AList.update plugin_type path (pf_loader_paths self)\<rparr>)
            else self)"
  have step: "add_plugins ls path (p # plugins) self = add_plugins ls path plugins self1"
    by (simp add: self1_def own_loader_def g_strcmp0_eq_0 split: option.split prod.split)
  have inv: "consistent ls self1" using Cons.prems consistent_step [OF Cons.prems, of path p]
    by (auto simp: self1_def split: option.splits)
  have dom: "map_of (pf_loader_paths self1) m \<noteq> None \<longleftrightarrow>
      map_of (pf_loader_paths self) m \<noteq> None \<or> m = p \<and> (\<exists>mechs. pl_probe ls path p = Some (p, mechs))" for m
    by (auto simp: self1_def update_conv' split: option.splits)
  have own: "owned self1 m" if "owned self m \<or> own_loader path \<and> m = p \<and> (\<exists>mechs. pl_probe ls path p = Some (p, mechs))" for m
    using that by (auto simp: self1_def owned_def update_conv' split: option.splits)
  show ?case
    unfolding step using Cons.IH [OF inv] dom own by (simp del: not_None_eq) blast
qed

lemma add_loader_result:
  assumes "consistent ls self"
  shows "consistent ls (add_loader ls name self) \<and>
    (\<forall>m. map_of (pf_loader_paths (add_loader ls name self)) m \<noteq> None \<longleftrightarrow>
       map_of (pf_loader_paths self) m \<noteq> None \<or> provides ls name m) \<and>
    (\<forall>m. owned self m \<or> own_loader (g_build_filename (pl_path ls) name) \<and> provides ls name m \<longrightarrow>
       owned (add_loader ls name self) m)"
proof (cases "get_plugin_names_from_loader ls (g_build_filename (pl_path ls) name)")
  case None
  then show ?thesis using assms by (simp add: add_loader_def provides_def Let_def)
next
  case (Some plugins)
  then show ?thesis using add_plugins_result [OF assms, of "g_build_filename (pl_path ls) name" plugins]
    by (simp add: add_loader_def provides_def Let_def del: not_None_eq)
qed

lemma add_loaders_result:
  assumes "consistent ls self"
  shows "consistent ls (fold (add_loader ls) names self) \<and>
    (\<forall>m. map_of (pf_loader_paths (fold (add_loader ls) names self)) m \<noteq> None \<longleftrightarrow>
       map_of (pf_loader_paths self) m \<noteq> None \<or> (\<exists>n \<in> set names. provides ls n m)) \<and>
    (\<forall>m. owned self m \<or> (\<exists>n \<in> set names. own_loader (g_build_filename (pl_path ls) n) \<and> provides ls n m) \<longrightarrow>
       owned (fold (add_loader ls) names self) m)"
  using assms
proof (induction names arbitrary: self)
  case Nil
  then show ?case by simp
next
  case (Cons n names)
  note one = add_loader_result [OF Cons.prems, of n]
  show ?case using one Cons.IH [of "add_loader ls n self"] by (auto simp del: not_None_eq)
qed

subsection \<open>Properties\<close>

text \<open>
  What an enumeration finds, in whatever order the directory lists the loaders: the methods are
  exactly those that some loader lists and whose plugin reports that type, each once; a method has the
  mechanisms its loader's plugin reports; and a method that gsignond's own loader provides is served
  by that loader and by no other.
\<close>

lemma plugins_enumerated:
  assumes "pl_names ls = Some names"
  shows "let f = enumerate_plugins ls gsignond_plugin_proxy_factory_init
    in pf_methods f = Some (map fst (pf_mechanisms f)) \<and> distinct (map fst (pf_mechanisms f)) \<and>
      (\<forall>m. m \<in> set (map fst (pf_mechanisms f)) \<longleftrightarrow> (\<exists>n \<in> set names. provides ls n m)) \<and>
      (\<forall>m mechs. map_of (pf_mechanisms f) m = Some mechs \<longrightarrow>
         (\<exists>path. map_of (pf_loader_paths f) m = Some path \<and> pl_probe ls path m = Some (m, mechs) \<and>
            ((\<exists>n \<in> set names. own_loader (g_build_filename (pl_path ls) n) \<and> provides ls n m) \<longrightarrow> own_loader path)))"
proof -
  let ?f = "fold (add_loader ls) names gsignond_plugin_proxy_factory_init"
  have "consistent ls gsignond_plugin_proxy_factory_init"
    by (simp add: consistent_def gsignond_plugin_proxy_factory_init_def)
  note r = add_loaders_result [OF this, of names]
  then have c: "keys_distinct (pf_mechanisms ?f)"
      "map_of (pf_mechanisms ?f) m = (case map_of (pf_loader_paths ?f) m of None \<Rightarrow> None
         | Some path \<Rightarrow> map_option snd (pl_probe ls path m))"
      "map_of (pf_loader_paths ?f) m = Some path \<Longrightarrow> \<exists>mechs. pl_probe ls path m = Some (m, mechs)" for m path
    by (simp_all add: consistent_def)
  have known: "m \<in> set (map fst (pf_mechanisms ?f)) \<longleftrightarrow> (\<exists>n \<in> set names. provides ls n m)" for m
  proof -
    have "m \<in> set (map fst (pf_mechanisms ?f)) \<longleftrightarrow> map_of (pf_mechanisms ?f) m \<noteq> None"
      by (simp add: map_of_eq_None_iff)
    also have "\<dots> \<longleftrightarrow> map_of (pf_loader_paths ?f) m \<noteq> None"
      using c(2,3) [of m] by (auto split: option.splits)
    finally show ?thesis using r by (simp add: gsignond_plugin_proxy_factory_init_def)
  qed
  have served: "\<exists>path. map_of (pf_loader_paths ?f) m = Some path \<and> pl_probe ls path m = Some (m, mechs) \<and>
      ((\<exists>n \<in> set names. own_loader (g_build_filename (pl_path ls) n) \<and> provides ls n m) \<longrightarrow> own_loader path)"
    if m: "map_of (pf_mechanisms ?f) m = Some mechs" for m mechs
  proof -
    obtain path where path: "map_of (pf_loader_paths ?f) m = Some path" "map_option snd (pl_probe ls path m) = Some mechs"
      using m c(2) [of m] by (auto split: option.splits)
    with c(3) [OF path(1)] have "pl_probe ls path m = Some (m, mechs)" by auto
    moreover have "own_loader path" if "\<exists>n \<in> set names. own_loader (g_build_filename (pl_path ls) n) \<and> provides ls n m"
      using that r path(1) by (auto simp: owned_def)
    ultimately show ?thesis using path(1) by blast
  qed
  from known served c(1) show ?thesis using assms by (simp add: enumerate_plugins_def Let_def)
qed

text \<open>A third party's loader, listed first, offers a method of gsignond's loader and one of its own.\<close>

definition example_loaders :: plugin_loaders where
  "example_loaders = \<lparr>pl_path = ''/usr/lib'', pl_names = Some [''acme'', ''gsignond-plugind''],
     pl_list = (\<lambda>path. if path = ''/usr/lib/acme'' then Some (''oauth'' @ [CHR 10] @ ''password'')
                else Some (''password'' @ [CHR 10])),
     pl_probe = (\<lambda>path type. if type = '''' then None else Some (type, [path]))\<rparr>"

lemma plugins_enumerated_witness:
  "\<exists>path. map_of (pf_loader_paths (enumerate_plugins example_loaders gsignond_plugin_proxy_factory_init)) ''password'' =
     Some path \<and> own_loader path"
proof -
  let ?f = "enumerate_plugins example_loaders gsignond_plugin_proxy_factory_init"
  have own: "own_loader (g_build_filename (pl_path example_loaders) ''gsignond-plugind'')"
      "provides example_loaders ''gsignond-plugind'' ''password''"
    by (simp_all add: own_loader_def g_str_has_suffix_def g_build_filename_def provides_def example_loaders_def
        get_plugin_names_from_loader_def Let_def)
  have names: "pl_names example_loaders = Some [''acme'', ''gsignond-plugind'']" by (simp add: example_loaders_def)
  note found = plugins_enumerated [OF names, unfolded Let_def]
  have "''password'' \<in> set (map fst (pf_mechanisms ?f))" using found own by auto
  then obtain mechs where "map_of (pf_mechanisms ?f) ''password'' = Some mechs"
    by (cases "map_of (pf_mechanisms ?f) ''password''") (auto simp: map_of_eq_None_iff)
  with found own show ?thesis by fastforce
qed
end
