(* ===== verification/Gsso_Daemon.thy ===== *)
theory Gsso_Daemon
  imports Gsso_Credentials_Database Gsso_Auth_Session Gsso_Signonui_Proxy Gsso_Plugin_Factory
begin

text \<open>
  \<^verbatim>\<open>src/src/daemon/gsignond-daemon.c\<close>: the daemon owns the databases, the access control manager,
  the plugin factory and the proxy of the user interface, and keeps the identities in use by their id.
  Its state holds the identity objects and the sessions of \<^verbatim>\<open>gsignond-identity.c\<close> too: an object is
  a number, the weak references of the code are the entries of tables.

  An identity and its sessions share one description: \<open>put_info\<close> writes it to all of them. Descriptions
  of identities and the contexts of callers are not NULL, as every caller in the program sees to.
\<close>

record identity =
  id_info :: identity_info
  id_auth_sessions :: "(string \<times> session_id) list"

datatype identity_change = GSIGNOND_IDENTITY_DATA_UPDATED | GSIGNOND_IDENTITY_REMOVED | GSIGNOND_IDENTITY_SIGNED_OUT

datatype dialog_callback =
    On_user_action_completed
  | On_credentials_updated
  | On_user_verified
  | On_refresh_requested_by_ui
  | On_dialog_refreshed

text \<open>The signals of identities, and what they ask their sessions to do.\<close>

datatype daemon_event =
    Sig_info_updated nat identity_change
  | Sig_credentials_updated nat u32 "gerror option"
  | Sig_user_verified nat bool "gerror option"
  | Session_user_action_finished session_id dictionary
  | Session_refresh session_id dictionary

text \<open>
  \<open>d_cb_data\<close>: the \<^verbatim>\<open>GSignondIdentityCbData\<close> allocated for dialogs, each with its identity and session;
  \<open>d_cancel_handlers\<close>, \<open>d_refresh_handlers\<close>: the handlers of the signals \<^verbatim>\<open>process-canceled\<close> and
  \<^verbatim>\<open>process-refreshed\<close> of sessions, each with its callback data.
\<close>

record 's daemon =
  d_acm :: acm
  d_db :: "'s credentials_db"
  d_factory :: plugin_factory
  d_ui :: "dialog_callback signonui_proxy"
  d_identities :: "(u32 \<times> nat) list"
  d_objects :: "(nat \<times> identity) list"
  d_sessions :: "(session_id \<times> auth_session) list"
  d_cb_data :: "(nat \<times> nat \<times> session_id) list"
  d_cancel_handlers :: "(session_id \<times> nat) list"
  d_refresh_handlers :: "(session_id \<times> nat) list"
  d_next :: nat
  d_log :: "daemon_event list"

text \<open>
  The environment: the class of the secret storage, the order of cascades, the parameter of the caption
  filter, the loaders of plugins, whether a plugin proxy can be made, and the error of the database as
  a \<^verbatim>\<open>GError\<close>.
\<close>

record 's daemon_env =
  e_storage :: "'s secret_storage_class"
  e_cascade :: "cascade list"
  e_injected :: "string \<Rightarrow> meta_content \<Rightarrow> int list"
  e_loaders :: plugin_loaders
  e_makes_proxy :: "string \<Rightarrow> bool"
  e_db_gerror :: "db_error \<Rightarrow> gerror"

definition emit :: "daemon_event \<Rightarrow> 's daemon \<Rightarrow> 's daemon" where
  "emit e d = d\<lparr>d_log := d_log d @ [e]\<rparr>"

definition on_db :: "('s credentials_db \<Rightarrow> 'r \<times> 's credentials_db) \<Rightarrow> 's daemon \<Rightarrow> 'r \<times> 's daemon" where
  "on_db f d = (case f (d_db d) of (r, db) \<Rightarrow> (r, d\<lparr>d_db := db\<rparr>))"

definition on_factory :: "(plugin_factory \<Rightarrow> 'r \<times> plugin_factory) \<Rightarrow> 's daemon \<Rightarrow> 'r \<times> 's daemon" where
  "on_factory f d = (case f (d_factory d) of (r, pf) \<Rightarrow> (r, d\<lparr>d_factory := pf\<rparr>))"

definition put_info :: "nat \<Rightarrow> identity_info \<Rightarrow> 's daemon \<Rightarrow> 's daemon" where
  "put_info n info d =
     (case map_of (d_objects d) n of
        None \<Rightarrow> d
      | Some i \<Rightarrow>
          d\<lparr>d_objects := AList.update n (i\<lparr>id_info := info\<rparr>) (d_objects d),
            d_sessions := map (\<lambda>(s, x). (s, if s \<in> snd ` set (id_auth_sessions i)
                                           then x\<lparr>as_identity_info := info\<rparr> else x)) (d_sessions d)\<rparr>)"

abbreviation gerror_for :: "gsignond_error \<Rightarrow> string \<Rightarrow> gerror" where
  "gerror_for \<equiv> gsignond_get_gerror_for_id"

subsection \<open>Identity objects\<close>

text \<open>\<^verbatim>\<open>gsignond_identity_new\<close> with \<^verbatim>\<open>gsignond_identity_init\<close>.\<close>

definition gsignond_identity_new :: "identity_info \<Rightarrow> 's daemon \<Rightarrow> nat \<times> 's daemon" where
  "gsignond_identity_new info d =
     (d_next d, d\<lparr>d_objects := AList.update (d_next d) \<lparr>id_info = info, id_auth_sessions = []\<rparr> (d_objects d),
                 d_next := d_next d + 1\<rparr>)"

definition on_identity_disposed :: "nat \<Rightarrow> 's daemon \<Rightarrow> 's daemon" where
  "on_identity_disposed n d = d\<lparr>d_identities := filter (\<lambda>(key, v). v \<noteq> n) (d_identities d)\<rparr>"

text \<open>\<^verbatim>\<open>_dispose\<close> of an identity: its sessions lose their handlers that belong to it, the daemon its entry.\<close>

definition identity_dispose :: "nat \<Rightarrow> 's daemon \<Rightarrow> 's daemon" where
  "identity_dispose n d = on_identity_disposed n (d\<lparr>d_objects := AList.delete n (d_objects d)\<rparr>)"

subsection \<open>What identities ask of the databases\<close>

definition gsignond_daemon_store_identity :: "'s daemon_env \<Rightarrow> nat \<Rightarrow> 's daemon \<Rightarrow> u32 \<times> 's daemon" where
  "gsignond_daemon_store_identity env n d =
     (case map_of (d_objects d) n of
        None \<Rightarrow> (0, d)
      | Some i \<Rightarrow>
          let was_new_identity = gsignond_identity_info_get_is_identity_new (id_info i)
          in case on_db (gsignond_db_credentials_database_update_identity (e_storage env) (id_info i)) d of
               ((ident, info), d) \<Rightarrow>
                 let d = put_info n info d
                 in (ident, if was_new_identity \<and> ident \<noteq> 0
                            then d\<lparr>d_identities := AList.update ident n (d_identities d)\<rparr> else d))"

definition gsignond_daemon_remove_identity :: "'s daemon_env \<Rightarrow> u32 \<Rightarrow> 's daemon \<Rightarrow> bool \<times> 's daemon" where
  "gsignond_daemon_remove_identity env ident =
     on_db (gsignond_db_credentials_database_remove_identity (e_storage env) (e_cascade env) ident)"

definition gsignond_daemon_add_identity_reference ::
  "u32 \<Rightarrow> security_context \<Rightarrow> string \<Rightarrow> 's daemon \<Rightarrow> bool \<times> 's daemon" where
  "gsignond_daemon_add_identity_reference ident ref_owner reference =
     on_db (gsignond_db_credentials_database_insert_reference ident ref_owner reference)"

definition gsignond_daemon_remove_identity_reference ::
  "u32 \<Rightarrow> security_context \<Rightarrow> cstr \<Rightarrow> 's daemon \<Rightarrow> bool \<times> 's daemon" where
  "gsignond_daemon_remove_identity_reference ident ref_owner reference =
     on_db (gsignond_db_credentials_database_remove_reference ident ref_owner reference)"

definition gsignond_daemon_store_identity_data ::
  "'s daemon_env \<Rightarrow> u32 \<Rightarrow> string \<Rightarrow> dictionary \<Rightarrow> 's daemon \<Rightarrow> bool \<times> 's daemon" where
  "gsignond_daemon_store_identity_data env ident meth entries =
     on_db (gsignond_db_credentials_database_update_data (e_storage env) ident meth entries)"

definition gsignond_daemon_clear_identity_data :: "'s daemon_env \<Rightarrow> u32 \<Rightarrow> 's daemon \<Rightarrow> bool \<times> 's daemon" where
  "gsignond_daemon_clear_identity_data env ident =
     on_db (gsignond_db_credentials_database_remove_data (e_storage env) ident None)"

definition gsignond_daemon_load_identity_data ::
  "'s daemon_env \<Rightarrow> u32 \<Rightarrow> string \<Rightarrow> 's daemon \<Rightarrow> dictionary option \<times> 's daemon" where
  "gsignond_daemon_load_identity_data env ident meth d =
     (if ident = 0 then (None, d)
      else on_db (gsignond_db_credentials_database_load_data (e_storage env) ident meth) d)"

definition gsignond_daemon_get_access_control_manager :: "'s daemon \<Rightarrow> acm" where
  "gsignond_daemon_get_access_control_manager d = d_acm d"

subsection \<open>Requests of applications\<close>

text \<open>The first argument of each result is the value returned, or the error set with NULL returned.\<close>

definition gsignond_daemon_register_new_identity ::
  "security_context option \<Rightarrow> 's daemon \<Rightarrow> (gerror + nat) \<times> 's daemon" where
  "gsignond_daemon_register_new_identity ctx d =
     (case ctx of
        None \<Rightarrow> (Inl (gerror_for GSIGNOND_ERROR_UNKNOWN ''Unknown error''), d)
      | Some c \<Rightarrow>
          let info = gsignond_identity_info_new;
              owner = gsignond_security_context_copy (Some c);
              info = snd (gsignond_identity_info_set_owner info owner);
              info = snd (gsignond_identity_info_set_access_control_list info (List.map_filter id [owner]))
          in case gsignond_identity_new info d of (n, d) \<Rightarrow> (Inr n, d))"

text \<open>The check of \<^verbatim>\<open>VALIDATE_IDENTITY_X_ACCESS\<close>, the reference it takes of the description released.\<close>

definition daemon_x_access :: "identity_info \<Rightarrow> security_context \<Rightarrow> 's daemon \<Rightarrow> bool" where
  "daemon_x_access info ctx d =
     gsignond_access_control_manager_peer_is_allowed_to_use_identity (d_acm d) (Some ctx)
       (gsignond_identity_info_get_owner info) (gsignond_identity_info_get_access_control_list info)"

definition gsignond_daemon_get_identity ::
  "'s daemon_env \<Rightarrow> u32 \<Rightarrow> security_context \<Rightarrow> 's daemon \<Rightarrow> (gerror + nat) \<times> 's daemon" where
  "gsignond_daemon_get_identity env ident ctx d =
     (if ident = 0 then (Inl (gerror_for GSIGNOND_ERROR_IDENTITY_ERR ''Invalid identity id''), d)
      else
        let denied = gerror_for GSIGNOND_ERROR_PERMISSION_DENIED ''Can not read identity'';
            cached = (case map_of (d_identities d) ident of None \<Rightarrow> None
              | Some n \<Rightarrow> map_option (\<lambda>i. (n, i)) (map_of (d_objects d) n))
        in case cached of
             Some (n, i) \<Rightarrow> if \<not> daemon_x_access (id_info i) ctx d then (Inl denied, d) else (Inr n, d)
           | None \<Rightarrow>
               (case on_db (gsignond_db_credentials_database_load_identity (e_storage env) ident True) d of
                  (None, d) \<Rightarrow>
                    (Inl (case gsignond_db_credentials_database_get_last_error (d_db d) of
                       Some err \<Rightarrow> e_db_gerror env err
                     | None \<Rightarrow> gerror_for GSIGNOND_ERROR_IDENTITY_NOT_FOUND
                         (''identity not found with id '' @ [CHR 39] @ print_int ident @ [CHR 39])), d)
                | (Some info, d) \<Rightarrow>
                    if \<not> daemon_x_access info ctx d then (Inl denied, d)
                    else case gsignond_identity_new info d of (n, d) \<Rightarrow>
                      (Inr n, d\<lparr>d_identities := AList.update ident n (d_identities d)\<rparr>)))"

definition gsignond_daemon_query_methods :: "'s daemon_env \<Rightarrow> 's daemon \<Rightarrow> string list option \<times> 's daemon" where
  "gsignond_daemon_query_methods env =
     on_factory (gsignond_plugin_proxy_factory_get_plugin_types (e_loaders env))"

text \<open>The error is set beside the value returned, NULL or empty.\<close>

definition gsignond_daemon_query_mechanisms ::
  "'s daemon_env \<Rightarrow> string \<Rightarrow> 's daemon \<Rightarrow> (string list option \<times> gerror option) \<times> 's daemon" where
  "gsignond_daemon_query_mechanisms env meth d =
     (case on_factory (gsignond_plugin_proxy_factory_get_plugin_mechanisms (e_loaders env) meth) d of
        (mechanisms, d) \<Rightarrow>
          ((mechanisms, if mechanisms = None \<or> mechanisms = Some []
             then Some (gerror_for GSIGNOND_ERROR_METHOD_NOT_KNOWN
                    (''method '' @ [CHR 39] @ meth @ [CHR 39] @ '' not found'')) else None), d))"

definition check_keychain_access :: "security_context \<Rightarrow> 's daemon \<Rightarrow> bool" where
  "check_keychain_access ctx d =
     (gsignond_security_context_compare
        (gsignond_access_control_manager_security_context_of_keychain (d_acm d)) (Some ctx) = 0)"

definition keychain_denied :: gerror where
  "keychain_denied = gerror_for GSIGNOND_ERROR_PERMISSION_DENIED ''Can not access keychain functionality''"

text \<open>Setting an entry of a NULL dictionary is refused: a NULL filter stays NULL.\<close>

definition restrict_to_owner :: "security_context \<Rightarrow> dictionary option \<Rightarrow> dictionary option" where
  "restrict_to_owner ctx filter_map =
     map_option (\<lambda>m. snd (gsignond_dictionary_set m ''Owner'' (Some (gsignond_security_context_to_variant ctx)))) filter_map"

definition gsignond_daemon_query_identities ::
  "'s daemon_env \<Rightarrow> gvariant option \<Rightarrow> security_context \<Rightarrow> 's daemon \<Rightarrow> (gerror + identity_info list) \<times> 's daemon" where
  "gsignond_daemon_query_identities env filter_var ctx d =
     (let filter_map = gsignond_dictionary_new_from_variant filter_var;
          filter_map = (if \<not> check_keychain_access ctx d then restrict_to_owner ctx filter_map else filter_map)
      in case on_db (gsignond_db_credentials_database_load_identities (e_injected env) filter_map) d of
           (identities, d) \<Rightarrow>
             (if identities = [] then Inl (gerror_for GSIGNOND_ERROR_UNKNOWN ''Not found'') else Inr identities, d))"

end
