(* ===== verification/Gsso_Identity.thy ===== *)
theory Gsso_Identity
  imports Gsso_Daemon
begin

text \<open>
  \<^verbatim>\<open>src/src/daemon/gsignond-identity.c\<close>: the operations of an identity object over the state of the
  daemon, and \<^verbatim>\<open>gsignond_daemon_clear\<close>, which removes every identity. An operation takes the number
  of its object; a number without a live object is the failed type check at the head of the function.

  A callback of a dialog gets a pointer back: to the identity, or to callback data. Using one that is no
  longer live is the fault \<open>Freed_pointer_used\<close>, freeing callback data a second time \<open>Freed_twice\<close>.
\<close>

datatype dialog_fault = Freed_pointer_used | Freed_twice

definition identity_x_access :: "identity \<Rightarrow> security_context \<Rightarrow> 's daemon \<Rightarrow> bool" where
  "identity_x_access i ctx d =
     gsignond_access_control_manager_peer_is_allowed_to_use_identity
       (gsignond_daemon_get_access_control_manager d) (Some ctx)
       (gsignond_identity_info_get_owner (id_info i)) (gsignond_identity_info_get_access_control_list (id_info i))"

definition identity_rw_access :: "identity \<Rightarrow> security_context \<Rightarrow> 's daemon \<Rightarrow> bool" where
  "identity_rw_access i ctx d =
     gsignond_access_control_manager_peer_is_owner_of_identity
       (gsignond_daemon_get_access_control_manager d) (Some ctx) (gsignond_identity_info_get_owner (id_info i))"

text \<open>The list checked is the one the identity has, not the one it is to get.\<close>

definition identity_write_acl :: "identity \<Rightarrow> security_context \<Rightarrow> 's daemon \<Rightarrow> bool" where
  "identity_write_acl i ctx d =
     gsignond_access_control_manager_acl_is_valid (gsignond_daemon_get_access_control_manager d) (Some ctx)
       (gsignond_identity_info_get_access_control_list (id_info i))"

definition unknown_error :: gerror where
  "unknown_error = gerror_for GSIGNOND_ERROR_UNKNOWN ''Unknown error''"

definition not_accessible :: gerror where
  "not_accessible = gerror_for GSIGNOND_ERROR_PERMISSION_DENIED ''identity can not be accessed''"

text \<open>The head of an operation: the type check and one of the access checks.\<close>

definition guarded ::
  "(identity \<Rightarrow> security_context \<Rightarrow> 's daemon \<Rightarrow> bool) \<Rightarrow> nat \<Rightarrow> security_context \<Rightarrow> 's daemon \<Rightarrow>
   gerror + identity" where
  "guarded access n ctx d =
     (case map_of (d_objects d) n of
        None \<Rightarrow> Inl unknown_error
      | Some i \<Rightarrow> if access i ctx d then Inr i else Inl not_accessible)"

subsection \<open>Reading and signing out\<close>

definition gsignond_identity_get_info :: "nat \<Rightarrow> security_context \<Rightarrow> 's daemon \<Rightarrow> gerror + gvariant" where
  "gsignond_identity_get_info n ctx d =
     (case guarded identity_rw_access n ctx d of
        Inl e \<Rightarrow> Inl e
      | Inr i \<Rightarrow> Inr (gsignond_identity_info_to_variant (id_info i)))"

definition gsignond_identity_verify_secret :: "nat \<Rightarrow> cstr \<Rightarrow> security_context \<Rightarrow> 's daemon \<Rightarrow> gerror + unit" where
  "gsignond_identity_verify_secret n secret ctx d =
     (case guarded identity_x_access n ctx d of
        Inl e \<Rightarrow> Inl e
      | Inr i \<Rightarrow> Inl (gerror_for GSIGNOND_ERROR_UNKNOWN ''Not supported''))"

definition gsignond_identity_sign_out ::
  "'s daemon_env \<Rightarrow> nat \<Rightarrow> security_context \<Rightarrow> 's daemon \<Rightarrow> (gerror + unit) \<times> 's daemon" where
  "gsignond_identity_sign_out env n ctx d =
     (case guarded identity_x_access n ctx d of
        Inl e \<Rightarrow> (Inl e, d)
      | Inr i \<Rightarrow>
          let identity_id = gsignond_identity_info_get_id (id_info i)
          in case (if identity_id = GSIGNOND_IDENTITY_INFO_NEW_IDENTITY then (True, d)
                   else gsignond_daemon_clear_identity_data env identity_id d) of
               (False, d) \<Rightarrow> (Inl (gerror_for GSIGNOND_ERROR_UNKNOWN ''Failed to clear data''), d)
             | (True, d) \<Rightarrow> (Inr (), emit (Sig_info_updated n GSIGNOND_IDENTITY_SIGNED_OUT) d))"

subsection \<open>Sessions\<close>

text \<open>\<^verbatim>\<open>_on_store_token\<close>, the handler of the signal \<^verbatim>\<open>process-store\<close> of a session.\<close>

definition on_store_token :: "'s daemon_env \<Rightarrow> nat \<Rightarrow> session_id \<Rightarrow> dictionary \<Rightarrow> 's daemon \<Rightarrow> 's daemon" where
  "on_store_token env n s new_data d =
     (case (map_of (d_objects d) n, map_of (d_sessions d) s) of
        (Some i, Some session) \<Rightarrow>
          let identity_id = gsignond_identity_info_get_id (id_info i)
          in if identity_id \<noteq> GSIGNOND_IDENTITY_INFO_NEW_IDENTITY
             then snd (gsignond_daemon_store_identity_data env identity_id (gsignond_auth_session_get_method session)
                    new_data d)
             else d
      | _ \<Rightarrow> d)"

definition on_session_dead :: "session_id \<Rightarrow> identity \<Rightarrow> identity" where
  "on_session_dead s i = i\<lparr>id_auth_sessions := filter (\<lambda>(meth, v). v \<noteq> s) (id_auth_sessions i)\<rparr>"

text \<open>The last reference to a session goes: every identity that lists it forgets it.\<close>

definition session_dispose :: "session_id \<Rightarrow> 's daemon \<Rightarrow> 's daemon" where
  "session_dispose s d =
     d\<lparr>d_sessions := AList.delete s (d_sessions d),
       d_objects := map (\<lambda>(n, i). (n, on_session_dead s i)) (d_objects d)\<rparr>"

definition method_available :: "identity_info \<Rightarrow> string \<Rightarrow> bool" where
  "method_available info meth =
     (case gsignond_identity_info_get_methods info of
        Some supported_methods \<Rightarrow> map_of supported_methods meth \<noteq> None
      | None \<Rightarrow> gsignond_identity_info_get_is_identity_new info)"

definition quoted :: "cstr \<Rightarrow> string" where
  "quoted s = [CHR 39] @ print_string s @ [CHR 39]"

definition gsignond_identity_get_auth_session ::
  "'s daemon_env \<Rightarrow> nat \<Rightarrow> cstr \<Rightarrow> security_context \<Rightarrow> 's daemon \<Rightarrow> (gerror + session_id) \<times> 's daemon" where
  "gsignond_identity_get_auth_session env n meth ctx d =
     (case guarded identity_x_access n ctx d of
        Inl e \<Rightarrow> (Inl e, d)
      | Inr i \<Rightarrow>
     (case meth of
        None \<Rightarrow> (Inl (gerror_for GSIGNOND_ERROR_METHOD_NOT_KNOWN ''authentication method not provided''), d)
      | Some m \<Rightarrow>
     (case map_of (id_auth_sessions i) m of
        Some session \<Rightarrow> (Inr session, d)
      | None \<Rightarrow>
     (case on_factory (gsignond_plugin_proxy_factory_get_plugin_mechanisms (e_loaders env) m) d of
        (None, d) \<Rightarrow> (Inl (gerror_for GSIGNOND_ERROR_METHOD_NOT_KNOWN
                      (''authentication method '' @ quoted meth @ '' doesn't exist'')), d)
      | (Some _, d) \<Rightarrow>
          if \<not> method_available (id_info i) m
          then (Inl (gerror_for GSIGNOND_ERROR_METHOD_NOT_AVAILABLE
                 (''authentication method '' @ quoted meth @ '' not supported for this identity'')), d)
          else
            let identity_id = gsignond_identity_info_get_id (id_info i)
            in case (if identity_id \<noteq> GSIGNOND_IDENTITY_INFO_NEW_IDENTITY
                     then gsignond_daemon_load_identity_data env identity_id m d else (None, d)) of
                 (token, d) \<Rightarrow>
              (case on_factory (gsignond_plugin_proxy_factory_get_plugin (e_loaders env) (e_makes_proxy env m) m) d of
                 (proxy, d) \<Rightarrow>
              (case gsignond_auth_session_new (proxy \<noteq> None) (id_info i) (Some m) token of
                 None \<Rightarrow> (Inl unknown_error, d)
               | Some (info, session) \<Rightarrow>
                   let s = d_next d;
                       d = d\<lparr>d_next := s + 1, d_sessions := AList.update s session (d_sessions d),
                             d_objects := AList.update n (i\<lparr>id_auth_sessions :=
                               AList.update m s (id_auth_sessions i)\<rparr>) (d_objects d)\<rparr>;
                       d = put_info n info d
                   in (Inr s, d)))))))"

subsection \<open>Storing\<close>

definition set_id :: "nat \<Rightarrow> u32 \<Rightarrow> 's daemon \<Rightarrow> 's daemon" where
  "set_id n ident d =
     (case map_of (d_objects d) n of None \<Rightarrow> d
      | Some i \<Rightarrow> put_info n (snd (gsignond_identity_info_set_id (id_info i) ident)) d)"

definition store_cached_token_data :: "'s daemon_env \<Rightarrow> u32 \<Rightarrow> string \<times> session_id \<Rightarrow> 's daemon \<Rightarrow> 's daemon" where
  "store_cached_token_data env ident ms d =
     (case map_of (d_sessions d) (snd ms) of
        None \<Rightarrow> d
      | Some session \<Rightarrow>
          snd (gsignond_daemon_store_identity_data env ident (fst ms) (gsignond_auth_session_get_token_data session) d))"

definition isalnum :: "char \<Rightarrow> bool" where
  "isalnum c = (let n = of_char c :: nat
     in 48 \<le> n \<and> n \<le> 57 \<or> 65 \<le> n \<and> n \<le> 90 \<or> 97 \<le> n \<and> n \<le> 122)"

fun check_chars :: "string \<Rightarrow> int" where
  "check_chars [] = 0"
| "check_chars (c # cs) = (if isalnum c then 1 else check_chars cs)"

definition check_string :: "cstr \<Rightarrow> int" where
  "check_string strptr = (case strptr of None \<Rightarrow> -1 | Some s \<Rightarrow> check_chars s)"

text \<open>An owner without an alphanumeric system context is dropped.\<close>

definition drop_empty_owner :: "identity_info \<Rightarrow> identity_info" where
  "drop_empty_owner info =
     (case gsignond_identity_info_get_owner info of
        None \<Rightarrow> info
      | Some owner_ctx \<Rightarrow>
          if check_string (gsignond_security_context_get_system_context (Some owner_ctx)) \<le> 0
          then gsignond_identity_info_remove_owner info else info)"

definition store_flag_mask :: "bool \<Rightarrow> u32" where
  "store_flag_mask was_new_identity =
     (let flag_mask = IDENTITY_INFO_PROP_USERNAME OR IDENTITY_INFO_PROP_USERNAME_IS_SECRET OR
            IDENTITY_INFO_PROP_SECRET OR IDENTITY_INFO_PROP_STORE_SECRET OR IDENTITY_INFO_PROP_CAPTION OR
            IDENTITY_INFO_PROP_TYPE OR IDENTITY_INFO_PROP_METHODS OR IDENTITY_INFO_PROP_REALMS OR
            IDENTITY_INFO_PROP_ACL
      in if was_new_identity then flag_mask OR IDENTITY_INFO_PROP_OWNER else flag_mask)"

text \<open>What the identity's description becomes from the one an application sends.\<close>

definition merge_info :: "identity_info \<Rightarrow> identity_info \<Rightarrow> identity_info" where
  "merge_info info new_info =
     (let flags = gsignond_identity_info_get_edit_flags new_info AND
                  store_flag_mask (gsignond_identity_info_get_is_identity_new info)
      in case gsignond_identity_info_selective_copy info new_info flags of
           None \<Rightarrow> info | Some (_, info') \<Rightarrow> info')"

definition gsignond_identity_store ::
  "'s daemon_env \<Rightarrow> nat \<Rightarrow> gvariant option \<Rightarrow> security_context \<Rightarrow> 's daemon \<Rightarrow> (gerror + u32) \<times> 's daemon" where
  "gsignond_identity_store env n info ctx d =
     (case guarded identity_rw_access n ctx d of
        Inl e \<Rightarrow> (Inl e, d)
      | Inr i \<Rightarrow>
          let was_new_identity = gsignond_identity_info_get_is_identity_new (id_info i);
              new_info = drop_empty_owner (gsignond_identity_info_new_from_variant info)
          in if gsignond_identity_info_get_access_control_list new_info \<noteq> [] \<and> \<not> identity_write_acl i ctx d
             then (Inl (gerror_for GSIGNOND_ERROR_PERMISSION_DENIED ''invalid access control list''), d)
             else case gsignond_daemon_store_identity env n (put_info n (merge_info (id_info i) new_info) d) of
               (ident, d) \<Rightarrow>
                 if ident = 0 then (Inl (gerror_for GSIGNOND_ERROR_STORE_FAILED ''Failed to store identity''), d)
                 else
                   let d = (if was_new_identity
                            then fold (store_cached_token_data env ident) (id_auth_sessions i) (set_id n ident d)
                            else d)
                   in (Inr ident, emit (Sig_info_updated n GSIGNOND_IDENTITY_DATA_UPDATED) d))"

subsection \<open>Removing and references\<close>

definition gsignond_identity_clear :: "'s daemon_env \<Rightarrow> nat \<Rightarrow> 's daemon \<Rightarrow> bool \<times> 's daemon" where
  "gsignond_identity_clear env n d =
     (case map_of (d_objects d) n of
        None \<Rightarrow> (False, d)
      | Some i \<Rightarrow>
          (case (if gsignond_identity_info_get_is_identity_new (id_info i) then (True, d)
                 else gsignond_daemon_remove_identity env (gsignond_identity_info_get_id (id_info i)) d) of
             (is_removed, d) \<Rightarrow>
               (is_removed, if is_removed then emit (Sig_info_updated n GSIGNOND_IDENTITY_REMOVED) d else d)))"

definition gsignond_identity_remove ::
  "'s daemon_env \<Rightarrow> nat \<Rightarrow> security_context \<Rightarrow> 's daemon \<Rightarrow> (gerror + unit) \<times> 's daemon" where
  "gsignond_identity_remove env n ctx d =
     (case guarded identity_rw_access n ctx d of
        Inl e \<Rightarrow> (Inl e, d)
      | Inr i \<Rightarrow>
          (case gsignond_identity_clear env n d of
             (True, d) \<Rightarrow> (Inr (), d)
           | (False, d) \<Rightarrow> (Inl (gerror_for GSIGNOND_ERROR_REMOVE_FAILED ''failed to remove identity''), d)))"

definition gsignond_identity_add_reference ::
  "nat \<Rightarrow> string \<Rightarrow> security_context \<Rightarrow> 's daemon \<Rightarrow> (gerror + unit) \<times> 's daemon" where
  "gsignond_identity_add_reference n reference ctx d =
     (case guarded identity_x_access n ctx d of
        Inl e \<Rightarrow> (Inl e, d)
      | Inr i \<Rightarrow>
          let identity_id = gsignond_identity_info_get_id (id_info i)
          in if identity_id = 0
             then (Inl (gerror_for GSIGNOND_ERROR_STORE_FAILED ''Cannot add reference to unsaved identity''), d)
             else case gsignond_daemon_add_identity_reference identity_id ctx reference d of
               (True, d) \<Rightarrow> (Inr (), d) | (False, d) \<Rightarrow> (Inl unknown_error, d))"

text \<open>The id is returned beside the error when there is no such reference.\<close>

definition gsignond_identity_remove_reference ::
  "nat \<Rightarrow> cstr \<Rightarrow> security_context \<Rightarrow> 's daemon \<Rightarrow> (u32 \<times> gerror option) \<times> 's daemon" where
  "gsignond_identity_remove_reference n reference ctx d =
     (case guarded identity_x_access n ctx d of
        Inl e \<Rightarrow> ((0, Some e), d)
      | Inr i \<Rightarrow>
          let identity_id = gsignond_identity_info_get_id (id_info i)
          in if identity_id = 0
             then ((0, Some (gerror_for GSIGNOND_ERROR_REFERENCE_NOT_FOUND
                    (''reference not '' @ quoted reference @ '' found''))), d)
             else case gsignond_daemon_remove_identity_reference identity_id ctx reference d of
               (ok, d) \<Rightarrow>
                 ((identity_id, if ok then None else Some (gerror_for GSIGNOND_ERROR_REFERENCE_NOT_FOUND
                    (''reference '' @ quoted reference @ '' not found''))), d))"

subsection \<open>Dialogs: callbacks\<close>

text \<open>The getters of a reply, which find nothing in a NULL reply.\<close>

definition reply_data :: "dictionary option \<Rightarrow> dictionary" where
  "reply_data reply = (case reply of None \<Rightarrow> [] | Some r \<Rightarrow> r)"

definition reply_error :: "dictionary option \<Rightarrow> u32" where
  "reply_error reply =
     (case gsignond_signonui_data_get_query_error (reply_data reply) of None \<Rightarrow> SIGNONUI_ERROR_NONE | Some e \<Rightarrow> e)"

definition free_cb_data :: "nat \<Rightarrow> 's daemon \<Rightarrow> dialog_fault + 's daemon" where
  "free_cb_data u d =
     (if map_of (d_cb_data d) u = None then Inl Freed_twice
      else Inr (d\<lparr>d_cb_data := AList.delete u (d_cb_data d)\<rparr>))"

definition disconnect_cancel :: "nat \<Rightarrow> 's daemon \<Rightarrow> 's daemon" where
  "disconnect_cancel u d = d\<lparr>d_cancel_handlers := filter (\<lambda>(s, v). v \<noteq> u) (d_cancel_handlers d)\<rparr>"

definition disconnect_refresh :: "nat \<Rightarrow> 's daemon \<Rightarrow> 's daemon" where
  "disconnect_refresh u d = d\<lparr>d_refresh_handlers := filter (\<lambda>(s, v). v \<noteq> u) (d_refresh_handlers d)\<rparr>"

text \<open>What the answer of the user changes in the description of the identity.\<close>

definition take_user_answer :: "dictionary \<Rightarrow> u32 \<Rightarrow> identity_info \<Rightarrow> identity_info" where
  "take_user_answer reply ui_error info =
     (let info = (if \<not> gsignond_identity_info_get_validated info \<and> ui_error = SIGNONUI_ERROR_NONE
            then snd (gsignond_identity_info_set_username info (gsignond_signonui_data_get_username reply)) else info);
          remember = (case gsignond_signonui_data_get_remember_password reply of None \<Rightarrow> True | Some b \<Rightarrow> b)
      in if gsignond_identity_info_get_store_secret info then
           (if remember \<and> ui_error = SIGNONUI_ERROR_NONE
            then snd (gsignond_identity_info_set_secret info (gsignond_signonui_data_get_password reply))
            else if \<not> remember \<or> (ui_error = SIGNONUI_ERROR_CANCELED \<or> ui_error = SIGNONUI_ERROR_FORGOT_PASSWORD)
            then snd (gsignond_identity_info_set_secret info (Some ''''))
            else info)
         else info)"

definition on_user_action_completed ::
  "'s daemon_env \<Rightarrow> dictionary option \<Rightarrow> gerror option \<Rightarrow> nat \<Rightarrow> 's daemon \<Rightarrow> dialog_fault + 's daemon" where
  "on_user_action_completed env reply error u d =
     (case map_of (d_cb_data d) u of
        None \<Rightarrow> Inl Freed_pointer_used
      | Some (n, s) \<Rightarrow>
     (case (map_of (d_objects d) n, map_of (d_sessions d) s) of
        (Some i, Some session) \<Rightarrow>
          let d = disconnect_cancel u (disconnect_refresh u d)
          in if error \<noteq> None then
               free_cb_data u (emit (Session_user_action_finished s (ui_error_reply SIGNONUI_ERROR_GENERAL)) d)
             else
               let info = take_user_answer (reply_data reply) (reply_error reply) (id_info i);
                   d = put_info n info d;
                   d = (if \<not> gsignond_identity_info_get_is_identity_new info
                        then snd (gsignond_daemon_store_identity env n d) else d);
                   d = emit (Session_user_action_finished s (reply_data reply)) d
               in free_cb_data u d
      | _ \<Rightarrow> Inl Freed_pointer_used))"

definition canceled_error :: gerror where
  "canceled_error = gerror_for GSIGNOND_ERROR_IDENTITY_OPERATION_CANCELED ''Operation canceled''"

definition server_error :: gerror where
  "server_error = gerror_for GSIGNOND_ERROR_INTERNAL_SERVER ''Server internal error occured''"

definition on_credentials_updated ::
  "'s daemon_env \<Rightarrow> dictionary option \<Rightarrow> gerror option \<Rightarrow> nat \<Rightarrow> 's daemon \<Rightarrow> dialog_fault + 's daemon" where
  "on_credentials_updated env reply error n d =
     (case map_of (d_objects d) n of
        None \<Rightarrow> Inl Freed_pointer_used
      | Some i \<Rightarrow>
     (case
        (if error \<noteq> None then (0, Some canceled_error, d)
         else if reply_error reply \<noteq> SIGNONUI_ERROR_NONE then
           (0, Some (if reply_error reply = SIGNONUI_ERROR_CANCELED then canceled_error
                     else gerror_for GSIGNOND_ERROR_INTERNAL_SERVER
                       (''signon ui returned with error : '' @ print_int (reply_error reply))), d)
         else case gsignond_signonui_data_get_password (reply_data reply) of
           None \<Rightarrow> (0, Some server_error, d)
         | Some secret \<Rightarrow>
             (case gsignond_daemon_store_identity env n
                     (put_info n (snd (gsignond_identity_info_set_secret (id_info i) (Some secret))) d) of
                (ident, d) \<Rightarrow>
                  (ident, if ident = 0 then Some (gerror_for GSIGNOND_ERROR_STORE_FAILED ''Failed to store secret'')
                          else None, d))) of
        (ident, err, d) \<Rightarrow> Inr (emit (Sig_credentials_updated n ident err) d)))"

text \<open>
  The variable that receives the comparison is an inner one: the signal carries the outer one, FALSE.
\<close>

definition on_user_verified ::
  "dictionary option \<Rightarrow> gerror option \<Rightarrow> nat \<Rightarrow> 's daemon \<Rightarrow> dialog_fault + 's daemon" where
  "on_user_verified reply error n d =
     (case map_of (d_objects d) n of
        None \<Rightarrow> Inl Freed_pointer_used
      | Some i \<Rightarrow>
          let res = False;
              err =
                (if error \<noteq> None then Some canceled_error
                 else if reply_error reply \<noteq> SIGNONUI_ERROR_NONE then
                   Some (if reply_error reply = SIGNONUI_ERROR_CANCELED then canceled_error
                         else if reply_error reply = SIGNONUI_ERROR_FORGOT_PASSWORD
                         then gerror_for GSIGNOND_ERROR_FORGOT_PASSWORD ''Forgot password''
                         else gerror_for GSIGNOND_ERROR_INTERNAL_SERVER
                           (''signon ui returned error : '' @ print_int (reply_error reply)))
                 else if gsignond_signonui_data_get_password (reply_data reply) = None then Some server_error
                 else None)
          in Inr (emit (Sig_user_verified n res err) d))"

definition on_refresh_requested_by_ui :: "dictionary \<Rightarrow> nat \<Rightarrow> 's daemon \<Rightarrow> dialog_fault + 's daemon" where
  "on_refresh_requested_by_ui ui_data u d =
     (case map_of (d_cb_data d) u of
        None \<Rightarrow> Inl Freed_pointer_used
      | Some (n, s) \<Rightarrow>
          Inr (emit (Session_refresh s ui_data) (d\<lparr>d_refresh_handlers := d_refresh_handlers d @ [(s, u)]\<rparr>)))"

definition on_dialog_refreshed :: "nat \<Rightarrow> 's daemon \<Rightarrow> dialog_fault + 's daemon" where
  "on_dialog_refreshed u d =
     (if map_of (d_cb_data d) u = None then Inl Freed_pointer_used else Inr (disconnect_refresh u d))"

text \<open>A call of a callback, by the events of the proxy.\<close>

fun run_callback :: "'s daemon_env \<Rightarrow> dialog_callback ui_event \<Rightarrow> 's daemon \<Rightarrow> dialog_fault + 's daemon" where
  "run_callback env (Query_cb On_user_action_completed reply error u) d = on_user_action_completed env reply error u d"
| "run_callback env (Query_cb On_credentials_updated reply error n) d = on_credentials_updated env reply error n d"
| "run_callback env (Query_cb On_user_verified reply error n) d = on_user_verified reply error n d"
| "run_callback env (Refresh_cb On_refresh_requested_by_ui ui_data u) d = on_refresh_requested_by_ui ui_data u d"
| "run_callback env (Refresh_dialog_cb On_dialog_refreshed error u) d = on_dialog_refreshed u d"
| "run_callback env _ d = Inr d"

fun run_callbacks :: "'s daemon_env \<Rightarrow> dialog_callback ui_event list \<Rightarrow> 's daemon \<Rightarrow> dialog_fault + 's daemon" where
  "run_callbacks env [] d = Inr d"
| "run_callbacks env (e # es) d = (case run_callback env e d of Inl f \<Rightarrow> Inl f | Inr d \<Rightarrow> run_callbacks env es d)"

text \<open>A call of the proxy of the user interface, with the callbacks it makes.\<close>

definition with_ui ::
  "'s daemon_env \<Rightarrow> (dialog_callback signonui_proxy \<Rightarrow> 'r \<times> dialog_callback signonui_proxy) \<Rightarrow> 's daemon \<Rightarrow>
   dialog_fault + 'r \<times> 's daemon" where
  "with_ui env f d =
     (case f (d_ui d) of
        (r, ui) \<Rightarrow>
          (case run_callbacks env (drop (length (sp_log (d_ui d))) (sp_log ui)) (d\<lparr>d_ui := ui\<rparr>) of
             Inl f \<Rightarrow> Inl f | Inr d \<Rightarrow> Inr (r, d)))"

definition gsignond_daemon_show_dialog ::
  "'s daemon_env \<Rightarrow> nat \<Rightarrow> string \<Rightarrow> dictionary \<Rightarrow> dialog_callback \<Rightarrow> dialog_callback option \<Rightarrow> nat \<Rightarrow> 's daemon \<Rightarrow>
   dialog_fault + bool \<times> 's daemon" where
  "gsignond_daemon_show_dialog env caller type ui_data handler refresh_handler userdata =
     with_ui env (\<lambda>ui. (True, gsignond_signonui_proxy_query_dialog caller type ui_data (Some handler)
                            refresh_handler userdata ui))"

definition gsignond_daemon_refresh_dialog ::
  "'s daemon_env \<Rightarrow> nat \<Rightarrow> string \<Rightarrow> dictionary \<Rightarrow> 's daemon \<Rightarrow> dialog_fault + bool \<times> 's daemon" where
  "gsignond_daemon_refresh_dialog env caller type ui_data =
     with_ui env (gsignond_signonui_proxy_refresh_dialog caller type ui_data)"

definition gsignond_daemon_cancel_dialog ::
  "'s daemon_env \<Rightarrow> nat \<Rightarrow> string \<Rightarrow> 's daemon \<Rightarrow> dialog_fault + bool \<times> 's daemon" where
  "gsignond_daemon_cancel_dialog env caller type =
     with_ui env (gsignond_signonui_proxy_cancel_request caller type None 0)"

subsection \<open>Dialogs: operations\<close>

definition identity_type :: string where "identity_type = ''GSignondIdentity''"
definition session_type :: string where "session_type = ''GSignondAuthSession''"

definition gsignond_identity_request_credentials_update ::
  "'s daemon_env \<Rightarrow> nat \<Rightarrow> cstr \<Rightarrow> security_context \<Rightarrow> 's daemon \<Rightarrow> dialog_fault + (gerror + unit) \<times> 's daemon" where
  "gsignond_identity_request_credentials_update env n message ctx d =
     (case guarded identity_x_access n ctx d of
        Inl e \<Rightarrow> Inr (Inl e, d)
      | Inr i \<Rightarrow>
          if \<not> gsignond_identity_info_get_store_secret (id_info i)
          then Inr (Inl (gerror_for GSIGNOND_ERROR_CREDENTIALS_NOT_AVAILABLE ''Password can not be stored.''), d)
          else
            let ui_data = gsignond_signonui_data_set_query_password gsignond_dictionary_new True;
                ui_data = gsignond_signonui_data_set_username ui_data (gsignond_identity_info_get_username (id_info i));
                ui_data = gsignond_signonui_data_set_caption ui_data (gsignond_identity_info_get_caption (id_info i));
                ui_data = gsignond_signonui_data_set_message ui_data message
            in case gsignond_daemon_show_dialog env n identity_type ui_data On_credentials_updated None n d of
                 Inl f \<Rightarrow> Inl f | Inr (r, d) \<Rightarrow> Inr (Inr (), d))"

definition gsignond_identity_verify_user ::
  "'s daemon_env \<Rightarrow> nat \<Rightarrow> gvariant \<Rightarrow> security_context \<Rightarrow> 's daemon \<Rightarrow> dialog_fault + (gerror + unit) \<times> 's daemon" where
  "gsignond_identity_verify_user env n params ctx d =
     (case guarded identity_x_access n ctx d of
        Inl e \<Rightarrow> Inr (Inl e, d)
      | Inr i \<Rightarrow>
          let passwd = gsignond_identity_info_get_secret (id_info i)
          in if \<not> gsignond_identity_info_get_store_secret (id_info i) \<or> passwd = None \<or> passwd = Some ''''
             then Inr (Inl (gerror_for GSIGNOND_ERROR_CREDENTIALS_NOT_AVAILABLE
                        ''user can not be verified as credentials are not stored''), d)
             else
               let ui_data = the (gsignond_dictionary_new_from_variant (Some params));
                   ui_data = gsignond_signonui_data_set_query_password ui_data True;
                   ui_data = gsignond_signonui_data_set_username ui_data (gsignond_identity_info_get_username (id_info i));
                   ui_data = gsignond_signonui_data_set_caption ui_data (gsignond_identity_info_get_caption (id_info i))
               in case gsignond_daemon_show_dialog env n identity_type ui_data On_user_verified None n d of
                    Inl f \<Rightarrow> Inl f | Inr (r, d) \<Rightarrow> Inr (Inr (), d))"

text \<open>
  The handler of \<^verbatim>\<open>process-user-action-required\<close>: the dialog is asked for first, the handler of
  \<^verbatim>\<open>process-canceled\<close> connected after it.
\<close>

definition on_user_action_required ::
  "'s daemon_env \<Rightarrow> nat \<Rightarrow> session_id \<Rightarrow> dictionary \<Rightarrow> 's daemon \<Rightarrow> dialog_fault + 's daemon" where
  "on_user_action_required env n s ui_data d =
     (let u = d_next d;
          d = d\<lparr>d_next := u + 1, d_cb_data := AList.update u (n, s) (d_cb_data d)\<rparr>
      in case gsignond_daemon_show_dialog env s session_type ui_data On_user_action_completed
                (Some On_refresh_requested_by_ui) u d of
           Inl f \<Rightarrow> Inl f
         | Inr (r, d) \<Rightarrow> Inr (d\<lparr>d_cancel_handlers := d_cancel_handlers d @ [(s, u)]\<rparr>))"

definition on_process_canceled ::
  "'s daemon_env \<Rightarrow> session_id \<Rightarrow> nat \<Rightarrow> 's daemon \<Rightarrow> dialog_fault + 's daemon" where
  "on_process_canceled env s u d =
     (let d = disconnect_cancel u d
      in if map_of (d_cb_data d) u = None then Inl Freed_pointer_used
         else case gsignond_daemon_cancel_dialog env s session_type d of
           Inl f \<Rightarrow> Inl f
         | Inr (r, d) \<Rightarrow> free_cb_data u d)"

definition on_refresh_dialog ::
  "'s daemon_env \<Rightarrow> session_id \<Rightarrow> dictionary \<Rightarrow> nat \<Rightarrow> 's daemon \<Rightarrow> dialog_fault + 's daemon" where
  "on_refresh_dialog env s ui_data u d =
     (if map_of (d_cb_data d) u = None then Inl Freed_pointer_used
      else case gsignond_daemon_refresh_dialog env s session_type ui_data d of
        Inl f \<Rightarrow> Inl f | Inr (r, d) \<Rightarrow> Inr d)"

text \<open>The emission of the signals of a session runs the handlers connected to it.\<close>

fun run_handlers ::
  "(nat \<Rightarrow> 's daemon \<Rightarrow> dialog_fault + 's daemon) \<Rightarrow> nat list \<Rightarrow> 's daemon \<Rightarrow> dialog_fault + 's daemon" where
  "run_handlers h [] d = Inr d"
| "run_handlers h (u # us) d = (case h u d of Inl f \<Rightarrow> Inl f | Inr d \<Rightarrow> run_handlers h us d)"

definition process_canceled :: "'s daemon_env \<Rightarrow> session_id \<Rightarrow> 's daemon \<Rightarrow> dialog_fault + 's daemon" where
  "process_canceled env s d =
     run_handlers (on_process_canceled env s) (map snd (filter (\<lambda>(t, u). t = s) (d_cancel_handlers d))) d"

definition process_refreshed ::
  "'s daemon_env \<Rightarrow> session_id \<Rightarrow> dictionary \<Rightarrow> 's daemon \<Rightarrow> dialog_fault + 's daemon" where
  "process_refreshed env s ui_data d =
     run_handlers (on_refresh_dialog env s ui_data) (map snd (filter (\<lambda>(t, u). t = s) (d_refresh_handlers d))) d"

text \<open>A reply of the bus to the dialog that is shown.\<close>

definition ui_replies ::
  "'s daemon_env \<Rightarrow> gvariant option \<Rightarrow> gerror option \<Rightarrow> 's daemon \<Rightarrow> dialog_fault + 's daemon" where
  "ui_replies env reply error d =
     (case with_ui env (\<lambda>ui. ((), query_dialog_cb reply error (ui\<lparr>sp_pending := sp_pending ui - 1\<rparr>))) d of
        Inl f \<Rightarrow> Inl f | Inr (r, d) \<Rightarrow> Inr d)"

subsection \<open>Clearing\<close>

text \<open>
  The storage manager: whether the storage is initialized, whether initializing and deleting it
  succeed, and where it is mounted. \<open>fresh\<close>: the metadata file and the secret storage that a newly opened
  database finds, with the outcomes of its calls of SQLite, given whether the deletion succeeded.
\<close>

record 's storage_env =
  sm_initialized :: bool
  sm_initializes :: bool
  sm_mounted_at :: cstr
  sm_deletes :: bool
  sm_directory_made :: bool
  sm_fresh :: "bool \<Rightarrow> 's credentials_db \<Rightarrow> meta_content \<times> sqlite_rc list \<times> 's"

text \<open>The location goes to the configuration, from where the database takes its directory.\<close>

definition init_storage :: "'s storage_env \<Rightarrow> bool \<times> cstr" where
  "init_storage sm =
     (if \<not> sm_initialized sm \<and> \<not> sm_initializes sm then (False, None)
      else (sm_mounted_at sm \<noteq> None, sm_mounted_at sm))"

definition open_database ::
  "'s daemon_env \<Rightarrow> 's storage_env \<Rightarrow> cstr \<Rightarrow> 's daemon \<Rightarrow> bool \<times> 's daemon" where
  "open_database env sm dir d =
     (case sm_fresh sm (sm_deletes sm) (d_db d) of
        (file, fs, storage) \<Rightarrow>
          on_db (gsignond_db_credentials_database_open_secret_storage (e_storage env))
            (d\<lparr>d_db := gsignond_db_credentials_database_new dir (sm_directory_made sm) file fs storage\<rparr>))"

fun clear_identities :: "'s daemon_env \<Rightarrow> (u32 \<times> nat) list \<Rightarrow> 's daemon \<Rightarrow> 's daemon" where
  "clear_identities env [] d = d"
| "clear_identities env ((ident, n) # rest) d =
     (case gsignond_identity_clear env n d of
        (removed, d) \<Rightarrow>
          clear_identities env rest
            (if removed then d\<lparr>d_identities := AList.delete ident (d_identities d)\<rparr> else d))"

text \<open>\<open>dir\<close>: the directory configured before, for the case that the storage cannot be mounted again.\<close>

definition gsignond_daemon_clear ::
  "'s daemon_env \<Rightarrow> 's storage_env \<Rightarrow> cstr \<Rightarrow> security_context \<Rightarrow> 's daemon \<Rightarrow> (gerror + bool) \<times> 's daemon" where
  "gsignond_daemon_clear env sm dir ctx d =
     (if \<not> check_keychain_access ctx d then (Inl keychain_denied, d)
      else
        let d = clear_identities env (d_identities d) d;
            retval = (d_identities d = [])
        in case on_db (gsignond_db_credentials_database_clear (e_storage env) (e_cascade env)) d of
             (ok, d) \<Rightarrow>
        let retval = (retval \<and> ok)
        in case on_db (gsignond_db_credentials_database_close_secret_storage (e_storage env)) d of
             (ok, d) \<Rightarrow>
        let retval = (retval \<and> ok \<and> sm_deletes sm);
            mounted = init_storage sm;
            retval = (retval \<and> fst mounted)
        in case open_database env sm (if snd mounted = None then dir else snd mounted) d of
             (ok, d) \<Rightarrow> (Inr (retval \<and> ok), d))"

end
