(* ===== verification/Gsso_Identity_Access.thy ===== *)
theory Gsso_Identity_Access
  imports Gsso_Identity
begin

text \<open>
  Who gets through the checks of \<^verbatim>\<open>gsignond-identity.c\<close> and \<^verbatim>\<open>gsignond-daemon.c\<close>. The locale
  \<open>guarded_daemon\<close> is a daemon whose access control manager keeps the contract \<open>access_policy\<close>; it is
  interpreted on the default manager and on Tizen's. \<open>identity_call\<close> is the interface of an identity
  as its D-Bus adapter calls it, one constructor of \<open>identity_op\<close> per method.
\<close>

datatype identity_op =
    Get_info
  | Verify_secret cstr
  | Sign_out
  | Get_auth_session cstr
  | Store "gvariant option"
  | Remove
  | Add_reference string
  | Remove_reference cstr
  | Request_credentials_update cstr
  | Verify_user gvariant

text \<open>The reply: the error that goes to the caller, or a value.\<close>

datatype identity_reply = Error gerror | Info gvariant | Session session_id | Id u32 | Success

definition reply_of :: "('a \<Rightarrow> identity_reply) \<Rightarrow> gerror + 'a \<Rightarrow> identity_reply" where
  "reply_of f r = (case r of Inl e \<Rightarrow> Error e | Inr x \<Rightarrow> f x)"

fun identity_call ::
  "'s daemon_env \<Rightarrow> nat \<Rightarrow> security_context \<Rightarrow> identity_op \<Rightarrow> 's daemon \<Rightarrow> dialog_fault + identity_reply \<times> 's daemon" where
  "identity_call env n ctx Get_info d = Inr (reply_of Info (gsignond_identity_get_info n ctx d), d)"
| "identity_call env n ctx (Verify_secret secret) d =
     Inr (reply_of (\<lambda>_. Success) (gsignond_identity_verify_secret n secret ctx d), d)"
| "identity_call env n ctx Sign_out d =
     (case gsignond_identity_sign_out env n ctx d of (r, d) \<Rightarrow> Inr (reply_of (\<lambda>_. Success) r, d))"
| "identity_call env n ctx (Get_auth_session meth) d =
     (case gsignond_identity_get_auth_session env n meth ctx d of (r, d) \<Rightarrow> Inr (reply_of Session r, d))"
| "identity_call env n ctx (Store info) d =
     (case gsignond_identity_store env n info ctx d of (r, d) \<Rightarrow> Inr (reply_of Id r, d))"
| "identity_call env n ctx Remove d =
     (case gsignond_identity_remove env n ctx d of (r, d) \<Rightarrow> Inr (reply_of (\<lambda>_. Success) r, d))"
| "identity_call env n ctx (Add_reference reference) d =
     (case gsignond_identity_add_reference n reference ctx d of (r, d) \<Rightarrow> Inr (reply_of (\<lambda>_. Success) r, d))"
| "identity_call env n ctx (Remove_reference reference) d =
     (case gsignond_identity_remove_reference n reference ctx d of
        ((ident, None), d) \<Rightarrow> Inr (Id ident, d) | ((ident, Some e), d) \<Rightarrow> Inr (Error e, d))"
| "identity_call env n ctx (Request_credentials_update message) d =
     (case gsignond_identity_request_credentials_update env n message ctx d of
        Inl f \<Rightarrow> Inl f | Inr (r, d) \<Rightarrow> Inr (reply_of (\<lambda>_. Success) r, d))"
| "identity_call env n ctx (Verify_user params) d =
     (case gsignond_identity_verify_user env n params ctx d of
        Inl f \<Rightarrow> Inl f | Inr (r, d) \<Rightarrow> Inr (reply_of (\<lambda>_. Success) r, d))"

fun identity_calls ::
  "'s daemon_env \<Rightarrow> (nat \<times> security_context \<times> identity_op) list \<Rightarrow> 's daemon \<Rightarrow>
   dialog_fault + identity_reply list \<times> 's daemon" where
  "identity_calls env [] d = Inr ([], d)"
| "identity_calls env ((n, ctx, op) # ops) d =
     (case identity_call env n ctx op d of
        Inl f \<Rightarrow> Inl f
      | Inr (r, d) \<Rightarrow>
          (case identity_calls env ops d of Inl f \<Rightarrow> Inl f | Inr (rs, d) \<Rightarrow> Inr (r # rs, d)))"

text \<open>The operations of the owner; the others need an entry of the access control list.\<close>

fun owner_op :: "identity_op \<Rightarrow> bool" where
  "owner_op Get_info = True"
| "owner_op (Store _) = True"
| "owner_op Remove = True"
| "owner_op _ = False"

definition covered :: "security_context \<Rightarrow> identity \<Rightarrow> bool" where
  "covered ctx i \<longleftrightarrow> (\<exists>a \<in> set (gsignond_identity_info_get_access_control_list (id_info i)).
     gsignond_security_context_check a (Some ctx))"

definition owned_by :: "security_context \<Rightarrow> identity \<Rightarrow> bool" where
  "owned_by ctx i \<longleftrightarrow> (let owner = gsignond_identity_info_get_owner (id_info i)
     in owner = None \<or> gsignond_security_context_check owner (Some ctx))"

text \<open>The identity behind a number, and whether a peer may call an operation on it.\<close>

definition entitled :: "'s daemon \<Rightarrow> nat \<times> security_context \<times> identity_op \<Rightarrow> bool" where
  "entitled d c = (case c of (n, ctx, op) \<Rightarrow>
     (case map_of (d_objects d) n of None \<Rightarrow> False
      | Some i \<Rightarrow> if owner_op op then owned_by ctx i else covered ctx i))"

definition refusal_for :: "'s daemon \<Rightarrow> nat \<Rightarrow> gerror" where
  "refusal_for d n = (if map_of (d_objects d) n = None then unknown_error else not_accessible)"

lemma refused_call:
  assumes "guarded (if owner_op op then identity_rw_access else identity_x_access) n ctx d = Inl e"
  shows "identity_call env n ctx op d = Inr (Error e, d)"
  using assms
  by (cases op) (simp_all add: reply_of_def gsignond_identity_get_info_def gsignond_identity_verify_secret_def
      gsignond_identity_sign_out_def gsignond_identity_get_auth_session_def gsignond_identity_store_def
      gsignond_identity_remove_def gsignond_identity_add_reference_def gsignond_identity_remove_reference_def
      gsignond_identity_request_credentials_update_def gsignond_identity_verify_user_def)

locale guarded_daemon = access_policy m for m :: acm
begin

lemma not_entitled_guard:
  assumes "d_acm d = m" "\<not> entitled d (n, ctx, op)"
  shows "guarded (if owner_op op then identity_rw_access else identity_x_access) n ctx d = Inl (refusal_for d n)"
proof (cases "map_of (d_objects d) n")
  case None
  then show ?thesis by (simp add: guarded_def refusal_for_def)
next
  case (Some i)
  have "\<not> (if owner_op op then identity_rw_access else identity_x_access) i ctx d"
    using assms Some owner_covers [of "Some ctx" "gsignond_identity_info_get_owner (id_info i)"]
      allowed_covered [of "Some ctx" "gsignond_identity_info_get_owner (id_info i)"
        "gsignond_identity_info_get_access_control_list (id_info i)"]
    by (auto simp: entitled_def owned_by_def covered_def identity_rw_access_def identity_x_access_def
        gsignond_daemon_get_access_control_manager_def Let_def)
  with Some show ?thesis by (simp add: guarded_def refusal_for_def)
qed

lemma strangers_refused:
  assumes "d_acm d = m" "\<forall>c \<in> set calls. \<not> entitled d c"
  shows "identity_calls env calls d = Inr (map (\<lambda>c. Error (refusal_for d (fst c))) calls, d)"
  using assms(2)
proof (induction calls)
  case Nil
  then show ?case by simp
next
  case (Cons c calls)
  obtain n ctx op where c: "c = (n, ctx, op)" by (cases c)
  have "identity_call env n ctx op d = Inr (Error (refusal_for d n), d)"
    by (rule refused_call [OF not_entitled_guard]) (use assms(1) Cons.prems c in auto)
  with Cons show ?case by (simp add: c)
qed

end

interpretation default_guard: guarded_daemon "default_acm peercred service_pid readlink config build env"
  by unfold_locales

interpretation tizen_guard: guarded_daemon "tizen_acm label_of_fd bus_reply smack config build"
  by unfold_locales

text \<open>
  C24. Under either manager, whatever a number of peers try on identities they are not entitled to (an
  operation of the owner without being the owner, any other without an entry of the access control
  list, or an identity that is gone), in any order: every call gets an error and nothing else, no
  identity, session, dialog or row of a database changes.
\<close>

theorem operations_guarded:
  assumes "d_acm d = default_acm peercred service_pid readlink config build environment \<or>
           d_acm d = tizen_acm label_of_fd bus_reply smack config build"
    and "\<forall>c \<in> set calls. \<not> entitled d c"
  shows "identity_calls env calls d = Inr (map (\<lambda>c. Error (refusal_for d (fst c))) calls, d)"
  using assms default_guard.strangers_refused tizen_guard.strangers_refused by blast

subsection \<open>Examples\<close>

text \<open>A daemon with one identity, object 7 with id 1, which the browser owns.\<close>

definition example_loaded :: identity_info where
  "example_loaded = snd (gsignond_identity_info_set_id example_secret_identity 1)"

definition example_daemon :: "secret_storage daemon" where
  "example_daemon =
     \<lparr>d_acm = default_acm (\<lambda>_. None) (\<lambda>_. None) (\<lambda>_. None) None None None, d_db = example_credentials_db,
      d_factory = gsignond_plugin_proxy_factory_init, d_ui = gsignond_signonui_proxy_init [],
      d_identities = [(1, 7)], d_objects = [(7, \<lparr>id_info = example_loaded, id_auth_sessions = []\<rparr>)],
      d_sessions = [], d_cb_data = [], d_cancel_handlers = [], d_refresh_handlers = [], d_next = 8, d_log = []\<rparr>"

definition example_env :: "secret_storage daemon_env" where
  "example_env = \<lparr>e_storage = gsignond_secret_storage_class_init 0 string_codec,
     e_cascade = [On_acl, On_owner, On_refs, On_realms], e_injected = (\<lambda>_ _. []), e_loaders = example_loaders,
     e_makes_proxy = (\<lambda>_. True), e_db_gerror = (\<lambda>_. unknown_error)\<rparr>"

definition example_stranger :: security_context where
  "example_stranger = \<lparr>sys_ctx = ''game'', app_ctx = ''''\<rparr>"

lemma example_not_entitled:
  "\<not> entitled example_daemon (7, example_stranger, Get_info)"
  "\<not> entitled example_daemon (7, example_stranger, Get_auth_session (Some ''password''))"
  "\<not> entitled example_daemon (9, example_owner, Remove)"
  "entitled example_daemon (7, example_owner, Remove)"
  by code_simp+

theorem operations_guarded_witness:
  "identity_calls example_env [(7, example_stranger, Get_info),
      (7, example_stranger, Get_auth_session (Some ''password'')), (9, example_owner, Remove)] example_daemon =
   Inr ([Error not_accessible, Error not_accessible, Error unknown_error], example_daemon)"
proof -
  have "d_acm example_daemon = default_acm (\<lambda>_. None) (\<lambda>_. None) (\<lambda>_. None) None None None \<or>
      d_acm example_daemon = tizen_acm (\<lambda>_. None) (\<lambda>_. None) (\<lambda>_ _ _. 0) None None"
    by (simp add: example_daemon_def)
  from operations_guarded [OF this, of "[(7, example_stranger, Get_info),
      (7, example_stranger, Get_auth_session (Some ''password'')), (9, example_owner, Remove)]" example_env]
  show ?thesis using example_not_entitled by (simp add: refusal_for_def example_daemon_def)
qed
end
