(* ===== verification/Gsso_Identity_Graph.thy ===== *)
theory Gsso_Identity_Graph
  imports Gsso_Identity_Access
begin

text \<open>
  The objects of the daemon over time: the identities in the cache, the identity objects and their
  sessions. \<open>daemon_step\<close> is what can happen to the daemon, a call of an application, a signal of a
  session, a reply of the user interface, the end of an object; \<open>well_formed\<close> is the invariant of the
  tables, which every step keeps.
\<close>

subsection \<open>The id of a description\<close>

lemma get_id_eq: "info_get a key_ID = info_get b key_ID \<Longrightarrow>
    gsignond_identity_info_get_id a = gsignond_identity_info_get_id b"
  by (rule id_field.get_local) simp

lemma entry_ID: "slot_value a (Slot_entry key_ID) = slot_value b (Slot_entry key_ID) \<Longrightarrow>
    gsignond_identity_info_get_id a = gsignond_identity_info_get_id b"
  by (rule id_field.get_local)

lemma get_id_setters [simp]:
  "gsignond_identity_info_get_id (snd (gsignond_identity_info_set_id info ident)) = ident"
  "gsignond_identity_info_get_id (snd (gsignond_identity_info_set_username info u)) = gsignond_identity_info_get_id info"
  "gsignond_identity_info_get_id (snd (gsignond_identity_info_set_secret info u)) = gsignond_identity_info_get_id info"
  "gsignond_identity_info_get_id (snd (gsignond_identity_info_set_realms info r)) = gsignond_identity_info_get_id info"
  "gsignond_identity_info_get_id (snd (gsignond_identity_info_set_methods info ms)) = gsignond_identity_info_get_id info"
  "gsignond_identity_info_get_id (snd (gsignond_identity_info_set_access_control_list info acl)) =
     gsignond_identity_info_get_id info"
  "gsignond_identity_info_get_id (snd (gsignond_identity_info_set_owner info owner)) = gsignond_identity_info_get_id info"
  "gsignond_identity_info_get_id (snd (gsignond_identity_info_reset_edit_flags info f)) = gsignond_identity_info_get_id info"
  "gsignond_identity_info_get_id (gsignond_identity_info_ref info) = gsignond_identity_info_get_id info"
           apply (simp add: id_field.get_set)
          apply (rule entry_ID, rule set_username.set_other, simp)
         apply (rule entry_ID, rule set_secret.set_other, simp)
        apply (rule entry_ID, rule set_realms.set_other, simp)
       apply (rule entry_ID, rule set_methods.set_other, simp)
      apply (rule entry_ID, rule set_acl.set_other, simp)
     apply (rule entry_ID, rule set_owner.set_other, simp)
    apply (rule get_id_eq, simp add: gsignond_identity_info_reset_edit_flags_def)
  apply (rule get_id_eq, simp add: gsignond_identity_info_ref_def)
  done

lemma take_user_answer_id [simp]:
  "gsignond_identity_info_get_id (take_user_answer reply e info) = gsignond_identity_info_get_id info"
  by (simp add: take_user_answer_def Let_def)

lemma store_flag_mask_ID: "store_flag_mask b AND IDENTITY_INFO_PROP_ID = 0"
  by (cases b; simp only:; code_simp)

lemma merge_info_id [simp]:
  "gsignond_identity_info_get_id (merge_info info new_info) = gsignond_identity_info_get_id info"
proof (rule selective_copy_result [of info new_info "gsignond_identity_info_get_edit_flags new_info AND
    store_flag_mask (gsignond_identity_info_get_is_identity_new info)"], goal_cases)
  case (1 flags' info')
  let ?mask = "store_flag_mask (gsignond_identity_info_get_is_identity_new info)"
  have id: "(key_ID, IDENTITY_INFO_PROP_ID) \<in> set entry_flags" by (simp add: entry_flags_def)
  have "(gsignond_identity_info_get_edit_flags new_info AND ?mask) AND IDENTITY_INFO_PROP_ID = 0"
    by (simp add: and.assoc store_flag_mask_ID)
  then have "info_get info' key_ID = info_get info key_ID" using 1(2) [OF id] by presburger
  from get_id_eq [OF this] show ?case using 1(1) by (simp add: merge_info_def)
qed

lemma update_identity_id:
  assumes "gsignond_db_credentials_database_update_identity klass info D = ((ident, info'), D')"
  shows "gsignond_identity_info_get_id info' = gsignond_identity_info_get_id info"
  using assms
  by (auto simp: gsignond_db_credentials_database_update_identity_def Let_def split: prod.splits if_splits)

lemma load_secrets_id:
  "load_secrets klass ident info D = (info', D') \<Longrightarrow>
     gsignond_identity_info_get_id info' = gsignond_identity_info_get_id info"
  by (auto simp: load_secrets_def Let_def split: prod.splits option.splits if_splits)

lemma load_methods_id:
  "load_methods ident info D = (info', D') \<Longrightarrow>
     gsignond_identity_info_get_id info' = gsignond_identity_info_get_id info"
  by (auto simp: load_methods_def split: prod.splits option.splits)

lemma metadata_get_identity_id:
  "gsignond_db_metadata_database_get_identity ident D = (Some info, D') \<Longrightarrow> gsignond_identity_info_get_id info = ident"
  by (auto simp: gsignond_db_metadata_database_get_identity_def if_open_def Let_def dest!: load_methods_id
      split: prod.splits if_splits)

lemma load_identity_id:
  "gsignond_db_credentials_database_load_identity klass ident q D = (Some info, D') \<Longrightarrow>
     gsignond_identity_info_get_id info = ident"
  by (auto simp: gsignond_db_credentials_database_load_identity_def on_metadata_def
      dest!: load_secrets_id metadata_get_identity_id split: prod.splits option.splits if_splits)

lemma new_info_id [simp]: "gsignond_identity_info_get_id gsignond_identity_info_new = 0"
  by code_simp

subsection \<open>Well-formed tables\<close>

text \<open>
  \<open>re_stored n d\<close>: an answer to a credentials dialog has stored the identity \<open>n\<close>. For an identity without
  an id the code stores a row then and does not take over its id, so that storing it again makes a second
  row: only for these identities the id of the description can differ from that in the cache.
\<close>

definition re_stored :: "nat \<Rightarrow> 's daemon \<Rightarrow> bool" where
  "re_stored n d \<longleftrightarrow> (\<exists>ident err. ident \<noteq> 0 \<and> Sig_credentials_updated n ident err \<in> set (d_log d))"

text \<open>The keys are distinct, and numbers not given out yet are free.\<close>

definition tables_ok :: "'s daemon \<Rightarrow> bool" where
  "tables_ok d \<longleftrightarrow> keys_distinct (d_objects d) \<and> keys_distinct (d_sessions d) \<and> keys_distinct (d_identities d) \<and>
     dom (map_of (d_objects d)) \<subseteq> {..<d_next d} \<and> dom (map_of (d_sessions d)) \<subseteq> {..<d_next d}"

text \<open>\<open>lists d n m s\<close>: the identity \<open>n\<close> has the session \<open>s\<close> for the method \<open>m\<close>.\<close>

definition lists :: "'s daemon \<Rightarrow> nat \<Rightarrow> string \<Rightarrow> session_id \<Rightarrow> bool" where
  "lists d n m s \<longleftrightarrow> (\<exists>i. map_of (d_objects d) n = Some i \<and> (m, s) \<in> set (id_auth_sessions i))"

text \<open>A listed session is alive, works with the listed method on the description of its identity, and has one identity.\<close>

definition sessions_ok :: "'s daemon \<Rightarrow> bool" where
  "sessions_ok d \<longleftrightarrow>
     (\<forall>n i. map_of (d_objects d) n = Some i \<longrightarrow> keys_distinct (id_auth_sessions i) \<and>
        (\<forall>m s. (m, s) \<in> set (id_auth_sessions i) \<longrightarrow>
           (\<exists>x. map_of (d_sessions d) s = Some x \<and> as_method x = m \<and> as_identity_info x = id_info i))) \<and>
     (\<forall>n n' m m' s. lists d n m s \<longrightarrow> lists d n' m' s \<longrightarrow> n = n')"

text \<open>A cached id is that of a live object; \<open>X\<close> are objects for which the ids need not agree for the moment.\<close>

definition cache_ok :: "nat set \<Rightarrow> 's daemon \<Rightarrow> bool" where
  "cache_ok X d \<longleftrightarrow>
     (\<forall>ident n. map_of (d_identities d) ident = Some n \<longrightarrow> ident \<noteq> 0 \<and>
        (\<exists>i. map_of (d_objects d) n = Some i \<and>
           (gsignond_identity_info_get_id (id_info i) = ident \<or> n \<in> X \<or> re_stored n d)))"

definition well_formed :: "'s daemon \<Rightarrow> bool" where
  "well_formed d \<longleftrightarrow> tables_ok d \<and> sessions_ok d \<and> cache_ok {} d"

text \<open>Changes of the rest of the state.\<close>

definition same_graph :: "'s daemon \<Rightarrow> 's daemon \<Rightarrow> bool" where
  "same_graph d d' \<longleftrightarrow> d_objects d' = d_objects d \<and> d_sessions d' = d_sessions d \<and>
     d_identities d' = d_identities d \<and> d_next d \<le> d_next d' \<and> set (d_log d) \<subseteq> set (d_log d')"

lemma same_graph_refl [simp, intro]: "same_graph d d"
  by (simp add: same_graph_def)

lemma same_graph_trans [trans]: "same_graph d d' \<Longrightarrow> same_graph d' d'' \<Longrightarrow> same_graph d d''"
  by (auto simp: same_graph_def)

lemma same_graph_emit [simp, intro]: "same_graph d (emit e d)"
  by (auto simp: same_graph_def emit_def)

lemma same_graph_on: "on_db f d = (r, d') \<Longrightarrow> same_graph d d'" "on_factory g d = (r', d') \<Longrightarrow> same_graph d d'"
  by (auto simp: same_graph_def on_db_def on_factory_def split: prod.splits)

lemma re_stored_mono: "re_stored n d \<Longrightarrow> set (d_log d) \<subseteq> set (d_log d') \<Longrightarrow> re_stored n d'"
  by (auto simp: re_stored_def)

lemma same_graph_tables: "tables_ok d \<Longrightarrow> same_graph d d' \<Longrightarrow> tables_ok d'"
  by (simp add: tables_ok_def same_graph_def) (meson lessThan_subset_iff subset_trans)

lemma same_graph_sessions: "sessions_ok d \<Longrightarrow> same_graph d d' \<Longrightarrow> sessions_ok d'"
  by (simp add: sessions_ok_def same_graph_def lists_def)

lemma same_graph_cache: "cache_ok X d \<Longrightarrow> same_graph d d' \<Longrightarrow> cache_ok X d'"
  using re_stored_mono [of _ d d'] by (simp add: cache_ok_def same_graph_def) blast

lemma same_graph_ok: "well_formed d \<Longrightarrow> same_graph d d' \<Longrightarrow> well_formed d'"
  using same_graph_tables same_graph_sessions same_graph_cache unfolding well_formed_def by blast

subsection \<open>The changes of the tables\<close>

lemma put_info_objects:
  "map_of (d_objects d) n = Some i \<Longrightarrow>
     map_of (d_objects (put_info n info d)) = (map_of (d_objects d))(n \<mapsto> i\<lparr>id_info := info\<rparr>)"
  by (simp add: put_info_def update_conv')

lemma map_of_map_keyed: "map_of (map (\<lambda>(k, v). (k, f k v)) t) k = map_option (f k) (map_of t k)"
  by (induction t) auto

lemma put_info_sessions:
  "map_of (d_objects d) n = Some i \<Longrightarrow>
     map_of (d_sessions (put_info n info d)) s =
       map_option (\<lambda>x. if s \<in> snd ` set (id_auth_sessions i) then x\<lparr>as_identity_info := info\<rparr> else x)
         (map_of (d_sessions d) s)"
  using map_of_map_keyed [of "\<lambda>s x. if s \<in> snd ` set (id_auth_sessions i) then x\<lparr>as_identity_info := info\<rparr> else x"
      "d_sessions d" s]
  by (simp add: put_info_def)

lemma put_info_rest [simp]:
  "d_identities (put_info n info d) = d_identities d" "d_next (put_info n info d) = d_next d"
  "d_log (put_info n info d) = d_log d"
  by (simp_all add: put_info_def split: option.split)


lemma put_info_none: "map_of (d_objects d) n = None \<Longrightarrow> put_info n info d = d"
  by (simp add: put_info_def)

lemma put_info_tables: "tables_ok d \<Longrightarrow> tables_ok (put_info n info d)"
proof (cases "map_of (d_objects d) n")
  case (Some i)
  assume t: "tables_ok d"
  have fst: "map (fst \<circ> (\<lambda>(s, x). (s, f s x))) xs = map fst xs" for f :: "nat \<Rightarrow> auth_session \<Rightarrow> auth_session" and xs
    by auto
  have "keys_distinct (d_objects (put_info n info d))" "keys_distinct (d_sessions (put_info n info d))"
    using t Some by (simp_all add: put_info_def tables_ok_def fst)
  moreover have "dom (map_of (d_sessions (put_info n info d))) = dom (map_of (d_sessions d))"
    by (auto simp: put_info_sessions [OF Some])
  moreover have "dom (map_of (d_objects (put_info n info d))) = dom (map_of (d_objects d))"
    using Some by (auto simp: put_info_objects [OF Some])
  ultimately show ?thesis using t by (simp add: tables_ok_def)
qed (simp add: put_info_none)

lemma put_info_lists [simp]: "lists (put_info n info d) = lists d"
proof (cases "map_of (d_objects d) n")
  case (Some i)
  then show ?thesis by (intro ext) (auto simp: lists_def put_info_objects [OF Some])
qed (simp add: put_info_none)

lemma put_info_sessions_ok:
  assumes ok: "sessions_ok d"
  shows "sessions_ok (put_info n info d)"
proof (cases "map_of (d_objects d) n")
  case None
  with ok show ?thesis by (simp add: put_info_none)
next
  case (Some i)
  have "keys_distinct (id_auth_sessions i') \<and>
      (\<forall>m s. (m, s) \<in> set (id_auth_sessions i') \<longrightarrow>
         (\<exists>x. map_of (d_sessions (put_info n info d)) s = Some x \<and> as_method x = m \<and> as_identity_info x = id_info i'))"
    if i': "map_of (d_objects (put_info n info d)) n' = Some i'" for n' i'
  proof -
    obtain j where j: "map_of (d_objects d) n' = Some j" "id_auth_sessions i' = id_auth_sessions j"
        "id_info i' = (if n' = n then info else id_info j)"
      using i' Some by (auto simp: put_info_objects [OF Some] split: if_splits)
    have "\<exists>x. map_of (d_sessions (put_info n info d)) s = Some x \<and> as_method x = m \<and> as_identity_info x = id_info i'"
      if s: "(m, s) \<in> set (id_auth_sessions i')" for m s
    proof -
      obtain x where x: "map_of (d_sessions d) s = Some x" "as_method x = m" "as_identity_info x = id_info j"
        using ok j(1) s unfolding j(2) sessions_ok_def by blast
      have "s \<in> snd ` set (id_auth_sessions i) \<longleftrightarrow> n' = n"
      proof
        assume "s \<in> snd ` set (id_auth_sessions i)"
        then obtain m' where "lists d n m' s" using Some by (auto simp: lists_def)
        moreover have "lists d n' m s" using j s by (simp add: lists_def)
        ultimately show "n' = n" using ok unfolding sessions_ok_def by blast
      qed (use s j Some in force)
      with x j(3) show ?thesis by (simp add: put_info_sessions [OF Some])
    qed
    moreover have "keys_distinct (id_auth_sessions i')" using ok j unfolding sessions_ok_def by metis
    ultimately show ?thesis by blast
  qed
  moreover have "\<forall>n n' m m' s. lists d n m s \<longrightarrow> lists d n' m' s \<longrightarrow> n = n'" using ok unfolding sessions_ok_def by blast
  ultimately show ?thesis unfolding sessions_ok_def put_info_lists by blast
qed

lemma put_info_cache:
  assumes "cache_ok X d" "map_of (d_objects d) n = Some i"
    "gsignond_identity_info_get_id info = gsignond_identity_info_get_id (id_info i) \<or> n \<in> X"
  shows "cache_ok X (put_info n info d)"
  unfolding cache_ok_def
proof (intro allI impI)
  fix ident m assume "map_of (d_identities (put_info n info d)) ident = Some m"
  with assms(1) obtain j where "ident \<noteq> 0" "map_of (d_objects d) m = Some j"
      "gsignond_identity_info_get_id (id_info j) = ident \<or> m \<in> X \<or> re_stored m d"
    by (auto simp: cache_ok_def)
  with assms(2,3) show "ident \<noteq> 0 \<and> (\<exists>i. map_of (d_objects (put_info n info d)) m = Some i \<and>
      (gsignond_identity_info_get_id (id_info i) = ident \<or> m \<in> X \<or> re_stored m (put_info n info d)))"
    by (auto simp: put_info_objects [OF assms(2)] re_stored_def)
qed

lemma put_info_ok:
  "well_formed d \<Longrightarrow> map_of (d_objects d) n = Some i \<Longrightarrow>
     gsignond_identity_info_get_id info = gsignond_identity_info_get_id (id_info i) \<Longrightarrow> well_formed (put_info n info d)"
  by (simp add: well_formed_def put_info_tables put_info_sessions_ok put_info_cache)


declare map_of_eq_Some_iff [simp del]

lemma sessions_ok_identities [simp]: "sessions_ok (d\<lparr>d_identities := ids\<rparr>) = sessions_ok d"
  by (simp add: sessions_ok_def lists_def)

lemma re_stored_identities [simp]: "re_stored n (d\<lparr>d_identities := ids\<rparr>) = re_stored n d"
  by (simp add: re_stored_def)

lemma new_identity_ok:
  assumes "well_formed d" "gsignond_identity_new info d = (n, d')"
  shows "well_formed d' \<and> n = d_next d \<and> map_of (d_objects d') n = Some \<lparr>id_info = info, id_auth_sessions = []\<rparr> \<and>
    d_identities d' = d_identities d"
proof -
  have d': "n = d_next d" "d_identities d' = d_identities d" "d_sessions d' = d_sessions d" "d_log d' = d_log d"
      "d_next d' = d_next d + 1" "keys_distinct (d_objects d) \<Longrightarrow> keys_distinct (d_objects d')"
      "map_of (d_objects d') = (map_of (d_objects d))(d_next d \<mapsto> \<lparr>id_info = info, id_auth_sessions = []\<rparr>)"
    using assms(2) by (auto simp: gsignond_identity_new_def update_conv')
  have fresh: "map_of (d_objects d) (d_next d) = None"
    using assms(1) by (auto simp: well_formed_def tables_ok_def)
  have t: "tables_ok d'"
    using assms(1) d' by (auto simp: well_formed_def tables_ok_def intro: less_SucI)
  have l: "lists d' = lists d" by (intro ext) (auto simp: lists_def d' fresh)
  have s: "sessions_ok d'"
    using assms(1) unfolding well_formed_def sessions_ok_def l by (simp add: d' fresh)
  have r: "re_stored m d' = re_stored m d" for m by (simp add: re_stored_def d')
  have "cache_ok {} d'"
    unfolding cache_ok_def
  proof (intro allI impI)
    fix ident m assume "map_of (d_identities d') ident = Some m"
    then have m: "map_of (d_identities d) ident = Some m" by (simp add: d')
    with assms(1) fresh have "m \<noteq> d_next d" unfolding well_formed_def cache_ok_def by force
    with assms(1) m show "ident \<noteq> 0 \<and> (\<exists>i. map_of (d_objects d') m = Some i \<and>
        (gsignond_identity_info_get_id (id_info i) = ident \<or> m \<in> {} \<or> re_stored m d'))"
      unfolding well_formed_def cache_ok_def r by (simp add: d')
  qed
  with t s show ?thesis by (simp add: well_formed_def d')
qed

lemma cache_update_ok:
  assumes "well_formed d" "map_of (d_objects d) n = Some i" "ident \<noteq> 0"
    "gsignond_identity_info_get_id (id_info i) = ident"
  shows "well_formed (d\<lparr>d_identities := AList.update ident n (d_identities d)\<rparr>)"
  using assms by (auto simp: well_formed_def tables_ok_def cache_ok_def update_conv')

lemma cache_filter_ok:
  assumes "well_formed d"
  shows "well_formed (d\<lparr>d_identities := filter P (d_identities d)\<rparr>)"
proof -
  have sub: "map_of (filter P xs) k = Some v \<Longrightarrow> map_of xs k = Some v" if "keys_distinct xs" for xs k and v :: nat
    using that map_of_SomeD [of "filter P xs" k v] by (auto intro: map_of_is_SomeI)
  have "keys_distinct (d_identities d)" using assms by (simp add: well_formed_def tables_ok_def)
  with assms sub [OF this] show ?thesis
    by (simp add: well_formed_def tables_ok_def cache_ok_def distinct_map_filter)
qed

lemma delete_filter: "AList.delete k xs = filter (\<lambda>(k', v). k \<noteq> k') xs"
  by (simp add: AList.delete_eq)

lemma identity_dispose_ok:
  assumes "well_formed d"
  shows "well_formed (identity_dispose n d)"
proof -
  let ?d = "d\<lparr>d_identities := filter (\<lambda>(key, v). v \<noteq> n) (d_identities d)\<rparr>"
  have d: "well_formed ?d" by (rule cache_filter_ok [OF assms])
  have e: "identity_dispose n d = ?d\<lparr>d_objects := AList.delete n (d_objects ?d)\<rparr>"
    by (simp add: identity_dispose_def on_identity_disposed_def)
  have keep: "map_of (d_objects (identity_dispose n d)) m = (if m = n then None else map_of (d_objects d) m)" for m
    by (simp add: e delete_conv')
  have t: "tables_ok (identity_dispose n d)"
    using d unfolding well_formed_def tables_ok_def e by (auto simp: delete_conv')
  have l: "lists (identity_dispose n d) m x s \<longleftrightarrow> m \<noteq> n \<and> lists d m x s" for m x s
    by (simp add: lists_def keep)
  have s: "sessions_ok (identity_dispose n d)"
    using assms unfolding well_formed_def sessions_ok_def l keep
    by (simp add: identity_dispose_def on_identity_disposed_def split: if_splits) blast
  have kd: "keys_distinct (d_identities d)" using assms by (simp add: well_formed_def tables_ok_def)
  have c: "cache_ok {} (identity_dispose n d)"
    unfolding cache_ok_def
  proof (intro allI impI)
    fix ident m assume m: "map_of (d_identities (identity_dispose n d)) ident = Some m"
    then have "(ident, m) \<in> set (filter (\<lambda>(key, v). v \<noteq> n) (d_identities d))"
      by (intro map_of_SomeD) (simp add: identity_dispose_def on_identity_disposed_def)
    then have "m \<noteq> n" "map_of (d_identities d) ident = Some m" using kd by (auto intro: map_of_is_SomeI)
    with assms show "ident \<noteq> 0 \<and> (\<exists>i. map_of (d_objects (identity_dispose n d)) m = Some i \<and>
        (gsignond_identity_info_get_id (id_info i) = ident \<or> m \<in> {} \<or> re_stored m (identity_dispose n d)))"
      unfolding well_formed_def cache_ok_def keep
      by (simp add: re_stored_def identity_dispose_def on_identity_disposed_def)
  qed
  from t s c show ?thesis by (simp add: well_formed_def)
qed

lemma session_dispose_ok:
  assumes "well_formed d"
  shows "well_formed (session_dispose s d)"
proof -
  let ?d = "session_dispose s d"
  have o: "map_of (d_objects ?d) m = map_option (on_session_dead s) (map_of (d_objects d) m)" for m
    using map_of_map_keyed [of "\<lambda>_. on_session_dead s"] by (simp add: session_dispose_def)
  have x: "map_of (d_sessions ?d) t = (if t = s then None else map_of (d_sessions d) t)" for t
    by (simp add: session_dispose_def delete_conv')
  have l: "lists ?d n m t \<longleftrightarrow> t \<noteq> s \<and> lists d n m t" for n m t
    by (auto simp: lists_def o on_session_dead_def)
  have f: "fst \<circ> (\<lambda>(k, v). (k, on_session_dead s v)) = fst" by auto
  have dom: "dom (map_of (d_objects ?d)) = dom (map_of (d_objects d))"
      "dom (map_of (d_sessions ?d)) \<subseteq> dom (map_of (d_sessions d))"
    by (auto simp: o x split: if_splits)
  have t: "tables_ok ?d"
    using assms dom unfolding well_formed_def tables_ok_def by (simp add: session_dispose_def f) blast
  have s: "sessions_ok ?d"
    using assms unfolding well_formed_def sessions_ok_def l x
    by (auto simp: o on_session_dead_def distinct_map_filter)
  have "d_identities ?d = d_identities d" "re_stored n ?d = re_stored n d" for n
    by (simp_all add: session_dispose_def re_stored_def)
  then have "cache_ok {} ?d"
    using assms unfolding well_formed_def cache_ok_def by (fastforce simp: o on_session_dead_def)
  with t s show ?thesis by (simp add: well_formed_def)
qed


subsection \<open>Calls of applications\<close>

lemma register_ok:
  "well_formed d \<Longrightarrow> gsignond_daemon_register_new_identity ctx d = (r, d') \<Longrightarrow> well_formed d'"
  by (auto simp: gsignond_daemon_register_new_identity_def Let_def dest: new_identity_ok split: option.splits prod.splits)

lemma get_identity_ok:
  assumes "well_formed d" "gsignond_daemon_get_identity env ident ctx d = (r, d')"
  shows "well_formed d'"
proof (cases "d' = d")
  case False
  then have id: "ident \<noteq> 0" using assms(2) by (auto simp: gsignond_daemon_get_identity_def)
  obtain loaded d1 where l: "on_db (gsignond_db_credentials_database_load_identity (e_storage env) ident True) d = (loaded, d1)"
    by (cases "on_db (gsignond_db_credentials_database_load_identity (e_storage env) ident True) d")
  have d1: "well_formed d1" by (rule same_graph_ok [OF assms(1) same_graph_on(1) [OF l]])
  show ?thesis
  proof (cases "d' = d1")
    case True
    with d1 show ?thesis by simp
  next
    case new: False
    then obtain info n d2 where i: "loaded = Some info" and n: "gsignond_identity_new info d1 = (n, d2)"
        and d': "d' = d2\<lparr>d_identities := AList.update ident n (d_identities d2)\<rparr>"
      using assms(2) False id l
      by (auto simp: gsignond_daemon_get_identity_def Let_def split: option.splits if_splits prod.splits)
    have "gsignond_identity_info_get_id info = ident"
      using l i by (auto simp: on_db_def dest: load_identity_id split: prod.splits)
    with new_identity_ok [OF d1 n] id show ?thesis unfolding d' by (intro cache_update_ok) auto
  qed
qed (use assms in simp)

text \<open>What storing an identity does to the tables.\<close>

lemma store_identity_effect:
  assumes "map_of (d_objects d) n = Some i" "gsignond_daemon_store_identity env n d = (ident, d')"
  obtains db info where "gsignond_identity_info_get_id info = gsignond_identity_info_get_id (id_info i)"
    "d' = (let d1 = put_info n info (d\<lparr>d_db := db\<rparr>)
           in if gsignond_identity_info_get_is_identity_new (id_info i) \<and> ident \<noteq> 0
              then d1\<lparr>d_identities := AList.update ident n (d_identities d1)\<rparr> else d1)"
proof -
  obtain ident' info db where u:
      "gsignond_db_credentials_database_update_identity (e_storage env) (id_info i) (d_db d) = ((ident', info), db)"
    by (metis prod.collapse)
  then show ?thesis
    using that [OF update_identity_id [OF u], of db] assms
    by (auto simp: gsignond_daemon_store_identity_def on_db_def Let_def)
qed

lemma same_graph_db [simp, intro]: "same_graph d (d\<lparr>d_db := db\<rparr>)"
  by (simp add: same_graph_def)

lemma store_known_ok:
  assumes "well_formed d" "map_of (d_objects d) n = Some i" "\<not> gsignond_identity_info_get_is_identity_new (id_info i)"
    "gsignond_daemon_store_identity env n d = (ident, d')"
  shows "well_formed d' \<and> d_log d' = d_log d"
proof (rule store_identity_effect [OF assms(2,4)], goal_cases)
  case (1 db info)
  have "well_formed (d\<lparr>d_db := db\<rparr>)" by (rule same_graph_ok [OF assms(1)]) simp
  with 1 assms(2,3) show ?case by (simp add: put_info_ok [where i = i])
qed

lemma store_failed_ok:
  assumes "well_formed d" "map_of (d_objects d) n = Some i" "gsignond_daemon_store_identity env n d = (0, d')"
  shows "well_formed d'"
proof (rule store_identity_effect [OF assms(2,3)], goal_cases)
  case (1 db info)
  have "well_formed (d\<lparr>d_db := db\<rparr>)" by (rule same_graph_ok [OF assms(1)]) simp
  with 1 assms(2) show ?case by (simp add: put_info_ok [where i = i])
qed

text \<open>Storing a new identity and giving it its id.\<close>

lemma new_uncached:
  assumes "well_formed d" "map_of (d_objects d) n = Some i" "gsignond_identity_info_get_is_identity_new (id_info i)"
    "map_of (d_identities d) ident = Some n"
  shows "re_stored n d"
  using assms unfolding well_formed_def cache_ok_def
  by (fastforce simp: gsignond_identity_info_get_is_identity_new_def GSIGNOND_IDENTITY_INFO_NEW_IDENTITY_def)


lemma same_graph_fold:
  "(\<And>x d. same_graph d (f x d)) \<Longrightarrow> same_graph d (fold f xs d)"
proof (induction xs arbitrary: d)
  case Nil
  then show ?case by simp
next
  case (Cons x xs)
  from Cons.IH [OF Cons.prems, of "f x d"] same_graph_trans [OF Cons.prems [of d x]] show ?case by simp
qed

lemma same_graph_snd [simp]: "same_graph d (snd (on_db f d))" "same_graph d (snd (on_factory g d))"
  by (metis same_graph_on prod.collapse)+

lemma same_graph_token: "same_graph d (store_cached_token_data env ident ms d)"
  by (simp add: store_cached_token_data_def gsignond_daemon_store_identity_data_def split: option.split)

lemma store_new_ok:
  assumes d: "well_formed d" and i: "map_of (d_objects d) n = Some i"
    and new: "gsignond_identity_info_get_is_identity_new (id_info i)"
    and st: "gsignond_daemon_store_identity env n d = (ident, d')" and nz: "ident \<noteq> 0"
  shows "well_formed (set_id n ident d')"
proof (rule store_identity_effect [OF i st], goal_cases)
  case (1 db info)
  let ?d0 = "d\<lparr>d_db := db\<rparr>"
  let ?d1 = "put_info n info ?d0"
  let ?ids = "AList.update ident n (d_identities ?d1)"
  have d': "d' = ?d1\<lparr>d_identities := ?ids\<rparr>" using 1(2) new nz by (simp add: Let_def)
  have i0: "map_of (d_objects ?d0) n = Some i" using i by simp
  have "well_formed ?d0" by (rule same_graph_ok [OF d]) simp
  then have d1: "well_formed ?d1" by (rule put_info_ok [OF _ i0 1(1)])
  have i1: "map_of (d_objects ?d1) n = Some (i\<lparr>id_info := info\<rparr>)" by (simp add: put_info_objects [OF i0])
  have new1: "gsignond_identity_info_get_is_identity_new (id_info (i\<lparr>id_info := info\<rparr>))"
    using new 1(1) by (simp add: gsignond_identity_info_get_is_identity_new_def)
  let ?info = "snd (gsignond_identity_info_set_id info ident)"
  have e: "set_id n ident d' = (put_info n ?info ?d1)\<lparr>d_identities := ?ids\<rparr>"
    using i1 by (simp add: set_id_def d' put_info_def)
  have t: "tables_ok (set_id n ident d')"
    using put_info_tables [of ?d1 n ?info] d1 unfolding e well_formed_def by (simp add: tables_ok_def)
  have s: "sessions_ok (set_id n ident d')"
    using put_info_sessions_ok [of ?d1 n ?info] d1 unfolding e well_formed_def by simp
  have c: "cache_ok {} (set_id n ident d')"
    unfolding cache_ok_def
  proof (intro allI impI)
    fix key m assume m: "map_of (d_identities (set_id n ident d')) key = Some m"
    have r: "re_stored k (set_id n ident d') = re_stored k ?d1" for k by (simp add: re_stored_def e)
    show "key \<noteq> 0 \<and> (\<exists>i. map_of (d_objects (set_id n ident d')) m = Some i \<and>
        (gsignond_identity_info_get_id (id_info i) = key \<or> m \<in> {} \<or> re_stored m (set_id n ident d')))"
    proof (cases "key = ident")
      case True
      with m have "m = n" by (simp add: e update_conv')
      moreover have "map_of (d_objects (set_id n ident d')) n = Some (i\<lparr>id_info := ?info\<rparr>)"
        by (simp add: e put_info_objects [OF i1])
      ultimately show ?thesis using True nz by simp
    next
      case False
      with m have k: "map_of (d_identities ?d1) key = Some m" by (simp add: e update_conv')
      then have "m = n \<Longrightarrow> re_stored n ?d1" using new_uncached [OF d1 i1 new1] by simp
      with d1 k show ?thesis
        unfolding well_formed_def cache_ok_def r by (auto simp: e put_info_objects [OF i1])
    qed
  qed
  from t s c show ?case by (simp add: well_formed_def)
qed

lemma identity_store_ok:
  assumes "well_formed d" "gsignond_identity_store env n info ctx d = (r, d')"
  shows "well_formed d'"
proof (cases "guarded identity_rw_access n ctx d")
  case (Inl e)
  then show ?thesis using assms by (simp add: gsignond_identity_store_def)
next
  case (Inr i)
  then have i: "map_of (d_objects d) n = Some i" by (auto simp: guarded_def split: option.splits if_splits)
  let ?new = "gsignond_identity_info_get_is_identity_new (id_info i)"
  let ?info = "merge_info (id_info i) (drop_empty_owner (gsignond_identity_info_new_from_variant info))"
  let ?d1 = "put_info n ?info d"
  obtain ident d2 where st: "gsignond_daemon_store_identity env n ?d1 = (ident, d2)"
    by (cases "gsignond_daemon_store_identity env n ?d1")
  have d1: "well_formed ?d1" by (rule put_info_ok [OF assms(1) i]) simp
  have i1: "map_of (d_objects ?d1) n = Some (i\<lparr>id_info := ?info\<rparr>)" by (simp add: put_info_objects [OF i])
  have new: "gsignond_identity_info_get_is_identity_new ?info = ?new"
    by (simp add: gsignond_identity_info_get_is_identity_new_def)
  consider "d' = d" | "ident = 0" "d' = d2"
    | "ident \<noteq> 0" "d' = emit (Sig_info_updated n GSIGNOND_IDENTITY_DATA_UPDATED)
        (if ?new then fold (store_cached_token_data env ident) (id_auth_sessions i) (set_id n ident d2) else d2)"
    using assms(2) Inr st
    by (auto simp: gsignond_identity_store_def Let_def split: if_splits prod.splits)
  then show ?thesis
  proof cases
    case 1
    with assms(1) show ?thesis by simp
  next
    case 2
    with store_failed_ok [OF d1 i1] st show ?thesis by simp
  next
    case 3
    have "well_formed (if ?new then fold (store_cached_token_data env ident) (id_auth_sessions i) (set_id n ident d2) else d2)"
    proof (cases ?new)
      case True
      have "well_formed (set_id n ident d2)" by (rule store_new_ok [OF d1 i1 _ st 3(1)]) (simp add: new True)
      from same_graph_ok [OF this same_graph_fold [of "store_cached_token_data env ident", OF same_graph_token]] True
      show ?thesis by simp
    next
      case False
      then show ?thesis using store_known_ok [OF d1 i1 _ st] new by simp
    qed
    then show ?thesis unfolding 3(2) by (rule same_graph_ok) simp
  qed
qed


lemma guarded_object: "guarded access n ctx d = Inr i \<Longrightarrow> map_of (d_objects d) n = Some i"
  by (auto simp: guarded_def split: option.splits if_splits)

lemma update_new: "map_of t k = None \<Longrightarrow> AList.update k v t = t @ [(k, v)]"
  by (induction t) (auto split: if_splits)

text \<open>A new session joins the identity whose description it got.\<close>

lemma session_added_ok:
  assumes d: "well_formed d" and i: "map_of (d_objects d) n = Some i"
    and m: "map_of (id_auth_sessions i) m = None" and x: "as_method x = m" "as_identity_info x = id_info i"
    and d': "d' = d\<lparr>d_next := d_next d + 1, d_sessions := AList.update (d_next d) x (d_sessions d),
      d_objects := AList.update n (i\<lparr>id_auth_sessions := AList.update m (d_next d) (id_auth_sessions i)\<rparr>) (d_objects d)\<rparr>"
  shows "well_formed d'"
proof -
  let ?s = "d_next d"
  have fresh: "map_of (d_sessions d) ?s = None" using d by (auto simp: well_formed_def tables_ok_def)
  have o: "map_of (d_objects d') = (map_of (d_objects d))(n \<mapsto> i\<lparr>id_auth_sessions := AList.update m ?s (id_auth_sessions i)\<rparr>)"
    and ss: "map_of (d_sessions d') = (map_of (d_sessions d))(?s \<mapsto> x)"
    by (simp_all add: d' update_conv')
  have t: "tables_ok d'"
    using d i unfolding well_formed_def tables_ok_def o ss by (auto simp: d' intro: less_SucI)
  have here: "set (AList.update m ?s (id_auth_sessions i)) = insert (m, ?s) (set (id_auth_sessions i))"
    using m by (simp add: update_new)
  have old: "t \<noteq> ?s" if "lists d k l t" for k l t
    using d that fresh unfolding well_formed_def sessions_ok_def lists_def by (metis option.distinct(1))
  have l: "lists d' k l t \<longleftrightarrow> lists d k l t \<or> k = n \<and> l = m \<and> t = ?s" for k l t
    using i here by (auto simp: lists_def o)
  have uniq: "\<forall>n n' m m' s. lists d' n m s \<longrightarrow> lists d' n' m' s \<longrightarrow> n = n'"
    using d old unfolding well_formed_def sessions_ok_def l by blast
  have "keys_distinct (id_auth_sessions j) \<and> (\<forall>l t. (l, t) \<in> set (id_auth_sessions j) \<longrightarrow>
      (\<exists>y. map_of (d_sessions d') t = Some y \<and> as_method y = l \<and> as_identity_info y = id_info j))"
    if j: "map_of (d_objects d') k = Some j" for k j
  proof -
    obtain j0 where j0: "map_of (d_objects d) k = Some j0" "id_info j = id_info j0"
        "set (id_auth_sessions j) = set (id_auth_sessions j0) \<union> (if k = n then {(m, ?s)} else {})"
        "keys_distinct (id_auth_sessions j0) \<Longrightarrow> keys_distinct (id_auth_sessions j)"
      using j i here by (auto simp: o split: if_splits)
    have "\<exists>y. map_of (d_sessions d') t = Some y \<and> as_method y = l \<and> as_identity_info y = id_info j"
      if "(l, t) \<in> set (id_auth_sessions j0)" for l t
      using d j0(1,2) that old [of k l t] unfolding well_formed_def sessions_ok_def ss by (auto simp: lists_def)
    moreover have "k = n \<Longrightarrow> id_info j0 = id_info i" using i j0 by simp
    ultimately show ?thesis using d j0 x unfolding well_formed_def sessions_ok_def ss by (auto split: if_splits)
  qed
  with uniq have s: "sessions_ok d'" unfolding sessions_ok_def by blast
  have "d_identities d' = d_identities d" "re_stored k d' = re_stored k d" for k by (simp_all add: d' re_stored_def)
  then have "cache_ok {} d'" using d i unfolding well_formed_def cache_ok_def o by fastforce
  with t s show ?thesis by (simp add: well_formed_def)
qed


text \<open>The state with a new session of the identity.\<close>

definition with_session :: "nat \<Rightarrow> identity \<Rightarrow> string \<Rightarrow> auth_session \<Rightarrow> 's daemon \<Rightarrow> 's daemon" where
  "with_session n i m session d =
     d\<lparr>d_next := d_next d + 1, d_sessions := AList.update (d_next d) session (d_sessions d),
       d_objects := AList.update n (i\<lparr>id_auth_sessions := AList.update m (d_next d) (id_auth_sessions i)\<rparr>) (d_objects d)\<rparr>"

lemma get_auth_session_cases:
  assumes "guarded identity_x_access n ctx d = Inr i" "gsignond_identity_get_auth_session env n meth ctx d = (r, d')"
  shows "same_graph d d' \<or>
    (\<exists>m tok d3. map_of (id_auth_sessions i) m = None \<and> same_graph d d3 \<and>
       d' = put_info n (gsignond_identity_info_ref (id_info i)) (with_session n i m
          \<lparr>as_method = m, available_mechanisms = None, as_identity_info = gsignond_identity_info_ref (id_info i),
           token_data = tok\<rparr> d3))"
proof (cases "meth = None \<or> map_of (id_auth_sessions i) (the meth) \<noteq> None")
  case True
  then show ?thesis using assms by (cases meth) (auto simp: gsignond_identity_get_auth_session_def)
next
  case False
  then obtain m where meth: "meth = Some m" and m: "map_of (id_auth_sessions i) m = None" by auto
  obtain mechs d1 where s1: "on_factory (gsignond_plugin_proxy_factory_get_plugin_mechanisms (e_loaders env) m) d =
      (mechs, d1)" by fastforce
  obtain loaded d2 where s2: "(if gsignond_identity_info_get_id (id_info i) \<noteq> GSIGNOND_IDENTITY_INFO_NEW_IDENTITY
      then gsignond_daemon_load_identity_data env (gsignond_identity_info_get_id (id_info i)) m d1 else (None, d1)) =
      (loaded, d2)" by fastforce
  obtain proxy d3 where s3: "on_factory (gsignond_plugin_proxy_factory_get_plugin (e_loaders env)
      (e_makes_proxy env m) m) d2 = (proxy, d3)" by fastforce
  have g1: "same_graph d d1" by (rule same_graph_on(2) [OF s1])
  have g2: "same_graph d1 d2"
    using s2 same_graph_on(1) by (auto simp: gsignond_daemon_load_identity_data_def split: if_splits)
  have g3: "same_graph d d3" using same_graph_on(2) [OF s3] g1 g2 same_graph_trans by blast
  show ?thesis
  proof (cases "mechs = None \<or> \<not> method_available (id_info i) m")
    case True
    then have "d' = d1" using assms meth m s1
      by (auto simp: gsignond_identity_get_auth_session_def split: option.splits)
    then show ?thesis using g1 by blast
  next
    case False
    then have "d' = d3 \<or> (\<exists>tok. d' = put_info n (gsignond_identity_info_ref (id_info i)) (with_session n i m
          \<lparr>as_method = m, available_mechanisms = None, as_identity_info = gsignond_identity_info_ref (id_info i),
           token_data = tok\<rparr> d3))"
      using assms meth m s1 s2 s3
      by (cases "gsignond_identity_info_get_id (id_info i) \<noteq> GSIGNOND_IDENTITY_INFO_NEW_IDENTITY"; cases proxy)
         (auto simp: gsignond_identity_get_auth_session_def gsignond_auth_session_new_def with_session_def Let_def)
    then show ?thesis using g3 m by blast
  qed
qed

lemma with_session_info:
  assumes "map_of (d_sessions d) (d_next d) = None" "as_identity_info x = info" "x' = x\<lparr>as_identity_info := id_info i\<rparr>"
  shows "put_info n info (with_session n i m x d) = put_info n info (with_session n i m x' d)"
proof -
  have "d_next d \<in> snd ` set (AList.update m (d_next d) (id_auth_sessions i))"
    using map_of_SomeD [of "AList.update m (d_next d) (id_auth_sessions i)" m "d_next d"]
    by (force simp: update_conv')
  then show ?thesis
    using assms by (simp add: put_info_def with_session_def update_conv' update_new)
qed

lemma get_auth_session_ok:
  assumes "well_formed d" "gsignond_identity_get_auth_session env n meth ctx d = (r, d')"
  shows "well_formed d'"
proof (cases "guarded identity_x_access n ctx d")
  case (Inl e)
  then show ?thesis using assms by (simp add: gsignond_identity_get_auth_session_def)
next
  case (Inr i)
  from get_auth_session_cases [OF Inr assms(2)] show ?thesis
  proof (elim disjE exE conjE)
    assume "same_graph d d'"
    with assms(1) show ?thesis by (rule same_graph_ok)
  next
    fix m tok d3
    let ?info = "gsignond_identity_info_ref (id_info i)"
    let ?x = "\<lparr>as_method = m, available_mechanisms = None, as_identity_info = ?info, token_data = tok\<rparr>"
    assume m: "map_of (id_auth_sessions i) m = None" and g: "same_graph d d3"
      and d': "d' = put_info n ?info (with_session n i m ?x d3)"
    have d3: "well_formed d3" by (rule same_graph_ok [OF assms(1) g])
    have i3: "map_of (d_objects d3) n = Some i" using guarded_object [OF Inr] g by (simp add: same_graph_def)
    have fresh: "map_of (d_sessions d3) (d_next d3) = None" using d3 by (auto simp: well_formed_def tables_ok_def)
    let ?y = "?x\<lparr>as_identity_info := id_info i\<rparr>"
    have "well_formed (with_session n i m ?y d3)"
      by (rule session_added_ok [OF d3 i3 m, of ?y]) (simp_all add: with_session_def)
    moreover have "map_of (d_objects (with_session n i m ?y d3)) n =
        Some (i\<lparr>id_auth_sessions := AList.update m (d_next d3) (id_auth_sessions i)\<rparr>)"
      by (simp add: with_session_def update_conv')
    ultimately have "well_formed (put_info n ?info (with_session n i m ?y d3))" by (rule put_info_ok) simp
    then show ?thesis unfolding d' using with_session_info [OF fresh, of ?x ?info ?y i n m] by simp
  qed
qed

lemma identity_clear_same: "gsignond_identity_clear env n d = (r, d') \<Longrightarrow> same_graph d d'"
  by (auto simp: gsignond_identity_clear_def gsignond_daemon_remove_identity_def dest!: same_graph_on
      intro: same_graph_trans split: option.splits if_splits prod.splits)

lemma identity_remove_same: "gsignond_identity_remove env n ctx d = (r, d') \<Longrightarrow> same_graph d d'"
  by (auto simp: gsignond_identity_remove_def dest!: identity_clear_same
      split: sum.splits if_splits prod.splits bool.splits)

lemma sign_out_same: "gsignond_identity_sign_out env n ctx d = (r, d') \<Longrightarrow> same_graph d d'"
  by (auto simp: gsignond_identity_sign_out_def gsignond_daemon_clear_identity_data_def Let_def dest!: same_graph_on
      intro: same_graph_trans split: sum.splits if_splits prod.splits bool.splits)

lemma reference_same:
  "gsignond_identity_add_reference n reference ctx d = (r, d') \<Longrightarrow> same_graph d d'"
  "gsignond_identity_remove_reference n ref' ctx d = (r', d') \<Longrightarrow> same_graph d d'"
  by (auto simp: gsignond_identity_add_reference_def gsignond_identity_remove_reference_def Let_def
      gsignond_daemon_add_identity_reference_def gsignond_daemon_remove_identity_reference_def dest!: same_graph_on
      split: sum.splits if_splits prod.splits bool.splits)


subsection \<open>Callbacks\<close>

lemma same_graph_rest [simp, intro]:
  "same_graph d (d\<lparr>d_ui := ui\<rparr>)" "same_graph d (d\<lparr>d_cb_data := cb\<rparr>)" "same_graph d (d\<lparr>d_cancel_handlers := hs\<rparr>)"
  "same_graph d (d\<lparr>d_refresh_handlers := hs\<rparr>)" "same_graph d (disconnect_cancel u d)" "same_graph d (disconnect_refresh u d)"
  "same_graph d (d\<lparr>d_next := d_next d + 1, d_cb_data := cb\<rparr>)"
  by (simp_all add: same_graph_def disconnect_cancel_def disconnect_refresh_def)

lemma free_cb_data_ok: "well_formed d \<Longrightarrow> free_cb_data u d = Inr d' \<Longrightarrow> well_formed d'"
  by (auto simp: free_cb_data_def intro: same_graph_ok split: if_splits)

lemma credentials_stored_ok:
  assumes d: "well_formed d" and i: "map_of (d_objects d) n = Some i"
    and st: "gsignond_daemon_store_identity env n d = (ident, d')"
  shows "well_formed (emit (Sig_credentials_updated n ident err) d')"
proof (rule store_identity_effect [OF i st], goal_cases)
  case (1 db info)
  let ?d1 = "put_info n info (d\<lparr>d_db := db\<rparr>)"
  have i0: "map_of (d_objects (d\<lparr>d_db := db\<rparr>)) n = Some i" using i by simp
  have "well_formed (d\<lparr>d_db := db\<rparr>)" by (rule same_graph_ok [OF d]) simp
  then have d1: "well_formed ?d1" by (rule put_info_ok [OF _ i0 1(1)])
  show ?case
  proof (cases "ident = 0 \<or> \<not> gsignond_identity_info_get_is_identity_new (id_info i)")
    case True
    then have "d' = ?d1" using 1(2) by (auto simp: Let_def)
    then show ?thesis using same_graph_ok [OF d1 same_graph_emit] by simp
  next
    case False
    then have d': "d' = ?d1\<lparr>d_identities := AList.update ident n (d_identities ?d1)\<rparr>" using 1(2) by (simp add: Let_def)
    let ?e = "Sig_credentials_updated n ident err"
    have i1: "map_of (d_objects ?d1) n = Some (i\<lparr>id_info := info\<rparr>)" by (simp add: put_info_objects [OF i0])
    have r: "re_stored k (emit ?e d') \<longleftrightarrow> k = n \<or> re_stored k ?d1" for k
      using False by (auto simp: re_stored_def emit_def d')
    have c: "cache_ok {} (emit ?e d')"
      unfolding cache_ok_def r using d1 False i1
      by (auto simp: emit_def d' well_formed_def cache_ok_def update_conv')
    have "tables_ok d'" "sessions_ok d'" using d1 by (simp_all add: d' well_formed_def tables_ok_def)
    then show ?thesis
      using c same_graph_tables same_graph_sessions unfolding well_formed_def by blast
  qed
qed

lemma on_user_action_completed_ok:
  assumes d: "well_formed d" and r: "on_user_action_completed env reply error u d = Inr d'"
  shows "well_formed d'"
proof -
  obtain n s i session where cb: "map_of (d_cb_data d) u = Some (n, s)" "map_of (d_objects d) n = Some i"
      "map_of (d_sessions d) s = Some session"
    using r by (auto simp: on_user_action_completed_def split: option.splits)
  let ?d1 = "disconnect_cancel u (disconnect_refresh u d)"
  let ?info = "take_user_answer (reply_data reply) (reply_error reply) (id_info i)"
  let ?d2 = "put_info n ?info ?d1"
  have d1: "well_formed ?d1" using same_graph_ok [OF same_graph_ok [OF d]] by blast
  have i1: "map_of (d_objects ?d1) n = Some i" using cb by (simp add: disconnect_cancel_def disconnect_refresh_def)
  have d2: "well_formed ?d2" by (rule put_info_ok [OF d1 i1]) simp
  have i2: "map_of (d_objects ?d2) n = Some (i\<lparr>id_info := ?info\<rparr>)" by (simp add: put_info_objects [OF i1])
  have d3: "well_formed (if \<not> gsignond_identity_info_get_is_identity_new ?info
      then snd (gsignond_daemon_store_identity env n ?d2) else ?d2)"
    using store_known_ok [OF d2 i2 _ prod.collapse [symmetric]] d2 by simp
  show ?thesis
  proof (cases "error = None")
    case True
    with r cb have "free_cb_data u (emit (Session_user_action_finished s (reply_data reply))
        (if \<not> gsignond_identity_info_get_is_identity_new ?info
         then snd (gsignond_daemon_store_identity env n ?d2) else ?d2)) = Inr d'"
      by (simp add: on_user_action_completed_def Let_def)
    then show ?thesis by (rule free_cb_data_ok [OF same_graph_ok [OF d3 same_graph_emit]])
  next
    case False
    with r cb have "free_cb_data u (emit (Session_user_action_finished s (ui_error_reply SIGNONUI_ERROR_GENERAL)) ?d1) = Inr d'"
      by (simp add: on_user_action_completed_def)
    then show ?thesis by (rule free_cb_data_ok [OF same_graph_ok [OF d1 same_graph_emit]])
  qed
qed

lemma on_credentials_updated_ok:
  assumes d: "well_formed d" and r: "on_credentials_updated env reply error n d = Inr d'"
  shows "well_formed d'"
proof -
  obtain i where i: "map_of (d_objects d) n = Some i"
    using r by (auto simp: on_credentials_updated_def split: option.splits)
  consider ident err where "d' = emit (Sig_credentials_updated n ident err) d"
    | secret ident err d2 where "d' = emit (Sig_credentials_updated n ident err) d2"
      "gsignond_daemon_store_identity env n
         (put_info n (snd (gsignond_identity_info_set_secret (id_info i) (Some secret))) d) = (ident, d2)"
    using r i by (auto simp: on_credentials_updated_def split: option.splits if_splits prod.splits)
  then show ?thesis
  proof cases
    case 1
    with same_graph_ok [OF d same_graph_emit] show ?thesis by simp
  next
    case 2
    have "well_formed (put_info n (snd (gsignond_identity_info_set_secret (id_info i) (Some secret))) d)"
      by (rule put_info_ok [OF d i]) simp
    from credentials_stored_ok [OF this _ 2(2)] show ?thesis unfolding 2(1) by (simp add: put_info_objects [OF i])
  qed
qed

lemma run_callback_ok: "well_formed d \<Longrightarrow> run_callback env e d = Inr d' \<Longrightarrow> well_formed d'"
proof (induction env e d rule: run_callback.induct)
  case (1 env reply error u d)
  then show ?case using on_user_action_completed_ok by simp
next
  case (2 env reply error n d)
  then show ?case using on_credentials_updated_ok by simp
next
  case (3 env reply error n d)
  then show ?case by (auto simp: on_user_verified_def intro: same_graph_ok split: option.splits)
next
  case (4 env ui_data u d)
  then show ?case by (auto simp: on_refresh_requested_by_ui_def
      intro: same_graph_ok same_graph_trans split: option.splits)
next
  case (5 env error u d)
  then show ?case by (auto simp: on_dialog_refreshed_def intro: same_graph_ok split: if_splits)
qed simp_all

lemma run_callbacks_ok: "well_formed d \<Longrightarrow> run_callbacks env es d = Inr d' \<Longrightarrow> well_formed d'"
  by (induction es arbitrary: d) (auto dest: run_callback_ok split: sum.splits)

lemma with_ui_ok:
  assumes "well_formed d" "with_ui env f d = Inr (r, d')"
  shows "well_formed d'"
  using assms(2) run_callbacks_ok [OF same_graph_ok [OF assms(1) same_graph_rest(1)]]
  by (auto simp: with_ui_def split: prod.splits sum.splits)

lemma run_handlers_ok:
  assumes "\<And>u d d'. well_formed d \<Longrightarrow> h u d = Inr d' \<Longrightarrow> well_formed d'"
  shows "well_formed d \<Longrightarrow> run_handlers h us d = Inr d' \<Longrightarrow> well_formed d'"
  by (induction us arbitrary: d) (auto dest: assms split: sum.splits)


subsection \<open>The work of the sessions\<close>

text \<open>A session at work changes its mechanisms and its token, and nothing else of its state.\<close>

definition same_sessions :: "(session_id \<times> auth_session) list \<Rightarrow> (session_id \<times> auth_session) list \<Rightarrow> bool" where
  "same_sessions t t' \<longleftrightarrow> (keys_distinct t \<longrightarrow> keys_distinct t') \<and>
     (\<forall>s. map_option (\<lambda>x. (as_method x, as_identity_info x)) (map_of t' s) =
          map_option (\<lambda>x. (as_method x, as_identity_info x)) (map_of t s))"

lemma same_sessions_refl [simp]: "same_sessions t t"
  by (simp add: same_sessions_def)

lemma same_sessions_trans: "same_sessions t t' \<Longrightarrow> same_sessions t' t'' \<Longrightarrow> same_sessions t t''"
  by (simp add: same_sessions_def)

lemma same_sessions_update:
  "map_of t s = Some x \<Longrightarrow> as_method y = as_method x \<Longrightarrow> as_identity_info y = as_identity_info x \<Longrightarrow>
     same_sessions t (AList.update s y t)"
  by (simp add: same_sessions_def update_conv')

lemma tell_sessions [simp]: "w_sessions (tell e w) = w_sessions w"
  by (simp add: tell_def)

lemma notify_same: "notify e w = Inr w' \<Longrightarrow> same_sessions (w_sessions w) (w_sessions w')"
  by (induction e w rule: notify.induct)
     (auto simp: gsignond_auth_session_notify_state_changed_def gsignond_auth_session_notify_process_result_def
        gsignond_auth_session_notify_process_error_def gsignond_auth_session_notify_store_def
        gsignond_auth_session_notify_user_action_required_def gsignond_auth_session_notify_refreshed_def Let_def
        intro!: same_sessions_update split: if_splits option.splits)

lemma deliver_same: "deliver es w = Inr w' \<Longrightarrow> same_sessions (w_sessions w) (w_sessions w')"
  by (induction es arbitrary: w) (auto dest: notify_same intro: same_sessions_trans split: sum.splits)

lemma with_proxy_same: "with_proxy f w = Inr w' \<Longrightarrow> same_sessions (w_sessions w) (w_sessions w')"
  by (auto simp: with_proxy_def dest: deliver_same split: option.splits)

lemma create_mechanism_cache_same:
  "as_method (create_mechanism_cache mechs x) = as_method x"
  "as_identity_info (create_mechanism_cache mechs x) = as_identity_info x"
  by (simp_all add: create_mechanism_cache_def Let_def split: option.split)

lemma process_same:
  assumes "gsignond_auth_session_process m mechs s session_data mechanism ctx cb w = Inr (r, w')"
  shows "same_sessions (w_sessions w) (w_sessions w')"
proof (cases "map_of (w_sessions w) s")
  case None
  with assms show ?thesis by (simp add: gsignond_auth_session_process_def)
next
  case (Some x)
  have u: "same_sessions (w_sessions w) (AList.update s (create_mechanism_cache mechs x) (w_sessions w))"
    by (rule same_sessions_update [OF Some]) (simp_all add: create_mechanism_cache_same)
  with assms Some show ?thesis
    by (auto simp: gsignond_auth_session_process_def Let_def dest!: with_proxy_same
        intro: same_sessions_trans split: if_splits sum.splits)
qed

lemma session_step_same: "session_step m mechs input w = Inr w' \<Longrightarrow> same_sessions (w_sessions w) (w_sessions w')"
proof (induction m mechs input w rule: session_step.induct)
  case (1 m mechs s session_data mech ctx cb w)
  then show ?case by (cases "gsignond_auth_session_process m mechs s session_data mech ctx cb w") (auto dest: process_same)
next
  case (2 m mechs s ctx w)
  then show ?case
    by (cases "gsignond_auth_session_cancel m s ctx w")
       (auto simp: gsignond_auth_session_cancel_def dest: with_proxy_same split: option.splits if_splits sum.splits)
qed (auto simp: gsignond_auth_session_abort_process_def gsignond_auth_session_user_action_finished_def
      gsignond_auth_session_refresh_def dest: with_proxy_same split: sum.splits)

lemma select_convs_upd: "d_objects (d\<lparr>d_sessions := t\<rparr>) = d_objects d" "d_sessions (d\<lparr>d_sessions := t\<rparr>) = t"
  by simp_all

lemma same_sessions_ok:
  assumes d: "well_formed d" and t: "same_sessions (d_sessions d) t"
  shows "well_formed (d\<lparr>d_sessions := t\<rparr>)"
proof -
  have same: "map_option (\<lambda>x. (as_method x, as_identity_info x)) (map_of t s) =
      map_option (\<lambda>x. (as_method x, as_identity_info x)) (map_of (d_sessions d) s)" for s
    using t by (simp add: same_sessions_def)
  have "map_of t s = None \<longleftrightarrow> map_of (d_sessions d) s = None" for s
    using same [of s] by (cases "map_of t s"; cases "map_of (d_sessions d) s") simp_all
  then have keys: "dom (map_of t) = dom (map_of (d_sessions d))" by (simp add: dom_def)
  have "tables_ok (d\<lparr>d_sessions := t\<rparr>)"
    using d t keys by (auto simp: well_formed_def tables_ok_def same_sessions_def)
  moreover have "\<exists>y. map_of t s = Some y \<and> as_method y = m \<and> as_identity_info y = info"
    if "map_of (d_sessions d) s = Some x" "as_method x = m" "as_identity_info x = info" for s x m info
    using same [of s] that by (cases "map_of t s") auto
  then have "sessions_ok (d\<lparr>d_sessions := t\<rparr>)"
    using d unfolding well_formed_def sessions_ok_def lists_def select_convs_upd by blast
  moreover have "cache_ok {} (d\<lparr>d_sessions := t\<rparr>)"
    using d by (simp add: well_formed_def cache_ok_def re_stored_def)
  ultimately show ?thesis by (simp add: well_formed_def)
qed


lemma show_dialog_ok: "well_formed d \<Longrightarrow> gsignond_daemon_show_dialog env c t x h rh u d = Inr (r, d') \<Longrightarrow> well_formed d'"
  unfolding gsignond_daemon_show_dialog_def by (rule with_ui_ok)

lemma dialog_calls_ok:
  "well_formed d \<Longrightarrow> gsignond_identity_request_credentials_update env n msg ctx d = Inr (r, d') \<Longrightarrow> well_formed d'"
  "well_formed d \<Longrightarrow> gsignond_identity_verify_user env n params ctx d = Inr (r, d') \<Longrightarrow> well_formed d'"
  by (auto simp: gsignond_identity_request_credentials_update_def gsignond_identity_verify_user_def Let_def
      dest: show_dialog_ok split: sum.splits if_splits prod.splits)

lemma identity_call_ok: "well_formed d \<Longrightarrow> identity_call env n ctx op d = Inr (r, d') \<Longrightarrow> well_formed d'"
proof (induction env n ctx op d rule: identity_call.induct)
  case (3 env n ctx d)
  then show ?case by (auto dest: sign_out_same same_graph_ok split: prod.splits)
next
  case (4 env n ctx meth d)
  then show ?case by (auto dest: get_auth_session_ok split: prod.splits)
next
  case (5 env n ctx info d)
  then show ?case by (auto dest: identity_store_ok split: prod.splits)
next
  case (6 env n ctx d)
  then show ?case by (auto dest: identity_remove_same same_graph_ok split: prod.splits)
next
  case (7 env n ctx reference d)
  then show ?case by (auto dest: reference_same same_graph_ok split: prod.splits)
next
  case (8 env n ctx reference d)
  then show ?case by (auto dest!: reference_same(2) intro: same_graph_ok split: prod.splits option.splits)
next
  case (9 env n ctx message d)
  then show ?case by (auto dest: dialog_calls_ok split: prod.splits sum.splits)
next
  case (10 env n ctx params d)
  then show ?case by (auto dest: dialog_calls_ok split: prod.splits sum.splits)
qed simp_all

lemma on_store_token_ok: "well_formed d \<Longrightarrow> well_formed (on_store_token env n s new_data d)"
  by (rule same_graph_ok) (auto simp: on_store_token_def gsignond_daemon_store_identity_data_def Let_def split: option.split)

lemma on_user_action_required_ok:
  assumes "well_formed d" "on_user_action_required env n s ui_data d = Inr d'"
  shows "well_formed d'"
proof -
  have "well_formed (d\<lparr>d_next := d_next d + 1, d_cb_data := cb\<rparr>)" for cb
    by (rule same_graph_ok [OF assms(1) same_graph_rest(7)])
  from show_dialog_ok [OF this] assms(2) show ?thesis
    by (auto simp: on_user_action_required_def Let_def intro!: same_graph_ok [OF _ same_graph_rest(3)] split: sum.splits)
qed

lemma on_process_canceled_ok: "well_formed d \<Longrightarrow> on_process_canceled env s u d = Inr d' \<Longrightarrow> well_formed d'"
  by (auto simp: on_process_canceled_def gsignond_daemon_cancel_dialog_def Let_def
      dest!: with_ui_ok [rotated] dest: free_cb_data_ok intro: same_graph_ok split: sum.splits if_splits)

lemma on_refresh_dialog_ok: "well_formed d \<Longrightarrow> on_refresh_dialog env s ui_data u d = Inr d' \<Longrightarrow> well_formed d'"
  by (auto simp: on_refresh_dialog_def gsignond_daemon_refresh_dialog_def dest!: with_ui_ok [rotated]
      split: sum.splits if_splits)

lemma clear_identities_ok: "well_formed d \<Longrightarrow> well_formed (clear_identities env ids d)"
proof (induction ids arbitrary: d)
  case Nil
  then show ?case by simp
next
  case (Cons e ids)
  obtain ident n where e: "e = (ident, n)" by (cases e)
  obtain removed d1 where c: "gsignond_identity_clear env n d = (removed, d1)" by fastforce
  have "well_formed d1" by (rule same_graph_ok [OF Cons.prems identity_clear_same [OF c]])
  from this cache_filter_ok [OF this] show ?case by (simp add: e c Cons.IH delete_filter)
qed

lemma open_database_ok: "open_database env sm dir d = (r, d') \<Longrightarrow> same_graph d d'"
  using same_graph_on(1) same_graph_trans [OF same_graph_db] by (fastforce simp: open_database_def split: prod.splits)

lemma daemon_clear_ok:
  assumes "well_formed d" "gsignond_daemon_clear env sm dir ctx d = (r, d')"
  shows "well_formed d'"
proof -
  let ?d1 = "clear_identities env (d_identities d) d"
  obtain ok1 d2 where d2: "on_db (gsignond_db_credentials_database_clear (e_storage env) (e_cascade env)) ?d1 = (ok1, d2)"
    by fastforce
  obtain ok2 d3 where d3: "on_db (gsignond_db_credentials_database_close_secret_storage (e_storage env)) d2 = (ok2, d3)"
    by fastforce
  obtain ok3 d4 where d4: "open_database env sm (if snd (init_storage sm) = None then dir else snd (init_storage sm)) d3 =
      (ok3, d4)" by fastforce
  have "d' = d \<or> d' = d4" using assms(2) d2 d3 d4 by (auto simp: gsignond_daemon_clear_def Let_def split: if_splits)
  moreover have "same_graph ?d1 d4"
    using same_graph_on(1) [OF d2] same_graph_on(1) [OF d3] open_database_ok [OF d4] same_graph_trans by blast
  ultimately show ?thesis using assms(1) clear_identities_ok same_graph_ok by blast
qed

subsection \<open>The daemon over time\<close>

inductive daemon_step :: "'s daemon_env \<Rightarrow> 's daemon \<Rightarrow> 's daemon \<Rightarrow> bool" for env where
  Register: "gsignond_daemon_register_new_identity ctx d = (r, d') \<Longrightarrow> daemon_step env d d'"
| Get: "gsignond_daemon_get_identity env ident ctx d = (r, d') \<Longrightarrow> daemon_step env d d'"
| Call: "identity_call env n ctx op d = Inr (r, d') \<Longrightarrow> daemon_step env d d'"
| Query: "gsignond_daemon_query_identities env filter_var ctx d = (r, d') \<Longrightarrow> daemon_step env d d'"
| Methods: "gsignond_daemon_query_methods env d = (r, d') \<Longrightarrow> daemon_step env d d'"
| Mechanisms: "gsignond_daemon_query_mechanisms env meth d = (r, d') \<Longrightarrow> daemon_step env d d'"
| Clear: "gsignond_daemon_clear env sm dir ctx d = (r, d') \<Longrightarrow> daemon_step env d d'"
| Identity_gone: "daemon_step env d (identity_dispose n d)"
| Session_gone: "daemon_step env d (session_dispose s d)"
| Session_works: "session_step (d_acm d) mechs input w = Inr w' \<Longrightarrow> w_sessions w = d_sessions d \<Longrightarrow>
    daemon_step env d (d\<lparr>d_sessions := w_sessions w'\<rparr>)"
| Token: "daemon_step env d (on_store_token env n s new_data d)"
| User_action: "on_user_action_required env n s ui_data d = Inr d' \<Longrightarrow> daemon_step env d d'"
| Canceled: "process_canceled env s d = Inr d' \<Longrightarrow> daemon_step env d d'"
| Refreshed: "process_refreshed env s ui_data d = Inr d' \<Longrightarrow> daemon_step env d d'"
| Ui_reply: "ui_replies env reply error d = Inr d' \<Longrightarrow> daemon_step env d d'"

inductive_cases daemon_stepE: "daemon_step env d d'"

text \<open>A daemon that has just been started.\<close>

definition started :: "'s daemon \<Rightarrow> bool" where
  "started d \<longleftrightarrow> d_identities d = [] \<and> d_objects d = [] \<and> d_sessions d = []"

lemma started_ok: "started d \<Longrightarrow> well_formed d"
  by (simp add: started_def well_formed_def tables_ok_def sessions_ok_def cache_ok_def lists_def)

lemma daemon_step_ok: "daemon_step env d d' \<Longrightarrow> well_formed d \<Longrightarrow> well_formed d'"
proof (induction rule: daemon_step.induct)
  case (Query filter_var ctx d r d')
  then show ?case by (auto simp: gsignond_daemon_query_identities_def Let_def dest!: same_graph_on(1)
      intro: same_graph_ok split: prod.splits)
next
  case (Methods d r d')
  then show ?case unfolding gsignond_daemon_query_methods_def by (blast dest: same_graph_on(2) intro: same_graph_ok)
next
  case (Mechanisms meth d r d')
  then show ?case by (auto simp: gsignond_daemon_query_mechanisms_def dest!: same_graph_on(2)
      intro: same_graph_ok split: prod.splits)
next
  case (Session_works d mechs input w w')
  then show ?case using same_sessions_ok session_step_same by metis
next
  case (Canceled s d d')
  then show ?case unfolding process_canceled_def by (blast intro: run_handlers_ok on_process_canceled_ok)
next
  case (Refreshed s ui_data d d')
  then show ?case unfolding process_refreshed_def by (blast intro: run_handlers_ok on_refresh_dialog_ok)
next
  case (Ui_reply reply error d d')
  then show ?case by (auto simp: ui_replies_def dest: with_ui_ok split: sum.splits prod.splits)
qed (auto dest: register_ok get_identity_ok identity_call_ok daemon_clear_ok on_user_action_required_ok
  intro: identity_dispose_ok session_dispose_ok on_store_token_ok)

text \<open>
  C25. The tables of the daemon are well formed in every state it can get to, whatever applications,
  plugins and the user do and in whatever order objects go: a cached identity is alive and its id is the
  one it is cached under, which is never 0 (but for an identity that a credentials dialog has stored);
  a session of an identity is alive, runs the method it is kept under on the description of that identity
  and of no other, so that an update of the identity reaches all its sessions.
\<close>

theorem tables_well_formed:
  assumes "started d" "(daemon_step env)\<^sup>*\<^sup>* d d'"
  shows "well_formed d'"
  using assms(2)
proof (induction rule: rtranclp_induct)
  case base
  then show ?case by (rule started_ok [OF assms(1)])
next
  case (step y z)
  then show ?case using daemon_step_ok by blast
qed


definition example_started :: "secret_storage daemon" where
  "example_started = example_daemon\<lparr>d_identities := [], d_objects := []\<rparr>"

theorem tables_well_formed_witness:
  "well_formed (snd (gsignond_daemon_get_identity example_env 1 example_owner
     (snd (gsignond_daemon_register_new_identity (Some example_owner) example_started))))"
proof -
  let ?d1 = "snd (gsignond_daemon_register_new_identity (Some example_owner) example_started)"
  have "daemon_step example_env example_started ?d1" by (rule daemon_step.Register [OF prod.collapse [symmetric]])
  moreover have "daemon_step example_env ?d1 (snd (gsignond_daemon_get_identity example_env 1 example_owner ?d1))"
    by (rule daemon_step.Get [OF prod.collapse [symmetric]])
  ultimately have "(daemon_step example_env)\<^sup>*\<^sup>* example_started
      (snd (gsignond_daemon_get_identity example_env 1 example_owner ?d1))" by (rule converse_rtranclp_into_rtranclp [OF _ r_into_rtranclp])
  then show ?thesis
    by (rule tables_well_formed [rotated]) (simp add: started_def example_started_def example_daemon_def)
qed

text \<open>
  The exception is real: an answer to the credentials dialog of an identity without an id stores it as
  identity 1, which the cache knows, while the object stays without an id; storing it then makes a
  second identity 2 of the same object, which 1 still leads to.
\<close>

definition example_unsaved :: "secret_storage daemon" where
  "example_unsaved = example_daemon\<lparr>d_identities := [],
     d_objects := [(7, \<lparr>id_info = example_secret_identity, id_auth_sessions = []\<rparr>)]\<rparr>"

definition example_answer :: dictionary where
  "example_answer = gsignond_signonui_data_set_password gsignond_dictionary_new (Some ''letmein'')"

definition example_caption :: gvariant where
  "example_caption = gsignond_dictionary_to_variant [(key_CAPTION, VString ''work'')]"

definition cache_view :: "'s daemon \<Rightarrow> (u32 \<times> nat) list \<times> u32 option" where
  "cache_view d = (d_identities d, map_option (gsignond_identity_info_get_id \<circ> id_info) (map_of (d_objects d) 7))"

lemma credentials_make_second_identity:
  "map_sum id (\<lambda>d. (cache_view d, cache_view (snd (gsignond_identity_store example_env 7 (Some example_caption) example_owner d))))
     (on_credentials_updated example_env (Some example_answer) None 7 example_unsaved) =
   Inr (([(1, 7)], Some 0), ([(1, 7), (2, 7)], Some 2))"
  by code_simp

end
