(* ===== verification/Gsso_Identity_Store.thy ===== *)
theory Gsso_Identity_Store
  imports Gsso_Identity_Graph
begin

text \<open>
  What \<^verbatim>\<open>gsignond_identity_store\<close> does for a caller: where a new identity is found afterwards, and what an
  update cannot change.
\<close>

lemma get_owner_eq: "info_get a key_OWNER = info_get b key_OWNER \<Longrightarrow>
    gsignond_identity_info_get_owner a = gsignond_identity_info_get_owner b"
  by (rule owner_field.get_local) simp

lemma store_flag_mask_OWNER: "store_flag_mask False AND IDENTITY_INFO_PROP_OWNER = 0"
  by code_simp

text \<open>An update cannot change the owner of an identity that has an id.\<close>

lemma merge_info_owner:
  assumes "\<not> gsignond_identity_info_get_is_identity_new info"
  shows "gsignond_identity_info_get_owner (merge_info info new_info) = gsignond_identity_info_get_owner info"
proof (rule selective_copy_result [of info new_info "gsignond_identity_info_get_edit_flags new_info AND
    store_flag_mask False"], goal_cases)
  case (1 flags' info')
  have o: "(key_OWNER, IDENTITY_INFO_PROP_OWNER) \<in> set entry_flags" by (simp add: entry_flags_def)
  have "(gsignond_identity_info_get_edit_flags new_info AND store_flag_mask False) AND IDENTITY_INFO_PROP_OWNER = 0"
    by (simp add: and.assoc store_flag_mask_OWNER)
  then have "info_get info' key_OWNER = info_get info key_OWNER" using 1(2) [OF o] by presburger
  from get_owner_eq [OF this] show ?case using 1(1) assms by (simp add: merge_info_def)
qed

lemma reset_edit_flags_owner [simp]:
  "gsignond_identity_info_get_owner (snd (gsignond_identity_info_reset_edit_flags info f)) = gsignond_identity_info_get_owner info"
  "gsignond_identity_info_get_access_control_list (snd (gsignond_identity_info_reset_edit_flags info f)) =
     gsignond_identity_info_get_access_control_list info"
  by (simp_all add: gsignond_identity_info_reset_edit_flags_def gsignond_identity_info_get_owner_def
      gsignond_identity_info_get_access_control_list_def)

lemma update_identity_owner:
  "gsignond_db_credentials_database_update_identity klass info D = ((ident, info'), D') \<Longrightarrow>
     gsignond_identity_info_get_owner info' = gsignond_identity_info_get_owner info \<and>
     gsignond_identity_info_get_access_control_list info' = gsignond_identity_info_get_access_control_list info"
  by (auto simp: gsignond_db_credentials_database_update_identity_def Let_def split: prod.splits if_splits)

lemma identity_store_result:
  assumes "gsignond_identity_store env n info ctx d = (Inr ident, d')"
  obtains i new_info d2 where "guarded identity_rw_access n ctx d = Inr i" "ident \<noteq> 0"
    "gsignond_daemon_store_identity env n (put_info n (merge_info (id_info i) new_info) d) = (ident, d2)"
    "d' = emit (Sig_info_updated n GSIGNOND_IDENTITY_DATA_UPDATED)
       (if gsignond_identity_info_get_is_identity_new (id_info i)
        then fold (store_cached_token_data env ident) (id_auth_sessions i) (set_id n ident d2) else d2)"
proof (cases "guarded identity_rw_access n ctx d")
  case (Inl e)
  then show ?thesis using assms by (simp add: gsignond_identity_store_def)
next
  case (Inr i)
  let ?new_info = "drop_empty_owner (gsignond_identity_info_new_from_variant info)"
  obtain k d2 where st: "gsignond_daemon_store_identity env n (put_info n (merge_info (id_info i) ?new_info) d) = (k, d2)"
    by fastforce
  have r: "k = ident \<and> ident \<noteq> 0 \<and> d' = emit (Sig_info_updated n GSIGNOND_IDENTITY_DATA_UPDATED)
       (if gsignond_identity_info_get_is_identity_new (id_info i)
        then fold (store_cached_token_data env ident) (id_auth_sessions i) (set_id n ident d2) else d2)"
    using assms Inr st by (auto simp: gsignond_identity_store_def Let_def split: if_splits)
  show ?thesis using that [OF Inr _ _] r st by blast
qed

text \<open>The object after the daemon has stored it.\<close>

lemma stored_object:
  assumes "map_of (d_objects d) n = Some i" "gsignond_daemon_store_identity env n d = (ident, d')"
  shows "\<exists>i'. map_of (d_objects d') n = Some i' \<and>
    gsignond_identity_info_get_id (id_info i') = gsignond_identity_info_get_id (id_info i) \<and>
    gsignond_identity_info_get_owner (id_info i') = gsignond_identity_info_get_owner (id_info i) \<and>
    d_identities d' = (if gsignond_identity_info_get_is_identity_new (id_info i) \<and> ident \<noteq> 0
      then AList.update ident n (d_identities d) else d_identities d)"
proof -
  obtain ident' info db where u:
      "gsignond_db_credentials_database_update_identity (e_storage env) (id_info i) (d_db d) = ((ident', info), db)"
    by (metis prod.collapse)
  have o: "map_of (d_objects (d\<lparr>d_db := db\<rparr>)) n = Some i" using assms(1) by simp
  from u assms show ?thesis
    using update_identity_owner [OF u] update_identity_id [OF u]
    by (auto simp: gsignond_daemon_store_identity_def on_db_def Let_def put_info_objects [OF o])
qed

lemma set_id_result:
  assumes "map_of (d_objects d) n = Some i"
  shows "map_of (d_objects (set_id n ident d)) n =
      Some (i\<lparr>id_info := snd (gsignond_identity_info_set_id (id_info i) ident)\<rparr>)"
    "d_identities (set_id n ident d) = d_identities d"
  using assms by (simp_all add: set_id_def put_info_objects [OF assms])

lemma cached_identity:
  "map_of (d_identities d) ident = Some n \<Longrightarrow> map_of (d_objects d) n = Some i \<Longrightarrow> ident \<noteq> 0 \<Longrightarrow>
     daemon_x_access (id_info i) ctx d \<Longrightarrow> gsignond_daemon_get_identity env ident ctx d = (Inr n, d)"
  by (simp add: gsignond_daemon_get_identity_def)

text \<open>
  C26. What a caller gets from storing an identity that succeeds: only an owner of it does. A new identity
  has the id that is returned from then on, and every application that its access control list admits gets the
  very same object under that id; an identity that had an id keeps it, and its owner, whatever the caller
  sends. Either way the last thing announced is the change of the identity.
\<close>

theorem identity_store_effect:
  assumes "gsignond_identity_store env n info ctx d = (Inr ident, d')"
  shows "\<exists>i i'. map_of (d_objects d) n = Some i \<and> identity_rw_access i ctx d \<and> map_of (d_objects d') n = Some i' \<and>
    ident \<noteq> 0 \<and> last (d_log d') = Sig_info_updated n GSIGNOND_IDENTITY_DATA_UPDATED \<and>
    (if gsignond_identity_info_get_is_identity_new (id_info i)
     then gsignond_identity_info_get_id (id_info i') = ident \<and>
       (\<forall>peer. daemon_x_access (id_info i') peer d' \<longrightarrow> gsignond_daemon_get_identity env ident peer d' = (Inr n, d'))
     else gsignond_identity_info_get_id (id_info i') = gsignond_identity_info_get_id (id_info i) \<and>
       gsignond_identity_info_get_owner (id_info i') = gsignond_identity_info_get_owner (id_info i) \<and>
       d_identities d' = d_identities d)"
proof (rule identity_store_result [OF assms], goal_cases)
  case (1 i new_info d2)
  let ?info = "merge_info (id_info i) new_info"
  note i = guarded_object [OF 1(1)]
  have access: "identity_rw_access i ctx d" using 1(1) i by (auto simp: guarded_def split: if_splits)
  have i1: "map_of (d_objects (put_info n ?info d)) n = Some (i\<lparr>id_info := ?info\<rparr>)" by (simp add: put_info_objects [OF i])
  have new: "gsignond_identity_info_get_is_identity_new ?info = gsignond_identity_info_get_is_identity_new (id_info i)"
    by (simp add: gsignond_identity_info_get_is_identity_new_def)
  obtain i2 where i2: "map_of (d_objects d2) n = Some i2"
    "gsignond_identity_info_get_id (id_info i2) = gsignond_identity_info_get_id (id_info i)"
    "gsignond_identity_info_get_owner (id_info i2) = gsignond_identity_info_get_owner ?info"
    "d_identities d2 = (if gsignond_identity_info_get_is_identity_new (id_info i)
       then AList.update ident n (d_identities d) else d_identities d)"
    using stored_object [OF i1 1(3)] 1(2) new by auto
  have last: "last (d_log d') = Sig_info_updated n GSIGNOND_IDENTITY_DATA_UPDATED" by (simp add: 1(4) emit_def)
  show ?case
  proof (cases "gsignond_identity_info_get_is_identity_new (id_info i)")
    case True
    let ?d3 = "set_id n ident d2"
    have g: "same_graph ?d3 d'"
      using True same_graph_fold [of "store_cached_token_data env ident", OF same_graph_token]
        same_graph_emit same_graph_trans unfolding 1(4) by (metis (full_types))
    let ?i' = "i2\<lparr>id_info := snd (gsignond_identity_info_set_id (id_info i2) ident)\<rparr>"
    have "map_of (d_objects d') n = Some ?i'" "map_of (d_identities d') ident = Some n"
      using g set_id_result [OF i2(1)] i2(4) True by (simp_all add: same_graph_def update_conv')
    then show ?thesis
      using i access 1(2) last True cached_identity [of d' ident n ?i'] by (intro exI [of _ i] exI [of _ ?i']) auto
  next
    case False
    then have "d_objects d' = d_objects d2" "d_identities d' = d_identities d2" by (simp_all add: 1(4) emit_def)
    then show ?thesis using i access 1(2) last False i2 merge_info_owner [OF False, of new_info] by auto
  qed
qed

theorem identity_store_effect_witness:
  "last (d_log (snd (gsignond_identity_store example_env 7 (Some example_caption) example_owner example_unsaved))) =
   Sig_info_updated 7 GSIGNOND_IDENTITY_DATA_UPDATED"
proof -
  have "fst (gsignond_identity_store example_env 7 (Some example_caption) example_owner example_unsaved) = Inr 1"
    by code_simp
  then have "gsignond_identity_store example_env 7 (Some example_caption) example_owner example_unsaved =
      (Inr 1, snd (gsignond_identity_store example_env 7 (Some example_caption) example_owner example_unsaved))"
    by (metis prod.collapse)
  from identity_store_effect [OF this] show ?thesis by blast
qed
end
