(* ===== verification/Gsso_Identity_Query.thy ===== *)
theory Gsso_Identity_Query
  imports Gsso_Identity_Graph
begin

text \<open>
  What \<^verbatim>\<open>gsignond_daemon_query_identities\<close> shows to whom, in terms of the tables of the metadata
  database; and who is the keychain.
\<close>

subsection \<open>Reading a list of identities\<close>

definition caption_plain :: "dictionary \<Rightarrow> bool" where
  "caption_plain m = (case gsignond_dictionary_get_string m key_CAPTION of None \<Rightarrow> True | Some cap \<Rightarrow> CHR 39 \<notin> set cap)"

text \<open>A row passes the caption and the type of a filter.\<close>

definition passes :: "dictionary \<Rightarrow> identity_row \<Rightarrow> bool" where
  "passes m row \<longleftrightarrow>
     (case gsignond_dictionary_get_string m key_CAPTION of None \<Rightarrow> True | Some cap \<Rightarrow> sql_like (cap @ ''%'') (row_caption row)) \<and>
     (case gsignond_dictionary_get_int32 m key_TYPE of None \<Rightarrow> True | Some t \<Rightarrow> uint (row_type row) = sint t)"

definition owner_row :: "security_context \<Rightarrow> meta_content \<Rightarrow> int \<Rightarrow> bool" where
  "owner_row ctx c i \<longleftrightarrow> secctx_id ctx c \<noteq> None \<and> (i, secctx_id ctx c) \<in> set (owner_tbl c)"

lemma restricted_query:
  assumes "caption_plain m"
  shows "identities_query injected (restrict_to_owner ctx (Some m)) c =
    order_by_id (filter (\<lambda>(i, row). owner_row ctx c i \<and> passes m row) (identity_tbl c))"
proof -
  let ?m = "snd (gsignond_dictionary_set m ''Owner'' (Some (gsignond_security_context_to_variant ctx)))"
  have get: "gsignond_dictionary_get ?m key_OWNER = Some (gsignond_security_context_to_variant ctx)"
      "gsignond_dictionary_get_string ?m key_CAPTION = gsignond_dictionary_get_string m key_CAPTION"
      "gsignond_dictionary_get_int32 ?m key_TYPE = gsignond_dictionary_get_int32 m key_TYPE"
    by (simp_all add: gsignond_dictionary_set_def gsignond_dictionary_get_def gsignond_dictionary_get_string_def
        gsignond_dictionary_get_int32_def update_conv')
  show ?thesis
    using assms
    by (auto simp: identities_query_def restrict_to_owner_def get Let_def caption_plain_def passes_def owner_row_def
        intro!: arg_cong [of _ _ order_by_id] filter_cong split: option.splits)
qed

lemma load_identities_yields:
  assumes "ready d" "meta_ok (content d)" "methods_seq (content d) < 2 ^ 32" "identity_seq (content d) < 2 ^ 32"
    "set ids \<subseteq> fst ` set (identity_tbl (content d))"
  shows "\<exists>infos. yields (load_identities (map word_of_int ids) d) d infos \<and>
    map (uint \<circ> gsignond_identity_info_get_id) infos = ids"
  using assms
proof (induction ids arbitrary: d)
  case Nil
  then show ?case by (simp add: yields_return)
next
  case (Cons i ids)
  have i: "0 < i" "i < 2 ^ 32"
    using Cons.prems by (auto simp: meta_ok_def table_ok_def)
  then have u: "uint (word_of_int i :: u32) = i" by (simp add: uint_word_of_int)
  obtain row where row: "map_of (identity_tbl (content d)) i = Some row"
    using Cons.prems by (cases "map_of (identity_tbl (content d)) i") (auto simp: map_of_eq_None_iff)
  obtain info where get: "yields (gsignond_db_metadata_database_get_identity (word_of_int i) d) d (Some info)"
    using get_identity_yields [OF Cons.prems(1-3), of "word_of_int i"] by (auto simp: u row)
  obtain d1 where d1: "gsignond_db_metadata_database_get_identity (word_of_int i) d = (Some info, d1)"
      "ready d1" "content d1 = content d" "snapshot d1 = snapshot d"
    using get by (cases "gsignond_db_metadata_database_get_identity (word_of_int i) d") (auto simp: yields_def)
  obtain infos where rest: "yields (load_identities (map word_of_int ids) d1) d1 infos"
      "map (uint \<circ> gsignond_identity_info_get_id) infos = ids"
    using Cons.IH [of d1] Cons.prems d1 by auto
  have "yields (load_identities (map word_of_int (i # ids)) d) d (info # infos)"
    using rest(1) d1 by (auto simp: yields_def split: prod.splits)
  moreover have "uint (gsignond_identity_info_get_id info) = i"
    using metadata_get_identity_id [OF d1(1)] u by simp
  ultimately show ?case using rest(2) by force
qed

lemma get_identities_yields:
  assumes d: "ready d" "meta_ok (content d)" "methods_seq (content d) < 2 ^ 32" "identity_seq (content d) < 2 ^ 32"
    and q: "identities_query injected filter_dict (content d) = ids" "set ids \<subseteq> fst ` set (identity_tbl (content d))"
  shows "\<exists>infos. yields (gsignond_db_metadata_database_get_identities injected filter_dict d) d infos \<and>
    map (uint \<circ> gsignond_identity_info_get_id) infos = ids"
proof -
  have opened: "opened d" using d(1) by (simp add: ready_def)
  note array = int_array_ready [OF d(1), of "identities_query injected filter_dict"]
  obtain d1 where d1: "gsignond_db_sql_database_query_exec_int_array (identities_query injected filter_dict) d =
        (if ids = [] then None else Some (map word_of_int ids), d1)"
      "ready d1" "content d1 = content d" "snapshot d1 = snapshot d"
    using array q(1) by (cases "gsignond_db_sql_database_query_exec_int_array (identities_query injected filter_dict) d")
      (auto simp: yields_def)
  obtain infos where "yields (load_identities (map word_of_int ids) d1) d1 infos"
      "map (uint \<circ> gsignond_identity_info_get_id) infos = ids"
    using load_identities_yields [of d1 ids] d d1 q(2) by auto
  then show ?thesis
    using d1 by (auto simp: gsignond_db_metadata_database_get_identities_def if_open_simps(1) [OF opened] yields_def)
qed

subsection \<open>Properties\<close>

text \<open>
  C27. What a peer that is not the keychain gets to see when it asks for identities with a filter whose
  caption has no quote, on a database whose reads do not fail: exactly the identities that the database says it
  owns and that pass the filter, each once and in ascending order of their ids, however the rows lie in the
  table and whatever owner the filter itself names; with none the answer is an error. The query changes no
  table, and no identity of the cache.
\<close>

theorem queries_restricted:
  assumes "ready (cdb_metadata (d_db d))" "meta_ok c" "methods_seq c < 2 ^ 32" "identity_seq c < 2 ^ 32"
    and "c = content (cdb_metadata (d_db d))"
    and "\<not> check_keychain_access ctx d"
    and "gsignond_dictionary_new_from_variant (Some v) = Some m" "caption_plain m"
    and "gsignond_daemon_query_identities env (Some v) ctx d = (r, d')"
  shows "(let ids = {i. \<exists>row. (i, row) \<in> set (identity_tbl c) \<and> owner_row ctx c i \<and> passes m row}
    in if ids = {} then r = Inl (gerror_for GSIGNOND_ERROR_UNKNOWN ''Not found'')
       else \<exists>infos. r = Inr infos \<and> set (map (uint \<circ> gsignond_identity_info_get_id) infos) = ids \<and>
              sorted_wrt (<) (map (uint \<circ> gsignond_identity_info_get_id) infos)) \<and>
    content (cdb_metadata (d_db d')) = c \<and> same_graph d d'"
proof -
  let ?rows = "filter (\<lambda>(i, row). owner_row ctx c i \<and> passes m row) (identity_tbl c)"
  let ?set = "{i. \<exists>row. (i, row) \<in> set (identity_tbl c) \<and> owner_row ctx c i \<and> passes m row}"
  have q: "identities_query (e_injected env) (restrict_to_owner ctx (Some m)) (content (cdb_metadata (d_db d))) =
      order_by_id ?rows"
    using restricted_query [OF assms(8)] assms(5) by simp
  have sub: "set (order_by_id ?rows) \<subseteq> fst ` set (identity_tbl (content (cdb_metadata (d_db d))))"
    using assms(5) by (auto simp: order_by_id_def)
  have ids: "set (order_by_id ?rows) = ?set" by (force simp: order_by_id_def)
  have order: "sorted_wrt (<) (order_by_id ?rows)"
    using assms(2) by (auto simp: order_by_id_def strict_sorted_iff meta_ok_def table_ok_def distinct_map_filter)
  from get_identities_yields [OF assms(1) assms(2-4) [unfolded assms(5)] q sub]
  obtain infos m1 where get: "gsignond_db_metadata_database_get_identities (e_injected env)
        (restrict_to_owner ctx (Some m)) (cdb_metadata (d_db d)) = (infos, m1)"
      "content m1 = c" "map (uint \<circ> gsignond_identity_info_get_id) infos = order_by_id ?rows"
    using assms(5) by (auto simp: yields_def)
      (metis prod.collapse)
  have empty: "infos = [] \<longleftrightarrow> ?set = {}" using get(3) ids by (metis map_is_Nil_conv set_empty)
  have listed: "set (map (uint \<circ> gsignond_identity_info_get_id) infos) = ?set"
    "sorted_wrt (<) (map (uint \<circ> gsignond_identity_info_get_id) infos)"
    using ids order by (simp_all only: get(3))
  have "r = (if infos = [] then Inl (gerror_for GSIGNOND_ERROR_UNKNOWN ''Not found'') else Inr infos)"
    and rest: "content (cdb_metadata (d_db d')) = c \<and> same_graph d d'"
    using assms(6,7,9) get(1,2)
    by (auto simp: gsignond_daemon_query_identities_def gsignond_db_credentials_database_load_identities_def on_db_def
        on_metadata_def Let_def same_graph_def split: if_splits)
  then have r: "r = (if ?set = {} then Inl (gerror_for GSIGNOND_ERROR_UNKNOWN ''Not found'') else Inr infos)"
    by (simp only: empty)
  have "let ids = ?set in if ids = {} then r = Inl (gerror_for GSIGNOND_ERROR_UNKNOWN ''Not found'')
       else \<exists>infos. r = Inr infos \<and> set (map (uint \<circ> gsignond_identity_info_get_id) infos) = ids \<and>
              sorted_wrt (<) (map (uint \<circ> gsignond_identity_info_get_id) infos)"
    unfolding Let_def
  proof (split if_split, intro conjI impI)
    show "r = Inl (gerror_for GSIGNOND_ERROR_UNKNOWN ''Not found'')" if "?set = {}"
      using r if_P [OF that] by (rule trans)
    show "\<exists>infos. r = Inr infos \<and> set (map (uint \<circ> gsignond_identity_info_get_id) infos) = ?set \<and>
        sorted_wrt (<) (map (uint \<circ> gsignond_identity_info_get_id) infos)" if "\<not> ?set = {}"
      using trans [OF r if_not_P [OF that]] listed by (intro exI [of _ infos] conjI)
  qed
  with rest show ?thesis by (simp only: simp_thms)
qed

subsection \<open>Who is the keychain\<close>

text \<open>A NULL filter is not restricted: setting the owner in it does nothing.\<close>

lemma null_filter_unrestricted:
  "gsignond_daemon_query_identities env None ctx d = gsignond_daemon_query_identities env None ctx' d"
  by (simp add: gsignond_daemon_query_identities_def restrict_to_owner_def gsignond_dictionary_new_from_variant_def)

text \<open>A caption with a quote ends the literal in the query, and with it the restriction to the owner.\<close>

lemma quote_escapes_restriction:
  "gsignond_dictionary_get_string m key_CAPTION = Some cap \<Longrightarrow> CHR 39 \<in> set cap \<Longrightarrow>
     identities_query injected (restrict_to_owner ctx (Some m)) c = injected cap c"
  by (simp add: identities_query_def restrict_to_owner_def Let_def gsignond_dictionary_set_def
      gsignond_dictionary_get_def gsignond_dictionary_get_string_def update_conv')

text \<open>
  With nothing configured the keychain of the default manager is the context of every peer that could not
  be identified: such a peer may query all identities, and clear them.
\<close>

lemma unidentified_peer_is_keychain:
  "d_acm d = default_acm peercred service_pid readlink None None None \<Longrightarrow>
     check_keychain_access (security_context_of_peer peercred' service_pid' readlink' c (-1) None None) d"
  by (cases c) (simp add: check_keychain_access_def acm_wrappers default_acm_def security_context_of_keychain_def
      secctx_defs unidentified_peer_context)

lemma clear_needs_keychain:
  "\<not> check_keychain_access ctx d \<Longrightarrow> gsignond_daemon_clear env sm dir ctx d = (Inl keychain_denied, d)"
  by (simp add: gsignond_daemon_clear_def)

definition example_query_daemon :: "secret_storage daemon" where
  "example_query_daemon = example_daemon\<lparr>d_db := \<lparr>cdb_metadata = stored_example, cdb_storage = example_storage\<rparr>\<rparr>"

theorem queries_restricted_witness:
  "content (cdb_metadata (d_db (snd (gsignond_daemon_query_identities example_env (Some (VArray ''{sv}'' [])) example_owner
     example_query_daemon)))) = content stored_example"
proof -
  have db: "ready (cdb_metadata (d_db example_query_daemon))" "meta_ok (content stored_example)"
    "content stored_example = content (cdb_metadata (d_db example_query_daemon))"
    using stored_example_ok by (simp_all add: example_query_daemon_def ready_def healthy_def)
  have seq: "methods_seq (content stored_example) < 2 ^ 32" "identity_seq (content stored_example) < 2 ^ 32"
    by code_simp+
  have "gsignond_dictionary_new_from_variant (Some (VArray ''{sv}'' [])) = Some []"
    by (simp add: gsignond_dictionary_new_from_variant_def gsignond_dictionary_new_def)
  moreover have "\<not> check_keychain_access example_owner example_query_daemon" by code_simp
  moreover have "caption_plain []" by (simp add: caption_plain_def gsignond_dictionary_get_string_def gsignond_dictionary_get_def)
  ultimately have "\<not> check_keychain_access example_owner example_query_daemon"
    "gsignond_dictionary_new_from_variant (Some (VArray ''{sv}'' [])) = Some []" "caption_plain []" by simp_all
  from queries_restricted [OF db(1,2) seq db(3) this prod.collapse [symmetric], of example_env] show ?thesis
    by simp
qed
end
