(* ===== verification/Gsso_Identity_Dialogs.thy ===== *)
theory Gsso_Identity_Dialogs
  imports Gsso_Identity_Query
begin

text \<open>
  The callback data of a dialog: allocated when a session asks for a dialog, freed when the user has answered
  or the session is cancelled. What cancelling does depends on where the dialog is.
\<close>

subsection \<open>Cancelling\<close>

text \<open>A session with one dialog: its handler and its callback data, all of it alive.\<close>

definition has_dialog :: "'s daemon \<Rightarrow> session_id \<Rightarrow> nat \<Rightarrow> nat \<Rightarrow> bool" where
  "has_dialog d s u n \<longleftrightarrow> map snd (filter (\<lambda>(t, v). t = s) (d_cancel_handlers d)) = [u] \<and>
     map_of (d_cb_data d) u = Some (n, s) \<and> map_of (d_objects d) n \<noteq> None \<and> map_of (d_sessions d) s \<noteq> None"

lemma disconnect_cancel_frames [simp]:
  "d_ui (disconnect_cancel u d) = d_ui d" "d_cb_data (disconnect_cancel u d) = d_cb_data d"
  "d_objects (disconnect_cancel u d) = d_objects d" "d_sessions (disconnect_cancel u d) = d_sessions d"
  "d_log (disconnect_cancel u d) = d_log d"
  by (simp_all add: disconnect_cancel_def)

lemma process_canceled_one:
  assumes "has_dialog d s u n"
  shows "process_canceled env s d =
    (case gsignond_daemon_cancel_dialog env s session_type (disconnect_cancel u d) of
       Inl f \<Rightarrow> Inl f | Inr (r, d) \<Rightarrow> free_cb_data u d)"
  using assms by (simp add: process_canceled_def has_dialog_def on_process_canceled_def Let_def split: sum.split prod.split)

lemma cancel_call_log:
  assumes "gsignond_dbus_signonui_adapter_cancel_request t req p = (ok, p')"
  shows "\<exists>es. sp_log p' = sp_log p @ es \<and> run_callbacks env es d = Inr d"
  using assms
  by (auto simp: gsignond_dbus_signonui_adapter_cancel_request_def through_adapter_def ui_emit_def
      split: option.splits prod.splits bool.splits if_splits)

lemma cancel_active:
  assumes "sp_active (d_ui d) = Some active" "rq_caller active = s"
    "gsignond_dbus_signonui_adapter_cancel_request t active (d_ui d) = (True, p)"
  shows "gsignond_daemon_cancel_dialog env s t d = Inr (True, d\<lparr>d_ui := p\<lparr>sp_active := None\<rparr>\<rparr>)"
proof -
  have c: "gsignond_signonui_proxy_cancel_request s t None 0 (d_ui d) = (True, p\<lparr>sp_active := None\<rparr>)"
    using assms by (simp add: gsignond_signonui_proxy_cancel_request_def)
  obtain es where "sp_log p = sp_log (d_ui d) @ es"
      "run_callbacks env es (d\<lparr>d_ui := p\<lparr>sp_active := None\<rparr>\<rparr>) = Inr (d\<lparr>d_ui := p\<lparr>sp_active := None\<rparr>\<rparr>)"
    using cancel_call_log [OF assms(3)] by blast
  then show ?thesis by (simp add: gsignond_daemon_cancel_dialog_def with_ui_def c)
qed

lemma cancel_refused:
  assumes "sp_active (d_ui d) = None"
  shows "gsignond_daemon_cancel_dialog env s t d = Inr (False, d)"
  using assms by (simp add: gsignond_daemon_cancel_dialog_def with_ui_def gsignond_signonui_proxy_cancel_request_def)

lemma free_cb_data_twice: "free_cb_data u d = Inr d' \<Longrightarrow> free_cb_data u d' = Inl Freed_twice"
  by (auto simp: free_cb_data_def split: if_splits)

text \<open>The answer to a dialog frees its callback data, on every path.\<close>

lemma answer_frees:
  assumes "on_user_action_completed env reply error u d = Inr d'"
  shows "map_of (d_cb_data d') u = None"
  using assms
  by (auto simp: on_user_action_completed_def free_cb_data_def Let_def delete_conv'
      split: option.splits prod.splits if_splits)

lemma cb_data_frames [simp]:
  "d_cb_data (put_info n info d) = d_cb_data d" "d_cb_data (emit e d) = d_cb_data d"
  "d_cb_data (disconnect_refresh u d) = d_cb_data d"
  "d_cb_data (snd (gsignond_daemon_store_identity env n d)) = d_cb_data d"
  by (auto simp: put_info_def emit_def disconnect_refresh_def gsignond_daemon_store_identity_def on_db_def Let_def
      split: option.splits prod.splits)

lemma answer_succeeds:
  assumes "map_of (d_cb_data d) u = Some (n, s)" "map_of (d_objects d) n \<noteq> None" "map_of (d_sessions d) s \<noteq> None"
  shows "\<exists>d'. on_user_action_completed env reply error u d = Inr d'"
  using assms by (auto simp: on_user_action_completed_def free_cb_data_def Let_def)

lemma cancel_queued:
  assumes "has_dialog d s u n" "sp_active (d_ui d) = Some active" "rq_caller active \<noteq> s"
    "List.extract (find_request_by_caller s) (sp_queue (d_ui d)) = Some (before, req, after)"
    "rq_cb req = Some On_user_action_completed" "rq_userdata req = u"
  shows "process_canceled env s d = Inl Freed_twice"
proof -
  let ?e = "Query_cb On_user_action_completed (Some (ui_error_reply SIGNONUI_ERROR_CANCELED)) None u"
  let ?ui = "ui_emit ?e (d_ui d\<lparr>sp_queue := before @ after\<rparr>)"
  let ?d = "disconnect_cancel u d"
  have c: "gsignond_signonui_proxy_cancel_request s session_type None 0 (d_ui d) = (True, ?ui)"
    using assms(2-6) by (simp add: gsignond_signonui_proxy_cancel_request_def cancel_request_cb_def Let_def)
  have log: "drop (length (sp_log (d_ui d))) (sp_log ?ui) = [?e]" by (simp add: ui_emit_def)
  have "\<exists>d2. on_user_action_completed env (Some (ui_error_reply SIGNONUI_ERROR_CANCELED)) None u (?d\<lparr>d_ui := ?ui\<rparr>) = Inr d2"
    by (rule answer_succeeds [where n = n and s = s]) (use assms(1) in \<open>auto simp: has_dialog_def\<close>)
  then obtain d2 where d2:
    "on_user_action_completed env (Some (ui_error_reply SIGNONUI_ERROR_CANCELED)) None u (?d\<lparr>d_ui := ?ui\<rparr>) = Inr d2" by blast
  then have "gsignond_daemon_cancel_dialog env s session_type ?d = Inr (True, d2)"
    by (simp add: gsignond_daemon_cancel_dialog_def with_ui_def c log)
  with answer_frees [OF d2] show ?thesis
    by (simp add: process_canceled_one [OF assms(1)] free_cb_data_def)
qed

text \<open>
  C31. What cancelling the request of a session does to its dialog. When the dialog is on the screen and the
  user interface can be reached, it is withdrawn, its callback data is freed once and nobody is answered. When it
  waits behind another dialog it is answered as cancelled, which frees the data, and then the data is freed
  again. When no dialog is active, as after another cancellation that still has no reply, nothing is
  withdrawn and the data is freed: the dialog that waits keeps a dangling pointer.
\<close>

theorem cancelled_dialogs:
  assumes "has_dialog d s u n"
  shows "(\<forall>active p. sp_active (d_ui d) = Some active \<and> rq_caller active = s \<and>
        gsignond_dbus_signonui_adapter_cancel_request session_type active (d_ui d) = (True, p) \<longrightarrow>
        (\<exists>d'. process_canceled env s d = Inr d' \<and> sp_active (d_ui d') = None \<and> map_of (d_cb_data d') u = None \<and>
           (\<forall>v. v \<noteq> u \<longrightarrow> map_of (d_cb_data d') v = map_of (d_cb_data d) v) \<and> d_log d' = d_log d)) \<and>
     (\<forall>active before req after. sp_active (d_ui d) = Some active \<and> rq_caller active \<noteq> s \<and>
        List.extract (find_request_by_caller s) (sp_queue (d_ui d)) = Some (before, req, after) \<and>
        rq_cb req = Some On_user_action_completed \<and> rq_userdata req = u \<longrightarrow>
        process_canceled env s d = Inl Freed_twice) \<and>
     (sp_active (d_ui d) = None \<longrightarrow>
        (\<exists>d'. process_canceled env s d = Inr d' \<and> d_ui d' = d_ui d \<and> map_of (d_cb_data d') u = None))"
proof (intro conjI allI impI, goal_cases)
  case (1 active p)
  then have "gsignond_daemon_cancel_dialog env s session_type (disconnect_cancel u d) =
      Inr (True, disconnect_cancel u d\<lparr>d_ui := p\<lparr>sp_active := None\<rparr>\<rparr>)"
    by (intro cancel_active) auto
  then show ?case using assms
    by (simp add: process_canceled_one [OF assms] free_cb_data_def has_dialog_def delete_conv')
next
  case (2 active before req after)
  with assms show ?case by (blast intro: cancel_queued)
next
  case 3
  then have "gsignond_daemon_cancel_dialog env s session_type (disconnect_cancel u d) = Inr (False, disconnect_cancel u d)"
    by (intro cancel_refused) simp
  then show ?case using assms
    by (simp add: process_canceled_one [OF assms] free_cb_data_def has_dialog_def delete_conv')
qed

text \<open>A session waits for its dialog behind the one of an identity.\<close>

definition example_session_of :: auth_session where
  "example_session_of = \<lparr>as_method = ''password'', available_mechanisms = None, as_identity_info = example_loaded, token_data = []\<rparr>"

definition example_waiting :: "secret_storage daemon" where
  "example_waiting = example_daemon\<lparr>d_objects := [(7, \<lparr>id_info = example_loaded, id_auth_sessions = [(''password'', 8)]\<rparr>)],
     d_sessions := [(8, example_session_of)], d_cb_data := [(9, 7, 8)], d_cancel_handlers := [(8, 9)], d_next := 10,
     d_ui := gsignond_signonui_proxy_query_dialog 8 session_type [] (Some On_user_action_completed)
        (Some On_refresh_requested_by_ui) 9
        (gsignond_signonui_proxy_query_dialog 7 identity_type [] (Some On_user_verified) None 7
          (gsignond_signonui_proxy_init []))\<rparr>"

theorem cancelled_dialogs_witness: "process_canceled example_env 8 example_waiting = Inl Freed_twice"
proof -
  let ?p = "gsignond_signonui_proxy_query_dialog 7 identity_type [] (Some On_user_verified) None 7
      (gsignond_signonui_proxy_init [])"
  let ?req = "\<lparr>rq_caller = 8, rq_type = session_type, rq_data = [], rq_cb = Some On_user_action_completed,
      rq_refresh_cb = Some On_refresh_requested_by_ui, rq_userdata = 9\<rparr>"
  have "has_dialog example_waiting 8 9 7" by (simp add: has_dialog_def example_waiting_def)
  note outcome = cancelled_dialogs [OF this, of example_env]
  obtain active where active: "sp_active ?p = Some active" "rq_caller active = 7" "sp_queue ?p = []" "\<not> sp_is_idle ?p"
    by (simp add: gsignond_signonui_proxy_query_dialog_def gsignond_signonui_proxy_init_def process_next_request.simps
        ensure_signonui_def gsignond_dbus_signonui_adapter_new_def setup_ui_connection_def
        gsignond_dbus_signonui_adapter_query_dialog_def through_adapter_def adapter_ready_def adapter_has_proxy_def
        ui_emit_def Let_def)
  then have "sp_active (d_ui example_waiting) = Some active" "sp_queue (d_ui example_waiting) = [?req]"
    by (simp_all add: example_waiting_def gsignond_signonui_proxy_query_dialog_def [of 8])
  then show ?thesis using outcome active(2) by (simp add: extract_def find_request_by_caller_def)
qed
end
