(* ===== verification/Gsso_Plugin_Remote.thy ===== *)
theory Gsso_Plugin_Remote
  imports Gsso_Plugins "HOL-Library.Sublist"
begin

text \<open>
  A plugin runs in a process of its own. \<^verbatim>\<open>src/src/daemon/plugins/gsignond-plugin-remote.c\<close> is the daemon's end, a
  plugin that forwards every call; \<^verbatim>\<open>src/src/gplugind/gsignond-plugin-daemon.c\<close> is the other end, which
  calls the plugin and sends its signals back. Between them are two pipes with D-Bus messages: calls, which wait
  for a return, one way, and returns and signals the other way.

  The state is that of both processes and of the pipes. What a call, an arriving message, the end of the child
  and the closing of the connection do are the steps; the main loops run them one at a time, in any order.
  \<open>None\<close>: the code uses the object after it was freed.
\<close>

subsection \<open>The interface of plugins\<close>

text \<open>
  \<^verbatim>\<open>GSignondPluginInterface\<close>: the functions of a plugin. \<open>pi_iterate\<close> is what it does when the main loop
  runs it without a call, as when a reply comes from the network.
\<close>

record 'p plugin_interface =
  pi_cancel :: "'p \<Rightarrow> plugin_signal list \<times> 'p"
  pi_request_initial :: "dictionary \<Rightarrow> dictionary option \<Rightarrow> cstr \<Rightarrow> 'p \<Rightarrow> plugin_signal list \<times> 'p"
  pi_request :: "dictionary \<Rightarrow> 'p \<Rightarrow> plugin_signal list \<times> 'p"
  pi_user_action_finished :: "dictionary \<Rightarrow> 'p \<Rightarrow> plugin_signal list \<times> 'p"
  pi_refresh :: "dictionary \<Rightarrow> 'p \<Rightarrow> plugin_signal list \<times> 'p"
  pi_iterate :: "'p \<Rightarrow> plugin_signal list \<times> 'p"

definition gsignond_plugin_cancel :: "'p plugin_interface \<Rightarrow> 'p \<Rightarrow> plugin_signal list \<times> 'p" where
  "gsignond_plugin_cancel iface self = pi_cancel iface self"

definition gsignond_plugin_request_initial ::
  "'p plugin_interface \<Rightarrow> dictionary \<Rightarrow> dictionary option \<Rightarrow> cstr \<Rightarrow> 'p \<Rightarrow> plugin_signal list \<times> 'p" where
  "gsignond_plugin_request_initial iface session_data identity_method_cache mechanism self =
     pi_request_initial iface session_data identity_method_cache mechanism self"

definition gsignond_plugin_request :: "'p plugin_interface \<Rightarrow> dictionary \<Rightarrow> 'p \<Rightarrow> plugin_signal list \<times> 'p" where
  "gsignond_plugin_request iface session_data self = pi_request iface session_data self"

definition gsignond_plugin_user_action_finished ::
  "'p plugin_interface \<Rightarrow> dictionary \<Rightarrow> 'p \<Rightarrow> plugin_signal list \<times> 'p" where
  "gsignond_plugin_user_action_finished iface ui_data self = pi_user_action_finished iface ui_data self"

definition gsignond_plugin_refresh :: "'p plugin_interface \<Rightarrow> dictionary \<Rightarrow> 'p \<Rightarrow> plugin_signal list \<times> 'p" where
  "gsignond_plugin_refresh iface ui_data self = pi_refresh iface ui_data self"

subsection \<open>The state\<close>

datatype remote_call =
    Call_cancel
  | Call_request_initial gvariant gvariant string
  | Call_request gvariant
  | Call_user_action_finished gvariant
  | Call_refresh gvariant

datatype remote_method =
    Method_cancel
  | Method_request_initial
  | Method_request
  | Method_user_action_finished
  | Method_refresh

datatype remote_message =
    Return nat
  | Response_message gvariant
  | Response_final_message gvariant
  | Store_message gvariant
  | Error_message gvariant
  | User_action_required_message gvariant
  | Refreshed_message gvariant
  | Status_changed_message i32 string

datatype unix_signal = SIGTERM | SIGKILL

text \<open>
  \<open>rl_is_plugind_up\<close> is what the daemon believes, \<open>rl_running\<close> is whether the child runs. \<open>rl_calls\<close> and \<open>rl_answers\<close>
  are what the pipes hold; \<open>rl_pending\<close>: the calls without a return, with the callback of each; \<open>rl_kills\<close> and
  \<open>rl_emitted\<close>: what the daemon sent to the child's process, and the signals of the plugin it gave out.
\<close>

record 'p plugin_link =
  rl_cpid :: int
  rl_is_plugind_up :: bool
  rl_child_watch :: bool
  rl_freed :: bool
  rl_running :: bool
  rl_calls :: "(nat \<times> remote_call) list"
  rl_answers :: "remote_message list"
  rl_pending :: "(nat \<times> remote_method) list"
  rl_serial :: nat
  rl_plugin :: 'p
  rl_kills :: "unix_signal list"
  rl_emitted :: "plugin_signal list"

text \<open>The plugin, how either process numbers the domains of errors, and the errors of the bus.\<close>

record 'p remote_env =
  re_plugin :: "'p plugin_interface"
  re_quark_from_string :: "string \<Rightarrow> u32"
  re_quark_to_string :: "u32 \<Rightarrow> string"
  re_closed :: gerror
  re_timeout :: gerror

definition emit_plugin_signal :: "plugin_signal \<Rightarrow> 'p plugin_link \<Rightarrow> 'p plugin_link" where
  "emit_plugin_signal s self = self\<lparr>rl_emitted := rl_emitted self @ [s]\<rparr>"

definition gsignond_plugin_response :: "dictionary \<Rightarrow> 'p plugin_link \<Rightarrow> 'p plugin_link" where
  "gsignond_plugin_response session_data self = emit_plugin_signal (Response session_data) self"

definition gsignond_plugin_response_final :: "dictionary \<Rightarrow> 'p plugin_link \<Rightarrow> 'p plugin_link" where
  "gsignond_plugin_response_final session_data self = emit_plugin_signal (Response_final session_data) self"

definition gsignond_plugin_store :: "dictionary \<Rightarrow> 'p plugin_link \<Rightarrow> 'p plugin_link" where
  "gsignond_plugin_store identity_method_cache self = emit_plugin_signal (Store identity_method_cache) self"

definition gsignond_plugin_error :: "gerror \<Rightarrow> 'p plugin_link \<Rightarrow> 'p plugin_link" where
  "gsignond_plugin_error error self = emit_plugin_signal (Plugin_error error) self"

definition gsignond_plugin_user_action_required :: "dictionary \<Rightarrow> 'p plugin_link \<Rightarrow> 'p plugin_link" where
  "gsignond_plugin_user_action_required ui_data self = emit_plugin_signal (User_action_required ui_data) self"

definition gsignond_plugin_refreshed :: "dictionary \<Rightarrow> 'p plugin_link \<Rightarrow> 'p plugin_link" where
  "gsignond_plugin_refreshed ui_data self = emit_plugin_signal (Refreshed ui_data) self"

definition gsignond_plugin_status_changed :: "plugin_state \<Rightarrow> string \<Rightarrow> 'p plugin_link \<Rightarrow> 'p plugin_link" where
  "gsignond_plugin_status_changed state message self = emit_plugin_signal (Status_changed state message) self"

text \<open>The states of a plugin by number, as the bus carries them.\<close>

definition plugin_states :: "plugin_state list" where
  "plugin_states =
     [GSIGNOND_PLUGIN_STATE_NONE, GSIGNOND_PLUGIN_STATE_RESOLVING, GSIGNOND_PLUGIN_STATE_CONNECTING,
      GSIGNOND_PLUGIN_STATE_SENDING_DATA, GSIGNOND_PLUGIN_STATE_WAITING, GSIGNOND_PLUGIN_STATE_USER_PENDING,
      GSIGNOND_PLUGIN_STATE_REFRESHING, GSIGNOND_PLUGIN_STATE_PROCESS_PENDING, GSIGNOND_PLUGIN_STATE_STARTED,
      GSIGNOND_PLUGIN_STATE_CANCELING, GSIGNOND_PLUGIN_STATE_DONE, GSIGNOND_PLUGIN_STATE_HOLDING]"

definition plugin_state_number :: "plugin_state \<Rightarrow> i32" where
  "plugin_state_number state = of_nat (length (takeWhile (\<lambda>s. s \<noteq> state) plugin_states))"

definition plugin_state_of_number :: "i32 \<Rightarrow> plugin_state" where
  "plugin_state_of_number n = plugin_states ! unat n"

subsection \<open>The daemon's end: the callbacks of the calls\<close>

definition cancel_async_cb :: "gerror option \<Rightarrow> 'p plugin_link \<Rightarrow> 'p plugin_link option" where
  "cancel_async_cb error self =
     (if rl_freed self then None
      else case error of Some e \<Rightarrow> Some (gsignond_plugin_error e self) | None \<Rightarrow> Some self)"

definition request_initial_async_cb :: "gerror option \<Rightarrow> 'p plugin_link \<Rightarrow> 'p plugin_link option" where
  "request_initial_async_cb error self =
     (if rl_freed self then None
      else case error of Some e \<Rightarrow> Some (gsignond_plugin_error e self) | None \<Rightarrow> Some self)"

definition request_async_cb :: "gerror option \<Rightarrow> 'p plugin_link \<Rightarrow> 'p plugin_link option" where
  "request_async_cb error self =
     (if rl_freed self then None
      else case error of Some e \<Rightarrow> Some (gsignond_plugin_error e self) | None \<Rightarrow> Some self)"

definition user_action_finished_async_cb :: "gerror option \<Rightarrow> 'p plugin_link \<Rightarrow> 'p plugin_link option" where
  "user_action_finished_async_cb error self =
     (if rl_freed self then None
      else case error of Some e \<Rightarrow> Some (gsignond_plugin_error e self) | None \<Rightarrow> Some self)"

definition refresh_async_cb :: "gerror option \<Rightarrow> 'p plugin_link \<Rightarrow> 'p plugin_link option" where
  "refresh_async_cb error self =
     (if rl_freed self then None
      else case error of Some e \<Rightarrow> Some (gsignond_plugin_error e self) | None \<Rightarrow> Some self)"

fun async_cb :: "remote_method \<Rightarrow> gerror option \<Rightarrow> 'p plugin_link \<Rightarrow> 'p plugin_link option" where
  "async_cb Method_cancel = cancel_async_cb"
| "async_cb Method_request_initial = request_initial_async_cb"
| "async_cb Method_request = request_async_cb"
| "async_cb Method_user_action_finished = user_action_finished_async_cb"
| "async_cb Method_refresh = refresh_async_cb"

text \<open>A call goes into the pipe, and its callback waits for the return. It takes no reference to the object.\<close>

definition call_async :: "remote_call \<Rightarrow> remote_method \<Rightarrow> 'p plugin_link \<Rightarrow> 'p plugin_link" where
  "call_async c m self = self\<lparr>rl_calls := rl_calls self @ [(rl_serial self, c)],
     rl_pending := rl_pending self @ [(rl_serial self, m)], rl_serial := rl_serial self + 1\<rparr>"

definition gsignond_plugin_remote_cancel :: "'p plugin_link \<Rightarrow> 'p plugin_link" where
  "gsignond_plugin_remote_cancel self = call_async Call_cancel Method_cancel self"

text \<open>The name of the mechanism came from the bus, and is not NULL.\<close>

definition gsignond_plugin_remote_request_initial ::
  "dictionary \<Rightarrow> dictionary option \<Rightarrow> string \<Rightarrow> 'p plugin_link \<Rightarrow> 'p plugin_link" where
  "gsignond_plugin_remote_request_initial session_data identity_method_cache mechanism self =
     (let dat = gsignond_dictionary_to_variant session_data;
          cache = (case identity_method_cache of
                     Some c \<Rightarrow> gsignond_dictionary_to_variant c
                   | None \<Rightarrow> gsignond_dictionary_to_variant gsignond_dictionary_new)
      in call_async (Call_request_initial dat cache mechanism) Method_request_initial self)"

definition gsignond_plugin_remote_request :: "dictionary \<Rightarrow> 'p plugin_link \<Rightarrow> 'p plugin_link" where
  "gsignond_plugin_remote_request session_data self =
     call_async (Call_request (gsignond_dictionary_to_variant session_data)) Method_request self"

definition gsignond_plugin_remote_user_action_finished :: "dictionary \<Rightarrow> 'p plugin_link \<Rightarrow> 'p plugin_link" where
  "gsignond_plugin_remote_user_action_finished signonui_data self =
     call_async (Call_user_action_finished (gsignond_dictionary_to_variant signonui_data))
       Method_user_action_finished self"

definition gsignond_plugin_remote_refresh :: "dictionary \<Rightarrow> 'p plugin_link \<Rightarrow> 'p plugin_link" where
  "gsignond_plugin_remote_refresh signonui_data self =
     call_async (Call_refresh (gsignond_dictionary_to_variant signonui_data)) Method_refresh self"

subsection \<open>The daemon's end: the signals\<close>

text \<open>The bus delivers only messages with the declared types: a variant read here is never another.\<close>

definition response_cb :: "gvariant \<Rightarrow> 'p plugin_link \<Rightarrow> 'p plugin_link" where
  "response_cb session_data self =
     (case gsignond_dictionary_new_from_variant (Some session_data) of
        Some d \<Rightarrow> gsignond_plugin_response d self | None \<Rightarrow> self)"

definition response_final_cb :: "gvariant \<Rightarrow> 'p plugin_link \<Rightarrow> 'p plugin_link" where
  "response_final_cb session_data self =
     (case gsignond_dictionary_new_from_variant (Some session_data) of
        Some d \<Rightarrow> gsignond_plugin_response_final d self | None \<Rightarrow> self)"

definition store_cb :: "gvariant \<Rightarrow> 'p plugin_link \<Rightarrow> 'p plugin_link" where
  "store_cb session_data self =
     (case gsignond_dictionary_new_from_variant (Some session_data) of
        Some d \<Rightarrow> gsignond_plugin_store d self | None \<Rightarrow> self)"

definition error_cb :: "'p remote_env \<Rightarrow> gvariant \<Rightarrow> 'p plugin_link \<Rightarrow> 'p plugin_link" where
  "error_cb env error self =
     (case gsignond_error_new_from_variant (re_quark_to_string env) (Some error) of
        Inr (Some gerror) \<Rightarrow> gsignond_plugin_error gerror self | _ \<Rightarrow> self)"

definition user_action_required_cb :: "gvariant \<Rightarrow> 'p plugin_link \<Rightarrow> 'p plugin_link" where
  "user_action_required_cb ui_data self =
     (case gsignond_dictionary_new_from_variant (Some ui_data) of
        Some d \<Rightarrow> gsignond_plugin_user_action_required d self | None \<Rightarrow> self)"

definition refreshed_cb :: "gvariant \<Rightarrow> 'p plugin_link \<Rightarrow> 'p plugin_link" where
  "refreshed_cb ui_data self =
     (case gsignond_dictionary_new_from_variant (Some ui_data) of
        Some d \<Rightarrow> gsignond_plugin_refreshed d self | None \<Rightarrow> self)"

definition status_changed_cb :: "i32 \<Rightarrow> string \<Rightarrow> 'p plugin_link \<Rightarrow> 'p plugin_link" where
  "status_changed_cb status message self =
     gsignond_plugin_status_changed (plugin_state_of_number status) message self"

subsection \<open>The end of the child\<close>

definition on_child_down_cb :: "'p plugin_link \<Rightarrow> 'p plugin_link" where
  "on_child_down_cb self = self\<lparr>rl_is_plugind_up := False, rl_child_watch := False\<rparr>"

definition check_child_exited :: "'p plugin_link \<Rightarrow> 'p plugin_link" where
  "check_child_exited self =
     (if rl_running self then self\<lparr>rl_kills := rl_kills self @ [SIGKILL], rl_running := False\<rparr> else self)"

text \<open>
  \<open>stubborn\<close>: the child does not end within a second of the first signal. The loop in which the code waits ends
  when it is told that the child has.
\<close>

definition gsignond_plugin_remote_dispose :: "bool \<Rightarrow> 'p plugin_link \<Rightarrow> 'p plugin_link" where
  "gsignond_plugin_remote_dispose stubborn self =
     (let self = (if rl_cpid self > 0 \<and> rl_is_plugind_up self then
                    let self = self\<lparr>rl_kills := rl_kills self @ [SIGTERM]\<rparr>;
                        self = (if stubborn then check_child_exited self else self\<lparr>rl_running := False\<rparr>)
                    in on_child_down_cb self
                  else self)
      in self\<lparr>rl_cpid := 0, rl_child_watch := False, rl_freed := True\<rparr>)"

definition gsignond_plugin_remote_init :: "'p \<Rightarrow> 'p plugin_link" where
  "gsignond_plugin_remote_init p =
     \<lparr>rl_cpid = 0, rl_is_plugind_up = False, rl_child_watch = False, rl_freed = False, rl_running = False,
      rl_calls = [], rl_answers = [], rl_pending = [], rl_serial = 0, rl_plugin = p, rl_kills = [], rl_emitted = []\<rparr>"

text \<open>
  \<open>spawned\<close>: the process of the child, if it could be started; \<open>proxied\<close>: the other end could be reached. An
  object without one is disposed of (\<open>Inl\<close>).
\<close>

definition gsignond_plugin_remote_new ::
  "'p \<Rightarrow> int option \<Rightarrow> bool \<Rightarrow> bool \<Rightarrow> 'p plugin_link option + 'p plugin_link" where
  "gsignond_plugin_remote_new p spawned proxied stubborn =
     (case spawned of
        None \<Rightarrow> Inl None
      | Some cpid \<Rightarrow>
          let self = (gsignond_plugin_remote_init p)
                \<lparr>rl_child_watch := True, rl_cpid := cpid, rl_is_plugind_up := True, rl_running := True\<rparr>
          in if proxied then Inr self else Inl (Some (gsignond_plugin_remote_dispose stubborn self)))"

subsection \<open>The child's end: signals of the plugin\<close>

definition send_answer :: "remote_message \<Rightarrow> 'p plugin_link \<Rightarrow> 'p plugin_link" where
  "send_answer m self = self\<lparr>rl_answers := rl_answers self @ [m]\<rparr>"

definition handle_response_from_plugin :: "dictionary \<Rightarrow> 'p plugin_link \<Rightarrow> 'p plugin_link" where
  "handle_response_from_plugin session_data self =
     send_answer (Response_message (gsignond_dictionary_to_variant session_data)) self"

definition handle_response_final_from_plugin :: "dictionary \<Rightarrow> 'p plugin_link \<Rightarrow> 'p plugin_link" where
  "handle_response_final_from_plugin session_data self =
     send_answer (Response_final_message (gsignond_dictionary_to_variant session_data)) self"

definition handle_store_from_plugin :: "dictionary \<Rightarrow> 'p plugin_link \<Rightarrow> 'p plugin_link" where
  "handle_store_from_plugin session_data self =
     send_answer (Store_message (gsignond_dictionary_to_variant session_data)) self"

definition handle_error_from_plugin :: "'p remote_env \<Rightarrow> gerror \<Rightarrow> 'p plugin_link \<Rightarrow> 'p plugin_link" where
  "handle_error_from_plugin env gerror self =
     (case gsignond_error_to_variant (re_quark_from_string env) (Some gerror) of
        Some error \<Rightarrow> send_answer (Error_message error) self | None \<Rightarrow> self)"

definition handle_user_action_required_from_plugin :: "dictionary \<Rightarrow> 'p plugin_link \<Rightarrow> 'p plugin_link" where
  "handle_user_action_required_from_plugin ui_data self =
     send_answer (User_action_required_message (gsignond_dictionary_to_variant ui_data)) self"

definition handle_refreshed_from_plugin :: "dictionary \<Rightarrow> 'p plugin_link \<Rightarrow> 'p plugin_link" where
  "handle_refreshed_from_plugin ui_data self =
     send_answer (Refreshed_message (gsignond_dictionary_to_variant ui_data)) self"

definition handle_status_changed_from_plugin :: "plugin_state \<Rightarrow> string \<Rightarrow> 'p plugin_link \<Rightarrow> 'p plugin_link" where
  "handle_status_changed_from_plugin status message self =
     send_answer (Status_changed_message (plugin_state_number status) message) self"

text \<open>The handlers that \<^verbatim>\<open>gsignond_plugin_daemon_new\<close> connects.\<close>

fun handle_signal :: "'p remote_env \<Rightarrow> plugin_signal \<Rightarrow> 'p plugin_link \<Rightarrow> 'p plugin_link" where
  "handle_signal env (Response d) = handle_response_from_plugin d"
| "handle_signal env (Response_final d) = handle_response_final_from_plugin d"
| "handle_signal env (Store d) = handle_store_from_plugin d"
| "handle_signal env (Plugin_error error) = handle_error_from_plugin env error"
| "handle_signal env (User_action_required d) = handle_user_action_required_from_plugin d"
| "handle_signal env (Refreshed d) = handle_refreshed_from_plugin d"
| "handle_signal env (Status_changed status message) = handle_status_changed_from_plugin status message"

definition run_plugin ::
  "'p remote_env \<Rightarrow> ('p \<Rightarrow> plugin_signal list \<times> 'p) \<Rightarrow> 'p plugin_link \<Rightarrow> 'p plugin_link" where
  "run_plugin env f self =
     (case f (rl_plugin self) of (signals, p) \<Rightarrow> fold (handle_signal env) signals (self\<lparr>rl_plugin := p\<rparr>))"

subsection \<open>The child's end: calls\<close>

text \<open>Every handler returns the call before the plugin sees it.\<close>

definition handle_cancel_from_dbus :: "'p remote_env \<Rightarrow> nat \<Rightarrow> 'p plugin_link \<Rightarrow> 'p plugin_link" where
  "handle_cancel_from_dbus env invocation self =
     (let self = send_answer (Return invocation) self
      in run_plugin env (gsignond_plugin_cancel (re_plugin env)) self)"

definition handle_request_from_dbus :: "'p remote_env \<Rightarrow> nat \<Rightarrow> gvariant \<Rightarrow> 'p plugin_link \<Rightarrow> 'p plugin_link" where
  "handle_request_from_dbus env invocation session_data self =
     (let self = send_answer (Return invocation) self
      in case gsignond_dictionary_new_from_variant (Some session_data) of
           Some d \<Rightarrow> run_plugin env (gsignond_plugin_request (re_plugin env) d) self
         | None \<Rightarrow> self)"

definition handle_request_initial_from_dbus ::
  "'p remote_env \<Rightarrow> nat \<Rightarrow> gvariant \<Rightarrow> gvariant \<Rightarrow> string \<Rightarrow> 'p plugin_link \<Rightarrow> 'p plugin_link" where
  "handle_request_initial_from_dbus env invocation session_data identity_method_cache mechanism self =
     (let self = send_answer (Return invocation) self;
          cache = gsignond_dictionary_new_from_variant (Some identity_method_cache)
      in case gsignond_dictionary_new_from_variant (Some session_data) of
           Some d \<Rightarrow> run_plugin env (gsignond_plugin_request_initial (re_plugin env) d cache (Some mechanism)) self
         | None \<Rightarrow> self)"

definition handle_user_action_finished_from_dbus ::
  "'p remote_env \<Rightarrow> nat \<Rightarrow> gvariant \<Rightarrow> 'p plugin_link \<Rightarrow> 'p plugin_link" where
  "handle_user_action_finished_from_dbus env invocation ui_data self =
     (let self = send_answer (Return invocation) self
      in case gsignond_dictionary_new_from_variant (Some ui_data) of
           Some d \<Rightarrow> run_plugin env (gsignond_plugin_user_action_finished (re_plugin env) d) self
         | None \<Rightarrow> self)"

definition handle_refresh_from_dbus :: "'p remote_env \<Rightarrow> nat \<Rightarrow> gvariant \<Rightarrow> 'p plugin_link \<Rightarrow> 'p plugin_link" where
  "handle_refresh_from_dbus env invocation ui_data self =
     (let self = send_answer (Return invocation) self
      in case gsignond_dictionary_new_from_variant (Some ui_data) of
           Some d \<Rightarrow> run_plugin env (gsignond_plugin_refresh (re_plugin env) d) self
         | None \<Rightarrow> self)"

fun handle_from_dbus :: "'p remote_env \<Rightarrow> nat \<Rightarrow> remote_call \<Rightarrow> 'p plugin_link \<Rightarrow> 'p plugin_link" where
  "handle_from_dbus env i Call_cancel = handle_cancel_from_dbus env i"
| "handle_from_dbus env i (Call_request_initial session_data cache mechanism) =
     handle_request_initial_from_dbus env i session_data cache mechanism"
| "handle_from_dbus env i (Call_request session_data) = handle_request_from_dbus env i session_data"
| "handle_from_dbus env i (Call_user_action_finished ui_data) = handle_user_action_finished_from_dbus env i ui_data"
| "handle_from_dbus env i (Call_refresh ui_data) = handle_refresh_from_dbus env i ui_data"

subsection \<open>Steps\<close>

datatype plugin_call =
    Cancel
  | Request_initial dictionary "dictionary option" string
  | Request dictionary
  | User_action_finished dictionary
  | Refresh dictionary

fun plugin_remote_call :: "plugin_call \<Rightarrow> 'p plugin_link \<Rightarrow> 'p plugin_link" where
  "plugin_remote_call Cancel = gsignond_plugin_remote_cancel"
| "plugin_remote_call (Request_initial session_data cache mechanism) =
     gsignond_plugin_remote_request_initial session_data cache mechanism"
| "plugin_remote_call (Request session_data) = gsignond_plugin_remote_request session_data"
| "plugin_remote_call (User_action_finished ui_data) = gsignond_plugin_remote_user_action_finished ui_data"
| "plugin_remote_call (Refresh ui_data) = gsignond_plugin_remote_refresh ui_data"

text \<open>The signals are disconnected when the object is freed; the callbacks of calls are not.\<close>

fun receive :: "'p remote_env \<Rightarrow> remote_message \<Rightarrow> 'p plugin_link \<Rightarrow> 'p plugin_link option" where
  "receive env (Return i) self =
     (case map_of (rl_pending self) i of
        None \<Rightarrow> Some self
      | Some m \<Rightarrow> async_cb m None (self\<lparr>rl_pending := AList.delete i (rl_pending self)\<rparr>))"
| "receive env (Response_message v) self = Some (if rl_freed self then self else response_cb v self)"
| "receive env (Response_final_message v) self = Some (if rl_freed self then self else response_final_cb v self)"
| "receive env (Store_message v) self = Some (if rl_freed self then self else store_cb v self)"
| "receive env (Error_message v) self = Some (if rl_freed self then self else error_cb env v self)"
| "receive env (User_action_required_message v) self =
     Some (if rl_freed self then self else user_action_required_cb v self)"
| "receive env (Refreshed_message v) self = Some (if rl_freed self then self else refreshed_cb v self)"
| "receive env (Status_changed_message status message) self =
     Some (if rl_freed self then self else status_changed_cb status message self)"

fun fail_calls :: "gerror \<Rightarrow> (nat \<times> remote_method) list \<Rightarrow> 'p plugin_link \<Rightarrow> 'p plugin_link option" where
  "fail_calls e [] self = Some self"
| "fail_calls e ((i, m) # ms) self =
     (case async_cb m (Some e) (self\<lparr>rl_pending := AList.delete i (rl_pending self)\<rparr>) of
        None \<Rightarrow> None | Some self \<Rightarrow> fail_calls e ms self)"

text \<open>
  What happens next in either process. The bus gives up on a call that has not returned in time. The
  daemon reads what the child wrote before it learns that the pipe is closed.
\<close>

datatype link_event =
    Client_calls plugin_call
  | Child_reads
  | Plugin_acts
  | Daemon_reads
  | Call_times_out nat
  | Child_exits
  | Child_reaped
  | Connection_closed
  | Disposed bool

fun link_step :: "'p remote_env \<Rightarrow> link_event \<Rightarrow> 'p plugin_link \<Rightarrow> 'p plugin_link option" where
  "link_step env (Client_calls c) self = (if rl_freed self then None else Some (plugin_remote_call c self))"
| "link_step env Child_reads self =
     Some (case rl_calls self of
             (i, c) # cs \<Rightarrow> if rl_running self then handle_from_dbus env i c (self\<lparr>rl_calls := cs\<rparr>) else self
           | [] \<Rightarrow> self)"
| "link_step env Plugin_acts self = Some (if rl_running self then run_plugin env (pi_iterate (re_plugin env)) self else self)"
| "link_step env Daemon_reads self =
     (case rl_answers self of m # ms \<Rightarrow> receive env m (self\<lparr>rl_answers := ms\<rparr>) | [] \<Rightarrow> Some self)"
| "link_step env (Call_times_out i) self =
     (case map_of (rl_pending self) i of
        None \<Rightarrow> Some self
      | Some m \<Rightarrow> async_cb m (Some (re_timeout env)) (self\<lparr>rl_pending := AList.delete i (rl_pending self)\<rparr>))"
| "link_step env Child_exits self = Some (self\<lparr>rl_running := False\<rparr>)"
| "link_step env Child_reaped self =
     Some (if \<not> rl_running self \<and> rl_child_watch self then on_child_down_cb self else self)"
| "link_step env Connection_closed self =
     (if \<not> rl_running self \<and> rl_answers self = [] then fail_calls (re_closed env) (rl_pending self) self else Some self)"
| "link_step env (Disposed stubborn) self = Some (gsignond_plugin_remote_dispose stubborn self)"

fun link_run :: "'p remote_env \<Rightarrow> link_event list \<Rightarrow> 'p plugin_link \<Rightarrow> 'p plugin_link option" where
  "link_run env [] self = Some self"
| "link_run env (e # es) self = Option.bind (link_step env e self) (link_run env es)"

end
