(* ===== verification/Gsso_Plugin_Link.thy ===== *)
theory Gsso_Plugin_Link
  imports Gsso_Plugin_Remote
begin

text \<open>
  A plugin in another process against one in the same process. However the two main loops and the pipes
  interleave, what the plugin sees is the calls of the daemon in order, and what the daemon hears is the signals of
  the plugin in order: a run of the link refines a run of the plugin itself. The end of the child is reported
  for the calls it had not read, and for those only.
\<close>

subsection \<open>What a message carries\<close>

text \<open>A hash table survives the bus with its order.\<close>

abbreviation from_wire :: "gvariant \<Rightarrow> dictionary" where
  "from_wire v \<equiv> dictionary_read_entries (g_variant_children v) gsignond_dictionary_new"

lemma read_wire: "gsignond_dictionary_new_from_variant (Some v) = Some (from_wire v)"
  by (simp add: gsignond_dictionary_new_from_variant_def)

lemma update_fresh: "k \<notin> fst ` set t \<Longrightarrow> AList.update k v t = t @ [(k, v)]"
  by (induction t) auto

lemma wire_entries_append:
  "keys_distinct (t @ d) \<Longrightarrow> dictionary_read_entries (gsignond_dictionary_to_variant_builder d) t = t @ d"
  by (induction d arbitrary: t) (auto simp: gsignond_dictionary_to_variant_builder_def update_fresh)

lemma over_wire [simp]: "keys_distinct d \<Longrightarrow> from_wire (gsignond_dictionary_to_variant d) = d"
  by (simp add: gsignond_dictionary_to_variant_def gsignond_dictionary_new_def wire_entries_append)

lemma plugin_state_over_wire [simp]: "plugin_state_of_number (plugin_state_number s) = s"
  by (cases s) (simp_all add: plugin_state_of_number_def plugin_state_number_def plugin_states_def)

subsection \<open>The plugin itself\<close>

datatype plugin_activity = Act_call plugin_call | Act_own

fun local_call :: "'p plugin_interface \<Rightarrow> plugin_call \<Rightarrow> 'p \<Rightarrow> plugin_signal list \<times> 'p" where
  "local_call iface Cancel p = gsignond_plugin_cancel iface p"
| "local_call iface (Request_initial d cache mechanism) p = gsignond_plugin_request_initial iface d cache (Some mechanism) p"
| "local_call iface (Request d) p = gsignond_plugin_request iface d p"
| "local_call iface (User_action_finished d) p = gsignond_plugin_user_action_finished iface d p"
| "local_call iface (Refresh d) p = gsignond_plugin_refresh iface d p"

fun perform :: "'p plugin_interface \<Rightarrow> plugin_activity \<Rightarrow> 'p \<Rightarrow> plugin_signal list \<times> 'p" where
  "perform iface (Act_call c) p = local_call iface c p"
| "perform iface Act_own p = pi_iterate iface p"

fun plugin_run :: "'p plugin_interface \<Rightarrow> plugin_activity list \<Rightarrow> 'p \<Rightarrow> plugin_signal list \<times> 'p" where
  "plugin_run iface [] p = ([], p)"
| "plugin_run iface (a # as) p =
     (fst (perform iface a p) @ fst (plugin_run iface as (snd (perform iface a p))),
      snd (plugin_run iface as (snd (perform iface a p))))"

fun act_calls :: "plugin_activity list \<Rightarrow> plugin_call list" where
  "act_calls [] = []"
| "act_calls (Act_call c # as) = c # act_calls as"
| "act_calls (Act_own # as) = act_calls as"

lemma plugin_run_append:
  "plugin_run iface (as @ bs) p =
     (fst (plugin_run iface as p) @ fst (plugin_run iface bs (snd (plugin_run iface as p))),
      snd (plugin_run iface bs (snd (plugin_run iface as p))))"
  by (induction as arbitrary: p) auto

lemma act_calls_append [simp]: "act_calls (as @ bs) = act_calls as @ act_calls bs"
  by (induction as rule: act_calls.induct) auto

text \<open>Calls and signals whose dictionaries are hash tables.\<close>

fun call_ok :: "plugin_call \<Rightarrow> bool" where
  "call_ok Cancel = True"
| "call_ok (Request_initial d cache mechanism) = (keys_distinct d \<and> (\<forall>c. cache = Some c \<longrightarrow> keys_distinct c))"
| "call_ok (Request d) = keys_distinct d"
| "call_ok (User_action_finished d) = keys_distinct d"
| "call_ok (Refresh d) = keys_distinct d"

fun signal_ok :: "plugin_signal \<Rightarrow> bool" where
  "signal_ok (Response d) = keys_distinct d"
| "signal_ok (Response_final d) = keys_distinct d"
| "signal_ok (Store d) = keys_distinct d"
| "signal_ok (Plugin_error e) = True"
| "signal_ok (User_action_required d) = keys_distinct d"
| "signal_ok (Refreshed d) = keys_distinct d"
| "signal_ok (Status_changed state message) = True"

text \<open>What the interface of a plugin promises of them: given hash tables, it gives hash tables.\<close>

locale table_plugin =
  fixes iface :: "'p plugin_interface"
  assumes call_tables: "call_ok c \<Longrightarrow> list_all signal_ok (fst (local_call iface c p))"
    and iterate_tables: "list_all signal_ok (fst (pi_iterate iface p))"
begin

lemma run_tables:
  "list_all call_ok (act_calls as) \<Longrightarrow> list_all signal_ok (fst (plugin_run iface as p))"
proof (induction as arbitrary: p)
  case (Cons a as)
  then show ?case using call_tables iterate_tables by (cases a) auto
qed simp

end

subsection \<open>What crosses the link\<close>

text \<open>A plugin always gets a cache, and the number of an error's domain is read in the numbering of the daemon.\<close>

fun arrives :: "plugin_call \<Rightarrow> plugin_call" where
  "arrives (Request_initial d cache mechanism) =
     Request_initial d (Some (case cache of Some c \<Rightarrow> c | None \<Rightarrow> [])) mechanism"
| "arrives c = c"

fun heard :: "'p remote_env \<Rightarrow> plugin_signal \<Rightarrow> plugin_signal" where
  "heard env (Plugin_error e) =
     Plugin_error (e\<lparr>err_domain := re_quark_to_string env (re_quark_from_string env (err_domain e))\<rparr>)"
| "heard env s = s"

fun encode_call :: "plugin_call \<Rightarrow> remote_call" where
  "encode_call Cancel = Call_cancel"
| "encode_call (Request_initial d cache mechanism) =
     Call_request_initial (gsignond_dictionary_to_variant d)
       (gsignond_dictionary_to_variant (case cache of Some c \<Rightarrow> c | None \<Rightarrow> [])) mechanism"
| "encode_call (Request d) = Call_request (gsignond_dictionary_to_variant d)"
| "encode_call (User_action_finished d) = Call_user_action_finished (gsignond_dictionary_to_variant d)"
| "encode_call (Refresh d) = Call_refresh (gsignond_dictionary_to_variant d)"

fun decode_call :: "remote_call \<Rightarrow> plugin_call" where
  "decode_call Call_cancel = Cancel"
| "decode_call (Call_request_initial v w mechanism) = Request_initial (from_wire v) (Some (from_wire w)) mechanism"
| "decode_call (Call_request v) = Request (from_wire v)"
| "decode_call (Call_user_action_finished v) = User_action_finished (from_wire v)"
| "decode_call (Call_refresh v) = Refresh (from_wire v)"

fun call_method :: "plugin_call \<Rightarrow> remote_method" where
  "call_method Cancel = Method_cancel"
| "call_method (Request_initial d cache mechanism) = Method_request_initial"
| "call_method (Request d) = Method_request"
| "call_method (User_action_finished d) = Method_user_action_finished"
| "call_method (Refresh d) = Method_refresh"

fun encode_signal :: "'p remote_env \<Rightarrow> plugin_signal \<Rightarrow> remote_message" where
  "encode_signal env (Response d) = Response_message (gsignond_dictionary_to_variant d)"
| "encode_signal env (Response_final d) = Response_final_message (gsignond_dictionary_to_variant d)"
| "encode_signal env (Store d) = Store_message (gsignond_dictionary_to_variant d)"
| "encode_signal env (Plugin_error e) =
     Error_message (the (gsignond_error_to_variant (re_quark_from_string env) (Some e)))"
| "encode_signal env (User_action_required d) = User_action_required_message (gsignond_dictionary_to_variant d)"
| "encode_signal env (Refreshed d) = Refreshed_message (gsignond_dictionary_to_variant d)"
| "encode_signal env (Status_changed state message) = Status_changed_message (plugin_state_number state) message"

fun decode_message :: "'p remote_env \<Rightarrow> remote_message \<Rightarrow> plugin_signal list" where
  "decode_message env (Return i) = []"
| "decode_message env (Response_message v) = [Response (from_wire v)]"
| "decode_message env (Response_final_message v) = [Response_final (from_wire v)]"
| "decode_message env (Store_message v) = [Store (from_wire v)]"
| "decode_message env (Error_message v) =
     (case gsignond_error_new_from_variant (re_quark_to_string env) (Some v) of
        Inr (Some e) \<Rightarrow> [Plugin_error e] | _ \<Rightarrow> [])"
| "decode_message env (User_action_required_message v) = [User_action_required (from_wire v)]"
| "decode_message env (Refreshed_message v) = [Refreshed (from_wire v)]"
| "decode_message env (Status_changed_message status message) = [Status_changed (plugin_state_of_number status) message]"

lemma decode_encode_call: "call_ok c \<Longrightarrow> decode_call (encode_call c) = arrives c"
  by (cases c) (auto split: option.splits)

lemma decode_encode_signal: "signal_ok s \<Longrightarrow> decode_message env (encode_signal env s) = [heard env s]"
  by (cases s) simp_all

lemma arrives_ok: "call_ok c \<Longrightarrow> call_ok (arrives c)"
  by (cases c) (auto split: option.splits)

subsection \<open>The steps, in these terms\<close>

lemma handle_signal_eq: "handle_signal env s self = self\<lparr>rl_answers := rl_answers self @ [encode_signal env s]\<rparr>"
  by (cases s) (simp_all add: handle_response_from_plugin_def handle_response_final_from_plugin_def
      handle_store_from_plugin_def handle_error_from_plugin_def handle_user_action_required_from_plugin_def
      handle_refreshed_from_plugin_def handle_status_changed_from_plugin_def send_answer_def)

lemma handle_signals_eq:
  "fold (handle_signal env) ss self = self\<lparr>rl_answers := rl_answers self @ map (encode_signal env) ss\<rparr>"
  by (induction ss arbitrary: self) (simp_all add: handle_signal_eq)

lemma run_plugin_eq:
  "run_plugin env f self = self\<lparr>rl_plugin := snd (f (rl_plugin self)),
     rl_answers := rl_answers self @ map (encode_signal env) (fst (f (rl_plugin self)))\<rparr>"
  by (simp add: run_plugin_def handle_signals_eq split: prod.split)

lemma handle_from_dbus_eq:
  "handle_from_dbus env i c self = self
     \<lparr>rl_plugin := snd (local_call (re_plugin env) (decode_call c) (rl_plugin self)),
      rl_answers := rl_answers self @
        Return i # map (encode_signal env) (fst (local_call (re_plugin env) (decode_call c) (rl_plugin self)))\<rparr>"
  by (cases c) (simp_all add: handle_cancel_from_dbus_def handle_request_initial_from_dbus_def
      handle_request_from_dbus_def handle_user_action_finished_from_dbus_def handle_refresh_from_dbus_def
      run_plugin_eq read_wire send_answer_def Let_def)

lemma plugin_remote_call_eq: "plugin_remote_call c self = call_async (encode_call c) (call_method c) self"
  by (cases c) (simp_all add: gsignond_plugin_remote_cancel_def gsignond_plugin_remote_request_initial_def
      gsignond_plugin_remote_request_def gsignond_plugin_remote_user_action_finished_def
      gsignond_plugin_remote_refresh_def gsignond_dictionary_new_def Let_def split: option.splits)

lemma async_cb_eq:
  "\<not> rl_freed self \<Longrightarrow> async_cb m error self =
     Some (self\<lparr>rl_emitted := rl_emitted self @ (case error of Some e \<Rightarrow> [Plugin_error e] | None \<Rightarrow> [])\<rparr>)"
  by (cases m) (simp_all add: cancel_async_cb_def request_initial_async_cb_def request_async_cb_def
      user_action_finished_async_cb_def refresh_async_cb_def gsignond_plugin_error_def emit_plugin_signal_def
      split: option.split)

fun returned :: "remote_message \<Rightarrow> nat list" where
  "returned (Return i) = [i]"
| "returned _ = []"

lemma receive_eq:
  assumes "\<not> rl_freed self"
  shows "receive env m self = Some (self\<lparr>rl_pending := fold AList.delete (returned m) (rl_pending self),
    rl_emitted := rl_emitted self @ decode_message env m\<rparr>)"
proof (cases m)
  case (Return i)
  then show ?thesis
    using assms by (auto simp: async_cb_eq delete_fresh map_of_eq_None_iff split: option.split)
qed (use assms in \<open>simp_all add: response_cb_def response_final_cb_def store_cb_def error_cb_def
      user_action_required_cb_def refreshed_cb_def status_changed_cb_def read_wire gsignond_plugin_response_def
      gsignond_plugin_response_final_def gsignond_plugin_store_def gsignond_plugin_error_def
      gsignond_plugin_user_action_required_def gsignond_plugin_refreshed_def gsignond_plugin_status_changed_def
      emit_plugin_signal_def split: sum.split option.split\<close>)

subsection \<open>The simulation\<close>

text \<open>Steps of a link whose child lives and answers in time.\<close>

fun live_event :: "link_event \<Rightarrow> bool" where
  "live_event (Client_calls c) = True"
| "live_event Child_reads = True"
| "live_event Plugin_acts = True"
| "live_event Daemon_reads = True"
| "live_event _ = False"

fun client_calls :: "link_event list \<Rightarrow> plugin_call list" where
  "client_calls [] = []"
| "client_calls (Client_calls c # es) = c # client_calls es"
| "client_calls (_ # es) = client_calls es"

lemma client_calls_append [simp]: "client_calls (es @ fs) = client_calls es @ client_calls fs"
  by (induction es rule: client_calls.induct) auto

text \<open>
  \<open>as\<close>: what the plugin has done. What it has done and what it will when it has read the pipe are the calls made,
  and what was given out and what is on the way are its signals. The calls without a return are those whose return
  is on the way and, after them, those not read.
\<close>

definition link_inv ::
  "'p remote_env \<Rightarrow> 'p \<Rightarrow> plugin_call list \<Rightarrow> plugin_activity list \<Rightarrow> 'p plugin_link \<Rightarrow> bool" where
  "link_inv env p0 calls as l \<longleftrightarrow> \<not> rl_freed l \<and> rl_running l \<and>
     act_calls as @ map (\<lambda>c. decode_call (snd c)) (rl_calls l) = map arrives calls \<and>
     snd (plugin_run (re_plugin env) as p0) = rl_plugin l \<and>
     rl_emitted l @ concat (map (decode_message env) (rl_answers l)) =
       map (heard env) (fst (plugin_run (re_plugin env) as p0)) \<and>
     map fst (rl_pending l) = concat (map returned (rl_answers l)) @ map fst (rl_calls l) \<and>
     distinct (map fst (rl_pending l)) \<and> (\<forall>i \<in> fst ` set (rl_pending l). i < rl_serial l)"

lemma link_invD:
  assumes "link_inv env p0 calls as l"
  shows "\<not> rl_freed l" "rl_running l" "act_calls as @ map (\<lambda>c. decode_call (snd c)) (rl_calls l) = map arrives calls"
    "snd (plugin_run (re_plugin env) as p0) = rl_plugin l"
    "rl_emitted l @ concat (map (decode_message env) (rl_answers l)) =
      map (heard env) (fst (plugin_run (re_plugin env) as p0))"
    "map fst (rl_pending l) = concat (map returned (rl_answers l)) @ map fst (rl_calls l)"
    "distinct (map fst (rl_pending l))" "\<forall>i \<in> fst ` set (rl_pending l). i < rl_serial l"
  using assms unfolding link_inv_def by blast+

lemma decode_signals:
  "list_all signal_ok ss \<Longrightarrow> concat (map (\<lambda>s. decode_message env (encode_signal env s)) ss) = map (heard env) ss"
  by (induction ss) (simp_all add: decode_encode_signal)

lemma returned_signal [simp]: "returned (encode_signal env s) = []"
  by (cases s) simp_all

lemma returned_signals [simp]: "concat (map (\<lambda>s. returned (encode_signal env s)) ss) = []"
  by simp

lemma pending_returned:
  assumes "map fst pending = returned m @ xs" "distinct (map fst pending)"
  shows "map fst (fold AList.delete (returned m) pending) = xs"
proof (cases m)
  case (Return i)
  then obtain x rest where "pending = (i, x) # rest" "map fst rest = xs" "i \<notin> fst ` set rest"
    using assms by (cases pending) auto
  then show ?thesis using Return by (simp add: delete_fresh)
qed (use assms in simp_all)

lemma daemon_reads_inv:
  assumes "link_inv env p0 calls as l"
  shows "\<exists>l'. link_step env Daemon_reads l = Some l' \<and> link_inv env p0 calls as l' \<and>
    rl_calls l' = rl_calls l \<and> rl_answers l' = tl (rl_answers l)"
proof (cases "rl_answers l")
  case Nil
  then show ?thesis using assms by simp
next
  case (Cons m ms)
  let ?l = "l\<lparr>rl_answers := ms, rl_pending := fold AList.delete (returned m) (rl_pending l),
    rl_emitted := rl_emitted l @ decode_message env m\<rparr>"
  have freed: "\<not> rl_freed (l\<lparr>rl_answers := ms\<rparr>)"
    using assms by (simp add: link_inv_def)
  have step: "link_step env Daemon_reads l = Some ?l"
    using receive_eq [OF freed, of env m] Cons by simp
  have pending: "map fst (rl_pending l) = returned m @ concat (map returned ms) @ map fst (rl_calls l)"
    using assms Cons by (simp add: link_inv_def)
  have distinct: "distinct (map fst (rl_pending l))"
    using assms unfolding link_inv_def by blast
  note rest = pending_returned [OF pending distinct]
  have "distinct (map fst (rl_pending ?l))"
    using distinct [unfolded pending] by (simp add: rest)
  moreover have "fst ` set (rl_pending ?l) \<subseteq> fst ` set (rl_pending l)"
    using arg_cong [OF rest, of set] arg_cong [OF pending, of set] by auto
  then have "\<forall>i \<in> fst ` set (rl_pending ?l). i < rl_serial l"
    using link_invD(8) [OF assms] by (meson subsetD)
  ultimately have "\<forall>i \<in> fst ` set (rl_pending ?l). i < rl_serial ?l" "distinct (map fst (rl_pending ?l))"
    by simp_all
  then have "link_inv env p0 calls as ?l"
    using link_invD(1-5) [OF assms] rest Cons unfolding link_inv_def by simp
  then show ?thesis using step Cons by auto
qed

lemma client_calls_inv:
  assumes "link_inv env p0 calls as l" "call_ok c"
  shows "link_inv env p0 (calls @ [c]) as (plugin_remote_call c l)"
proof -
  note l = link_invD [OF assms(1)]
  let ?l = "plugin_remote_call c l"
  have l': "?l = l\<lparr>rl_calls := rl_calls l @ [(rl_serial l, encode_call c)],
      rl_pending := rl_pending l @ [(rl_serial l, call_method c)], rl_serial := rl_serial l + 1\<rparr>"
    by (simp add: plugin_remote_call_eq call_async_def)
  have fresh: "rl_serial l \<notin> fst ` set (rl_pending l)"
    using l(8) by blast
  have "distinct (map fst (rl_pending ?l))"
    using l(7) fresh by (simp add: l')
  moreover have "\<forall>i \<in> fst ` set (rl_pending ?l). i < rl_serial ?l"
    using l(8) by (auto simp: l' less_SucI)
  ultimately show ?thesis
    using l(1-5) l(6) unfolding link_inv_def by (simp add: l' decode_encode_call [OF assms(2)])
qed

lemma inv_calls_ok:
  assumes "link_inv env p0 calls as l" "list_all call_ok calls"
  shows "list_all call_ok (act_calls as @ map (\<lambda>c. decode_call (snd c)) (rl_calls l))"
proof -
  have "list_all call_ok (map arrives calls)"
    using assms(2) by (auto simp: list_all_iff arrives_ok)
  then show ?thesis using assms(1) by (simp add: link_inv_def)
qed

lemma performed_inv:
  assumes inv: "link_inv env p0 calls as l" and a: "list_all signal_ok (fst (perform (re_plugin env) a (rl_plugin l)))"
    and calls: "act_calls [a] @ map (\<lambda>c. decode_call (snd c)) cs = map (\<lambda>c. decode_call (snd c)) (rl_calls l)"
      "map fst (rl_calls l) = is @ map fst cs"
  shows "link_inv env p0 calls (as @ [a])
     (l\<lparr>rl_calls := cs, rl_plugin := snd (perform (re_plugin env) a (rl_plugin l)),
        rl_answers := rl_answers l @ map Return is @
          map (encode_signal env) (fst (perform (re_plugin env) a (rl_plugin l)))\<rparr>)"
proof -
  let ?l = "l\<lparr>rl_calls := cs, rl_plugin := snd (perform (re_plugin env) a (rl_plugin l)),
        rl_answers := rl_answers l @ map Return is @
          map (encode_signal env) (fst (perform (re_plugin env) a (rl_plugin l)))\<rparr>"
  have returns: "concat (map (\<lambda>i. returned (Return i)) is) = is" "concat (map (\<lambda>i. decode_message env (Return i)) is) = []"
    by (induction "is") simp_all
  note l = link_invD [OF inv]
  have "act_calls (as @ [a]) @ map (\<lambda>c. decode_call (snd c)) cs = map arrives calls"
    using l(3) calls(1) by simp
  moreover have "rl_emitted l @ concat (map (decode_message env) (rl_answers ?l)) =
      map (heard env) (fst (plugin_run (re_plugin env) (as @ [a]) p0))"
    using l(5) decode_signals [OF a, of env] by (simp add: plugin_run_append l(4) comp_def del: decode_message.simps)
      (simp only: append_assoc [symmetric] returns(2) append_Nil2)
  moreover have "map fst (rl_pending l) = concat (map returned (rl_answers ?l)) @ map fst cs"
    using l(6) calls(2) returns(1) by (simp add: comp_def del: returned.simps)
  ultimately show ?thesis
    using l(1,2,7,8) unfolding link_inv_def by (simp add: plugin_run_append l(4))
qed

text \<open>
  What the child does in the course of events: it carries out the first of the calls it has not read, or acts on
  its own. \<open>unread\<close>: the calls on the way to it.
\<close>

fun child_acts :: "link_event list \<Rightarrow> plugin_call list \<Rightarrow> plugin_activity list" where
  "child_acts [] unread = []"
| "child_acts (Client_calls c # es) unread = child_acts es (unread @ [arrives c])"
| "child_acts (Child_reads # es) unread =
     (case unread of [] \<Rightarrow> child_acts es [] | c # cs \<Rightarrow> Act_call c # child_acts es cs)"
| "child_acts (Plugin_acts # es) unread = Act_own # child_acts es unread"
| "child_acts (_ # es) unread = child_acts es unread"

definition unread_calls :: "'p plugin_link \<Rightarrow> plugin_call list" where
  "unread_calls l = map (\<lambda>c. decode_call (snd c)) (rl_calls l)"

context table_plugin
begin

lemma performed_ok:
  assumes "list_all call_ok (act_calls as @ act_calls [a])"
  shows "list_all signal_ok (fst (perform iface a (snd (plugin_run iface as p0))))"
  using run_tables [of "as @ [a]"] assms by (simp add: plugin_run_append)

lemma child_reads_inv:
  assumes inv: "link_inv env p0 calls as l" and ok: "list_all call_ok calls" "re_plugin env = iface"
  shows "\<exists>l'. link_step env Child_reads l = Some l' \<and>
    link_inv env p0 calls (as @ child_acts [Child_reads] (unread_calls l)) l' \<and> rl_calls l' = tl (rl_calls l)"
proof (cases "rl_calls l")
  case Nil
  then show ?thesis using inv by (simp add: unread_calls_def)
next
  case (Cons ic cs)
  obtain i c where ic: "ic = (i, c)" by (cases ic)
  let ?a = "Act_call (decode_call c)"
  have "list_all signal_ok (fst (perform (re_plugin env) ?a (rl_plugin l)))"
    using performed_ok [of as ?a p0] inv_calls_ok [OF inv ok(1)] ok inv Cons ic by (simp add: link_inv_def)
  from performed_inv [OF inv this, of cs "[i]"]
  have "link_inv env p0 calls (as @ [?a]) (handle_from_dbus env i c (l\<lparr>rl_calls := cs\<rparr>))"
    using Cons ic by (simp add: handle_from_dbus_eq)
  moreover have "link_step env Child_reads l = Some (handle_from_dbus env i c (l\<lparr>rl_calls := cs\<rparr>))"
    using Cons ic link_invD(2) [OF inv] by simp
  moreover have "rl_calls (handle_from_dbus env i c (l\<lparr>rl_calls := cs\<rparr>)) = tl (rl_calls l)"
    using Cons by (simp add: handle_from_dbus_eq)
  ultimately show ?thesis using Cons ic by (simp add: unread_calls_def)
qed

lemma plugin_acts_inv:
  assumes inv: "link_inv env p0 calls as l" and ok: "list_all call_ok calls" "re_plugin env = iface"
  shows "\<exists>l'. link_step env Plugin_acts l = Some l' \<and> link_inv env p0 calls (as @ [Act_own]) l' \<and>
    rl_calls l' = rl_calls l"
proof -
  have "list_all signal_ok (fst (perform (re_plugin env) Act_own (rl_plugin l)))"
    using performed_ok [of as Act_own p0] inv_calls_ok [OF inv ok(1)] ok inv by (simp add: link_inv_def)
  from performed_inv [OF inv this, of "rl_calls l" "[]"] show ?thesis
    using inv by (simp add: run_plugin_eq link_inv_def)
qed

lemma live_step:
  assumes inv: "link_inv env p0 calls as l" and e: "live_event e"
    and ok: "list_all call_ok (calls @ client_calls [e])" "re_plugin env = iface"
  shows "\<exists>l'. link_step env e l = Some l' \<and>
    link_inv env p0 (calls @ client_calls [e]) (as @ child_acts [e] (unread_calls l)) l' \<and>
    (\<forall>es. child_acts (e # es) (unread_calls l) = child_acts [e] (unread_calls l) @ child_acts es (unread_calls l'))"
proof (cases e)
  case (Client_calls c)
  have "unread_calls (plugin_remote_call c l) = unread_calls l @ [arrives c]"
    using ok(1) Client_calls
    by (simp add: plugin_remote_call_eq call_async_def unread_calls_def decode_encode_call)
  moreover have "link_inv env p0 (calls @ [c]) as (plugin_remote_call c l)"
    using client_calls_inv [OF inv, of c] ok(1) Client_calls by simp
  ultimately show ?thesis using link_invD(1) [OF inv] Client_calls by simp
next
  case Child_reads
  obtain l' where "link_step env Child_reads l = Some l'" "rl_calls l' = tl (rl_calls l)"
    "link_inv env p0 calls (as @ child_acts [Child_reads] (unread_calls l)) l'"
    using child_reads_inv [OF inv _ ok(2)] ok(1) by auto
  then show ?thesis using Child_reads by (cases "rl_calls l") (auto simp: unread_calls_def simp del: link_step.simps)
next
  case Plugin_acts
  then show ?thesis using plugin_acts_inv [OF inv _ ok(2)] ok(1) by (fastforce simp: unread_calls_def)
next
  case Daemon_reads
  then show ?thesis using daemon_reads_inv [OF inv] by (fastforce simp: unread_calls_def)
qed (use e in simp_all)

lemma live_run:
  assumes "list_all live_event es" "link_inv env p0 calls as l" "list_all call_ok (calls @ client_calls es)"
    "re_plugin env = iface"
  shows "\<exists>l'. link_run env es l = Some l' \<and>
    link_inv env p0 (calls @ client_calls es) (as @ child_acts es (unread_calls l)) l'"
  using assms(1-3)
proof (induction es arbitrary: calls as l)
  case (Cons e es)
  have split: "client_calls (e # es) = client_calls [e] @ client_calls es"
    using client_calls_append [of "[e]" es] by simp
  obtain l' where l': "link_step env e l = Some l'"
    "link_inv env p0 (calls @ client_calls [e]) (as @ child_acts [e] (unread_calls l)) l'"
    "child_acts (e # es) (unread_calls l) = child_acts [e] (unread_calls l) @ child_acts es (unread_calls l')"
    using live_step [OF Cons.prems(2), of e] Cons.prems assms(4) by (auto simp: split)
  from Cons.IH [OF _ l'(2)] Cons.prems obtain l'' where
    "link_run env es l' = Some l''"
    "link_inv env p0 ((calls @ client_calls [e]) @ client_calls es)
       ((as @ child_acts [e] (unread_calls l)) @ child_acts es (unread_calls l')) l''"
    by (auto simp: split)
  then show ?case using l'(1,3) by (simp del: link_step.simps add: split)
qed auto

lemma drain_calls:
  assumes "link_inv env p0 calls as l" "list_all call_ok calls" "re_plugin env = iface"
  shows "\<exists>l' as'. link_run env (replicate n Child_reads) l = Some l' \<and> link_inv env p0 calls as' l' \<and>
    rl_calls l' = drop n (rl_calls l)"
  using assms(1)
proof (induction n arbitrary: as l)
  case (Suc n)
  obtain l1 as1 where l1: "link_step env Child_reads l = Some l1" "link_inv env p0 calls as1 l1" "rl_calls l1 = tl (rl_calls l)"
    using child_reads_inv [OF Suc.prems assms(2,3)] by (auto simp del: link_step.simps)
  then show ?case
    using Suc.IH [OF l1(2)] by (simp del: link_step.simps add: drop_Suc)
qed auto

end

lemma drain_answers:
  assumes "link_inv env p0 calls as l"
  shows "\<exists>l'. link_run env (replicate n Daemon_reads) l = Some l' \<and> link_inv env p0 calls as l' \<and>
    rl_calls l' = rl_calls l \<and> rl_answers l' = drop n (rl_answers l)"
  using assms
proof (induction n arbitrary: l)
  case (Suc n)
  obtain l1 where l1: "link_step env Daemon_reads l = Some l1" "link_inv env p0 calls as l1" "rl_calls l1 = rl_calls l"
      "rl_answers l1 = tl (rl_answers l)"
    using daemon_reads_inv [OF Suc.prems] by blast
  then show ?case
    using Suc.IH [OF l1(2)] by (simp del: link_step.simps add: drop_Suc)
qed simp

lemma link_run_append: "link_run env (es @ fs) l = Option.bind (link_run env es l) (link_run env fs)"
  by (induction es arbitrary: l) (auto split: bind_split)

lemma new_link_inv:
  assumes "gsignond_plugin_remote_new p0 (Some cpid) True stubborn = Inr l"
  shows "link_inv env p0 [] [] l"
  using assms by (auto simp: gsignond_plugin_remote_new_def gsignond_plugin_remote_init_def link_inv_def)

subsection \<open>The end of the child\<close>

lemma daemon_reads_stopped:
  assumes "\<not> rl_freed l"
  shows "link_step env Daemon_reads (l\<lparr>rl_running := False\<rparr>) = map_option (rl_running_update (\<lambda>_. False)) (link_step env Daemon_reads l)"
proof (cases "rl_answers l")
  case (Cons m ms)
  then show ?thesis
    using receive_eq [of "l\<lparr>rl_answers := ms\<rparr>" env m] receive_eq [of "l\<lparr>rl_running := False, rl_answers := ms\<rparr>" env m] assms
    by simp
qed simp

lemma drain_stopped:
  assumes "link_inv env p0 calls as l"
  shows "link_run env (replicate n Daemon_reads) (l\<lparr>rl_running := False\<rparr>) =
    map_option (rl_running_update (\<lambda>_. False)) (link_run env (replicate n Daemon_reads) l)"
  using assms
proof (induction n arbitrary: l)
  case (Suc n)
  obtain l1 where "link_step env Daemon_reads l = Some l1" "link_inv env p0 calls as l1"
    using daemon_reads_inv [OF Suc.prems] by blast
  then show ?case
    using Suc.IH [of l1] daemon_reads_stopped [OF link_invD(1) [OF Suc.prems], of env] by (simp del: link_step.simps)
qed simp

lemma fail_calls_eq:
  "\<not> rl_freed l \<Longrightarrow> fail_calls e ms l = Some (l\<lparr>rl_pending := fold AList.delete (map fst ms) (rl_pending l),
     rl_emitted := rl_emitted l @ map (\<lambda>_. Plugin_error e) ms\<rparr>)"
  by (induction e ms l rule: fail_calls.induct) (simp_all add: async_cb_eq)

lemma delete_all: "fold AList.delete (map fst t) t = []"
proof -
  have "fold AList.delete ks t = filter (\<lambda>x. fst x \<notin> set ks) t" for ks and t :: "('a \<times> 'b) list"
    by (induction ks arbitrary: t) (auto simp: AList.delete_eq intro: filter_cong)
  then show ?thesis by (auto simp: filter_empty_conv)
qed

subsection \<open>The plugins of the repository\<close>

definition password_plugin_interface :: "unit plugin_interface" where
  "password_plugin_interface =
     \<lparr>pi_cancel = gsignond_password_plugin_cancel,
      pi_request_initial = gsignond_password_plugin_request_initial,
      pi_request = gsignond_password_plugin_request,
      pi_user_action_finished = gsignond_password_plugin_user_action_finished,
      pi_refresh = gsignond_password_plugin_refresh,
      pi_iterate = (\<lambda>p. ([], p))\<rparr>"

definition digest_plugin_interface :: "(string \<Rightarrow> string) \<Rightarrow> cstr \<Rightarrow> u32 \<Rightarrow> dictionary option plugin_interface" where
  "digest_plugin_interface md5 cnonce uninit =
     \<lparr>pi_cancel = gsignond_digest_plugin_cancel,
      pi_request_initial = gsignond_digest_plugin_request_initial md5 cnonce,
      pi_request = gsignond_digest_plugin_request,
      pi_user_action_finished = gsignond_digest_plugin_user_action_finished md5 cnonce uninit,
      pi_refresh = gsignond_digest_plugin_refresh,
      pi_iterate = (\<lambda>p. ([], p))\<rparr>"

lemmas interface_calls = gsignond_plugin_cancel_def gsignond_plugin_request_initial_def gsignond_plugin_request_def
  gsignond_plugin_user_action_finished_def gsignond_plugin_refresh_def

lemma set_fields_distinct:
  "keys_distinct d \<Longrightarrow> keys_distinct (snd (gsignond_dictionary_set_string d k s))"
  "keys_distinct d \<Longrightarrow> keys_distinct (snd (gsignond_dictionary_set_boolean d k b))"
  by (auto simp: gsignond_dictionary_set_string_def gsignond_dictionary_set_boolean_def gsignond_dictionary_set_def
      split: option.splits)

lemma set_data_distinct:
  "keys_distinct d \<Longrightarrow> keys_distinct (gsignond_session_data_set_username d s)"
  "keys_distinct d \<Longrightarrow> keys_distinct (gsignond_session_data_set_secret d s)"
  "keys_distinct d \<Longrightarrow> keys_distinct (gsignond_signonui_data_set_username d s)"
  "keys_distinct d \<Longrightarrow> keys_distinct (gsignond_signonui_data_set_query_username d b)"
  "keys_distinct d \<Longrightarrow> keys_distinct (gsignond_signonui_data_set_query_password d b)"
  "keys_distinct d \<Longrightarrow> keys_distinct (data_set_value d k s)"
  by (auto simp: gsignond_session_data_set_username_def gsignond_session_data_set_secret_def
      gsignond_signonui_data_set_username_def gsignond_signonui_data_set_query_username_def
      gsignond_signonui_data_set_query_password_def data_set_value_def set_fields_distinct)

lemma new_distinct: "keys_distinct gsignond_dictionary_new"
  by (simp add: gsignond_dictionary_new_def)

lemmas plugin_tables = set_fields_distinct set_data_distinct new_distinct

interpretation password_tables: table_plugin password_plugin_interface
proof
  fix c :: plugin_call and p :: unit
  show "call_ok c \<Longrightarrow> list_all signal_ok (fst (local_call password_plugin_interface c p))"
    by (cases c) (auto simp: interface_calls password_plugin_interface_def gsignond_password_plugin_cancel_def
        gsignond_password_plugin_request_initial_def gsignond_password_plugin_request_def
        gsignond_password_plugin_user_action_finished_def gsignond_password_plugin_refresh_def plugin_outcome_defs
        Let_def plugin_tables split: option.splits)
qed (simp add: password_plugin_interface_def)

lemma return_digest_tables: "signal_ok (digest_plugin_return_digest md5 cnonce username secret session_data)"
  by (simp add: digest_plugin_return_digest_def plugin_error_def Let_def plugin_tables split: option.split)

interpretation digest_tables: table_plugin "digest_plugin_interface md5 cnonce uninit" for md5 cnonce uninit
proof
  fix c :: plugin_call and p :: "dictionary option"
  show "call_ok c \<Longrightarrow> list_all signal_ok (fst (local_call (digest_plugin_interface md5 cnonce uninit) c p))"
    by (cases c) (auto simp: interface_calls digest_plugin_interface_def gsignond_digest_plugin_cancel_def
        gsignond_digest_plugin_request_initial_def gsignond_digest_plugin_request_def
        gsignond_digest_plugin_user_action_finished_def gsignond_digest_plugin_refresh_def plugin_outcome_defs
        return_digest_tables Let_def plugin_tables split: option.splits)
qed (simp add: digest_plugin_interface_def)

subsection \<open>Properties\<close>

text \<open>
  C22. A plugin in another process behaves as one in the same process. For every plugin that gives out hash tables
  and every interleaving of calls, the reading of the two pipes and the plugin's own activity: the plugin has
  carried out a first part of the calls, in order and with the arguments they were made with (a missing cache
  arrives as an empty one); the daemon has heard a first part of the signals this makes it emit, in
  order and unchanged but for the domains of errors, which are read in the numbering of the other process;
  and once both pipes are read, all of the calls and all of the signals.
\<close>

theorem remote_plugin_refines:
  assumes plugin: "table_plugin (re_plugin env)"
    and new: "gsignond_plugin_remote_new p0 (Some cpid) True stubborn = Inr l0"
    and es: "list_all live_event es" "list_all call_ok (client_calls es)"
  shows "\<exists>l acts signals p. link_run env es l0 = Some l \<and> plugin_run (re_plugin env) acts p0 = (signals, p) \<and>
     prefix (act_calls acts) (map arrives (client_calls es)) \<and> prefix (rl_emitted l) (map (heard env) signals) \<and>
     (\<exists>m n l' acts' signals' p'.
        link_run env (replicate m Child_reads @ replicate n Daemon_reads) l = Some l' \<and>
        plugin_run (re_plugin env) acts' p0 = (signals', p') \<and>
        act_calls acts' = map arrives (client_calls es) \<and> rl_emitted l' = map (heard env) signals')"
proof -
  obtain l acts where l: "link_run env es l0 = Some l" "link_inv env p0 (client_calls es) acts l"
    using table_plugin.live_run [OF plugin es(1) new_link_inv [OF new, of env] _ refl] es(2) by auto
  have first: "prefix (act_calls acts) (map arrives (client_calls es))"
      "prefix (rl_emitted l) (map (heard env) (fst (plugin_run (re_plugin env) acts p0)))"
    using link_invD(3,5) [OF l(2)] by (metis prefixI)+
  obtain l1 acts1 where l1: "link_run env (replicate (length (rl_calls l)) Child_reads) l = Some l1"
      "link_inv env p0 (client_calls es) acts1 l1" "rl_calls l1 = []"
    using table_plugin.drain_calls [OF plugin l(2) es(2) refl, of "length (rl_calls l)"] by auto
  obtain l2 where l2: "link_run env (replicate (length (rl_answers l1)) Daemon_reads) l1 = Some l2"
      "link_inv env p0 (client_calls es) acts1 l2" "rl_calls l2 = []" "rl_answers l2 = []"
    using drain_answers [OF l1(2), of "length (rl_answers l1)"] l1(3) by auto
  have "link_run env (replicate (length (rl_calls l)) Child_reads @ replicate (length (rl_answers l1)) Daemon_reads) l = Some l2"
    using l1(1) l2(1) by (simp add: link_run_append)
  then show ?thesis
    using l(1) first link_invD(3,5) [OF l2(2)] l2(3,4) by (metis append_Nil2 concat.simps(1) list.simps(8) surjective_pairing)
qed

text \<open>Once the connection of a dead child is closed and its answers are read, nothing is heard any more.\<close>

lemma settled_run:
  assumes "\<not> rl_running l" "rl_answers l = []" "rl_pending l = []" "client_calls fs = []"
  shows "\<exists>l'. link_run env fs l = Some l' \<and> rl_emitted l' = rl_emitted l"
  using assms
proof (induction fs arbitrary: l)
  case (Cons e fs)
  obtain l' where l': "link_step env e l = Some l'" "\<not> rl_running l'" "rl_answers l' = []" "rl_pending l' = []"
      "rl_emitted l' = rl_emitted l"
    using Cons.prems
    by (cases e; cases "rl_calls l")
       (auto simp: gsignond_plugin_remote_dispose_def check_child_exited_def on_child_down_cb_def Let_def)
  moreover have "client_calls fs = []" using Cons.prems(4) by (cases e) simp_all
  ultimately show ?case using Cons.IH [of l'] by (simp del: link_step.simps)
qed simp

lemma new_link_unread:
  "gsignond_plugin_remote_new p0 (Some cpid) True stubborn = Inr l \<Longrightarrow> unread_calls l = []"
  by (auto simp: gsignond_plugin_remote_new_def gsignond_plugin_remote_init_def unread_calls_def)


subsection \<open>Examples\<close>

definition example_link_env :: "unit remote_env" where
  "example_link_env = \<lparr>re_plugin = password_plugin_interface, re_quark_from_string = (\<lambda>_. 7),
     re_quark_to_string = (\<lambda>_. ''gsignond''),
     re_closed = gsignond_get_gerror_for_id GSIGNOND_ERROR_INTERNAL_COMMUNICATION ''closed'',
     re_timeout = gsignond_get_gerror_for_id GSIGNOND_ERROR_INTERNAL_COMMUNICATION ''timeout''\<rparr>"

theorem remote_plugin_refines_witness:
  "\<exists>l0 l l' m n. gsignond_plugin_remote_new () (Some 17) True False = Inr l0 \<and>
     link_run example_link_env [Client_calls Cancel, Client_calls (Refresh [(''Caption'', VString ''x'')])] l0 = Some l \<and>
     link_run example_link_env (replicate m Child_reads @ replicate n Daemon_reads) l = Some l' \<and>
     rl_emitted l' = [session_canceled ''Session canceled'', Refreshed [(''Caption'', VString ''x'')]]"
proof -
  let ?es = "[Client_calls Cancel, Client_calls (Refresh [(''Caption'', VString ''x'')])]"
  obtain l0 :: "unit plugin_link" where new: "gsignond_plugin_remote_new () (Some 17) True False = Inr l0"
    by (simp add: gsignond_plugin_remote_new_def Let_def)
  have plugin: "table_plugin (re_plugin example_link_env)"
    using password_tables.table_plugin_axioms by (simp add: example_link_env_def)
  have "list_all live_event ?es" "list_all call_ok (client_calls ?es)"
    by simp_all
  from remote_plugin_refines [OF plugin new this] obtain l m n l' acts signals p where run:
    "link_run example_link_env ?es l0 = Some l"
    "link_run example_link_env (replicate m Child_reads @ replicate n Daemon_reads) l = Some l'"
    "plugin_run (re_plugin example_link_env) acts () = (signals, p)"
    "act_calls acts = map arrives (client_calls ?es)" "rl_emitted l' = map (heard example_link_env) signals"
    by blast
  have "fst (plugin_run password_plugin_interface as p) =
      fst (plugin_run password_plugin_interface (map Act_call (act_calls as)) p)" for as and p :: unit
    by (induction as rule: act_calls.induct) (simp_all add: password_plugin_interface_def)
  from this [of acts "()"] have
    "signals = [session_canceled ''Session canceled'', Refreshed [(''Caption'', VString ''x'')]]"
    using run(3,4) by (simp add: example_link_env_def password_plugin_interface_def interface_calls
        gsignond_password_plugin_cancel_def gsignond_password_plugin_refresh_def)
  then have "rl_emitted l' = [session_canceled ''Session canceled'', Refreshed [(''Caption'', VString ''x'')]]"
    using run(5) by (simp add: example_link_env_def session_canceled_def gsignond_get_gerror_for_id_def
        GSIGNOND_ERROR_DOMAIN_def)
  then show ?thesis using new run(1,2) by blast
qed

text \<open>A request that the child has read when it ends is not answered.\<close>

definition silent_interface :: "unit plugin_interface" where
  "silent_interface = password_plugin_interface\<lparr>pi_request_initial := \<lambda>session_data cache mechanism p. ([], p)\<rparr>"

lemma silent_tables: "table_plugin silent_interface"
proof
  fix c :: plugin_call and p :: unit
  show "call_ok c \<Longrightarrow> list_all signal_ok (fst (local_call silent_interface c p))"
    using password_tables.call_tables [of c p] by (cases c) (simp_all add: silent_interface_def interface_calls)
qed (simp add: silent_interface_def password_plugin_interface_def)


text \<open>The callbacks of calls keep no reference: a call that ends after the object was freed uses it.\<close>

lemma disposed_during_call:
  assumes "gsignond_plugin_remote_new p0 (Some cpid) True stubborn = Inr l0" "0 < cpid"
  shows "link_run env [Client_calls c, Disposed b, Connection_closed] l0 = None"
proof -
  have l0: "\<not> rl_freed l0" "rl_calls l0 = []" "rl_answers l0 = []" "rl_pending l0 = []" "rl_cpid l0 = cpid" "rl_is_plugind_up l0" "rl_running l0"
    using assms(1) by (auto simp: gsignond_plugin_remote_new_def gsignond_plugin_remote_init_def)
  have "async_cb m error l = None" if "rl_freed l" for m error and l :: "'a plugin_link"
    using that by (cases m) (simp_all add: cancel_async_cb_def request_initial_async_cb_def request_async_cb_def
        user_action_finished_async_cb_def refresh_async_cb_def)
  then show ?thesis
    using l0 assms(2) by (simp add: plugin_remote_call_eq call_async_def gsignond_plugin_remote_dispose_def
        check_child_exited_def on_child_down_cb_def Let_def)
qed

end
