(* ===== verification/Gsso_Dbus_Auth_Session.thy ===== *)
theory Gsso_Dbus_Auth_Session
  imports Gsso_Auth_Session Gsso_Disposable Gsso_Error
begin

text \<open>
  \<^verbatim>\<open>src/src/daemon/dbus/gsignond-dbus-auth-session-adapter.c\<close>: the objects on the bus through which
  an application uses a session. The state is that of the sessions of one method (an \<open>auth_world\<close>), the
  adapters by number, and the infos (\<^verbatim>\<open>_AuthSessionDbusInfo\<close>) of the process calls that are not answered.
  An invocation is a number; \<open>sb_out\<close> holds what is sent on the bus.

  The callbacks that a call of a session makes are run right after it, in order. They change neither
  the sessions nor the proxy.
\<close>

text \<open>The sender of a message on a bus, or the socket of a peer-to-peer connection.\<close>

datatype bus_peer = Bus_name string | Socket int

record session_adapter =
  ta_disposable :: disposable
  ta_session :: session_id
  ta_app_context :: cstr
  ta_active :: bool
  ta_ctx :: security_context
  ta_path :: string

record session_info =
  di_adapter :: nat
  di_invocation :: nat

datatype session_message =
    Mechanisms_reply nat "string list"
  | Process_reply nat gvariant
  | Cancel_reply nat
  | Error_reply nat gerror
  | State_changed_signal nat plugin_state string
  | Unregistered_signal nat

datatype bus_fault = Session_fault fault | Freed_info | Bad_format | Array_overrun

record session_bus =
  sb_world :: auth_world
  sb_adapters :: "(nat \<times> session_adapter) list"
  sb_infos :: "(nat \<times> session_info) list"
  sb_next :: nat
  sb_out :: "session_message list"

definition send :: "session_message \<Rightarrow> session_bus \<Rightarrow> session_bus" where
  "send msg b = b\<lparr>sb_out := sb_out b @ [msg]\<rparr>"

definition on_adapter :: "nat \<Rightarrow> (session_adapter \<Rightarrow> session_adapter) \<Rightarrow> session_bus \<Rightarrow> session_bus" where
  "on_adapter n f b = b\<lparr>sb_adapters := AList.map_entry n f (sb_adapters b)\<rparr>"

definition set_auto_dispose :: "bool \<Rightarrow> session_adapter \<Rightarrow> session_adapter" where
  "set_auto_dispose dispose self =
     self\<lparr>ta_disposable := gsignond_disposable_set_auto_dispose (ta_disposable self) dispose\<rparr>"

definition prepare_security_context :: "acm \<Rightarrow> bus_peer \<Rightarrow> session_adapter \<Rightarrow> session_adapter" where
  "prepare_security_context m peer self =
     (let sender = (case peer of Bus_name name \<Rightarrow> Some name | Socket s \<Rightarrow> None);
          fd = (case peer of Bus_name name \<Rightarrow> -1 | Socket s \<Rightarrow> s)
      in self\<lparr>ta_ctx := gsignond_access_control_manager_security_context_of_peer m (ta_ctx self) fd sender
           (ta_app_context self)\<rparr>)"

subsection \<open>The callbacks of a process call\<close>

text \<open>
  What \<^verbatim>\<open>g_error_new\<close> makes of a message that is used as its format, with NULL as the only argument;
  \<open>None\<close>: it reads an argument that is not there or is of another type.
\<close>

fun format_null :: "bool \<Rightarrow> string \<Rightarrow> string option" where
  "format_null used [] = Some []"
| "format_null used (c # cs) =
     (if c \<noteq> CHR ''%'' then map_option ((#) c) (format_null used cs)
      else case cs of
        [] \<Rightarrow> None
      | d # ds \<Rightarrow>
          if d = CHR ''%'' then map_option ((#) d) (format_null used ds)
          else if d = CHR ''s'' \<and> \<not> used then map_option ((@) ''(null)'') (format_null True ds)
          else None)"

definition auth_session_dbus_info_free :: "nat \<Rightarrow> session_bus \<Rightarrow> session_bus" where
  "auth_session_dbus_info_free info b = b\<lparr>sb_infos := AList.delete info (sb_infos b)\<rparr>"

definition emit_state_changed ::
  "plugin_state \<Rightarrow> string \<Rightarrow> nat \<Rightarrow> session_bus \<Rightarrow> bus_fault + session_bus" where
  "emit_state_changed state message user_data b =
     (case map_of (sb_infos b) user_data of
        None \<Rightarrow> Inl Freed_info
      | Some info \<Rightarrow> Inr (send (State_changed_signal (di_adapter info) state message) b))"

definition process_answer :: "nat \<Rightarrow> gerror + dictionary \<Rightarrow> session_message option" where
  "process_answer invocation answer =
     (case answer of
        Inl error \<Rightarrow> map_option
          (\<lambda>message. Error_reply invocation \<lparr>err_domain = GSIGNOND_ERROR_DOMAIN, err_code = err_code error,
             err_message = message\<rparr>)
          (format_null False (err_message error))
      | Inr reply \<Rightarrow> Some (Process_reply invocation (gsignond_dictionary_to_variant reply)))"

definition on_process_done ::
  "gerror + dictionary \<Rightarrow> nat \<Rightarrow> session_bus \<Rightarrow> bus_fault + session_bus" where
  "on_process_done answer user_data b =
     (case map_of (sb_infos b) user_data of
        None \<Rightarrow> Inl Freed_info
      | Some info \<Rightarrow>
          (case map_of (sb_adapters b) (di_adapter info) of
             None \<Rightarrow> Inl Freed_info
           | Some self \<Rightarrow>
               (case (if ta_active self then
                        map_option (\<lambda>msg. send msg (on_adapter (di_adapter info) (ta_active_update (\<lambda>_. False)) b))
                          (process_answer (di_invocation info) answer)
                      else Some b) of
                  None \<Rightarrow> Inl Bad_format
                | Some b \<Rightarrow> Inr (auth_session_dbus_info_free user_data
                    (on_adapter (di_adapter info) (set_auto_dispose True) b)))))"

fun run_client_events :: "client_event list \<Rightarrow> session_bus \<Rightarrow> bus_fault + session_bus" where
  "run_client_events [] b = Inr b"
| "run_client_events (e # es) b =
     (case (case e of
              Ready_result reply u \<Rightarrow> on_process_done (Inr reply) u b
            | Ready_error error u \<Rightarrow> on_process_done (Inl error) u b
            | State_change state message u \<Rightarrow> emit_state_changed state message u b
            | _ \<Rightarrow> Inr b) of
        Inl f \<Rightarrow> Inl f
      | Inr b \<Rightarrow> run_client_events es b)"

text \<open>A call of a session, with the callbacks it makes.\<close>

definition call_session ::
  "(auth_world \<Rightarrow> fault + 'a \<times> auth_world) \<Rightarrow> session_bus \<Rightarrow> bus_fault + 'a \<times> session_bus" where
  "call_session f b =
     (case f (sb_world b) of
        Inl fl \<Rightarrow> Inl (Session_fault fl)
      | Inr (r, w) \<Rightarrow>
          map_sum id (Pair r)
            (run_client_events (drop (length (w_out (sb_world b))) (w_out w)) (b\<lparr>sb_world := w\<rparr>)))"

subsection \<open>The methods\<close>

definition handle_query_available_mechanisms ::
  "acm \<Rightarrow> string list option \<Rightarrow> nat \<Rightarrow> nat \<Rightarrow> bus_peer \<Rightarrow> string list \<Rightarrow> session_bus \<Rightarrow> bus_fault + session_bus" where
  "handle_query_available_mechanisms m mechs n invocation peer wanted_mechanisms b =
     (case map_of (sb_adapters b) n of
        None \<Rightarrow> Inr b
      | Some self \<Rightarrow>
          let self = prepare_security_context m peer (set_auto_dispose False self);
              b = on_adapter n (\<lambda>_. self) b
          in (case map_of (w_sessions (sb_world b)) (ta_session self) of
                None \<Rightarrow> Inr (on_adapter n (set_auto_dispose True) (send (Error_reply invocation
                  (gsignond_get_gerror_for_id GSIGNOND_ERROR_UNKNOWN ''Unknown error'')) b))
              | Some session \<Rightarrow>
                  (case gsignond_auth_session_query_available_mechanisms m mechs session wanted_mechanisms
                      (Some (ta_ctx self)) of
                     None \<Rightarrow> Inl Array_overrun
                   | Some (r, session) \<Rightarrow>
                       let w = sb_world b;
                           b = b\<lparr>sb_world := w\<lparr>w_sessions := AList.update (ta_session self) session (w_sessions w)\<rparr>\<rparr>;
                           b = (case r of
                                  Inr mechanisms \<Rightarrow> send (Mechanisms_reply invocation mechanisms) b
                                | Inl error \<Rightarrow> send (Error_reply invocation error) b)
                       in Inr (on_adapter n (set_auto_dispose True) b))))"

definition handle_process ::
  "acm \<Rightarrow> string list option \<Rightarrow> nat \<Rightarrow> nat \<Rightarrow> bus_peer \<Rightarrow> gvariant \<Rightarrow> string \<Rightarrow> session_bus \<Rightarrow> bus_fault + session_bus" where
  "handle_process m mechs n invocation peer session_data mechanism b =
     (case map_of (sb_adapters b) n of
        None \<Rightarrow> Inr b
      | Some self \<Rightarrow>
          let self = prepare_security_context m peer (set_auto_dispose False self);
              data = the (gsignond_dictionary_new_from_variant (Some session_data));
              info = sb_next b;
              self = self\<lparr>ta_active := True\<rparr>;
              b = (on_adapter n (\<lambda>_. self) b)
                    \<lparr>sb_infos := (info, \<lparr>di_adapter = n, di_invocation = invocation\<rparr>) # sb_infos b,
                     sb_next := info + 1\<rparr>
          in (case call_session (gsignond_auth_session_process m mechs (ta_session self) data mechanism
                  (Some (ta_ctx self)) \<lparr>ready_cb = True, state_change_cb = True, cb_userdata = info\<rparr>) b of
                Inl f \<Rightarrow> Inl f
              | Inr (Inr _, b) \<Rightarrow> Inr b
              | Inr (Inl error, b) \<Rightarrow>
                  Inr (on_adapter n (\<lambda>self. set_auto_dispose True (self\<lparr>ta_active := False\<rparr>))
                    (auth_session_dbus_info_free info (send (Error_reply invocation error) b)))))"

definition handle_cancel ::
  "acm \<Rightarrow> nat \<Rightarrow> nat \<Rightarrow> bus_peer \<Rightarrow> session_bus \<Rightarrow> bus_fault + session_bus" where
  "handle_cancel m n invocation peer b =
     (case map_of (sb_adapters b) n of
        None \<Rightarrow> Inr b
      | Some self \<Rightarrow>
          let self = prepare_security_context m peer (set_auto_dispose False self);
              b = on_adapter n (\<lambda>_. self) b
          in (case call_session (gsignond_auth_session_cancel m (ta_session self) (Some (ta_ctx self))) b of
                Inl f \<Rightarrow> Inl f
              | Inr (r, b) \<Rightarrow>
                  let b = (case r of
                             Inr _ \<Rightarrow> send (Cancel_reply invocation) b
                           | Inl error \<Rightarrow> send (Error_reply invocation error) b)
                  in Inr (on_adapter n (set_auto_dispose True) b)))"

definition gsignond_dbus_auth_session_adapter_is_process_active :: "session_adapter \<Rightarrow> bool" where
  "gsignond_dbus_auth_session_adapter_is_process_active self = ta_active self"

definition gsignond_dbus_auth_session_adapter_get_object_path :: "session_adapter \<Rightarrow> string" where
  "gsignond_dbus_auth_session_adapter_get_object_path self = ta_path self"

definition gsignond_dbus_auth_session_adapter_abort_process :: "nat \<Rightarrow> session_bus \<Rightarrow> bus_fault + session_bus" where
  "gsignond_dbus_auth_session_adapter_abort_process n b =
     (case map_of (sb_adapters b) n of
        None \<Rightarrow> Inr b
      | Some self \<Rightarrow>
          if ta_active self then
            map_sum id (\<lambda>r. on_adapter n (ta_active_update (\<lambda>_. False)) (snd r))
              (call_session (map_sum id (Pair ()) \<circ> gsignond_auth_session_abort_process (ta_session self)) b)
          else Inr b)"

subsection \<open>The life of an adapter\<close>

definition GSIGNOND_DAEMON_OBJECTPATH :: string where
  "GSIGNOND_DAEMON_OBJECTPATH = ''/com/google/code/AccountsSSO/gSingleSignOn''"

definition gsignond_dbus_auth_session_adapter_init :: "session_id \<Rightarrow> cstr \<Rightarrow> session_adapter" where
  "gsignond_dbus_auth_session_adapter_init session app_context =
     \<lparr>ta_disposable = gsignond_disposable_init, ta_session = session, ta_app_context = app_context,
      ta_active = False, ta_ctx = gsignond_security_context_new, ta_path = ''''\<rparr>"

text \<open>
  \<open>exported\<close>: whether the object can be registered under its path; the nonce is what
  \<^verbatim>\<open>gsignond_generate_nonce\<close> returns; the counter is a static variable.
\<close>

definition gsignond_dbus_auth_session_adapter_new_with_connection ::
  "cstr \<Rightarrow> (string \<Rightarrow> bool) \<Rightarrow> session_id \<Rightarrow> cstr \<Rightarrow> u32 \<Rightarrow> u32 \<Rightarrow> session_adapter option \<times> u32" where
  "gsignond_dbus_auth_session_adapter_new_with_connection nonce exported session app_context secs object_counter =
     (let adapter = gsignond_dbus_auth_session_adapter_init session app_context;
          object_path = GSIGNOND_DAEMON_OBJECTPATH @ ''/AuthSession_'' @ print_string nonce @ ''_'' @
            print_int object_counter
      in (if \<not> exported object_path then None
          else Some (adapter\<lparr>ta_path := object_path,
                 ta_disposable := gsignond_disposable_set_timeout (ta_disposable adapter) secs\<rparr>),
          object_counter + 1))"

definition session_adapter_dispose :: "nat \<Rightarrow> session_bus \<Rightarrow> bus_fault + session_bus" where
  "session_adapter_dispose n b =
     (case gsignond_dbus_auth_session_adapter_abort_process n b of
        Inl f \<Rightarrow> Inl f
      | Inr b \<Rightarrow> Inr ((send (Unregistered_signal n) b)\<lparr>sb_adapters := AList.delete n (sb_adapters b)\<rparr>))"

text \<open>The main loop fires a source of an adapter, which drops the reference; no other one is left then.\<close>

definition fire_adapter :: "nat \<Rightarrow> nat \<Rightarrow> session_bus \<Rightarrow> bus_fault + session_bus" where
  "fire_adapter n i b =
     (case map_of (sb_adapters b) n of
        None \<Rightarrow> Inr b
      | Some self \<Rightarrow>
          let d = dispatch_source i (ta_disposable self);
              b = on_adapter n (ta_disposable_update (\<lambda>_. d)) b
          in if unrefs d = 0 then Inr b else session_adapter_dispose n b)"

end
