(* ===== verification/Gsso_Dbus_Session_Calls.thy ===== *)
theory Gsso_Dbus_Session_Calls
  imports Gsso_Dbus_Auth_Session
begin

text \<open>
  The calls of a session over the bus, followed from the invocation to the answer. The invariant relates
  the process data of the sessions, the infos of the calls that wait, and the counter that keeps an
  adapter alive; \<open>tracks\<close> is what a step of the sessions does to it through its callbacks.
\<close>

subsection \<open>Runs\<close>

text \<open>The calls of an adapter that wait for their answer, and how often a call was answered.\<close>

definition waiting :: "session_bus \<Rightarrow> nat list" where
  "waiting b = map (\<lambda>p. di_invocation (snd p)) (sb_infos b)"

definition waiting_of :: "nat \<Rightarrow> session_bus \<Rightarrow> nat list" where
  "waiting_of n b = map (\<lambda>p. di_invocation (snd p)) (filter (\<lambda>p. di_adapter (snd p) = n) (sb_infos b))"

fun answered_call :: "session_message \<Rightarrow> nat option" where
  "answered_call (Mechanisms_reply k _) = Some k"
| "answered_call (Process_reply k _) = Some k"
| "answered_call (Cancel_reply k) = Some k"
| "answered_call (Error_reply k _) = Some k"
| "answered_call _ = None"

definition replies :: "nat \<Rightarrow> session_bus \<Rightarrow> nat" where
  "replies k b = length (filter (\<lambda>msg. answered_call msg = Some k) (sb_out b))"

text \<open>
  The invariant, in the middle of a method of the adapter \<open>busy\<close> if there is one: \<open>calls\<close> are the
  calls that were made, \<open>given_up\<close> those whose session was aborted, \<open>heap\<close> is the process data of
  the sessions.
\<close>

definition callbacks_ok :: "(userdata \<times> process_callbacks) list \<Rightarrow> session_bus \<Rightarrow> bool" where
  "callbacks_ok heap b \<longleftrightarrow>
     distinct (map fst heap) \<and> distinct (map fst (sb_infos b)) \<and> (\<forall>i \<in> fst ` set (sb_infos b). i < sb_next b) \<and>
     mset (map (\<lambda>p. cb_userdata (snd p)) heap) = mset (map fst (sb_infos b)) \<and>
     (\<forall>p \<in> set heap. ready_cb (snd p) \<and> state_change_cb (snd p))"

definition adapter_counts :: "nat list \<Rightarrow> nat option \<Rightarrow> nat \<Rightarrow> nat list \<Rightarrow> session_adapter \<Rightarrow> bool" where
  "adapter_counts given_up busy n calls a \<longleftrightarrow>
     (\<exists>t. disposable_run t (ta_disposable a)) \<and> unrefs (ta_disposable a) = 0 \<and>
     keep_obj_counter (ta_disposable a) = of_nat (length calls + (if busy = Some n then 1 else 0)) \<and>
     length calls \<le> 1 \<and> (ta_active a \<longleftrightarrow> \<not> set calls \<subseteq> set given_up)"

definition bus_ok ::
  "nat list \<Rightarrow> nat list \<Rightarrow> nat option \<Rightarrow> (userdata \<times> process_callbacks) list \<Rightarrow> session_bus \<Rightarrow> bool" where
  "bus_ok calls given_up busy heap b \<longleftrightarrow>
     callbacks_ok heap b \<and> distinct (map fst (sb_adapters b)) \<and>
     (\<forall>p \<in> set (sb_infos b). di_adapter (snd p) \<in> fst ` set (sb_adapters b)) \<and>
     (\<forall>n a. map_of (sb_adapters b) n = Some a \<longrightarrow> adapter_counts given_up busy n (waiting_of n b) a) \<and>
     distinct (waiting b) \<and> set (waiting b) \<union> set given_up \<subseteq> set calls \<and>
     (\<forall>k. replies k b = (if k \<in> set calls - set given_up - set (waiting b) then 1 else 0))"

lemma bus_simps [simp]:
  "sb_world (send msg b) = sb_world b" "sb_infos (send msg b) = sb_infos b" "sb_next (send msg b) = sb_next b"
  "sb_adapters (send msg b) = sb_adapters b" "sb_out (send msg b) = sb_out b @ [msg]"
  "sb_world (on_adapter n g b) = sb_world b" "sb_infos (on_adapter n g b) = sb_infos b"
  "sb_next (on_adapter n g b) = sb_next b" "sb_out (on_adapter n g b) = sb_out b"
  "sb_adapters (on_adapter n g b) = AList.map_entry n g (sb_adapters b)"
  "sb_world (auth_session_dbus_info_free i b) = sb_world b" "sb_next (auth_session_dbus_info_free i b) = sb_next b"
  "sb_adapters (auth_session_dbus_info_free i b) = sb_adapters b" "sb_out (auth_session_dbus_info_free i b) = sb_out b"
  "sb_infos (auth_session_dbus_info_free i b) = AList.delete i (sb_infos b)"
  by (simp_all add: send_def on_adapter_def auth_session_dbus_info_free_def)

text \<open>A view of the state that the handlers change only in part.\<close>

lemma bus_ok_cong:
  assumes "bus_ok c x busy heap b" "sb_infos b' = sb_infos b" "sb_next b \<le> sb_next b'" "sb_out b' = sb_out b"
    "sb_adapters b' = sb_adapters b"
  shows "bus_ok c x busy heap b'"
proof -
  have "waiting b' = waiting b" "\<And>n. waiting_of n b' = waiting_of n b" "\<And>k. replies k b' = replies k b"
    using assms(2-) by (simp_all add: waiting_def waiting_of_def replies_def)
  moreover have "callbacks_ok heap b'"
    using assms by (auto simp: bus_ok_def callbacks_ok_def)
  ultimately show ?thesis
    using assms unfolding bus_ok_def by simp
qed

lemma delete_split:
  assumes "distinct (map fst l)" "map_of l u = Some v"
  obtains xs ys where "l = xs @ (u, v) # ys" "AList.delete u l = xs @ ys"
proof -
  obtain xs ys where l: "l = xs @ (u, v) # ys"
    using map_of_SomeD [OF assms(2)] by (meson split_list)
  with assms(1) have "u \<notin> fst ` set xs" "u \<notin> fst ` set ys"
    by auto
  moreover have "AList.delete u zs = zs" if "u \<notin> fst ` set zs" for zs :: "('a \<times> 'b) list"
    using that by (induction zs) auto
  ultimately have "AList.delete u l = xs @ ys"
    unfolding l by (simp add: AList.delete_eq)
  with l that show thesis by blast
qed

subsection \<open>Holding and releasing an adapter\<close>

lemma counts_held:
  assumes "adapter_counts x None n calls a"
  shows "adapter_counts x (Some n) n calls (set_auto_dispose False a)"
  using assms run_hold_release [of _ "ta_disposable a" False]
  by (auto simp: adapter_counts_def set_auto_dispose_def set_auto_dispose_counter)

lemma counts_released:
  assumes "adapter_counts x (Some n) n calls a"
  shows "adapter_counts x None n calls (set_auto_dispose True a)"
proof -
  have "length calls + 1 \<le> 2"
    using assms by (simp add: adapter_counts_def)
  from small_count [OF this] have "1 + of_nat (length calls) \<noteq> (0 :: 32 word)"
    by simp
  then show ?thesis
    using assms run_hold_release [of _ "ta_disposable a" True]
    by (auto simp: adapter_counts_def set_auto_dispose_def set_auto_dispose_counter)
qed

lemma counts_other: "busy \<noteq> Some n \<Longrightarrow> adapter_counts x busy n = adapter_counts x None n"
  by (simp add: adapter_counts_def fun_eq_iff)

subsection \<open>The answer to a call\<close>

fun plain_answer :: "gerror + dictionary \<Rightarrow> bool" where
  "plain_answer (Inl error) = (format_null False (err_message error) \<noteq> None)"
| "plain_answer (Inr reply) = True"

lemma process_answer_plain:
  assumes "plain_answer answer"
  obtains msg where "process_answer k answer = Some msg" "answered_call msg = Some k"
  using assms by (cases answer) (auto simp: process_answer_def)

lemma counts_answered:
  assumes "adapter_counts x busy n [k] a"
  shows "adapter_counts x busy n [] (set_auto_dispose True (a\<lparr>ta_active := False\<rparr>))"
proof -
  have "keep_obj_counter (ta_disposable a) \<noteq> 0"
    using assms by (auto simp: adapter_counts_def)
  with assms show ?thesis
    using run_hold_release [of _ "ta_disposable a" True]
    by (auto simp: adapter_counts_def set_auto_dispose_def set_auto_dispose_counter)
qed

lemma callbacks_delete:
  assumes "callbacks_ok heap b" "map_of heap p = Some cb" "sb_infos b' = AList.delete (cb_userdata cb) (sb_infos b)"
    "sb_next b' = sb_next b"
  shows "callbacks_ok (AList.delete p heap) b'"
proof -
  have d: "distinct (map fst heap)" "distinct (map fst (sb_infos b))"
    using assms(1) by (simp_all add: callbacks_ok_def)
  obtain h1 h2 where h: "heap = h1 @ (p, cb) # h2" "AList.delete p heap = h1 @ h2"
    using delete_split [OF d(1) assms(2)] .
  have same: "mset (map (\<lambda>p. cb_userdata (snd p)) heap) = mset (map fst (sb_infos b))"
    using assms(1) by (simp add: callbacks_ok_def)
  have "cb_userdata cb \<in># mset (map (\<lambda>p. cb_userdata (snd p)) heap)"
    by (simp add: h(1))
  then have "cb_userdata cb \<in> fst ` set (sb_infos b)"
    unfolding same by simp
  from map_of_SomeI [OF this] obtain info where "map_of (sb_infos b) (cb_userdata cb) = Some info"
    by blast
  then obtain i1 i2 where i: "sb_infos b = i1 @ (cb_userdata cb, info) # i2" "sb_infos b' = i1 @ i2"
    using delete_split [OF d(2)] assms(3) by metis
  have "mset (map (\<lambda>p. cb_userdata (snd p)) (h1 @ h2)) = mset (map fst (i1 @ i2))"
    using same by (simp add: h(1) i(1))
  moreover have "\<forall>j \<in> fst ` set (i1 @ i2). j < sb_next b'"
      "\<forall>q \<in> set (h1 @ h2). ready_cb (snd q) \<and> state_change_cb (snd q)"
    using assms(1,4) by (simp_all add: callbacks_ok_def h(1) i(1) ball_Un)
  moreover have "distinct (map fst (h1 @ h2))" "distinct (map fst (i1 @ i2))"
    using d by (simp_all add: h(1) i(1))
  ultimately show ?thesis
    by (simp add: callbacks_ok_def h(2) i(2))
qed

lemma process_done_ok:
  assumes ok: "bus_ok c x busy heap b" and p: "map_of heap p = Some cb" and answer: "plain_answer answer"
  shows "\<exists>b'. on_process_done answer (cb_userdata cb) b = Inr b' \<and> bus_ok c x busy (AList.delete p heap) b' \<and>
    sb_world b' = sb_world b"
proof -
  have cok: "callbacks_ok heap b" and dist: "distinct (waiting b)" and sub: "set (waiting b) \<union> set x \<subseteq> set c"
    and homes: "\<forall>q \<in> set (sb_infos b). di_adapter (snd q) \<in> fst ` set (sb_adapters b)"
    and keys: "distinct (map fst (sb_adapters b))"
    and each: "\<And>m a. map_of (sb_adapters b) m = Some a \<Longrightarrow> adapter_counts x busy m (waiting_of m b) a"
    and repl: "\<And>j. replies j b = (if j \<in> set c - set x - set (waiting b) then 1 else 0)"
    using ok by (simp_all add: bus_ok_def)
  have "cb_userdata cb \<in> set (map (\<lambda>p. cb_userdata (snd p)) heap)"
    using map_of_SomeD [OF p] by force
  then have "cb_userdata cb \<in> set (map fst (sb_infos b))"
    using cok unfolding callbacks_ok_def by (metis set_mset_mset)
  then obtain info where info: "map_of (sb_infos b) (cb_userdata cb) = Some info"
    using map_of_SomeI by (metis list.set_map)
  obtain i1 i2 where i: "sb_infos b = i1 @ (cb_userdata cb, info) # i2"
      "AList.delete (cb_userdata cb) (sb_infos b) = i1 @ i2"
    using delete_split [OF _ info] cok unfolding callbacks_ok_def by blast
  let ?n = "di_adapter info" and ?k = "di_invocation info"
  have "?n \<in> fst ` set (sb_adapters b)"
    using homes i(1) by auto
  then obtain a where a: "map_of (sb_adapters b) ?n = Some a"
    using map_of_SomeI by metis
  then have counts: "adapter_counts x busy ?n (waiting_of ?n b) a"
    by (rule each)
  then have "length (waiting_of ?n b) \<le> 1"
    by (simp add: adapter_counts_def)
  then have none: "filter (\<lambda>q. di_adapter (snd q) = ?n) (i1 @ i2) = []" and w: "waiting_of ?n b = [?k]"
    using i(1) by (auto simp: waiting_of_def)
  obtain msg where msg: "process_answer ?k answer = Some msg" "answered_call msg = Some ?k"
    using process_answer_plain [OF answer] .
  let ?g = "\<lambda>a. set_auto_dispose True (a\<lparr>ta_active := False\<rparr>)"
  define b' where "b' = auth_session_dbus_info_free (cb_userdata cb) (on_adapter ?n ?g (if ta_active a then send msg b else b))"
  have adapters: "sb_adapters b' = AList.map_entry ?n ?g (sb_adapters b)" and infos: "sb_infos b' = i1 @ i2"
    by (simp_all add: b'_def i(2))
  have same: "a\<lparr>ta_active := False\<rparr> = a" if "\<not> ta_active a"
    using that by simp
  have inactive: "AList.map_entry ?n (set_auto_dispose True) (sb_adapters b) = AList.map_entry ?n ?g (sb_adapters b)"
    if "\<not> ta_active a"
  proof -
    have "AList.map_entry k (set_auto_dispose True) l = AList.map_entry k ?g l" if "map_of l k = Some a" for l k
      using that \<open>\<not> ta_active a\<close> by (induction l) (auto split: if_splits simp: same)
    from this [OF a] show ?thesis .
  qed
  have returns: "on_process_done answer (cb_userdata cb) b = Inr b'"
    using inactive by (simp add: on_process_done_def info a msg(1) b'_def)
  have k: "?k \<notin> set (waiting b')" "set (waiting b) = insert ?k (set (waiting b'))" "distinct (waiting b')"
    using dist by (auto simp: waiting_def i(1) infos)
  have "waiting_of m b' = (if m = ?n then [] else waiting_of m b)" for m
    using none by (auto simp: waiting_of_def i(1) infos filter_empty_conv)
  then have all: "adapter_counts x busy m (waiting_of m b') a'" if "map_of (sb_adapters b') m = Some a'" for m a'
    using that each counts counts_answered [of x busy ?n ?k a] a
    by (auto simp: adapters map_of_map_entry w split: if_splits)
  have act: "ta_active a \<longleftrightarrow> ?k \<notin> set x"
    using counts by (simp add: adapter_counts_def w)
  have rep: "replies j b' = replies j b + (if j = ?k \<and> ta_active a then 1 else 0)" for j
    using msg(2) by (simp add: replies_def b'_def)
  have "replies j b' = (if j \<in> set c - set x - set (waiting b') then 1 else 0)" for j
  proof (cases "j = ?k")
    case True
    have "?k \<in> set c" using sub k(2) by auto
    with True k act show ?thesis by (auto simp: rep repl)
  next
    case False
    with k show ?thesis by (simp add: rep repl)
  qed
  moreover have "callbacks_ok (AList.delete p heap) b'"
    by (rule callbacks_delete [OF cok p]) (simp_all add: b'_def)
  ultimately have "bus_ok c x busy (AList.delete p heap) b'"
    using homes keys all k sub unfolding bus_ok_def by (simp add: adapters infos i(1))
  then show ?thesis
    using returns by (auto simp: b'_def)
qed

subsection \<open>The callbacks of a session call\<close>

lemma run_client_events_append:
  "run_client_events (xs @ ys) b = (case run_client_events xs b of Inl f \<Rightarrow> Inl f | Inr b \<Rightarrow> run_client_events ys b)"
  by (induction xs arbitrary: b) (auto split: sum.split)

text \<open>The sessions go from a state to another, and the callbacks made on the way keep the invariant.\<close>

definition tracks :: "auth_world \<Rightarrow> auth_world \<Rightarrow> bool" where
  "tracks w w' \<longleftrightarrow> (\<forall>c x busy b. bus_ok c x busy (w_heap w) b \<longrightarrow>
     (\<exists>outs b'. w_out w' = w_out w @ outs \<and> run_client_events outs b = Inr b' \<and>
        bus_ok c x busy (w_heap w') b' \<and> sb_world b' = sb_world b))"

lemma tracks_same: "w_out w' = w_out w \<Longrightarrow> w_heap w' = w_heap w \<Longrightarrow> tracks w w'"
  by (auto simp: tracks_def intro: exI [of _ "[]"])

lemma waiting_tracks_trans:
  assumes "tracks w w'" "tracks w' w''"
  shows "tracks w w''"
  unfolding tracks_def
proof (intro allI impI)
  fix c x busy b assume "bus_ok c x busy (w_heap w) b"
  with assms(1) obtain outs b' where 1: "w_out w' = w_out w @ outs" "run_client_events outs b = Inr b'"
      "bus_ok c x busy (w_heap w') b'" "sb_world b' = sb_world b"
    unfolding tracks_def by blast
  from assms(2) 1(3) obtain outs' b'' where 2: "w_out w'' = w_out w' @ outs'" "run_client_events outs' b' = Inr b''"
      "bus_ok c x busy (w_heap w'') b''" "sb_world b'' = sb_world b'"
    unfolding tracks_def by blast
  show "\<exists>outs b'. w_out w'' = w_out w @ outs \<and> run_client_events outs b = Inr b' \<and>
      bus_ok c x busy (w_heap w'') b' \<and> sb_world b' = sb_world b"
    by (rule exI [of _ "outs @ outs'"], rule exI [of _ b'']) (use 1 2 in \<open>simp add: run_client_events_append\<close>)
qed

lemma bus_ok_send:
  assumes "bus_ok c x busy heap b" "answered_call msg = None"
  shows "bus_ok c x busy heap (send msg b)"
proof -
  have "waiting (send msg b) = waiting b" "\<And>n. waiting_of n (send msg b) = waiting_of n b"
      "\<And>k. replies k (send msg b) = replies k b" "callbacks_ok heap (send msg b) = callbacks_ok heap b"
    using assms(2) by (simp_all add: waiting_def waiting_of_def replies_def callbacks_ok_def)
  with assms(1) show ?thesis
    by (simp add: bus_ok_def)
qed

lemma tracks_tell_signal:
  assumes "e \<in> {Sig_process_store s d, Sig_user_action_required s d, Sig_refreshed s d, Sig_process_canceled s}"
  shows "tracks w (tell e w)"
  using assms unfolding tracks_def tell_def by (auto intro!: exI [of _ "[e]"])

lemma tracks_answer:
  assumes p: "map_of (w_heap w) p = Some cb" and answer: "plain_answer answer"
    and e: "e = (case answer of Inl er \<Rightarrow> Ready_error er (cb_userdata cb) | Inr d \<Rightarrow> Ready_result d (cb_userdata cb))"
    and w': "w_heap w' = AList.delete p (w_heap w)" "w_out w' = (if ready_cb cb then w_out w @ [e] else w_out w)"
  shows "tracks w w'"
  unfolding tracks_def
proof (intro allI impI)
  fix c x busy b assume ok: "bus_ok c x busy (w_heap w) b"
  then have "ready_cb cb"
    using map_of_SomeD [OF p] by (auto simp: bus_ok_def callbacks_ok_def)
  with process_done_ok [OF ok p answer] show "\<exists>outs b'. w_out w' = w_out w @ outs \<and>
      run_client_events outs b = Inr b' \<and> bus_ok c x busy (w_heap w') b' \<and> sb_world b' = sb_world b"
    by (intro exI [of _ "[e]"]) (auto simp: w' e split: sum.split)
qed

lemma tracks_state_change:
  assumes p: "map_of (w_heap w) p = Some cb"
    and w': "w_heap w' = w_heap w"
      "w_out w' = (if state_change_cb cb then w_out w @ [State_change st msg (cb_userdata cb)] else w_out w)"
  shows "tracks w w'"
  unfolding tracks_def
proof (intro allI impI)
  fix c x busy b assume ok: "bus_ok c x busy (w_heap w) b"
  then have cok: "state_change_cb cb"
      "mset (map (\<lambda>p. cb_userdata (snd p)) (w_heap w)) = mset (map fst (sb_infos b))"
    using map_of_SomeD [OF p] by (auto simp: bus_ok_def callbacks_ok_def)
  have "cb_userdata cb \<in># mset (map (\<lambda>p. cb_userdata (snd p)) (w_heap w))"
    using map_of_SomeD [OF p] by force
  then have "cb_userdata cb \<in> fst ` set (sb_infos b)"
    unfolding cok(2) by simp
  from map_of_SomeI [OF this] obtain info where "map_of (sb_infos b) (cb_userdata cb) = Some info"
    by blast
  then show "\<exists>outs b'. w_out w' = w_out w @ outs \<and> run_client_events outs b = Inr b' \<and>
      bus_ok c x busy (w_heap w') b' \<and> sb_world b' = sb_world b"
    using bus_ok_send [OF ok, of "State_changed_signal (di_adapter info) st msg"] cok(1)
    by (intro exI [of _ "[State_change st msg (cb_userdata cb)]"]) (auto simp: w' emit_state_changed_def)
qed

text \<open>Events of the proxy whose error message, if they answer a call, is safe as a format.\<close>

fun plain_event :: "proxy_event \<Rightarrow> bool" where
  "plain_event (Notify_process_error s error u) = (u = 0 \<or> plain_answer (Inl error))"
| "plain_event _ = True"

lemma notify_tracks:
  assumes n: "notify e w = Inr w'" and e: "plain_event e"
  shows "tracks w w'"
proof (cases e)
  case (Notify_state_changed s st msg u)
  show ?thesis
  proof (cases "u = 0")
    case True
    with n Notify_state_changed show ?thesis
      by (auto simp: gsignond_auth_session_notify_state_changed_def intro: tracks_same)
  next
    case False
    with n Notify_state_changed obtain cb where "map_of (w_heap w) u = Some cb"
        "w' = (if state_change_cb cb then tell (State_change st msg (cb_userdata cb)) w else w)"
      by (auto simp: gsignond_auth_session_notify_state_changed_def split: option.splits)
    then show ?thesis by (auto intro: tracks_state_change simp: tell_def)
  qed
next
  case (Notify_process_result s d u)
  show ?thesis
  proof (cases "u = 0")
    case True
    with n Notify_process_result show ?thesis
      by (auto simp: gsignond_auth_session_notify_process_result_def intro: tracks_same)
  next
    case False
    with n Notify_process_result obtain cb where "map_of (w_heap w) u = Some cb"
        "w' = (if ready_cb cb then tell (Ready_result d (cb_userdata cb)) w else w)
           \<lparr>w_heap := AList.delete u (w_heap (if ready_cb cb then tell (Ready_result d (cb_userdata cb)) w else w))\<rparr>"
      by (auto simp: gsignond_auth_session_notify_process_result_def Let_def split: option.splits)
    then show ?thesis by (auto intro: tracks_answer [where answer = "Inr d"] simp: tell_def)
  qed
next
  case (Notify_process_error s er u)
  show ?thesis
  proof (cases "u = 0")
    case True
    with n Notify_process_error show ?thesis
      by (auto simp: gsignond_auth_session_notify_process_error_def intro: tracks_same)
  next
    case False
    with n Notify_process_error obtain cb where "map_of (w_heap w) u = Some cb"
        "w' = (if ready_cb cb then tell (Ready_error er (cb_userdata cb)) w else w)
           \<lparr>w_heap := AList.delete u (w_heap (if ready_cb cb then tell (Ready_error er (cb_userdata cb)) w else w))\<rparr>"
      by (auto simp: gsignond_auth_session_notify_process_error_def Let_def split: option.splits)
    then show ?thesis
      using e False Notify_process_error by (auto intro: tracks_answer [where answer = "Inl er"] simp: tell_def)
  qed
next
  case (Notify_store s d)
  with n show ?thesis
    by (auto simp: gsignond_auth_session_notify_store_def split: option.splits
        intro: waiting_tracks_trans [OF tracks_same tracks_tell_signal])
qed (use n in \<open>auto simp: gsignond_auth_session_notify_refreshed_def
        gsignond_auth_session_notify_user_action_required_def intro: tracks_same tracks_tell_signal\<close>)

lemma deliver_tracks: "deliver es w = Inr w' \<Longrightarrow> list_all plain_event es \<Longrightarrow> tracks w w'"
proof (induction es arbitrary: w)
  case (Cons e es)
  then obtain w1 where "notify e w = Inr w1" "deliver es w1 = Inr w'"
    by (auto split: sum.splits)
  with Cons show ?case by (auto intro: waiting_tracks_trans notify_tracks)
qed (auto intro: tracks_same)

lemma with_proxy_tracks:
  assumes "with_proxy g w = Inr w'"
    and "\<And>p'. g (w_proxy w) = Some p' \<Longrightarrow> list_all plain_event (drop (length (log (w_proxy w))) (log p'))"
  shows "tracks w w'"
proof -
  obtain p' where p': "g (w_proxy w) = Some p'"
      "deliver (drop (length (log (w_proxy w))) (log p')) (w\<lparr>w_proxy := p'\<rparr>) = Inr w'"
    using assms(1) by (auto simp: with_proxy_def split: option.splits)
  have "tracks w (w\<lparr>w_proxy := p'\<rparr>)"
    by (rule tracks_same) simp_all
  from waiting_tracks_trans [OF this deliver_tracks [OF p'(2) assms(2) [OF p'(1)]]] show ?thesis .
qed

text \<open>What happens to the sessions but for the calls of applications, with errors that are safe as a format.\<close>

fun plain_input :: "session_input \<Rightarrow> bool" where
  "plain_input (S_process s d mech ctx cb) = False"
| "plain_input (S_error error) = plain_answer (Inl error)"
| "plain_input _ = True"

lemmas proxy_calls =
  gsignond_plugin_proxy_user_action_finished_def gsignond_plugin_proxy_refresh_def
  gsignond_plugin_proxy_response_final_callback_def gsignond_plugin_proxy_store_callback_def
  gsignond_plugin_proxy_refreshed_callback_def gsignond_plugin_proxy_user_action_required_callback_def
  gsignond_plugin_proxy_error_callback_def gsignond_plugin_proxy_status_changed_callback_def
  gsignond_plugin_proxy_cancel_def gsignond_plugin_proxy_process_def

lemmas proxy_log_simps =
  process_queue_log emit_def call_plugin_def start_events_def job_request_def Let_def

lemma cancel_tracks:
  "with_proxy (gsignond_plugin_proxy_cancel s) w = Inr w' \<Longrightarrow> tracks w w'"
  by (erule with_proxy_tracks)
    (auto simp: gsignond_plugin_proxy_cancel_def proxy_log_simps split: if_splits option.splits)

lemma session_step_tracks:
  assumes "session_step m mechs i w = Inr w'" "plain_input i"
  shows "tracks w w'"
proof -
  have canceled: "tracks w (tell (Sig_process_canceled s) w1)"
    if "with_proxy (gsignond_plugin_proxy_cancel s) w = Inr w1" for s w1
    using waiting_tracks_trans [OF cancel_tracks [OF that] tracks_tell_signal] by blast
  show ?thesis
  proof (cases i)
    case (S_cancel s ctx)
    with assms(1) canceled show ?thesis
      by (auto simp: gsignond_auth_session_cancel_def intro: tracks_same
          split: option.splits if_splits sum.splits)
  next
    case (S_abort s)
    with assms(1) canceled show ?thesis
      by (auto simp: gsignond_auth_session_abort_process_def split: sum.splits)
  qed (use assms in \<open>auto simp: gsignond_auth_session_user_action_finished_def gsignond_auth_session_refresh_def
        proxy_calls proxy_log_simps split: option.splits list.splits elim!: with_proxy_tracks\<close>)
qed

lemma process_tracks:
  assumes "gsignond_auth_session_process m mechs s d mech ctx cb w = Inr (r, w')"
  shows "case r of Inl error \<Rightarrow> w_heap w' = w_heap w \<and> w_out w' = w_out w
    | Inr _ \<Rightarrow> tracks (w\<lparr>w_heap := (w_next w, cb) # w_heap w\<rparr>) w'"
proof (cases r)
  case (Inl error)
  with assms show ?thesis
    by (auto simp: gsignond_auth_session_process_def Let_def split: option.splits if_splits sum.splits)
next
  case (Inr _)
  with assms obtain ss d' tok where
    "with_proxy (Some \<circ> gsignond_plugin_proxy_process s d' tok (Some mech) (w_next w))
       (w\<lparr>w_sessions := ss, w_heap := (w_next w, cb) # w_heap w, w_next := w_next w + 1\<rparr>) = Inr w'"
    by (auto simp: gsignond_auth_session_process_def Let_def split: option.splits if_splits sum.splits)
  then have "tracks (w\<lparr>w_sessions := ss, w_heap := (w_next w, cb) # w_heap w, w_next := w_next w + 1\<rparr>) w'"
    by (elim with_proxy_tracks)
      (auto simp: gsignond_plugin_proxy_process_def proxy_log_simps split: list.splits if_splits)
  moreover have "tracks (w\<lparr>w_heap := (w_next w, cb) # w_heap w\<rparr>)
      (w\<lparr>w_sessions := ss, w_heap := (w_next w, cb) # w_heap w, w_next := w_next w + 1\<rparr>)"
    by (rule tracks_same) simp_all
  ultimately show ?thesis
    using Inr waiting_tracks_trans by auto
qed

lemma call_session_ok:
  assumes f: "f (sb_world b) = Inr (r, w')" and t: "tracks w0 w'" "w_out w0 = w_out (sb_world b)"
    and ok: "bus_ok c x busy (w_heap w0) b"
  obtains b' where "call_session f b = Inr (r, b')" "bus_ok c x busy (w_heap w') b'" "sb_world b' = w'"
proof -
  have "bus_ok c x busy (w_heap w0) (b\<lparr>sb_world := w'\<rparr>)"
    by (rule bus_ok_cong [OF ok]) simp_all
  with t(1) obtain outs b' where "w_out w' = w_out w0 @ outs" "run_client_events outs (b\<lparr>sb_world := w'\<rparr>) = Inr b'"
      "bus_ok c x busy (w_heap w') b'" "sb_world b' = w'"
    unfolding tracks_def by fastforce
  with that f t(2) show thesis
    by (simp add: call_session_def)
qed

subsection \<open>The methods keep the invariant\<close>

definition bus_inv :: "nat list \<Rightarrow> nat list \<Rightarrow> session_bus \<Rightarrow> bool" where
  "bus_inv c x b \<longleftrightarrow> bus_ok c x None (w_heap (sb_world b)) b \<and> (\<exists>f. session_inv f (sb_world b))"

definition bus_result :: "bus_fault \<Rightarrow> nat list \<Rightarrow> nat list \<Rightarrow> bus_fault + session_bus \<Rightarrow> bool" where
  "bus_result fl c x r \<longleftrightarrow> (case r of Inl f \<Rightarrow> f = fl | Inr b \<Rightarrow> bus_inv c x b)"

lemma bus_result_simps [simp]:
  "bus_result fl c x (Inl f) \<longleftrightarrow> f = fl" "bus_result fl c x (Inr b) \<longleftrightarrow> bus_inv c x b"
  by (simp_all add: bus_result_def)

lemma bus_ok_adapter:
  assumes ok: "bus_ok c x busy heap b" and a: "map_of (sb_adapters b) n = Some a"
    and counts: "adapter_counts x busy' n (waiting_of n b) (g a)"
    and busy: "\<And>m. m \<noteq> n \<Longrightarrow> busy = Some m \<longleftrightarrow> busy' = Some m"
  shows "bus_ok c x busy' heap (on_adapter n g b)"
proof -
  have each: "adapter_counts x busy' m (waiting_of m b) a'"
    if "map_of (sb_adapters (on_adapter n g b)) m = Some a'" for m a'
    using that ok a counts busy [of m]
    by (cases "m = n") (auto simp: map_of_map_entry bus_ok_def adapter_counts_def)
  have "waiting (on_adapter n g b) = waiting b" "\<And>n'. waiting_of n' (on_adapter n g b) = waiting_of n' b"
      "\<And>k. replies k (on_adapter n g b) = replies k b" "callbacks_ok heap (on_adapter n g b) = callbacks_ok heap b"
    by (simp_all add: waiting_def waiting_of_def replies_def callbacks_ok_def)
  with ok each show ?thesis
    unfolding bus_ok_def by simp
qed

lemma bus_ok_reply:
  assumes ok: "bus_ok c x busy heap b" and k: "k \<notin> set c" "answered_call msg = Some k"
  shows "bus_ok (k # c) x busy heap (send msg b)"
proof -
  have old: "\<And>j. replies j b = (if j \<in> set c - set x - set (waiting b) then 1 else 0)"
      "set (waiting b) \<union> set x \<subseteq> set c"
    using ok by (simp_all add: bus_ok_def)
  have "replies j (send msg b) = (if j \<in> set (k # c) - set x - set (waiting b) then 1 else 0)" for j
  proof -
    have "replies j (send msg b) = replies j b + (if j = k then 1 else 0)"
      using k(2) by (simp add: replies_def)
    also have "\<dots> = (if j \<in> set (k # c) - set x - set (waiting b) then 1 else 0)"
      using k(1) old(2) by (auto simp: old(1))
    finally show ?thesis .
  qed
  moreover have "waiting (send msg b) = waiting b" "\<And>n'. waiting_of n' (send msg b) = waiting_of n' b"
      "callbacks_ok heap (send msg b) = callbacks_ok heap b"
    by (simp_all add: waiting_def waiting_of_def callbacks_ok_def)
  ultimately show ?thesis
    using ok old(2) unfolding bus_ok_def by auto
qed

lemma bus_ok_hold:
  assumes ok: "bus_ok c x None heap b" and a: "map_of (sb_adapters b) n = Some a"
  shows "bus_ok c x (Some n) heap (on_adapter n (\<lambda>_. prepare_security_context m peer (set_auto_dispose False a)) b)"
proof (rule bus_ok_adapter [OF ok a])
  have "adapter_counts x None n (waiting_of n b) a"
    using ok a by (simp add: bus_ok_def)
  then show "adapter_counts x (Some n) n (waiting_of n b) (prepare_security_context m peer (set_auto_dispose False a))"
    using counts_held [of x n "waiting_of n b" a] by (simp add: adapter_counts_def prepare_security_context_def Let_def)
qed simp

lemma bus_ok_release:
  assumes ok: "bus_ok c x (Some n) heap b" and n: "n \<in> fst ` set (sb_adapters b)"
  shows "bus_ok c x None heap (on_adapter n (set_auto_dispose True) b)"
proof -
  obtain a where a: "map_of (sb_adapters b) n = Some a"
    using map_of_SomeI [OF n] by blast
  with ok have "adapter_counts x (Some n) n (waiting_of n b) a"
    by (simp add: bus_ok_def)
  with ok a show ?thesis
    by (intro bus_ok_adapter [OF ok a]) (auto intro: counts_released)
qed

lemma process_done_keys:
  "on_process_done answer u b = Inr b' \<Longrightarrow> map fst (sb_adapters b') = map fst (sb_adapters b)"
  by (auto simp: on_process_done_def split: option.splits if_splits)

lemma state_changed_keys:
  "emit_state_changed st msg u b = Inr b' \<Longrightarrow> map fst (sb_adapters b') = map fst (sb_adapters b)"
  by (auto simp: emit_state_changed_def split: option.splits)

lemma run_client_events_keys:
  "run_client_events es b = Inr b' \<Longrightarrow> map fst (sb_adapters b') = map fst (sb_adapters b)"
proof (induction es arbitrary: b)
  case (Cons e es)
  then show ?case
    by (auto split: client_event.splits sum.splits dest: process_done_keys state_changed_keys)
qed simp

lemma call_session_keys:
  assumes "call_session f b = Inr (r, b')"
  shows "map fst (sb_adapters b') = map fst (sb_adapters b)"
proof -
  obtain es w where "run_client_events es (b\<lparr>sb_world := w\<rparr>) = Inr b'"
    using assms by (auto simp: call_session_def map_sum_def split: sum.splits)
  from run_client_events_keys [OF this] show ?thesis by simp
qed

lemma call_session_safe:
  assumes ok: "bus_ok c x busy (w_heap w0) b" and out: "w_out w0 = w_out (sb_world b)"
    and safe: "safe_result (map_sum id snd (f (sb_world b)))"
    and tracks: "\<forall>r w'. f (sb_world b) = Inr (r, w') \<longrightarrow> tracks w0 w'"
  obtains (fault) "call_session f b = Inl (Session_fault Queue_corrupted)" "f (sb_world b) = Inl Queue_corrupted"
  | (returned) r b' where "call_session f b = Inr (r, b')" "bus_ok c x busy (w_heap (sb_world b')) b'"
      "\<exists>f. session_inv f (sb_world b')" "map fst (sb_adapters b') = map fst (sb_adapters b)"
      "f (sb_world b) = Inr (r, sb_world b')"
proof (cases "f (sb_world b)")
  case (Inl fl)
  with safe fault show thesis by (simp add: call_session_def)
next
  case (Inr rw)
  obtain r w' where w': "f (sb_world b) = Inr (r, w')" using Inr by (cases rw) auto
  obtain b' where b': "call_session f b = Inr (r, b')" "bus_ok c x busy (w_heap w') b'" "sb_world b' = w'"
    using call_session_ok [where f = f and b = b, OF w' tracks [rule_format, OF w'] out ok] .
  moreover have "\<exists>f. session_inv f w'"
    using safe w' by simp
  ultimately show thesis
    using returned w' call_session_keys [OF b'(1)] by blast
qed

lemma run_client_events_none [simp]: "w_out w = w_out (sb_world b) \<Longrightarrow> f (sb_world b) = Inr (r, w) \<Longrightarrow>
    call_session f b = Inr (r, b\<lparr>sb_world := w\<rparr>)"
  by (simp add: call_session_def)

text \<open>A reply at the end of a method: the adapter is released.\<close>

lemma reply_and_release:
  assumes ok: "bus_ok c x (Some n) (w_heap (sb_world b)) b" and f: "\<exists>f. session_inv f (sb_world b)"
    and k: "k \<notin> set c" "answered_call msg = Some k" and n: "n \<in> fst ` set (sb_adapters b)"
  shows "bus_inv (k # c) x (on_adapter n (set_auto_dispose True) (send msg b))"
  using bus_ok_release [OF bus_ok_reply [OF ok k]] f n by (simp add: bus_inv_def)

lemma handle_query_safe:
  assumes inv: "bus_inv c x b" and k: "k \<notin> set c" and n: "n \<in> fst ` set (sb_adapters b)"
  shows "bus_result Array_overrun (k # c) x (handle_query_available_mechanisms m mechs n k peer wanted b)"
proof -
  obtain a where a: "map_of (sb_adapters b) n = Some a"
    using map_of_SomeI [OF n] by blast
  let ?a = "prepare_security_context m peer (set_auto_dispose False a)"
  let ?b = "on_adapter n (\<lambda>_. ?a) b"
  have ok: "bus_ok c x (Some n) (w_heap (sb_world b)) ?b" and f: "\<exists>f. session_inv f (sb_world b)"
    using inv bus_ok_hold a by (auto simp: bus_inv_def)
  show ?thesis
  proof (cases "map_of (w_sessions (sb_world b)) (ta_session ?a)")
    case None
    then show ?thesis
      using reply_and_release [of c x n ?b k] ok f k n
      by (simp add: handle_query_available_mechanisms_def a Let_def)
  next
    case (Some session)
    show ?thesis
    proof (cases "gsignond_auth_session_query_available_mechanisms m mechs session wanted (Some (ta_ctx ?a))")
      case None
      with Some show ?thesis by (simp add: handle_query_available_mechanisms_def a Let_def)
    next
      case (Some rs)
      obtain r session' where rs: "rs = (r, session')" by (cases rs)
      let ?w = "sb_world b"
      let ?w' = "?w\<lparr>w_sessions := AList.update (ta_session ?a) session' (w_sessions ?w)\<rparr>"
      have "ta_session ?a \<in> fst ` set (w_sessions ?w)"
        using \<open>map_of (w_sessions (sb_world b)) (ta_session ?a) = Some session\<close>
        by (metis map_of_SomeD image_eqI fst_conv)
      then have "same_core ?w ?w'"
        by (simp add: same_core_def)
      then have f': "\<exists>f. session_inv f ?w'"
        using f session_inv_core by blast
      have "bus_ok c x (Some n) (w_heap ?w') (?b\<lparr>sb_world := ?w'\<rparr>)"
        by (rule bus_ok_cong [of c x _ _ ?b]) (use ok in simp_all)
      then show ?thesis
        using reply_and_release [of c x n "?b\<lparr>sb_world := ?w'\<rparr>" k] f' k n
          Some rs \<open>map_of (w_sessions (sb_world b)) (ta_session ?a) = Some session\<close>
        by (cases r) (simp_all add: handle_query_available_mechanisms_def a Let_def)
    qed
  qed
qed

lemma handle_cancel_safe:
  assumes inv: "bus_inv c x b" and k: "k \<notin> set c" and n: "n \<in> fst ` set (sb_adapters b)"
  shows "bus_result (Session_fault Queue_corrupted) (k # c) x (handle_cancel m n k peer b)"
proof -
  obtain a where a: "map_of (sb_adapters b) n = Some a"
    using map_of_SomeI [OF n] by blast
  let ?a = "prepare_security_context m peer (set_auto_dispose False a)"
  let ?b = "on_adapter n (\<lambda>_. ?a) b"
  let ?f = "gsignond_auth_session_cancel m (ta_session ?a) (Some (ta_ctx ?a))"
  have ok: "bus_ok c x (Some n) (w_heap (sb_world ?b)) ?b" and f: "\<exists>f. session_inv f (sb_world b)"
    using inv bus_ok_hold a by (auto simp: bus_inv_def)
  have step: "session_step m mechs (S_cancel (ta_session ?a) (Some (ta_ctx ?a))) w = map_sum id snd (?f w)" for mechs w
    by simp
  have "safe_result (map_sum id snd (?f (sb_world ?b)))"
    using f session_step_safe [of _ _ m None "S_cancel (ta_session ?a) (Some (ta_ctx ?a))"] by (auto simp: step)
  moreover have "\<forall>r w'. ?f (sb_world ?b) = Inr (r, w') \<longrightarrow> tracks (sb_world ?b) w'"
    using session_step_tracks [of m None "S_cancel (ta_session ?a) (Some (ta_ctx ?a))"] by (simp add: step)
  ultimately show ?thesis
  proof (cases rule: call_session_safe [where f = ?f, OF ok refl, consumes 2, case_names fault returned])
    case fault
    then show ?thesis by (simp add: handle_cancel_def a Let_def)
  next
    case (returned r b')
    have "n \<in> fst ` set (sb_adapters b')"
      using n returned(4) by (metis bus_simps(10) fst_map_entry list.set_map)
    then show ?thesis
      using returned k reply_and_release [of c x n b' k]
      by (cases r) (simp_all add: handle_cancel_def a Let_def)
  qed
qed

text \<open>A process call, of an adapter without another one, is registered before the session is called.\<close>

lemma bus_ok_call:
  fixes m :: acm and peer :: bus_peer
  assumes ok: "bus_ok c x None heap b" and k: "k \<notin> set c" and a: "map_of (sb_adapters b) n = Some a"
    and idle: "waiting_of n b = []" and u: "u \<notin> fst ` set heap"
  defines "a' \<equiv> (prepare_security_context m peer (set_auto_dispose False a))\<lparr>ta_active := True\<rparr>"
  shows "bus_ok (k # c) x None
     ((u, \<lparr>ready_cb = True, state_change_cb = True, cb_userdata = sb_next b\<rparr>) # heap)
     ((on_adapter n (\<lambda>_. a') b)\<lparr>sb_infos := (sb_next b, \<lparr>di_adapter = n, di_invocation = k\<rparr>) # sb_infos b,
        sb_next := sb_next b + 1\<rparr>)" (is "bus_ok _ _ _ ?heap ?b")
proof -
  have cok: "callbacks_ok heap b" and keys: "distinct (map fst (sb_adapters b))" and
    homes: "\<forall>q \<in> set (sb_infos b). di_adapter (snd q) \<in> fst ` set (sb_adapters b)" and
    each: "\<And>m a. map_of (sb_adapters b) m = Some a \<Longrightarrow> adapter_counts x None m (waiting_of m b) a" and
    dist: "distinct (waiting b)" and sub: "set (waiting b) \<union> set x \<subseteq> set c" and
    repl: "\<And>j. replies j b = (if j \<in> set c - set x - set (waiting b) then 1 else 0)"
    using ok by (simp_all add: bus_ok_def)
  have w: "waiting ?b = k # waiting b" "\<And>m. waiting_of m ?b = (if m = n then k # waiting_of m b else waiting_of m b)"
    by (simp_all add: waiting_def waiting_of_def)
  have "k \<notin> set x" "k \<notin> set (waiting b)"
    using k sub by auto
  have "adapter_counts x None n [k] a'"
    using counts_held [OF each [OF a]] idle \<open>k \<notin> set x\<close>
    by (simp add: adapter_counts_def a'_def prepare_security_context_def Let_def)
  then have "adapter_counts x None m' (waiting_of m' ?b) a2" if "map_of (sb_adapters ?b) m' = Some a2" for m' a2
    using that each [of m' a2] idle a unfolding w by (cases "m' = n") (auto simp: map_of_map_entry)
  moreover have "callbacks_ok ?heap ?b"
    using cok u by (auto simp: callbacks_ok_def less_Suc_eq)
  moreover have "replies j ?b = (if j \<in> set (k # c) - set x - set (waiting ?b) then 1 else 0)" for j
  proof -
    have "replies j ?b = replies j b" by (simp add: replies_def)
    then show ?thesis
      unfolding w using \<open>k \<notin> set x\<close> k by (auto simp: repl)
  qed
  moreover have "n \<in> fst ` set (sb_adapters b)"
    using a by (metis map_of_SomeD image_eqI fst_conv)
  moreover have "distinct (waiting ?b)" "set (waiting ?b) \<union> set x \<subseteq> set (k # c)"
    using dist sub \<open>k \<notin> set (waiting b)\<close> unfolding w by auto
  moreover have "\<forall>q \<in> set (sb_infos ?b). di_adapter (snd q) \<in> fst ` set (sb_adapters ?b)"
    using homes \<open>n \<in> fst ` set (sb_adapters b)\<close> by simp
  moreover have "distinct (map fst (sb_adapters ?b))"
    using keys by simp
  ultimately show ?thesis
    unfolding bus_ok_def by blast
qed

text \<open>A process call of a session does not fault.\<close>

lemma deliver_not_corrupted: "deliver es w \<noteq> Inl Queue_corrupted"
proof (induction es arbitrary: w)
  case (Cons e es)
  have "notify e w \<noteq> Inl Queue_corrupted"
    by (cases e) (auto simp: gsignond_auth_session_notify_process_result_def
      gsignond_auth_session_notify_process_error_def gsignond_auth_session_notify_state_changed_def
      gsignond_auth_session_notify_store_def gsignond_auth_session_notify_refreshed_def
      gsignond_auth_session_notify_user_action_required_def Let_def split: option.split)
  with Cons show ?case by (auto split: sum.split)
qed simp

lemma process_returns:
  assumes "session_inv f w"
  obtains r w' where "gsignond_auth_session_process m mechs s d mech ctx cb w = Inr (r, w')" "\<exists>f. session_inv f w'"
proof -
  have "gsignond_auth_session_process m mechs s d mech ctx cb w \<noteq> Inl Queue_corrupted"
    by (auto simp: gsignond_auth_session_process_def with_proxy_def Let_def deliver_not_corrupted
        split: option.split sum.split)
  with process_safe [OF assms, of m mechs s d mech ctx cb]
  have "\<exists>rw. gsignond_auth_session_process m mechs s d mech ctx cb w = Inr rw \<and> (\<exists>f. session_inv f (snd rw))"
    by (cases "gsignond_auth_session_process m mechs s d mech ctx cb w") (simp_all add: safe_result_def)
  then obtain rw where "gsignond_auth_session_process m mechs s d mech ctx cb w = Inr (fst rw, snd rw)"
      "\<exists>f. session_inv f (snd rw)"
    unfolding prod.collapse by blast
  with that show thesis by blast
qed

lemma handle_process_safe:
  assumes inv: "bus_inv c x b" and k: "k \<notin> set c" and n: "n \<in> fst ` set (sb_adapters b)"
    and idle: "waiting_of n b = []"
  shows "\<exists>b'. handle_process m mechs n k peer v mech b = Inr b' \<and> bus_inv (k # c) x b'"
proof -
  obtain a where a: "map_of (sb_adapters b) n = Some a"
    using map_of_SomeI [OF n] by blast
  obtain fifo where fifo: "session_inv fifo (sb_world b)" and ok: "bus_ok c x None (w_heap (sb_world b)) b"
    using inv by (auto simp: bus_inv_def)
  let ?u = "w_next (sb_world b)" and ?i = "sb_next b"
  let ?h = "prepare_security_context m peer (set_auto_dispose False a)"
  let ?a = "?h\<lparr>ta_active := True\<rparr>"
  let ?b = "(on_adapter n (\<lambda>_. ?a) b)\<lparr>sb_infos := (?i, \<lparr>di_adapter = n, di_invocation = k\<rparr>) # sb_infos b,
        sb_next := ?i + 1\<rparr>"
  let ?cb = "\<lparr>ready_cb = True, state_change_cb = True, cb_userdata = ?i\<rparr>"
  let ?d = "the (gsignond_dictionary_new_from_variant (Some v))"
  let ?f = "gsignond_auth_session_process m mechs (ta_session ?h) ?d mech (Some (ta_ctx ?h)) ?cb"
  have "?u \<notin> fst ` set (w_heap (sb_world b))"
    using fifo by (auto simp: session_inv_def)
  with bus_ok_call [OF ok k a idle]
  have called: "bus_ok (k # c) x None ((?u, ?cb) # w_heap (sb_world b)) ?b"
    by simp
  obtain r w' where w': "?f (sb_world b) = Inr (r, w')" "\<exists>f. session_inv f w'"
    using process_returns [OF fifo] .
  show ?thesis
  proof (cases r)
    case (Inr _)
    have "tracks ((sb_world b)\<lparr>w_heap := (?u, ?cb) # w_heap (sb_world b)\<rparr>) w'"
      using process_tracks [OF w'(1)] Inr by simp
    with w'(1) called obtain b' where "call_session ?f ?b = Inr (r, b')" "bus_ok (k # c) x None (w_heap w') b'"
        "sb_world b' = w'"
      by (elim call_session_ok [where f = ?f and b = ?b, rotated]) auto
    with Inr w'(2) show ?thesis
      by (auto simp: handle_process_def a Let_def bus_inv_def)
  next
    case (Inl error)
    let ?g = "\<lambda>self. set_auto_dispose True (self\<lparr>ta_active := False\<rparr>)"
    define b' where "b' = on_adapter n ?g (auth_session_dbus_info_free ?i (send (Error_reply k error) (?b\<lparr>sb_world := w'\<rparr>)))"
    have same: "w_heap w' = w_heap (sb_world b)" "w_out w' = w_out (sb_world b)"
      using process_tracks [OF w'(1)] Inl by simp_all
    then have "call_session ?f ?b = Inr (r, ?b\<lparr>sb_world := w'\<rparr>)"
      using w'(1) by simp
    with Inl have "handle_process m mechs n k peer v mech b = Inr b'"
      by (simp add: handle_process_def a Let_def b'_def)
    moreover have "bus_ok (k # c) x None (w_heap w') b'"
    proof -
      have counts: "adapter_counts x None n (waiting_of n b) a"
        using ok a by (simp add: bus_ok_def)
      from counts_released [OF counts_held [OF this]] idle
      have "adapter_counts x None n (waiting_of n b) (?g ?a)"
        by (simp add: adapter_counts_def prepare_security_context_def set_auto_dispose_def Let_def)
      from bus_ok_reply [OF bus_ok_adapter [OF ok a, where g = "\<lambda>_. ?g ?a", OF this] k]
      have "bus_ok (k # c) x None (w_heap w') (send (Error_reply k error) (on_adapter n (\<lambda>_. ?g ?a) b))"
        by (simp add: same)
      then show ?thesis
      proof (rule bus_ok_cong)
        have "?i \<notin> fst ` set (sb_infos b)"
          using ok by (auto simp: bus_ok_def callbacks_ok_def)
        then show "sb_infos b' = sb_infos (send (Error_reply k error) (on_adapter n (\<lambda>_. ?g ?a) b))"
          by (simp add: b'_def)
      qed (simp_all add: b'_def)
    qed
    ultimately show ?thesis
      using w'(2) by (auto simp: bus_inv_def b'_def)
  qed
qed

lemma step_call_safe:
  assumes inv: "bus_inv c x b" and i: "plain_input i"
  obtains (fault) "call_session (map_sum id (Pair ()) \<circ> session_step m mechs i) b = Inl (Session_fault Queue_corrupted)"
  | (returned) b' where "call_session (map_sum id (Pair ()) \<circ> session_step m mechs i) b = Inr ((), b')"
      "bus_inv c x b'" "map fst (sb_adapters b') = map fst (sb_adapters b)"
proof -
  let ?f = "map_sum id (Pair ()) \<circ> session_step m mechs i"
  have ok: "bus_ok c x None (w_heap (sb_world b)) b" and f: "\<exists>f. session_inv f (sb_world b)"
    using inv by (auto simp: bus_inv_def)
  have unpair: "map_sum id snd (map_sum id (Pair ()) y) = y" for y :: "fault + auth_world"
    by (cases y) simp_all
  have "safe_result (map_sum id snd (?f (sb_world b)))"
    using f session_step_safe unpair by auto
  moreover have "\<forall>r w'. ?f (sb_world b) = Inr (r, w') \<longrightarrow> tracks (sb_world b) w'"
    using session_step_tracks [OF _ i] by (auto simp: map_sum_def split: sum.splits)
  ultimately show thesis
  proof (cases rule: call_session_safe [where f = ?f, OF ok refl, consumes 2, case_names failed finished])
    case failed
    then show thesis using fault by simp
  next
    case (finished r b')
    with returned show thesis by (auto simp: bus_inv_def)
  qed
qed

lemma waiting_of_disjoint:
  assumes "distinct (waiting b)" "m \<noteq> n"
  shows "set (waiting_of m b) \<inter> set (waiting_of n b) = {}"
proof -
  have "inj_on (\<lambda>p. di_invocation (snd p)) (set (sb_infos b))"
    using assms(1) by (simp add: waiting_def distinct_map)
  with assms(2) show ?thesis
    by (auto simp: waiting_of_def dest: inj_onD)
qed

lemma waiting_of_subset: "set (waiting_of n b) \<subseteq> set (waiting b)"
  by (auto simp: waiting_of_def waiting_def)

lemma bus_ok_give_up:
  assumes ok: "bus_ok c x None heap b"
  shows "bus_ok c (waiting_of n b @ x) None heap (on_adapter n (ta_active_update (\<lambda>_. False)) b)" (is "bus_ok c ?x None heap ?b")
proof -
  have cok: "callbacks_ok heap b" and keys: "distinct (map fst (sb_adapters b))" and
    homes: "\<forall>q \<in> set (sb_infos b). di_adapter (snd q) \<in> fst ` set (sb_adapters b)" and
    each: "\<And>m a. map_of (sb_adapters b) m = Some a \<Longrightarrow> adapter_counts x None m (waiting_of m b) a" and
    dist: "distinct (waiting b)" and sub: "set (waiting b) \<union> set x \<subseteq> set c" and
    repl: "\<And>j. replies j b = (if j \<in> set c - set x - set (waiting b) then 1 else 0)"
    using ok by (simp_all add: bus_ok_def)
  have w: "waiting ?b = waiting b" "\<And>m. waiting_of m ?b = waiting_of m b" "\<And>j. replies j ?b = replies j b"
    by (simp_all add: waiting_def waiting_of_def replies_def)
  have "adapter_counts ?x None m (waiting_of m ?b) a" if "map_of (sb_adapters ?b) m = Some a" for m a
  proof (cases "m = n")
    case True
    with that obtain a0 where "map_of (sb_adapters b) n = Some a0" "a = a0\<lparr>ta_active := False\<rparr>"
      by (auto simp: map_of_map_entry)
    with True each [of n a0] show ?thesis
      unfolding w by (auto simp: adapter_counts_def)
  next
    case False
    with that have "adapter_counts x None m (waiting_of m b) a"
      using each by (simp add: map_of_map_entry)
    with waiting_of_disjoint [OF dist False] show ?thesis
      unfolding w adapter_counts_def by auto
  qed
  moreover have "replies j ?b = (if j \<in> set c - set ?x - set (waiting ?b) then 1 else 0)" for j
    using waiting_of_subset [of n b] unfolding w by (auto simp: repl)
  moreover have "callbacks_ok heap ?b"
    using cok by (simp add: callbacks_ok_def)
  moreover have "set (waiting ?b) \<union> set ?x \<subseteq> set c"
    using sub waiting_of_subset [of n b] unfolding w by auto
  ultimately show ?thesis
    using keys homes dist unfolding bus_ok_def by (simp add: w(1))
qed

lemma waiting_of_none: "bus_ok c x busy heap b \<Longrightarrow> n \<notin> fst ` set (sb_adapters b) \<Longrightarrow> waiting_of n b = []"
  by (auto simp: bus_ok_def waiting_of_def filter_empty_conv)

lemma abort_safe:
  assumes inv: "bus_inv c x b"
  shows "case gsignond_dbus_auth_session_adapter_abort_process n b of
     Inl f \<Rightarrow> f = Session_fault Queue_corrupted | Inr b' \<Rightarrow> bus_inv c (waiting_of n b' @ x) b'"
proof (cases "map_of (sb_adapters b) n")
  case None
  then have "waiting_of n b = []"
    using inv waiting_of_none by (auto simp: bus_inv_def map_of_eq_None_iff)
  with None inv show ?thesis
    by (simp add: gsignond_dbus_auth_session_adapter_abort_process_def)
next
  case (Some a)
  show ?thesis
  proof (cases "ta_active a")
    case False
    have "on_adapter n (ta_active_update (\<lambda>_. False)) b = b"
    proof -
      have "AList.map_entry n (ta_active_update (\<lambda>_. False)) l = l" if "map_of l n = Some a" for l
        using that False by (induction l) (auto split: if_splits)
      with Some show ?thesis by (simp add: on_adapter_def)
    qed
    with bus_ok_give_up [of c x "w_heap (sb_world b)" b n] inv Some False show ?thesis
      by (simp add: gsignond_dbus_auth_session_adapter_abort_process_def bus_inv_def)
  next
    case True
    have f: "session_step undefined None (S_abort (ta_session a)) = gsignond_auth_session_abort_process (ta_session a)"
      by (simp add: fun_eq_iff)
    show ?thesis
    proof (cases rule: step_call_safe [OF inv, where i = "S_abort (ta_session a)" and m = undefined and mechs = None,
          case_names plain fault returned])
      case plain
      then show ?case by simp
    next
      case fault
      with Some True show ?thesis
        by (simp add: gsignond_dbus_auth_session_adapter_abort_process_def f)
    next
      case (returned b')
      let ?b = "on_adapter n (ta_active_update (\<lambda>_. False)) b'"
      have "waiting_of n ?b = waiting_of n b'" by (simp add: waiting_of_def)
      with Some True returned bus_ok_give_up [of c x "w_heap (sb_world b')" b' n] show ?thesis
        by (simp add: gsignond_dbus_auth_session_adapter_abort_process_def f bus_inv_def)
    qed
  qed
qed

text \<open>A source fires only for an adapter that is not held, so that no call is lost with it.\<close>

lemma fire_safe:
  assumes inv: "bus_inv c x b" and a: "map_of (sb_adapters b) n = Some a"
    and i: "i \<in> fst ` set (sources (ta_disposable a))"
  shows "\<exists>b'. fire_adapter n i b = Inr b' \<and> bus_inv c x b' \<and> map_of (sb_adapters b') n = None"
proof -
  let ?d = "ta_disposable a"
  have ok: "bus_ok c x None (w_heap (sb_world b)) b"
    using inv by (simp add: bus_inv_def)
  have cok: "callbacks_ok (w_heap (sb_world b)) b" and keys: "distinct (map fst (sb_adapters b))" and
    homes: "\<forall>q \<in> set (sb_infos b). di_adapter (snd q) \<in> fst ` set (sb_adapters b)" and
    each: "\<And>m a. map_of (sb_adapters b) m = Some a \<Longrightarrow> adapter_counts x None m (waiting_of m b) a" and
    dist: "distinct (waiting b)" "set (waiting b) \<union> set x \<subseteq> set c" and
    repl: "\<And>j. replies j b = (if j \<in> set c - set x - set (waiting b) then 1 else 0)"
    using ok by (simp_all add: bus_ok_def)
  obtain t where t: "disposable_inv t ?d" "unrefs ?d = 0"
    using each [OF a] disposable_run_inv by (auto simp: adapter_counts_def)
  with i have "keep_obj_counter ?d = 0" "t \<noteq> 0" "sources ?d = [(timer_id ?d, Timeout_source t)]" "i = timer_id ?d"
    by (auto simp: disposable_inv_def)
  then have fired: "unrefs (dispatch_source i ?d) \<noteq> 0" and none: "waiting_of n b = []"
    using each [OF a] small_count [of "length (waiting_of n b)"]
    by (auto simp: adapter_counts_def dispatch_source_def timer_dispose_def auto_dispose_def g_source_remove_def)
  then have inactive: "\<not> ta_active a"
    using each [OF a] by (simp add: adapter_counts_def)
  define b' where "b' = (send (Unregistered_signal n) b)\<lparr>sb_adapters := AList.delete n (sb_adapters b)\<rparr>"
  have "fire_adapter n i b = Inr b'"
    using a fired inactive
    by (simp add: fire_adapter_def Let_def session_adapter_dispose_def
        gsignond_dbus_auth_session_adapter_abort_process_def map_of_map_entry b'_def send_def on_adapter_def)
  moreover have "map_of (sb_adapters b') m = (if m = n then None else map_of (sb_adapters b) m)" for m
    by (simp add: b'_def delete_conv')
  moreover have "bus_ok c x None (w_heap (sb_world b)) b'"
  proof -
    have w: "waiting b' = waiting b" "\<And>m. waiting_of m b' = waiting_of m b" "\<And>j. replies j b' = replies j b"
        "callbacks_ok (w_heap (sb_world b)) b'" "sb_infos b' = sb_infos b"
        "sb_adapters b' = AList.delete n (sb_adapters b)"
      using cok by (simp_all add: b'_def waiting_def waiting_of_def replies_def callbacks_ok_def)
    have "\<forall>q \<in> set (sb_infos b). di_adapter (snd q) \<noteq> n"
      using none by (auto simp: waiting_of_def filter_empty_conv)
    with homes have "\<forall>q \<in> set (sb_infos b'). di_adapter (snd q) \<in> fst ` set (sb_adapters b')"
      by (simp add: w fst_set_delete)
    moreover have "distinct (map fst (sb_adapters b'))"
      using keys by (simp add: w(6) distinct_delete)
    moreover have "adapter_counts x None m (waiting_of m b') a'" if "map_of (sb_adapters b') m = Some a'" for m a'
      using that each by (simp add: w(2,6) delete_conv' split: if_splits)
    ultimately show ?thesis
      using w(4) dist repl unfolding bus_ok_def w(1,3) by blast
  qed
  ultimately show ?thesis
    using inv by (auto simp: bus_inv_def b'_def)
qed

lemma new_adapter_safe:
  assumes inv: "bus_inv c x b" and n: "n \<notin> fst ` set (sb_adapters b)"
    and a: "fst (gsignond_dbus_auth_session_adapter_new_with_connection nonce exported s app secs counter) = Some a"
  shows "bus_inv c x (b\<lparr>sb_adapters := (n, a) # sb_adapters b\<rparr>)" (is "bus_inv c x ?b")
proof -
  have ok: "bus_ok c x None (w_heap (sb_world b)) b" and f: "\<exists>f. session_inv f (sb_world b)"
    using inv by (auto simp: bus_inv_def)
  have "ta_disposable a = gsignond_disposable_set_timeout gsignond_disposable_init secs" "\<not> ta_active a"
    using a by (auto simp: gsignond_dbus_auth_session_adapter_new_with_connection_def Let_def
        gsignond_dbus_auth_session_adapter_init_def split: if_splits)
  then have "adapter_counts x None n [] a"
    using disposable_run.start [of secs] by (auto simp: adapter_counts_def disposable_defs)
  moreover have w: "waiting ?b = waiting b" "\<And>m. waiting_of m ?b = waiting_of m b" "\<And>j. replies j ?b = replies j b"
      "callbacks_ok (w_heap (sb_world b)) ?b = callbacks_ok (w_heap (sb_world b)) b"
    by (simp_all add: waiting_def waiting_of_def replies_def callbacks_ok_def)
  ultimately have "bus_ok c x None (w_heap (sb_world b)) ?b"
    using ok n waiting_of_none [OF ok n] unfolding bus_ok_def w by simp
  with f show ?thesis by (simp add: bus_inv_def)
qed

subsection \<open>Every call is answered\<close>

text \<open>
  What can happen on the bus, with the calls that were made and those that were given up: an adapter is
  created; it gets a call (a process call only when it has none that waits); its process is aborted;
  another thing happens to the sessions, such as a signal of the plugin; a source of an adapter fires.
\<close>

inductive bus_run ::
  "acm \<Rightarrow> string list option \<Rightarrow> session_bus \<Rightarrow> nat list \<Rightarrow> nat list \<Rightarrow> session_bus \<Rightarrow> bool" for m mechs b0 where
  start: "bus_run m mechs b0 [] [] b0"
| create: "bus_run m mechs b0 c x b \<Longrightarrow> n \<notin> fst ` set (sb_adapters b) \<Longrightarrow>
     fst (gsignond_dbus_auth_session_adapter_new_with_connection nonce exported s app secs counter) = Some a \<Longrightarrow>
     bus_run m mechs b0 c x (b\<lparr>sb_adapters := (n, a) # sb_adapters b\<rparr>)"
| query: "bus_run m mechs b0 c x b \<Longrightarrow> k \<notin> set c \<Longrightarrow> n \<in> fst ` set (sb_adapters b) \<Longrightarrow>
     handle_query_available_mechanisms m mechs n k peer wanted b = Inr b' \<Longrightarrow> bus_run m mechs b0 (k # c) x b'"
| process: "bus_run m mechs b0 c x b \<Longrightarrow> k \<notin> set c \<Longrightarrow> n \<in> fst ` set (sb_adapters b) \<Longrightarrow> waiting_of n b = [] \<Longrightarrow>
     handle_process m mechs n k peer session_data mechanism b = Inr b' \<Longrightarrow> bus_run m mechs b0 (k # c) x b'"
| cancel: "bus_run m mechs b0 c x b \<Longrightarrow> k \<notin> set c \<Longrightarrow> n \<in> fst ` set (sb_adapters b) \<Longrightarrow>
     handle_cancel m n k peer b = Inr b' \<Longrightarrow> bus_run m mechs b0 (k # c) x b'"
| abort: "bus_run m mechs b0 c x b \<Longrightarrow> gsignond_dbus_auth_session_adapter_abort_process n b = Inr b' \<Longrightarrow>
     bus_run m mechs b0 c (waiting_of n b' @ x) b'"
| works: "bus_run m mechs b0 c x b \<Longrightarrow> plain_input i \<Longrightarrow>
     call_session (map_sum id (Pair ()) \<circ> session_step m mechs i) b = Inr ((), b') \<Longrightarrow> bus_run m mechs b0 c x b'"
| fires: "bus_run m mechs b0 c x b \<Longrightarrow> map_of (sb_adapters b) n = Some a \<Longrightarrow>
     i \<in> fst ` set (sources (ta_disposable a)) \<Longrightarrow> fire_adapter n i b = Inr b' \<Longrightarrow> bus_run m mechs b0 c x b'"

lemma bus_run_inv:
  assumes "bus_run m mechs b0 c x b" "bus_inv [] [] b0"
  shows "bus_inv c x b"
  using assms
proof (induction rule: bus_run.induct)
  case (query c x b k n peer wanted b')
  then show ?case using handle_query_safe [of c x b k n m mechs peer wanted] by simp
next
  case (process c x b k n peer v mech b')
  then show ?case using handle_process_safe [of c x b k n m mechs peer v mech] by auto
next
  case (cancel c x b k n peer b')
  then show ?case using handle_cancel_safe [of c x b k n m peer] by simp
next
  case (abort c x b n b')
  then show ?case using abort_safe [of c x b n] by simp
next
  case (works c x b i b')
  from works.IH [OF works.prems] works.hyps(2) show ?case
    by (cases rule: step_call_safe [where m = m and mechs = mechs, consumes 2]) (use works.hyps(3) in simp_all)
next
  case (fires c x b n a i b')
  then show ?case using fire_safe [of c x b n a i] by auto
qed (auto intro: new_adapter_safe)

definition session_bus_new :: "plugin_proxy \<Rightarrow> (session_id \<times> auth_session) list \<Rightarrow> session_bus" where
  "session_bus_new p sessions =
     \<lparr>sb_world = auth_world_new p sessions, sb_adapters = [], sb_infos = [], sb_next = 1, sb_out = []\<rparr>"

lemma session_bus_new_inv:
  assumes "gsignond_plugin_proxy_new remote loader type = Some p"
  shows "bus_inv [] [] (session_bus_new p sessions)"
  using auth_world_new_inv [OF assms]
  by (auto simp: bus_inv_def bus_ok_def session_bus_new_def callbacks_ok_def auth_world_new_def waiting_def
      waiting_of_def replies_def)

text \<open>
  C36. Calls of a session over the bus are answered, for an adapter that gets one process call at a time, and a plugin that
  answers a request once, with its final response or an error (it sends no intermediate response), and whose
  error messages are safe as a format. Whatever else applications, the plugin and the main loop do, in any order and up
  to the first step whose behaviour is undefined, such as cancelling a request that waits in the queue: every
  call has got exactly one answer, but for the process calls that still wait and those whose session was aborted,
  which have got none. An adapter with a call that waits exists and is held, the process data on the heap is that of
  the waiting calls, and a further process call returns without a fault.
\<close>

theorem session_calls_answered:
  assumes "gsignond_plugin_proxy_new remote loader type = Some p"
    and "bus_run m mechs (session_bus_new p sessions) c x b"
  shows "(\<forall>k \<in> set c. replies k b = (if k \<in> set x \<or> k \<in> set (waiting b) then 0 else 1)) \<and>
     (\<forall>n. waiting_of n b \<noteq> [] \<longrightarrow> (\<exists>a. map_of (sb_adapters b) n = Some a \<and>
        \<not> gsignond_disposable_get_auto_dispose (ta_disposable a) \<and> sources (ta_disposable a) = [])) \<and>
     length (w_heap (sb_world b)) = length (waiting b) \<and>
     (\<forall>n k peer v mech. n \<in> fst ` set (sb_adapters b) \<and> waiting_of n b = [] \<and> k \<notin> set c \<longrightarrow>
        (\<exists>b'. handle_process m mechs n k peer v mech b = Inr b'))"
proof (intro conjI)
  have inv: "bus_inv c x b"
    using bus_run_inv [OF assms(2) session_bus_new_inv [OF assms(1)]] .
  then have ok: "bus_ok c x None (w_heap (sb_world b)) b"
    by (simp add: bus_inv_def)
  then show "\<forall>k \<in> set c. replies k b = (if k \<in> set x \<or> k \<in> set (waiting b) then 0 else 1)"
    by (simp add: bus_ok_def)
  have "mset (map (\<lambda>p. cb_userdata (snd p)) (w_heap (sb_world b))) = mset (map fst (sb_infos b))"
    using ok by (simp add: bus_ok_def callbacks_ok_def)
  from arg_cong [OF this, of size] show "length (w_heap (sb_world b)) = length (waiting b)"
    by (simp add: waiting_def)
  show "\<forall>n k peer v mech. n \<in> fst ` set (sb_adapters b) \<and> waiting_of n b = [] \<and> k \<notin> set c \<longrightarrow>
      (\<exists>b'. handle_process m mechs n k peer v mech b = Inr b')"
    using handle_process_safe [OF inv] by blast
  show "\<forall>n. waiting_of n b \<noteq> [] \<longrightarrow> (\<exists>a. map_of (sb_adapters b) n = Some a \<and>
      \<not> gsignond_disposable_get_auto_dispose (ta_disposable a) \<and> sources (ta_disposable a) = [])"
  proof (intro allI impI)
    fix n assume n: "waiting_of n b \<noteq> []"
    then obtain a where a: "map_of (sb_adapters b) n = Some a"
      using waiting_of_none [OF ok] map_of_SomeI by metis
    have counts: "adapter_counts x None n (waiting_of n b) a"
      using ok a by (simp add: bus_ok_def)
    then obtain t where t: "disposable_inv t (ta_disposable a)" "unrefs (ta_disposable a) = 0"
      using disposable_run_inv by (auto simp: adapter_counts_def)
    have "keep_obj_counter (ta_disposable a) \<noteq> 0"
      using counts n small_count [of "length (waiting_of n b)"] by (simp add: adapter_counts_def)
    with a t show "\<exists>a. map_of (sb_adapters b) n = Some a \<and>
        \<not> gsignond_disposable_get_auto_dispose (ta_disposable a) \<and> sources (ta_disposable a) = []"
      by (auto simp: gsignond_disposable_get_auto_dispose_def disposable_inv_def)
  qed
qed

text \<open>
  The flag of an adapter does not tell its calls apart: when two process calls wait, the answer to
  the second one is not sent, and neither is the first one's when the second fails at once.
\<close>

lemma overlapping_call_unanswered:
  assumes "on_process_done answer u b = Inr b1" and "map_of (sb_infos b) u = Some i" and "map_of (sb_infos b) v = Some j"
    and "di_adapter i = di_adapter j" "u \<noteq> v" and "on_process_done answer' v b1 = Inr b2"
  shows "sb_out b2 = sb_out b1"
  using assms
  by (auto simp: on_process_done_def map_of_map_entry delete_conv' set_auto_dispose_def split: option.splits if_splits)

definition example_bus :: session_bus where
  "example_bus = (session_bus_new (the (gsignond_plugin_proxy_new (\<lambda>_ t. Some t) (Some ''l'') (Some ''t'')))
       [(1, example_session)])
     \<lparr>sb_adapters := [(4, the (fst (gsignond_dbus_auth_session_adapter_new_with_connection
        (Some ''n'') (\<lambda>_. True) 1 None 30 0)))]\<rparr>"

lemma example_cache:
  "create_mechanism_cache (Some [''pw'']) example_session = example_session\<lparr>available_mechanisms := Some [''pw'']\<rparr>"
proof -
  have "available_mechanisms example_session = None"
    by (simp add: example_session_def)
  then show ?thesis
    by (simp add: create_mechanism_cache_def example_identity_new)
qed

lemmas example_bus_simps =
  handle_process_def example_bus_def session_bus_new_def auth_world_new_def Let_def call_session_def
  gsignond_dbus_auth_session_adapter_new_with_connection_def gsignond_auth_session_process_def
  example_access example_cache the_mechanisms_def g_sequence_lookup_def
  gsignond_dbus_auth_session_adapter_init_def prepare_security_context_def set_auto_dispose_def
  with_proxy_def gsignond_plugin_proxy_new_def gsignond_plugin_proxy_constructor_def
  gsignond_plugin_proxy_init_def gsignond_plugin_proxy_process_def gsignond_plugin_proxy_process_queue_def
  emit_def call_plugin_def gsignond_process_data_new_def gsignond_auth_session_notify_state_changed_def tell_def
  emit_state_changed_def send_def on_adapter_def waiting_def

lemma example_call:
  "\<exists>b b'. handle_process example_acm (Some [''pw'']) 4 7 (Socket 5) (VArray ''{sv}'' []) ''pw'' example_bus = Inr b \<and>
     waiting b = [7] \<and> call_session (map_sum id (Pair ()) \<circ>
       session_step example_acm (Some [''pw'']) (S_response_final [])) b = Inr ((), b') \<and> waiting b' = []"
  by (simp add: example_bus_simps)
    (simp add: gsignond_plugin_proxy_response_final_callback_def gsignond_plugin_proxy_process_queue_def
      emit_def Let_def gsignond_auth_session_notify_process_result_def tell_def on_process_done_def
      process_answer_def auth_session_dbus_info_free_def send_def on_adapter_def)

text \<open>The call 7 waits, and is answered by the plugin's response.\<close>

theorem session_calls_answered_witness:
  "\<exists>b b'. handle_process example_acm (Some [''pw'']) 4 7 (Socket 5) (VArray ''{sv}'' []) ''pw'' example_bus = Inr b \<and>
     replies 7 b = 0 \<and> call_session (map_sum id (Pair ()) \<circ>
       session_step example_acm (Some [''pw'']) (S_response_final [])) b = Inr ((), b') \<and> replies 7 b' = 1"
proof -
  obtain b b' where b: "handle_process example_acm (Some [''pw'']) 4 7 (Socket 5) (VArray ''{sv}'' []) ''pw'' example_bus = Inr b"
      "waiting b = [7]" and b': "call_session (map_sum id (Pair ()) \<circ>
       session_step example_acm (Some [''pw'']) (S_response_final [])) b = Inr ((), b')" "waiting b' = []"
    using example_call by blast
  obtain p where p: "gsignond_plugin_proxy_new (\<lambda>_ t. Some t) (Some ''l'') (Some ''t'') = Some p"
    by (auto simp: gsignond_plugin_proxy_new_def gsignond_plugin_proxy_constructor_def Let_def)
  let ?run = "bus_run example_acm (Some [''pw'']) (session_bus_new p [(1, example_session)])"
  let ?b0 = "session_bus_new p [(1, example_session)]"
  obtain a where a: "fst (gsignond_dbus_auth_session_adapter_new_with_connection (Some ''n'') (\<lambda>_. True) 1 None 30 0) = Some a"
    by (simp add: gsignond_dbus_auth_session_adapter_new_with_connection_def Let_def)
  have "?run [] [] (?b0\<lparr>sb_adapters := (4, a) # sb_adapters ?b0\<rparr>)"
    by (rule bus_run.create [OF bus_run.start _ a]) (simp add: session_bus_new_def)
  moreover have "example_bus = ?b0\<lparr>sb_adapters := (4, a) # sb_adapters ?b0\<rparr>"
    unfolding example_bus_def a p option.sel by (simp add: session_bus_new_def)
  ultimately have "?run [] [] example_bus"
    by simp
  from bus_run.process [OF this _ _ _ b(1)] have run: "?run [7] [] b"
    by (simp add: example_bus_def session_bus_new_def waiting_of_def)
  have run': "?run [7] [] b'"
    by (rule bus_run.works [OF run _ b'(1)]) simp
  show ?thesis
    using session_calls_answered [OF p run] session_calls_answered [OF p run'] b b' by auto
qed

end
