(* ===== verification/Gsso_Dbus_Service.thy ===== *)
theory Gsso_Dbus_Service
  imports Gsso_Identity Gsso_Dbus_Auth_Session
begin

text \<open>
  \<^verbatim>\<open>src/src/daemon/dbus/gsignond-dbus-auth-service-adapter.c\<close> and
  \<^verbatim>\<open>src/src/daemon/dbus/gsignond-dbus-identity-adapter.c\<close>: the object on the bus that gives out
  identities, and an object per identity given out. The state is that of the daemon, the objects of
  identities with their reference counts, the handlers they have connected to the signals of
  identities, and the infos (\<^verbatim>\<open>_IdentityDbusInfo\<close>) of the calls that wait for a dialog.

  Of the objects of sessions only what ties them to their identity is here: the references, and the weak
  reference by which the identity's object hears that one is gone. What they do otherwise is in
  \<open>Gsso_Dbus_Auth_Session\<close>. The signals an identity emits during a call are delivered right after it.
\<close>

record bus_info =
  bi_adapter :: nat
  bi_invocation :: nat

text \<open>A handler connected to an identity, with its user data.\<close>

datatype identity_handler =
    Info_updated_handler nat
  | User_verified_handler nat
  | Secret_verified_handler nat
  | Credentials_updated_handler nat

record identity_object =
  io_disposable :: disposable
  io_refs :: nat
  io_identity :: nat
  io_app_context :: cstr
  io_ctx :: security_context
  io_client :: cstr
  io_path :: string
  io_sessions :: "nat list"
  io_info_updated :: nat
  io_verify_user :: nat
  io_verify_secret :: nat
  io_credentials_update :: nat

record session_object =
  so_owner :: nat
  so_weak :: bool
  so_refs :: nat
  so_session :: session_id

datatype reply_value =
    Failed gerror
  | Path string
  | Identity_data string gvariant
  | Strings "string list"
  | Variant gvariant
  | Number u32
  | Truth bool
  | Nothing

datatype service_message =
    Reply nat reply_value
  | Identity_changed nat identity_change
  | Identity_unregistered nat
  | Session_unregistered nat
  | Abort_session nat

datatype service_fault = In_dialog dialog_fault | Object_gone | Info_gone | Not_an_info | Not_exported

text \<open>\<open>vb_disposable\<close>, \<open>vb_identities\<close> and \<open>vb_watched\<close> belong to the object that gives out identities.\<close>

record 's service_bus =
  vb_daemon :: "'s daemon"
  vb_disposable :: disposable
  vb_identities :: "nat list"
  vb_watched :: "string list"
  vb_objects :: "(nat \<times> identity_object) list"
  vb_sessions :: "(nat \<times> session_object) list"
  vb_infos :: "(nat \<times> bus_info) list"
  vb_handlers :: "(nat \<times> nat \<times> identity_handler) list"
  vb_next :: nat
  vb_identity_counter :: u32
  vb_session_counter :: u32
  vb_out :: "service_message list"

text \<open>What the adapters take from their surroundings: the environment of the daemon, timeouts, a nonce, and whether a path can be exported.\<close>

record 's bus_env =
  be_daemon :: "'s daemon_env"
  be_identity_timeout :: u32
  be_session_timeout :: u32
  be_nonce :: cstr
  be_exported :: "string \<Rightarrow> bool"

definition put_out :: "service_message \<Rightarrow> 's service_bus \<Rightarrow> 's service_bus" where
  "put_out msg b = b\<lparr>vb_out := vb_out b @ [msg]\<rparr>"

definition on_object :: "nat \<Rightarrow> (identity_object \<Rightarrow> identity_object) \<Rightarrow> 's service_bus \<Rightarrow> 's service_bus" where
  "on_object m f b = b\<lparr>vb_objects := AList.map_entry m f (vb_objects b)\<rparr>"

definition hold_object :: "bool \<Rightarrow> nat \<Rightarrow> 's service_bus \<Rightarrow> 's service_bus" where
  "hold_object dispose m = on_object m
     (\<lambda>self. self\<lparr>io_disposable := gsignond_disposable_set_auto_dispose (io_disposable self) dispose\<rparr>)"

definition hold_service :: "bool \<Rightarrow> 's service_bus \<Rightarrow> 's service_bus" where
  "hold_service dispose b = b\<lparr>vb_disposable := gsignond_disposable_set_auto_dispose (vb_disposable b) dispose\<rparr>"

definition connect_handler :: "nat \<Rightarrow> identity_handler \<Rightarrow> 's service_bus \<Rightarrow> nat \<times> 's service_bus" where
  "connect_handler n h b =
     (vb_next b, b\<lparr>vb_handlers := vb_handlers b @ [(vb_next b, n, h)], vb_next := vb_next b + 1\<rparr>)"

definition disconnect_handler :: "nat \<Rightarrow> 's service_bus \<Rightarrow> 's service_bus" where
  "disconnect_handler i b = b\<lparr>vb_handlers := AList.delete i (vb_handlers b)\<rparr>"

definition peer_sender :: "bus_peer \<Rightarrow> cstr" where
  "peer_sender peer = (case peer of Bus_name name \<Rightarrow> Some name | Socket s \<Rightarrow> None)"

definition peer_fd :: "bus_peer \<Rightarrow> int" where
  "peer_fd peer = (case peer of Bus_name name \<Rightarrow> -1 | Socket s \<Rightarrow> s)"

subsection \<open>The end of the objects of sessions\<close>

definition on_session_disposed :: "nat \<Rightarrow> nat \<Rightarrow> 's service_bus \<Rightarrow> service_fault + 's service_bus" where
  "on_session_disposed m session b =
     (case map_of (vb_objects b) m of
        None \<Rightarrow> Inl Object_gone
      | Some self \<Rightarrow>
          let sessions = remove1 session (io_sessions self);
              b = on_object m (\<lambda>self. self\<lparr>io_sessions := sessions\<rparr>) b
          in Inr (if length sessions = 0 then hold_object True m b else b))"

text \<open>\<^verbatim>\<open>g_object_unref\<close>: the last one disposes of the object, which runs its weak reference.\<close>

definition session_object_unref :: "nat \<Rightarrow> 's service_bus \<Rightarrow> service_fault + 's service_bus" where
  "session_object_unref s b =
     (case map_of (vb_sessions b) s of
        None \<Rightarrow> Inl Object_gone
      | Some session \<Rightarrow>
          if so_refs session > 1
          then Inr (b\<lparr>vb_sessions := AList.update s (session\<lparr>so_refs := so_refs session - 1\<rparr>) (vb_sessions b)\<rparr>)
          else
            let b = put_out (Session_unregistered s) (b\<lparr>vb_sessions := AList.delete s (vb_sessions b)\<rparr>)
            in if so_weak session then on_session_disposed (so_owner session) s b else Inr b)"

text \<open>\<open>user_data\<close>: the object whose weak reference is to be removed; another one than the owner has none.\<close>

definition destroy_session :: "nat option \<Rightarrow> nat \<Rightarrow> 's service_bus \<Rightarrow> service_fault + 's service_bus" where
  "destroy_session user_data s b =
     (case map_of (vb_sessions b) s of
        None \<Rightarrow> Inl Object_gone
      | Some session \<Rightarrow>
          let session = (if user_data = Some (so_owner session) then session\<lparr>so_weak := False\<rparr> else session);
              b = b\<lparr>vb_sessions := AList.update s session (vb_sessions b)\<rparr>;
              b = put_out (Abort_session s) b
          in session_object_unref s b)"

fun destroy_sessions :: "nat option \<Rightarrow> nat list \<Rightarrow> 's service_bus \<Rightarrow> service_fault + 's service_bus" where
  "destroy_sessions user_data [] b = Inr b"
| "destroy_sessions user_data (s # ss) b =
     (case destroy_session user_data s b of Inl f \<Rightarrow> Inl f | Inr b \<Rightarrow> destroy_sessions user_data ss b)"

subsection \<open>The end of the objects of identities\<close>

text \<open>\<^verbatim>\<open>_on_identity_disposed\<close> of the object that gives out identities.\<close>

definition service_on_identity_disposed :: "nat \<Rightarrow> 's service_bus \<Rightarrow> 's service_bus" where
  "service_on_identity_disposed m b =
     (let b = b\<lparr>vb_identities := remove1 m (vb_identities b)\<rparr>
      in if length (vb_identities b) = 0 then hold_service True b else b)"

text \<open>The handlers are disconnected, and the reference to the identity goes.\<close>

definition release_identity :: "nat \<Rightarrow> identity_object \<Rightarrow> 's service_bus \<Rightarrow> 's service_bus" where
  "release_identity m self b =
     (let b = disconnect_handler (io_info_updated self) b;
          b = disconnect_handler (io_verify_user self) b;
          b = disconnect_handler (io_verify_secret self) b;
          b = disconnect_handler (io_credentials_update self) b;
          b = b\<lparr>vb_objects := AList.delete m (vb_objects b)\<rparr>;
          b = (if \<exists>(k, other) \<in> set (vb_objects b). io_identity other = io_identity self then b
               else b\<lparr>vb_daemon := identity_dispose (io_identity self) (vb_daemon b)\<rparr>)
      in put_out (Identity_unregistered m) b)"

definition identity_adapter_dispose :: "nat \<Rightarrow> 's service_bus \<Rightarrow> service_fault + 's service_bus" where
  "identity_adapter_dispose m b =
     (case map_of (vb_objects b) m of
        None \<Rightarrow> Inl Object_gone
      | Some self \<Rightarrow>
          (case destroy_sessions (Some m) (io_sessions self) b of
             Inl f \<Rightarrow> Inl f
           | Inr b \<Rightarrow> Inr (service_on_identity_disposed m (release_identity m self b))))"

definition identity_object_unref :: "nat \<Rightarrow> 's service_bus \<Rightarrow> service_fault + 's service_bus" where
  "identity_object_unref m b =
     (case map_of (vb_objects b) m of
        None \<Rightarrow> Inl Object_gone
      | Some self \<Rightarrow>
          if io_refs self > 1 then Inr (on_object m (\<lambda>self. self\<lparr>io_refs := io_refs self - 1\<rparr>) b)
          else identity_adapter_dispose m b)"

subsection \<open>The handlers of the signals of an identity\<close>

definition emit_info_updated :: "identity_change \<Rightarrow> nat \<Rightarrow> 's service_bus \<Rightarrow> service_fault + 's service_bus" where
  "emit_info_updated change m b =
     (case map_of (vb_objects b) m of
        None \<Rightarrow> Inl Object_gone
      | Some self \<Rightarrow>
          let b = put_out (Identity_changed m change) b
          in if change = GSIGNOND_IDENTITY_REMOVED then
               Inr (on_object m (\<lambda>self. self\<lparr>io_disposable := gsignond_disposable_delete_later (io_disposable self)\<rparr>) b)
             else if change = GSIGNOND_IDENTITY_SIGNED_OUT \<and> io_sessions self \<noteq> [] then
               (case destroy_sessions None (io_sessions self) b of
                  Inl f \<Rightarrow> Inl f
                | Inr b \<Rightarrow> Inr (on_object m (\<lambda>self. self\<lparr>io_sessions := []\<rparr>) b))
             else Inr b)"

definition identity_info_new :: "nat \<Rightarrow> nat \<Rightarrow> 's service_bus \<Rightarrow> nat \<times> 's service_bus" where
  "identity_info_new m invocation b =
     (vb_next b, (on_object m (\<lambda>self. self\<lparr>io_refs := io_refs self + 1\<rparr>) b)
        \<lparr>vb_infos := (vb_next b, \<lparr>bi_adapter = m, bi_invocation = invocation\<rparr>) # vb_infos b, vb_next := vb_next b + 1\<rparr>)"

definition identity_info_free :: "nat \<Rightarrow> 's service_bus \<Rightarrow> service_fault + 's service_bus" where
  "identity_info_free i b =
     (case map_of (vb_infos b) i of
        None \<Rightarrow> Inl Info_gone
      | Some info \<Rightarrow> identity_object_unref (bi_adapter info) (b\<lparr>vb_infos := AList.delete i (vb_infos b)\<rparr>))"

text \<open>The handler disconnected is the one whose id the object has, not the one that runs.\<close>

definition on_user_verified_info :: "nat \<Rightarrow> bool \<Rightarrow> gerror option \<Rightarrow> 's service_bus \<Rightarrow> service_fault + 's service_bus" where
  "on_user_verified_info i res error b =
     (case map_of (vb_infos b) i of
        None \<Rightarrow> Inl Info_gone
      | Some info \<Rightarrow>
          (case map_of (vb_objects b) (bi_adapter info) of
             None \<Rightarrow> Inl Object_gone
           | Some self \<Rightarrow>
               let b = disconnect_handler (io_verify_user self) b;
                   b = on_object (bi_adapter info) (\<lambda>self. self\<lparr>io_verify_user := 0\<rparr>) b;
                   b = put_out (Reply (bi_invocation info) (case error of Some e \<Rightarrow> Failed e | None \<Rightarrow> Truth res)) b;
                   b = hold_object True (bi_adapter info) b
               in identity_info_free i b))"

definition on_secret_verified_info :: "nat \<Rightarrow> bool \<Rightarrow> gerror option \<Rightarrow> 's service_bus \<Rightarrow> service_fault + 's service_bus" where
  "on_secret_verified_info i res error b =
     (case map_of (vb_infos b) i of
        None \<Rightarrow> Inl Info_gone
      | Some info \<Rightarrow>
          (case map_of (vb_objects b) (bi_adapter info) of
             None \<Rightarrow> Inl Object_gone
           | Some self \<Rightarrow>
               let b = disconnect_handler (io_verify_secret self) b;
                   b = on_object (bi_adapter info) (\<lambda>self. self\<lparr>io_verify_secret := 0\<rparr>) b;
                   b = put_out (Reply (bi_invocation info) (case error of Some e \<Rightarrow> Failed e | None \<Rightarrow> Truth res)) b;
                   b = hold_object True (bi_adapter info) b
               in identity_info_free i b))"

text \<open>
  The handler of \<^verbatim>\<open>credentials-updated\<close> takes its user data for an info, and reads the object behind it; what it
  is connected with is the object itself.
\<close>

definition on_credentials_updated_info ::
  "nat \<Rightarrow> u32 \<Rightarrow> gerror option \<Rightarrow> 's service_bus \<Rightarrow> service_fault + 's service_bus" where
  "on_credentials_updated_info i updated_id error b =
     (case map_of (vb_infos b) i of
        None \<Rightarrow> Inl Not_an_info
      | Some info \<Rightarrow>
          (case map_of (vb_objects b) (bi_adapter info) of
             None \<Rightarrow> Inl Object_gone
           | Some self \<Rightarrow>
               let b = disconnect_handler (io_credentials_update self) b;
                   b = on_object (bi_adapter info) (\<lambda>self. self\<lparr>io_credentials_update := 0\<rparr>) b;
                   b = put_out (Reply (bi_invocation info) (case error of Some e \<Rightarrow> Failed e | None \<Rightarrow> Number updated_id)) b;
                   b = hold_object True (bi_adapter info) b
               in identity_info_free i b))"

text \<open>The emission of a signal: the handlers connected to it run in order, unless disconnected before their turn.\<close>

fun handles :: "daemon_event \<Rightarrow> nat \<times> identity_handler \<Rightarrow> bool" where
  "handles (Sig_info_updated n change) (k, Info_updated_handler m) = (k = n)"
| "handles (Sig_user_verified n res error) (k, User_verified_handler i) = (k = n)"
| "handles (Sig_credentials_updated n ident error) (k, Credentials_updated_handler m) = (k = n)"
| "handles _ _ = False"

fun run_handler :: "daemon_event \<Rightarrow> identity_handler \<Rightarrow> 's service_bus \<Rightarrow> service_fault + 's service_bus" where
  "run_handler (Sig_info_updated n change) (Info_updated_handler m) b = emit_info_updated change m b"
| "run_handler (Sig_user_verified n res error) (User_verified_handler i) b = on_user_verified_info i res error b"
| "run_handler (Sig_credentials_updated n ident error) (Credentials_updated_handler i) b =
     on_credentials_updated_info i ident error b"
| "run_handler _ _ b = Inr b"

fun run_connected :: "daemon_event \<Rightarrow> (nat \<times> nat \<times> identity_handler) list \<Rightarrow> 's service_bus \<Rightarrow> service_fault + 's service_bus" where
  "run_connected e [] b = Inr b"
| "run_connected e ((i, n, h) # hs) b =
     (if map_of (vb_handlers b) i = None then run_connected e hs b
      else case run_handler e h b of Inl f \<Rightarrow> Inl f | Inr b \<Rightarrow> run_connected e hs b)"

fun deliver_signals :: "daemon_event list \<Rightarrow> 's service_bus \<Rightarrow> service_fault + 's service_bus" where
  "deliver_signals [] b = Inr b"
| "deliver_signals (e # es) b =
     (case run_connected e (filter (\<lambda>(i, nh). handles e nh) (vb_handlers b)) b of
        Inl f \<Rightarrow> Inl f | Inr b \<Rightarrow> deliver_signals es b)"

text \<open>Something happens in the daemon, with the signals that it emits.\<close>

definition in_daemon ::
  "('s daemon \<Rightarrow> dialog_fault + 'r \<times> 's daemon) \<Rightarrow> 's service_bus \<Rightarrow> service_fault + 'r \<times> 's service_bus" where
  "in_daemon f b =
     (case f (vb_daemon b) of
        Inl fl \<Rightarrow> Inl (In_dialog fl)
      | Inr (r, d) \<Rightarrow>
          map_sum id (Pair r)
            (deliver_signals (drop (length (d_log (vb_daemon b))) (d_log d)) (b\<lparr>vb_daemon := d\<rparr>)))"

subsection \<open>The methods of an identity\<close>

definition identity_prepare_security_context :: "acm \<Rightarrow> bus_peer \<Rightarrow> identity_object \<Rightarrow> identity_object" where
  "identity_prepare_security_context acm peer self =
     self\<lparr>io_ctx := gsignond_access_control_manager_security_context_of_peer acm (io_ctx self) (peer_fd peer)
       (peer_sender peer) (io_app_context self)\<rparr>"

text \<open>What every method does first, and the call of the identity.\<close>

definition call_identity ::
  "nat \<Rightarrow> bus_peer \<Rightarrow> (nat \<Rightarrow> security_context \<Rightarrow> 's daemon \<Rightarrow> dialog_fault + 'r \<times> 's daemon) \<Rightarrow> 's service_bus \<Rightarrow>
   service_fault + 'r \<times> 's service_bus" where
  "call_identity m peer f b =
     (let b = hold_object False m b;
          acm = gsignond_daemon_get_access_control_manager (vb_daemon b);
          b = on_object m (identity_prepare_security_context acm peer) b
      in case map_of (vb_objects b) m of
           None \<Rightarrow> Inl Object_gone
         | Some self \<Rightarrow> in_daemon (f (io_identity self) (io_ctx self)) b)"

text \<open>A method that replies when the call has returned.\<close>

definition method_reply ::
  "nat \<Rightarrow> nat \<Rightarrow> bus_peer \<Rightarrow> (nat \<Rightarrow> security_context \<Rightarrow> 's daemon \<Rightarrow> dialog_fault + 'r \<times> 's daemon) \<Rightarrow>
   ('r \<Rightarrow> reply_value) \<Rightarrow> 's service_bus \<Rightarrow> service_fault + 's service_bus" where
  "method_reply m invocation peer f reply b =
     (case call_identity m peer f b of
        Inl fl \<Rightarrow> Inl fl
      | Inr (r, b) \<Rightarrow> Inr (hold_object True m (put_out (Reply invocation (reply r)) b)))"

definition reply_or_error :: "('a \<Rightarrow> reply_value) \<Rightarrow> gerror + 'a \<Rightarrow> reply_value" where
  "reply_or_error f r = (case r of Inl e \<Rightarrow> Failed e | Inr x \<Rightarrow> f x)"

definition handle_get_info :: "nat \<Rightarrow> nat \<Rightarrow> bus_peer \<Rightarrow> 's service_bus \<Rightarrow> service_fault + 's service_bus" where
  "handle_get_info m invocation peer =
     method_reply m invocation peer (\<lambda>n ctx d. Inr (gsignond_identity_get_info n ctx d, d)) (reply_or_error Variant)"

definition handle_remove :: "'s bus_env \<Rightarrow> nat \<Rightarrow> nat \<Rightarrow> bus_peer \<Rightarrow> 's service_bus \<Rightarrow> service_fault + 's service_bus" where
  "handle_remove env m invocation peer =
     method_reply m invocation peer (\<lambda>n ctx d. Inr (gsignond_identity_remove (be_daemon env) n ctx d))
       (reply_or_error (\<lambda>_. Nothing))"

definition handle_sign_out :: "'s bus_env \<Rightarrow> nat \<Rightarrow> nat \<Rightarrow> bus_peer \<Rightarrow> 's service_bus \<Rightarrow> service_fault + 's service_bus" where
  "handle_sign_out env m invocation peer =
     method_reply m invocation peer (\<lambda>n ctx d. Inr (gsignond_identity_sign_out (be_daemon env) n ctx d))
       (reply_or_error (\<lambda>_. Truth True))"

definition handle_store ::
  "'s bus_env \<Rightarrow> nat \<Rightarrow> nat \<Rightarrow> bus_peer \<Rightarrow> gvariant \<Rightarrow> 's service_bus \<Rightarrow> service_fault + 's service_bus" where
  "handle_store env m invocation peer info =
     method_reply m invocation peer (\<lambda>n ctx d. Inr (gsignond_identity_store (be_daemon env) n (Some info) ctx d))
       (reply_or_error Number)"

definition handle_add_reference ::
  "nat \<Rightarrow> nat \<Rightarrow> bus_peer \<Rightarrow> string \<Rightarrow> 's service_bus \<Rightarrow> service_fault + 's service_bus" where
  "handle_add_reference m invocation peer reference =
     method_reply m invocation peer (\<lambda>n ctx d. Inr (gsignond_identity_add_reference n reference ctx d))
       (reply_or_error (\<lambda>_. Number 1))"

text \<open>An id is a success, whether or not an error was set.\<close>

definition handle_remove_reference ::
  "nat \<Rightarrow> nat \<Rightarrow> bus_peer \<Rightarrow> string \<Rightarrow> 's service_bus \<Rightarrow> service_fault + 's service_bus" where
  "handle_remove_reference m invocation peer reference =
     method_reply m invocation peer (\<lambda>n ctx d. Inr (gsignond_identity_remove_reference n (Some reference) ctx d))
       (\<lambda>(ident, error). if ident \<noteq> 0 then Number ident else case error of Some e \<Rightarrow> Failed e | None \<Rightarrow> Number ident)"

text \<open>A method that replies when a dialog has ended; what it does without an error is \<open>wait\<close>.\<close>

definition method_wait ::
  "nat \<Rightarrow> nat \<Rightarrow> bus_peer \<Rightarrow> (nat \<Rightarrow> security_context \<Rightarrow> 's daemon \<Rightarrow> dialog_fault + (gerror + unit) \<times> 's daemon) \<Rightarrow>
   (identity_object \<Rightarrow> 's service_bus \<Rightarrow> 's service_bus) \<Rightarrow> 's service_bus \<Rightarrow> service_fault + 's service_bus" where
  "method_wait m invocation peer f wait b =
     (case call_identity m peer f b of
        Inl fl \<Rightarrow> Inl fl
      | Inr (Inl error, b) \<Rightarrow> Inr (hold_object True m (put_out (Reply invocation (Failed error)) b))
      | Inr (Inr _, b) \<Rightarrow>
          (case map_of (vb_objects b) m of None \<Rightarrow> Inl Object_gone | Some self \<Rightarrow> Inr (wait self b)))"

text \<open>The object itself is the user data of the handler, where an info is expected.\<close>

definition wait_for_credentials :: "nat \<Rightarrow> identity_object \<Rightarrow> 's service_bus \<Rightarrow> 's service_bus" where
  "wait_for_credentials m self b =
     (case connect_handler (io_identity self) (Credentials_updated_handler m) b of
        (i, b) \<Rightarrow> on_object m (\<lambda>self. self\<lparr>io_credentials_update := i\<rparr>) b)"

definition handle_request_credentials_update ::
  "'s bus_env \<Rightarrow> nat \<Rightarrow> nat \<Rightarrow> bus_peer \<Rightarrow> string \<Rightarrow> 's service_bus \<Rightarrow> service_fault + 's service_bus" where
  "handle_request_credentials_update env m invocation peer message =
     method_wait m invocation peer
       (\<lambda>n ctx d. gsignond_identity_request_credentials_update (be_daemon env) n (Some message) ctx d)
       (wait_for_credentials m)"

definition wait_for_user :: "nat \<Rightarrow> nat \<Rightarrow> identity_object \<Rightarrow> 's service_bus \<Rightarrow> 's service_bus" where
  "wait_for_user m invocation self b =
     (case identity_info_new m invocation b of
        (info, b) \<Rightarrow> (case connect_handler (io_identity self) (User_verified_handler info) b of
           (i, b) \<Rightarrow> on_object m (\<lambda>self. self\<lparr>io_verify_user := i\<rparr>) b))"

definition handle_verify_user ::
  "'s bus_env \<Rightarrow> nat \<Rightarrow> nat \<Rightarrow> bus_peer \<Rightarrow> gvariant \<Rightarrow> 's service_bus \<Rightarrow> service_fault + 's service_bus" where
  "handle_verify_user env m invocation peer params =
     method_wait m invocation peer (\<lambda>n ctx d. gsignond_identity_verify_user (be_daemon env) n params ctx d)
       (wait_for_user m invocation)"

definition handle_verify_secret ::
  "nat \<Rightarrow> nat \<Rightarrow> bus_peer \<Rightarrow> string \<Rightarrow> 's service_bus \<Rightarrow> service_fault + 's service_bus" where
  "handle_verify_secret m invocation peer secret =
     method_wait m invocation peer (\<lambda>n ctx d. Inr (gsignond_identity_verify_secret n (Some secret) ctx d, d))
       (\<lambda>self b. case identity_info_new m invocation b of
          (info, b) \<Rightarrow> (case connect_handler (io_identity self) (Secret_verified_handler info) b of
             (i, b) \<Rightarrow> on_object m (\<lambda>self. self\<lparr>io_verify_secret := i\<rparr>) b))"

definition handle_get_auth_session ::
  "'s bus_env \<Rightarrow> nat \<Rightarrow> nat \<Rightarrow> bus_peer \<Rightarrow> string \<Rightarrow> 's service_bus \<Rightarrow> service_fault + 's service_bus" where
  "handle_get_auth_session env m invocation peer meth b =
     (case call_identity m peer (\<lambda>n ctx d. Inr (gsignond_identity_get_auth_session (be_daemon env) n (Some meth) ctx d)) b of
        Inl fl \<Rightarrow> Inl fl
      | Inr (Inl error, b) \<Rightarrow> Inr (hold_object True m (put_out (Reply invocation (Failed error)) b))
      | Inr (Inr session, b) \<Rightarrow>
          (case map_of (vb_objects b) m of
             None \<Rightarrow> Inl Object_gone
           | Some self \<Rightarrow>
               (case gsignond_dbus_auth_session_adapter_new_with_connection (be_nonce env) (be_exported env) session
                   (io_app_context self) (be_session_timeout env) (vb_session_counter b) of
                  (None, counter) \<Rightarrow> Inl Not_exported
                | (Some dbus_session, counter) \<Rightarrow>
                    let s = vb_next b;
                        b = b\<lparr>vb_next := s + 1, vb_session_counter := counter,
                              vb_sessions := (s, \<lparr>so_owner = m, so_weak = True, so_refs = 1, so_session = session\<rparr>) #
                                vb_sessions b\<rparr>;
                        b = (if length (io_sessions self) = 0 then hold_object False m b else b);
                        b = on_object m (\<lambda>self. self\<lparr>io_sessions := io_sessions self @ [s]\<rparr>) b;
                        b = put_out (Reply invocation
                              (Path (gsignond_dbus_auth_session_adapter_get_object_path dbus_session))) b
                    in Inr (hold_object True m b))))"

definition gsignond_dbus_identity_adapter_get_object_path :: "identity_object \<Rightarrow> string" where
  "gsignond_dbus_identity_adapter_get_object_path self = io_path self"

text \<open>The handler of \<^verbatim>\<open>info-updated\<close> is connected when the property with the identity is set.\<close>

definition gsignond_dbus_identity_adapter_new_with_connection ::
  "'s bus_env \<Rightarrow> nat \<Rightarrow> cstr \<Rightarrow> 's service_bus \<Rightarrow> (nat \<times> identity_object) option \<times> 's service_bus" where
  "gsignond_dbus_identity_adapter_new_with_connection env identity app_context b =
     (let m = vb_next b;
          b = b\<lparr>vb_next := m + 1\<rparr>;
          object_path = GSIGNOND_DAEMON_OBJECTPATH @ ''/Identity_'' @ print_string (be_nonce env) @ ''_'' @
            print_int (vb_identity_counter b)
      in case connect_handler identity (Info_updated_handler m) (b\<lparr>vb_identity_counter := vb_identity_counter b + 1\<rparr>) of
           (i, b) \<Rightarrow>
             if \<not> be_exported env object_path then (None, disconnect_handler i b)
             else (Some (m, \<lparr>io_disposable =
                 gsignond_disposable_set_timeout gsignond_disposable_init (be_identity_timeout env),
                 io_refs = 1, io_identity = identity, io_app_context = app_context,
                 io_ctx = gsignond_security_context_new, io_client = None, io_path = object_path, io_sessions = [],
                 io_info_updated = i, io_verify_user = 0, io_verify_secret = 0, io_credentials_update = 0\<rparr>), b))"

subsection \<open>The object that gives out identities\<close>

definition create_and_cache_dbus_identity ::
  "'s bus_env \<Rightarrow> nat \<Rightarrow> cstr \<Rightarrow> bus_peer \<Rightarrow> 's service_bus \<Rightarrow> (nat \<times> identity_object) option \<times> 's service_bus" where
  "create_and_cache_dbus_identity env identity app_context peer b =
     (case gsignond_dbus_identity_adapter_new_with_connection env identity app_context b of
        (None, b) \<Rightarrow> (None, b)
      | (Some (m, dbus_identity), b) \<Rightarrow>
          let b = (if length (vb_identities b) = 0 then hold_service False b else b);
              b = b\<lparr>vb_identities := vb_identities b @ [m]\<rparr>;
              dbus_identity = dbus_identity\<lparr>io_client := peer_sender peer\<rparr>;
              b = b\<lparr>vb_objects := (m, dbus_identity) # vb_objects b\<rparr>;
              b = (case peer_sender peer of
                     None \<Rightarrow> b
                   | Some sender \<Rightarrow> if sender \<in> set (vb_watched b) then b
                                    else b\<lparr>vb_watched := sender # vb_watched b\<rparr>)
          in (Some (m, dbus_identity), b))"

definition service_context :: "bus_peer \<Rightarrow> string \<Rightarrow> 's service_bus \<Rightarrow> security_context" where
  "service_context peer app_context b =
     gsignond_access_control_manager_security_context_of_peer
       (gsignond_daemon_get_access_control_manager (vb_daemon b)) gsignond_security_context_new
       (peer_fd peer) (peer_sender peer) (Some app_context)"

text \<open>A call of the daemon, between holding the object and the reply.\<close>

definition call_daemon :: "('s daemon \<Rightarrow> 'r \<times> 's daemon) \<Rightarrow> 's service_bus \<Rightarrow> service_fault + 'r \<times> 's service_bus" where
  "call_daemon f b = in_daemon (\<lambda>d. Inr (f d)) (hold_service False b)"

definition service_reply :: "nat \<Rightarrow> reply_value \<Rightarrow> 's service_bus \<Rightarrow> 's service_bus" where
  "service_reply invocation v b = hold_service True (put_out (Reply invocation v) b)"

definition handle_register_new_identity ::
  "'s bus_env \<Rightarrow> nat \<Rightarrow> bus_peer \<Rightarrow> string \<Rightarrow> 's service_bus \<Rightarrow> service_fault + 's service_bus" where
  "handle_register_new_identity env invocation peer app_context b =
     (case call_daemon (gsignond_daemon_register_new_identity (Some (service_context peer app_context b))) b of
        Inl fl \<Rightarrow> Inl fl
      | Inr (Inl error, b) \<Rightarrow> Inr (service_reply invocation (Failed error) b)
      | Inr (Inr identity, b) \<Rightarrow>
          (case create_and_cache_dbus_identity env identity (Some app_context) peer b of
             (None, b) \<Rightarrow> Inl Not_exported
           | (Some (m, dbus_identity), b) \<Rightarrow>
               Inr (service_reply invocation
                 (Path (gsignond_dbus_identity_adapter_get_object_path dbus_identity)) b)))"

definition handle_get_identity ::
  "'s bus_env \<Rightarrow> nat \<Rightarrow> bus_peer \<Rightarrow> u32 \<Rightarrow> string \<Rightarrow> 's service_bus \<Rightarrow> service_fault + 's service_bus" where
  "handle_get_identity env invocation peer ident app_context b =
     (case call_daemon (gsignond_daemon_get_identity (be_daemon env) ident (service_context peer app_context b)) b of
        Inl fl \<Rightarrow> Inl fl
      | Inr (Inl error, b) \<Rightarrow> Inr (service_reply invocation (Failed error) b)
      | Inr (Inr identity, b) \<Rightarrow>
          (case create_and_cache_dbus_identity env identity (Some app_context) peer b of
             (None, b) \<Rightarrow> Inl Not_exported
           | (Some (m, dbus_identity), b) \<Rightarrow>
               (case map_of (d_objects (vb_daemon b)) identity of
                  None \<Rightarrow> Inl Object_gone
                | Some i \<Rightarrow>
                    Inr (service_reply invocation
                      (Identity_data (gsignond_dbus_identity_adapter_get_object_path dbus_identity)
                        (gsignond_identity_info_to_variant (id_info i))) b))))"

text \<open>No error is set by the query of the methods.\<close>

definition handle_query_methods :: "'s bus_env \<Rightarrow> nat \<Rightarrow> 's service_bus \<Rightarrow> service_fault + 's service_bus" where
  "handle_query_methods env invocation b =
     (case call_daemon (gsignond_daemon_query_methods (be_daemon env)) b of
        Inl fl \<Rightarrow> Inl fl
      | Inr (methods, b) \<Rightarrow>
          Inr (service_reply invocation (Strings (case methods of Some ms \<Rightarrow> ms | None \<Rightarrow> [])) b))"

text \<open>The mechanisms go to the caller whether or not an error is set, such as for an empty list.\<close>

definition handle_query_mechanisms ::
  "'s bus_env \<Rightarrow> nat \<Rightarrow> string \<Rightarrow> 's service_bus \<Rightarrow> service_fault + 's service_bus" where
  "handle_query_mechanisms env invocation meth b =
     (case call_daemon (gsignond_daemon_query_mechanisms (be_daemon env) meth) b of
        Inl fl \<Rightarrow> Inl fl
      | Inr ((Some mechanisms, error), b) \<Rightarrow> Inr (service_reply invocation (Strings mechanisms) b)
      | Inr ((None, Some error), b) \<Rightarrow> Inr (service_reply invocation (Failed error) b)
      | Inr ((None, None), b) \<Rightarrow> Inl Object_gone)"

definition handle_query_identities ::
  "'s bus_env \<Rightarrow> nat \<Rightarrow> bus_peer \<Rightarrow> gvariant \<Rightarrow> string \<Rightarrow> 's service_bus \<Rightarrow> service_fault + 's service_bus" where
  "handle_query_identities env invocation peer filter_var app_context b =
     (case call_daemon (gsignond_daemon_query_identities (be_daemon env) (Some filter_var)
             (service_context peer app_context b)) b of
        Inl fl \<Rightarrow> Inl fl
      | Inr (Inl error, b) \<Rightarrow> Inr (service_reply invocation (Failed error) b)
      | Inr (Inr identities, b) \<Rightarrow>
          Inr (service_reply invocation
            (Variant (VArray ''a{sv}'' (map gsignond_identity_info_to_variant identities))) b))"

definition handle_clear ::
  "'s bus_env \<Rightarrow> 's storage_env \<Rightarrow> cstr \<Rightarrow> nat \<Rightarrow> bus_peer \<Rightarrow> 's service_bus \<Rightarrow> service_fault + 's service_bus" where
  "handle_clear env sm dir invocation peer b =
     (case call_daemon (gsignond_daemon_clear (be_daemon env) sm dir (service_context peer '''' b)) b of
        Inl fl \<Rightarrow> Inl fl
      | Inr (r, b) \<Rightarrow> Inr (service_reply invocation (reply_or_error Truth r) b))"

text \<open>A client that goes loses a reference of each of its objects.\<close>

fun clear_cache_for_name :: "string \<Rightarrow> nat list \<Rightarrow> 's service_bus \<Rightarrow> service_fault + 's service_bus" where
  "clear_cache_for_name caller [] b = Inr b"
| "clear_cache_for_name caller (m # ms) b =
     (case map_of (vb_objects b) m of
        None \<Rightarrow> Inl Object_gone
      | Some dbus_identity \<Rightarrow>
          (case (if g_strcmp0 (io_client dbus_identity) (Some caller) = 0 then identity_object_unref m b else Inr b) of
             Inl f \<Rightarrow> Inl f
           | Inr b \<Rightarrow> clear_cache_for_name caller ms b))"

definition on_connnection_lost :: "string \<Rightarrow> 's service_bus \<Rightarrow> service_fault + 's service_bus" where
  "on_connnection_lost peer_name b =
     (case clear_cache_for_name peer_name (vb_identities b) b of
        Inl f \<Rightarrow> Inl f
      | Inr b \<Rightarrow> Inr (b\<lparr>vb_watched := filter (\<lambda>name. name \<noteq> peer_name) (vb_watched b)\<rparr>))"

text \<open>The object starts alone on its path; a timeout of zero stays that of a new object.\<close>

definition gsignond_dbus_auth_service_adapter_init :: "'s service_bus \<Rightarrow> 's service_bus" where
  "gsignond_dbus_auth_service_adapter_init b =
     b\<lparr>vb_disposable := gsignond_disposable_init, vb_identities := [], vb_watched := []\<rparr>"

definition gsignond_dbus_auth_service_adapter_new_with_connection ::
  "'s bus_env \<Rightarrow> u32 \<Rightarrow> 's daemon \<Rightarrow> 's service_bus \<Rightarrow> 's service_bus option" where
  "gsignond_dbus_auth_service_adapter_new_with_connection env t daemon b =
     (let adapter = (gsignond_dbus_auth_service_adapter_init b)\<lparr>vb_daemon := daemon\<rparr>
      in if \<not> be_exported env GSIGNOND_DAEMON_OBJECTPATH then None
         else if t \<noteq> 0
              then Some (adapter\<lparr>vb_disposable := gsignond_disposable_set_timeout (vb_disposable adapter) t\<rparr>)
              else Some adapter)"

text \<open>The main loop fires a source of an object.\<close>

definition fire_identity :: "nat \<Rightarrow> nat \<Rightarrow> 's service_bus \<Rightarrow> service_fault + 's service_bus" where
  "fire_identity m i b =
     (case map_of (vb_objects b) m of
        None \<Rightarrow> Inr b
      | Some self \<Rightarrow>
          let d = dispatch_source i (io_disposable self);
              b = on_object m (\<lambda>self. self\<lparr>io_disposable := d\<rparr>) b
          in if unrefs d = unrefs (io_disposable self) then Inr b else identity_object_unref m b)"

end
