(* ===== verification/Gsso_Dbus_Service_Calls.thy ===== *)
theory Gsso_Dbus_Service_Calls
  imports Gsso_Dbus_Service Gsso_Identity_Access
begin

text \<open>
  What a call of a method on the bus does. A call that the identity refuses is answered with an error and
  leaves everything else alone: the locale \<open>guarded_daemon\<close> is extended from the operations of
  identities to the methods of their objects. And the calls that wait for a dialog: what the
  handlers connected for them do when the dialog ends.
\<close>

subsection \<open>Calls by strangers\<close>

text \<open>The methods of an identity's object, and the operation of the identity that each calls.\<close>

datatype identity_method =
    Method_get_info
  | Method_get_auth_session string
  | Method_verify_user gvariant
  | Method_verify_secret string
  | Method_request_credentials_update string
  | Method_remove
  | Method_sign_out
  | Method_store gvariant
  | Method_add_reference string
  | Method_remove_reference string

fun op_of :: "identity_method \<Rightarrow> identity_op" where
  "op_of Method_get_info = Get_info"
| "op_of (Method_get_auth_session meth) = Get_auth_session (Some meth)"
| "op_of (Method_verify_user params) = Verify_user params"
| "op_of (Method_verify_secret secret) = Verify_secret (Some secret)"
| "op_of (Method_request_credentials_update message) = Request_credentials_update (Some message)"
| "op_of Method_remove = Remove"
| "op_of Method_sign_out = Sign_out"
| "op_of (Method_store info) = Store (Some info)"
| "op_of (Method_add_reference reference) = Add_reference reference"
| "op_of (Method_remove_reference reference) = Remove_reference (Some reference)"

fun bus_call ::
  "'s bus_env \<Rightarrow> nat \<Rightarrow> nat \<Rightarrow> bus_peer \<Rightarrow> identity_method \<Rightarrow> 's service_bus \<Rightarrow> service_fault + 's service_bus" where
  "bus_call env m k peer Method_get_info b = handle_get_info m k peer b"
| "bus_call env m k peer (Method_get_auth_session meth) b = handle_get_auth_session env m k peer meth b"
| "bus_call env m k peer (Method_verify_user params) b = handle_verify_user env m k peer params b"
| "bus_call env m k peer (Method_verify_secret secret) b = handle_verify_secret m k peer secret b"
| "bus_call env m k peer (Method_request_credentials_update message) b =
     handle_request_credentials_update env m k peer message b"
| "bus_call env m k peer Method_remove b = handle_remove env m k peer b"
| "bus_call env m k peer Method_sign_out b = handle_sign_out env m k peer b"
| "bus_call env m k peer (Method_store info) b = handle_store env m k peer info b"
| "bus_call env m k peer (Method_add_reference reference) b = handle_add_reference m k peer reference b"
| "bus_call env m k peer (Method_remove_reference reference) b = handle_remove_reference m k peer reference b"

fun bus_calls ::
  "'s bus_env \<Rightarrow> (nat \<times> nat \<times> bus_peer \<times> identity_method) list \<Rightarrow> 's service_bus \<Rightarrow> service_fault + 's service_bus" where
  "bus_calls env [] b = Inr b"
| "bus_calls env ((m, k, peer, meth) # cs) b =
     (case bus_call env m k peer meth b of Inl f \<Rightarrow> Inl f | Inr b \<Rightarrow> bus_calls env cs b)"

text \<open>The context of a peer does not depend on what the object's context was before.\<close>

definition peer_context :: "acm \<Rightarrow> bus_peer \<Rightarrow> identity_object \<Rightarrow> security_context" where
  "peer_context acm peer self = gsignond_access_control_manager_security_context_of_peer acm
     gsignond_security_context_new (peer_fd peer) (peer_sender peer) (io_app_context self)"

definition fresh_contexts :: "acm \<Rightarrow> bool" where
  "fresh_contexts m \<longleftrightarrow> (\<forall>ctx fd sender app. vt_security_context_of_peer m ctx fd sender app =
     vt_security_context_of_peer m gsignond_security_context_new fd sender app)"

lemma managers_fresh:
  "fresh_contexts (default_acm peercred service_pid readlink config build environment)"
  "fresh_contexts (tizen_acm label_of_fd bus_reply smack config build)"
  by (auto simp: fresh_contexts_def default_acm_def tizen_acm_def security_context_of_peer_def
      extension_tizen_access_control_manager_security_context_of_peer_def Let_def
      gsignond_security_context_set_system_context_def gsignond_security_context_set_application_context_def
      split: option.split)

text \<open>What a refused call leaves: an error goes to its caller, and the object's context is that of the peer.\<close>

definition refused :: "nat \<Rightarrow> nat \<Rightarrow> bus_peer \<Rightarrow> 's service_bus \<Rightarrow> 's service_bus" where
  "refused m k peer b = hold_object True m (put_out (Reply k (Failed (case map_of (vb_objects b) m of
       Some self \<Rightarrow> refusal_for (vb_daemon b) (io_identity self) | None \<Rightarrow> unknown_error)))
     (on_object m (identity_prepare_security_context (d_acm (vb_daemon b)) peer) (hold_object False m b)))"

definition stranger :: "'s service_bus \<Rightarrow> nat \<times> nat \<times> bus_peer \<times> identity_method \<Rightarrow> bool" where
  "stranger b c = (case c of (m, k, peer, meth) \<Rightarrow>
     (case map_of (vb_objects b) m of
        None \<Rightarrow> False
      | Some self \<Rightarrow> \<not> entitled (vb_daemon b)
          (io_identity self, peer_context (d_acm (vb_daemon b)) peer self, op_of meth)))"

lemma service_simps [simp]:
  "vb_daemon (on_object m f b) = vb_daemon b" "vb_daemon (put_out msg b) = vb_daemon b"
  "vb_daemon (hold_object v m b) = vb_daemon b" "vb_objects (put_out msg b) = vb_objects b"
  "vb_objects (on_object m f b) = AList.map_entry m f (vb_objects b)"
  "vb_objects (hold_object v m b) = AList.map_entry m
     (\<lambda>self. self\<lparr>io_disposable := gsignond_disposable_set_auto_dispose (io_disposable self) v\<rparr>) (vb_objects b)"
  "vb_out (put_out msg b) = vb_out b @ [msg]" "vb_out (on_object m f b) = vb_out b" "vb_out (hold_object v m b) = vb_out b"
  "vb_sessions (put_out msg b) = vb_sessions b" "vb_sessions (on_object m f b) = vb_sessions b"
  "vb_sessions (hold_object v m b) = vb_sessions b" "vb_infos (put_out msg b) = vb_infos b"
  "vb_infos (on_object m f b) = vb_infos b" "vb_infos (hold_object v m b) = vb_infos b"
  "vb_handlers (put_out msg b) = vb_handlers b" "vb_handlers (on_object m f b) = vb_handlers b"
  "vb_handlers (hold_object v m b) = vb_handlers b" "vb_identities (put_out msg b) = vb_identities b"
  "vb_identities (on_object m f b) = vb_identities b" "vb_identities (hold_object v m b) = vb_identities b"
  "vb_disposable (put_out msg b) = vb_disposable b" "vb_disposable (on_object m f b) = vb_disposable b"
  "vb_disposable (hold_object v m b) = vb_disposable b"
  by (simp_all add: on_object_def put_out_def hold_object_def)

lemma set_daemon [simp]:
  "(on_object m f b)\<lparr>vb_daemon := d\<rparr> = on_object m f (b\<lparr>vb_daemon := d\<rparr>)"
  "(hold_object v m b)\<lparr>vb_daemon := d\<rparr> = hold_object v m (b\<lparr>vb_daemon := d\<rparr>)"
  by (simp_all add: on_object_def hold_object_def)

lemma call_identity_eq:
  assumes "map_of (vb_objects b) m = Some self"
  shows "call_identity m peer f b =
     in_daemon (f (io_identity self) (io_ctx (identity_prepare_security_context (d_acm (vb_daemon b)) peer self)))
       (on_object m (identity_prepare_security_context (d_acm (vb_daemon b)) peer) (hold_object False m b))"
  using assms
  by (simp add: call_identity_def map_of_map_entry identity_prepare_security_context_def Let_def
      gsignond_daemon_get_access_control_manager_def)

text \<open>A call that the identity refuses.\<close>

lemma refused_bus_call:
  assumes self: "map_of (vb_objects b) m = Some self"
    and guard: "guarded (if owner_op (op_of meth) then identity_rw_access else identity_x_access) (io_identity self)
      (io_ctx (identity_prepare_security_context (d_acm (vb_daemon b)) peer self)) (vb_daemon b) =
      Inl (refusal_for (vb_daemon b) (io_identity self))"
  shows "bus_call env m k peer meth b = Inr (refused m k peer b)"
  using guard
  by (cases meth) (simp_all add: refused_def self handle_get_info_def handle_remove_def handle_sign_out_def
      handle_store_def handle_add_reference_def handle_remove_reference_def handle_request_credentials_update_def
      handle_verify_user_def handle_verify_secret_def handle_get_auth_session_def method_reply_def method_wait_def
      call_identity_eq [OF self] in_daemon_def reply_or_error_def
      gsignond_identity_get_info_def gsignond_identity_verify_secret_def
      gsignond_identity_sign_out_def gsignond_identity_get_auth_session_def gsignond_identity_store_def
      gsignond_identity_remove_def gsignond_identity_add_reference_def gsignond_identity_remove_reference_def
      gsignond_identity_request_credentials_update_def gsignond_identity_verify_user_def)

context guarded_daemon
begin

lemma stranger_refused:
  assumes "d_acm (vb_daemon b) = m" "fresh_contexts m" "stranger b (k, i, peer, meth)"
  shows "bus_call env k i peer meth b = Inr (refused k i peer b)"
proof -
  obtain self where self: "map_of (vb_objects b) k = Some self"
      "\<not> entitled (vb_daemon b) (io_identity self, peer_context m peer self, op_of meth)"
    using assms(1,3) by (auto simp: stranger_def split: option.splits)
  have "io_ctx (identity_prepare_security_context m peer self) = peer_context m peer self"
    using assms(2) by (simp add: identity_prepare_security_context_def peer_context_def fresh_contexts_def
        gsignond_access_control_manager_security_context_of_peer_def)
  with not_entitled_guard [OF assms(1) self(2)] assms(1) show ?thesis
    by (intro refused_bus_call [OF self(1)]) simp
qed

end

text \<open>What calls leave alone.\<close>

definition static_part :: "identity_object \<Rightarrow> identity_object" where
  "static_part self = self\<lparr>io_disposable := gsignond_disposable_init, io_ctx := gsignond_security_context_new\<rparr>"

definition left_alone :: "'s service_bus \<Rightarrow> 's service_bus \<Rightarrow> bool" where
  "left_alone b b' \<longleftrightarrow> vb_daemon b' = vb_daemon b \<and> vb_sessions b' = vb_sessions b \<and> vb_infos b' = vb_infos b \<and>
     vb_handlers b' = vb_handlers b \<and> vb_identities b' = vb_identities b \<and>
     (\<forall>m. map_option static_part (map_of (vb_objects b') m) = map_option static_part (map_of (vb_objects b) m))"

lemma static_part_identity:
  assumes "static_part self = static_part self'"
  shows "io_identity self = io_identity self'" "io_app_context self = io_app_context self'"
  using arg_cong [OF assms, of io_identity] arg_cong [OF assms, of io_app_context] by (simp_all add: static_part_def)

lemma refused_left_alone: "left_alone b (refused m k peer b)"
  by (auto simp: left_alone_def refused_def map_of_map_entry static_part_def identity_prepare_security_context_def
      split: option.splits intro: option.expand)

definition refusal_at :: "'s service_bus \<Rightarrow> nat \<Rightarrow> gerror" where
  "refusal_at b m = (case map_of (vb_objects b) m of
     Some self \<Rightarrow> refusal_for (vb_daemon b) (io_identity self) | None \<Rightarrow> unknown_error)"

lemma refused_out: "vb_out (refused m k peer b) = vb_out b @ [Reply k (Failed (refusal_at b m))]"
  by (simp add: refused_def refusal_at_def)

lemma left_alone_same:
  assumes "left_alone b b'"
  shows "stranger b' c = stranger b c" "refusal_at b' m = refusal_at b m"
proof -
  have objects: "map_of (vb_objects b') m = None \<longleftrightarrow> map_of (vb_objects b) m = None"
    "\<And>self self'. map_of (vb_objects b') m = Some self' \<Longrightarrow> map_of (vb_objects b) m = Some self \<Longrightarrow>
       io_identity self' = io_identity self \<and> io_app_context self' = io_app_context self" for m
    using assms static_part_identity unfolding left_alone_def by (metis map_option_is_None, metis option.simps(9) option.inject)
  have d: "vb_daemon b' = vb_daemon b"
    using assms by (simp add: left_alone_def)
  obtain m0 k peer meth where c: "c = (m0, k, peer, meth)" by (cases c)
  show "stranger b' c = stranger b c"
  proof (cases "map_of (vb_objects b) m0")
    case None
    with objects(1) [of m0] show ?thesis by (simp add: stranger_def c)
  next
    case (Some self)
    then obtain self' where "map_of (vb_objects b') m0 = Some self'"
      using objects(1) [of m0] by auto
    with Some objects(2) [of m0 self' self] show ?thesis by (simp add: stranger_def c d peer_context_def)
  qed
  show "refusal_at b' m = refusal_at b m"
  proof (cases "map_of (vb_objects b) m")
    case None
    with objects(1) [of m] show ?thesis by (simp add: refusal_at_def)
  next
    case (Some self)
    then obtain self' where "map_of (vb_objects b') m = Some self'"
      using objects(1) [of m] by auto
    with Some objects(2) [of m self' self] show ?thesis by (simp add: refusal_at_def d)
  qed
qed

context guarded_daemon
begin

lemma strangers_refused_on_bus:
  assumes "d_acm (vb_daemon b) = m" "fresh_contexts m" "\<forall>c \<in> set calls. stranger b c"
  shows "\<exists>b'. bus_calls env calls b = Inr b' \<and> left_alone b b' \<and>
    vb_out b' = vb_out b @ map (\<lambda>(k, i, peer, meth). Reply i (Failed (refusal_at b k))) calls"
  using assms(1,3)
proof (induction calls arbitrary: b)
  case Nil
  then show ?case by (simp add: left_alone_def)
next
  case (Cons c calls)
  obtain k i peer meth where c: "c = (k, i, peer, meth)" by (cases c)
  let ?b = "refused k i peer b"
  have call: "bus_call env k i peer meth b = Inr ?b"
    using stranger_refused [OF Cons.prems(1) assms(2)] Cons.prems(2) c by simp
  have same: "left_alone b ?b" by (rule refused_left_alone)
  then have "d_acm (vb_daemon ?b) = m" "\<forall>c \<in> set calls. stranger ?b c"
    using Cons.prems left_alone_same(1) [OF same] by (simp_all add: left_alone_def)
  from Cons.IH [OF this] obtain b' where b': "bus_calls env calls ?b = Inr b'" "left_alone ?b b'"
      "vb_out b' = vb_out ?b @ map (\<lambda>(k, i, peer, meth). Reply i (Failed (refusal_at ?b k))) calls"
    by blast
  have "left_alone b b'"
    using same b'(2) by (simp add: left_alone_def)
  with b' call show ?case
    by (auto simp: c refused_out left_alone_same(2) [OF same])
qed

end

text \<open>
  C35. Over the bus too strangers get nothing: whatever methods a number of peers call on the objects of
  identities they are not entitled to, as the manager identifies them, every call gets exactly one reply,
  an error, and nothing changes in the daemon, its databases, the sessions, the waiting calls, the
  connected handlers and the objects, but for the context and the timer of the objects called.
\<close>

theorem bus_calls_guarded:
  assumes "d_acm (vb_daemon b) = default_acm peercred service_pid readlink config build environment \<or>
           d_acm (vb_daemon b) = tizen_acm label_of_fd bus_reply smack config build"
    and "\<forall>c \<in> set calls. stranger b c"
  shows "\<exists>b'. bus_calls env calls b = Inr b' \<and> left_alone b b' \<and>
    vb_out b' = vb_out b @ map (\<lambda>(m, k, peer, meth). Reply k (Failed (refusal_at b m))) calls"
  using assms(1)
proof
  assume "d_acm (vb_daemon b) = default_acm peercred service_pid readlink config build environment"
  from default_guard.strangers_refused_on_bus [OF this managers_fresh(1) assms(2)] show ?thesis .
next
  assume "d_acm (vb_daemon b) = tizen_acm label_of_fd bus_reply smack config build"
  from tizen_guard.strangers_refused_on_bus [OF this managers_fresh(2) assms(2)] show ?thesis .
qed

subsection \<open>Calls that wait for a dialog\<close>

text \<open>The handlers of a signal, and whether the numbers of a state have been given out.\<close>

definition handlers_of :: "daemon_event \<Rightarrow> 's service_bus \<Rightarrow> (nat \<times> nat \<times> identity_handler) list" where
  "handlers_of e b = filter (\<lambda>(i, nh). handles e nh) (vb_handlers b)"

definition numbered :: "'s service_bus \<Rightarrow> bool" where
  "numbered b \<longleftrightarrow> (\<forall>i \<in> fst ` set (vb_objects b) \<union> fst ` set (vb_infos b) \<union> fst ` set (vb_handlers b). i < vb_next b) \<and>
     fst ` set (vb_objects b) \<inter> fst ` set (vb_infos b) = {}"

lemma deliver_one:
  "deliver_signals [e] b = run_connected e (handlers_of e b) b"
  by (simp add: handlers_of_def split: sum.split)

text \<open>After \<open>wait_for_user\<close>: the new info and its handler, which the object knows.\<close>

lemma wait_for_user_eq:
  "wait_for_user m k self b = (on_object m
       (\<lambda>self. self\<lparr>io_refs := io_refs self + 1, io_verify_user := vb_next b + 1\<rparr>) b)
     \<lparr>vb_infos := (vb_next b, \<lparr>bi_adapter = m, bi_invocation = k\<rparr>) # vb_infos b,
      vb_handlers := vb_handlers b @ [(vb_next b + 1, io_identity self, User_verified_handler (vb_next b))],
      vb_next := vb_next b + 2\<rparr>"
  by (simp add: wait_for_user_def identity_info_new_def connect_handler_def on_object_def)

text \<open>The reply to the call of an info, when the object has other references.\<close>

lemma user_verified_reply:
  assumes "map_of (vb_infos b) i = Some info" "map_of (vb_objects b) (bi_adapter info) = Some self" "io_refs self > 1"
  shows "on_user_verified_info i res err b = Inr (b
      \<lparr>vb_handlers := AList.delete (io_verify_user self) (vb_handlers b),
       vb_out := vb_out b @ [Reply (bi_invocation info) (case err of Some e \<Rightarrow> Failed e | None \<Rightarrow> Truth res)],
       vb_infos := AList.delete i (vb_infos b),
       vb_objects := AList.map_entry (bi_adapter info)
         (\<lambda>self. self\<lparr>io_verify_user := 0,
           io_disposable := gsignond_disposable_set_auto_dispose (io_disposable self) True,
           io_refs := io_refs self - 1\<rparr>) (vb_objects b)\<rparr>)"
  using assms
  by (simp add: on_user_verified_info_def identity_info_free_def identity_object_unref_def Let_def map_of_map_entry
      hold_object_def on_object_def put_out_def disconnect_handler_def)

lemma numbered_fresh:
  assumes "numbered b" "j \<ge> vb_next b"
  shows "j \<notin> fst ` set (vb_infos b)" "j \<notin> fst ` set (vb_handlers b)" "map_of (vb_infos b) j = None"
    "map_of (vb_handlers b) j = None" "AList.delete j (vb_infos b) = vb_infos b" "AList.delete j (vb_handlers b) = vb_handlers b"
proof -
  have all: "\<forall>i \<in> fst ` set (vb_objects b) \<union> fst ` set (vb_infos b) \<union> fst ` set (vb_handlers b). i < vb_next b"
    using assms(1) by (simp add: numbered_def)
  show i: "j \<notin> fst ` set (vb_infos b)" and h: "j \<notin> fst ` set (vb_handlers b)"
    using all assms(2) by (metis UnI1 UnI2 leD)+
  from i h show "map_of (vb_infos b) j = None" "map_of (vb_handlers b) j = None"
    by (simp_all add: map_of_eq_None_iff)
  from i h show "AList.delete j (vb_infos b) = vb_infos b" "AList.delete j (vb_handlers b) = vb_handlers b"
    by (simp_all add: delete_fresh)
qed

lemma numbered_object:
  assumes "numbered b" "map_of (vb_objects b) m = Some self"
  shows "map_of (vb_infos b) m = None" "m < vb_next b"
proof -
  have m: "m \<in> fst ` set (vb_objects b)"
    using map_of_SomeD [OF assms(2)] by force
  then show "m < vb_next b"
    using assms(1) by (auto simp: numbered_def)
  have "m \<notin> fst ` set (vb_infos b)"
    using m assms(1) by (auto simp: numbered_def)
  then show "map_of (vb_infos b) m = None"
    by (simp add: map_of_eq_None_iff)
qed

lemma verified_once:
  assumes self: "map_of (vb_objects b) m = Some self" "io_refs self \<ge> 1"
    and idle: "handlers_of (Sig_user_verified (io_identity self) res err) b = []" and b: "numbered b"
  shows "\<exists>b' self'. deliver_signals [Sig_user_verified (io_identity self) res err] (wait_for_user m k self b) = Inr b' \<and>
      vb_out b' = vb_out b @ [Reply k (case err of Some e \<Rightarrow> Failed e | None \<Rightarrow> Truth res)] \<and>
      vb_infos b' = vb_infos b \<and> vb_handlers b' = vb_handlers b \<and>
      map_of (vb_objects b') m = Some self' \<and> io_refs self' = io_refs self \<and> io_verify_user self' = 0"
proof -
  let ?i = "vb_next b" and ?b = "wait_for_user m k self b"
  have own: "handlers_of (Sig_user_verified (io_identity self) res err) ?b =
      [(?i + 1, io_identity self, User_verified_handler ?i)]"
    using idle by (simp add: wait_for_user_eq handlers_of_def)
  have connected: "map_of (vb_handlers ?b) (?i + 1) \<noteq> None"
    by (simp add: wait_for_user_eq)
  have info: "map_of (vb_infos ?b) ?i = Some \<lparr>bi_adapter = m, bi_invocation = k\<rparr>"
    and obj: "map_of (vb_objects ?b) m = Some (self\<lparr>io_refs := io_refs self + 1, io_verify_user := ?i + 1\<rparr>)"
    using self(1) by (simp_all add: wait_for_user_eq map_of_map_entry)
  from user_verified_reply [OF info, simplified, OF obj, simplified, of res err] self(2)
  obtain b' where b': "on_user_verified_info ?i res err ?b = Inr b'"
      "vb_handlers b' = AList.delete (?i + 1) (vb_handlers ?b)" "vb_infos b' = AList.delete ?i (vb_infos ?b)"
      "vb_out b' = vb_out ?b @ [Reply k (case err of Some e \<Rightarrow> Failed e | None \<Rightarrow> Truth res)]"
      "map_of (vb_objects b') m = Some (self\<lparr>io_refs := io_refs self, io_verify_user := 0,
         io_disposable := gsignond_disposable_set_auto_dispose (io_disposable self) True\<rparr>)"
    by (simp add: map_of_map_entry obj)
  have "deliver_signals [Sig_user_verified (io_identity self) res err] ?b = Inr b'"
    using connected b'(1) by (simp only: deliver_one own run_connected.simps run_handler.simps if_False sum.case)
  moreover have "vb_handlers b' = vb_handlers b" "vb_infos b' = vb_infos b"
    unfolding b' using numbered_fresh [OF b, of ?i] numbered_fresh [OF b, of "?i + 1"]
    by (simp_all add: wait_for_user_eq delete_append)
  moreover have "vb_out ?b = vb_out b"
    by (simp add: wait_for_user_eq)
  ultimately show ?thesis
    using b'(4,5) by auto
qed

lemma verified_twice:
  assumes self: "map_of (vb_objects b) m = Some self" "io_refs self \<ge> 1"
    and idle: "handlers_of (Sig_user_verified (io_identity self) res err) b = []" and b: "numbered b"
  shows "\<exists>b' i. deliver_signals [Sig_user_verified (io_identity self) res err]
          (wait_for_user m k2 self (wait_for_user m k self b)) = Inr b' \<and>
      vb_out b' = vb_out b @ [Reply k (case err of Some e \<Rightarrow> Failed e | None \<Rightarrow> Truth res)] \<and>
      map_of (vb_infos b') i = Some \<lparr>bi_adapter = m, bi_invocation = k2\<rparr> \<and>
      (\<forall>h \<in> set (vb_handlers b'). snd h \<noteq> (io_identity self, User_verified_handler i)) \<and>
      deliver_signals [Sig_user_verified (io_identity self) res err] b' = Inl Info_gone"
proof -
  let ?e = "Sig_user_verified (io_identity self) res err"
  let ?i = "vb_next b" and ?b1 = "wait_for_user m k self b"
  let ?b = "wait_for_user m k2 self ?b1"
  have handlers: "vb_handlers ?b = vb_handlers b @ [(?i + 1, io_identity self, User_verified_handler ?i),
      (?i + 3, io_identity self, User_verified_handler (?i + 2))]"
    by (simp add: wait_for_user_eq)
  then have own: "handlers_of ?e ?b = [(?i + 1, io_identity self, User_verified_handler ?i),
      (?i + 3, io_identity self, User_verified_handler (?i + 2))]"
    using idle by (simp add: handlers_of_def)
  have infos: "vb_infos ?b = (?i + 2, \<lparr>bi_adapter = m, bi_invocation = k2\<rparr>) #
      (?i, \<lparr>bi_adapter = m, bi_invocation = k\<rparr>) # vb_infos b"
    by (simp add: wait_for_user_eq)
  have info: "map_of (vb_infos ?b) ?i = Some \<lparr>bi_adapter = m, bi_invocation = k\<rparr>"
    and obj: "map_of (vb_objects ?b) m = Some (self\<lparr>io_refs := io_refs self + 2, io_verify_user := ?i + 3\<rparr>)"
    using self(1) by (simp_all add: infos) (simp add: wait_for_user_eq map_of_map_entry)
  from user_verified_reply [OF info, simplified, OF obj, simplified, of res err] self(2)
  obtain b' where b': "on_user_verified_info ?i res err ?b = Inr b'"
      "vb_handlers b' = AList.delete (?i + 3) (vb_handlers ?b)" "vb_infos b' = AList.delete ?i (vb_infos ?b)"
      "vb_out b' = vb_out ?b @ [Reply k (case err of Some e \<Rightarrow> Failed e | None \<Rightarrow> Truth res)]"
    by simp
  have left: "vb_handlers b' = vb_handlers b @ [(?i + 1, io_identity self, User_verified_handler ?i)]"
    unfolding b' handlers using numbered_fresh [OF b, of "?i + 3"] by (simp add: delete_append)
  have left_infos: "vb_infos b' = (?i + 2, \<lparr>bi_adapter = m, bi_invocation = k2\<rparr>) # vb_infos b"
    unfolding b' infos using numbered_fresh [OF b, of ?i] by simp
  have connected: "map_of (vb_handlers ?b) (?i + 1) \<noteq> None" "map_of (vb_handlers b') (?i + 3) = None"
      "map_of (vb_handlers b') (?i + 1) \<noteq> None"
    unfolding handlers left using numbered_fresh [OF b, of "?i + 3"] by simp_all
  have first: "deliver_signals [?e] ?b = Inr b'"
    using connected(1,2) b'(1) by (simp only: deliver_one own run_connected.simps run_handler.simps if_False if_True sum.case simp_thms)
  have "map_of (vb_infos b') ?i = None"
    unfolding left_infos using numbered_fresh [OF b, of ?i] by simp
  then have "on_user_verified_info ?i res err b' = Inl Info_gone"
    by (simp add: on_user_verified_info_def)
  moreover have "handlers_of ?e b' = [(?i + 1, io_identity self, User_verified_handler ?i)]"
    using idle by (simp add: handlers_of_def left)
  ultimately have second: "deliver_signals [?e] b' = Inl Info_gone"
    using connected(3) by (simp only: deliver_one run_connected.simps run_handler.simps if_False sum.case)
  have none: "\<forall>h \<in> set (vb_handlers b'). snd h \<noteq> (io_identity self, User_verified_handler (?i + 2))"
  proof -
    have "\<forall>h \<in> set (vb_handlers b). snd h \<noteq> (io_identity self, User_verified_handler j)" for j
      using idle by (auto simp: handlers_of_def filter_empty_conv)
    then show ?thesis by (simp add: left)
  qed
  have "vb_out ?b = vb_out b"
    by (simp add: wait_for_user_eq)
  then show ?thesis
    using first second none b'(4) by (intro exI [of _ b'] exI [of _ "?i + 2"]) (simp add: left_infos)
qed

lemma credentials_update_confused:
  assumes self: "map_of (vb_objects b) m = Some self"
    and idle: "handlers_of (Sig_credentials_updated (io_identity self) ident err) b = []" and b: "numbered b"
  shows "deliver_signals [Sig_credentials_updated (io_identity self) ident err] (wait_for_credentials m self b) = Inl Not_an_info"
proof -
  let ?b = "wait_for_credentials m self b"
  have handlers: "vb_handlers ?b = vb_handlers b @ [(vb_next b, io_identity self, Credentials_updated_handler m)]"
    and infos: "vb_infos ?b = vb_infos b"
    by (simp_all add: wait_for_credentials_def connect_handler_def)
  have own: "handlers_of (Sig_credentials_updated (io_identity self) ident err) ?b =
      [(vb_next b, io_identity self, Credentials_updated_handler m)]"
    using idle by (simp add: handlers_of_def handlers)
  have "on_credentials_updated_info m ident err ?b = Inl Not_an_info"
    using numbered_object(1) [OF b self] by (simp add: on_credentials_updated_info_def infos)
  moreover have "map_of (vb_handlers ?b) (vb_next b) \<noteq> None"
    unfolding handlers by simp
  ultimately show ?thesis
    by (simp only: deliver_one own run_connected.simps run_handler.simps if_False sum.case)
qed

text \<open>
  C38. What waits for a dialog, from a state without another such call. A call that verifies a user gets
  exactly one reply when the dialog has ended, which leaves no info and no handler behind. When a second
  one is made before that, the reply to the first one disconnects the handler of the second, which is
  never answered, and the next dialog makes the handler of the first use its freed info. And the end of
  the dialog of a credentials update makes its handler take the object for an info.
\<close>

theorem dialog_replies:
  fixes b :: "'s service_bus"
  assumes self: "map_of (vb_objects b) m = Some self" "io_refs self \<ge> 1"
    and idle: "handlers_of (Sig_user_verified (io_identity self) res err) b = []"
      "handlers_of (Sig_credentials_updated (io_identity self) ident err) b = []" and b: "numbered b"
  shows "(\<exists>b' self'. deliver_signals [Sig_user_verified (io_identity self) res err] (wait_for_user m k self b) = Inr b' \<and>
      vb_out b' = vb_out b @ [Reply k (case err of Some e \<Rightarrow> Failed e | None \<Rightarrow> Truth res)] \<and>
      vb_infos b' = vb_infos b \<and> vb_handlers b' = vb_handlers b \<and>
      map_of (vb_objects b') m = Some self' \<and> io_refs self' = io_refs self \<and> io_verify_user self' = 0) \<and>
    (\<exists>b' i. deliver_signals [Sig_user_verified (io_identity self) res err]
          (wait_for_user m k2 self (wait_for_user m k self b)) = Inr b' \<and>
      vb_out b' = vb_out b @ [Reply k (case err of Some e \<Rightarrow> Failed e | None \<Rightarrow> Truth res)] \<and>
      map_of (vb_infos b') i = Some \<lparr>bi_adapter = m, bi_invocation = k2\<rparr> \<and>
      (\<forall>h \<in> set (vb_handlers b'). snd h \<noteq> (io_identity self, User_verified_handler i)) \<and>
      deliver_signals [Sig_user_verified (io_identity self) res err] b' = Inl Info_gone) \<and>
    deliver_signals [Sig_credentials_updated (io_identity self) ident err] (wait_for_credentials m self b) = Inl Not_an_info"
  using verified_once [OF self idle(1) b] verified_twice [OF self idle(1) b]
    credentials_update_confused [OF self(1) idle(2) b] by (intro conjI)

subsection \<open>Examples\<close>

text \<open>An object on the bus, number 2, for the identity of \<open>example_daemon\<close>.\<close>

definition example_object :: identity_object where
  "example_object = \<lparr>io_disposable = gsignond_disposable_init, io_refs = 1, io_identity = 7, io_app_context = None,
     io_ctx = gsignond_security_context_new, io_client = Some '':1'', io_path = ''/Identity'', io_sessions = [],
     io_info_updated = 1, io_verify_user = 0, io_verify_secret = 0, io_credentials_update = 0\<rparr>"

definition example_service :: "secret_storage service_bus" where
  "example_service = \<lparr>vb_daemon = example_daemon,
     vb_disposable = gsignond_disposable_set_auto_dispose gsignond_disposable_init False,
     vb_identities = [2], vb_watched = ['':1''], vb_objects = [(2, example_object)], vb_sessions = [], vb_infos = [],
     vb_handlers = [(1, 7, Info_updated_handler 2)], vb_next = 3, vb_identity_counter = 1, vb_session_counter = 0,
     vb_out = []\<rparr>"

definition example_bus_env :: "secret_storage bus_env" where
  "example_bus_env = \<lparr>be_daemon = example_env, be_identity_timeout = 30, be_session_timeout = 30,
     be_nonce = Some ''n'', be_exported = (\<lambda>_. True)\<rparr>"

lemma example_strangers:
  "stranger example_service (2, 10, Socket 5, Method_get_info)"
  "stranger example_service (2, 11, Bus_name '':2'', Method_remove)"
  by code_simp+

theorem bus_calls_guarded_witness:
  "\<exists>b'. bus_calls example_bus_env [(2, 10, Socket 5, Method_get_info), (2, 11, Bus_name '':2'', Method_remove)]
      example_service = Inr b' \<and>
    vb_out b' = [Reply 10 (Failed not_accessible), Reply 11 (Failed not_accessible)] \<and> vb_daemon b' = example_daemon"
proof -
  have acm: "d_acm (vb_daemon example_service) = default_acm (\<lambda>_. None) (\<lambda>_. None) (\<lambda>_. None) None None None \<or>
      d_acm (vb_daemon example_service) = tizen_acm (\<lambda>_. None) (\<lambda>_. None) (\<lambda>_ _ _. 0) None None"
    by (simp add: example_service_def example_daemon_def)
  have strangers: "\<forall>c \<in> set [(2, 10, Socket 5, Method_get_info), (2, 11, Bus_name '':2'', Method_remove)].
      stranger example_service c"
    using example_strangers by simp
  have "refusal_at example_service 2 = not_accessible"
    by (simp add: refusal_at_def refusal_for_def example_service_def example_daemon_def example_object_def)
  with bus_calls_guarded [OF acm strangers, of example_bus_env] show ?thesis
    by (auto simp: left_alone_def example_service_def)
qed

theorem dialog_replies_witness:
  "(\<exists>b'. deliver_signals [Sig_user_verified 7 False None] (wait_for_user 2 20 example_object example_service) = Inr b' \<and>
      vb_out b' = [Reply 20 (Truth False)]) \<and>
   deliver_signals [Sig_credentials_updated 7 1 None] (wait_for_credentials 2 example_object example_service) = Inl Not_an_info"
proof -
  have "map_of (vb_objects example_service) 2 = Some example_object" "io_refs example_object \<ge> 1"
    "handlers_of (Sig_user_verified (io_identity example_object) False None) example_service = []"
    "handlers_of (Sig_credentials_updated (io_identity example_object) 1 None) example_service = []"
    "numbered example_service"
    by (simp_all add: example_service_def example_object_def handlers_of_def numbered_def)
  from dialog_replies [OF this, of 20 21] show ?thesis
    by (auto simp: example_object_def example_service_def)
qed

end
