(* ===== verification/Gsso_Dbus_Service_Life.thy ===== *)
theory Gsso_Dbus_Service_Life
  imports Gsso_Dbus_Service_Calls
begin

text \<open>
  The life of the object that gives out identities, which keeps the daemon running: its counter against
  the objects of identities that exist, over everything that can happen on the bus.
\<close>

subsection \<open>The invariant\<close>

text \<open>
  The invariant, in the middle of \<open>e\<close> methods of the object that gives out identities: it is held once per
  method, and once for all the objects it has given out, which are those it lists.
\<close>

definition service_ok :: "u32 \<Rightarrow> nat \<Rightarrow> 's service_bus \<Rightarrow> bool" where
  "service_ok t e b \<longleftrightarrow>
     disposable_run t (vb_disposable b) \<and> unrefs (vb_disposable b) = 0 \<and>
     keep_obj_counter (vb_disposable b) = of_nat ((if vb_identities b = [] then 0 else 1) + e) \<and> e \<le> 1 \<and>
     distinct (vb_identities b) \<and> distinct (map fst (vb_objects b)) \<and>
     set (vb_identities b) = fst ` set (vb_objects b) \<and> (\<forall>m \<in> fst ` set (vb_objects b). m < vb_next b)"

text \<open>A step that leaves the object and its list alone.\<close>

definition same_service :: "'s service_bus \<Rightarrow> 's service_bus \<Rightarrow> bool" where
  "same_service b b' \<longleftrightarrow> vb_disposable b' = vb_disposable b \<and> vb_identities b' = vb_identities b \<and>
     map fst (vb_objects b') = map fst (vb_objects b) \<and> vb_next b \<le> vb_next b'"

definition service_safe :: "'s service_bus \<Rightarrow> 's service_bus \<Rightarrow> bool" where
  "service_safe b b' \<longleftrightarrow> (\<forall>t e. service_ok t e b \<longrightarrow> service_ok t e b')"

lemma same_service_safe:
  assumes "same_service b b'"
  shows "service_safe b b'"
proof -
  have "fst ` set (vb_objects b') = fst ` set (vb_objects b)"
    using assms by (metis list.set_map same_service_def)
  moreover have "vb_next b \<le> vb_next b'"
    using assms by (simp add: same_service_def)
  ultimately show ?thesis
    using assms unfolding service_safe_def service_ok_def same_service_def by (auto dest: order_less_le_trans)
qed

lemma service_safe_refl [simp]: "service_safe b b"
  by (simp add: service_safe_def)

lemma service_safe_trans [trans]: "service_safe b b' \<Longrightarrow> service_safe b' b'' \<Longrightarrow> service_safe b b''"
  by (simp add: service_safe_def)

lemma same_service_trans: "same_service b b' \<Longrightarrow> same_service b' b'' \<Longrightarrow> same_service b b''"
  by (auto simp: same_service_def)

lemma same_service_simps [simp]:
  "same_service b b" "same_service b (put_out msg b') = same_service b b'"
  "same_service b (on_object m f b') = same_service b b'" "same_service b (hold_object v m b') = same_service b b'"
  "same_service b (disconnect_handler i b') = same_service b b'"
  "same_service b (b'\<lparr>vb_sessions := ss\<rparr>) = same_service b b'" "same_service b (b'\<lparr>vb_daemon := d\<rparr>) = same_service b b'"
  "same_service b (b'\<lparr>vb_infos := is\<rparr>) = same_service b b'" "same_service b (b'\<lparr>vb_watched := ws\<rparr>) = same_service b b'"
  "same_service (put_out msg b) b' = same_service b b'" "same_service (on_object m f b) b' = same_service b b'"
  "same_service (hold_object v m b) b' = same_service b b'" "same_service (disconnect_handler i b) b' = same_service b b'"
  "same_service (b\<lparr>vb_sessions := ss\<rparr>) b' = same_service b b'"
  by (simp_all add: same_service_def put_out_def on_object_def hold_object_def disconnect_handler_def)

lemma service_safe_simps [simp]:
  "service_safe b (put_out msg b') = service_safe b b'" "service_safe b (on_object m f b') = service_safe b b'"
  "service_safe b (hold_object v m b') = service_safe b b'" "service_safe b (b'\<lparr>vb_watched := ws\<rparr>) = service_safe b b'"
  "service_safe b (disconnect_handler i b') = service_safe b b'"
  "service_safe (put_out msg b) b' = service_safe b b'" "service_safe (on_object m f b) b' = service_safe b b'"
  "service_safe (hold_object v m b) b' = service_safe b b'" "service_safe (disconnect_handler i b) b' = service_safe b b'"
proof -
  have "service_ok t e (put_out msg b) = service_ok t e b" "service_ok t e (on_object m f b) = service_ok t e b"
    "service_ok t e (hold_object v m b) = service_ok t e b" "service_ok t e (b\<lparr>vb_watched := ws\<rparr>) = service_ok t e b"
    "service_ok t e (disconnect_handler i b) = service_ok t e b" for t e and b :: "'a service_bus"
    by (simp_all add: service_ok_def put_out_def on_object_def hold_object_def disconnect_handler_def)
  then show "service_safe b (put_out msg b') = service_safe b b'" "service_safe b (on_object m f b') = service_safe b b'"
    "service_safe b (hold_object v m b') = service_safe b b'" "service_safe b (b'\<lparr>vb_watched := ws\<rparr>) = service_safe b b'"
    "service_safe b (disconnect_handler i b') = service_safe b b'"
    "service_safe (put_out msg b) b' = service_safe b b'" "service_safe (on_object m f b) b' = service_safe b b'"
    "service_safe (hold_object v m b) b' = service_safe b b'" "service_safe (disconnect_handler i b) b' = service_safe b b'"
    by (simp_all add: service_safe_def)
qed

lemma session_disposed_same: "on_session_disposed m s b = Inr b' \<Longrightarrow> same_service b b'"
  by (auto simp: on_session_disposed_def Let_def split: option.splits if_splits)

lemma session_object_unref_same: "session_object_unref s b = Inr b' \<Longrightarrow> same_service b b'"
  by (auto simp: session_object_unref_def Let_def split: option.splits if_splits
      dest!: session_disposed_same elim!: same_service_trans [rotated])

lemma destroy_session_same: "destroy_session u s b = Inr b' \<Longrightarrow> same_service b b'"
  by (auto simp: destroy_session_def Let_def split: option.splits if_splits
      dest!: session_object_unref_same elim!: same_service_trans [rotated])

lemma destroy_sessions_same: "destroy_sessions u ss b = Inr b' \<Longrightarrow> same_service b b'"
  by (induction ss arbitrary: b) (auto split: sum.splits dest!: destroy_session_same intro: same_service_trans)

text \<open>An identity's object goes: its entry in the list too, and with the last one the hold.\<close>

lemma service_forgets:
  assumes ok: "service_ok t e b" and m: "m \<in> fst ` set (vb_objects b)"
  shows "service_ok t e (service_on_identity_disposed m (b\<lparr>vb_objects := AList.delete m (vb_objects b)\<rparr>))"
proof -
  let ?ids = "remove1 m (vb_identities b)" and ?d = "vb_disposable b"
  let ?d' = "if ?ids = [] then gsignond_disposable_set_auto_dispose ?d True else ?d"
  have facts: "disposable_run t ?d" "unrefs ?d = 0" "e \<le> 1" "distinct (vb_identities b)" "distinct (map fst (vb_objects b))"
      "set (vb_identities b) = fst ` set (vb_objects b)" "\<forall>m \<in> fst ` set (vb_objects b). m < vb_next b"
      "keep_obj_counter ?d = of_nat (1 + e)"
    using ok m by (auto simp: service_ok_def)
  have "keep_obj_counter ?d \<noteq> 0"
    using facts(3,8) small_count [of "1 + e"] by simp
  then have "keep_obj_counter ?d' = of_nat ((if ?ids = [] then 0 else 1) + e)"
    using facts(8) by (simp add: set_auto_dispose_counter)
  moreover have "disposable_run t ?d'" "unrefs ?d' = 0"
    using facts(1,2) run_hold_release by auto
  moreover have "distinct ?ids" "distinct (map fst (AList.delete m (vb_objects b)))"
      "set ?ids = fst ` set (AList.delete m (vb_objects b))"
    using facts by (simp_all add: distinct_delete fst_set_delete)
  moreover have "\<forall>k \<in> fst ` set (AList.delete m (vb_objects b)). k < vb_next b"
    using facts(7) unfolding fst_set_delete by blast
  ultimately show ?thesis
    using facts(3) by (auto simp: service_ok_def service_on_identity_disposed_def hold_service_def Let_def)
qed

lemma service_ok_daemon [simp]: "service_ok t e (b\<lparr>vb_daemon := d\<rparr>) = service_ok t e b"
  by (simp add: service_ok_def)

lemma service_forgets_cong:
  assumes "vb_disposable x = vb_disposable y" "vb_identities x = vb_identities y" "vb_objects x = vb_objects y"
    "vb_next x = vb_next y"
  shows "service_ok t e (service_on_identity_disposed m x) = service_ok t e (service_on_identity_disposed m y)"
  using assms by (simp add: service_ok_def service_on_identity_disposed_def hold_service_def Let_def)

lemma identity_dispose_safe:
  assumes "identity_adapter_dispose m b = Inr b'"
  shows "service_safe b b'"
proof -
  obtain self b1 where self: "map_of (vb_objects b) m = Some self"
      "destroy_sessions (Some m) (io_sessions self) b = Inr b1"
    using assms by (auto simp: identity_adapter_dispose_def split: option.splits sum.splits)
  have same: "same_service b b1"
    by (rule destroy_sessions_same [OF self(2)])
  have m: "m \<in> fst ` set (vb_objects b1)"
    using map_of_SomeD [OF self(1)] same unfolding same_service_def by (metis fst_conv image_eqI list.set_map)
  let ?x = "release_identity m self b1"
  have x: "vb_disposable ?x = vb_disposable b1" "vb_identities ?x = vb_identities b1"
      "vb_objects ?x = AList.delete m (vb_objects b1)" "vb_next ?x = vb_next b1"
    by (simp_all add: release_identity_def disconnect_handler_def put_out_def Let_def)
  have b': "b' = service_on_identity_disposed m ?x"
    using assms self by (simp add: identity_adapter_dispose_def)
  have "service_ok t e b'" if "service_ok t e b" for t e
  proof -
    have "service_ok t e b1"
      using same_service_safe [OF same] that by (simp add: service_safe_def)
    from service_forgets [OF this m] show ?thesis
      unfolding b' by (subst service_forgets_cong [where y = "b1\<lparr>vb_objects := AList.delete m (vb_objects b1)\<rparr>"])
        (simp_all add: x)
  qed
  then show ?thesis by (simp add: service_safe_def)
qed

lemma identity_unref_safe: "identity_object_unref m b = Inr b' \<Longrightarrow> service_safe b b'"
  by (auto simp: identity_object_unref_def split: option.splits if_splits intro: identity_dispose_safe)

lemma emit_info_updated_safe: "emit_info_updated change m b = Inr b' \<Longrightarrow> service_safe b b'"
  by (auto simp: emit_info_updated_def Let_def split: option.splits if_splits sum.splits
      dest!: destroy_sessions_same intro: same_service_safe elim!: same_service_trans [rotated])

lemma info_free_safe:
  assumes "identity_info_free i b1 = Inr b'" "same_service b b1"
  shows "service_safe b b'"
proof -
  obtain m rest where "identity_object_unref m (b1\<lparr>vb_infos := rest\<rparr>) = Inr b'"
    using assms(1) by (auto simp: identity_info_free_def split: option.splits)
  from identity_unref_safe [OF this] show ?thesis
    by (rule service_safe_trans [OF same_service_safe, rotated]) (use assms(2) in simp)
qed

lemma on_info_safe:
  "on_user_verified_info i res err b = Inr b' \<Longrightarrow> service_safe b b'"
  "on_secret_verified_info i res err b = Inr b' \<Longrightarrow> service_safe b b'"
  "on_credentials_updated_info i ident err b = Inr b' \<Longrightarrow> service_safe b b'"
  by (auto simp: on_user_verified_info_def on_secret_verified_info_def on_credentials_updated_info_def Let_def
      split: option.splits elim!: info_free_safe)

lemma run_handler_safe: "run_handler e h b = Inr b' \<Longrightarrow> service_safe b b'"
  by (cases "(e, h, b)" rule: run_handler.cases) (auto intro: emit_info_updated_safe on_info_safe)

lemma run_connected_safe: "run_connected e hs b = Inr b' \<Longrightarrow> service_safe b b'"
proof (induction e hs b rule: run_connected.induct)
  case (2 e i n h hs b)
  then show ?case
    by (auto split: if_splits sum.splits intro: service_safe_trans [OF run_handler_safe])
qed simp

lemma deliver_signals_safe: "deliver_signals es b = Inr b' \<Longrightarrow> service_safe b b'"
  by (induction es arbitrary: b) (auto split: sum.splits intro: service_safe_trans [OF run_connected_safe])

lemma in_daemon_safe:
  assumes "in_daemon f b = Inr (r, b')"
  shows "service_safe b b'"
proof -
  obtain d es where "deliver_signals es (b\<lparr>vb_daemon := d\<rparr>) = Inr b'"
    using assms by (auto simp: in_daemon_def map_sum_def split: sum.splits)
  from deliver_signals_safe [OF this] show ?thesis
    by (simp add: service_safe_def)
qed

lemma call_identity_safe: "call_identity m peer f b = Inr (r, b') \<Longrightarrow> service_safe b b'"
  by (auto simp: call_identity_def Let_def split: option.splits dest!: in_daemon_safe)

lemma method_reply_safe: "method_reply m k peer f reply b = Inr b' \<Longrightarrow> service_safe b b'"
  by (auto simp: method_reply_def split: sum.splits prod.splits dest: call_identity_safe)

lemma method_wait_safe:
  assumes "method_wait m k peer f wait b = Inr b'" and "\<And>self b. same_service b (wait self b)"
  shows "service_safe b b'"
  using assms(1)
  by (auto simp: method_wait_def split: sum.splits prod.splits option.splits dest!: call_identity_safe
      intro: service_safe_trans [OF _ same_service_safe [OF assms(2)]])

lemma waits_same:
  "same_service b (wait_for_user m k self b)" "same_service b (wait_for_credentials m self b)"
  by (auto simp: wait_for_user_def wait_for_credentials_def identity_info_new_def connect_handler_def same_service_def on_object_def)

subsection \<open>The methods of the object\<close>

lemma service_hold: "service_ok t 0 b \<Longrightarrow> service_ok t 1 (hold_service False b)"
  by (auto simp: service_ok_def hold_service_def set_auto_dispose_counter intro: run_hold_release)

lemma service_release:
  assumes "service_ok t 1 b"
  shows "service_ok t 0 (hold_service True b)"
proof -
  have "keep_obj_counter (vb_disposable b) \<noteq> 0"
    using assms small_count [of "(if vb_identities b = [] then 0 else 1) + 1"] by (simp add: service_ok_def)
  then show ?thesis
    using assms by (auto simp: service_ok_def hold_service_def set_auto_dispose_counter intro: run_hold_release)
qed

lemma service_ok_out [simp]: "service_ok t e (put_out msg b) = service_ok t e b"
  by (simp add: service_ok_def put_out_def)

lemma service_reply_ok: "service_ok t 1 b \<Longrightarrow> service_ok t 0 (service_reply k v b)"
  by (simp add: service_reply_def service_release)

lemma call_daemon_ok:
  assumes "call_daemon f b = Inr (r, b')" "service_ok t 0 b"
  shows "service_ok t 1 b'"
  using in_daemon_safe [OF assms(1) [unfolded call_daemon_def]] service_hold [OF assms(2)]
  by (simp add: service_safe_def)

lemma create_ok:
  assumes "create_and_cache_dbus_identity env n app peer b = (Some x, b')" "service_ok t 1 b"
  shows "service_ok t 1 b'"
proof -
  let ?m = "vb_next b" and ?d = "vb_disposable b"
  let ?d' = "if vb_identities b = [] then gsignond_disposable_set_auto_dispose ?d False else ?d"
  have fresh: "?m \<notin> fst ` set (vb_objects b)" "?m \<notin> set (vb_identities b)"
    using assms(2) by (auto simp: service_ok_def)
  have b': "vb_disposable b' = ?d'" "vb_identities b' = vb_identities b @ [?m]" "vb_next b' = ?m + 2"
      "map fst (vb_objects b') = ?m # map fst (vb_objects b)"
    using assms(1)
    by (auto simp: create_and_cache_dbus_identity_def gsignond_dbus_identity_adapter_new_with_connection_def
        connect_handler_def hold_service_def Let_def split: if_splits option.splits)
  then have "fst ` set (vb_objects b') = insert ?m (fst ` set (vb_objects b))"
    by (metis list.set_map list.simps(15))
  moreover have "disposable_run t ?d'" "unrefs ?d' = 0"
    using assms(2) run_hold_release by (auto simp: service_ok_def)
  moreover have "keep_obj_counter ?d' = of_nat 2"
    using assms(2) by (auto simp: service_ok_def set_auto_dispose_counter)
  moreover have "\<forall>k \<in> insert ?m (fst ` set (vb_objects b)). k < ?m + 2"
    using assms(2) by (auto simp: service_ok_def)
  ultimately show ?thesis
    using assms(2) fresh unfolding service_ok_def b' by simp
qed

text \<open>The methods of the object that gives out identities.\<close>

datatype service_method =
    Register_new_identity string
  | Get_identity u32 string
  | Query_methods
  | Query_mechanisms string
  | Query_identities gvariant string
  | Clear

fun service_call ::
  "'s bus_env \<Rightarrow> 's storage_env \<Rightarrow> cstr \<Rightarrow> nat \<Rightarrow> bus_peer \<Rightarrow> service_method \<Rightarrow> 's service_bus \<Rightarrow> service_fault + 's service_bus" where
  "service_call env sm dir k peer (Register_new_identity app) b = handle_register_new_identity env k peer app b"
| "service_call env sm dir k peer (Get_identity ident app) b = handle_get_identity env k peer ident app b"
| "service_call env sm dir k peer Query_methods b = handle_query_methods env k b"
| "service_call env sm dir k peer (Query_mechanisms meth) b = handle_query_mechanisms env k meth b"
| "service_call env sm dir k peer (Query_identities filter_var app) b = handle_query_identities env k peer filter_var app b"
| "service_call env sm dir k peer Clear b = handle_clear env sm dir k peer b"

lemma service_call_ok:
  assumes "service_call env sm dir k peer meth b = Inr b'" "service_ok t 0 b"
  shows "service_ok t 0 b'"
proof (cases meth)
  case (Register_new_identity app)
  with assms show ?thesis
    by (auto simp: handle_register_new_identity_def split: sum.splits prod.splits option.splits
        intro!: service_reply_ok dest: call_daemon_ok create_ok)
next
  case (Get_identity ident app)
  with assms show ?thesis
    by (auto simp: handle_get_identity_def split: sum.splits prod.splits option.splits
        intro!: service_reply_ok dest: call_daemon_ok create_ok)
next
  case (Query_mechanisms name)
  with assms show ?thesis
    by (auto simp: handle_query_mechanisms_def split: sum.splits prod.splits option.splits
        intro!: service_reply_ok dest: call_daemon_ok)
qed (use assms in \<open>auto simp: handle_query_methods_def handle_query_identities_def handle_clear_def
    split: sum.splits prod.splits intro!: service_reply_ok dest: call_daemon_ok\<close>)

subsection \<open>The methods of identities, and what else happens\<close>

lemma get_auth_session_safe: "handle_get_auth_session env m k peer name b = Inr b' \<Longrightarrow> service_safe b b'"
  by (auto simp: handle_get_auth_session_def Let_def split: sum.splits prod.splits option.splits if_splits
      dest!: call_identity_safe elim!: service_safe_trans)
    (auto simp: same_service_def intro!: same_service_safe)

lemma bus_call_safe: "bus_call env m k peer meth b = Inr b' \<Longrightarrow> service_safe b b'"
proof -
  have wait_secret: "same_service b (case identity_info_new m k b of (info, b) \<Rightarrow>
      (case connect_handler (io_identity self) (Secret_verified_handler info) b of
         (i, b) \<Rightarrow> on_object m (\<lambda>self. self\<lparr>io_verify_secret := i\<rparr>) b))" for self and b :: "'a service_bus"
    by (auto simp: identity_info_new_def connect_handler_def same_service_def on_object_def)
  show "bus_call env m k peer meth b = Inr b' \<Longrightarrow> service_safe b b'"
    by (cases meth) (auto simp: handle_get_info_def handle_remove_def handle_sign_out_def handle_store_def
      handle_add_reference_def handle_remove_reference_def handle_request_credentials_update_def handle_verify_user_def
      handle_verify_secret_def dest: method_reply_safe get_auth_session_safe
      elim!: method_wait_safe intro: waits_same wait_secret)
qed

lemma clear_cache_safe: "clear_cache_for_name caller ms b = Inr b' \<Longrightarrow> service_safe b b'"
  by (induction ms arbitrary: b)
    (auto split: option.splits sum.splits if_splits intro: service_safe_trans [OF identity_unref_safe])

lemma connection_lost_safe: "on_connnection_lost peer b = Inr b' \<Longrightarrow> service_safe b b'"
  by (auto simp: on_connnection_lost_def split: sum.splits dest: clear_cache_safe)

lemma fire_identity_safe: "fire_identity m i b = Inr b' \<Longrightarrow> service_safe b b'"
  by (auto simp: fire_identity_def Let_def split: option.splits if_splits dest!: identity_unref_safe)

text \<open>
  Runs: calls of methods, of both kinds of objects; anything that happens in the daemon, such as the answer to
  a dialog; a session's object getting or losing a reference; a client going; a source of an
  identity's object firing.
\<close>

inductive service_run :: "'s bus_env \<Rightarrow> u32 \<Rightarrow> 's service_bus \<Rightarrow> bool" for env t where
  start: "gsignond_dbus_auth_service_adapter_new_with_connection env t d b0 = Some b \<Longrightarrow> vb_objects b0 = [] \<Longrightarrow>
     service_run env t b"
| service_method: "service_run env t b \<Longrightarrow> service_call env sm dir k peer smeth b = Inr b' \<Longrightarrow> service_run env t b'"
| identity_method: "service_run env t b \<Longrightarrow> bus_call env m k peer meth b = Inr b' \<Longrightarrow> service_run env t b'"
| daemon: "service_run env t b \<Longrightarrow> in_daemon f b = Inr ((), b') \<Longrightarrow> service_run env t b'"
| session_ref: "service_run env t b \<Longrightarrow>
     service_run env t (b\<lparr>vb_sessions := AList.map_entry s (so_refs_update (\<lambda>n. n + 1)) (vb_sessions b)\<rparr>)"
| session_unref: "service_run env t b \<Longrightarrow> session_object_unref s b = Inr b' \<Longrightarrow> service_run env t b'"
| client_gone: "service_run env t b \<Longrightarrow> on_connnection_lost peer_name b = Inr b' \<Longrightarrow> service_run env t b'"
| fires: "service_run env t b \<Longrightarrow> fire_identity m i b = Inr b' \<Longrightarrow> service_run env t b'"

lemma service_run_ok: "service_run env t b \<Longrightarrow> service_ok t 0 b"
proof (induction rule: service_run.induct)
  case (start d b0 b)
  then have b: "vb_disposable b = gsignond_disposable_set_timeout gsignond_disposable_init t"
    "vb_identities b = []" "vb_objects b = []"
    by (auto simp: gsignond_dbus_auth_service_adapter_new_with_connection_def
        gsignond_dbus_auth_service_adapter_init_def disposable_defs Let_def split: if_splits)
  then show ?case
    using disposable_run.start [of t] by (auto simp: service_ok_def disposable_defs)
next
  case (session_ref b s)
  then show ?case by (simp add: service_ok_def)
next
  case (daemon b f b')
  then show ?case using in_daemon_safe [OF daemon.hyps(2)] by (simp add: service_safe_def)
next
  case (session_unref b s b')
  then show ?case using same_service_safe [OF session_object_unref_same [OF session_unref.hyps(2)]] by (simp add: service_safe_def)
next
  case (service_method b sm dir k peer smeth b')
  then show ?case using service_call_ok by blast
next
  case (identity_method b m k peer meth b')
  then show ?case using bus_call_safe [OF identity_method.hyps(2)] by (simp add: service_safe_def)
next
  case (client_gone b peer_name b')
  then show ?case using connection_lost_safe [OF client_gone.hyps(2)] by (simp add: service_safe_def)
next
  case (fires b m i b')
  then show ?case using fire_identity_safe [OF fires.hyps(2)] by (simp add: service_safe_def)
qed

subsection \<open>The object is kept\<close>

text \<open>
  C37. The object that gives out identities lives as long as any of them: whatever calls come, whatever
  happens in the daemon, and in whatever order clients, sessions and timers go, it lists exactly the objects
  of identities that exist, each once; while there is one it is held and no timer can dispose of it, and
  when there is none left and it has a timeout, exactly one timer is running that will.
\<close>

theorem service_kept:
  assumes "service_run env t b"
  shows "set (vb_identities b) = fst ` set (vb_objects b) \<and> distinct (vb_identities b) \<and>
     (vb_objects b \<noteq> [] \<longrightarrow> \<not> gsignond_disposable_get_auto_dispose (vb_disposable b) \<and> sources (vb_disposable b) = []) \<and>
     (vb_objects b = [] \<and> t \<noteq> 0 \<longrightarrow> sources (vb_disposable b) = [(timer_id (vb_disposable b), Timeout_source t)])"
proof -
  have ok: "service_ok t 0 b"
    by (rule service_run_ok [OF assms])
  have inv: "disposable_inv t (vb_disposable b)" "unrefs (vb_disposable b) = 0"
    using ok disposable_run_inv by (auto simp: service_ok_def)
  have empty: "vb_identities b = [] \<longleftrightarrow> vb_objects b = []"
    using ok by (auto simp: service_ok_def)
  show ?thesis
  proof (cases "vb_objects b = []")
    case True
    with ok empty inv show ?thesis
      by (auto simp: service_ok_def disposable_inv_def)
  next
    case False
    with ok empty have "keep_obj_counter (vb_disposable b) = 1" "set (vb_identities b) = fst ` set (vb_objects b)"
        "distinct (vb_identities b)"
      by (auto simp: service_ok_def)
    with False inv show ?thesis
      by (auto simp: disposable_inv_def gsignond_disposable_get_auto_dispose_def)
  qed
qed

text \<open>A client registers a new identity with an object that has just been started.\<close>

definition example_started_service :: "secret_storage service_bus" where
  "example_started_service = example_service
     \<lparr>vb_disposable := gsignond_disposable_set_timeout gsignond_disposable_init 5, vb_identities := [], vb_watched := [],
       vb_objects := []\<rparr>"

theorem service_kept_witness:
  "\<forall>sm. \<exists>b. service_call example_bus_env sm None 10 (Bus_name '':1'') (Register_new_identity ''app'') example_started_service = Inr b \<and>
     vb_identities b = [3] \<and> sources (vb_disposable b) = []"
proof
  fix sm
  obtain b where b: "service_call example_bus_env sm None 10 (Bus_name '':1'') (Register_new_identity ''app'')
      example_started_service = Inr b" "vb_identities b = [3]"
    by (simp add: handle_register_new_identity_def example_started_service_def example_service_def call_daemon_def
        in_daemon_def gsignond_daemon_register_new_identity_def gsignond_identity_new_def hold_service_def Let_def
        create_and_cache_dbus_identity_def gsignond_dbus_identity_adapter_new_with_connection_def connect_handler_def
        example_bus_env_def service_reply_def put_out_def peer_sender_def)
  have "service_run example_bus_env 5 example_started_service"
    by (rule service_run.start [of _ _ "vb_daemon example_service" "example_service\<lparr>vb_objects := []\<rparr>"])
      (simp_all add: example_started_service_def gsignond_dbus_auth_service_adapter_new_with_connection_def Let_def
        gsignond_dbus_auth_service_adapter_init_def example_bus_env_def example_service_def)
  from service_run.service_method [OF this b(1)] have run: "service_run example_bus_env 5 b" .
  have "vb_objects b \<noteq> []"
    using service_kept [OF run] b(2) by auto
  with b show "\<exists>b. service_call example_bus_env sm None 10 (Bus_name '':1'') (Register_new_identity ''app'')
      example_started_service = Inr b \<and> vb_identities b = [3] \<and> sources (vb_disposable b) = []"
    using service_kept [OF run] by blast
qed

end
