(* ===== verification/Gsso_Wipe.thy ===== *)
theory Gsso_Wipe
  imports Gsso_Prelude "HOL-Library.Word" "HOL-Library.AList"
begin

text \<open>
  \<^verbatim>\<open>gsignond_wipe_file\<close> and \<^verbatim>\<open>gsignond_wipe_directory\<close> of \<^verbatim>\<open>src/src/common/gsignond-utils.c\<close>, with the part of the
  operating system that they and the storage managers use: directories with their entries, the owners and modes
  that were set, the user ids of the process with the calls that set the effective one, mounts (the latest first), and a log of what was written to which
  file where. Any call of the system may fail:
  \<open>os_results\<close> says which of the next ones do, and a list that has run out stands for success.

  A file is named by its directory and its name in it.
\<close>

type_synonym byte = "8 word"

datatype node = File "byte list" | Link | Subdirectory

datatype sys_result = Succeeds | Fails | Short nat

record os =
  os_ruid :: nat
  os_suid :: nat
  os_euid :: nat
  os_egid :: nat
  os_page_size :: int
  os_dirs :: "(string \<times> (string \<times> node) list) list"
  os_owners :: "(string \<times> nat \<times> nat) list"
  os_modes :: "(string \<times> nat) list"
  os_mounts :: "(string \<times> string \<times> string) list"
  os_seteuids :: "(nat \<times> bool) list"
  os_results :: "sys_result list"
  os_writes :: "((string \<times> string) \<times> nat \<times> byte list) list"
  os_random :: "nat \<Rightarrow> byte"
  os_random_pos :: nat

definition next_result :: "os \<Rightarrow> sys_result \<times> os" where
  "next_result s = (case os_results s of [] \<Rightarrow> (Succeeds, s) | r # rs \<Rightarrow> (r, s\<lparr>os_results := rs\<rparr>))"

text \<open>A call that succeeds or not, and has no other effect then.\<close>

definition sys_call :: "os \<Rightarrow> bool \<times> os" where
  "sys_call s = (case next_result s of (r, s) \<Rightarrow> (r = Succeeds, s))"

definition dir_entries :: "string \<Rightarrow> os \<Rightarrow> (string \<times> node) list" where
  "dir_entries d s = (case map_of (os_dirs s) d of Some es \<Rightarrow> es | None \<Rightarrow> [])"

definition set_entries :: "string \<Rightarrow> (string \<times> node) list \<Rightarrow> os \<Rightarrow> os" where
  "set_entries d es s = s\<lparr>os_dirs := AList.update d es (os_dirs s)\<rparr>"

definition overwrite :: "nat \<Rightarrow> byte list \<Rightarrow> byte list \<Rightarrow> byte list" where
  "overwrite pos buf content = take pos content @ buf @ drop (pos + length buf) content"

text \<open>\<^verbatim>\<open>write\<close>: the number of bytes written, or -1.\<close>

definition sys_write :: "string \<Rightarrow> string \<Rightarrow> nat \<Rightarrow> byte list \<Rightarrow> os \<Rightarrow> int \<times> os" where
  "sys_write d f pos buf s =
     (case next_result s of (r, s) \<Rightarrow>
        (case r of
           Fails \<Rightarrow> (-1, s)
         | _ \<Rightarrow>
             let buf = (case r of Short n \<Rightarrow> take n buf | _ \<Rightarrow> buf);
                 content = (case map_of (dir_entries d s) f of Some (File c) \<Rightarrow> c | _ \<Rightarrow> []);
                 s = set_entries d (AList.update f (File (overwrite pos buf content)) (dir_entries d s)) s
             in (int (length buf), s\<lparr>os_writes := os_writes s @ [((d, f), pos, buf)]\<rparr>)))"

text \<open>\<^verbatim>\<open>read\<close> from the random device.\<close>

definition read_random :: "nat \<Rightarrow> os \<Rightarrow> byte list option \<times> os" where
  "read_random n s =
     (case sys_call s of (ok, s) \<Rightarrow>
        if ok then (Some (map (os_random s) [os_random_pos s ..< os_random_pos s + n]),
                    s\<lparr>os_random_pos := os_random_pos s + n\<rparr>)
        else (None, s))"

subsection \<open>Wiping a file\<close>

text \<open>One pass over the file. \<open>fill\<close>: what is put into the buffer before a write.\<close>

function wipe_pass ::
  "nat \<Rightarrow> (nat \<Rightarrow> os \<Rightarrow> byte list option \<times> os) \<Rightarrow> string \<Rightarrow> string \<Rightarrow> nat \<Rightarrow> nat \<Rightarrow> os \<Rightarrow> bool \<times> os" where
  "wipe_pass pagesize fill d f pos sizeleft s =
     (if sizeleft = 0 \<or> pagesize = 0 then (True, s)
      else
        let writesize = (if sizeleft < pagesize then sizeleft else pagesize)
        in case fill writesize s of
             (None, s) \<Rightarrow> (False, s)
           | (Some wipebuf, s) \<Rightarrow>
               (case sys_write d f pos wipebuf s of (sizewritten, s) \<Rightarrow>
                  if sizewritten \<noteq> int writesize then (False, s)
                  else wipe_pass pagesize fill d f (pos + writesize) (sizeleft - writesize) s))"
  by pat_completeness auto
termination
  by (relation "measure (\<lambda>(pagesize, fill, d, f, pos, sizeleft, s). sizeleft)") auto

declare wipe_pass.simps [simp del]

definition fill_with :: "byte \<Rightarrow> nat \<Rightarrow> os \<Rightarrow> byte list option \<times> os" where
  "fill_with b n s = (Some (replicate n b), s)"

text \<open>The steps in order, each only when the ones before succeeded.\<close>

fun steps :: "(os \<Rightarrow> bool \<times> os) list \<Rightarrow> os \<Rightarrow> bool \<times> os" where
  "steps [] s = (True, s)"
| "steps (f # fs) s = (case f s of (ok, s) \<Rightarrow> if ok then steps fs s else (False, s))"

definition unlink_file :: "string \<Rightarrow> string \<Rightarrow> os \<Rightarrow> bool \<times> os" where
  "unlink_file d f s =
     (case sys_call s of (ok, s) \<Rightarrow>
        if ok then (True, set_entries d (AList.delete f (dir_entries d s)) s) else (False, s))"

definition gsignond_wipe_file :: "string \<Rightarrow> string \<Rightarrow> os \<Rightarrow> bool \<times> os" where
  "gsignond_wipe_file d f s =
     (if os_page_size s \<le> 0 then (False, s)
      else
        let pagesize = nat (os_page_size s)
        in case sys_call s of (rngfd, s) \<Rightarrow>
           if \<not> rngfd then (False, s)
           else case map_of (dir_entries d s) f of
             Some (File content) \<Rightarrow>
               let sizeleft = length content
               in steps
                    [sys_call, sys_call,
                     wipe_pass pagesize (fill_with 255) d f 0 sizeleft,
                     sys_call,
                     wipe_pass pagesize (fill_with 0) d f 0 sizeleft,
                     sys_call,
                     wipe_pass pagesize read_random d f 0 sizeleft,
                     unlink_file d f] s
           | _ \<Rightarrow> (False, s))"

subsection \<open>Wiping a directory\<close>

text \<open>\<^verbatim>\<open>remove\<close> of a directory or of a link: a directory goes only when it is empty.\<close>

definition remove_entry :: "string \<Rightarrow> string \<Rightarrow> node \<Rightarrow> os \<Rightarrow> bool \<times> os" where
  "remove_entry d f n s =
     (if n = Subdirectory \<and> dir_entries (d @ ''/'' @ f) s \<noteq> [] then (False, s)
      else
        case unlink_file d f s of (ok, s) \<Rightarrow>
          (ok, if ok \<and> n = Subdirectory then s\<lparr>os_dirs := AList.delete (d @ ''/'' @ f) (os_dirs s)\<rparr> else s))"

fun wipe_entries :: "string \<Rightarrow> string list \<Rightarrow> os \<Rightarrow> bool \<times> os" where
  "wipe_entries d [] s = (True, s)"
| "wipe_entries d (f # fs) s =
     (case sys_call s of (lstat, s) \<Rightarrow>
        if \<not> lstat then (False, s)
        else case map_of (dir_entries d s) f of
          None \<Rightarrow> (False, s)
        | Some n \<Rightarrow>
            (case (case n of File c \<Rightarrow> gsignond_wipe_file d f s | _ \<Rightarrow> remove_entry d f n s) of (wiperes, s) \<Rightarrow>
               if \<not> wiperes then (False, s) else wipe_entries d fs s))"

definition gsignond_wipe_directory :: "string \<Rightarrow> os \<Rightarrow> bool \<times> os" where
  "gsignond_wipe_directory d s =
     (case sys_call s of (opened, s) \<Rightarrow>
        if \<not> opened \<or> map_of (os_dirs s) d = None then (False, s)
        else wipe_entries d (map fst (dir_entries d s)) s)"

subsection \<open>What a call leaves alone\<close>

definition same_process :: "os \<Rightarrow> os \<Rightarrow> bool" where
  "same_process s s' \<longleftrightarrow> os_ruid s' = os_ruid s \<and> os_suid s' = os_suid s \<and> os_euid s' = os_euid s \<and>
     os_egid s' = os_egid s \<and> os_page_size s' = os_page_size s \<and> os_owners s' = os_owners s \<and> os_modes s' = os_modes s \<and> os_mounts s' = os_mounts s \<and>
     os_seteuids s' = os_seteuids s \<and>
     os_random s' = os_random s"

lemma same_process_refl [simp]: "same_process s s"
  by (simp add: same_process_def)

lemma same_process_trans: "same_process s t \<Longrightarrow> same_process t u \<Longrightarrow> same_process s u"
  by (simp add: same_process_def)

text \<open>A call that looks only: it uses up a result, and maybe random bytes.\<close>

definition looks :: "os \<Rightarrow> os \<Rightarrow> bool" where
  "looks s s' \<longleftrightarrow> same_process s s' \<and> os_dirs s' = os_dirs s \<and> os_writes s' = os_writes s"

lemma looks_trans: "looks s t \<Longrightarrow> looks t u \<Longrightarrow> looks s u"
  by (auto simp: looks_def intro: same_process_trans)

lemma looks_refl [simp]: "looks s s"
  by (simp add: looks_def)

lemma next_result_looks: "next_result s = (r, t) \<Longrightarrow> looks s t"
  by (auto simp: next_result_def looks_def same_process_def split: list.splits)

lemma sys_call_looks: "sys_call s = (ok, t) \<Longrightarrow> looks s t"
  by (auto simp: sys_call_def dest: next_result_looks split: prod.splits)

lemma fill_with_looks: "fill_with b n s = (buf, t) \<Longrightarrow> looks s t \<and> buf = Some (replicate n b)"
  by (auto simp: fill_with_def)

lemma read_random_looks:
  assumes "read_random n s = (buf, t)"
  shows "looks s t \<and> (\<forall>bs. buf = Some bs \<longrightarrow> bs = map (os_random s) [os_random_pos s ..< os_random_pos s + n] \<and>
    os_random_pos t = os_random_pos s + n)"
proof -
  obtain ok u where u: "sys_call s = (ok, u)" by fastforce
  have "os_random u = os_random s" "os_random_pos u = os_random_pos s"
    using u by (auto simp: sys_call_def next_result_def split: prod.splits list.splits)
  then show ?thesis
    using assms u sys_call_looks [OF u] by (auto simp: read_random_def looks_def same_process_def split: if_splits)
qed

text \<open>Looking leaves the entries of every directory.\<close>

lemma looks_entries: "looks s t \<Longrightarrow> dir_entries d t = dir_entries d s"
  by (simp add: looks_def dir_entries_def)

subsection \<open>Writes to one file\<close>

fun contiguous :: "nat \<Rightarrow> (nat \<times> byte list) list \<Rightarrow> bool" where
  "contiguous pos [] = True"
| "contiguous pos ((p, b) # ws) = (p = pos \<and> contiguous (pos + length b) ws)"

text \<open>From \<open>s\<close> to \<open>s'\<close> the writes \<open>ws\<close> were made to a file, which keeps its length, and nothing else was changed.\<close>

definition wrote :: "string \<Rightarrow> string \<Rightarrow> (nat \<times> byte list) list \<Rightarrow> os \<Rightarrow> os \<Rightarrow> bool" where
  "wrote d f ws s s' \<longleftrightarrow> same_process s s' \<and> os_writes s' = os_writes s @ map (Pair (d, f)) ws \<and>
     (\<forall>e. e \<noteq> d \<longrightarrow> map_of (os_dirs s') e = map_of (os_dirs s) e) \<and>
     (map_of (os_dirs s') d = None \<longleftrightarrow> map_of (os_dirs s) d = None) \<and>
     map fst (dir_entries d s') = map fst (dir_entries d s) \<and>
     (\<forall>g. g \<noteq> f \<longrightarrow> map_of (dir_entries d s') g = map_of (dir_entries d s) g) \<and>
     (\<forall>c. map_of (dir_entries d s) f = Some (File c) \<longrightarrow>
        (\<exists>c'. map_of (dir_entries d s') f = Some (File c') \<and> length c' = length c))"

lemma wrote_refl [simp]: "wrote d f [] s s"
  by (simp add: wrote_def)

lemma wrote_trans: "wrote d f ws s t \<Longrightarrow> wrote d f xs t u \<Longrightarrow> wrote d f (ws @ xs) s u"
  by (fastforce simp: wrote_def intro: same_process_trans)

lemma looks_wrote: "looks s t \<Longrightarrow> wrote d f [] s t"
  by (simp add: looks_def wrote_def dir_entries_def)

lemma entries_exist: "map_of (dir_entries d s) f = Some n \<Longrightarrow> map_of (os_dirs s) d \<noteq> None"
  by (auto simp: dir_entries_def split: option.splits)

lemma set_entries_entries [simp]:
  "dir_entries d (set_entries d es s) = es" "e \<noteq> d \<Longrightarrow> map_of (os_dirs (set_entries d es s)) e = map_of (os_dirs s) e"
  "map_of (os_dirs (set_entries d es s)) d = Some es"
  by (simp_all add: dir_entries_def set_entries_def update_conv')

lemma set_entries_fields [simp]: "same_process s (set_entries d es s)" "os_writes (set_entries d es s) = os_writes s"
  by (simp_all add: set_entries_def same_process_def)

lemma update_keys: "k \<in> fst ` set t \<Longrightarrow> map fst (AList.update k v t) = map fst t"
  by (induction t) auto

lemma sys_write_wrote:
  assumes "sys_write d f pos buf s = (n, t)" and here: "map_of (dir_entries d s) f = Some (File c)"
    and "pos + length buf \<le> length c"
  shows "\<exists>ws. wrote d f ws s t \<and> (n = int (length buf) \<longrightarrow> buf \<noteq> [] \<longrightarrow> ws = [(pos, buf)] \<and>
      map_of (dir_entries d t) f = Some (File (overwrite pos buf c))) \<and>
    (\<forall>w \<in> set ws. length (snd w) \<le> length buf)"
proof -
  obtain r u where r: "next_result s = (r, u)" by fastforce
  have u: "looks s u" "map_of (dir_entries d u) f = Some (File c)"
    using next_result_looks [OF r] here by (simp_all add: looks_entries)
  have in_keys: "f \<in> fst ` set (dir_entries d u)"
    using u(2) by (metis map_of_eq_None_iff option.distinct(1))
  show ?thesis
  proof (cases "r = Fails")
    case True
    then show ?thesis
      using assms(1) r looks_wrote [OF u(1)] by (intro exI [of _ "[]"]) (auto simp: sys_write_def)
  next
    case False
    define b where "b = (case r of Short n \<Rightarrow> take n buf | _ \<Rightarrow> buf)"
    have b: "length b \<le> length buf" "length b = length buf \<longrightarrow> b = buf"
      by (auto simp: b_def split: sys_result.splits)
    have t: "n = int (length b)" "t = (set_entries d (AList.update f (File (overwrite pos b c)) (dir_entries d u)) u)
        \<lparr>os_writes := os_writes u @ [((d, f), pos, b)]\<rparr>"
      using assms(1) r False u(2) by (auto simp: sys_write_def b_def Let_def split: sys_result.splits)
    have len: "length (overwrite pos b c) = length c"
      using assms(3) b(1) by (simp add: overwrite_def)
    have entries: "dir_entries d t = AList.update f (File (overwrite pos b c)) (dir_entries d u)"
      unfolding t(2) dir_entries_def by (simp add: set_entries_def update_conv')
    have "wrote d f [(pos, b)] u t"
      using entries_exist [OF u(2)] in_keys u(2) len entries unfolding wrote_def t(2)
      by (auto simp: same_process_def set_entries_def update_conv' update_keys)
    from wrote_trans [OF looks_wrote [OF u(1)] this] have "wrote d f [(pos, b)] s t" by simp
    moreover have "map_of (dir_entries d t) f = Some (File (overwrite pos b c))"
      by (simp add: entries update_conv')
    ultimately show ?thesis using b t(1) by (intro exI [of _ "[(pos, b)]"]) auto
  qed
qed

subsection \<open>Passes\<close>

text \<open>A pass over a file of \<open>n\<close> bytes with writes of at most a page, each of bytes with \<open>P\<close>.\<close>

definition full_pass :: "nat \<Rightarrow> (byte list \<Rightarrow> bool) \<Rightarrow> nat \<Rightarrow> nat \<Rightarrow> (nat \<times> byte list) list \<Rightarrow> bool" where
  "full_pass page P pos n ws \<longleftrightarrow> contiguous pos ws \<and> sum_list (map (\<lambda>w. length (snd w)) ws) = n \<and> (\<forall>w \<in> set ws. P (snd w))"

definition in_pages :: "nat \<Rightarrow> (nat \<times> byte list) list \<Rightarrow> bool" where
  "in_pages page ws \<longleftrightarrow> (\<forall>w \<in> set ws. length (snd w) \<le> page)"

definition fills :: "(byte list \<Rightarrow> bool) \<Rightarrow> os \<Rightarrow> (nat \<Rightarrow> os \<Rightarrow> byte list option \<times> os) \<Rightarrow> bool" where
  "fills P s0 fill \<longleftrightarrow> (\<forall>n s buf t. fill n s = (buf, t) \<and> os_random s = os_random s0 \<longrightarrow>
     looks s t \<and> (\<forall>b. buf = Some b \<longrightarrow> length b = n \<and> P b))"

lemma in_pages_append [simp]: "in_pages page (ws @ xs) \<longleftrightarrow> in_pages page ws \<and> in_pages page xs" "in_pages page []"
  by (auto simp: in_pages_def)

lemma wipe_pass_wrote:
  assumes "wipe_pass page fill d f pos n s = (ok, t)" "0 < page" "fills P s0 fill" "os_random s = os_random s0"
    and "map_of (dir_entries d s) f = Some (File c)" "pos + n \<le> length c"
  shows "\<exists>ws. wrote d f ws s t \<and> in_pages page ws \<and> (ok \<longrightarrow> full_pass page P pos n ws)"
  using assms
proof (induction page fill d f pos n s arbitrary: c rule: wipe_pass.induct)
  case (1 page fill d f pos n s)
  show ?case
  proof (cases "n = 0")
    case True
    then show ?thesis
      using "1.prems"(1) by (intro exI [of _ "[]"]) (simp add: wipe_pass.simps [of page] full_pass_def)
  next
    case False
    let ?w = "if n < page then n else page"
    obtain buf u where u: "fill ?w s = (buf, u)" by fastforce
    have look: "looks s u" "\<And>b. buf = Some b \<Longrightarrow> length b = ?w \<and> P b"
      using "1.prems"(3,4) u unfolding fills_def by blast+
    note entries = looks_entries [OF look(1)]
    show ?thesis
    proof (cases buf)
      case None
      then show ?thesis
        using "1.prems"(1,2) False u looks_wrote [OF look(1)]
        by (intro exI [of _ "[]"]) (simp add: wipe_pass.simps [of page])
    next
      case (Some b)
      obtain k v where v: "sys_write d f pos b u = (k, v)" by fastforce
      have b: "length b = ?w" "P b" "b \<noteq> []"
        using look(2) [OF Some] False "1.prems"(2) by (auto split: if_splits)
      obtain ws where ws: "wrote d f ws u v" "k = int (length b) \<longrightarrow> ws = [(pos, b)] \<and>
          map_of (dir_entries d v) f = Some (File (overwrite pos b c))" "in_pages (length b) ws"
        using sys_write_wrote [OF v, of c] "1.prems"(5,6) b by (auto simp: entries in_pages_def split: if_splits)
      have pages: "in_pages page ws"
        using ws(3) b(1) by (auto simp: in_pages_def split: if_splits)
      have sw: "wrote d f ws s v"
        using wrote_trans [OF looks_wrote [OF look(1)] ws(1)] by simp
      show ?thesis
      proof (cases "k = int ?w")
        case False
        then show ?thesis
          using "1.prems"(1,2) \<open>n \<noteq> 0\<close> u Some v sw pages by (auto simp: wipe_pass.simps [of page] Let_def)
      next
        case True
        then have rest: "wipe_pass page fill d f (pos + ?w) (n - ?w) v = (ok, t)"
          using "1.prems"(1,2) \<open>n \<noteq> 0\<close> u Some v by (simp add: wipe_pass.simps [of page] Let_def)
        have v': "ws = [(pos, b)]" "map_of (dir_entries d v) f = Some (File (overwrite pos b c))"
          using ws(2) True b(1) by auto
        have len: "length (overwrite pos b c) = length c"
          using "1.prems"(6) b(1) by (simp add: overwrite_def)
        have rnd: "os_random v = os_random s0"
          using sw "1.prems"(4) by (simp add: wrote_def same_process_def)
        obtain xs where xs: "wrote d f xs v t" "in_pages page xs" "ok \<longrightarrow> full_pass page P (pos + ?w) (n - ?w) xs"
          using "1.IH" [OF _ refl u [symmetric] Some v [symmetric] _ rest "1.prems"(2,3) rnd v'(2)] \<open>n \<noteq> 0\<close>
            "1.prems"(2,6) True len by (auto split: if_splits)
        have "ok \<longrightarrow> full_pass page P pos n ((pos, b) # xs)"
          using xs(3) b by (auto simp: full_pass_def split: if_splits)
        then show ?thesis
          using wrote_trans [OF sw xs(1)] pages xs(2) v'(1) by (intro exI [of _ "(pos, b) # xs"]) (simp add: in_pages_def)
      qed
    qed
  qed
qed

lemma fill_with_fills: "fills (\<lambda>bs. set bs \<subseteq> {b}) s0 (fill_with b)"
  by (auto simp: fills_def dest!: fill_with_looks)

definition from_device :: "os \<Rightarrow> byte list \<Rightarrow> bool" where
  "from_device s bs \<longleftrightarrow> (\<exists>i. bs = map (os_random s) [i ..< i + length bs])"

lemma read_random_fills: "fills (from_device s0) s0 read_random"
  unfolding fills_def from_device_def by (fastforce dest: read_random_looks)

subsection \<open>A file that is wiped\<close>

text \<open>A step that fails leaves the file where it is; one that succeeds does so too, except for the last.\<close>

definition keeps :: "nat \<Rightarrow> string \<Rightarrow> string \<Rightarrow> nat \<Rightarrow> os \<Rightarrow> (os \<Rightarrow> bool \<times> os) \<Rightarrow> bool" where
  "keeps page d f n s0 step \<longleftrightarrow> (\<forall>s c. map_of (dir_entries d s) f = Some (File c) \<and> length c = n \<and> os_random s = os_random s0 \<longrightarrow>
     (\<exists>ws. wrote d f ws s (snd (step s)) \<and> in_pages page ws))"

lemma sys_call_keeps: "keeps page d f n s0 sys_call"
  unfolding keeps_def by (metis in_pages_append(2) looks_wrote surjective_pairing sys_call_looks)

lemma wipe_pass_keeps:
  assumes "0 < page" "fills P s0 fill"
  shows "keeps page d f n s0 (wipe_pass page fill d f 0 n)"
  unfolding keeps_def
proof (intro allI impI)
  fix s c
  assume "map_of (dir_entries d s) f = Some (File c) \<and> length c = n \<and> os_random s = os_random s0"
  with wipe_pass_wrote [OF surjective_pairing assms, of s d f c 0 n]
  show "\<exists>ws. wrote d f ws s (snd (wipe_pass page fill d f 0 n s)) \<and> in_pages page ws" by auto
qed

lemma wrote_file:
  assumes "wrote d f ws s t" "map_of (dir_entries d s) f = Some (File c)"
  obtains c' where "map_of (dir_entries d t) f = Some (File c')" "length c' = length c" "os_random t = os_random s"
  using assms by (auto simp: wrote_def same_process_def)

lemma steps_keep:
  assumes "list_all (keeps page d f (length c) s0) fs" "map_of (dir_entries d s) f = Some (File c)" "os_random s = os_random s0"
  shows "\<exists>ws. wrote d f ws s (snd (steps fs s)) \<and> in_pages page ws"
  using assms
proof (induction fs arbitrary: s c)
  case (Cons g gs)
  obtain ws where ws: "wrote d f ws s (snd (g s))" "in_pages page ws"
    using Cons.prems unfolding keeps_def by auto
  show ?case
  proof (cases "fst (g s)")
    case True
    from wrote_file [OF ws(1) Cons.prems(2)] obtain c' where c':
      "map_of (dir_entries d (snd (g s))) f = Some (File c')" "length c' = length c" "os_random (snd (g s)) = os_random s" .
    from Cons.IH [of c' "snd (g s)"] c' Cons.prems obtain xs where
      "wrote d f xs (snd (g s)) (snd (steps gs (snd (g s))))" "in_pages page xs" by auto
    with wrote_trans [OF ws(1) this(1)] ws(2) True show ?thesis
      by (intro exI [of _ "ws @ xs"]) (simp add: case_prod_beta)
  next
    case False
    then show ?thesis using ws by (auto simp: case_prod_beta)
  qed
qed (intro exI [of _ "[]"], simp)

lemma steps_append:
  "steps (fs @ gs) s = (if fst (steps fs s) then steps gs (snd (steps fs s)) else (False, snd (steps fs s)))"
  by (induction fs arbitrary: s) (auto simp: case_prod_beta)

lemma steps_last:
  "steps (fs @ [g]) s = (if fst (steps fs s) then g (snd (steps fs s)) else (False, snd (steps fs s)))"
  by (simp add: steps_append case_prod_beta) (metis prod.collapse)

lemma steps_last_ok:
  assumes "steps (fs @ [g]) s = (True, t)"
  shows "\<exists>v. steps fs s = (True, v) \<and> g v = (True, t)"
  using assms by (cases "steps fs s") (auto simp: steps_last split: if_splits)

lemma steps_last_fails:
  assumes "steps (fs @ [g]) s = (False, t)"
  shows "if fst (steps fs s) then g (snd (steps fs s)) = (False, t) else t = snd (steps fs s)"
  using assms by (auto simp: steps_last split: if_splits)

lemma unlink_last_fails:
  assumes "list_all (keeps page d f (length c) s) fs" "map_of (dir_entries d s) f = Some (File c)"
    and "steps (fs @ [unlink_file d f]) s = (False, t)"
  shows "\<exists>ws. wrote d f ws s t \<and> in_pages page ws"
proof -
  obtain ws where ws: "wrote d f ws s (snd (steps fs s))" "in_pages page ws"
    using steps_keep [OF assms(1,2) refl] by blast
  show ?thesis
  proof (cases "fst (steps fs s)")
    case True
    then have "unlink_file d f (snd (steps fs s)) = (False, t)"
      using steps_last_fails [OF assms(3)] by simp
    then have "looks (snd (steps fs s)) t"
      by (auto simp: unlink_file_def split: prod.splits if_splits dest: sys_call_looks)
    from wrote_trans [OF ws(1) looks_wrote [OF this]] show ?thesis using ws(2) by auto
  next
    case False
    then show ?thesis using ws steps_last_fails [OF assms(3)] by auto
  qed
qed

lemma steps_True: "steps (g # gs) s = (True, t) \<longleftrightarrow> (\<exists>u. g s = (True, u) \<and> steps gs u = (True, t))"
  by (auto split: prod.splits if_splits)

lemma passes_done:
  assumes "steps [sys_call, sys_call, wipe_pass page (fill_with 255) d f 0 (length c), sys_call,
      wipe_pass page (fill_with 0) d f 0 (length c), sys_call, wipe_pass page read_random d f 0 (length c)] s = (True, t)"
    and "map_of (dir_entries d s) f = Some (File c)" "0 < page"
  shows "\<exists>ones zeros rand. wrote d f (ones @ zeros @ rand) s t \<and> in_pages page (ones @ zeros @ rand) \<and>
    full_pass page (\<lambda>bs. set bs \<subseteq> {255}) 0 (length c) ones \<and> full_pass page (\<lambda>bs. set bs \<subseteq> {0}) 0 (length c) zeros \<and>
    full_pass page (from_device s) 0 (length c) rand"
proof -
  from assms(1) obtain s1 s2 s3 s4 s5 s6 where run: "sys_call s = (True, s1)" "sys_call s1 = (True, s2)"
      "wipe_pass page (fill_with 255) d f 0 (length c) s2 = (True, s3)" "sys_call s3 = (True, s4)"
      "wipe_pass page (fill_with 0) d f 0 (length c) s4 = (True, s5)" "sys_call s5 = (True, s6)"
      "wipe_pass page read_random d f 0 (length c) s6 = (True, t)"
    by (auto simp: steps_True simp del: steps.simps(2))
  note look = sys_call_looks [OF run(1)] sys_call_looks [OF run(2)] sys_call_looks [OF run(4)] sys_call_looks [OF run(6)]
  have w12: "wrote d f [] s s2"
    using looks_wrote [OF looks_trans [OF look(1,2)]] .
  obtain c2 where c2: "map_of (dir_entries d s2) f = Some (File c2)" "length c2 = length c" "os_random s2 = os_random s"
    using wrote_file [OF w12 assms(2)] .
  obtain ones where ones: "wrote d f ones s2 s3" "in_pages page ones" "full_pass page (\<lambda>bs. set bs \<subseteq> {255}) 0 (length c) ones"
    using wipe_pass_wrote [OF run(3) assms(3) fill_with_fills [of 255 s] c2(3,1)] c2(2) by auto
  have w4: "wrote d f ones s s4"
    using wrote_trans [OF wrote_trans [OF w12 ones(1)] looks_wrote [OF look(3)]] by simp
  obtain c4 where c4: "map_of (dir_entries d s4) f = Some (File c4)" "length c4 = length c" "os_random s4 = os_random s"
    using wrote_file [OF w4 assms(2)] .
  obtain zeros where zeros: "wrote d f zeros s4 s5" "in_pages page zeros" "full_pass page (\<lambda>bs. set bs \<subseteq> {0}) 0 (length c) zeros"
    using wipe_pass_wrote [OF run(5) assms(3) fill_with_fills [of 0 s] c4(3,1)] c4(2) by auto
  have w6: "wrote d f (ones @ zeros) s s6"
    using wrote_trans [OF wrote_trans [OF w4 zeros(1)] looks_wrote [OF look(4)]] by simp
  obtain c6 where c6: "map_of (dir_entries d s6) f = Some (File c6)" "length c6 = length c" "os_random s6 = os_random s"
    using wrote_file [OF w6 assms(2)] .
  obtain rand where rand: "wrote d f rand s6 t" "in_pages page rand" "full_pass page (from_device s) 0 (length c) rand"
    using wipe_pass_wrote [OF run(7) assms(3) read_random_fills [of s] c6(3,1)] c6(2) by auto
  show ?thesis
    using wrote_trans [OF w6 rand(1)] ones(2,3) zeros(2,3) rand(2,3)
    by (intro exI [of _ ones] exI [of _ zeros] exI [of _ rand]) simp
qed

lemma all_keep:
  "0 < page \<Longrightarrow> list_all (keeps page d f n s0)
     [sys_call, sys_call, wipe_pass page (fill_with 255) d f 0 n, sys_call,
      wipe_pass page (fill_with 0) d f 0 n, sys_call, wipe_pass page read_random d f 0 n]"
  using sys_call_keeps wipe_pass_keeps [OF _ fill_with_fills] wipe_pass_keeps [OF _ read_random_fills] by simp

lemma wrote_frame:
  assumes "wrote d f ws s t" "map_of (dir_entries d s) f = Some (File c)"
  shows "same_process s t" "\<forall>e. e \<noteq> d \<longrightarrow> map_of (os_dirs t) e = map_of (os_dirs s) e"
    "\<forall>g. g \<noteq> f \<longrightarrow> map_of (dir_entries d t) g = map_of (dir_entries d s) g"
    "os_writes t = os_writes s @ map (Pair (d, f)) ws"
    "\<exists>c'. map_of (dir_entries d t) f = Some (File c') \<and> length c' = length c"
  using assms by (auto simp: wrote_def)

definition three_passes :: "os \<Rightarrow> nat \<Rightarrow> (nat \<times> byte list) list \<Rightarrow> bool" where
  "three_passes s n ws \<longleftrightarrow>
     (\<exists>ones zeros rand. ws = ones @ zeros @ rand \<and>
        full_pass (nat (os_page_size s)) (\<lambda>bs. set bs \<subseteq> {255}) 0 n ones \<and>
        full_pass (nat (os_page_size s)) (\<lambda>bs. set bs \<subseteq> {0}) 0 n zeros \<and>
        full_pass (nat (os_page_size s)) (from_device s) 0 n rand)"

lemma file_wiped:
  assumes "steps [sys_call, sys_call, wipe_pass page (fill_with 255) d f 0 (length c), sys_call,
      wipe_pass page (fill_with 0) d f 0 (length c), sys_call, wipe_pass page read_random d f 0 (length c)] s = (True, v)"
    and "unlink_file d f v = (True, t)" "map_of (dir_entries d s) f = Some (File c)" "0 < page" "page = nat (os_page_size s)"
  shows "\<exists>ws. same_process s t \<and> (\<forall>e. e \<noteq> d \<longrightarrow> map_of (os_dirs t) e = map_of (os_dirs s) e) \<and>
    (\<forall>g. g \<noteq> f \<longrightarrow> map_of (dir_entries d t) g = map_of (dir_entries d s) g) \<and> map_of (dir_entries d t) f = None \<and>
    os_writes t = os_writes s @ map (Pair (d, f)) ws \<and> in_pages page ws \<and> three_passes s (length c) ws"
proof -
  obtain ones zeros rand where passes: "wrote d f (ones @ zeros @ rand) s v" "in_pages page (ones @ zeros @ rand)"
      "full_pass page (\<lambda>bs. set bs \<subseteq> {255}) 0 (length c) ones" "full_pass page (\<lambda>bs. set bs \<subseteq> {0}) 0 (length c) zeros"
      "full_pass page (from_device s) 0 (length c) rand"
    using passes_done [OF assms(1,3,4)] by blast
  then have three: "three_passes s (length c) (ones @ zeros @ rand)"
    using assms(5) unfolding three_passes_def by blast
  obtain w where w: "sys_call v = (True, w)" "t = set_entries d (AList.delete f (dir_entries d w)) w"
    using assms(2) by (auto simp: unlink_file_def split: prod.splits if_splits)
  from wrote_trans [OF passes(1) looks_wrote [OF sys_call_looks [OF w(1)]]]
  have sw: "wrote d f (ones @ zeros @ rand) s w" by simp
  note frame = wrote_frame [OF sw assms(3)]
  have "same_process s t"
    using same_process_trans [OF frame(1) set_entries_fields(1)] by (simp add: w(2))
  then show ?thesis
    using frame(2-4) three passes(2) by (intro exI [of _ "ones @ zeros @ rand"]) (simp add: w(2) delete_conv')
qed

text \<open>
  Wiping a file. When it succeeds, the file is gone from its directory, and before that it was written over
  three times from beginning to end: with ones, with zeros, and with bytes from the random device, no write
  being longer than a page. When any call of the system fails, whichever it is, the file stays where it is, with
  its length. In both cases no other file and no other directory is touched.
\<close>

lemma wipe_file_effect:
  assumes "gsignond_wipe_file d f s = (ok, t)" and "map_of (dir_entries d s) f = Some (File c)"
  shows "same_process s t \<and> (\<forall>e. e \<noteq> d \<longrightarrow> map_of (os_dirs t) e = map_of (os_dirs s) e) \<and>
    (\<forall>g. g \<noteq> f \<longrightarrow> map_of (dir_entries d t) g = map_of (dir_entries d s) g) \<and>
    (\<exists>ws. os_writes t = os_writes s @ map (Pair (d, f)) ws \<and> in_pages (nat (os_page_size s)) ws \<and>
      (if ok then map_of (dir_entries d t) f = None \<and> three_passes s (length c) ws
       else (\<exists>c'. map_of (dir_entries d t) f = Some (File c') \<and> length c' = length c)))"
proof (cases "os_page_size s \<le> 0")
  case True
  then show ?thesis
    using assms by (auto simp: gsignond_wipe_file_def intro!: exI [of _ "[]"])
next
  case False
  let ?page = "nat (os_page_size s)"
  let ?fs = "[sys_call, sys_call, wipe_pass ?page (fill_with 255) d f 0 (length c), sys_call,
      wipe_pass ?page (fill_with 0) d f 0 (length c), sys_call, wipe_pass ?page read_random d f 0 (length c)]"
  have page: "0 < ?page" using False by simp
  obtain opened u where u: "sys_call s = (opened, u)" by fastforce
  note su = looks_wrote [OF sys_call_looks [OF u], of d f]
  have cu: "map_of (dir_entries d u) f = Some (File c)" "from_device u = from_device s"
    using assms(2) looks_entries [OF sys_call_looks [OF u]] sys_call_looks [OF u]
    by (simp, simp add: from_device_def [abs_def] looks_def same_process_def)
  show ?thesis
  proof (cases opened)
    case False
    then show ?thesis
      using assms u page wrote_frame [OF su assms(2)]
      by (auto simp: gsignond_wipe_file_def intro!: exI [of _ "[]"])
  next
    case True
    then have run: "steps (?fs @ [unlink_file d f]) u = (ok, t)"
      using assms(1) u page cu(1) by (simp add: gsignond_wipe_file_def Let_def)
    show ?thesis
    proof (cases ok)
      case False
      then have "ok = False" by simp
      obtain ws where ws: "wrote d f ws u t" "in_pages ?page ws"
        using unlink_last_fails [OF all_keep [OF page] cu(1) run [unfolded \<open>ok = False\<close>]] by blast
      from wrote_trans [OF su ws(1)] have "wrote d f ws s t" by simp
      from wrote_frame [OF this assms(2)] show ?thesis using False ws(2) by auto
    next
      case True
      then have "ok = True" by simp
      obtain v where v: "steps ?fs u = (True, v)" "unlink_file d f v = (True, t)"
        using steps_last_ok [OF run [unfolded \<open>ok = True\<close>]] by blast
      have "?page = nat (os_page_size u)" "three_passes u = three_passes s" "os_writes u = os_writes s"
          "os_dirs u = os_dirs s" "same_process s u"
        using sys_call_looks [OF u] cu(2) by (simp_all add: looks_def same_process_def three_passes_def [abs_def])
      then show ?thesis
        using file_wiped [OF v cu(1) page] True looks_entries [OF sys_call_looks [OF u]] by (auto intro: same_process_trans)
    qed
  qed
qed

subsection \<open>A directory that is wiped\<close>

text \<open>What a step of the wiping of \<open>d\<close> may do; \<open>f\<close> is the entry it works on.\<close>

definition on_entry :: "string \<Rightarrow> string \<Rightarrow> os \<Rightarrow> os \<Rightarrow> bool" where
  "on_entry d f s t \<longleftrightarrow> same_process s t \<and> (\<forall>e. e \<noteq> d \<longrightarrow> dir_entries e t = dir_entries e s) \<and>
     (\<forall>g. g \<noteq> f \<longrightarrow> map_of (dir_entries d t) g = map_of (dir_entries d s) g) \<and>
     (\<exists>new. os_writes t = os_writes s @ new)"

lemma entries_cong: "map_of (os_dirs t) e = map_of (os_dirs s) e \<Longrightarrow> dir_entries e t = dir_entries e s"
  by (simp add: dir_entries_def)

lemma looks_on_entry: "looks s t \<Longrightarrow> on_entry d f s t"
  by (auto simp: on_entry_def looks_def dir_entries_def)

lemma on_entry_trans: "on_entry d f s t \<Longrightarrow> on_entry d f t u \<Longrightarrow> on_entry d f s u"
  by (auto simp: on_entry_def intro: same_process_trans)

lemma unlink_on_entry:
  assumes "unlink_file d f s = (ok, t)"
  shows "on_entry d f s t" "ok \<Longrightarrow> map_of (dir_entries d t) f = None"
proof -
  obtain r u where u: "sys_call s = (r, u)" by fastforce
  note look = looks_on_entry [OF sys_call_looks [OF u], of d f]
  have "\<forall>e. e \<noteq> d \<longrightarrow> dir_entries e (set_entries d (AList.delete f (dir_entries d u)) u) = dir_entries e u"
    by (intro allI impI entries_cong) simp
  then have "on_entry d f u (set_entries d (AList.delete f (dir_entries d u)) u)"
    by (simp add: on_entry_def delete_conv')
  note through = on_entry_trans [OF look this]
  show "on_entry d f s t"
    using assms u look through by (simp add: unlink_file_def split: if_splits)
  show "ok \<Longrightarrow> map_of (dir_entries d t) f = None"
    using assms u by (auto simp: unlink_file_def delete_conv' split: if_splits)
qed

lemma remove_on_entry:
  assumes "remove_entry d f n s = (ok, t)"
  shows "on_entry d f s t" "ok \<Longrightarrow> map_of (dir_entries d t) f = None"
proof -
  obtain r u where u: "unlink_file d f s = (r, u)" by fastforce
  note eff = unlink_on_entry [OF u]
  let ?sub = "d @ ''/'' @ f"
  have sub: "?sub \<noteq> d" by simp
  have *: "on_entry d f s (u\<lparr>os_dirs := AList.delete ?sub (os_dirs u)\<rparr>)" if "dir_entries ?sub s = []"
    using eff(1) that sub by (auto simp: on_entry_def same_process_def dir_entries_def delete_conv')
  have "dir_entries d (u\<lparr>os_dirs := AList.delete ?sub (os_dirs u)\<rparr>) = dir_entries d u"
    using sub by (simp add: dir_entries_def delete_conv')
  then show "on_entry d f s t" "ok \<Longrightarrow> map_of (dir_entries d t) f = None"
    using assms u eff * looks_on_entry [of s s] by (auto simp: remove_entry_def split: if_splits)
qed

lemma wipe_on_entry:
  assumes "gsignond_wipe_file d f s = (ok, t)" "map_of (dir_entries d s) f = Some (File c)"
  shows "on_entry d f s t" "ok \<Longrightarrow> map_of (dir_entries d t) f = None"
    "ok \<Longrightarrow> \<exists>ws. os_writes t = os_writes s @ map (Pair (d, f)) ws \<and> three_passes s (length c) ws"
proof -
  note eff = wipe_file_effect [OF assms]
  then show "on_entry d f s t"
    by (auto simp: on_entry_def intro: entries_cong)
  show "ok \<Longrightarrow> map_of (dir_entries d t) f = None"
    "ok \<Longrightarrow> \<exists>ws. os_writes t = os_writes s @ map (Pair (d, f)) ws \<and> three_passes s (length c) ws"
    using eff by (auto simp del: append_assoc)
qed

definition wiped_in :: "os \<Rightarrow> string \<Rightarrow> string \<Rightarrow> nat \<Rightarrow> os \<Rightarrow> bool" where
  "wiped_in s d f n t \<longleftrightarrow>
     (\<exists>pre ws post. os_writes t = os_writes s @ pre @ map (Pair (d, f)) ws @ post \<and> three_passes s n ws)"

lemma three_passes_same: "same_process s t \<Longrightarrow> three_passes t = three_passes s"
  by (simp add: same_process_def three_passes_def [abs_def] from_device_def [abs_def])

lemma wipe_one_entry:
  assumes "(case n of File c \<Rightarrow> gsignond_wipe_file d f s | _ \<Rightarrow> remove_entry d f n s) = (ok, t)"
    and "map_of (dir_entries d s) f = Some n"
  shows "on_entry d f s t" "ok \<Longrightarrow> map_of (dir_entries d t) f = None"
    "ok \<Longrightarrow> n = File c \<Longrightarrow> wiped_in s d f (length c) t"
proof -
  show "on_entry d f s t" "ok \<Longrightarrow> map_of (dir_entries d t) f = None"
    using assms wipe_on_entry remove_on_entry by (auto split: node.splits)
  show "ok \<Longrightarrow> n = File c \<Longrightarrow> wiped_in s d f (length c) t"
  proof -
    assume "ok" "n = File c"
    then obtain ws where "os_writes t = os_writes s @ [] @ map (Pair (d, f)) ws @ []" "three_passes s (length c) ws"
      using assms wipe_on_entry(3) [of d f s ok t c] by auto
    then show ?thesis unfolding wiped_in_def by blast
  qed
qed

lemma wiped_in_later:
  assumes "wiped_in s d f n t" "\<exists>new. os_writes u = os_writes t @ new"
  shows "wiped_in s d f n u"
proof -
  obtain pre ws post new where "os_writes u = os_writes s @ pre @ map (Pair (d, f)) ws @ (post @ new)" "three_passes s n ws"
    using assms unfolding wiped_in_def by auto
  then show ?thesis unfolding wiped_in_def by blast
qed

lemma wiped_in_earlier:
  assumes "wiped_in t d f n u" "same_process s t" "\<exists>new. os_writes t = os_writes s @ new"
  shows "wiped_in s d f n u"
proof -
  obtain new pre ws post where "os_writes u = os_writes s @ (new @ pre) @ map (Pair (d, f)) ws @ post" "three_passes s n ws"
    using assms three_passes_same [OF assms(2)] unfolding wiped_in_def by auto
  then show ?thesis unfolding wiped_in_def by blast
qed

lemma wipe_entries_effect:
  assumes "wipe_entries d fs s = (ok, t)" "distinct fs"
  shows "same_process s t \<and> (\<forall>e. e \<noteq> d \<longrightarrow> dir_entries e t = dir_entries e s) \<and>
     (\<forall>g. g \<notin> set fs \<longrightarrow> map_of (dir_entries d t) g = map_of (dir_entries d s) g) \<and>
     (\<exists>new. os_writes t = os_writes s @ new) \<and>
     (ok \<longrightarrow> (\<forall>f \<in> set fs. map_of (dir_entries d t) f = None \<and>
        (\<forall>c. map_of (dir_entries d s) f = Some (File c) \<longrightarrow> wiped_in s d f (length c) t)))"
  using assms
proof (induction d fs s arbitrary: ok t rule: wipe_entries.induct)
  case (2 d f fs s)
  obtain lstat u where u: "sys_call s = (lstat, u)" by fastforce
  note look = looks_on_entry [OF sys_call_looks [OF u], of d f]
  have entries: "dir_entries d u = dir_entries d s"
    by (rule looks_entries [OF sys_call_looks [OF u]])
  show ?case
  proof (cases "lstat \<and> map_of (dir_entries d u) f \<noteq> None")
    case False
    then have "ok = False \<and> t = u"
      using "2.prems"(1) u by (cases lstat) auto
    then show ?thesis
      using look by (auto simp: on_entry_def)
  next
    case True
    then obtain n where n: "map_of (dir_entries d u) f = Some n" by auto
    obtain w v where v: "(case n of File c \<Rightarrow> gsignond_wipe_file d f u | _ \<Rightarrow> remove_entry d f n u) = (w, v)" by fastforce
    note one = wipe_one_entry [OF v n]
    have sv: "on_entry d f s v"
      by (rule on_entry_trans [OF look one(1)])
    show ?thesis
    proof (cases w)
      case False
      then show ?thesis
        using "2.prems"(1) u True n v sv by (auto simp: on_entry_def)
    next
      case w: True
      have rest: "wipe_entries d fs v = (ok, t)"
        using "2.prems"(1) u True n v w by simp
      have IH: "same_process v t \<and> (\<forall>e. e \<noteq> d \<longrightarrow> dir_entries e t = dir_entries e v) \<and>
         (\<forall>g. g \<notin> set fs \<longrightarrow> map_of (dir_entries d t) g = map_of (dir_entries d v) g) \<and>
         (\<exists>new. os_writes t = os_writes v @ new) \<and>
         (ok \<longrightarrow> (\<forall>f \<in> set fs. map_of (dir_entries d t) f = None \<and>
            (\<forall>c. map_of (dir_entries d v) f = Some (File c) \<longrightarrow> wiped_in v d f (length c) t)))"
        using "2.IH" [OF u [symmetric] _ n v [symmetric] _ rest] True w "2.prems"(2) by auto
      have first: "wiped_in s d f (length c) t" if "map_of (dir_entries d s) f = Some (File c)" for c
      proof -
        have "wiped_in u d f (length c) v"
          using one(3) w n that by (simp add: entries)
        from wiped_in_later [OF this] IH have "wiped_in u d f (length c) t" by blast
        from wiped_in_earlier [OF this] look show ?thesis by (auto simp: on_entry_def)
      qed
      have later: "wiped_in s d g (length c) t"
        if "ok" "g \<in> set fs" "map_of (dir_entries d s) g = Some (File c)" for g c
      proof -
        have "g \<noteq> f" using that(2) "2.prems"(2) by auto
        then have "wiped_in v d g (length c) t"
          using IH that sv by (auto simp: on_entry_def)
        from wiped_in_earlier [OF this] sv show ?thesis by (auto simp: on_entry_def)
      qed
      have "map_of (dir_entries d t) f = None"
        using IH one(2) w "2.prems"(2) by simp
      moreover have "same_process s t" "\<exists>new. os_writes t = os_writes s @ new"
        using sv IH by (auto simp: on_entry_def intro: same_process_trans)
      ultimately show ?thesis
        using IH sv first later by (auto simp: on_entry_def)
    qed
  qed
qed auto

text \<open>
  C30. Wiping a directory. When it succeeds, the directory has no entry left, and every file that was in it has been
  written over three times from beginning to end. Whether or not it does, no other directory loses an entry or has
  one changed.
\<close>

theorem wipe_directory_effect:
  assumes "gsignond_wipe_directory d s = (ok, t)" and "distinct (map fst (dir_entries d s))"
  shows "same_process s t \<and> (\<forall>e. e \<noteq> d \<longrightarrow> dir_entries e t = dir_entries e s) \<and>
     (ok \<longrightarrow> dir_entries d t = [] \<and>
        (\<forall>f c. map_of (dir_entries d s) f = Some (File c) \<longrightarrow> wiped_in s d f (length c) t))"
proof -
  obtain opened u where u: "sys_call s = (opened, u)" by fastforce
  note look = sys_call_looks [OF u]
  have entries: "dir_entries e u = dir_entries e s" for e
    by (rule looks_entries [OF look])
  show ?thesis
  proof (cases "opened \<and> map_of (os_dirs u) d \<noteq> None")
    case False
    then show ?thesis
      using assms(1) u look entries by (auto simp: gsignond_wipe_directory_def looks_def)
  next
    case True
    then have run: "wipe_entries d (map fst (dir_entries d s)) u = (ok, t)"
      using assms(1) u entries by (auto simp: gsignond_wipe_directory_def)
    note eff = wipe_entries_effect [OF run assms(2)]
    have "dir_entries d t = []" if ok
    proof -
      have "map_of (dir_entries d t) g = None" for g
      proof (cases "g \<in> fst ` set (dir_entries d s)")
        case True
        then show ?thesis using eff that by auto
      next
        case False
        then show ?thesis using eff by (auto simp: entries map_of_eq_None_iff)
      qed
      then have "fst ` set (dir_entries d t) = {}"
        by (metis all_not_in_conv map_of_eq_None_iff)
      then show ?thesis by simp
    qed
    moreover have "wiped_in s d f (length c) t" if "ok" "map_of (dir_entries d s) f = Some (File c)" for f c
    proof -
      have "f \<in> fst ` set (dir_entries d s)"
        using that(2) by (force dest: map_of_SomeD)
      then have "wiped_in u d f (length c) t"
        using eff that by (auto simp: entries)
      from wiped_in_earlier [OF this] look show ?thesis by (simp add: looks_def)
    qed
    ultimately show ?thesis
      using eff look by (auto simp: entries looks_def intro: same_process_trans)
  qed
qed

subsection \<open>An example\<close>

text \<open>A process started for a user, with the storage of Tizen mounted; a page has four bytes.\<close>

definition os_example :: os where
  "os_example = \<lparr>os_ruid = 1000, os_suid = 0, os_euid = 1000, os_egid = 100, os_page_size = 4,
     os_dirs = [(''/'', [(''var'', Subdirectory)]),
       (''/var'', [(''gsignond.u'', Subdirectory), (''gsignond.u.efs'', Subdirectory)]),
       (''/var/gsignond.u'', []), (''/var/gsignond.u.efs'', [(''secret.db'', File [1, 2, 3, 4, 5])])],
     os_owners = [], os_modes = [], os_mounts = [(''/var/gsignond.u'', ''/var/gsignond.u.efs'', ''rw'')], os_seteuids = [],
     os_results = [], os_writes = [], os_random = (\<lambda>_. 7), os_random_pos = 0\<rparr>"

theorem wipe_directory_effect_witness:
  "\<exists>t. gsignond_wipe_directory ''/var/gsignond.u.efs'' os_example = (True, t) \<and>
     dir_entries ''/var/gsignond.u.efs'' t = [] \<and> wiped_in os_example ''/var/gsignond.u.efs'' ''secret.db'' 5 t"
proof -
  have "fst (gsignond_wipe_directory ''/var/gsignond.u.efs'' os_example) = True"
    by code_simp
  then obtain t where t: "gsignond_wipe_directory ''/var/gsignond.u.efs'' os_example = (True, t)"
    by (metis prod.collapse)
  have entries: "dir_entries ''/var/gsignond.u.efs'' os_example = [(''secret.db'', File [1, 2, 3, 4, 5])]"
    by (simp add: os_example_def dir_entries_def)
  have content: "map_of (dir_entries ''/var/gsignond.u.efs'' os_example) ''secret.db'' = Some (File [1, 2, 3, 4, 5])"
    and names: "distinct (map fst (dir_entries ''/var/gsignond.u.efs'' os_example))"
    unfolding entries by simp_all
  note eff = wipe_directory_effect [OF t names, THEN conjunct2, THEN conjunct2, THEN mp, OF TrueI]
  have "wiped_in os_example ''/var/gsignond.u.efs'' ''secret.db'' (length [1, 2, 3, 4, 5 :: byte]) t"
    by (rule eff [THEN conjunct2, rule_format, OF content])
  moreover have "length [1, 2, 3, 4, 5 :: byte] = 5" by simp
  ultimately have "wiped_in os_example ''/var/gsignond.u.efs'' ''secret.db'' 5 t" by (simp only:)
  with t eff [THEN conjunct1] show ?thesis by blast
qed

end
