(* ===== verification/Gsso_Nonce.thy ===== *)
theory Gsso_Nonce
  imports Gsso_Wipe
begin

text \<open>
  \<^verbatim>\<open>gsignond_generate_nonce\<close> of \<^verbatim>\<open>src/src/common/gsignond-utils.c\<close>, with its static context. The HMAC of GLib and the clock
  are parameters; an integer is laid out with its least significant byte first. The calls of the random device are
  those of \<open>Gsso_Wipe\<close>. The lock makes a call one step.
\<close>

record nonce_ctx =
  nc_initialized :: bool
  nc_serial :: "32 word"
  nc_key :: "byte list"
  nc_entropy :: "byte list"

definition nonce_ctx_zero :: nonce_ctx where
  "nonce_ctx_zero = \<lparr>nc_initialized = False, nc_serial = 0, nc_key = replicate 32 0, nc_entropy = replicate 16 0\<rparr>"

definition init_nonce_gen :: "nonce_ctx \<Rightarrow> os \<Rightarrow> bool \<times> nonce_ctx \<times> os" where
  "init_nonce_gen ctx s =
     (if nc_initialized ctx then (True, ctx, s)
      else case sys_call s of (fd, s) \<Rightarrow>
        if \<not> fd then (False, ctx, s)
        else case read_random 32 s of
          (None, s) \<Rightarrow> (False, ctx, s)
        | (Some key, s) \<Rightarrow>
            let ctx = ctx\<lparr>nc_key := key\<rparr>
            in case read_random 16 s of
              (None, s) \<Rightarrow> (False, ctx, s)
            | (Some entropy, s) \<Rightarrow>
                (True, ctx\<lparr>nc_entropy := entropy, nc_serial := 0, nc_initialized := True\<rparr>, s))"

definition u32_bytes :: "32 word \<Rightarrow> byte list" where
  "u32_bytes w = map (\<lambda>i. ucast (drop_bit (8 * i) w)) [0, 1, 2, 3]"

text \<open>\<open>ts\<close>: what the clock says, or \<open>None\<close> when it cannot be read.\<close>

definition gsignond_generate_nonce ::
  "(byte list \<Rightarrow> byte list \<Rightarrow> string) \<Rightarrow> byte list option \<Rightarrow> nonce_ctx \<Rightarrow> os \<Rightarrow> string option \<times> nonce_ctx \<times> os" where
  "gsignond_generate_nonce hmac ts ctx s =
     (case init_nonce_gen ctx s of (inited, ctx, s) \<Rightarrow>
        if \<not> inited then (None, ctx, s)
        else
          let ctx = ctx\<lparr>nc_serial := nc_serial ctx + 1\<rparr>;
              message = nc_entropy ctx @ u32_bytes (nc_serial ctx) @ (case ts of Some t \<Rightarrow> t | None \<Rightarrow> [])
          in (Some (hmac (nc_key ctx) message), ctx, s))"

text \<open>A run of calls, one for each reading of the clock.\<close>

fun generate_nonces ::
  "(byte list \<Rightarrow> byte list \<Rightarrow> string) \<Rightarrow> byte list option list \<Rightarrow> nonce_ctx \<Rightarrow> os \<Rightarrow> string option list \<times> nonce_ctx \<times> os" where
  "generate_nonces hmac [] ctx s = ([], ctx, s)"
| "generate_nonces hmac (ts # tss) ctx s =
     (case gsignond_generate_nonce hmac ts ctx s of (n, ctx, s) \<Rightarrow>
      case generate_nonces hmac tss ctx s of (ns, ctx, s) \<Rightarrow> (n # ns, ctx, s))"

lemma u32_bytes_length [simp]: "length (u32_bytes w) = 4"
  by (simp add: u32_bytes_def)

lemma u32_bytes_inj: "u32_bytes v = u32_bytes w \<longleftrightarrow> v = w"
proof
  assume eq: "u32_bytes v = u32_bytes w"
  have part: "bit v (8 * i + j) = bit w (8 * i + j)" if "i < 4" "j < 8" for i j
  proof -
    have "(ucast (drop_bit (8 * i) v) :: byte) = ucast (drop_bit (8 * i) w)"
      using eq that(1) by (auto simp: u32_bytes_def less_Suc_eq numeral_eq_Suc)
    then have "bit (ucast (drop_bit (8 * i) v) :: byte) j = bit (ucast (drop_bit (8 * i) w) :: byte) j" by simp
    then show ?thesis using that by (simp add: bit_simps)
  qed
  show "v = w"
  proof (rule bit_word_eqI)
    fix n
    assume "n < LENGTH(32)"
    then show "bit v n = bit w n"
      using part [of "n div 8" "n mod 8"] by simp
  qed
qed simp

lemma nonce_initialized:
  assumes "nc_initialized ctx"
  shows "gsignond_generate_nonce hmac ts ctx s =
    (Some (hmac (nc_key ctx) (nc_entropy ctx @ u32_bytes (nc_serial ctx + 1) @ (case ts of Some t \<Rightarrow> t | None \<Rightarrow> []))),
     ctx\<lparr>nc_serial := nc_serial ctx + 1\<rparr>, s)"
  using assms by (simp add: gsignond_generate_nonce_def init_nonce_gen_def Let_def)

fun nonce_messages :: "nonce_ctx \<Rightarrow> byte list option list \<Rightarrow> byte list list" where
  "nonce_messages ctx [] = []"
| "nonce_messages ctx (ts # tss) =
     (nc_entropy ctx @ u32_bytes (nc_serial ctx + 1) @ (case ts of Some t \<Rightarrow> t | None \<Rightarrow> [])) #
     nonce_messages (ctx\<lparr>nc_serial := nc_serial ctx + 1\<rparr>) tss"

lemma generate_nonces_messages:
  "nc_initialized ctx \<Longrightarrow> generate_nonces hmac tss ctx s =
     (map (\<lambda>m. Some (hmac (nc_key ctx) m)) (nonce_messages ctx tss),
      ctx\<lparr>nc_serial := nc_serial ctx + word_of_nat (length tss)\<rparr>, s)"
  by (induction tss arbitrary: ctx) (simp_all add: nonce_initialized add.assoc)

lemma nonce_messages_length [simp]: "length (nonce_messages ctx tss) = length tss"
  by (induction ctx tss rule: nonce_messages.induct) simp_all

lemma nonce_messages_nth:
  "i < length tss \<Longrightarrow> \<exists>t. nonce_messages ctx tss ! i = nc_entropy ctx @ u32_bytes (nc_serial ctx + 1 + word_of_nat i) @ t"
proof (induction ctx tss arbitrary: i rule: nonce_messages.induct)
  case (2 ctx ts tss)
  show ?case
  proof (cases i)
    case 0
    then show ?thesis by simp
  next
    case (Suc j)
    then show ?thesis using "2.IH" [of j] "2.prems" by (simp add: add.assoc)
  qed
qed simp

lemma nonce_messages_distinct:
  assumes "length tss \<le> 2 ^ 32"
  shows "distinct (nonce_messages ctx tss)"
  unfolding distinct_conv_nth nonce_messages_length
proof (intro allI impI)
  fix i j
  assume ij: "i < length tss" "j < length tss" "i \<noteq> j"
  then have len: "i < 2 ^ 32" "j < 2 ^ 32"
    using assms by simp_all
  show "nonce_messages ctx tss ! i \<noteq> nonce_messages ctx tss ! j"
  proof
    assume "nonce_messages ctx tss ! i = nonce_messages ctx tss ! j"
    then have "u32_bytes (nc_serial ctx + 1 + word_of_nat i) = u32_bytes (nc_serial ctx + 1 + word_of_nat j)"
      using nonce_messages_nth [of i tss ctx] nonce_messages_nth [of j tss ctx] ij(1,2)
      by (auto simp: append_eq_append_conv)
    then have "(word_of_nat i :: 32 word) = word_of_nat j"
      by (simp add: u32_bytes_inj)
    then show False
      using len ij(3) by (simp add: word_of_nat_eq_iff take_bit_nat_eq_self)
  qed
qed

text \<open>
  C39. The inputs of the nonces do not repeat. Once the generator has a key, every call gives a nonce, and over any
  \<open>2 ^ 32\<close> calls in a row the messages that are authenticated, all under the same key, are pairwise distinct,
  whatever the clock says and even when it cannot be read; the serial number, which makes them so, wraps after that. A
  call that cannot read the random device gives no nonce and leaves the generator without a key.
\<close>

theorem nonce_inputs_distinct:
  assumes "length tss \<le> 2 ^ 32"
  shows "(nc_initialized ctx \<longrightarrow> (\<exists>msgs. generate_nonces hmac tss ctx s =
       (map (\<lambda>m. Some (hmac (nc_key ctx) m)) msgs, ctx\<lparr>nc_serial := nc_serial ctx + word_of_nat (length tss)\<rparr>, s) \<and>
       length msgs = length tss \<and> distinct msgs)) \<and>
     (\<not> nc_initialized ctx \<longrightarrow> (case gsignond_generate_nonce hmac ts ctx s of (n, ctx', t) \<Rightarrow>
       (n = None \<longleftrightarrow> \<not> nc_initialized ctx') \<and> (n \<noteq> None \<longrightarrow> nc_serial ctx' = 1 \<and>
          from_device s (nc_key ctx') \<and> length (nc_key ctx') = 32 \<and> from_device s (nc_entropy ctx'))))"
proof (intro conjI impI)
  assume "nc_initialized ctx"
  then show "\<exists>msgs. generate_nonces hmac tss ctx s =
       (map (\<lambda>m. Some (hmac (nc_key ctx) m)) msgs, ctx\<lparr>nc_serial := nc_serial ctx + word_of_nat (length tss)\<rparr>, s) \<and>
       length msgs = length tss \<and> distinct msgs"
    using generate_nonces_messages nonce_messages_distinct [OF assms]
    by (intro exI [of _ "nonce_messages ctx tss"]) simp
next
  assume no: "\<not> nc_initialized ctx"
  obtain fd u where u: "sys_call s = (fd, u)" by fastforce
  obtain key v where v: "read_random 32 u = (key, v)" by fastforce
  obtain entropy w where w: "read_random 16 v = (entropy, w)" by fastforce
  have random: "os_random u = os_random s" "os_random v = os_random s"
    using sys_call_looks [OF u] read_random_looks [OF v] by (simp_all add: looks_def same_process_def)
  have "\<And>k. key = Some k \<Longrightarrow> from_device s k \<and> length k = 32" "\<And>e. entropy = Some e \<Longrightarrow> from_device s e"
    using read_random_looks [OF v] read_random_looks [OF w] random by (auto simp: from_device_def)
  then show "case gsignond_generate_nonce hmac ts ctx s of (n, ctx', t) \<Rightarrow>
       (n = None \<longleftrightarrow> \<not> nc_initialized ctx') \<and> (n \<noteq> None \<longrightarrow> nc_serial ctx' = 1 \<and>
          from_device s (nc_key ctx') \<and> length (nc_key ctx') = 32 \<and> from_device s (nc_entropy ctx'))"
    using no u v w by (cases fd; cases key; cases entropy) (simp_all add: gsignond_generate_nonce_def init_nonce_gen_def Let_def)
qed

text \<open>Two nonces over the wrap of the serial number, with a function for the HMAC that keeps messages apart.\<close>

definition nonce_ctx_example :: nonce_ctx where
  "nonce_ctx_example = \<lparr>nc_initialized = True, nc_serial = 0xFFFFFFFF, nc_key = [1], nc_entropy = [2]\<rparr>"

definition hmac_example :: "byte list \<Rightarrow> byte list \<Rightarrow> string" where
  "hmac_example key message = map (\<lambda>b. char_of (unat b)) (key @ message)"

lemma hmac_example_inj: "hmac_example k m = hmac_example k n \<longleftrightarrow> m = n"
proof -
  have "inj (\<lambda>b :: byte. char_of (unat b) :: char)"
  proof (rule injI)
    fix b c :: byte
    assume "(char_of (unat b) :: char) = char_of (unat c)"
    then have "unat b mod 256 = unat c mod 256"
      by (metis of_char_of)
    then show "b = c"
      using unsigned_less [of b, where 'a = nat] unsigned_less [of c, where 'a = nat] by (simp add: word_unat_eq_iff)
  qed
  then show ?thesis by (simp add: hmac_example_def inj_map_eq_map)
qed

theorem nonce_inputs_distinct_witness:
  "\<exists>n1 n2. fst (generate_nonces hmac_example [None, None] nonce_ctx_example os_example) = [Some n1, Some n2] \<and> n1 \<noteq> n2"
proof -
  have "nc_initialized nonce_ctx_example" by (simp add: nonce_ctx_example_def)
  then obtain msgs where msgs: "fst (generate_nonces hmac_example [None, None] nonce_ctx_example os_example) =
      map (\<lambda>m. Some (hmac_example (nc_key nonce_ctx_example) m)) msgs" "length msgs = length [None :: byte list option, None]"
      "distinct msgs"
    using nonce_inputs_distinct [of "[None, None]" nonce_ctx_example hmac_example os_example None]
    by (force simp del: generate_nonces.simps)
  from this(2) obtain m1 m2 where "msgs = [m1, m2]"
    by (cases msgs; cases "tl msgs") auto
  with msgs(1,3) hmac_example_inj show ?thesis by auto
qed

end
