(* ===== verification/Gsso_Config.thy ===== *)
theory Gsso_Config
  imports Gsso_Error
begin

text \<open>
  \<^verbatim>\<open>src/src/common/gsignond-config.c\<close>: the configuration, a dictionary of strings filled from a key file that is
  searched for in a list of places. The reading of the key file is GLib's; what it read, and which files can be
  read, is the surroundings' (\<open>config_env\<close>).
\<close>

record config =
  config_file_path :: cstr
  config_table :: dictionary

text \<open>
  \<open>ce_debug\<close>: built with \<^verbatim>\<open>ENABLE_DEBUG\<close>. A key file is its groups with their keys; a group or a value that
  cannot be read is \<open>None\<close>, as is a file that cannot be parsed.
\<close>

type_synonym key_file = "(string \<times> (string \<times> cstr) list option) list"

record config_env =
  ce_debug :: bool
  ce_environment :: "string \<Rightarrow> cstr"
  ce_user_dir :: string
  ce_sysconf_dir :: string
  ce_system_dirs :: "string list"
  ce_readable :: "string \<Rightarrow> bool"
  ce_key_file :: "string \<Rightarrow> key_file option"

subsection \<open>Values\<close>

definition gsignond_config_get_string :: "config \<Rightarrow> string \<Rightarrow> cstr" where
  "gsignond_config_get_string self key =
     (case gsignond_dictionary_get (config_table self) key of
        None \<Rightarrow> None
      | Some v \<Rightarrow> g_variant_get_string v)"

definition gsignond_config_set_string :: "config \<Rightarrow> string \<Rightarrow> string \<Rightarrow> config" where
  "gsignond_config_set_string self key v =
     self\<lparr>config_table := snd (gsignond_dictionary_set (config_table self) key (Some (VString v)))\<rparr>"

text \<open>
  \<^verbatim>\<open>atoi\<close>: space, a sign and digits. \<open>None\<close>: the number does not fit, which leaves the behaviour undefined.
\<close>

definition is_digit :: "char \<Rightarrow> bool" where
  "is_digit c \<longleftrightarrow> 48 \<le> (of_char c :: nat) \<and> (of_char c :: nat) \<le> 57"

definition digit_value :: "char \<Rightarrow> nat" where
  "digit_value c = of_char c - 48"

definition is_space :: "char \<Rightarrow> bool" where
  "is_space c \<longleftrightarrow> (of_char c :: nat) = 32 \<or> 9 \<le> (of_char c :: nat) \<and> (of_char c :: nat) \<le> 13"

definition read_digits :: "string \<Rightarrow> nat" where
  "read_digits s = foldl (\<lambda>n c. 10 * n + digit_value c) 0 (takeWhile is_digit s)"

definition atoi :: "string \<Rightarrow> i32 option" where
  "atoi s =
     (let s = dropWhile is_space s;
          n = (case s of
                 [] \<Rightarrow> 0
               | c # cs \<Rightarrow> if c = CHR ''-'' then - int (read_digits cs)
                            else if c = CHR ''+'' then int (read_digits cs)
                            else int (read_digits s))
      in if - (2 ^ 31) \<le> n \<and> n < 2 ^ 31 then Some (word_of_int n) else None)"

definition gsignond_config_get_integer :: "config \<Rightarrow> string \<Rightarrow> i32 option" where
  "gsignond_config_get_integer self key =
     (case gsignond_config_get_string self key of
        Some str_value \<Rightarrow> atoi str_value
      | None \<Rightarrow> Some 0)"

definition gsignond_config_set_integer :: "config \<Rightarrow> string \<Rightarrow> i32 \<Rightarrow> config" where
  "gsignond_config_set_integer self key v = gsignond_config_set_string self key (print_int v)"

subsection \<open>Loading\<close>

definition check_config_file :: "config_env \<Rightarrow> string \<Rightarrow> cstr" where
  "check_config_file env path =
     (let fn = path @ ''/gsignond.conf'' in if ce_readable env fn then Some fn else None)"

fun check_system_dirs :: "config_env \<Rightarrow> string list \<Rightarrow> cstr" where
  "check_system_dirs env [] = None"
| "check_system_dirs env (dir # dirs) =
     (case check_config_file env dir of Some sys_cfg \<Rightarrow> Some sys_cfg | None \<Rightarrow> check_system_dirs env dirs)"

definition find_config_file :: "config_env \<Rightarrow> cstr \<Rightarrow> cstr" where
  "find_config_file env path =
     (if ce_debug env then
        let path = (if path = None then
                      (case ce_environment env ''GSIGNOND_CONFIG'' of
                         Some cfg_env \<Rightarrow> check_config_file env cfg_env | None \<Rightarrow> None)
                    else path);
            path = (if path = None then check_config_file env (ce_user_dir env @ ''/gsignond'') else path);
            path = (if path = None then check_config_file env (ce_sysconf_dir env) else path);
            path = (if path = None then check_system_dirs env (ce_system_dirs env) else path)
        in path
      else check_config_file env (ce_sysconf_dir env))"

text \<open>
  The error of a value is freed but its variable is not cleared: the next key of the group finds it set,
  and frees it again (\<open>None\<close>).
\<close>

fun load_keys :: "string \<Rightarrow> (string \<times> cstr) list \<Rightarrow> config \<Rightarrow> config option" where
  "load_keys grp [] self = Some self"
| "load_keys grp ((key, Some v) # keys) self =
     load_keys grp keys (gsignond_config_set_string self (grp @ ''/'' @ key) v)"
| "load_keys grp ((key, None) # keys) self = (if keys = [] then Some self else None)"

fun load_groups :: "key_file \<Rightarrow> config \<Rightarrow> config option" where
  "load_groups [] self = Some self"
| "load_groups ((grp, None) # groups) self = load_groups groups self"
| "load_groups ((grp, Some keys) # groups) self = Option.bind (load_keys grp keys self) (load_groups groups)"

definition load_config :: "config_env \<Rightarrow> config \<Rightarrow> (bool \<times> config) option" where
  "load_config env self =
     (let self = self\<lparr>config_file_path := find_config_file env (config_file_path self)\<rparr>
      in case config_file_path self of
           None \<Rightarrow> Some (True, self)
         | Some path \<Rightarrow>
             (case ce_key_file env path of
                None \<Rightarrow> Some (False, self)
              | Some settings \<Rightarrow> map_option (Pair True) (load_groups settings self)))"

definition gsignond_config_init :: "config_env \<Rightarrow> config option" where
  "gsignond_config_init env =
     map_option snd (load_config env \<lparr>config_file_path = None, config_table = gsignond_dictionary_new\<rparr>)"

subsection \<open>Integers\<close>

text \<open>What is printed in decimal is read back.\<close>

lemma digit_char [simp]:
  "n < 10 \<Longrightarrow> is_digit (char_of (48 + n))" "n < 10 \<Longrightarrow> digit_value (char_of (48 + n)) = n"
  by (simp_all add: is_digit_def digit_value_def)

lemma decimal_digits: "list_all is_digit (decimal n)"
proof (induction n rule: decimal.induct)
  case (1 n)
  then show ?case by (subst decimal.simps) simp
qed

lemma decimal_value: "foldl (\<lambda>n c. 10 * n + digit_value c) 0 (decimal n) = n"
proof (induction n rule: decimal.induct)
  case (1 n)
  then show ?case by (subst decimal.simps) simp
qed

lemma read_decimal [simp]: "read_digits (decimal n) = n"
proof -
  have "takeWhile is_digit (decimal n) = decimal n"
    using decimal_digits [of n] by (simp add: list_all_iff takeWhile_eq_all_conv)
  then show ?thesis unfolding read_digits_def by (simp only: decimal_value)
qed

lemma decimal_head: "\<exists>c cs. decimal n = c # cs \<and> is_digit c"
proof -
  have "decimal n \<noteq> []"
    by (subst decimal.simps) simp
  then show ?thesis using decimal_digits [of n] by (cases "decimal n") auto
qed

lemma digit_not_sign: "is_digit c \<Longrightarrow> c \<noteq> CHR ''-'' \<and> c \<noteq> CHR ''+'' \<and> \<not> is_space c"
  by (auto simp: is_digit_def is_space_def)

lemma atoi_print: "atoi (print_int w) = Some w"
proof (cases "sint w < 0")
  case True
  have "print_int w = CHR ''-'' # decimal (nat (- sint w))"
    using True by (simp add: print_int_def)
  moreover have "\<not> is_space (CHR ''-'')"
    by (simp add: is_space_def)
  ultimately show ?thesis
    using True sint_range_size [of w] by (simp add: atoi_def word_size)
next
  case False
  obtain c cs where c: "decimal (nat (sint w)) = c # cs" "is_digit c"
    using decimal_head by blast
  have p: "print_int w = decimal (nat (sint w))"
    using False by (simp add: print_int_def)
  have "dropWhile is_space (print_int w) = decimal (nat (sint w))"
    using c digit_not_sign [OF c(2)] p by simp
  then have "atoi (print_int w) = Some (word_of_int (int (read_digits (decimal (nat (sint w))))))"
    using c digit_not_sign [OF c(2)] False sint_range_size [of w] read_decimal [of "nat (sint w)"]
    by (simp add: atoi_def word_size)
  then show ?thesis using False by simp
qed

lemma config_set_get:
  "gsignond_config_get_string (gsignond_config_set_string self key v) k =
     (if k = key then Some v else gsignond_config_get_string self k)"
  by (simp add: gsignond_config_get_string_def gsignond_config_set_string_def dict_get_fun dict_put_eq update_conv')

lemma config_set_path [simp]: "config_file_path (gsignond_config_set_string self key v) = config_file_path self"
  by (simp add: gsignond_config_set_string_def)

text \<open>
  Every integer that is set is read back, negative ones and the least one included, and no other key changes.
\<close>

lemma config_integer_roundtrip:
  "gsignond_config_get_integer (gsignond_config_set_integer self key v) k =
     (if k = key then Some v else gsignond_config_get_integer self k)"
  by (simp add: gsignond_config_get_integer_def gsignond_config_set_integer_def config_set_get atoi_print)

subsection \<open>What is loaded\<close>

text \<open>The places in the order in which they are tried.\<close>

definition config_places :: "config_env \<Rightarrow> string list" where
  "config_places env =
     (if ce_debug env then
        (case ce_environment env ''GSIGNOND_CONFIG'' of Some p \<Rightarrow> [p] | None \<Rightarrow> []) @
        [ce_user_dir env @ ''/gsignond'', ce_sysconf_dir env] @ ce_system_dirs env
      else [ce_sysconf_dir env])"

lemma check_system_dirs_find:
  "check_system_dirs env dirs = find (ce_readable env) (map (\<lambda>d. d @ ''/gsignond.conf'') dirs)"
  by (induction dirs) (simp_all add: check_config_file_def Let_def)

lemma config_file_found:
  "find_config_file env None = find (ce_readable env) (map (\<lambda>d. d @ ''/gsignond.conf'') (config_places env))"
  by (simp add: find_config_file_def config_places_def check_config_file_def check_system_dirs_find Let_def
      split: option.split)

fun file_entries :: "key_file \<Rightarrow> (string \<times> cstr) list" where
  "file_entries [] = []"
| "file_entries ((grp, None) # groups) = file_entries groups"
| "file_entries ((grp, Some keys) # groups) = map (\<lambda>(k, v). (grp @ ''/'' @ k, v)) keys @ file_entries groups"

definition file_readable :: "key_file \<Rightarrow> bool" where
  "file_readable ks \<longleftrightarrow> (\<forall>g \<in> set ks. \<forall>keys. snd g = Some keys \<longrightarrow> (\<forall>kv \<in> set keys. snd kv \<noteq> None))"

lemma load_keys_result:
  "\<forall>kv \<in> set keys. snd kv \<noteq> None \<Longrightarrow> \<exists>c. load_keys grp keys self = Some c \<and> config_file_path c = config_file_path self \<and>
     (\<forall>k. gsignond_config_get_string c k =
        (case map_of (rev (map (\<lambda>(k, v). (grp @ ''/'' @ k, v)) keys)) k of
           Some v \<Rightarrow> v | None \<Rightarrow> gsignond_config_get_string self k))"
proof (induction grp keys self rule: load_keys.induct)
  case (2 grp key v keys self)
  let ?self = "gsignond_config_set_string self (grp @ ''/'' @ key) v"
  obtain c where c: "load_keys grp keys ?self = Some c" "config_file_path c = config_file_path ?self"
    "\<forall>k. gsignond_config_get_string c k =
       (case map_of (rev (map (\<lambda>(k, v). (grp @ ''/'' @ k, v)) keys)) k of
          Some v \<Rightarrow> v | None \<Rightarrow> gsignond_config_get_string ?self k)"
    using 2 by auto
  then show ?case
    by (auto simp: config_set_get map_add_def split: option.split)
qed auto

lemma load_groups_result:
  "file_readable ks \<Longrightarrow> \<exists>c. load_groups ks self = Some c \<and> config_file_path c = config_file_path self \<and>
     (\<forall>k. gsignond_config_get_string c k =
        (case map_of (rev (file_entries ks)) k of Some v \<Rightarrow> v | None \<Rightarrow> gsignond_config_get_string self k))"
proof (induction ks self rule: load_groups.induct)
  case (3 grp keys groups self)
  obtain c where c: "load_keys grp keys self = Some c" "config_file_path c = config_file_path self"
    "\<forall>k. gsignond_config_get_string c k =
       (case map_of (rev (map (\<lambda>(k, v). (grp @ ''/'' @ k, v)) keys)) k of
          Some v \<Rightarrow> v | None \<Rightarrow> gsignond_config_get_string self k)"
    using load_keys_result [of keys grp self] 3(2) by (auto simp: file_readable_def)
  obtain c' where c': "load_groups groups c = Some c'" "config_file_path c' = config_file_path c"
    "\<forall>k. gsignond_config_get_string c' k =
       (case map_of (rev (file_entries groups)) k of Some v \<Rightarrow> v | None \<Rightarrow> gsignond_config_get_string c k)"
    using 3(1) [OF c(1)] 3(2) by (auto simp: file_readable_def)
  then show ?case
    using c by (auto simp: map_add_def split: option.split)
qed (auto simp: file_readable_def)

text \<open>
  The configuration that is loaded: it comes from the first place with a file that can be read, and has for
  every key the last value that the file gives it; without a file, or with one that cannot be parsed,
  it is empty.
\<close>

lemma config_loaded:
  assumes "\<And>path ks. ce_key_file env path = Some ks \<Longrightarrow> file_readable ks"
  shows "\<exists>c. gsignond_config_init env = Some c \<and>
     config_file_path c = find (ce_readable env) (map (\<lambda>d. d @ ''/gsignond.conf'') (config_places env)) \<and>
     (\<forall>k. gsignond_config_get_string c k =
        (case config_file_path c of
           None \<Rightarrow> None
         | Some path \<Rightarrow>
             (case ce_key_file env path of
                None \<Rightarrow> None
              | Some ks \<Rightarrow> (case map_of (rev (file_entries ks)) k of Some v \<Rightarrow> v | None \<Rightarrow> None))))"
proof -
  have empty: "gsignond_config_get_string \<lparr>config_file_path = p, config_table = gsignond_dictionary_new\<rparr> k = None" for p k
    by (simp add: gsignond_config_get_string_def gsignond_dictionary_new_def gsignond_dictionary_get_def)
  show ?thesis
  proof (cases "find_config_file env None")
    case None
    then show ?thesis
      using empty by (simp add: gsignond_config_init_def load_config_def flip: config_file_found)
  next
    case (Some path)
    show ?thesis
    proof (cases "ce_key_file env path")
      case None
      then show ?thesis
        using Some empty by (simp add: gsignond_config_init_def load_config_def flip: config_file_found)
    next
      case ks: (Some ks)
      obtain c where "load_groups ks \<lparr>config_file_path = Some path, config_table = gsignond_dictionary_new\<rparr> = Some c"
          "config_file_path c = Some path"
          "\<forall>k. gsignond_config_get_string c k = (case map_of (rev (file_entries ks)) k of Some v \<Rightarrow> v | None \<Rightarrow> None)"
        using load_groups_result [OF assms [OF ks], of "\<lparr>config_file_path = Some path, config_table = gsignond_dictionary_new\<rparr>"]
        by (auto simp: empty cong: option.case_cong)
      then show ?thesis
        using Some ks by (simp add: gsignond_config_init_def load_config_def flip: config_file_found)
    qed
  qed
qed

end
