(* ===== verification/Gsso_Storage_Manager.thy ===== *)
theory Gsso_Storage_Manager
  imports Gsso_Wipe Gsso_Config
begin

text \<open>
  The storage managers: \<^verbatim>\<open>src/src/common/gsignond-storage-manager.c\<close>, its subclass
  \<^verbatim>\<open>src/src/extensions/tizen/tizen-storage-manager.c\<close>, and what \<^verbatim>\<open>src/src/daemon/gsignond-daemon.c\<close> does with them
  (\<^verbatim>\<open>_init_storage\<close>, and the parts of \<^verbatim>\<open>gsignond_daemon_clear\<close> and \<^verbatim>\<open>_dispose\<close> that call them). The class is a
  record of its operations; its contract is the locale \<open>storage_contract\<close>, of which both classes are instances.

  The process is started by root for a user: its saved user id is then root's. A directory that is missing is made
  with those above it, each of which gets an entry for the next. What a file system shows once it is mounted is not
  followed.
\<close>

subsection \<open>Calls of the system\<close>

definition access_path :: "string \<Rightarrow> os \<Rightarrow> bool \<times> os" where
  "access_path d s = (case sys_call s of (ok, s) \<Rightarrow> (ok \<and> map_of (os_dirs s) d \<noteq> None, s))"

text \<open>
  A process may take its real or its saved user id, and root any. The call can fail nonetheless. Every call and
  its result are noted in \<open>os_seteuids\<close>, the latest first.
\<close>

definition sys_seteuid :: "nat \<Rightarrow> os \<Rightarrow> bool \<times> os" where
  "sys_seteuid u s =
     (case sys_call s of (ok, s) \<Rightarrow>
      let ok = (ok \<and> (os_euid s = 0 \<or> u \<in> {os_ruid s, os_euid s, os_suid s}))
      in (ok, s\<lparr>os_euid := if ok then u else os_euid s, os_seteuids := (u, ok) # os_seteuids s\<rparr>))"

text \<open>
  The directory a path is in, and the name it has there. A directory is known by the path that leads to it; \<open>.\<close> is
  the one relative paths start from.
\<close>

definition last_name :: "string \<Rightarrow> string" where
  "last_name p = rev (takeWhile (\<lambda>c. c \<noteq> CHR ''/'') (rev p))"

definition parent_dir :: "string \<Rightarrow> string" where
  "parent_dir p =
     (let above = rev (dropWhile (\<lambda>c. c = CHR ''/'') (dropWhile (\<lambda>c. c \<noteq> CHR ''/'') (rev p)))
      in if above \<noteq> [] then above else if CHR ''/'' \<in> set p then ''/'' else ''.'')"

text \<open>The paths that \<^verbatim>\<open>g_mkdir_with_parents\<close> makes one after the other: the given one cut at its separators.\<close>

fun path_prefixes :: "string \<Rightarrow> string \<Rightarrow> string list" where
  "path_prefixes before [] = (if before = [] \<or> last before = CHR ''/'' then [] else [before])"
| "path_prefixes before (c # cs) =
     (if c = CHR ''/'' \<and> before \<noteq> [] \<and> last before \<noteq> CHR ''/''
      then before # path_prefixes (before @ [c]) cs else path_prefixes (before @ [c]) cs)"

definition sys_mkdir :: "string \<Rightarrow> os \<Rightarrow> bool \<times> os" where
  "sys_mkdir d s =
     (case sys_call s of (ok, s) \<Rightarrow>
        if ok \<and> map_of (os_dirs s) (parent_dir d) \<noteq> None
        then (True, set_entries d [] (set_entries (parent_dir d)
                      (dir_entries (parent_dir d) s @ [(last_name d, Subdirectory)]) s))
        else (False, s))"

text \<open>What exists and is not a directory is in the way; links are not followed.\<close>

definition make_dir :: "string \<Rightarrow> os \<Rightarrow> bool \<times> os" where
  "make_dir d s =
     (if map_of (os_dirs s) d \<noteq> None then (True, s)
      else if map_of (dir_entries (parent_dir d) s) (last_name d) \<noteq> None then (False, s)
      else sys_mkdir d s)"

definition make_dirs :: "string \<Rightarrow> os \<Rightarrow> bool \<times> os" where
  "make_dirs d = steps (map make_dir (path_prefixes [] d))"

definition sys_chown :: "string \<Rightarrow> nat \<Rightarrow> nat \<Rightarrow> os \<Rightarrow> bool \<times> os" where
  "sys_chown d u g s =
     (case sys_call s of (ok, s) \<Rightarrow>
        if ok \<and> os_euid s = 0 then (True, s\<lparr>os_owners := AList.update d (u, g) (os_owners s)\<rparr>) else (False, s))"

definition sys_chmod :: "string \<Rightarrow> nat \<Rightarrow> os \<Rightarrow> bool \<times> os" where
  "sys_chmod d mode s =
     (case sys_call s of (ok, s) \<Rightarrow>
        if ok then (True, s\<lparr>os_modes := AList.update d mode (os_modes s)\<rparr>) else (False, s))"

definition sys_mount :: "string \<Rightarrow> string \<Rightarrow> string \<Rightarrow> os \<Rightarrow> bool \<times> os" where
  "sys_mount source target options s =
     (case sys_call s of (ok, s) \<Rightarrow>
        if ok \<and> os_euid s = 0 then (True, s\<lparr>os_mounts := (target, source, options) # os_mounts s\<rparr>) else (False, s))"

text \<open>The latest of the mounts on a directory goes first.\<close>

fun remove_mount :: "string \<Rightarrow> (string \<times> 'a) list \<Rightarrow> (string \<times> 'a) list" where
  "remove_mount target [] = []"
| "remove_mount target (m # ms) = (if fst m = target then ms else m # remove_mount target ms)"

definition sys_umount :: "string \<Rightarrow> os \<Rightarrow> bool \<times> os" where
  "sys_umount target s =
     (case sys_call s of (ok, s) \<Rightarrow>
        if ok \<and> os_euid s = 0 \<and> target \<in> fst ` set (os_mounts s)
        then (True, s\<lparr>os_mounts := remove_mount target (os_mounts s)\<rparr>) else (False, s))"

text \<open>
  The body runs with root's rights if they can be had, and the real user's are taken back after it if that works:
  a \<^verbatim>\<open>seteuid\<close> that fails is warned about, and the work goes on.
\<close>

definition as_root :: "(os \<Rightarrow> 'a \<times> os) \<Rightarrow> os \<Rightarrow> 'a \<times> os" where
  "as_root body s =
     (let uid = os_ruid s
      in case sys_seteuid 0 s of (_, s) \<Rightarrow>
         case body s of (res, s) \<Rightarrow>
         case sys_seteuid uid s of (_, s) \<Rightarrow> (res, s))"

subsection \<open>The class\<close>

record storage_manager =
  mgr_location :: cstr

record 'm storage_class =
  c_initialize_storage :: "'m \<Rightarrow> os \<Rightarrow> bool \<times> os"
  c_delete_storage :: "'m \<Rightarrow> os \<Rightarrow> bool \<times> os"
  c_storage_is_initialized :: "'m \<Rightarrow> os \<Rightarrow> bool \<times> os"
  c_mount_filesystem :: "'m \<Rightarrow> os \<Rightarrow> cstr \<times> 'm \<times> os"
  c_unmount_filesystem :: "'m \<Rightarrow> os \<Rightarrow> bool \<times> os"
  c_filesystem_is_mounted :: "'m \<Rightarrow> os \<Rightarrow> bool \<times> os"

text \<open>The place of the storage: configured, or of the environment in a debug build.\<close>

definition storage_location :: "config_env \<Rightarrow> string \<Rightarrow> string \<Rightarrow> config \<Rightarrow> string" where
  "storage_location env base_dir user cfg =
     (let user_dir = ''gsignond.'' @ user;
          storage_path = (case gsignond_config_get_string cfg ''General/StoragePath'' of Some p \<Rightarrow> p | None \<Rightarrow> base_dir);
          storage_path = (if ce_debug env then
                            (case ce_environment env ''SSO_STORAGE_PATH'' of Some p \<Rightarrow> p | None \<Rightarrow> storage_path)
                          else storage_path)
      in storage_path @ ''/'' @ user_dir)"

definition gsignond_storage_manager_init :: storage_manager where
  "gsignond_storage_manager_init = \<lparr>mgr_location = None\<rparr>"

definition default_set_config :: "config_env \<Rightarrow> string \<Rightarrow> string \<Rightarrow> config \<Rightarrow> storage_manager \<Rightarrow> storage_manager" where
  "default_set_config env base_dir user cfg self = self\<lparr>mgr_location := Some (storage_location env base_dir user cfg)\<rparr>"

text \<open>Read, write and search for the owner and the group.\<close>

definition give_to_root :: "string \<Rightarrow> os \<Rightarrow> os" where
  "give_to_root d s = snd (sys_chmod d 504 (snd (sys_chown d 0 (os_egid s) s)))"

definition default_initialize_storage :: "storage_manager \<Rightarrow> os \<Rightarrow> bool \<times> os" where
  "default_initialize_storage self s =
     (case mgr_location self of
        None \<Rightarrow> (False, s)
      | Some loc \<Rightarrow>
          (case access_path loc s of (readable, s) \<Rightarrow>
             if readable then (True, s)
             else as_root (\<lambda>s. case make_dirs loc s of (made, s) \<Rightarrow>
                             if \<not> made then (False, s) else (True, give_to_root loc s)) s))"

definition default_delete_storage :: "storage_manager \<Rightarrow> os \<Rightarrow> bool \<times> os" where
  "default_delete_storage self s =
     (case mgr_location self of None \<Rightarrow> (False, s) | Some loc \<Rightarrow> gsignond_wipe_directory loc s)"

definition default_storage_is_initialized :: "storage_manager \<Rightarrow> os \<Rightarrow> bool \<times> os" where
  "default_storage_is_initialized self s =
     (case mgr_location self of None \<Rightarrow> (False, s) | Some loc \<Rightarrow> access_path loc s)"

definition default_mount_filesystem :: "storage_manager \<Rightarrow> os \<Rightarrow> cstr \<times> storage_manager \<times> os" where
  "default_mount_filesystem self s = (mgr_location self, self, s)"

definition default_unmount_filesystem :: "storage_manager \<Rightarrow> os \<Rightarrow> bool \<times> os" where
  "default_unmount_filesystem self s = (True, s)"

definition default_filesystem_is_mounted :: "storage_manager \<Rightarrow> os \<Rightarrow> bool \<times> os" where
  "default_filesystem_is_mounted self = default_storage_is_initialized self"

definition gsignond_storage_manager_class :: "storage_manager storage_class" where
  "gsignond_storage_manager_class =
     \<lparr>c_initialize_storage = default_initialize_storage,
      c_delete_storage = default_delete_storage,
      c_storage_is_initialized = default_storage_is_initialized,
      c_mount_filesystem = default_mount_filesystem,
      c_unmount_filesystem = default_unmount_filesystem,
      c_filesystem_is_mounted = default_filesystem_is_mounted\<rparr>"

text \<open>The end of a manager, of any class.\<close>

definition storage_manager_dispose :: "'m storage_class \<Rightarrow> 'm \<Rightarrow> os \<Rightarrow> os" where
  "storage_manager_dispose cls self s =
     (case c_filesystem_is_mounted cls self s of (mounted, s) \<Rightarrow>
        if mounted then snd (c_unmount_filesystem cls self s) else s)"

subsection \<open>The class of Tizen\<close>

text \<open>
  The keyring and the limits of ecryptfs are parameters: \<open>ec_signature\<close> is the signature that the keyring
  gives to a passphrase with its salt.
\<close>

record ecryptfs =
  ec_max_passphrase :: nat
  ec_salt_size :: nat
  ec_signature :: "string \<Rightarrow> string \<Rightarrow> string"

record tizen_manager = storage_manager +
  mgr_cdir :: cstr
  mgr_fekey :: string
  mgr_fesalt :: string
  mgr_ksig :: string

definition extension_tizen_storage_manager_init :: "ecryptfs \<Rightarrow> tizen_manager" where
  "extension_tizen_storage_manager_init ec =
     \<lparr>mgr_location = None, mgr_cdir = None,
      mgr_fekey = take (ec_max_passphrase ec) ''1234567890'', mgr_fesalt = take (ec_salt_size ec) ''0987654321'',
      mgr_ksig = ''''\<rparr>"

definition tizen_set_config :: "config_env \<Rightarrow> string \<Rightarrow> string \<Rightarrow> config \<Rightarrow> tizen_manager \<Rightarrow> tizen_manager" where
  "tizen_set_config env base_dir user cfg self =
     (let loc = storage_location env base_dir user cfg
      in self\<lparr>mgr_location := Some loc, mgr_cdir := Some (loc @ ''.efs'')\<rparr>)"

definition tizen_set_fekey :: "ecryptfs \<Rightarrow> string \<Rightarrow> tizen_manager \<Rightarrow> tizen_manager" where
  "tizen_set_fekey ec v self = self\<lparr>mgr_fekey := take (ec_max_passphrase ec) v\<rparr>"

definition tizen_set_fesalt :: "ecryptfs \<Rightarrow> string \<Rightarrow> tizen_manager \<Rightarrow> tizen_manager" where
  "tizen_set_fesalt ec v self = self\<lparr>mgr_fesalt := take (ec_salt_size ec) v\<rparr>"

text \<open>The two directories are set together.\<close>

definition tizen_dirs :: "tizen_manager \<Rightarrow> (string \<times> string) option" where
  "tizen_dirs self =
     (case (mgr_location self, mgr_cdir self) of (Some loc, Some cdir) \<Rightarrow> Some (loc, cdir) | _ \<Rightarrow> None)"

definition tizen_initialize_storage :: "tizen_manager \<Rightarrow> os \<Rightarrow> bool \<times> os" where
  "tizen_initialize_storage self s =
     (case tizen_dirs self of
        None \<Rightarrow> (False, s)
      | Some (loc, cdir) \<Rightarrow>
          (case steps [access_path loc, access_path cdir] s of (readable, s) \<Rightarrow>
             if readable then (True, s)
             else as_root (\<lambda>s. case steps [make_dirs loc, make_dirs cdir] s of (made, s) \<Rightarrow>
                             if \<not> made then (False, s) else (True, give_to_root cdir (give_to_root loc s))) s))"

definition tizen_storage_is_initialized :: "tizen_manager \<Rightarrow> os \<Rightarrow> bool \<times> os" where
  "tizen_storage_is_initialized self s =
     (case tizen_dirs self of
        None \<Rightarrow> (False, s)
      | Some (loc, cdir) \<Rightarrow> steps [access_path cdir, access_path loc] s)"

definition mount_options :: "string \<Rightarrow> string" where
  "mount_options ksig =
     ''ecryptfs_check_dev_ruid,ecryptfs_cipher=aes,ecryptfs_key_bytes=16,ecryptfs_unlink_sigs,ecryptfs_sig='' @ ksig"

definition tizen_mount_filesystem :: "ecryptfs \<Rightarrow> tizen_manager \<Rightarrow> os \<Rightarrow> cstr \<times> tizen_manager \<times> os" where
  "tizen_mount_filesystem ec self s =
     (case tizen_dirs self of
        None \<Rightarrow> (None, self, s)
      | Some (loc, cdir) \<Rightarrow>
          (case sys_call s of (added, s) \<Rightarrow>
             if \<not> added then (None, self, s)
             else
               let ksig = ec_signature ec (mgr_fekey self) (mgr_fesalt self);
                   self = self\<lparr>mgr_ksig := ksig\<rparr>
               in case as_root (sys_mount cdir loc (mount_options ksig)) s of
                    (mounted, s) \<Rightarrow> (if mounted then Some loc else None, self, s)))"

definition tizen_unmount_filesystem :: "tizen_manager \<Rightarrow> os \<Rightarrow> bool \<times> os" where
  "tizen_unmount_filesystem self s =
     (case as_root (\<lambda>s. case mgr_location self of None \<Rightarrow> (False, s) | Some loc \<Rightarrow> sys_umount loc s) s of
        (_, s) \<Rightarrow> (True, s))"

definition tizen_filesystem_is_mounted :: "tizen_manager \<Rightarrow> os \<Rightarrow> bool \<times> os" where
  "tizen_filesystem_is_mounted self s =
     (case sys_call s of (mntf, s) \<Rightarrow>
        (mntf \<and> (case mgr_location self of None \<Rightarrow> False | Some loc \<Rightarrow> loc \<in> fst ` set (os_mounts s)), s))"

definition tizen_delete_storage :: "tizen_manager \<Rightarrow> os \<Rightarrow> bool \<times> os" where
  "tizen_delete_storage self s =
     (case tizen_dirs self of
        None \<Rightarrow> (False, s)
      | Some (loc, cdir) \<Rightarrow>
          (case tizen_filesystem_is_mounted self s of (mounted, s) \<Rightarrow>
             if mounted then (False, s)
             else steps [gsignond_wipe_directory cdir, gsignond_wipe_directory loc] s))"

definition extension_tizen_storage_manager_class :: "ecryptfs \<Rightarrow> tizen_manager storage_class" where
  "extension_tizen_storage_manager_class ec =
     \<lparr>c_initialize_storage = tizen_initialize_storage,
      c_delete_storage = tizen_delete_storage,
      c_storage_is_initialized = tizen_storage_is_initialized,
      c_mount_filesystem = tizen_mount_filesystem ec,
      c_unmount_filesystem = tizen_unmount_filesystem,
      c_filesystem_is_mounted = tizen_filesystem_is_mounted\<rparr>"

subsection \<open>What the daemon does with its manager\<close>

text \<open>The location goes to the configuration.\<close>

definition init_storage_with :: "'m storage_class \<Rightarrow> 'm \<Rightarrow> config \<Rightarrow> os \<Rightarrow> bool \<times> 'm \<times> config \<times> os" where
  "init_storage_with cls m cfg s =
     (case c_storage_is_initialized cls m s of (there, s) \<Rightarrow>
      case (if there then (True, s) else c_initialize_storage cls m s) of (there, s) \<Rightarrow>
        if \<not> there then (False, m, cfg, s)
        else case c_mount_filesystem cls m s of
          (None, m, s) \<Rightarrow> (False, m, cfg, s)
        | (Some loc, m, s) \<Rightarrow> (True, m, gsignond_config_set_string cfg ''General/SecureDir'' loc, s))"

text \<open>The part of clearing that deletes the storage and makes it again.\<close>

definition recreate_storage :: "'m storage_class \<Rightarrow> 'm \<Rightarrow> config \<Rightarrow> os \<Rightarrow> bool \<times> 'm \<times> config \<times> os" where
  "recreate_storage cls m cfg s =
     (case c_delete_storage cls m s of (deleted, s) \<Rightarrow>
      case init_storage_with cls m cfg s of (inited, m, cfg, s) \<Rightarrow> (deleted \<and> inited, m, cfg, s))"

text \<open>The end of the daemon: it unmounts, and lets the manager go, which does so as well.\<close>

definition release_storage :: "'m storage_class \<Rightarrow> 'm \<Rightarrow> os \<Rightarrow> os" where
  "release_storage cls m s =
     (case c_filesystem_is_mounted cls m s of (mounted, s) \<Rightarrow>
      let s = (if mounted then snd (c_unmount_filesystem cls m s) else s)
      in storage_manager_dispose cls m s)"

text \<open>Everything that the daemon does with its manager, in any order.\<close>

datatype storage_use = Prepare | Recreate | Release

fun storage_uses :: "'m storage_class \<Rightarrow> storage_use list \<Rightarrow> 'm \<Rightarrow> config \<Rightarrow> os \<Rightarrow> 'm \<times> config \<times> os" where
  "storage_uses cls [] m cfg s = (m, cfg, s)"
| "storage_uses cls (Prepare # us) m cfg s =
     (case init_storage_with cls m cfg s of (_, m, cfg, s) \<Rightarrow> storage_uses cls us m cfg s)"
| "storage_uses cls (Recreate # us) m cfg s =
     (case recreate_storage cls m cfg s of (_, m, cfg, s) \<Rightarrow> storage_uses cls us m cfg s)"
| "storage_uses cls (Release # us) m cfg s = storage_uses cls us m cfg (release_storage cls m s)"

subsection \<open>What a call of the system leaves alone\<close>

definition dir_exists :: "string \<Rightarrow> os \<Rightarrow> bool" where
  "dir_exists d s \<longleftrightarrow> map_of (os_dirs s) d \<noteq> None"

text \<open>
  What may become of a directory that the storage does not own: it gains the names of those of the paths \<open>ps\<close> that
  were made in it.
\<close>

definition gains :: "string set \<Rightarrow> string \<Rightarrow> os \<Rightarrow> os \<Rightarrow> bool" where
  "gains ps d s t \<longleftrightarrow> (\<exists>names. dir_entries d t = dir_entries d s @ map (\<lambda>n. (n, Subdirectory)) names \<and>
     (\<forall>n \<in> set names. \<exists>p \<in> ps. parent_dir p = d \<and> last_name p = n))"

lemma gains_same: "dir_entries d t = dir_entries d s \<Longrightarrow> gains ps d s t"
  unfolding gains_def by (rule exI [of _ "[]"]) simp

lemma gains_nothing [simp]: "gains {} d s t \<longleftrightarrow> dir_entries d t = dir_entries d s"
  by (auto simp: gains_def)

lemma gains_trans: "gains ps d s t \<Longrightarrow> gains ps d t u \<Longrightarrow> gains ps d s u"
  unfolding gains_def
proof (elim exE conjE)
  fix ns ms
  assume "dir_entries d t = dir_entries d s @ map (\<lambda>n. (n, Subdirectory)) ns"
    "dir_entries d u = dir_entries d t @ map (\<lambda>n. (n, Subdirectory)) ms"
    "\<forall>n \<in> set ns. \<exists>p \<in> ps. parent_dir p = d \<and> last_name p = n"
    "\<forall>n \<in> set ms. \<exists>p \<in> ps. parent_dir p = d \<and> last_name p = n"
  then show "\<exists>names. dir_entries d u = dir_entries d s @ map (\<lambda>n. (n, Subdirectory)) names \<and>
      (\<forall>n \<in> set names. \<exists>p \<in> ps. parent_dir p = d \<and> last_name p = n)"
    by (intro exI [of _ "ns @ ms"]) auto
qed

lemma gains_mono: "gains ps d s t \<Longrightarrow> ps \<subseteq> qs \<Longrightarrow> gains qs d s t"
  unfolding gains_def by blast

text \<open>The process is the same, and no directory but those of \<open>ds\<close> has other entries than before, save made ones.\<close>

definition same_world :: "string set \<Rightarrow> string set \<Rightarrow> os \<Rightarrow> os \<Rightarrow> bool" where
  "same_world ps ds s t \<longleftrightarrow> os_ruid t = os_ruid s \<and> os_suid t = os_suid s \<and> os_egid t = os_egid s \<and>
     os_page_size t = os_page_size s \<and> os_random t = os_random s \<and>
     (\<forall>d. d \<notin> ds \<longrightarrow> gains ps d s t)"

definition same_rights :: "os \<Rightarrow> os \<Rightarrow> bool" where
  "same_rights s t \<longleftrightarrow> os_euid t = os_euid s \<and> os_seteuids t = os_seteuids s"

text \<open>A process has its own rights; or it has root's, because the call that was to give them back failed.\<close>

definition own_rights :: "os \<Rightarrow> bool" where
  "own_rights s \<longleftrightarrow> os_euid s = os_ruid s \<or>
     os_euid s = 0 \<and> os_seteuids s \<noteq> [] \<and> hd (os_seteuids s) = (os_ruid s, False)"

definition confined :: "string set \<Rightarrow> string set \<Rightarrow> os \<Rightarrow> os \<Rightarrow> bool" where
  "confined ps ds s t \<longleftrightarrow> same_world ps ds s t \<and> (own_rights s \<longrightarrow> own_rights t)"

lemma same_world_trans: "same_world ps ds s t \<Longrightarrow> same_world ps ds t u \<Longrightarrow> same_world ps ds s u"
  unfolding same_world_def using gains_trans by fastforce

lemma same_world_refl [simp]: "same_world ps ds s s" "same_rights s s" "confined ps ds s s"
  by (simp_all add: same_world_def same_rights_def confined_def gains_same)

lemma confined_trans: "confined ps ds s t \<Longrightarrow> confined ps ds t u \<Longrightarrow> confined ps ds s u"
  unfolding confined_def by (metis same_world_trans)

lemma confined_mono: "confined ps ds s t \<Longrightarrow> ps \<subseteq> qs \<Longrightarrow> ds \<subseteq> es \<Longrightarrow> confined qs es s t"
  unfolding confined_def same_world_def using gains_mono by blast

lemma confined_more: "confined {} {} s t \<Longrightarrow> confined ps ds s t"
  using confined_mono [of "{}" "{}" s t ps ds] by simp

lemma looks_confined: "looks s t \<Longrightarrow> confined ps ds s t"
  by (auto simp: looks_def same_process_def confined_def same_world_def own_rights_def dir_entries_def intro: gains_same)

lemma same_process_world:
  "same_process s t \<Longrightarrow> \<forall>d. d \<notin> ds \<longrightarrow> dir_entries d t = dir_entries d s \<Longrightarrow> same_world ps ds s t \<and> same_rights s t"
  by (simp add: same_process_def same_world_def same_rights_def gains_same)

lemma looks_world: "looks s t \<Longrightarrow> same_world ps ds s t \<and> same_rights s t"
  by (auto simp: looks_def same_process_def same_world_def same_rights_def dir_entries_def intro: gains_same)

lemma same_rights_own: "same_world ps ds s t \<Longrightarrow> same_rights s t \<Longrightarrow> confined ps ds s t"
  by (simp add: confined_def same_world_def same_rights_def own_rights_def)

text \<open>The bodies that run as root.\<close>

definition steady :: "string set \<Rightarrow> string set \<Rightarrow> (os \<Rightarrow> 'a \<times> os) \<Rightarrow> bool" where
  "steady ps ds body \<longleftrightarrow> (\<forall>s r t. body s = (r, t) \<longrightarrow> same_world ps ds s t \<and> same_rights s t \<and>
     (\<forall>d. dir_exists d s \<longrightarrow> dir_exists d t))"

lemma steadyD:
  "steady ps ds body \<Longrightarrow> body s = (r, t) \<Longrightarrow>
     same_world ps ds s t \<and> same_rights s t \<and> (\<forall>d. dir_exists d s \<longrightarrow> dir_exists d t)"
  unfolding steady_def by blast

lemma steady_steps: "list_all (steady ps ds) fs \<Longrightarrow> steady ps ds (steps fs)"
proof (induction fs)
  case (Cons f fs)
  then have f: "steady ps ds f" and fs: "steady ps ds (steps fs)" by simp_all
  show ?case
    unfolding steady_def
  proof (intro allI impI)
    fix s r t
    assume run: "steps (f # fs) s = (r, t)"
    obtain ok u where u: "f s = (ok, u)" by fastforce
    note su = steadyD [OF f u]
    show "same_world ps ds s t \<and> same_rights s t \<and> (\<forall>d. dir_exists d s \<longrightarrow> dir_exists d t)"
    proof (cases ok)
      case True
      then have "steps fs u = (r, t)" using run u by simp
      from steadyD [OF fs this] su show ?thesis
        using same_world_trans [of ps ds s u t] by (simp add: same_rights_def)
    next
      case False
      then show ?thesis using run u su by simp
    qed
  qed
qed (simp add: steady_def)

lemma sys_call_exists: "sys_call s = (ok, t) \<Longrightarrow> os_dirs t = os_dirs s"
  using sys_call_looks by (auto simp: looks_def)

lemma steady_calls:
  "steady ps ds (sys_chown d u g)" "steady ps ds (sys_chmod d mode)"
  "steady ps ds (sys_mount source target options)" "steady ps ds (sys_umount target)"
  unfolding steady_def sys_chown_def sys_chmod_def sys_mount_def sys_umount_def
  by (auto split: prod.splits if_splits dest!: sys_call_looks
      simp: looks_def same_process_def same_world_def same_rights_def dir_entries_def dir_exists_def intro: gains_same)

text \<open>Making a directory changes the entries of the one it is in.\<close>

lemma dir_entries_set: "dir_entries e (set_entries d es s) = (if e = d then es else dir_entries e s)"
  by (simp add: dir_entries_def set_entries_def update_conv')

lemma steady_mkdir:
  assumes "p \<in> ps" "map_of (os_dirs s) p = None" "sys_mkdir p s = (r, t)"
  shows "same_world ps ds s t \<and> same_rights s t \<and> (\<forall>d. dir_exists d s \<longrightarrow> dir_exists d t) \<and> (r \<longrightarrow> dir_exists p t)"
proof -
  obtain ok u where u: "sys_call s = (ok, u)" by fastforce
  note look = sys_call_looks [OF u]
  then have u': "os_dirs u = os_dirs s" "dir_entries d u = dir_entries d s" for d
    by (simp_all add: looks_def dir_entries_def)
  show ?thesis
  proof (cases "ok \<and> map_of (os_dirs u) (parent_dir p) \<noteq> None")
    case False
    then have "r = False" "t = u" using assms(3) u by (auto simp: sys_mkdir_def)
    then show ?thesis using looks_world [OF look] u'(1) by (simp add: dir_exists_def)
  next
    case True
    let ?es = "dir_entries (parent_dir p) s @ [(last_name p, Subdirectory)]"
    have t: "r" "t = set_entries p [] (set_entries (parent_dir p) ?es u)"
      using True assms(3) u u'(2) by (auto simp: sys_mkdir_def)
    have "p \<noteq> parent_dir p" using True assms(2) u'(1) by auto
    moreover have "dir_entries p s = []" using assms(2) by (simp add: dir_entries_def)
    ultimately have e: "dir_entries d t = (if d = parent_dir p then ?es else dir_entries d s)" for d
      by (auto simp: t(2) dir_entries_set u'(2))
    have "gains ps d s t" for d
    proof (cases "d = parent_dir p")
      case True
      then show ?thesis
        unfolding gains_def using assms(1) by (intro exI [of _ "[last_name p]"]) (auto simp: e)
    qed (simp add: e gains_same)
    moreover have "dir_exists d s \<or> d = p \<Longrightarrow> dir_exists d t" for d
      by (auto simp: t(2) dir_exists_def set_entries_def update_conv' u'(1))
    ultimately show ?thesis
      using look by (auto simp: same_world_def same_rights_def t(2) set_entries_def looks_def same_process_def)
  qed
qed

lemma make_dir_effect:
  assumes "p \<in> ps" "make_dir p s = (r, t)"
  shows "same_world ps ds s t \<and> same_rights s t \<and> (\<forall>d. dir_exists d s \<longrightarrow> dir_exists d t) \<and> (r \<longrightarrow> dir_exists p t)"
  using assms steady_mkdir [OF assms(1), of s r t ds]
  by (auto simp: make_dir_def dir_exists_def split: if_splits)

text \<open>A path that names a directory in the one above it.\<close>

definition plain_path :: "string \<Rightarrow> bool" where
  "plain_path p \<longleftrightarrow> p \<noteq> [] \<and> last p \<noteq> CHR ''/''"

lemma path_prefixes_last: "plain_path (before @ cs) \<Longrightarrow> \<exists>ps. path_prefixes before cs = ps @ [before @ cs]"
proof (induction before cs rule: path_prefixes.induct)
  case (2 before c cs)
  show ?case
  proof (cases "c = CHR ''/'' \<and> before \<noteq> [] \<and> last before \<noteq> CHR ''/''")
    case True
    then obtain ps where "path_prefixes (before @ [c]) cs = ps @ [(before @ [c]) @ cs]"
      using "2.IH"(1) "2.prems" by auto
    with True show ?thesis by (intro exI [of _ "before # ps"]) simp
  next
    case False
    then show ?thesis using "2.IH"(2) "2.prems" by (auto simp: False)
  qed
qed (simp add: plain_path_def)

lemma steady_make_dirs: "set (path_prefixes [] d) \<subseteq> ps \<Longrightarrow> steady ps ds (make_dirs d)"
  unfolding make_dirs_def
  by (rule steady_steps) (use make_dir_effect in \<open>auto simp: list_all_iff steady_def\<close>)

lemma make_dirs_exists:
  assumes "make_dirs d s = (True, t)" "plain_path d"
  shows "dir_exists d t"
proof -
  obtain ps where "path_prefixes [] d = ps @ [d]"
    using path_prefixes_last [of "[]" d] assms(2) by auto
  then have "steps (map make_dir ps @ [make_dir d]) s = (True, t)"
    using assms(1) by (simp add: make_dirs_def)
  then obtain u where "make_dir d u = (True, t)"
    by (induction ps arbitrary: s) (auto split: prod.splits if_splits)
  then show ?thesis using make_dir_effect [of d "{d}"] by blast
qed

lemma steady_give: "same_world ps ds s (give_to_root d s) \<and> same_rights s (give_to_root d s) \<and>
    (\<forall>e. dir_exists e s \<longrightarrow> dir_exists e (give_to_root d s))"
proof -
  obtain a u where u: "sys_chown d 0 (os_egid s) s = (a, u)" by fastforce
  obtain b t where t: "sys_chmod d 504 u = (b, t)" by fastforce
  have "give_to_root d s = t" using u t by (simp add: give_to_root_def)
  then show ?thesis
    using steadyD [OF steady_calls(1) u, of ps ds] steadyD [OF steady_calls(2) t, of ps ds]
      same_world_trans [of ps ds s u t] by (simp add: same_rights_def)
qed

lemma seteuid_effect:
  assumes "sys_seteuid x s = (ok, t)"
  shows "same_world ps ds s t" "dir_exists d t = dir_exists d s"
    "os_euid t = (if ok then x else os_euid s)" "os_seteuids t = (x, ok) # os_seteuids s"
proof -
  obtain b u where u: "sys_call s = (b, u)" by fastforce
  have "looks s u" by (rule sys_call_looks [OF u])
  with assms u show "same_world ps ds s t" "dir_exists d t = dir_exists d s"
    "os_euid t = (if ok then x else os_euid s)" "os_seteuids t = (x, ok) # os_seteuids s"
    by (auto simp: sys_seteuid_def Let_def looks_def same_process_def same_world_def dir_entries_def dir_exists_def
        intro: gains_same)
qed

lemma as_root_confined:
  assumes "steady ps ds body" "as_root body s = (r, t)"
  shows "confined ps ds s t" "dir_exists d s \<Longrightarrow> dir_exists d t"
proof -
  obtain a u where u: "sys_seteuid 0 s = (a, u)" by fastforce
  obtain b v where v: "body u = (b, v)" by fastforce
  obtain c w where w: "sys_seteuid (os_ruid s) v = (c, w)" by fastforce
  have t: "t = w" using assms(2) u v w by (simp add: as_root_def Let_def)
  note u' = seteuid_effect [OF u] and v' = steadyD [OF assms(1) v] and w' = seteuid_effect [OF w]
  have world: "same_world ps ds s t"
    using same_world_trans [OF same_world_trans [OF u'(1) conjunct1 [OF v']] w'(1)] t by simp
  then have ruid: "os_ruid t = os_ruid s" by (simp add: same_world_def)
  have "own_rights s \<longrightarrow> own_rights t"
    using u'(3) v' w'(3,4) ruid t by (auto simp: own_rights_def same_rights_def split: if_splits)
  with world show "confined ps ds s t" by (simp add: confined_def)
  show "dir_exists d s \<Longrightarrow> dir_exists d t"
    using t u'(2) v' w'(2) by simp
qed

lemma access_looks: "access_path d s = (ok, t) \<Longrightarrow> looks s t \<and> (ok \<longrightarrow> dir_exists d t)"
  by (auto simp: access_path_def dir_exists_def split: prod.splits dest: sys_call_looks)

text \<open>Wiping a directory keeps to it, whatever names it has.\<close>

lemma wipe_entries_frame:
  "wipe_entries d fs s = (ok, t) \<Longrightarrow> same_process s t \<and> (\<forall>e. e \<noteq> d \<longrightarrow> dir_entries e t = dir_entries e s)"
proof (induction d fs s arbitrary: ok t rule: wipe_entries.induct)
  case (2 d f fs s)
  obtain lstat u where u: "sys_call s = (lstat, u)" by fastforce
  note look = looks_on_entry [OF sys_call_looks [OF u], of d f]
  show ?case
  proof (cases "lstat \<and> map_of (dir_entries d u) f \<noteq> None")
    case False
    then have "t = u" using "2.prems" u by (cases lstat) auto
    then show ?thesis using look by (auto simp: on_entry_def)
  next
    case True
    then obtain n where n: "map_of (dir_entries d u) f = Some n" by auto
    obtain w v where v: "(case n of File c \<Rightarrow> gsignond_wipe_file d f u | _ \<Rightarrow> remove_entry d f n u) = (w, v)" by fastforce
    have sv: "on_entry d f s v"
      by (rule on_entry_trans [OF look wipe_one_entry(1) [OF v n]])
    show ?thesis
    proof (cases w)
      case False
      then show ?thesis using "2.prems" u True n v sv by (auto simp: on_entry_def)
    next
      case w: True
      then have "wipe_entries d fs v = (ok, t)"
        using "2.prems" u True n v by simp
      then have "same_process v t \<and> (\<forall>e. e \<noteq> d \<longrightarrow> dir_entries e t = dir_entries e v)"
        using "2.IH" [OF u [symmetric] _ n v [symmetric]] True w by auto
      then show ?thesis
        using sv by (auto simp: on_entry_def intro: same_process_trans)
    qed
  qed
qed auto

lemma wipe_directory_world:
  assumes "gsignond_wipe_directory d s = (ok, t)" "d \<in> ds"
  shows "same_world ps ds s t \<and> same_rights s t"
proof -
  obtain opened u where u: "sys_call s = (opened, u)" by fastforce
  note look = looks_world [OF sys_call_looks [OF u], of ps ds]
  show ?thesis
  proof (cases "\<not> opened \<or> map_of (os_dirs u) d = None")
    case True
    then show ?thesis using assms(1) u look by (auto simp: gsignond_wipe_directory_def)
  next
    case False
    then have "wipe_entries d (map fst (dir_entries d u)) u = (ok, t)"
      using assms(1) u by (auto simp: gsignond_wipe_directory_def)
    from wipe_entries_frame [OF this] have "same_world ps ds u t \<and> same_rights u t"
      using assms(2) by (intro same_process_world) auto
    then show ?thesis
      using look same_world_trans [of ps ds s u t] by (simp add: same_rights_def)
  qed
qed

subsection \<open>The contract of a class\<close>

locale storage_contract =
  fixes cls :: "'m storage_class"
    and dirs :: "'m \<Rightarrow> string set"
    and made :: "'m \<Rightarrow> string set"
    and place :: "'m \<Rightarrow> cstr"
  assumes asks: "c_storage_is_initialized cls m s = (ok, t) \<Longrightarrow> looks s t \<and> (ok \<longrightarrow> (\<forall>d \<in> dirs m. dir_exists d t))"
    and initializes: "c_initialize_storage cls m s = (ok, t) \<Longrightarrow>
      confined (made m) {} s t \<and> (ok \<longrightarrow> (\<forall>d \<in> dirs m. plain_path d \<longrightarrow> dir_exists d t))"
    and mounts: "c_mount_filesystem cls m s = (l, m', t) \<Longrightarrow>
      confined {} {} s t \<and> (\<forall>d. dir_exists d s \<longrightarrow> dir_exists d t) \<and> dirs m' = dirs m \<and> made m' = made m \<and>
      place m' = place m \<and> (l \<noteq> None \<longrightarrow> place m = l)"
    and unmounts: "c_unmount_filesystem cls m s = (ok, t) \<Longrightarrow> confined {} {} s t"
    and asks_mounts: "c_filesystem_is_mounted cls m s = (ok, t) \<Longrightarrow> looks s t"
    and deletes: "c_delete_storage cls m s = (ok, t) \<Longrightarrow> confined {} (dirs m) s t"
    and deletes_all: "c_delete_storage cls m s = (True, t) \<Longrightarrow>
      \<forall>d \<in> dirs m. distinct (map fst (dir_entries d s)) \<Longrightarrow> d \<in> dirs m \<Longrightarrow> dir_entries d t = []"
begin

lemma init_storage_sound:
  assumes "init_storage_with cls m cfg s = (ok, m', cfg', t)"
  shows "confined (made m) {} s t \<and> dirs m' = dirs m \<and> made m' = made m \<and> place m' = place m \<and>
    (if ok then (\<forall>d \<in> dirs m. plain_path d \<longrightarrow> dir_exists d t) \<and> place m \<noteq> None \<and>
       cfg' = gsignond_config_set_string cfg ''General/SecureDir'' (the (place m))
     else cfg' = cfg)"
proof -
  obtain a u where u: "c_storage_is_initialized cls m s = (a, u)" by fastforce
  obtain b v where v: "(if a then (True, u) else c_initialize_storage cls m u) = (b, v)" by fastforce
  have sv: "confined (made m) {} s v"
    using asks [OF u] v initializes looks_confined confined_trans by (metis prod.inject)
  have there: "\<forall>d \<in> dirs m. plain_path d \<longrightarrow> dir_exists d v" if b
    using asks [OF u] v initializes [of m u b v] that by (auto split: if_splits)
  show ?thesis
  proof (cases b)
    case False
    then show ?thesis using assms u v sv by (simp add: init_storage_with_def)
  next
    case True
    obtain l n w where w: "c_mount_filesystem cls m v = (l, n, w)" by (metis prod_cases3)
    note mounted = mounts [OF w]
    have sw: "confined (made m) {} s w"
      using confined_trans [OF sv confined_more] mounted by blast
    show ?thesis
    proof (cases l)
      case None
      then show ?thesis
        using assms u v w True mounted sw by (simp add: init_storage_with_def)
    next
      case (Some loc)
      then have "place m = Some loc" using mounted by simp
      then show ?thesis
        using assms u v w True Some there [OF True] mounted sw by (auto simp: init_storage_with_def)
    qed
  qed
qed

text \<open>After a successful deletion the storage holds what was made in it, which is something only if it is above itself.\<close>

lemma recreate_storage_sound:
  assumes "recreate_storage cls m cfg s = (ok, m', cfg', t)"
  shows "confined (made m) (dirs m) s t \<and> dirs m' = dirs m \<and> made m' = made m \<and> place m' = place m \<and>
    (ok \<longrightarrow> (\<forall>d \<in> dirs m. plain_path d \<longrightarrow> dir_exists d t) \<and>
       ((\<forall>d \<in> dirs m. distinct (map fst (dir_entries d s))) \<longrightarrow>
        (\<forall>d \<in> dirs m. d \<notin> parent_dir ` made m \<longrightarrow> dir_entries d t = [])))"
proof -
  obtain a u where u: "c_delete_storage cls m s = (a, u)" by fastforce
  obtain b n c v where v: "init_storage_with cls m cfg u = (b, n, c, v)" by (metis prod_cases4)
  have t: "ok = (a \<and> b)" "n = m'" "v = t"
    using assms u v by (auto simp: recreate_storage_def)
  note inited = init_storage_sound [OF v]
  have "confined (made m) (dirs m) s u" "confined (made m) (dirs m) u t"
    using confined_mono [OF deletes [OF u]] confined_mono [OF conjunct1 [OF inited]] t(3) by simp_all
  then have "confined (made m) (dirs m) s t" by (rule confined_trans)
  moreover have "dir_entries d t = dir_entries d u" if "d \<notin> parent_dir ` made m" for d
  proof -
    have "gains (made m) d u t"
      using inited t(3) by (simp add: confined_def same_world_def)
    then obtain names where "dir_entries d t = dir_entries d u @ map (\<lambda>n. (n, Subdirectory)) names"
      "\<forall>n \<in> set names. \<exists>p \<in> made m. parent_dir p = d \<and> last_name p = n"
      unfolding gains_def by blast
    moreover have "names = []" using that calculation(2) by (cases names) auto
    ultimately show ?thesis by simp
  qed
  ultimately show ?thesis
    using inited deletes_all [of m s u] u t by auto
qed

lemma dispose_confined: "confined {} {} s (storage_manager_dispose cls m s)"
proof -
  obtain a u where u: "c_filesystem_is_mounted cls m s = (a, u)" by fastforce
  obtain b v where v: "c_unmount_filesystem cls m u = (b, v)" by fastforce
  show ?thesis
    using u v confined_trans [OF looks_confined [OF asks_mounts [OF u]] unmounts [OF v]]
      looks_confined [OF asks_mounts [OF u]] by (simp add: storage_manager_dispose_def)
qed

lemma release_confined: "confined {} {} s (release_storage cls m s)"
proof -
  have "release_storage cls m s = storage_manager_dispose cls m (storage_manager_dispose cls m s)"
    by (simp add: release_storage_def storage_manager_dispose_def split: prod.splits)
  then show ?thesis using confined_trans [OF dispose_confined dispose_confined] by simp
qed

lemma uses_confined:
  "storage_uses cls us m cfg s = (m', cfg', t) \<Longrightarrow>
     confined (made m) (dirs m) s t \<and> dirs m' = dirs m \<and> made m' = made m \<and> place m' = place m"
proof (induction us arbitrary: m cfg s)
  case (Cons u us)
  have later: ?case
    if "storage_uses cls us n c v = (m', cfg', t)" "confined (made m) (dirs m) s v"
      "dirs n = dirs m" "made n = made m" "place n = place m" for n c v
    using Cons.IH [OF that(1)] that(2-5) confined_trans [of "made m" "dirs m" s v t] by simp
  show ?case
  proof (cases u)
    case Prepare
    obtain b n c v where v: "init_storage_with cls m cfg s = (b, n, c, v)" by (metis prod_cases4)
    show ?thesis
      using later [of n c v] Cons.prems Prepare v init_storage_sound [OF v]
        confined_mono [of "made m" "{}" s v "made m" "dirs m"] by simp
  next
    case Recreate
    obtain b n c v where v: "recreate_storage cls m cfg s = (b, n, c, v)" by (metis prod_cases4)
    show ?thesis
      using later [of n c v] Cons.prems Recreate v recreate_storage_sound [OF v] by simp
  next
    case Release
    show ?thesis
      using later [of m cfg "release_storage cls m s"] Cons.prems Release
        confined_more [OF release_confined, of "made m" "dirs m" s m] by simp
  qed
qed simp

end

subsection \<open>Both classes keep the contract\<close>

definition default_dirs :: "storage_manager \<Rightarrow> string set" where
  "default_dirs m = set_option (mgr_location m)"

definition default_made :: "storage_manager \<Rightarrow> string set" where
  "default_made m = (case mgr_location m of None \<Rightarrow> {} | Some loc \<Rightarrow> set (path_prefixes [] loc))"

text \<open>Directories that are made as root, and then given to it.\<close>

lemma made_as_root:
  assumes run: "as_root (\<lambda>s. case f s of (made, s) \<Rightarrow> if \<not> made then (False, s) else (True, g s)) s = (ok, t)"
    and f: "steady ps ds f" "\<And>s t d. f s = (True, t) \<Longrightarrow> d \<in> es \<Longrightarrow> plain_path d \<Longrightarrow> dir_exists d t"
    and g: "\<And>s. same_world ps ds s (g s) \<and> same_rights s (g s) \<and> (\<forall>d. dir_exists d s \<longrightarrow> dir_exists d (g s))"
  shows "confined ps ds s t \<and> (ok \<longrightarrow> (\<forall>d \<in> es. plain_path d \<longrightarrow> dir_exists d t))"
proof -
  let ?body = "\<lambda>s. case f s of (made, s) \<Rightarrow> if \<not> made then (False, s) else (True, g s)"
  have "steady ps ds ?body"
    unfolding steady_def
  proof (intro allI impI)
    fix s r t
    assume "?body s = (r, t)"
    moreover obtain a u where u: "f s = (a, u)" by fastforce
    ultimately have t: "t = (if a then g u else u)"
      by (simp split: if_splits)
    from steadyD [OF f(1) u] show "same_world ps ds s t \<and> same_rights s t \<and> (\<forall>d. dir_exists d s \<longrightarrow> dir_exists d t)"
      using g [of u] t same_world_trans [of ps ds s u "g u"] by (simp add: same_rights_def)
  qed
  note conf = as_root_confined(1) [OF this run]
  obtain a u where u: "sys_seteuid 0 s = (a, u)" by fastforce
  obtain b v where v: "f u = (b, v)" by fastforce
  have "dir_exists d t" if "ok" "d \<in> es" "plain_path d" for d
  proof -
    obtain c w where w: "sys_seteuid (os_ruid s) (g v) = (c, w)" by fastforce
    have b: "b" "t = w"
      using run u v w that(1) by (auto simp: as_root_def Let_def split: if_splits prod.splits)
    then have "dir_exists d v" using f(2) v that(2,3) by simp
    then have "dir_exists d (g v)" using g by blast
    then show ?thesis using seteuid_effect(2) [OF w] b(2) by simp
  qed
  with conf show ?thesis by blast
qed

lemma wiped_empty:
  "gsignond_wipe_directory d s = (True, t) \<Longrightarrow> distinct (map fst (dir_entries d s)) \<Longrightarrow> dir_entries d t = []"
proof -
  assume wipe: "gsignond_wipe_directory d s = (True, t)" and names: "distinct (map fst (dir_entries d s))"
  obtain opened u where u: "sys_call s = (opened, u)" by fastforce
  note entries = looks_entries [OF sys_call_looks [OF u], of d]
  have run: "wipe_entries d (map fst (dir_entries d s)) u = (True, t)"
    using wipe u entries by (auto simp: gsignond_wipe_directory_def split: if_splits)
  from wipe_entries_effect [OF this names] have "map_of (dir_entries d t) g = None" for g
    by (cases "g \<in> fst ` set (dir_entries d s)") (auto simp: entries map_of_eq_None_iff)
  then have "fst ` set (dir_entries d t) = {}"
    by (metis all_not_in_conv map_of_eq_None_iff)
  then show ?thesis by simp
qed

lemma wipe_confined: "gsignond_wipe_directory d s = (ok, t) \<Longrightarrow> d \<in> ds \<Longrightarrow> confined ps ds s t"
  using wipe_directory_world same_rights_own by blast

lemma default_initialize_contract:
  assumes "default_initialize_storage m s = (ok, t)"
  shows "confined (default_made m) {} s t \<and> (ok \<longrightarrow> (\<forall>d \<in> default_dirs m. plain_path d \<longrightarrow> dir_exists d t))"
proof (cases "mgr_location m")
  case None
  then show ?thesis using assms by (simp add: default_initialize_storage_def)
next
  case (Some loc)
  obtain a u where u: "access_path loc s = (a, u)" by fastforce
  note look = access_looks [OF u]
  show ?thesis
  proof (cases a)
    case True
    then show ?thesis
      using assms Some u look looks_confined [of s u "default_made m"] by (simp add: default_initialize_storage_def default_dirs_def)
  next
    case False
    have "confined (default_made m) {} u t \<and> (ok \<longrightarrow> (\<forall>d \<in> {loc}. plain_path d \<longrightarrow> dir_exists d t))"
      using assms Some u False steady_give
      by (intro made_as_root [where f = "make_dirs loc" and g = "give_to_root loc", OF _ steady_make_dirs])
        (auto simp: default_initialize_storage_def default_made_def dest: make_dirs_exists)
    then show ?thesis
      using confined_trans [OF looks_confined [OF conjunct1 [OF look]], of _ "{}" t] Some by (simp add: default_dirs_def)
  qed
qed

interpretation default_storage: storage_contract gsignond_storage_manager_class default_dirs default_made mgr_location
proof unfold_locales
  fix m s ok t
  show "c_storage_is_initialized gsignond_storage_manager_class m s = (ok, t) \<Longrightarrow>
      looks s t \<and> (ok \<longrightarrow> (\<forall>d \<in> default_dirs m. dir_exists d t))"
    by (auto simp: gsignond_storage_manager_class_def default_storage_is_initialized_def default_dirs_def
        dest: access_looks split: option.splits)
  show "c_initialize_storage gsignond_storage_manager_class m s = (ok, t) \<Longrightarrow>
      confined (default_made m) {} s t \<and> (ok \<longrightarrow> (\<forall>d \<in> default_dirs m. plain_path d \<longrightarrow> dir_exists d t))"
    by (simp add: gsignond_storage_manager_class_def default_initialize_contract)
  show "c_unmount_filesystem gsignond_storage_manager_class m s = (ok, t) \<Longrightarrow> confined {} {} s t"
    by (simp add: gsignond_storage_manager_class_def default_unmount_filesystem_def)
  show "c_filesystem_is_mounted gsignond_storage_manager_class m s = (ok, t) \<Longrightarrow> looks s t"
    by (auto simp: gsignond_storage_manager_class_def default_filesystem_is_mounted_def
        default_storage_is_initialized_def dest: access_looks split: option.splits)
  show "c_delete_storage gsignond_storage_manager_class m s = (ok, t) \<Longrightarrow> confined {} (default_dirs m) s t"
    by (auto simp: gsignond_storage_manager_class_def default_delete_storage_def default_dirs_def
        intro: wipe_confined split: option.splits)
next
  fix m s l m' t
  show "c_mount_filesystem gsignond_storage_manager_class m s = (l, m', t) \<Longrightarrow>
      confined {} {} s t \<and> (\<forall>d. dir_exists d s \<longrightarrow> dir_exists d t) \<and> default_dirs m' = default_dirs m \<and>
      default_made m' = default_made m \<and>
      mgr_location m' = mgr_location m \<and> (l \<noteq> None \<longrightarrow> mgr_location m = l)"
    by (auto simp: gsignond_storage_manager_class_def default_mount_filesystem_def)
next
  fix m s t d
  show "c_delete_storage gsignond_storage_manager_class m s = (True, t) \<Longrightarrow>
      \<forall>d \<in> default_dirs m. distinct (map fst (dir_entries d s)) \<Longrightarrow> d \<in> default_dirs m \<Longrightarrow> dir_entries d t = []"
    by (auto simp: gsignond_storage_manager_class_def default_delete_storage_def default_dirs_def
        intro: wiped_empty split: option.splits)
qed

definition tizen_dir_set :: "tizen_manager \<Rightarrow> string set" where
  "tizen_dir_set m = (case tizen_dirs m of None \<Rightarrow> {} | Some (loc, cdir) \<Rightarrow> {loc, cdir})"

definition tizen_made :: "tizen_manager \<Rightarrow> string set" where
  "tizen_made m = (case tizen_dirs m of
     None \<Rightarrow> {} | Some (loc, cdir) \<Rightarrow> set (path_prefixes [] loc) \<union> set (path_prefixes [] cdir))"

lemma steps2_looks:
  assumes "steps [access_path d, access_path e] s = (ok, t)"
  shows "looks s t \<and> (ok \<longrightarrow> dir_exists d t \<and> dir_exists e t)"
proof -
  obtain a u where u: "access_path d s = (a, u)" by fastforce
  obtain b v where v: "access_path e u = (b, v)" by fastforce
  have "os_dirs v = os_dirs u"
    using access_looks [OF v] by (simp add: looks_def)
  then show ?thesis
    using assms u v access_looks [OF u] access_looks [OF v] looks_trans by (auto simp: dir_exists_def split: if_splits)
qed

lemma steps2_made:
  assumes "steps [make_dirs d, make_dirs e] s = (True, t)" "f \<in> {d, e}" "plain_path f"
  shows "dir_exists f t"
proof -
  obtain u where u: "make_dirs d s = (True, u)" "make_dirs e u = (True, t)"
    using assms(1) by (auto split: prod.splits if_splits)
  have "dir_exists g u \<longrightarrow> dir_exists g t" for g
    using steadyD [OF steady_make_dirs [OF subset_refl] u(2), of "{}"] by blast
  then show ?thesis
    using make_dirs_exists u assms(2,3) by blast
qed

lemma tizen_initialize_contract:
  assumes "tizen_initialize_storage m s = (ok, t)"
  shows "confined (tizen_made m) {} s t \<and> (ok \<longrightarrow> (\<forall>d \<in> tizen_dir_set m. plain_path d \<longrightarrow> dir_exists d t))"
proof (cases "tizen_dirs m")
  case None
  then show ?thesis using assms by (simp add: tizen_initialize_storage_def tizen_dir_set_def)
next
  case (Some p)
  obtain loc cdir where p: "p = (loc, cdir)" by (cases p)
  obtain a u where u: "steps [access_path loc, access_path cdir] s = (a, u)" by fastforce
  note look = steps2_looks [OF u]
  show ?thesis
  proof (cases a)
    case True
    then show ?thesis
      using assms Some p u look looks_confined [of s u "tizen_made m"] by (simp add: tizen_initialize_storage_def tizen_dir_set_def)
  next
    case False
    have give: "same_world ps {} s (give_to_root cdir (give_to_root loc s)) \<and> same_rights s (give_to_root cdir (give_to_root loc s)) \<and>
        (\<forall>d. dir_exists d s \<longrightarrow> dir_exists d (give_to_root cdir (give_to_root loc s)))" for ps s
      using steady_give [of ps "{}" s loc] steady_give [of ps "{}" "give_to_root loc s" cdir]
        same_world_trans [of ps "{}" s "give_to_root loc s"] by (simp add: same_rights_def)
    have make: "steady (tizen_made m) {} (steps [make_dirs loc, make_dirs cdir])"
      by (rule steady_steps) (simp add: steady_make_dirs tizen_made_def Some p)
    have run: "as_root (\<lambda>s. case steps [make_dirs loc, make_dirs cdir] s of (made, s) \<Rightarrow>
        if \<not> made then (False, s) else (True, give_to_root cdir (give_to_root loc s))) u = (ok, t)"
      using assms Some p u False by (simp add: tizen_initialize_storage_def del: steps.simps)
    have "confined (tizen_made m) {} u t \<and> (ok \<longrightarrow> (\<forall>d \<in> {loc, cdir}. plain_path d \<longrightarrow> dir_exists d t))"
      by (rule made_as_root [OF run make _ give]) (rule steps2_made)
    then show ?thesis
      using confined_trans [OF looks_confined [OF conjunct1 [OF look]], of _ "{}" t] Some p by (simp add: tizen_dir_set_def)
  qed
qed

lemma tizen_is_mounted_looks: "tizen_filesystem_is_mounted m s = (ok, t) \<Longrightarrow> looks s t"
  by (auto simp: tizen_filesystem_is_mounted_def split: prod.splits dest: sys_call_looks)

lemma tizen_delete_contract:
  assumes "tizen_delete_storage m s = (ok, t)"
  shows "confined {} (tizen_dir_set m) s t \<and>
    (ok \<longrightarrow> (\<forall>d \<in> tizen_dir_set m. distinct (map fst (dir_entries d s))) \<longrightarrow> (\<forall>d \<in> tizen_dir_set m. dir_entries d t = []))"
proof (cases "tizen_dirs m")
  case None
  then show ?thesis using assms by (simp add: tizen_delete_storage_def)
next
  case (Some p)
  obtain loc cdir where p: "p = (loc, cdir)" by (cases p)
  have dirs: "tizen_dir_set m = {loc, cdir}"
    using Some p by (simp add: tizen_dir_set_def)
  obtain mounted u where u: "tizen_filesystem_is_mounted m s = (mounted, u)" by fastforce
  note look = tizen_is_mounted_looks [OF u]
  obtain a v where v: "gsignond_wipe_directory cdir u = (a, v)" by fastforce
  obtain b w where w: "gsignond_wipe_directory loc v = (b, w)" by fastforce
  have one: "confined {} {loc, cdir} s v"
    using confined_trans [OF looks_confined [OF look] wipe_confined [OF v]] by simp
  have two: "confined {} {loc, cdir} v w"
    using wipe_confined [OF w] by simp
  have "steps [gsignond_wipe_directory cdir, gsignond_wipe_directory loc] u = (if a then (b, w) else (False, v))"
    by (simp add: v w)
  then have run: "tizen_delete_storage m s = (if mounted then (False, u) else if a then (b, w) else (False, v))"
    by (simp only: tizen_delete_storage_def Some p u option.case prod.case)
  have t: "t = (if mounted then u else if a then w else v)" "ok = (\<not> mounted \<and> a \<and> b)"
    using assms run by (auto split: if_splits)
  have "confined {} {loc, cdir} s t"
    using one confined_trans [OF one two] looks_confined [OF look, of "{}" "{loc, cdir}"] by (simp add: t(1))
  moreover have "dir_entries d t = []"
    if "ok" "\<forall>d \<in> {loc, cdir}. distinct (map fst (dir_entries d s))" "d \<in> {loc, cdir}" for d
  proof -
    have t: "a" "b" "t = w"
      using t that(1) by simp_all
    have c: "dir_entries cdir v = []"
      using wiped_empty [of cdir u v] v t(1) that(2) looks_entries [OF look] by simp
    moreover have "dir_entries loc v = dir_entries loc s" if "loc \<noteq> cdir"
      using wipe_directory_world [OF v, of "{cdir}" "{}"] looks_entries [OF look] that by (simp add: same_world_def)
    ultimately have "distinct (map fst (dir_entries loc v))"
      using that(2) by (cases "loc = cdir") auto
    then have "dir_entries loc w = []"
      using wiped_empty [of loc v w] w t(2) by simp
    moreover have "dir_entries cdir w = []" if "cdir \<noteq> loc"
      using wipe_directory_world [OF w, of "{loc}" "{}"] c that by (simp add: same_world_def)
    ultimately show ?thesis using that(3) t(3) by auto
  qed
  ultimately show ?thesis unfolding dirs by blast
qed

lemma signature_dirs [simp]:
  "tizen_dirs (m\<lparr>mgr_ksig := x\<rparr>) = tizen_dirs m" "tizen_dir_set (m\<lparr>mgr_ksig := x\<rparr>) = tizen_dir_set m"
  "tizen_made (m\<lparr>mgr_ksig := x\<rparr>) = tizen_made m"
  by (simp_all add: tizen_dirs_def tizen_dir_set_def tizen_made_def)

lemma tizen_mount_contract:
  assumes "tizen_mount_filesystem ec m s = (l, m', t)"
  shows "confined {} {} s t \<and> (\<forall>d. dir_exists d s \<longrightarrow> dir_exists d t) \<and> tizen_dir_set m' = tizen_dir_set m \<and>
    tizen_made m' = tizen_made m \<and> mgr_location m' = mgr_location m \<and> (l \<noteq> None \<longrightarrow> mgr_location m = l)"
proof (cases "tizen_dirs m")
  case None
  then show ?thesis using assms by (auto simp: tizen_mount_filesystem_def)
next
  case (Some p)
  obtain loc cdir where p: "p = (loc, cdir)" by (cases p)
  obtain added u where u: "sys_call s = (added, u)" by fastforce
  note look = sys_call_looks [OF u]
  have there: "dir_exists d s \<Longrightarrow> dir_exists d u" for d
    using look by (simp add: looks_def dir_exists_def)
  show ?thesis
  proof (cases added)
    case False
    then show ?thesis
      using assms Some p u looks_confined [OF look, of "{}" "{}"] there by (auto simp: tizen_mount_filesystem_def)
  next
    case True
    let ?sig = "ec_signature ec (mgr_fekey m) (mgr_fesalt m)"
    obtain r v where v: "as_root (sys_mount cdir loc (mount_options ?sig)) u = (r, v)" by fastforce
    note root = as_root_confined [OF steady_calls(3) v]
    have "mgr_location m = Some loc"
      using Some p by (auto simp: tizen_dirs_def split: option.splits)
    moreover have "l = (if r then Some loc else None)" "m' = m\<lparr>mgr_ksig := ?sig\<rparr>" "t = v"
      using assms Some p u True v by (auto simp: tizen_mount_filesystem_def Let_def)
    ultimately show ?thesis
      using confined_trans [OF looks_confined [OF look] root(1)] there root(2) by simp
  qed
qed

lemma tizen_unmount_contract:
  assumes "tizen_unmount_filesystem m s = (ok, t)"
  shows "confined {} {} s t"
proof -
  let ?body = "\<lambda>s. case mgr_location m of None \<Rightarrow> (False, s) | Some loc \<Rightarrow> sys_umount loc s"
  have "steady {} {} ?body"
    using steady_calls(4) by (cases "mgr_location m") (simp_all add: steady_def)
  moreover obtain r u where "as_root ?body s = (r, u)" by fastforce
  ultimately show ?thesis
    using assms as_root_confined(1) [of "{}" "{}" ?body s r u] by (simp add: tizen_unmount_filesystem_def)
qed

interpretation tizen_storage: storage_contract "extension_tizen_storage_manager_class ec" tizen_dir_set tizen_made mgr_location for ec
proof unfold_locales
  fix m s ok t
  show "c_storage_is_initialized (extension_tizen_storage_manager_class ec) m s = (ok, t) \<Longrightarrow>
      looks s t \<and> (ok \<longrightarrow> (\<forall>d \<in> tizen_dir_set m. dir_exists d t))"
    by (auto simp: extension_tizen_storage_manager_class_def tizen_storage_is_initialized_def tizen_dir_set_def
        simp del: steps.simps dest: steps2_looks split: option.splits)
  show "c_initialize_storage (extension_tizen_storage_manager_class ec) m s = (ok, t) \<Longrightarrow>
      confined (tizen_made m) {} s t \<and> (ok \<longrightarrow> (\<forall>d \<in> tizen_dir_set m. plain_path d \<longrightarrow> dir_exists d t))"
    by (simp add: extension_tizen_storage_manager_class_def tizen_initialize_contract)
  show "c_unmount_filesystem (extension_tizen_storage_manager_class ec) m s = (ok, t) \<Longrightarrow> confined {} {} s t"
    by (simp add: extension_tizen_storage_manager_class_def tizen_unmount_contract)
  show "c_filesystem_is_mounted (extension_tizen_storage_manager_class ec) m s = (ok, t) \<Longrightarrow> looks s t"
    by (simp add: extension_tizen_storage_manager_class_def tizen_is_mounted_looks)
  show "c_delete_storage (extension_tizen_storage_manager_class ec) m s = (ok, t) \<Longrightarrow> confined {} (tizen_dir_set m) s t"
    by (simp add: extension_tizen_storage_manager_class_def tizen_delete_contract)
next
  fix m s l m' t
  show "c_mount_filesystem (extension_tizen_storage_manager_class ec) m s = (l, m', t) \<Longrightarrow>
      confined {} {} s t \<and> (\<forall>d. dir_exists d s \<longrightarrow> dir_exists d t) \<and> tizen_dir_set m' = tizen_dir_set m \<and>
      tizen_made m' = tizen_made m \<and>
      mgr_location m' = mgr_location m \<and> (l \<noteq> None \<longrightarrow> mgr_location m = l)"
    using tizen_mount_contract [of ec m s l m' t] by (simp add: extension_tizen_storage_manager_class_def)
next
  fix m s t d
  show "c_delete_storage (extension_tizen_storage_manager_class ec) m s = (True, t) \<Longrightarrow>
      \<forall>d \<in> tizen_dir_set m. distinct (map fst (dir_entries d s)) \<Longrightarrow> d \<in> tizen_dir_set m \<Longrightarrow> dir_entries d t = []"
    using tizen_delete_contract [of m s True t] by (simp add: extension_tizen_storage_manager_class_def)
qed



subsection \<open>The rights and the directories\<close>

text \<open>
  C28. Storage managers stay within their bounds. Whatever the daemon does with its manager, in whatever order, and
  whichever calls of the system fail on the way, for a daemon that starts with the rights of its user and has made
  no \<^verbatim>\<open>seteuid\<close> yet: it has the rights of its user afterwards, although parts of the work are done as root,
  unless the last \<^verbatim>\<open>seteuid\<close>, the one that was to give root's rights back, failed, in which case it goes on as
  root. And the entries of no directory change except those of the storage itself; the directories above the storage
  lose nothing, and gain at most the names of the directories on the way to it, which are made where they are missing.
  This holds for the manager of the base class and for that of Tizen.
\<close>

theorem storage_managers_confined:
  assumes "os_euid s = os_ruid s" "os_seteuids s = []"
  shows "(case storage_uses gsignond_storage_manager_class us m cfg s of (m', cfg', t) \<Rightarrow>
      os_ruid t = os_ruid s \<and> mgr_location m' = mgr_location m \<and>
      (os_euid t = os_ruid s \<or>
       os_euid t = 0 \<and> os_seteuids t \<noteq> [] \<and> hd (os_seteuids t) = (os_ruid s, False)) \<and>
      (\<forall>d. Some d \<noteq> mgr_location m \<longrightarrow>
        (\<exists>names. dir_entries d t = dir_entries d s @ map (\<lambda>n. (n, Subdirectory)) names \<and>
          (\<forall>n \<in> set names. \<exists>loc. mgr_location m = Some loc \<and>
             (\<exists>p \<in> set (path_prefixes [] loc). parent_dir p = d \<and> last_name p = n))))) \<and>
    (case storage_uses (extension_tizen_storage_manager_class ec) us n cfg s of (n', cfg', t) \<Rightarrow>
      os_ruid t = os_ruid s \<and> mgr_location n' = mgr_location n \<and>
      (os_euid t = os_ruid s \<or>
       os_euid t = 0 \<and> os_seteuids t \<noteq> [] \<and> hd (os_seteuids t) = (os_ruid s, False)) \<and>
      (\<forall>d. Some d \<noteq> mgr_location n \<and> Some d \<noteq> mgr_cdir n \<longrightarrow>
        (\<exists>names. dir_entries d t = dir_entries d s @ map (\<lambda>n. (n, Subdirectory)) names \<and>
          (\<forall>k \<in> set names. \<exists>loc. (mgr_location n = Some loc \<or> mgr_cdir n = Some loc) \<and>
             (\<exists>p \<in> set (path_prefixes [] loc). parent_dir p = d \<and> last_name p = k)))))"
proof (rule conjI)
  obtain m' c t where run: "storage_uses gsignond_storage_manager_class us m cfg s = (m', c, t)" by (metis prod_cases3)
  note sound = default_storage.uses_confined [OF run]
  then have "os_ruid t = os_ruid s" by (simp add: confined_def same_world_def)
  moreover have "own_rights s" using assms(1) by (simp add: own_rights_def)
  then have "own_rights t" using sound by (simp add: confined_def)
  ultimately have rights: "os_euid t = os_ruid s \<or>
      os_euid t = 0 \<and> os_seteuids t \<noteq> [] \<and> hd (os_seteuids t) = (os_ruid s, False)"
    by (simp add: own_rights_def)
  have "\<exists>names. dir_entries d t = dir_entries d s @ map (\<lambda>n. (n, Subdirectory)) names \<and>
      (\<forall>n \<in> set names. \<exists>loc. mgr_location m = Some loc \<and>
         (\<exists>p \<in> set (path_prefixes [] loc). parent_dir p = d \<and> last_name p = n))" if "Some d \<noteq> mgr_location m" for d
  proof -
    have "d \<notin> default_dirs m" using that by (cases "mgr_location m") (auto simp: default_dirs_def)
    then have "gains (default_made m) d s t" using sound by (simp add: confined_def same_world_def)
    then show ?thesis by (cases "mgr_location m") (simp_all add: gains_def default_made_def)
  qed
  then show "case storage_uses gsignond_storage_manager_class us m cfg s of (m', cfg', t) \<Rightarrow>
      os_ruid t = os_ruid s \<and> mgr_location m' = mgr_location m \<and>
      (os_euid t = os_ruid s \<or>
       os_euid t = 0 \<and> os_seteuids t \<noteq> [] \<and> hd (os_seteuids t) = (os_ruid s, False)) \<and>
      (\<forall>d. Some d \<noteq> mgr_location m \<longrightarrow>
        (\<exists>names. dir_entries d t = dir_entries d s @ map (\<lambda>n. (n, Subdirectory)) names \<and>
          (\<forall>n \<in> set names. \<exists>loc. mgr_location m = Some loc \<and>
             (\<exists>p \<in> set (path_prefixes [] loc). parent_dir p = d \<and> last_name p = n))))"
    using sound rights run by (simp add: confined_def same_world_def)
next
  obtain n' c t where run: "storage_uses (extension_tizen_storage_manager_class ec) us n cfg s = (n', c, t)"
    by (metis prod_cases3)
  note sound = tizen_storage.uses_confined [OF run]
  then have "os_ruid t = os_ruid s" by (simp add: confined_def same_world_def)
  moreover have "own_rights s" using assms(1) by (simp add: own_rights_def)
  then have "own_rights t" using sound by (simp add: confined_def)
  ultimately have rights: "os_euid t = os_ruid s \<or>
      os_euid t = 0 \<and> os_seteuids t \<noteq> [] \<and> hd (os_seteuids t) = (os_ruid s, False)"
    by (simp add: own_rights_def)
  have "\<exists>names. dir_entries d t = dir_entries d s @ map (\<lambda>n. (n, Subdirectory)) names \<and>
      (\<forall>k \<in> set names. \<exists>loc. (mgr_location n = Some loc \<or> mgr_cdir n = Some loc) \<and>
         (\<exists>p \<in> set (path_prefixes [] loc). parent_dir p = d \<and> last_name p = k))"
    if "Some d \<noteq> mgr_location n \<and> Some d \<noteq> mgr_cdir n" for d
  proof -
    have "d \<notin> tizen_dir_set n" using that by (auto simp: tizen_dir_set_def tizen_dirs_def split: option.splits)
    then have "gains (tizen_made n) d s t" using sound by (simp add: confined_def same_world_def)
    moreover have "\<exists>loc. (mgr_location n = Some loc \<or> mgr_cdir n = Some loc) \<and> p \<in> set (path_prefixes [] loc)"
      if "p \<in> tizen_made n" for p
      using that by (auto simp: tizen_made_def tizen_dirs_def split: option.splits)
    ultimately show ?thesis unfolding gains_def by meson
  qed
  then show "case storage_uses (extension_tizen_storage_manager_class ec) us n cfg s of (n', cfg', t) \<Rightarrow>
      os_ruid t = os_ruid s \<and> mgr_location n' = mgr_location n \<and>
      (os_euid t = os_ruid s \<or>
       os_euid t = 0 \<and> os_seteuids t \<noteq> [] \<and> hd (os_seteuids t) = (os_ruid s, False)) \<and>
      (\<forall>d. Some d \<noteq> mgr_location n \<and> Some d \<noteq> mgr_cdir n \<longrightarrow>
        (\<exists>names. dir_entries d t = dir_entries d s @ map (\<lambda>n. (n, Subdirectory)) names \<and>
          (\<forall>k \<in> set names. \<exists>loc. (mgr_location n = Some loc \<or> mgr_cdir n = Some loc) \<and>
             (\<exists>p \<in> set (path_prefixes [] loc). parent_dir p = d \<and> last_name p = k))))"
    using sound rights run by (simp add: confined_def same_world_def)
qed

subsection \<open>Clearing with Tizen's manager\<close>

text \<open>
  The storage is mounted while the daemon runs, and clearing does not unmount it first. The manager refuses to delete
  what is mounted, and mounts it again on top.
\<close>

definition mounts_on :: "string \<Rightarrow> os \<Rightarrow> nat" where
  "mounts_on d s = length (filter (\<lambda>m. fst m = d) (os_mounts s))"

definition in_service :: "string \<Rightarrow> string \<Rightarrow> tizen_manager \<Rightarrow> os \<Rightarrow> bool" where
  "in_service loc cdir m s \<longleftrightarrow> tizen_dirs m = Some (loc, cdir) \<and> os_results s = [] \<and> os_suid s = 0 \<and>
     dir_exists loc s \<and> dir_exists cdir s"

lemma no_failure: "os_results s = [] \<Longrightarrow> sys_call s = (True, s)"
  by (simp add: sys_call_def next_result_def)

lemma mounted_iff: "d \<in> fst ` set (os_mounts s) \<longleftrightarrow> 0 < mounts_on d s"
  by (force simp: mounts_on_def filter_empty_conv)

lemma remove_mount_count: "length (filter (\<lambda>m. fst m = d) (remove_mount d ms)) = length (filter (\<lambda>m. fst m = d) ms) - 1"
  by (induction ms) auto

lemma in_service_mounted:
  "in_service loc cdir m s \<Longrightarrow> tizen_filesystem_is_mounted m s = (0 < mounts_on loc s, s)"
  by (auto simp: in_service_def tizen_filesystem_is_mounted_def no_failure mounted_iff tizen_dirs_def split: option.splits)

definition after_mount :: "string \<Rightarrow> string \<Rightarrow> string \<Rightarrow> os \<Rightarrow> os" where
  "after_mount loc cdir options s = s\<lparr>os_euid := os_ruid s, os_mounts := (loc, cdir, options) # os_mounts s,
     os_seteuids := (os_ruid s, True) # (0, True) # os_seteuids s\<rparr>"

lemma seteuid_calm:
  assumes "os_results s = []" "os_suid s = 0"
  shows "sys_seteuid 0 s = (True, s\<lparr>os_euid := 0, os_seteuids := (0, True) # os_seteuids s\<rparr>)"
    "sys_seteuid (os_ruid s) s = (True, s\<lparr>os_euid := os_ruid s, os_seteuids := (os_ruid s, True) # os_seteuids s\<rparr>)"
  using assms by (simp_all add: sys_seteuid_def no_failure)

lemma recreate_in_service:
  assumes "in_service loc cdir m s" "0 < mounts_on loc s"
  shows "\<exists>n c. recreate_storage (extension_tizen_storage_manager_class ec) m cfg s =
    (False, n, c, after_mount loc cdir (mount_options (mgr_ksig n)) s) \<and> tizen_dirs n = tizen_dirs m"
proof -
  have dirs: "tizen_dirs m = Some (loc, cdir)" and calm: "sys_call s = (True, s)"
    and results: "os_results s = []" "os_suid s = 0"
    and there: "steps [access_path cdir, access_path loc] s = (True, s)"
    using assms(1) by (auto simp: in_service_def no_failure access_path_def dir_exists_def)
  have mount: "as_root (sys_mount cdir loc options) s = (True, after_mount loc cdir options s)" for options
    using results seteuid_calm [of s] seteuid_calm(2) [of "s\<lparr>os_euid := 0, os_seteuids := (0, True) # os_seteuids s,
        os_mounts := (loc, cdir, options) # os_mounts s\<rparr>"]
    by (simp add: as_root_def Let_def sys_mount_def no_failure after_mount_def)
  have "tizen_delete_storage m s = (False, s)"
    using dirs in_service_mounted [OF assms(1)] assms(2) by (simp add: tizen_delete_storage_def)
  moreover have "tizen_storage_is_initialized m s = (True, s)"
    using dirs there by (simp add: tizen_storage_is_initialized_def)
  ultimately show ?thesis
    using dirs calm mount
    by (simp add: recreate_storage_def init_storage_with_def extension_tizen_storage_manager_class_def
        tizen_mount_filesystem_def Let_def)
qed

lemma unmount_in_service:
  assumes "in_service loc cdir m s"
  shows "\<exists>t. storage_manager_dispose (extension_tizen_storage_manager_class ec) m s = t \<and> in_service loc cdir m t \<and>
    mounts_on loc t = mounts_on loc s - 1"
proof (cases "0 < mounts_on loc s")
  case False
  then show ?thesis
    using assms in_service_mounted [OF assms]
    by (simp add: storage_manager_dispose_def extension_tizen_storage_manager_class_def)
next
  case True
  have s: "os_results s = []" "os_suid s = 0" "mgr_location m = Some loc"
    using assms by (auto simp: in_service_def tizen_dirs_def split: option.splits)
  let ?t = "s\<lparr>os_euid := os_ruid s, os_mounts := remove_mount loc (os_mounts s),
     os_seteuids := (os_ruid s, True) # (0, True) # os_seteuids s\<rparr>"
  have "tizen_unmount_filesystem m s = (True, ?t)"
    using True s seteuid_calm [of s] seteuid_calm(2) [of "s\<lparr>os_euid := 0, os_seteuids := (0, True) # os_seteuids s,
        os_mounts := remove_mount loc (os_mounts s)\<rparr>"]
    by (simp add: tizen_unmount_filesystem_def as_root_def Let_def sys_umount_def no_failure mounted_iff [symmetric])
  then show ?thesis
    using True assms in_service_mounted [OF assms]
    by (simp add: storage_manager_dispose_def extension_tizen_storage_manager_class_def in_service_def dir_exists_def
        mounts_on_def remove_mount_count)
qed

text \<open>
  While the storage is mounted and no call fails, deleting it and making it again fails any number of times, and
  each time it is mounted once more. Releasing it unmounts twice.
\<close>

lemma recreate_leaves_storage:
  assumes "in_service loc cdir m s" and "0 < mounts_on loc s"
  shows "\<exists>m' cfg' t. storage_uses (extension_tizen_storage_manager_class ec) (replicate k Recreate) m cfg s = (m', cfg', t) \<and>
      in_service loc cdir m' t \<and> os_dirs t = os_dirs s \<and> os_writes t = os_writes s \<and>
      mounts_on loc t = mounts_on loc s + k \<and>
      mounts_on loc (release_storage (extension_tizen_storage_manager_class ec) m' t) = mounts_on loc s + k - 2"
  using assms
proof (induction k arbitrary: m cfg s)
  case 0
  have "release_storage cls m s = storage_manager_dispose cls m (storage_manager_dispose cls m s)" for cls :: "tizen_manager storage_class"
    by (simp add: release_storage_def storage_manager_dispose_def split: prod.splits)
  then show ?case
    using 0 unmount_in_service [OF 0(1), of ec] unmount_in_service [of loc cdir m _ ec] by fastforce
next
  case (Suc k)
  obtain n c where step: "recreate_storage (extension_tizen_storage_manager_class ec) m cfg s =
      (False, n, c, after_mount loc cdir (mount_options (mgr_ksig n)) s)" (is "_ = (False, n, c, ?u)")
      "tizen_dirs n = tizen_dirs m"
    using recreate_in_service [OF Suc.prems] by blast
  have "in_service loc cdir n ?u" "mounts_on loc ?u = Suc (mounts_on loc s)" "os_dirs ?u = os_dirs s" "os_writes ?u = os_writes s"
    using Suc.prems(1) step(2) by (simp_all add: in_service_def dir_exists_def mounts_on_def after_mount_def)
  with Suc.IH [of n ?u c] step(1) show ?case by simp
qed

definition tizen_example :: tizen_manager where
  "tizen_example = \<lparr>mgr_location = Some ''/var/gsignond.u'', mgr_cdir = Some ''/var/gsignond.u.efs'',
     mgr_fekey = ''1234567890'', mgr_fesalt = ''09876543'', mgr_ksig = ''00''\<rparr>"

definition ecryptfs_example :: ecryptfs where
  "ecryptfs_example = \<lparr>ec_max_passphrase = 64, ec_salt_size = 8, ec_signature = (@)\<rparr>"

definition config_example :: config where
  "config_example = \<lparr>config_file_path = None, config_table = gsignond_dictionary_new\<rparr>"

lemma os_example_facts:
  "os_euid os_example = 1000" "os_ruid os_example = 1000" "os_seteuids os_example = []" "mounts_on ''/var/gsignond.u'' os_example = 1"
  "in_service ''/var/gsignond.u'' ''/var/gsignond.u.efs'' tizen_example os_example"
  "map_of (dir_entries ''/var/gsignond.u.efs'' os_example) ''secret.db'' = Some (File [1, 2, 3, 4, 5])"
  by (simp_all add: in_service_def tizen_example_def os_example_def tizen_dirs_def dir_exists_def mounts_on_def dir_entries_def)

theorem storage_managers_confined_witness:
  "case storage_uses gsignond_storage_manager_class [Prepare, Recreate, Release] \<lparr>mgr_location = Some ''/var/gsignond.u''\<rparr>
      config_example os_example of
     (m', cfg', t) \<Rightarrow> os_ruid t = 1000 \<and>
       map_of (dir_entries ''/var/gsignond.u.efs'' t) ''secret.db'' = Some (File [1, 2, 3, 4, 5])"
proof -
  obtain m' cfg' t where run: "storage_uses gsignond_storage_manager_class [Prepare, Recreate, Release]
      \<lparr>mgr_location = Some ''/var/gsignond.u''\<rparr> config_example os_example = (m', cfg', t)"
    by (metis prod_cases3)
  from storage_managers_confined [where s = os_example and us = "[Prepare, Recreate, Release]" and cfg = config_example
      and m = "\<lparr>mgr_location = Some ''/var/gsignond.u''\<rparr>", THEN conjunct1] run os_example_facts
  have "os_ruid t = 1000" and "\<forall>d. Some d \<noteq> Some ''/var/gsignond.u'' \<longrightarrow>
      (\<exists>names. dir_entries d t = dir_entries d os_example @ map (\<lambda>n. (n, Subdirectory)) names)"
    by auto
  moreover have "Some ''/var/gsignond.u.efs'' \<noteq> Some ''/var/gsignond.u''" by simp
  ultimately obtain names where "dir_entries ''/var/gsignond.u.efs'' t =
      dir_entries ''/var/gsignond.u.efs'' os_example @ map (\<lambda>n. (n, Subdirectory)) names"
    by metis
  with \<open>os_ruid t = 1000\<close> run os_example_facts(6) show ?thesis by simp
qed

text \<open>The call that is to give root's rights back fails when the storage is first made: the daemon goes on as root.\<close>

lemma rights_of_root_kept:
  "case storage_uses gsignond_storage_manager_class [Prepare] \<lparr>mgr_location = Some ''/var/gsignond.v''\<rparr> config_example
      (os_example\<lparr>os_results := replicate 6 Succeeds @ [Fails]\<rparr>) of
     (m', cfg', t) \<Rightarrow> os_euid t = 0 \<and> os_ruid t = 1000 \<and> os_seteuids t = [(1000, False), (0, True)] \<and>
       dir_entries ''/var'' t = dir_entries ''/var'' os_example @ [(''gsignond.v'', Subdirectory)]"
  by code_simp

end
