(* ===== verification/Gsso_Daemon_Storage.thy ===== *)
theory Gsso_Daemon_Storage
  imports Gsso_Identity Gsso_Storage_Manager
begin

text \<open>
  The daemon over its storage manager. \<^verbatim>\<open>gsignond_daemon_clear\<close> is modelled in \<open>Gsso_Identity\<close> over the answers of a
  manager; here they are those that a manager of a class gives in a state of the system, in the order in which they are
  asked for.
\<close>

definition storage_env_of ::
  "'m storage_class \<Rightarrow> 'm \<Rightarrow> os \<Rightarrow> bool \<Rightarrow> (bool \<Rightarrow> 's credentials_db \<Rightarrow> meta_content \<times> sqlite_rc list \<times> 's) \<Rightarrow>
   's storage_env" where
  "storage_env_of cls m s made fresh =
     (case c_delete_storage cls m s of (deletes, s) \<Rightarrow>
      case c_storage_is_initialized cls m s of (there, s) \<Rightarrow>
      case (if there then (True, s) else c_initialize_storage cls m s) of (initializes, s) \<Rightarrow>
      case c_mount_filesystem cls m s of (loc, _) \<Rightarrow>
        \<lparr>sm_initialized = there, sm_initializes = initializes, sm_mounted_at = loc, sm_deletes = deletes,
         sm_directory_made = made, sm_fresh = fresh\<rparr>)"

text \<open>The answers are used as the manager's operations compose.\<close>

lemma storage_env_recreate:
  "recreate_storage cls m cfg s = (ok, m', cfg', t) \<Longrightarrow>
     ok = (sm_deletes (storage_env_of cls m s made fresh) \<and> fst (init_storage (storage_env_of cls m s made fresh)))"
  by (auto simp: recreate_storage_def init_storage_with_def storage_env_of_def init_storage_def
      split: prod.splits option.splits if_splits)

lemma storage_env_directory:
  "recreate_storage cls m cfg s = (ok, m', cfg', t) \<Longrightarrow>
     cfg' = (case snd (init_storage (storage_env_of cls m s made fresh)) of
               None \<Rightarrow> cfg | Some loc \<Rightarrow> gsignond_config_set_string cfg ''General/SecureDir'' loc)"
  by (auto simp: recreate_storage_def init_storage_with_def storage_env_of_def init_storage_def
      split: prod.splits option.splits if_splits)

lemma clear_needs_storage:
  "gsignond_daemon_clear env sm dir ctx d = (Inr True, d') \<Longrightarrow> sm_deletes sm \<and> fst (init_storage sm)"
  by (auto simp: gsignond_daemon_clear_def Let_def split: if_splits prod.splits)

text \<open>
  A clearing that is reported as successful has emptied the storage, and the configuration leads to it again. The path
  of the storage is not one, like \<open>.\<close>, that is in itself.
\<close>

lemma clear_success_wiped:
  assumes "gsignond_daemon_clear env (storage_env_of gsignond_storage_manager_class m s made fresh) dir ctx d = (Inr True, d')"
    and "mgr_location m = Some loc" "loc \<notin> parent_dir ` set (path_prefixes [] loc)" "distinct (map fst (dir_entries loc s))"
    and "recreate_storage gsignond_storage_manager_class m cfg s = (ok, m', cfg', t)"
  shows "ok \<and> dir_entries loc t = [] \<and> gsignond_config_get_string cfg' ''General/SecureDir'' = Some loc"
proof -
  have ok: "ok"
    using clear_needs_storage [OF assms(1)] storage_env_recreate [OF assms(5), of made fresh] by simp
  then have "dir_entries loc t = []"
    using default_storage.recreate_storage_sound [OF assms(5)] assms(2-4)
    by (simp add: default_dirs_def default_made_def)
  moreover have "\<exists>s. init_storage_with gsignond_storage_manager_class m cfg s = (True, m', cfg', t)"
    using assms(5) ok by (auto simp: recreate_storage_def split: prod.splits)
  then have "cfg' = gsignond_config_set_string cfg ''General/SecureDir'' loc"
    using default_storage.init_storage_sound assms(2) by fastforce
  ultimately show ?thesis using ok by (simp add: config_set_get)
qed

text \<open>With Tizen's manager, clearing always ends in failure while the storage is mounted.\<close>

lemma tizen_daemon_clear_fails:
  assumes "in_service loc cdir m s" "0 < mounts_on loc s"
  shows "fst (gsignond_daemon_clear env (storage_env_of (extension_tizen_storage_manager_class ec) m s made fresh) dir ctx d)
    \<noteq> Inr True"
proof
  assume "fst (gsignond_daemon_clear env (storage_env_of (extension_tizen_storage_manager_class ec) m s made fresh) dir ctx d)
    = Inr True"
  then have "sm_deletes (storage_env_of (extension_tizen_storage_manager_class ec) m s made fresh) \<and>
      fst (init_storage (storage_env_of (extension_tizen_storage_manager_class ec) m s made fresh))"
    by (intro clear_needs_storage [of env _ dir ctx d]) (auto simp: prod_eq_iff)
  then show False
    using recreate_in_service [OF assms, of ec] storage_env_recreate by fastforce
qed

text \<open>
  C29. The storage of Tizen is not deleted by clearing. What the daemon does with its manager when it clears itself, which
  is to delete the storage and to make it again, comes after the deletion of the rows of the databases, which
  is another part. While the storage is mounted and no call of the system fails, this part can
  be run any number of times: each time no directory is changed and no file overwritten by it, the storage is mounted
  once more, and a clearing of the daemon that gets the answers of the manager in the state then reached is
  not reported as successful. At its end the daemon unmounts twice, once itself and once when it lets go
  of its manager, so that after two clearings the decrypted storage remains mounted when the daemon is gone.
\<close>

theorem tizen_storage_never_deleted:
  assumes "in_service loc cdir m s" and "0 < mounts_on loc s"
  shows "\<exists>m' cfg' t. storage_uses (extension_tizen_storage_manager_class ec) (replicate k Recreate) m cfg s = (m', cfg', t) \<and>
      os_dirs t = os_dirs s \<and> os_writes t = os_writes s \<and> mounts_on loc t = mounts_on loc s + k \<and>
      \<not> fst (recreate_storage (extension_tizen_storage_manager_class ec) m' cfg' t) \<and>
      (\<forall>(env :: 's daemon_env) made fresh dir ctx d. fst (gsignond_daemon_clear env
         (storage_env_of (extension_tizen_storage_manager_class ec) m' t made fresh) dir ctx d) \<noteq> Inr True) \<and>
      mounts_on loc (release_storage (extension_tizen_storage_manager_class ec) m' t) = mounts_on loc s + k - 2"
proof -
  obtain m' cfg' t where run: "storage_uses (extension_tizen_storage_manager_class ec) (replicate k Recreate) m cfg s = (m', cfg', t)"
      "in_service loc cdir m' t" "os_dirs t = os_dirs s" "os_writes t = os_writes s" "mounts_on loc t = mounts_on loc s + k"
      "mounts_on loc (release_storage (extension_tizen_storage_manager_class ec) m' t) = mounts_on loc s + k - 2"
    using recreate_leaves_storage [OF assms, of ec k cfg] by blast
  then have mounted: "0 < mounts_on loc t" using assms(2) by simp
  have "\<not> fst (recreate_storage (extension_tizen_storage_manager_class ec) m' cfg' t)"
    using recreate_in_service [OF run(2) mounted, of ec cfg'] by auto
  then show ?thesis
    using run tizen_daemon_clear_fails [OF run(2) mounted, where ec = ec] by blast
qed

theorem tizen_storage_never_deleted_witness:
  "\<exists>m' cfg' t. storage_uses (extension_tizen_storage_manager_class ecryptfs_example) (replicate 2 Recreate)
       tizen_example config_example os_example = (m', cfg', t) \<and> os_dirs t = os_dirs os_example \<and>
     mounts_on ''/var/gsignond.u'' (release_storage (extension_tizen_storage_manager_class ecryptfs_example) m' t) = 1"
proof -
  obtain m' cfg' t where "storage_uses (extension_tizen_storage_manager_class ecryptfs_example) (replicate 2 Recreate)
      tizen_example config_example os_example = (m', cfg', t)" "os_dirs t = os_dirs os_example"
      "mounts_on ''/var/gsignond.u'' (release_storage (extension_tizen_storage_manager_class ecryptfs_example) m' t) =
        mounts_on ''/var/gsignond.u'' os_example + 2 - 2"
    using tizen_storage_never_deleted [where k = 2 and s = os_example and m = tizen_example and ec = ecryptfs_example
        and loc = "''/var/gsignond.u''" and cdir = "''/var/gsignond.u.efs''" and cfg = config_example] os_example_facts
    by auto
  then show ?thesis using os_example_facts by auto
qed

end
