(* ===== verification/Gsso_Test_Plugin.thy ===== *)
theory Gsso_Test_Plugin
  imports Gsso_Plugins
begin

text \<open>
  \<^verbatim>\<open>src/src/plugins/ssotest/gsignond-ssotest-plugin.c\<close>: the plugin that the tests of the daemon use. Its state is whether
  it was cancelled. While it works on a request it lets the main loop run ten times; \<open>arrives i\<close> says that
  a call of \<^verbatim>\<open>cancel\<close> comes in the \<open>i\<close>-th of these. \<open>uninit\<close> is the value of a variable that is read before it is set.
\<close>

definition SIGNONUI_ERROR_FORBIDDEN :: u32 where "SIGNONUI_ERROR_FORBIDDEN = 10"

definition gsignond_ssotest_plugin_cancel :: "bool \<Rightarrow> plugin_signal list \<times> bool" where
  "gsignond_ssotest_plugin_cancel self = ([], True)"

fun wait_rounds :: "bool list \<Rightarrow> bool \<Rightarrow> plugin_signal list \<times> bool" where
  "wait_rounds [] is_canceled = ([], is_canceled)"
| "wait_rounds (c # cs) is_canceled =
     (if \<not> is_canceled then
        (case (if c then gsignond_ssotest_plugin_cancel is_canceled else ([], is_canceled)) of (during, is_canceled) \<Rightarrow>
         case wait_rounds cs is_canceled of (later, is_canceled) \<Rightarrow>
           (Status_changed GSIGNOND_PLUGIN_STATE_WAITING ''hello from the test plugin'' # during @ later, is_canceled))
      else wait_rounds cs is_canceled)"

definition gsignond_ssotest_plugin_request_initial ::
  "(nat \<Rightarrow> bool) \<Rightarrow> dictionary \<Rightarrow> dictionary option \<Rightarrow> cstr \<Rightarrow> bool \<Rightarrow> plugin_signal list \<times> bool" where
  "gsignond_ssotest_plugin_request_initial arrives session_data identity_method_cache mechanism self =
     (let response = gsignond_session_data_set_realm (gsignond_dictionary_copy session_data) (Some ''testRealm_after_test'')
      in case wait_rounds (map arrives [0..<10]) False of (signals, is_canceled) \<Rightarrow>
        if is_canceled then (signals @ [session_canceled ''Session canceled''], is_canceled)
        else if g_strcmp0 mechanism (Some ''BLOB'') = 0 then (signals @ [Response_final response], is_canceled)
        else if g_strcmp0 mechanism (Some ''mech1'') = 0 then (signals @ [Response_final response], is_canceled)
        else if g_strcmp0 mechanism (Some ''mech2'') = 0 then
          let username = gsignond_session_data_get_username session_data;
              user_action_data = gsignond_dictionary_new;
              user_action_data =
                (if username = None then gsignond_signonui_data_set_query_username user_action_data True
                 else gsignond_signonui_data_set_username user_action_data username);
              user_action_data = gsignond_signonui_data_set_query_password user_action_data True
          in (signals @ [User_action_required user_action_data], is_canceled)
        else (signals, is_canceled))"

definition gsignond_ssotest_plugin_user_action_finished ::
  "u32 \<Rightarrow> dictionary \<Rightarrow> bool \<Rightarrow> plugin_signal list \<times> bool" where
  "gsignond_ssotest_plugin_user_action_finished uninit session_data self =
     (let res = gsignond_signonui_data_get_query_error session_data;
          early = (if res = None then [no_error_value] else []);
          query_error = (case res of Some e \<Rightarrow> e | None \<Rightarrow> uninit);
          username = gsignond_signonui_data_get_username session_data;
          secret = gsignond_signonui_data_get_password session_data
      in if query_error = SIGNONUI_ERROR_NONE \<and> username \<noteq> None \<and> secret \<noteq> None then
           let response = gsignond_session_data_set_username gsignond_dictionary_new username;
               response = gsignond_session_data_set_secret response secret
           in (early @ [Response_final response], self)
         else if query_error = SIGNONUI_ERROR_CANCELED then
           (early @ [session_canceled ''user_action_finished: canceled''], self)
         else if query_error = SIGNONUI_ERROR_FORBIDDEN then
           (early @ [plugin_error GSIGNOND_ERROR_NOT_AUTHORIZED ''user_action_finished: forbidden''], self)
         else
           (early @ [plugin_error GSIGNOND_ERROR_USER_INTERACTION (''user_action_finished error: '' @ print_int query_error)],
            self))"

definition gsignond_ssotest_plugin_refresh :: "dictionary \<Rightarrow> bool \<Rightarrow> plugin_signal list \<times> bool" where
  "gsignond_ssotest_plugin_refresh ui_data self = ([Refreshed ui_data], self)"

subsection \<open>Its answers\<close>

lemma wait_rounds_result:
  "snd (wait_rounds cs c) = (c \<or> (\<exists>x \<in> set cs. x)) \<and>
   list_all (\<lambda>s. \<not> ends_request s \<and> \<not> asks_user s) (fst (wait_rounds cs c))"
  by (induction cs c rule: wait_rounds.induct) (auto simp: gsignond_ssotest_plugin_cancel_def split: prod.splits)

text \<open>
  A request has one answer after reports of its progress: it is cancelled if a call to cancel came while it was worked on,
  and otherwise what the mechanism gives; but the mechanism \<open>mech3\<close>, which the plugin offers, gives none.
\<close>

lemma ssotest_request_answers:
  "\<exists>before answer. fst (gsignond_ssotest_plugin_request_initial arrives session_data cache mechanism self) = before @ answer \<and>
     list_all (\<lambda>s. \<not> ends_request s \<and> \<not> asks_user s) before \<and>
     (if \<exists>i < 10. arrives i then answer = [session_canceled ''Session canceled'']
      else if mechanism \<in> {Some ''BLOB'', Some ''mech1''} then \<exists>r. answer = [Response_final r]
      else if mechanism = Some ''mech2'' then \<exists>d. answer = [User_action_required d]
      else answer = [])"
proof -
  obtain signals is_canceled where w: "wait_rounds (map arrives [0..<10]) False = (signals, is_canceled)" by fastforce
  have w': "is_canceled = (\<exists>i < 10. arrives i)" "list_all (\<lambda>s. \<not> ends_request s \<and> \<not> asks_user s) signals"
    using wait_rounds_result [of "map arrives [0..<10]" False] w by auto
  let ?r = "gsignond_session_data_set_realm (gsignond_dictionary_copy session_data) (Some ''testRealm_after_test'')"
  have "\<exists>d. fst (gsignond_ssotest_plugin_request_initial arrives session_data cache mechanism self) = signals @
      (if is_canceled then [session_canceled ''Session canceled'']
       else if mechanism = Some ''BLOB'' \<or> mechanism = Some ''mech1'' then [Response_final ?r]
       else if mechanism = Some ''mech2'' then [User_action_required d] else [])"
    using w by (auto simp: gsignond_ssotest_plugin_request_initial_def Let_def simp del: upt.simps wait_rounds.simps)
  then obtain d where run: "fst (gsignond_ssotest_plugin_request_initial arrives session_data cache mechanism self) = signals @
      (if is_canceled then [session_canceled ''Session canceled'']
       else if mechanism = Some ''BLOB'' \<or> mechanism = Some ''mech1'' then [Response_final ?r]
       else if mechanism = Some ''mech2'' then [User_action_required d] else [])" by blast
  show ?thesis
    unfolding run by (rule exI [of _ signals], rule exI, rule conjI, rule refl) (auto simp: w')
qed

text \<open>What the user did ends the request with one signal, but with two if it has no error value.\<close>

lemma ssotest_user_answers:
  "\<exists>x. fst (gsignond_ssotest_plugin_user_action_finished uninit reply self) =
     (if gsignond_signonui_data_get_query_error reply = None then [no_error_value, x] else [x]) \<and>
     ends_request no_error_value \<and> ends_request x"
  by (auto simp: gsignond_ssotest_plugin_user_action_finished_def Let_def plugin_outcome_defs)

end
