(* ===== verification/Gsso_Dbus_Server.thy ===== *)
theory Gsso_Dbus_Server
  imports Gsso_Prelude "HOL-Library.AList"
begin

text \<open>
  \<^verbatim>\<open>src/src/daemon/dbus/gsignond-dbus-server.c\<close>: the object that gives each connection an object for its identities (a
  service), in both builds: with a socket of its own (\<open>p2p\<close>) and over a message bus. Connections and
  services are numbered. GLib keeps the handlers of \<^verbatim>\<open>closed\<close>, the weak references to the services and the idle sources,
  all of which call back with the server; a callback with a server that was freed is a fault.
\<close>

datatype server_fault = Freed_server | Released_twice

record server =
  sv_refs :: nat
  sv_services :: "(nat \<times> nat) list"
  sv_closed_handlers :: "nat list"
  sv_weak_refs :: "nat list"
  sv_alive :: "nat list"
  sv_idle :: nat
  sv_next :: nat

definition gsignond_dbus_server_new :: server where
  "gsignond_dbus_server_new =
     \<lparr>sv_refs = 1, sv_services = [], sv_closed_handlers = [], sv_weak_refs = [], sv_alive = [], sv_idle = 0, sv_next = 0\<rparr>"

definition on_auth_service_dispose :: "bool \<Rightarrow> nat \<Rightarrow> server \<Rightarrow> server" where
  "on_auth_service_dispose p2p dead_service server =
     (let server = server\<lparr>sv_services := filter (\<lambda>(_, v). v \<noteq> dead_service) (sv_services server)\<rparr>
      in if \<not> p2p \<and> sv_services server = [] then server\<lparr>sv_idle := sv_idle server + 1\<rparr> else server)"

text \<open>The last reference to a service goes; who holds a weak reference is told.\<close>

definition release_service :: "bool \<Rightarrow> nat \<Rightarrow> server \<Rightarrow> server_fault + server" where
  "release_service p2p v server =
     (if v \<notin> set (sv_alive server) then Inl Released_twice
      else
        let watched = (v \<in> set (sv_weak_refs server));
            server = server\<lparr>sv_alive := removeAll v (sv_alive server), sv_weak_refs := removeAll v (sv_weak_refs server)\<rparr>
        in if \<not> watched then Inr server
           else if sv_refs server = 0 then Inl Freed_server
           else Inr (on_auth_service_dispose p2p v server))"

text \<open>A value that is replaced in the table is released after the new one is in.\<close>

definition gsignond_dbus_server_start_auth_service :: "bool \<Rightarrow> nat \<Rightarrow> server \<Rightarrow> server_fault + server" where
  "gsignond_dbus_server_start_auth_service p2p connection server =
     (let auth_service = sv_next server;
          old = map_of (sv_services server) connection;
          server = server\<lparr>sv_next := Suc auth_service, sv_alive := auth_service # sv_alive server,
            sv_services := AList.update connection auth_service (sv_services server)\<rparr>
      in case (case old of Some v \<Rightarrow> release_service p2p v server | None \<Rightarrow> Inr server) of
           Inl f \<Rightarrow> Inl f
         | Inr server \<Rightarrow>
             let server = (if p2p then server\<lparr>sv_closed_handlers := connection # sv_closed_handlers server\<rparr> else server)
             in Inr (server\<lparr>sv_weak_refs := auth_service # sv_weak_refs server\<rparr>))"

definition on_connection_closed :: "bool \<Rightarrow> nat \<Rightarrow> server \<Rightarrow> server_fault + server" where
  "on_connection_closed p2p connection server =
     (let server = server\<lparr>sv_closed_handlers := removeAll connection (sv_closed_handlers server)\<rparr>
      in case map_of (sv_services server) connection of
           None \<Rightarrow> Inr server
         | Some v \<Rightarrow> release_service p2p v (server\<lparr>sv_services := AList.delete connection (sv_services server)\<rparr>))"

definition clear_watchers :: "bool \<Rightarrow> nat \<Rightarrow> nat \<Rightarrow> server \<Rightarrow> server" where
  "clear_watchers p2p connection auth_service server =
     (let server = (if p2p then server\<lparr>sv_closed_handlers := removeAll connection (sv_closed_handlers server)\<rparr> else server)
      in server\<lparr>sv_weak_refs := remove1 auth_service (sv_weak_refs server)\<rparr>)"

fun release_services :: "bool \<Rightarrow> nat list \<Rightarrow> server \<Rightarrow> server_fault + server" where
  "release_services p2p [] server = Inr server"
| "release_services p2p (v # vs) server =
     (case release_service p2p v server of Inl f \<Rightarrow> Inl f | Inr server \<Rightarrow> release_services p2p vs server)"

text \<open>The table is emptied by letting all of its services go.\<close>

definition dbus_server_dispose :: "bool \<Rightarrow> server \<Rightarrow> server_fault + server" where
  "dbus_server_dispose p2p server =
     (let services = sv_services server;
          server = fold (\<lambda>(c, v). clear_watchers p2p c v) services server
      in release_services p2p (map snd services) (server\<lparr>sv_services := []\<rparr>))"

definition server_unref :: "bool \<Rightarrow> server \<Rightarrow> server_fault + server" where
  "server_unref p2p server =
     (if sv_refs server = 0 then Inl Freed_server
      else if sv_refs server = 1 then map_sum id (\<lambda>s. s\<lparr>sv_refs := 0\<rparr>) (dbus_server_dispose p2p server)
      else Inr (server\<lparr>sv_refs := sv_refs server - 1\<rparr>))"

text \<open>The callbacks: of the socket, and of the message bus.\<close>

definition on_client_request :: "nat \<Rightarrow> server \<Rightarrow> server_fault + server" where
  "on_client_request connection server = gsignond_dbus_server_start_auth_service True connection server"

definition on_name_acquired :: "nat \<Rightarrow> server \<Rightarrow> server_fault + server" where
  "on_name_acquired connection server = gsignond_dbus_server_start_auth_service False connection server"

definition on_name_lost :: "server \<Rightarrow> server_fault + server" where
  "on_name_lost server = server_unref False server"

definition close_server :: "server \<Rightarrow> server_fault + server" where
  "close_server server = server_unref False server"

text \<open>
  What can happen: a client connects or the name of the bus is acquired; a connection closes; the timer of a service lets it
  go; the name is lost; an idle source runs; the program lets the server go. A callback that nobody is connected
  for does nothing.
\<close>

datatype server_event =
    Connects nat
  | Closes nat
  | Service_times_out nat
  | Name_lost
  | Idle_runs
  | Let_go

fun server_step :: "bool \<Rightarrow> server_event \<Rightarrow> server \<Rightarrow> server_fault + server" where
  "server_step p2p (Connects c) s =
     (if sv_refs s = 0 then Inr s else if p2p then on_client_request c s else on_name_acquired c s)"
| "server_step p2p (Closes c) s =
     (if c \<notin> set (sv_closed_handlers s) then Inr s
      else if sv_refs s = 0 then Inl Freed_server else on_connection_closed p2p c s)"
| "server_step p2p (Service_times_out v) s = (if v \<in> set (sv_alive s) then release_service p2p v s else Inr s)"
| "server_step p2p Name_lost s = (if p2p \<or> sv_refs s = 0 then Inr s else on_name_lost s)"
| "server_step p2p Idle_runs s =
     (if p2p \<or> sv_idle s = 0 then Inr s else close_server (s\<lparr>sv_idle := sv_idle s - 1\<rparr>))"
| "server_step p2p Let_go s = (if sv_refs s = 0 then Inr s else server_unref p2p s)"

fun server_run :: "bool \<Rightarrow> server_event list \<Rightarrow> server \<Rightarrow> server_fault + server" where
  "server_run p2p [] s = Inr s"
| "server_run p2p (e # es) s = (case server_step p2p e s of Inl f \<Rightarrow> Inl f | Inr s \<Rightarrow> server_run p2p es s)"

subsection \<open>The invariant\<close>

text \<open>
  The services that live are those of the table, each held by one connection and watched; a server of its own has no idle
  source, and one on the bus no handlers; a freed server has no services.
\<close>

definition ids :: "(nat \<times> nat) list \<Rightarrow> nat set" where
  "ids xs = snd ` set xs"

definition server_ok :: "bool \<Rightarrow> server \<Rightarrow> bool" where
  "server_ok p2p s \<longleftrightarrow> distinct (map fst (sv_services s)) \<and> distinct (map snd (sv_services s)) \<and>
     set (sv_alive s) = ids (sv_services s) \<and> distinct (sv_weak_refs s) \<and> set (sv_weak_refs s) = ids (sv_services s) \<and>
     (\<not> p2p \<longrightarrow> sv_closed_handlers s = []) \<and> (p2p \<longrightarrow> sv_idle s = 0) \<and>
     (sv_refs s = 0 \<longrightarrow> sv_services s = []) \<and> (\<forall>v \<in> ids (sv_services s). v < sv_next s)"

lemma ids_Nil [simp]: "ids [] = {}"
  by (simp add: ids_def)

lemma idsI: "(c, v) \<in> set xs \<Longrightarrow> v \<in> ids xs"
  by (force simp: ids_def)

lemma ids_filter [simp]: "ids (filter (\<lambda>(c, v). v \<noteq> w) xs) = ids xs - {w}"
  by (force simp: ids_def)

lemma server_new_ok: "server_ok p2p gsignond_dbus_server_new"
  by (simp add: server_ok_def gsignond_dbus_server_new_def)

lemma delete_filter_value:
  "distinct (map fst xs) \<Longrightarrow> (c, v) \<in> set xs \<Longrightarrow>
   filter (\<lambda>(d, w). w \<noteq> v) (AList.delete c xs) = filter (\<lambda>(d, w). w \<noteq> v) xs"
  by (auto simp: AList.delete_eq intro!: filter_cong dest: eq_key_imp_eq_value)

lemma update_values:
  assumes "distinct (map fst xs)" "distinct (map snd xs)" "n \<notin> ids xs"
  shows "distinct (map snd (AList.update c n xs)) \<and> ids (AList.update c n xs) = insert n (ids xs - set_option (map_of xs c))"
  using assms
proof (induction xs)
  case (Cons x xs)
  obtain d v where x: "x = (d, v)" by (cases x)
  have new: "v \<notin> ids xs" "n \<notin> ids xs" "v \<noteq> n" "map_of xs d = None" and "ids (x # xs) = insert v (ids xs)"
    using Cons.prems x by (auto simp: ids_def map_of_eq_None_iff)
  have IH: "distinct (map snd (AList.update c n xs))" "ids (AList.update c n xs) = insert n (ids xs - set_option (map_of xs c))"
    using Cons new(2) by auto
  have out: "v \<notin> set (map snd ys) \<longleftrightarrow> v \<notin> ids ys" for ys
    by (simp add: ids_def)
  show ?case
  proof (cases "d = c")
    case True
    then show ?thesis
      using Cons.prems x new by (auto simp: ids_def)
  next
    case False
    have "v \<notin> set_option (map_of xs c)"
      using new(1) by (auto dest: map_of_SomeD idsI)
    moreover have "ids (AList.update c n (x # xs)) = insert v (ids (AList.update c n xs))"
      using False x by (simp add: ids_def)
    ultimately show ?thesis
      using False x new IH \<open>ids (x # xs) = _\<close> out [of "AList.update c n xs"] by auto
  qed
qed (simp add: ids_def)

lemma distinct_filter_values:
  "distinct (map fst xs) \<Longrightarrow> distinct (map fst (filter P xs))" "distinct (map snd xs) \<Longrightarrow> distinct (map snd (filter P xs))"
  by (simp_all add: distinct_map_filter)

lemma release_watched:
  assumes "v \<in> set (sv_alive s)" "v \<in> set (sv_weak_refs s)" "0 < sv_refs s"
  shows "release_service p2p v s = Inr (on_auth_service_dispose p2p v
    (s\<lparr>sv_alive := removeAll v (sv_alive s), sv_weak_refs := removeAll v (sv_weak_refs s)\<rparr>))"
  using assms by (simp add: release_service_def Let_def)

lemma dispose_fields:
  "sv_services (on_auth_service_dispose p2p v s) = filter (\<lambda>(c, w). w \<noteq> v) (sv_services s)"
  "sv_alive (on_auth_service_dispose p2p v s) = sv_alive s" "sv_weak_refs (on_auth_service_dispose p2p v s) = sv_weak_refs s"
  "sv_closed_handlers (on_auth_service_dispose p2p v s) = sv_closed_handlers s" "sv_refs (on_auth_service_dispose p2p v s) = sv_refs s"
  "sv_next (on_auth_service_dispose p2p v s) = sv_next s" "p2p \<Longrightarrow> sv_idle (on_auth_service_dispose p2p v s) = sv_idle s"
  by (simp_all add: on_auth_service_dispose_def Let_def)

text \<open>The end of a service that is in the table.\<close>

lemma timeout_ok:
  assumes "server_ok p2p s" "v \<in> set (sv_alive s)"
  shows "\<exists>t. release_service p2p v s = Inr t \<and> server_ok p2p t"
proof -
  have "0 < sv_refs s" "v \<in> set (sv_weak_refs s)"
    using assms by (auto simp: server_ok_def)
  then show ?thesis
    using assms release_watched [of v s p2p] unfolding server_ok_def
    by (simp add: dispose_fields distinct_filter_values distinct_removeAll)
qed

text \<open>The end of one that has just left the table.\<close>

lemma loose_ok:
  assumes "server_ok p2p s" "map_of (sv_services s) c = Some v" "0 < sv_refs s"
  shows "\<exists>t. release_service p2p v (s\<lparr>sv_services := AList.delete c (sv_services s)\<rparr>) = Inr t \<and> server_ok p2p t"
proof -
  have v: "(c, v) \<in> set (sv_services s)"
    using assms(2) by (rule map_of_SomeD)
  have "filter (\<lambda>(d, w). w \<noteq> v) (AList.delete c (sv_services s)) = filter (\<lambda>(d, w). w \<noteq> v) (sv_services s)"
    using v assms(1) by (intro delete_filter_value) (simp_all add: server_ok_def)
  then have "on_auth_service_dispose p2p v (s\<lparr>sv_services := AList.delete c (sv_services s), sv_alive := a, sv_weak_refs := w\<rparr>) =
      on_auth_service_dispose p2p v (s\<lparr>sv_alive := a, sv_weak_refs := w\<rparr>)" for a w
    by (simp add: on_auth_service_dispose_def Let_def)
  moreover have "v \<in> set (sv_alive s)" "v \<in> set (sv_weak_refs s)"
    using idsI [OF v] assms(1) by (simp_all add: server_ok_def)
  ultimately show ?thesis
    using timeout_ok [OF assms(1), of v] assms(3) release_watched [of v s p2p]
      release_watched [of v "s\<lparr>sv_services := AList.delete c (sv_services s)\<rparr>" p2p] by simp
qed

text \<open>A new service; one that the connection had before is released.\<close>

lemma start_ok:
  assumes "server_ok p2p s" "0 < sv_refs s"
  shows "\<exists>t. gsignond_dbus_server_start_auth_service p2p c s = Inr t \<and> server_ok p2p t"
proof -
  let ?n = "sv_next s" and ?xs = "sv_services s"
  let ?s = "s\<lparr>sv_next := Suc ?n, sv_alive := ?n # sv_alive s, sv_services := AList.update c ?n ?xs\<rparr>"
  have new: "?n \<notin> ids ?xs" "distinct (map fst ?xs)" "distinct (map snd ?xs)"
    using assms(1) by (auto simp: server_ok_def)
  have upd: "distinct (map fst (AList.update c ?n ?xs))" "distinct (map snd (AList.update c ?n ?xs))"
    "ids (AList.update c ?n ?xs) = insert ?n (ids ?xs - set_option (map_of ?xs c))"
    using update_values [OF new(2,3,1), of c] new(2) by (simp_all add: distinct_update)
  show ?thesis
  proof (cases "map_of ?xs c")
    case None
    then show ?thesis
      using assms upd unfolding server_ok_def gsignond_dbus_server_start_auth_service_def
      by (auto simp: Let_def less_Suc_eq)
  next
    case (Some v)
    have v: "v \<in> ids ?xs" using Some by (auto dest: map_of_SomeD idsI)
    then have "v \<noteq> ?n" "v \<in> set (sv_alive ?s)" "v \<in> set (sv_weak_refs ?s)"
      using assms(1) new(1) by (auto simp: server_ok_def)
    moreover have "filter (\<lambda>(d, w). w \<noteq> v) (AList.update c ?n ?xs) = AList.update c ?n ?xs"
      using upd(3) Some v \<open>v \<noteq> ?n\<close> by (auto simp: filter_id_conv dest: idsI)
    moreover have "AList.update c ?n ?xs \<noteq> []"
      using upd(3) by (metis ids_Nil insert_not_empty)
    ultimately have "release_service p2p v ?s = Inr (?s\<lparr>sv_alive := ?n # removeAll v (sv_alive s), sv_weak_refs := removeAll v (sv_weak_refs s)\<rparr>)"
      using release_watched [of v ?s p2p] assms(2) by (simp add: on_auth_service_dispose_def Let_def)
    then show ?thesis
      using assms upd Some new(1) unfolding server_ok_def gsignond_dbus_server_start_auth_service_def
      by (auto simp: Let_def less_Suc_eq distinct_removeAll)
  qed
qed

lemma remove1_all: "distinct ws \<Longrightarrow> set (fold remove1 xs ws) = set ws - set xs \<and> distinct (fold remove1 xs ws)"
  by (induction xs arbitrary: ws) (auto simp: set_remove1_eq)

lemma clear_watchers_fields:
  "sv_weak_refs (fold (\<lambda>(c, v). clear_watchers p2p c v) xs s) = fold remove1 (map snd xs) (sv_weak_refs s)"
  "sv_alive (fold (\<lambda>(c, v). clear_watchers p2p c v) xs s) = sv_alive s"
  "sv_idle (fold (\<lambda>(c, v). clear_watchers p2p c v) xs s) = sv_idle s"
  "\<not> p2p \<Longrightarrow> sv_closed_handlers (fold (\<lambda>(c, v). clear_watchers p2p c v) xs s) = sv_closed_handlers s"
  by (induction xs arbitrary: s) (auto simp: clear_watchers_def Let_def)

lemma release_unwatched:
  "distinct vs \<Longrightarrow> set vs \<subseteq> set (sv_alive s) \<Longrightarrow> sv_weak_refs s = [] \<Longrightarrow>
   release_services p2p vs s = Inr (s\<lparr>sv_alive := filter (\<lambda>v. v \<notin> set vs) (sv_alive s)\<rparr>)"
proof (induction vs arbitrary: s)
  case (Cons v vs)
  have "release_service p2p v s = Inr (s\<lparr>sv_alive := removeAll v (sv_alive s)\<rparr>)"
    using Cons.prems by (simp add: release_service_def Let_def)
  moreover have "filter (\<lambda>w. w \<notin> set vs) (removeAll v (sv_alive s)) = filter (\<lambda>w. w \<notin> set (v # vs)) (sv_alive s)"
    by (auto simp: removeAll_filter_not_eq intro: filter_cong)
  ultimately show ?case
    using Cons.IH [of "s\<lparr>sv_alive := removeAll v (sv_alive s)\<rparr>"] Cons.prems by auto
qed simp

lemma unref_ok:
  assumes "server_ok p2p s" "0 < sv_refs s"
  shows "\<exists>t. server_unref p2p s = Inr t \<and> server_ok p2p t"
proof (cases "sv_refs s = 1")
  case False
  then show ?thesis using assms by (auto simp: server_unref_def server_ok_def)
next
  case True
  let ?vs = "map snd (sv_services s)"
  let ?u = "fold (\<lambda>(c, v). clear_watchers p2p c v) (sv_services s) s"
  have ok: "distinct ?vs" "set (sv_alive s) = set ?vs" "distinct (sv_weak_refs s)" "set (sv_weak_refs s) = set ?vs"
      "\<not> p2p \<longrightarrow> sv_closed_handlers s = []" "p2p \<longrightarrow> sv_idle s = 0"
    using assms(1) by (simp_all add: server_ok_def ids_def)
  have "set (sv_weak_refs ?u) = {}"
    using remove1_all [OF ok(3), of ?vs] ok(4) by (simp only: clear_watchers_fields) simp
  then have weak: "sv_weak_refs (?u\<lparr>sv_services := []\<rparr>) = []" by simp
  have alive: "sv_alive (?u\<lparr>sv_services := []\<rparr>) = sv_alive s"
    by (simp add: clear_watchers_fields)
  have "release_services p2p ?vs (?u\<lparr>sv_services := []\<rparr>) = Inr (?u\<lparr>sv_services := [], sv_alive := []\<rparr>)"
    using release_unwatched [OF ok(1) _ weak, of p2p] ok(2) by (simp add: alive filter_empty_conv)
  then have "server_unref p2p s = Inr (?u\<lparr>sv_services := [], sv_alive := [], sv_refs := 0\<rparr>)"
    using True by (simp add: server_unref_def dbus_server_dispose_def Let_def)
  moreover have "server_ok p2p (?u\<lparr>sv_services := [], sv_alive := [], sv_refs := 0\<rparr>)"
    using ok weak by (simp add: server_ok_def clear_watchers_fields)
  ultimately show ?thesis by blast
qed

text \<open>What is left over when the server is freed, and calls back with it.\<close>

definition calls_freed :: "bool \<Rightarrow> server_event \<Rightarrow> server \<Rightarrow> bool" where
  "calls_freed p2p e s \<longleftrightarrow> sv_refs s = 0 \<and>
     (case e of Closes c \<Rightarrow> p2p \<and> c \<in> set (sv_closed_handlers s) | Idle_runs \<Rightarrow> \<not> p2p \<and> 0 < sv_idle s | _ \<Rightarrow> False)"

lemma closed_ok:
  assumes "server_ok p2p s" "0 < sv_refs s" "c \<in> set (sv_closed_handlers s)"
  shows "\<exists>t. on_connection_closed p2p c s = Inr t \<and> server_ok p2p t"
proof -
  let ?s = "s\<lparr>sv_closed_handlers := removeAll c (sv_closed_handlers s)\<rparr>"
  have "server_ok p2p ?s"
    using assms(1) unfolding server_ok_def by simp
  then show ?thesis
    using loose_ok [of p2p ?s c] assms(2) by (cases "map_of (sv_services s) c") (auto simp: on_connection_closed_def Let_def)
qed

lemmas server_callbacks = on_client_request_def on_name_acquired_def on_name_lost_def close_server_def

lemma server_step_ok:
  assumes "server_ok p2p s"
  shows "if calls_freed p2p e s then server_step p2p e s = Inl Freed_server
    else \<exists>t. server_step p2p e s = Inr t \<and> server_ok p2p t"
proof (cases e)
  case (Connects c)
  then show ?thesis using assms start_ok [OF assms, of c] by (cases p2p) (simp_all add: calls_freed_def server_callbacks)
next
  case (Closes c)
  have "p2p" if "c \<in> set (sv_closed_handlers s)"
    using that assms by (cases p2p) (auto simp: server_ok_def)
  then show ?thesis using Closes assms closed_ok [OF assms, of c] by (auto simp: calls_freed_def)
next
  case (Service_times_out v)
  then show ?thesis using assms timeout_ok [OF assms, of v] by (auto simp: calls_freed_def)
next
  case Name_lost
  then show ?thesis using assms unref_ok [OF assms] by (cases p2p) (auto simp: calls_freed_def server_callbacks)
next
  case Idle_runs
  let ?s = "s\<lparr>sv_idle := sv_idle s - 1\<rparr>"
  have "server_ok p2p ?s" using assms unfolding server_ok_def by simp
  moreover have "\<not> p2p" if "0 < sv_idle s"
    using that assms by (auto simp: server_ok_def)
  moreover have "server_unref p2p ?s = Inl Freed_server" if "sv_refs s = 0"
    using that by (simp add: server_unref_def)
  ultimately show ?thesis
    using Idle_runs assms unref_ok [of p2p ?s] by (cases p2p; cases "sv_refs s = 0") (auto simp: calls_freed_def server_callbacks)
next
  case Let_go
  then show ?thesis using assms unref_ok [OF assms] by (auto simp: calls_freed_def)
qed

text \<open>
  Whatever happens to a server, in either build and in any order: every service is released exactly once, those that live are the
  ones of the table, each for one connection, and nothing is called back with a freed server, except for an
  idle source that was pending, and for the handler of a connection whose service had ended before it.
\<close>

lemma server_runs:
  "server_run p2p es gsignond_dbus_server_new = Inr s \<Longrightarrow>
     server_ok p2p s \<and> (server_step p2p e s = Inl f \<longleftrightarrow> f = Freed_server \<and> calls_freed p2p e s)"
proof -
  have run: "server_run p2p es s0 = Inr s \<Longrightarrow> server_ok p2p s0 \<Longrightarrow> server_ok p2p s" for s0
  proof (induction es arbitrary: s0)
    case (Cons e es)
    then show ?case
      using server_step_ok [of p2p s0 e] by (auto split: sum.splits if_splits)
  qed simp
  assume "server_run p2p es gsignond_dbus_server_new = Inr s"
  from run [OF this server_new_ok] show ?thesis
    using server_step_ok [of p2p s e] by (auto split: if_splits)
qed

text \<open>Both leftovers occur.\<close>

lemma leftover_handler:
  "server_run True [Connects 1, Service_times_out 0, Let_go, Closes 1] gsignond_dbus_server_new = Inl Freed_server"
  by code_simp

lemma leftover_idle:
  "server_run False [Connects 1, Service_times_out 0, Name_lost, Idle_runs] gsignond_dbus_server_new = Inl Freed_server"
  by code_simp

end
