(* ===== verification/Gsso_Extension.thy ===== *)
theory Gsso_Extension
  imports Gsso_Storage_Manager
begin

text \<open>
  Extensions: \<^verbatim>\<open>src/src/common/gsignond-extension-interface.c\<close> and \<^verbatim>\<open>src/src/extensions/tizen/tizen-extension.c\<close>, which make
  the managers of the daemon, and the choice of one in \<^verbatim>\<open>src/src/daemon/gsignond-daemon.c\<close> (\<^verbatim>\<open>_init_extensions\<close>,
  \<^verbatim>\<open>_init_extension\<close>, and the start of \<^verbatim>\<open>gsignond_daemon_init\<close>). An extension makes each manager once; what the modules
  on the disk contain is a parameter.
\<close>

record ('a, 'm, 't) extension_class =
  xc_name :: string
  xc_version :: "32 word"
  xc_new_access_control_manager :: "config \<Rightarrow> 'a"
  xc_new_storage_manager :: "config \<Rightarrow> 'm"
  xc_new_secret_storage :: "config \<Rightarrow> 't"

record ('a, 'm, 't) extension =
  x_class :: "('a, 'm, 't) extension_class"
  x_access_control_manager :: "'a option"
  x_storage_manager :: "'m option"
  x_secret_storage :: "'t option"

definition gsignond_extension_init :: "('a, 'm, 't) extension_class \<Rightarrow> ('a, 'm, 't) extension" where
  "gsignond_extension_init cls =
     \<lparr>x_class = cls, x_access_control_manager = None, x_storage_manager = None, x_secret_storage = None\<rparr>"

definition extension_dispose :: "('a, 'm, 't) extension \<Rightarrow> ('a, 'm, 't) extension" where
  "extension_dispose self =
     self\<lparr>x_access_control_manager := None, x_secret_storage := None, x_storage_manager := None\<rparr>"

definition gsignond_extension_get_name :: "('a, 'm, 't) extension \<Rightarrow> string" where
  "gsignond_extension_get_name self = xc_name (x_class self)"

definition gsignond_extension_get_version :: "('a, 'm, 't) extension \<Rightarrow> 32 word" where
  "gsignond_extension_get_version self = xc_version (x_class self)"

definition get_storage_manager :: "config \<Rightarrow> ('a, 'm, 't) extension \<Rightarrow> 'm \<times> ('a, 'm, 't) extension" where
  "get_storage_manager cfg self =
     (case x_storage_manager self of
        Some m \<Rightarrow> (m, self)
      | None \<Rightarrow> let m = xc_new_storage_manager (x_class self) cfg in (m, self\<lparr>x_storage_manager := Some m\<rparr>))"

definition get_secret_storage :: "config \<Rightarrow> ('a, 'm, 't) extension \<Rightarrow> 't \<times> ('a, 'm, 't) extension" where
  "get_secret_storage cfg self =
     (case x_secret_storage self of
        Some t \<Rightarrow> (t, self)
      | None \<Rightarrow> let t = xc_new_secret_storage (x_class self) cfg in (t, self\<lparr>x_secret_storage := Some t\<rparr>))"

definition get_access_control_manager :: "config \<Rightarrow> ('a, 'm, 't) extension \<Rightarrow> 'a \<times> ('a, 'm, 't) extension" where
  "get_access_control_manager cfg self =
     (case x_access_control_manager self of
        Some a \<Rightarrow> (a, self)
      | None \<Rightarrow> let a = xc_new_access_control_manager (x_class self) cfg in (a, self\<lparr>x_access_control_manager := Some a\<rparr>))"

text \<open>The two classes of the repository, given what makes their managers.\<close>

definition gsignond_extension_class ::
  "(config \<Rightarrow> 'a) \<Rightarrow> (config \<Rightarrow> 'm) \<Rightarrow> (config \<Rightarrow> 't) \<Rightarrow> ('a, 'm, 't) extension_class" where
  "gsignond_extension_class acm sm ss =
     \<lparr>xc_name = ''default'', xc_version = 0, xc_new_access_control_manager = acm, xc_new_storage_manager = sm,
      xc_new_secret_storage = ss\<rparr>"

definition extension_tizen_class ::
  "(config \<Rightarrow> 'a) \<Rightarrow> (config \<Rightarrow> 'm) \<Rightarrow> (config \<Rightarrow> 't) \<Rightarrow> ('a, 'm, 't) extension_class" where
  "extension_tizen_class acm sm ss =
     \<lparr>xc_name = ''tizen'', xc_version = 0x01000000, xc_new_access_control_manager = acm, xc_new_storage_manager = sm,
      xc_new_secret_storage = ss\<rparr>"

subsection \<open>The choice of an extension\<close>

text \<open>
  \<open>xe_open\<close>: the symbols of a module, or \<open>None\<close> when it cannot be opened. A symbol gives an extension, or \<open>None\<close>.
\<close>

record ('a, 'm, 't) extension_env =
  xe_debug :: bool
  xe_environment :: "string \<Rightarrow> cstr"
  xe_dir :: string
  xe_build_path :: "string \<Rightarrow> string \<Rightarrow> cstr"
  xe_open :: "string \<Rightarrow> (string \<Rightarrow> ('a, 'm, 't) extension option option) option"
  xe_default :: "('a, 'm, 't) extension"

definition init_extension :: "config \<Rightarrow> ('a, 'm, 't) extension \<Rightarrow> 'm \<times> 't \<times> 'a \<times> ('a, 'm, 't) extension" where
  "init_extension cfg self =
     (case get_storage_manager cfg self of (m, self) \<Rightarrow>
      case get_secret_storage cfg self of (t, self) \<Rightarrow>
      case get_access_control_manager cfg self of (a, self) \<Rightarrow> (m, t, a, self))"

text \<open>\<open>None\<close>: no extension, and so no managers.\<close>

definition init_extensions ::
  "('a, 'm, 't) extension_env \<Rightarrow> config \<Rightarrow> ('m \<times> 't \<times> 'a \<times> ('a, 'm, 't) extension) option" where
  "init_extensions env cfg =
     (let ext_path = (if xe_debug env then
                        (case xe_environment env ''SSO_EXTENSIONS_DIR'' of Some p \<Rightarrow> p | None \<Rightarrow> xe_dir env)
                      else xe_dir env);
          ext_name = gsignond_config_get_string cfg ''General/Extension'';
          extension =
            (case ext_name of
               None \<Rightarrow> Some (xe_default env)
             | Some n \<Rightarrow>
                 if g_strcmp0 (Some n) (Some ''default'') = 0 then Some (xe_default env)
                 else
                   (case xe_build_path env ext_path (''extension-'' @ n) of
                      None \<Rightarrow> None
                    | Some mod_filename \<Rightarrow>
                        (case xe_open env mod_filename of
                           None \<Rightarrow> None
                         | Some symbols \<Rightarrow>
                             (case symbols (n @ ''_extension_init'') of
                                None \<Rightarrow> None
                              | Some ext \<Rightarrow> ext))))
      in map_option (init_extension cfg) extension)"

text \<open>
  The start of the daemon: a failure is reported, and the storage is initialized all the same. \<open>None\<close>: through a manager
  that is NULL.
\<close>

definition daemon_init_storage ::
  "('a, 'm, 't) extension_env \<Rightarrow> 'm storage_class \<Rightarrow> config \<Rightarrow> os \<Rightarrow> (bool \<times> 'm \<times> config \<times> os) option" where
  "daemon_init_storage env cls cfg s =
     (case init_extensions env cfg of
        None \<Rightarrow> None
      | Some (m, t, a, extension) \<Rightarrow> Some (init_storage_with cls m cfg s))"

subsection \<open>Managers are made once\<close>

text \<open>Whatever configuration is given later, the managers are those that were made first.\<close>

lemma managers_made_once:
  "init_extension cfg ext = (m, t, a, ext') \<Longrightarrow> init_extension cfg' ext' = (m, t, a, ext')"
  by (auto simp: init_extension_def get_storage_manager_def get_secret_storage_def get_access_control_manager_def Let_def
      split: option.splits prod.splits)

lemma managers_after_dispose:
  "init_extension cfg (extension_dispose ext) =
    (xc_new_storage_manager (x_class ext) cfg, xc_new_secret_storage (x_class ext) cfg,
     xc_new_access_control_manager (x_class ext) cfg,
     ext\<lparr>x_storage_manager := Some (xc_new_storage_manager (x_class ext) cfg),
         x_secret_storage := Some (xc_new_secret_storage (x_class ext) cfg),
         x_access_control_manager := Some (xc_new_access_control_manager (x_class ext) cfg)\<rparr>)"
  by (simp add: init_extension_def extension_dispose_def get_storage_manager_def get_secret_storage_def
      get_access_control_manager_def Let_def)

text \<open>A configured extension that cannot be loaded takes the daemon down at its start; without one the default is used.\<close>

lemma missing_extension_crashes:
  assumes "gsignond_config_get_string cfg ''General/Extension'' = Some n" "n \<noteq> ''default''"
    and "\<And>path. xe_open env path = None"
  shows "daemon_init_storage env cls cfg s = None"
  using assms by (simp add: daemon_init_storage_def init_extensions_def Let_def split: option.split)

lemma default_extension_starts:
  assumes "gsignond_config_get_string cfg ''General/Extension'' \<in> {None, Some ''default''}"
    and "xe_default env = gsignond_extension_init (gsignond_extension_class acm sm ss)"
  shows "daemon_init_storage env cls cfg s = Some (init_storage_with cls (sm cfg) cfg s)"
  using assms by (auto simp: daemon_init_storage_def init_extensions_def init_extension_def gsignond_extension_init_def
      gsignond_extension_class_def get_storage_manager_def get_secret_storage_def get_access_control_manager_def Let_def)

end
