(* ===== verification/Spec2Isabelle.thy ===== *)
theory Spec2Isabelle
  imports Gsso_Security_Context Gsso_Utils Gsso_Identity_Info Gsso_Signonui_Data Gsso_Error
    Gsso_Credentials Gsso_Disposable Gsso_Plugin_Proxy
    Gsso_Access_Control Gsso_Auth_Session Gsso_Secret_Database
    Gsso_Credentials_Database Gsso_Signonui_Proxy Gsso_Plugins Gsso_Plugin_Factory Gsso_Daemon
    Gsso_Identity Gsso_Identity_Access Gsso_Identity_Graph Gsso_Identity_Store Gsso_Identity_Query
    Gsso_Identity_Dialogs Gsso_Plugin_Link Gsso_Dbus_Session_Calls Gsso_Dbus_Service_Life
    Gsso_Nonce Gsso_Daemon_Storage Gsso_Test_Plugin Gsso_Dbus_Server Gsso_Extension
begin

text \<open>
  A model of gsignond, the single sign-on daemon of the Accounts SSO project, and the theorems that
  make its core correct. Paths are relative to \<^verbatim>\<open>src/src\<close>.

  \<^bold>\<open>The program.\<close> An application asks the daemon over D-Bus for an identity (a user account), and from
  an identity for an authentication session with a method. The session checks the access of the peer,
  fills the request with what the identity stores, and queues it at the plugin proxy of the method;
  the proxy runs one request at a time in a plugin process and hands its signals back to the session
  it is working for. Identities are kept in two SQLite databases: one for metadata, and one for
  secrets. Access is decided by an access control manager, which an extension can replace.

  \<^bold>\<open>The theories\<close>, each after the file it translates; a definition has the name of its C function (a
  leading underscore dropped).

  \<^item> \<open>Gsso_Prelude\<close>: GLib's values (variants, dictionaries, sequences, the source ids of the main
    loop), orders given by comparison functions, and lemmas on association lists.
  \<^item> \<open>Gsso_Dictionary\<close>, \<open>Gsso_Security_Context\<close>, \<open>Gsso_Utils\<close>, \<open>Gsso_Error\<close>,
    \<open>Gsso_Credentials\<close>, \<open>Gsso_Config\<close>: the value types of \<^verbatim>\<open>common\<close>. A hash table is an association list with
    distinct keys, whose order is that of the iteration; the theorems speak of its map.
  \<^item> \<open>Gsso_Session_Data\<close>, \<open>Gsso_Signonui_Data\<close>: dictionaries with typed accessors. The locale
    \<open>data_field\<close> is the contract of a pair of accessors, interpreted for each pair.
  \<^item> \<open>Gsso_Identity_Info\<close>, \<open>Gsso_Identity_Fields\<close>: the description of an identity with its edit flags. The locale
    \<open>tracked_setter\<close> is the contract of a setter, interpreted for each of the twelve; \<open>identity_field\<close> is that of
    a stored field.
  \<^item> \<open>Gsso_Disposable\<close>: objects that delete themselves; state: the counter, the timer and the sources of
    the main loop. Time is a sequence of firings of the sources.
  \<^item> \<open>Gsso_Wipe\<close>, \<open>Gsso_Nonce\<close>: the wiping of files and the nonces of \<^verbatim>\<open>common/gsignond-utils.c\<close>, over a model of
    the system calls, any of which may fail.
  \<^item> \<open>Gsso_Storage_Manager\<close>: the default manager of the storage and that of Tizen, as instances of the locale
    \<open>storage_contract\<close>; \<open>Gsso_Daemon_Storage\<close> puts them under the daemon, and \<open>Gsso_Extension\<close> is how it gets them.
  \<^item> \<open>Gsso_Plugin_Proxy\<close>: the queue of requests of a plugin; the log holds the calls of the plugin and
    of the sessions, in order. The abstract specification is a first-in first-out server, and the
    proxy is proved to refine it.
  \<^item> \<open>Gsso_Plugins\<close>, \<open>Gsso_Test_Plugin\<close>: the password, the digest and the test plugin; \<open>answering_plugin\<close> is what a
    session relies on.
  \<^item> \<open>Gsso_Plugin_Remote\<close>, \<open>Gsso_Plugin_Link\<close>: both ends of the link between the daemon and the process of a plugin,
    with the pipes between them (\<^verbatim>\<open>daemon/plugins/gsignond-plugin-remote.c\<close>, \<^verbatim>\<open>gplugind/gsignond-plugin-daemon.c\<close>),
    proved to refine a plugin that is called directly. \<open>table_plugin\<close>: a plugin whose dictionaries
    have distinct keys.
  \<^item> \<open>Gsso_Plugin_Factory\<close>: the loaders and plugins that are found, and the proxies that are shared.
  \<^item> \<open>Gsso_Access_Control\<close>: the managers of the base class and of Tizen, as instances of the locale
    \<open>access_policy\<close>.
  \<^item> \<open>Gsso_Auth_Session\<close>: sessions over the proxy, with the heap of process data, so that a use of freed
    memory is an outcome.
  \<^item> \<open>Gsso_Sql_Database\<close>: the wrapper of SQLite. The locale \<open>atomic_write\<close> is the contract of a write,
    whatever calls of SQLite fail.
  \<^item> \<open>Gsso_Secret_Database\<close>, \<open>Gsso_Secret_Storage\<close>: credentials and method data over the wrapper, and the class of
    secret storages with its contract \<open>credential_store\<close>.
  \<^item> \<open>Gsso_Metadata_Database\<close>, \<open>Gsso_Metadata_Roundtrip\<close>, \<open>Gsso_Metadata_References\<close>: the tables of identities with their
    keys and triggers; what is stored is loaded; references and removal.
  \<^item> \<open>Gsso_Credentials_Database\<close>: an identity in both databases.
  \<^item> \<open>Gsso_Signonui_Proxy\<close>: the queue of dialogs and the connection to the user interface.
  \<^item> \<open>Gsso_Daemon\<close>, \<open>Gsso_Identity\<close>: the daemon with its cache of identities, and the operations of an
    identity; \<open>Gsso_Identity_Access\<close> who may call them (\<open>guarded_daemon\<close>), \<open>Gsso_Identity_Graph\<close> the invariant of
    the tables of objects, \<open>Gsso_Identity_Store\<close>, \<open>Gsso_Identity_Query\<close> and \<open>Gsso_Identity_Dialogs\<close> what storing,
    queries and dialogs do.
  \<^item> \<open>Gsso_Dbus_Auth_Session\<close>, \<open>Gsso_Dbus_Service\<close>: the objects on the bus (\<^verbatim>\<open>daemon/dbus\<close>);
    \<open>Gsso_Dbus_Session_Calls\<close>, \<open>Gsso_Dbus_Service_Calls\<close> what a call is answered, \<open>Gsso_Dbus_Service_Life\<close> how long the
    objects live; \<open>Gsso_Dbus_Server\<close>: the server that gives each connection its object.

  \<^bold>\<open>What is shown.\<close> Each property stands after a text that names it. The value types: accessors, round
  trips through variants, orders and comparisons. Identity descriptions: what setters record, what a
  copy and a variant contain, and that secrets are never exported. Objects: none is disposed while it
  is held. Proxies and dialogs: requests are served in order, each is answered once, and which calls cancel. The link to
  a plugin: signals arrive as if it were called directly, until its process ends. Access: who may use an
  identity, and which mechanisms a session may use. Databases: all or nothing for every pattern of failing calls, and what
  is stored is what is loaded. The daemon: its tables stay well formed over every operation, and what a caller may see. The
  bus: every call is checked for its caller, and answered. The storage: what is wiped, that the rights of root are given
  back unless just this fails, and that nonces have distinct inputs. What is shown holds up to the first
  step whose behaviour is undefined, and a text says where more than that is supposed.

  \<^bold>\<open>Bounds and conventions.\<close> 32-bit integers are words. No definition uses fuel: loops are structural recursions
  on lists, \<open>process_next_request\<close> ends since the queue gets shorter, and \<open>wipe_pass\<close> since what is left of the file
  does. A C string that may be NULL is a \<open>string option\<close>; an undefined step (a read of freed memory, a corrupted queue) is
  \<open>None\<close> or a value of a type of faults. A list of outcomes says which calls of SQLite and of the system fail. Virtual
  classes are records of functions with a locale for their contract. Functions that belong to GLib, SQLite, the kernel
  or the bus are parameters or are represented by their documented behaviour.

  \<^bold>\<open>Not modelled.\<close> The plumbing of GObject (properties, signals, class structures), logging, the marshalling generated
  from the interface descriptions, the files of the bus server's socket and the owning of its name, the main
  programs, the loading of shared objects and the stream over pipes in the process of a plugin, the managers for the
  tests, and the disposal of the object that gives out identities. These are glue between GLib and
  the parts above: what they decide is in the libraries they call.
\<close>

end
